(* ===== verification/Prelude.thy ===== *)
theory Prelude
  imports Main "HOL-Library.Word"
begin

text \<open>
  Shared vocabulary of the development: bytes and machine words, the bit tricks the
  tools play on characters, and the collections of rewrite rules the component
  theories extend.
\<close>

unbundle bit_operations_syntax

type_synonym byte = "8 word"
type_synonym DWORD = "32 word"
type_synonym QWORD = "64 word"

named_theorems tool_simps \<open>unfolding rules for the system-call programs of the tools\<close>
named_theorems trace_simps \<open>what a projection of a trace does on one event\<close>

lemma unat_byte: "unat (b :: byte) < 256"
  using unsigned_less[of b] by simp

section \<open>Characters\<close>

text \<open>
  The argument loops of the tools test \<open>(c|0x02) == '/'\<close> to recognise a switch
  character and dispatch on \<open>c|0x20\<close> to ignore letter case.
\<close>

definition is_switch :: "char \<Rightarrow> bool" where
  "is_switch c \<longleftrightarrow> (of_char c :: nat) OR 2 = of_char CHR ''/''"

definition fold_case :: "char \<Rightarrow> char" where
  "fold_case c = char_of ((of_char c :: nat) OR 32)"

lemma or_2_eq_47: "(n::nat) OR 2 = 47 \<Longrightarrow> n = 45 \<or> n = 47"
proof -
  assume a: "n OR 2 = 47"
  have "drop_bit 2 (n OR 2) = drop_bit 2 n OR drop_bit 2 2" by (rule drop_bit_or)
  with a have d: "n div 4 = 11" by (simp add: drop_bit_eq_div)
  have "take_bit 2 (n OR 2) = take_bit 2 n OR take_bit 2 2" by (rule take_bit_or)
  with a have m: "(n mod 4) OR 2 = 3" by (simp add: take_bit_eq_mod)
  have "n mod 4 = 0 \<or> n mod 4 = 1 \<or> n mod 4 = 2 \<or> n mod 4 = 3" by presburger
  with m have "n mod 4 = 1 \<or> n mod 4 = 3" by auto
  with d show ?thesis by presburger
qed
lemma is_switch_iff: "is_switch c \<longleftrightarrow> c = CHR ''-'' \<or> c = CHR ''/''"
proof
  assume "is_switch c"
  then have "of_char c = (45::nat) \<or> of_char c = (47::nat)"
    using or_2_eq_47 by (auto simp: is_switch_def)
  moreover have "char_of (45::nat) = CHR ''-''" "char_of (47::nat) = CHR ''/''" by (simp_all add: char_of_def bit_Suc_0_iff)
  ultimately show "c = CHR ''-'' \<or> c = CHR ''/''" by (metis char_of_char)
qed (auto simp: is_switch_def)

end
