(* ===== verification/CStrings.thy ===== *)
theory CStrings
  imports Prelude "HOL-Library.Sublist"
begin

text \<open>
  Strings in memory. A buffer is the list of the characters of one object, a pointer
  into it an index; reading or writing outside the object is undefined in C and is the
  outer \<open>None\<close> of the definitions here. The trimming routines exist twice in the
  repository (\<open>olofstr.c\<close> and \<open>wstring.c\<close>), the searching routines once for bytes and
  once for wide characters (\<open>wmemstr.c\<close>, \<open>wmemwcs.c\<close>).
\<close>

section \<open>The C library's view of a buffer\<close>

abbreviation NUL :: char where "NUL \<equiv> CHR 0x00"
abbreviation BL :: char where "BL \<equiv> CHR '' ''"

text \<open>The string that starts at index \<open>p\<close>, and its length if it ends inside the object.\<close>

definition cstring :: "char list \<Rightarrow> nat \<Rightarrow> string" where
  "cstring m p = takeWhile (\<lambda>c. c \<noteq> NUL) (drop p m)"

definition strlen_at :: "char list \<Rightarrow> nat \<Rightarrow> nat option" where
  "strlen_at m p = (if NUL \<in> set (drop p m) then Some (length (cstring m p)) else None)"

lemma strlen_at_Some_iff:
  "strlen_at m p = Some n \<longleftrightarrow> NUL \<in> set (drop p m) \<and> n = length (cstring m p)"
  by (auto simp: strlen_at_def)

text \<open>Where a string ends, and the shape of the buffer around it.\<close>

lemma cstring_split:
  assumes "NUL \<in> set (drop p m)"
  obtains pre s post where "m = pre @ s @ NUL # post" "length pre = p" "NUL \<notin> set s"
    "cstring m p = s"
proof -
  obtain s post where d: "drop p m = s @ NUL # post" and s: "NUL \<notin> set s"
    using split_list_first[OF assms] by auto
  have "p < length m" using assms by (cases "p < length m") auto
  then have "length (take p m) = p" by simp
  moreover have "m = take p m @ s @ NUL # post" using d by (metis append_take_drop_id)
  moreover have "cstring m p = s" unfolding cstring_def d using s
    by (induction s) auto
  ultimately show ?thesis using s that by metis
qed

lemma cstring_at [simp]:
  "NUL \<notin> set s \<Longrightarrow> length pre = p \<Longrightarrow> cstring (pre @ s @ NUL # post) p = s"
  unfolding cstring_def by (induction s arbitrary: pre) (auto simp: takeWhile_append)

section \<open>Trimming: \<open>strltrm\<close>, \<open>strrtrm\<close>, \<open>strtrm\<close>\<close>

function skip_blanks :: "char list \<Rightarrow> nat \<Rightarrow> nat option" where
  "skip_blanks m p =
    (if p < length m then if m ! p = BL then skip_blanks m (Suc p) else Some p else None)"
  by pat_completeness auto
termination by (relation "measure (\<lambda>(m, p). length m - p)") auto

declare skip_blanks.simps [simp del]

definition strltrm :: "char list \<Rightarrow> nat option \<Rightarrow> nat option option" where
  "strltrm m ptr = (case ptr of None \<Rightarrow> Some None | Some p \<Rightarrow> map_option Some (skip_blanks m p))"

text \<open>
  \<open>while (ptr[--len] == ' ') ptr[len] = 0;\<close> has no lower bound: the second argument is
  one more than the index in the object that is read next, and at \<open>0\<close> the read is
  before the object.
\<close>

fun blank_tail :: "char list \<Rightarrow> nat \<Rightarrow> char list option" where
  "blank_tail m 0 = None"
| "blank_tail m (Suc i) =
    (if i < length m then if m ! i = BL then blank_tail (m[i := NUL]) i else Some m else None)"

definition strrtrm :: "char list \<Rightarrow> nat option \<Rightarrow> (char list \<times> nat option) option" where
  "strrtrm m ptr =
    (case ptr of None \<Rightarrow> Some (m, None)
     | Some p \<Rightarrow>
        (case strlen_at m p of None \<Rightarrow> None
         | Some len \<Rightarrow> map_option (\<lambda>m'. (m', Some p)) (blank_tail m (p + len))))"

definition strtrm :: "char list \<Rightarrow> nat option \<Rightarrow> (char list \<times> nat option) option" where
  "strtrm m ptr =
    (case ptr of None \<Rightarrow> Some (m, None)
     | Some p \<Rightarrow>
        (case skip_blanks m p of None \<Rightarrow> None
         | Some q \<Rightarrow>
            (case strlen_at m q of None \<Rightarrow> None
             | Some len \<Rightarrow> map_option (\<lambda>m'. (m', Some q)) (blank_tail m (q + len)))))"

text \<open>What trimming means on strings.\<close>

definition ltrim :: "string \<Rightarrow> string" where
  "ltrim s = dropWhile (\<lambda>c. c = BL) s"

definition rtrim :: "string \<Rightarrow> string" where
  "rtrim s = rev (dropWhile (\<lambda>c. c = BL) (rev s))"

definition blank :: "string \<Rightarrow> bool" where
  "blank s \<longleftrightarrow> (\<forall>c \<in> set s. c = BL)"

lemma rtrim_append_BL [simp]: "rtrim (s @ [BL]) = rtrim s"
  by (simp add: rtrim_def)

lemma rtrim_append_other: "c \<noteq> BL \<Longrightarrow> rtrim (s @ [c]) = s @ [c]"
  by (simp add: rtrim_def)

lemma rtrim_cases: "blank s \<or> (\<exists>u c n. s = u @ c # replicate n BL \<and> c \<noteq> BL \<and> rtrim s = u @ [c])"
proof (induction s rule: rev_induct)
  case Nil
  then show ?case by (simp add: blank_def)
next
  case (snoc x s)
  show ?case
  proof (cases "x = BL")
    case True
    from snoc show ?thesis
    proof
      assume "blank s"
      with True show ?thesis by (simp add: blank_def)
    next
      assume "\<exists>u c n. s = u @ c # replicate n BL \<and> c \<noteq> BL \<and> rtrim s = u @ [c]"
      then obtain u c n where e: "s = u @ c # replicate n BL" "c \<noteq> BL" and r: "rtrim s = u @ [c]"
        by blast
      have "s @ [x] = u @ c # replicate (Suc n) BL"
        using e True by (simp add: replicate_append_same)
      moreover have "rtrim (s @ [x]) = u @ [c]" using r True by simp
      ultimately have "s @ [x] = u @ c # replicate (Suc n) BL \<and> c \<noteq> BL \<and> rtrim (s @ [x]) = u @ [c]"
        using e by blast
      then show ?thesis by blast
    qed
  next
    case False
    then have "s @ [x] = s @ x # replicate 0 BL \<and> x \<noteq> BL \<and> rtrim (s @ [x]) = s @ [x]"
      by (simp add: rtrim_append_other)
    then show ?thesis by blast
  qed
qed

lemma blank_ltrim: "blank (ltrim s) \<longleftrightarrow> blank s"
  unfolding ltrim_def blank_def by (induction s) auto

lemma skip_blanks_append:
  "\<forall>c \<in> set bs. c = BL \<Longrightarrow> x \<noteq> BL \<Longrightarrow>
    skip_blanks (pre @ bs @ x # post) (length pre) = Some (length pre + length bs)"
proof (induction bs arbitrary: pre)
  case Nil
  then show ?case by (simp add: skip_blanks.simps)
next
  case (Cons b bs)
  then have "skip_blanks ((pre @ [b]) @ bs @ x # post) (length (pre @ [b]))
      = Some (length (pre @ [b]) + length bs)" by (intro Cons.IH) auto
  with Cons.prems show ?case by (subst skip_blanks.simps) simp
qed

lemma blank_tail_replicate:
  "y \<noteq> BL \<Longrightarrow> blank_tail (pre @ y # replicate n BL @ post) (Suc (length pre + n))
    = Some (pre @ y # replicate n NUL @ post)"
proof (induction n arbitrary: post)
  case 0
  then show ?case by simp
next
  case (Suc n)
  have e: "pre @ y # replicate (Suc n) BL @ post = (pre @ y # replicate n BL) @ BL # post"
    by (simp add: replicate_app_Cons_same)
  have "blank_tail (pre @ y # replicate (Suc n) BL @ post) (Suc (length pre + Suc n))
      = blank_tail (pre @ y # replicate n BL @ NUL # post) (Suc (length pre + n))"
    unfolding e by (simp add: nth_append list_update_append)
  also have "\<dots> = Some (pre @ y # replicate n NUL @ NUL # post)"
    using Suc.prems by (rule Suc.IH)
  finally show ?case by (simp add: replicate_app_Cons_same)
qed

lemma blank_tail_blanks: "set (take n m) \<subseteq> {BL} \<Longrightarrow> blank_tail m n = None"
proof (induction n arbitrary: m)
  case (Suc n)
  show ?case
  proof (cases "n < length m")
    case True
    with Suc.prems have "m ! n = BL" and "set (take n (m[n := NUL])) \<subseteq> {BL}"
      by (auto simp: take_Suc_conv_app_nth)
    with True Suc.IH[of "m[n := NUL]"] show ?thesis by simp
  qed simp
qed simp

text \<open>The common core of \<open>strrtrm\<close> and \<open>strtrm\<close>: the string at \<open>p\<close> loses its blank end.\<close>

lemma blank_tail_string:
  assumes "NUL \<notin> set s" and "\<not> blank s"
  shows "\<exists>n. blank_tail (pre @ s @ NUL # post) (length pre + length s)
      = Some (pre @ rtrim s @ replicate n NUL @ NUL # post) \<and> n + length (rtrim s) = length s"
proof -
  obtain u c n where s: "s = u @ c # replicate n BL" and c: "c \<noteq> BL" and r: "rtrim s = u @ [c]"
    using rtrim_cases[of s] assms(2) by blast
  from blank_tail_replicate[OF c, of "pre @ u" n "NUL # post"] show ?thesis
    unfolding r by (intro exI[of _ n]) (simp add: s add.assoc)
qed

lemma skip_blanks_string:
  assumes "NUL \<notin> set s"
  shows "\<exists>n. skip_blanks (pre @ s @ NUL # post) (length pre) = Some (length pre + n) \<and>
      s = replicate n BL @ ltrim s"
proof -
  let ?b = "takeWhile (\<lambda>c. c = BL) s"
  have b: "\<forall>c \<in> set ?b. c = BL" by (auto dest: set_takeWhileD)
  then have "?b = replicate (length ?b) BL" by (metis replicate_eqI)
  then have s: "s = replicate (length ?b) BL @ ltrim s"
    unfolding ltrim_def by (metis takeWhile_dropWhile_id)
  have "skip_blanks (pre @ ?b @ ltrim s @ NUL # post) (length pre) = Some (length pre + length ?b)"
  proof (cases "ltrim s")
    case Nil
    then show ?thesis using skip_blanks_append[OF b, of NUL pre post] by simp
  next
    case (Cons x xs)
    then have "x \<noteq> BL" unfolding ltrim_def
      by (metis (mono_tags) hd_dropWhile list.distinct(1) list.sel(1))
    from skip_blanks_append[OF b this, of pre "xs @ NUL # post"] Cons show ?thesis by simp
  qed
  then have "skip_blanks (pre @ s @ NUL # post) (length pre) = Some (length pre + length ?b)"
    by (simp add: ltrim_def) (metis append.assoc takeWhile_dropWhile_id)
  with s show ?thesis by blast
qed

section \<open>What the trimming routines do\<close>

text \<open>
  \<open>strtrm\<close> on a string with a character that is not a blank: the returned pointer is at
  the trimmed string, and nothing outside the string changed.
\<close>

lemma strtrm_string:
  assumes "NUL \<notin> set s" "\<not> blank s"
  shows "\<exists>k n. strtrm (pre @ s @ NUL # post) (Some (length pre))
      = Some (pre @ replicate k BL @ rtrim (ltrim s) @ replicate n NUL @ NUL # post,
              Some (length pre + k))
    \<and> k + length (rtrim (ltrim s)) + n = length s"
proof -
  obtain k where k: "skip_blanks (pre @ s @ NUL # post) (length pre) = Some (length pre + k)"
      "s = replicate k BL @ ltrim s"
    using skip_blanks_string[OF assms(1)] by blast
  have nl: "NUL \<notin> set (ltrim s)" using assms(1) k(2) by (metis Un_iff set_append)
  have nb: "\<not> blank (ltrim s)" using assms(2) by (simp add: blank_ltrim)
  let ?pre = "pre @ replicate k BL"
  obtain n where n: "blank_tail (?pre @ ltrim s @ NUL # post) (length ?pre + length (ltrim s))
      = Some (?pre @ rtrim (ltrim s) @ replicate n NUL @ NUL # post)"
      "n + length (rtrim (ltrim s)) = length (ltrim s)"
    using blank_tail_string[OF nl nb] by blast
  have m: "pre @ s @ NUL # post = ?pre @ ltrim s @ NUL # post" using k(2) by (metis append.assoc)
  have "strlen_at (?pre @ ltrim s @ NUL # post) (length ?pre) = Some (length (ltrim s))"
    using cstring_at[OF nl, of ?pre "length ?pre" post] by (simp add: strlen_at_def)
  with k(1) n(1) have "strtrm (pre @ s @ NUL # post) (Some (length pre))
      = Some (pre @ replicate k BL @ rtrim (ltrim s) @ replicate n NUL @ NUL # post, Some (length pre + k))"
    unfolding m by (simp add: strtrm_def)
  moreover have "length s = k + length (ltrim s)" using arg_cong[OF k(2), of length] by simp
  ultimately show ?thesis using n(2) by auto
qed

lemma strrtrm_string:
  assumes "NUL \<notin> set s" "\<not> blank s"
  shows "\<exists>n. strrtrm (pre @ s @ NUL # post) (Some (length pre))
      = Some (pre @ rtrim s @ replicate n NUL @ NUL # post, Some (length pre))"
proof -
  obtain n where "blank_tail (pre @ s @ NUL # post) (length pre + length s)
      = Some (pre @ rtrim s @ replicate n NUL @ NUL # post)"
    using blank_tail_string[OF assms] by blast
  moreover have "strlen_at (pre @ s @ NUL # post) (length pre) = Some (length s)"
    using cstring_at[OF assms(1), of pre "length pre" post] by (simp add: strlen_at_def)
  ultimately show ?thesis by (auto simp: strrtrm_def)
qed

lemma cstring_trimmed:
  "NUL \<notin> set s \<Longrightarrow> cstring (pre @ rtrim s @ replicate n NUL @ NUL # post) (length pre) = rtrim s"
proof -
  assume a: "NUL \<notin> set s"
  have "set (rtrim s) \<subseteq> set s" unfolding rtrim_def by (auto dest: set_dropWhileD)
  with a have r: "NUL \<notin> set (rtrim s)" by blast
  show ?thesis
  proof (cases n)
    case 0
    then show ?thesis using cstring_at[OF r, of pre "length pre" post] by simp
  next
    case (Suc k)
    then show ?thesis using cstring_at[OF r, of pre "length pre" "replicate k NUL @ NUL # post"] by simp
  qed
qed

text \<open>
  C strings at the start of an object: a blank string makes \<open>strtrm\<close> and \<open>strrtrm\<close>
  read before the object, every other string is trimmed.
\<close>

lemma strlen_at_string [simp]:
  "NUL \<notin> set s \<Longrightarrow> strlen_at (s @ NUL # post) 0 = Some (length s)"
  using cstring_at[of s "[]" 0 post] by (simp add: strlen_at_def)

lemma strtrm_blank: "NUL \<notin> set s \<Longrightarrow> blank s \<Longrightarrow> strtrm (s @ NUL # post) (Some 0) = None"
proof -
  assume a: "NUL \<notin> set s" "blank s"
  have l: "ltrim s = []" using a(2) by (simp add: ltrim_def blank_def dropWhile_eq_Nil_conv)
  obtain k where k: "skip_blanks (s @ NUL # post) 0 = Some k" "s = replicate k BL"
    using skip_blanks_string[OF a(1), of "[]" post] l by auto
  have "strlen_at (s @ NUL # post) k = Some 0"
    using cstring_at[of "[]" s k post] k(2) by (simp add: strlen_at_def)
  moreover have "blank_tail (s @ NUL # post) k = None"
    by (rule blank_tail_blanks) (use k(2) in auto)
  ultimately show ?thesis using k(1) by (simp add: strtrm_def)
qed

lemma strrtrm_blank: "NUL \<notin> set s \<Longrightarrow> blank s \<Longrightarrow> strrtrm (s @ NUL # post) (Some 0) = None"
proof -
  assume a: "NUL \<notin> set s" "blank s"
  have "blank_tail (s @ NUL # post) (length s) = None"
    by (rule blank_tail_blanks) (use a(2) in \<open>auto simp: blank_def\<close>)
  with a(1) show ?thesis by (simp add: strrtrm_def)
qed

lemma cstring_strtrm:
  assumes "NUL \<notin> set s" "\<not> blank s"
  shows "\<exists>m q. strtrm (s @ NUL # post) (Some 0) = Some (m, q) \<and> cstring m (the q) = rtrim (ltrim s)"
proof -
  obtain k n where "strtrm (s @ NUL # post) (Some 0)
      = Some (replicate k BL @ rtrim (ltrim s) @ replicate n NUL @ NUL # post, Some k)"
    using strtrm_string[OF assms, of "[]" post] by auto
  moreover have "NUL \<notin> set (ltrim s)" using assms unfolding ltrim_def by (auto dest: set_dropWhileD)
  ultimately show ?thesis using cstring_trimmed[of "ltrim s" "replicate k BL" n post] by simp
qed

lemma rtrim_empty: "rtrim s = [] \<longleftrightarrow> blank s"
  by (simp add: rtrim_def blank_def dropWhile_eq_Nil_conv)

text \<open>
  C31. \<open>strtrm\<close> called on a C string that starts its object: undefined (it reads before
  the object) exactly when the string is empty or all blanks; otherwise the returned
  pointer is at the string without its leading and trailing blanks.
\<close>

theorem strtrm_correct:
  assumes "NUL \<notin> set s"
  shows "map_option (\<lambda>(m, q). cstring m (the q)) (strtrm (s @ NUL # post) (Some 0))
    = (if blank s then None else Some (rtrim (ltrim s)))"
proof (cases "blank s")
  case True
  with assms show ?thesis by (simp add: strtrm_blank)
next
  case False
  with cstring_strtrm[OF assms] show ?thesis by auto
qed

theorem strtrm_correct_witness:
  "map_option (\<lambda>(m, q). cstring m (the q)) (strtrm (''  ab c '' @ NUL # ''zz'') (Some 0)) = Some ''ab c''"
proof -
  have n: "NUL \<notin> set ''  ab c ''" by simp
  show ?thesis using strtrm_correct[OF n, of "''zz''"]
    by (simp add: blank_def rtrim_def ltrim_def)
qed

end
