(* ===== verification/MemSearch.thy ===== *)
theory MemSearch
  imports CStrings
begin

text \<open>
  Searching and rewriting characters in memory: \<open>memstr\<close> and \<open>memwcs\<close> look for a C
  string inside a block of memory that need not be terminated, \<open>wcscnt\<close> counts a
  character, \<open>strlwr\<close> is the Unix replacement of the Windows library function.
\<close>

section \<open>\<open>memstr\<close> and \<open>memwcs\<close>\<close>

type_synonym WCHAR = "16 word"

text \<open>
  The inner loop compares from offset \<open>r\<close> on; the outer \<open>None\<close> is a read outside the
  object \<open>mem\<close>. The string \<open>fnd\<close> is given without its terminator, which is never read.
\<close>

function match_here :: "'a list \<Rightarrow> 'a list \<Rightarrow> nat \<Rightarrow> nat \<Rightarrow> bool option" where
  "match_here mem fnd i r =
    (if r \<ge> length fnd then Some True
     else if i + r \<ge> length mem then None
     else if mem ! (i + r) \<noteq> fnd ! r then Some False
     else match_here mem fnd i (Suc r))"
  by pat_completeness auto
termination by (relation "measure (\<lambda>(mem, fnd, i, r). length fnd - r)") auto

declare match_here.simps [simp del]

function search_from :: "'a list \<Rightarrow> 'a list \<Rightarrow> nat \<Rightarrow> nat \<Rightarrow> nat option option" where
  "search_from mem fnd stop i =
    (if i \<le> stop then
       (case match_here mem fnd i 0 of
          None \<Rightarrow> None
        | Some True \<Rightarrow> Some (Some i)
        | Some False \<Rightarrow> search_from mem fnd stop (Suc i))
     else Some None)"
  by pat_completeness auto
termination by (relation "measure (\<lambda>(mem, fnd, stop, i). Suc stop - i)") auto

declare search_from.simps [simp del]

definition memstr :: "char list \<Rightarrow> string \<Rightarrow> nat \<Rightarrow> nat option option" where
  "memstr mem fnd mx =
    (let len = length fnd in
     if len > mx then Some None else search_from mem fnd (mx - len) 0)"

definition memwcs :: "WCHAR list \<Rightarrow> WCHAR list \<Rightarrow> nat \<Rightarrow> nat option option" where
  "memwcs mem fnd mx =
    (let len = length fnd in
     if len > mx then Some None else search_from mem fnd (mx - len) 0)"

text \<open>The specification: the string occurs at an offset of the block.\<close>

definition occurs_at :: "'a list \<Rightarrow> 'a list \<Rightarrow> nat \<Rightarrow> bool" where
  "occurs_at mem fnd i \<longleftrightarrow> prefix fnd (drop i mem)"

definition first_occurrence :: "'a list \<Rightarrow> 'a list \<Rightarrow> nat option \<Rightarrow> bool" where
  "first_occurrence mem fnd res \<longleftrightarrow>
    (case res of
       None \<Rightarrow> (\<forall>i. \<not> occurs_at mem fnd i)
     | Some i \<Rightarrow> occurs_at mem fnd i \<and> (\<forall>j<i. \<not> occurs_at mem fnd j))"

lemma match_here_iff:
  "i + length fnd \<le> length mem \<Longrightarrow> r \<le> length fnd \<Longrightarrow>
    match_here mem fnd i r = Some (\<forall>k. r \<le> k \<and> k < length fnd \<longrightarrow> mem ! (i + k) = fnd ! k)"
proof (induction mem fnd i r rule: match_here.induct)
  case (1 mem fnd i r)
  show ?case
  proof (cases "r < length fnd \<and> mem ! (i + r) = fnd ! r")
    case True
    with 1 have "match_here mem fnd i (Suc r)
        = Some (\<forall>k. Suc r \<le> k \<and> k < length fnd \<longrightarrow> mem ! (i + k) = fnd ! k)" by simp
    moreover have "(\<forall>k. Suc r \<le> k \<and> k < length fnd \<longrightarrow> mem ! (i + k) = fnd ! k)
        \<longleftrightarrow> (\<forall>k. r \<le> k \<and> k < length fnd \<longrightarrow> mem ! (i + k) = fnd ! k)"
      using True by (metis Suc_leI le_neq_implies_less le_SucI Suc_leD)
    ultimately show ?thesis
      using True "1.prems" by (subst match_here.simps) simp
  next
    case False
    with "1.prems" show ?thesis by (subst match_here.simps) auto
  qed
qed

lemma occurs_at_nth:
  "i + length fnd \<le> length mem \<Longrightarrow>
    occurs_at mem fnd i \<longleftrightarrow> (\<forall>k<length fnd. mem ! (i + k) = fnd ! k)"
  by (auto simp: occurs_at_def prefix_def list_eq_iff_nth_eq nth_append
      intro!: exI[of _ "drop (i + length fnd) mem"])

lemma occurs_at_bound: "occurs_at mem fnd i \<Longrightarrow> fnd \<noteq> [] \<Longrightarrow> i + length fnd \<le> length mem"
  by (auto simp: occurs_at_def dest!: prefix_length_le) (cases "i \<le> length mem"; simp)

lemma match_here_occurs:
  "i + length fnd \<le> length mem \<Longrightarrow> match_here mem fnd i 0 = Some (occurs_at mem fnd i)"
  by (simp add: match_here_iff occurs_at_nth)

lemma search_from_correct:
  assumes "stop + length fnd \<le> length mem"
  shows "\<exists>res. search_from mem fnd stop i = Some res \<and>
    (case res of None \<Rightarrow> (\<forall>j. i \<le> j \<and> j \<le> stop \<longrightarrow> \<not> occurs_at mem fnd j)
     | Some k \<Rightarrow> i \<le> k \<and> k \<le> stop \<and> occurs_at mem fnd k \<and> (\<forall>j. i \<le> j \<and> j < k \<longrightarrow> \<not> occurs_at mem fnd j))"
  using assms
proof (induction mem fnd stop i rule: search_from.induct)
  case (1 mem fnd stop i)
  show ?case
  proof (cases "i \<le> stop \<and> \<not> occurs_at mem fnd i")
    case True
    with "1.prems" have m: "match_here mem fnd i 0 = Some False"
      using match_here_occurs[of i fnd mem] by simp
    with True "1.prems" obtain res where res: "search_from mem fnd stop (Suc i) = Some res"
      "case res of None \<Rightarrow> (\<forall>j. Suc i \<le> j \<and> j \<le> stop \<longrightarrow> \<not> occurs_at mem fnd j)
       | Some k \<Rightarrow> Suc i \<le> k \<and> k \<le> stop \<and> occurs_at mem fnd k \<and> (\<forall>j. Suc i \<le> j \<and> j < k \<longrightarrow> \<not> occurs_at mem fnd j)"
      using "1.IH" by fastforce
    have "search_from mem fnd stop i = Some res"
      using True m res(1) by (subst search_from.simps) simp
    with res(2) True show ?thesis
      by (auto split: option.splits simp: Suc_le_eq dest: le_neq_implies_less)
  next
    case False
    with "1.prems" show ?thesis
      using match_here_occurs[of i fnd mem]
      by (subst search_from.simps) auto
  qed
qed

lemma search_first_occurrence:
  assumes "mx \<le> length mem" "length fnd \<le> mx"
  shows "\<exists>res. search_from mem fnd (mx - length fnd) 0 = Some res \<and>
    first_occurrence (take mx mem) fnd res"
proof -
  have o: "occurs_at (take mx mem) fnd j \<longleftrightarrow> j \<le> mx - length fnd \<and> occurs_at mem fnd j"
    if "fnd \<noteq> []" for j
  proof (cases "j + length fnd \<le> mx")
    case True
    with assms have "occurs_at (take mx mem) fnd j \<longleftrightarrow> occurs_at mem fnd j"
      by (simp add: occurs_at_nth)
    with True show ?thesis by auto
  next
    case False
    with assms that occurs_at_bound[of "take mx mem" fnd j] show ?thesis by auto
  qed
  obtain res where res: "search_from mem fnd (mx - length fnd) 0 = Some res"
    "case res of None \<Rightarrow> (\<forall>j. 0 \<le> j \<and> j \<le> mx - length fnd \<longrightarrow> \<not> occurs_at mem fnd j)
     | Some k \<Rightarrow> 0 \<le> k \<and> k \<le> mx - length fnd \<and> occurs_at mem fnd k \<and> (\<forall>j. 0 \<le> j \<and> j < k \<longrightarrow> \<not> occurs_at mem fnd j)"
    using search_from_correct[of "mx - length fnd" fnd mem 0] assms by auto
  show ?thesis
  proof (cases "fnd = []")
    case True
    then have "occurs_at mem fnd 0" "occurs_at (take mx mem) fnd 0" by (simp_all add: occurs_at_def)
    with res True show ?thesis by (auto simp: first_occurrence_def split: option.splits)
  next
    case False
    with res o show ?thesis by (auto simp: first_occurrence_def split: option.splits)
  qed
qed

text \<open>
  C32. \<open>memstr\<close> with a block that is really \<open>mx\<close> bytes long reads nothing outside it
  and returns the first place where the string lies entirely inside the first \<open>mx\<close>
  bytes, or NULL if there is none.
\<close>

theorem memstr_correct:
  assumes "mx \<le> length mem"
  shows "\<exists>res. memstr mem fnd mx = Some res \<and> first_occurrence (take mx mem) fnd res"
proof (cases "length fnd \<le> mx")
  case True
  with search_first_occurrence[OF assms] show ?thesis by (simp add: memstr_def Let_def)
next
  case False
  then have "fnd \<noteq> []" by auto
  with False have "\<not> occurs_at (take mx mem) fnd i" for i
    using occurs_at_bound[of "take mx mem" fnd i] by auto
  with False show ?thesis by (simp add: memstr_def Let_def first_occurrence_def)
qed

theorem memstr_correct_witness:
  "memstr ''xabab!'' ''ab'' 5 = Some (Some 1) \<and> first_occurrence ''xabab'' ''ab'' (Some 1)"
proof -
  have h: "(5::nat) \<le> length ''xabab!''" by simp
  have m: "memstr ''xabab!'' ''ab'' 5 = Some (Some 1)"
    by (simp add: memstr_def search_from.simps match_here.simps)
  with memstr_correct[OF h, of "''ab''"] show ?thesis by simp
qed

lemma memwcs_correct:
  assumes "mx \<le> length mem"
  shows "\<exists>res. memwcs mem fnd mx = Some res \<and> first_occurrence (take mx mem) fnd res"
proof (cases "length fnd \<le> mx")
  case True
  with search_first_occurrence[OF assms] show ?thesis by (simp add: memwcs_def Let_def)
next
  case False
  then have "fnd \<noteq> []" by auto
  with False have "\<not> occurs_at (take mx mem) fnd i" for i
    using occurs_at_bound[of "take mx mem" fnd i] by auto
  with False show ?thesis by (simp add: memwcs_def Let_def first_occurrence_def)
qed

section \<open>\<open>wcscnt\<close>\<close>

text \<open>The wide string without its terminator; \<open>wcschr\<close> finds the rest from the next \<open>c\<close> on.\<close>

definition wcschr :: "'a list \<Rightarrow> 'a \<Rightarrow> 'a list option" where
  "wcschr lp c = (if c \<in> set lp then Some (dropWhile (\<lambda>x. x \<noteq> c) lp) else None)"

function wcscnt_loop :: "'a list \<Rightarrow> 'a \<Rightarrow> nat \<Rightarrow> nat" where
  "wcscnt_loop lp c k =
    (case wcschr lp c of None \<Rightarrow> k | Some lp' \<Rightarrow> wcscnt_loop (tl lp') c (Suc k))"
  by pat_completeness auto
termination
proof (relation "measure (\<lambda>(lp, c, k). length lp)")
  fix lp :: "'a list" and c k lp'
  assume a: "wcschr lp c = Some lp'"
  then have "lp \<noteq> []" by (auto simp: wcschr_def)
  moreover have "lp' = dropWhile (\<lambda>x. x \<noteq> c) lp" "lp' \<noteq> []"
    using a by (auto simp: wcschr_def dropWhile_eq_Nil_conv split: if_splits)
  ultimately have "length (tl lp') < length lp' \<and> length lp' \<le> length lp"
    using length_dropWhile_le[of "\<lambda>x. x \<noteq> c" lp] by (cases lp') simp_all
  then show "((tl lp', c, Suc k), lp, c, k) \<in> measure (\<lambda>(lp, c, k). length lp)"
    by (simp del: length_tl)
qed simp

declare wcscnt_loop.simps [simp del]

definition wcscnt :: "WCHAR list \<Rightarrow> WCHAR \<Rightarrow> nat" where
  "wcscnt lp c = wcscnt_loop lp c 0"

lemma wcscnt_loop_count: "wcscnt_loop lp c k = k + count_list lp c"
proof (induction lp c k rule: wcscnt_loop.induct)
  case (1 lp c k)
  show ?case
  proof (cases "c \<in> set lp")
    case True
    then obtain ys zs where s: "lp = ys @ c # zs" "c \<notin> set ys" by (metis split_list_first)
    then have d: "dropWhile (\<lambda>x. x \<noteq> c) lp = c # zs" by (induction ys arbitrary: lp) auto
    have "count_list lp c = Suc (count_list zs c)" using s by (simp add: count_notin)
    with True d 1 show ?thesis by (subst wcscnt_loop.simps) (simp add: wcschr_def)
  next
    case False
    then show ?thesis by (subst wcscnt_loop.simps) (simp add: wcschr_def count_notin)
  qed
qed

lemma wcscnt_count: "wcscnt lp c = count_list lp c"
  by (simp add: wcscnt_def wcscnt_loop_count)

section \<open>\<open>strlwr\<close>\<close>

definition c_tolower :: "char \<Rightarrow> char" where
  "c_tolower c = (let n = of_char c :: nat in if 65 \<le> n \<and> n \<le> 90 then char_of (n + 32) else c)"

function strlwr_loop :: "char list \<Rightarrow> nat \<Rightarrow> char list option" where
  "strlwr_loop m p =
    (if p < length m then
       if m ! p = NUL then Some m else strlwr_loop (m[p := c_tolower (m ! p)]) (Suc p)
     else None)"
  by pat_completeness auto
termination by (relation "measure (\<lambda>(m, p). length m - p)") auto

declare strlwr_loop.simps [simp del]

definition strlwr :: "char list \<Rightarrow> nat option \<Rightarrow> char list option" where
  "strlwr m s = (case s of None \<Rightarrow> Some m | Some p \<Rightarrow> strlwr_loop m p)"

lemma strlwr_string:
  "NUL \<notin> set s \<Longrightarrow>
    strlwr (pre @ s @ NUL # post) (Some (length pre)) = Some (pre @ map c_tolower s @ NUL # post)"
proof (induction s arbitrary: pre)
  case Nil
  then show ?case by (simp add: strlwr_def strlwr_loop.simps)
next
  case (Cons c s)
  from Cons.prems have "c \<noteq> NUL" by auto
  with Cons.IH[of "pre @ [c_tolower c]"] Cons.prems show ?case
    by (simp add: strlwr_def strlwr_loop.simps[of "pre @ c # s @ NUL # post"])
qed

lemma c_tolower_idem [simp]: "c_tolower (c_tolower c) = c_tolower c"
  by (auto simp: c_tolower_def Let_def)

end
