(* ===== verification/CLib.thy ===== *)
theory CLib
  imports Prelude
begin

text \<open>
  What the tools use of the C library: \<open>isspace\<close>, \<open>strtoul\<close>, the \<open>%i\<close> conversion of
  \<open>printf\<close>, and the truncating division of \<open>int\<close>. An \<open>unsigned long\<close> has 32 bits on
  the platform of the tools.
\<close>

section \<open>Character classes\<close>

definition code :: "char \<Rightarrow> nat" where
  "code c = of_char c"

definition c_isspace :: "char \<Rightarrow> bool" where
  "c_isspace c \<longleftrightarrow> code c = 32 \<or> (9 \<le> code c \<and> code c \<le> 13)"

definition c_isdigit :: "char \<Rightarrow> bool" where
  "c_isdigit c \<longleftrightarrow> 48 \<le> code c \<and> code c \<le> 57"

text \<open>The value of a digit in bases up to 36.\<close>

definition digit_value :: "char \<Rightarrow> nat option" where
  "digit_value c =
    (let n = code c in
     if 48 \<le> n \<and> n \<le> 57 then Some (n - 48)
     else if 65 \<le> n \<and> n \<le> 90 then Some (n - 55)
     else if 97 \<le> n \<and> n \<le> 122 then Some (n - 87)
     else None)"

definition is_digit_of :: "nat \<Rightarrow> char \<Rightarrow> bool" where
  "is_digit_of b c = (case digit_value c of None \<Rightarrow> False | Some d \<Rightarrow> d < b)"

section \<open>Reading numbers\<close>

definition digits_value :: "nat \<Rightarrow> string \<Rightarrow> nat" where
  "digits_value b s = fold (\<lambda>c n. n * b + the (digit_value c)) s 0"

definition ULONG_MAX :: nat where
  "ULONG_MAX = 4294967295"

text \<open>
  The base and the text that the digits are read from: base \<open>0\<close> looks for the prefixes
  of C, base \<open>16\<close> skips \<open>0x\<close>.
\<close>

definition number_prefix :: "nat \<Rightarrow> string \<Rightarrow> nat \<times> string" where
  "number_prefix b s =
    (case s of
       c # x # t \<Rightarrow>
         if c = CHR ''0'' \<and> (x = CHR ''x'' \<or> x = CHR ''X'') \<and> (b = 0 \<or> b = 16)
           \<and> t \<noteq> [] \<and> is_digit_of 16 (hd t) then (16, t)
         else if b = 0 then (if c = CHR ''0'' then 8 else 10, s) else (b, s)
     | c # [] \<Rightarrow> if b = 0 then (if c = CHR ''0'' then 8 else 10, s) else (b, s)
     | [] \<Rightarrow> (if b = 0 then 10 else b, s))"

text \<open>The value and the rest of the string (what \<open>endptr\<close> points to).\<close>

definition strtoul :: "string \<Rightarrow> nat \<Rightarrow> DWORD \<times> string" where
  "strtoul s b =
    (let t = dropWhile c_isspace s;
         neg = (t \<noteq> [] \<and> hd t = CHR ''-'');
         u = (if t \<noteq> [] \<and> (hd t = CHR ''-'' \<or> hd t = CHR ''+'') then tl t else t);
         (base, v) = number_prefix b u;
         ds = takeWhile (is_digit_of base) v;
         n = digits_value base ds
     in if ds = [] then (0, s)
        else (if n > ULONG_MAX then of_nat ULONG_MAX
              else if neg then - of_nat n else of_nat n, dropWhile (is_digit_of base) v))"

text \<open>\<open>atoi\<close> and \<open>strtol\<close> with a base: the value as an \<open>int\<close>, saturated at its bounds.\<close>

definition strtol :: "string \<Rightarrow> nat \<Rightarrow> int \<times> string" where
  "strtol s b =
    (let t = dropWhile c_isspace s;
         neg = (t \<noteq> [] \<and> hd t = CHR ''-'');
         u = (if t \<noteq> [] \<and> (hd t = CHR ''-'' \<or> hd t = CHR ''+'') then tl t else t);
         (base, v) = number_prefix b u;
         ds = takeWhile (is_digit_of base) v;
         n = int (digits_value base ds)
     in if ds = [] then (0, s)
        else (if neg then max (- 2147483648) (- n) else min 2147483647 n,
              dropWhile (is_digit_of base) v))"

section \<open>Printing numbers\<close>

fun dec_nat :: "nat \<Rightarrow> string" where
  "dec_nat n = (if n < 10 then [char_of (n + 48)] else dec_nat (n div 10) @ [char_of (n mod 10 + 48)])"

declare dec_nat.simps [simp del]

definition dec :: "int \<Rightarrow> string" where
  "dec i = (if i < 0 then CHR ''-'' # dec_nat (nat (- i)) else dec_nat (nat i))"

lemma code_char_of [simp]: "n < 256 \<Longrightarrow> code (char_of n) = n"
  by (simp add: code_def)

lemma digit_value_char_of [simp]: "d < 10 \<Longrightarrow> digit_value (char_of (d + 48)) = Some d"
  by (simp add: digit_value_def)

lemma is_digit_10: "is_digit_of 10 c \<longleftrightarrow> c_isdigit c"
  by (auto simp: is_digit_of_def digit_value_def c_isdigit_def Let_def)

lemma dec_nat_digits: "c \<in> set (dec_nat n) \<Longrightarrow> is_digit_of 10 c"
proof (induction n rule: dec_nat.induct)
  case (1 n)
  then show ?case
    by (subst (asm) dec_nat.simps) (auto simp: is_digit_of_def split: if_splits)
qed

lemma dec_nat_nonempty [simp]: "dec_nat n \<noteq> []"
  by (subst dec_nat.simps) simp

lemma digits_value_snoc: "digits_value b (s @ [c]) = digits_value b s * b + the (digit_value c)"
  by (simp add: digits_value_def)

lemma digits_value_dec_nat: "digits_value 10 (dec_nat n) = n"
proof (induction n rule: dec_nat.induct)
  case (1 n)
  show ?case
  proof (cases "n < 10")
    case True
    then show ?thesis by (subst dec_nat.simps) (simp add: digits_value_def)
  next
    case False
    with 1 show ?thesis by (subst dec_nat.simps) (simp add: digits_value_snoc)
  qed
qed

lemma c_isspace_digit: "is_digit_of 10 c \<Longrightarrow> \<not> c_isspace c \<and> c \<noteq> CHR ''-'' \<and> c \<noteq> CHR ''+''"
  by (auto simp: is_digit_10 c_isdigit_def c_isspace_def code_def)

lemma length_dec_nat: "n < 10 ^ k \<Longrightarrow> 0 < k \<Longrightarrow> length (dec_nat n) \<le> k"
proof (induction k arbitrary: n)
  case (Suc k)
  show ?case
  proof (cases "n < 10")
    case True
    then show ?thesis by (subst dec_nat.simps) simp
  next
    case False
    with Suc.prems have "n div 10 < 10 ^ k" "0 < k" by (cases k; simp add: less_mult_imp_div_less mult.commute)+
    with Suc.IH[of "n div 10"] False show ?thesis by (subst dec_nat.simps) simp
  qed
qed simp

text \<open>What \<open>printf(\"%i\")\<close> wrote \<open>strtoul\<close> reads back.\<close>

lemma strtoul_dec_nat:
  assumes "n \<le> ULONG_MAX" and "r = [] \<or> \<not> is_digit_of 10 (hd r)"
  shows "strtoul (dec_nat n @ r) 10 = (of_nat n, r)"
proof -
  obtain c t where c: "dec_nat n = c # t" by (cases "dec_nat n") auto
  then have d: "is_digit_of 10 c" "\<forall>x \<in> set t. is_digit_of 10 x"
    using dec_nat_digits[of _ n] by auto
  have tw: "takeWhile (is_digit_of 10) (dec_nat n @ r) = dec_nat n"
    "dropWhile (is_digit_of 10) (dec_nat n @ r) = r"
    using assms(2) dec_nat_digits[of _ n] by (cases r; simp add: takeWhile_append dropWhile_append)+
  have p: "number_prefix 10 (dec_nat n @ r) = (10, dec_nat n @ r)"
    by (simp add: number_prefix_def split: list.splits)
  from d c c_isspace_digit[OF d(1)] tw p assms(1) digits_value_dec_nat[of n] show ?thesis
    by (simp add: strtoul_def Let_def)
qed

section \<open>Division of \<open>int\<close>\<close>

text \<open>
  \<open>/\<close> and \<open>%\<close> truncate towards zero and are undefined for a zero divisor and for
  \<open>INT_MIN / -1\<close>.
\<close>

definition INT_MIN :: int where "INT_MIN = - 2147483648"
definition INT_MAX :: int where "INT_MAX = 2147483647"

definition is_int :: "int \<Rightarrow> bool" where
  "is_int i \<longleftrightarrow> INT_MIN \<le> i \<and> i \<le> INT_MAX"

definition trunc_div :: "int \<Rightarrow> int \<Rightarrow> int" where
  "trunc_div a b = sgn a * sgn b * (\<bar>a\<bar> div \<bar>b\<bar>)"

definition trunc_mod :: "int \<Rightarrow> int \<Rightarrow> int" where
  "trunc_mod a b = sgn a * (\<bar>a\<bar> mod \<bar>b\<bar>)"

definition c_div :: "int \<Rightarrow> int \<Rightarrow> int option" where
  "c_div a b = (if b = 0 \<or> a = INT_MIN \<and> b = - 1 then None else Some (trunc_div a b))"

definition c_mod :: "int \<Rightarrow> int \<Rightarrow> int option" where
  "c_mod a b = (if b = 0 \<or> a = INT_MIN \<and> b = - 1 then None else Some (trunc_mod a b))"

lemma trunc_div_mod: "trunc_div a b * b + trunc_mod a b = a"
proof -
  have "trunc_div a b * b = sgn a * ((\<bar>a\<bar> div \<bar>b\<bar>) * \<bar>b\<bar>)"
    by (simp add: trunc_div_def sgn_if)
  then have "trunc_div a b * b + trunc_mod a b = sgn a * ((\<bar>a\<bar> div \<bar>b\<bar>) * \<bar>b\<bar> + \<bar>a\<bar> mod \<bar>b\<bar>)"
    by (simp only: trunc_mod_def distrib_left)
  also have "\<dots> = sgn a * \<bar>a\<bar>" by (simp only: div_mult_mod_eq)
  finally show ?thesis by (simp add: sgn_if)
qed

lemma abs_trunc_mod_less: "b \<noteq> 0 \<Longrightarrow> \<bar>trunc_mod a b\<bar> < \<bar>b\<bar>"
  by (auto simp: trunc_mod_def abs_mult sgn_if)

lemma trunc_mod_nonneg: "0 \<le> a \<Longrightarrow> 0 < b \<Longrightarrow> trunc_mod a b = a mod b"
  by (auto simp: trunc_mod_def sgn_if)

lemma trunc_div_nonneg: "0 \<le> a \<Longrightarrow> 0 < b \<Longrightarrow> trunc_div a b = a div b"
  by (auto simp: trunc_div_def sgn_if)

end
