(* ===== verification/Prog.thy ===== *)
theory Prog
  imports Prelude "HOL-Library.Multiset"
begin

text \<open>
  Programs that talk to an operating system. A tool of the repository is a tree of
  system calls: a node performs one call and its branches say, for every reply, how the
  C function goes on. The tree keeps every call and every early return of the source,
  and it knows nothing of the environment; what the environment may answer is a
  parameter of the ways to run a tree.
\<close>

section \<open>Replies and program trees\<close>

text \<open>
  What a call hands back: the C return value (a BOOL, a handle, a count), the bytes or
  the text it put in an output buffer, a number it put in an output variable, and the
  error code that \<open>GetLastError\<close> or \<open>errno\<close> would give next.
\<close>

record reply =
  rv :: int
  out :: "byte list"
  line :: string
  num :: int
  err :: int

definition ok :: reply where
  "ok = \<lparr>rv = 1, out = [], line = [], num = 0, err = 0\<rparr>"

datatype ('c, 'r) prog =
    Done int
  | Sys 'c "'r \<Rightarrow> ('c, 'r) prog"
  | OutOfFuel
  | Crash

text \<open>
  \<open>Done\<close> is the exit status or return value, \<open>OutOfFuel\<close> the end of the fuel of an
  unbounded loop, \<open>Crash\<close> a step whose effect C leaves undefined.
\<close>

type_synonym ('c, 'r) trace = "('c \<times> 'r) list"

definition invalid_handle :: int where [simp]: "invalid_handle = - 1"

text \<open>A message argument: what \<open>printf\<close> and its kin receive beside the format.\<close>

datatype arg = I int | S string

section \<open>Runs\<close>

text \<open>
  \<open>runs R p tr n\<close>: with replies that \<open>R\<close> allows, the program \<open>p\<close> can make exactly the
  calls of \<open>tr\<close> and end with status \<open>n\<close>.
\<close>

inductive runs :: "('c \<Rightarrow> 'r \<Rightarrow> bool) \<Rightarrow> ('c, 'r) prog \<Rightarrow> ('c, 'r) trace \<Rightarrow> int \<Rightarrow> bool"
  for R where
  runs_done: "runs R (Done n) [] n"
| runs_sys: "R c r \<Longrightarrow> runs R (k r) tr n \<Longrightarrow> runs R (Sys c k) ((c, r) # tr) n"

inductive_cases runs_doneE: "runs R (Done m) tr n"
inductive_cases runs_sysE: "runs R (Sys c k) tr n"
inductive_cases runs_fuelE: "runs R OutOfFuel tr n"
inductive_cases runs_crashE: "runs R Crash tr n"

inductive_simps runs_Done [simp]: "runs R (Done m) tr n"
inductive_simps runs_Nil: "runs R p [] n"
inductive_simps runs_OutOfFuel [simp]: "runs R OutOfFuel tr n"
inductive_simps runs_Crash [simp]: "runs R Crash tr n"

lemma runs_Sys:
  "runs R (Sys c k) tr n \<longleftrightarrow> (\<exists>r tr'. tr = (c, r) # tr' \<and> R c r \<and> runs R (k r) tr' n)"
  by (auto elim: runs_sysE intro: runs_sys)

text \<open>
  \<open>holds R Q h p\<close>: started after the history \<open>h\<close>, every end that \<open>p\<close> can reach
  satisfies \<open>Q\<close>. It computes, so \<open>simp\<close> can walk a program.
\<close>

primrec holds :: "('c \<Rightarrow> 'r \<Rightarrow> bool) \<Rightarrow> (('c, 'r) trace \<Rightarrow> int \<Rightarrow> bool) \<Rightarrow>
    ('c, 'r) trace \<Rightarrow> ('c, 'r) prog \<Rightarrow> bool" where
  "holds R Q h (Done n) \<longleftrightarrow> Q h n"
| "holds R Q h (Sys c k) \<longleftrightarrow> (\<forall>r. R c r \<longrightarrow> holds R Q (h @ [(c, r)]) (k r))"
| "holds R Q h OutOfFuel \<longleftrightarrow> True"
| "holds R Q h Crash \<longleftrightarrow> True"

lemma holds_runs: "runs R p tr n \<Longrightarrow> holds R Q h p \<Longrightarrow> Q (h @ tr) n"
  by (induction arbitrary: h rule: runs.induct) fastforce+

lemma runs_holds: "(\<And>tr n. runs R p tr n \<Longrightarrow> Q (h @ tr) n) \<Longrightarrow> holds R Q h p"
proof (induction p arbitrary: h)
  case (Done m)
  from Done[of "[]" m] show ?case by simp
next
  case (Sys c k)
  show ?case
  proof (simp, intro allI impI)
    fix r assume r: "R c r"
    show "holds R Q (h @ [(c, r)]) (k r)"
    proof (rule Sys.IH)
      show "k r \<in> range k" by simp
      fix tr n assume "runs R (k r) tr n"
      with r have "runs R (Sys c k) ((c, r) # tr) n" by (simp add: runs_Sys)
      from Sys.prems[OF this] show "Q ((h @ [(c, r)]) @ tr) n" by simp
    qed
  qed
qed simp_all

lemma holds_iff_runs: "holds R Q h p \<longleftrightarrow> (\<forall>tr n. runs R p tr n \<longrightarrow> Q (h @ tr) n)"
  by (metis holds_runs runs_holds)

lemma holds_mono: "holds R Q h p \<Longrightarrow> (\<And>t n. Q t n \<Longrightarrow> Q' t n) \<Longrightarrow> holds R Q' h p"
  by (induction p arbitrary: h) auto

text \<open>\<open>total R p\<close>: whatever replies \<open>R\<close> allows, \<open>p\<close> ends within its fuel and does
  nothing undefined.\<close>

primrec total :: "('c \<Rightarrow> 'r \<Rightarrow> bool) \<Rightarrow> ('c, 'r) prog \<Rightarrow> bool" where
  "total R (Done n) \<longleftrightarrow> True"
| "total R (Sys c k) \<longleftrightarrow> (\<forall>r. R c r \<longrightarrow> total R (k r))"
| "total R OutOfFuel \<longleftrightarrow> False"
| "total R Crash \<longleftrightarrow> False"

text \<open>\<open>anything\<close>: an environment of which nothing is known.\<close>

definition anything :: "'c \<Rightarrow> 'r \<Rightarrow> bool" where
  "anything c r \<longleftrightarrow> True"

lemma anything: "anything c r"
  by (simp add: anything_def)

lemmas holds_Sys = holds.simps(2)

declare holds.simps(2) [simp del]

lemma holds_anything [simp]:
  "holds anything Q h (Sys c k) \<longleftrightarrow> (\<forall>r. holds anything Q (h @ [(c, r)]) (k r))"
  by (simp add: anything holds_Sys)

lemma runs_anything [simp]:
  "runs anything (Sys c k) tr n \<longleftrightarrow> (\<exists>r tr'. tr = (c, r) # tr' \<and> runs anything (k r) tr' n)"
  by (simp add: anything runs_Sys)

section \<open>Deterministic environments\<close>

text \<open>
  A handler answers a call from its own state (the file system, a stream, a device);
  \<open>interp\<close> runs a program against it and is a function, so closed runs evaluate.
\<close>

primrec interp :: "('s \<Rightarrow> 'c \<Rightarrow> 'r \<times> 's) \<Rightarrow> 's \<Rightarrow> ('c, 'r) prog \<Rightarrow> int option \<times> 's" where
  "interp H s (Done n) = (Some n, s)"
| "interp H s (Sys c k) = (case H s c of (r, s') \<Rightarrow> interp H s' (k r))"
| "interp H s OutOfFuel = (None, s)"
| "interp H s Crash = (None, s)"

text \<open>The interface between a handler and a law of its environment.\<close>

locale environment =
  fixes H :: "'s \<Rightarrow> 'c \<Rightarrow> 'r \<times> 's" and R :: "'c \<Rightarrow> 'r \<Rightarrow> bool"
  assumes lawful: "R c (fst (H s c))"
begin

lemma interp_runs: "fst (interp H s p) = Some n \<Longrightarrow> \<exists>tr. runs R p tr n"
proof (induction p arbitrary: s)
  case (Sys c k)
  let ?r = "fst (H s c)" and ?s = "snd (H s c)"
  have "fst (interp H ?s (k ?r)) = Some n"
    using Sys.prems by (simp add: case_prod_unfold)
  then obtain tr where "runs R (k ?r) tr n"
    using Sys.IH by blast
  then show ?case using lawful by (auto intro: runs_sys)
qed auto

lemma total_interp: "total R p \<Longrightarrow> fst (interp H s p) \<noteq> None"
proof (induction p arbitrary: s)
  case (Sys c k)
  then show ?case using lawful by (simp add: case_prod_unfold)
qed auto

end

section \<open>Resources\<close>

text \<open>
  Many tools acquire things (handles, sockets, heap blocks) and must give them back on
  every path. A discipline says which event acquires and which releases which resource.
\<close>


fun settle :: "('e \<Rightarrow> 'h option) \<Rightarrow> ('e \<Rightarrow> 'h option) \<Rightarrow> 'h multiset \<Rightarrow> 'e list \<Rightarrow>
    'h multiset option" where
  "settle acq rel M [] = Some M"
| "settle acq rel M (e # es) =
    (case acq e of
       Some h \<Rightarrow> settle acq rel (add_mset h M) es
     | None \<Rightarrow>
        (case rel e of
           Some h \<Rightarrow> if h \<in># M then settle acq rel (M - {#h#}) es else None
         | None \<Rightarrow> settle acq rel M es))"

text \<open>
  \<open>clean acq rel tr\<close>: whatever the run acquired it released, once, later, and it
  released nothing else.
\<close>

definition clean :: "('e \<Rightarrow> 'h option) \<Rightarrow> ('e \<Rightarrow> 'h option) \<Rightarrow> 'e list \<Rightarrow> bool" where
  "clean acq rel tr \<longleftrightarrow> settle acq rel {#} tr = Some {#}"

text \<open>What is still held after a history.\<close>

definition balance :: "('e \<Rightarrow> 'h option) \<Rightarrow> ('e \<Rightarrow> 'h option) \<Rightarrow> 'e list \<Rightarrow> 'h multiset option" where
  "balance acq rel tr = settle acq rel {#} tr"

lemma balance_start:
  "balance acq rel [] = Some {#}" "balance acq rel (e # tr) = settle acq rel {#} (e # tr)"
  by (simp_all add: balance_def)

lemma clean_balance: "clean acq rel tr \<longleftrightarrow> balance acq rel tr = Some {#}"
  by (simp add: clean_def balance_def)

locale resources =
  fixes acq rel :: "'e \<Rightarrow> 'h option"
  assumes not_both: "acq e \<noteq> None \<Longrightarrow> rel e = None"
begin

lemma settle_append:
  "settle acq rel M (xs @ ys) = (case settle acq rel M xs of None \<Rightarrow> None | Some N \<Rightarrow> settle acq rel N ys)"
  by (induction acq rel M xs rule: settle.induct) (auto split: option.splits)

lemma balance_append:
  "balance acq rel (xs @ ys) = (case balance acq rel xs of None \<Rightarrow> None | Some M \<Rightarrow> settle acq rel M ys)"
  by (simp add: balance_def settle_append)

lemma settle_balance:
  "settle acq rel M tr = Some N \<Longrightarrow>
    M + mset (List.map_filter acq tr) = N + mset (List.map_filter rel tr)"
proof (induction tr arbitrary: M)
  case Nil
  then show ?case by (simp add: List.map_filter_def)
next
  case (Cons e tr)
  show ?case
  proof (cases "acq e")
    case (Some h)
    with not_both[of e] Cons.IH[of "add_mset h M"] Cons.prems show ?thesis
      by (simp add: map_filter_simps)
  next
    case None
    show ?thesis
    proof (cases "rel e")
      case None
      with \<open>acq e = None\<close> Cons show ?thesis by (simp add: map_filter_simps)
    next
      case (Some h)
      with \<open>acq e = None\<close> Cons.prems have h: "h \<in># M"
        and "settle acq rel (M - {#h#}) tr = Some N" by (auto split: if_splits)
      from Cons.IH[OF this(2)]
      have "add_mset h (M - {#h#}) + mset (List.map_filter acq tr)
          = N + add_mset h (mset (List.map_filter rel tr))" by simp
      with h Some \<open>acq e = None\<close> show ?thesis by (simp add: map_filter_simps)
    qed
  qed
qed

lemma clean_counts:
  "clean acq rel tr \<Longrightarrow> mset (List.map_filter acq tr) = mset (List.map_filter rel tr)"
  using settle_balance[of "{#}" tr "{#}"] by (simp add: clean_def)

end

end
