(* ===== verification/WiMath.thy ===== *)
theory WiMath
  imports CLib Prog
begin

text \<open>
  The arithmetic of \<open>wimath.c\<close> and its two clients: \<open>gcd\<close> on \<open>int\<close> with the undefined
  cases of \<open>%\<close>, \<open>getprimefactors\<close> with its callback, and the interactive programs
  \<open>fraction.c\<close> and \<open>primtal.c\<close>.
\<close>

section \<open>\<open>gcd\<close>\<close>

text \<open>\<open>c = a % b\<close> has been computed; \<open>None\<close> is an undefined division.\<close>

function gcd_loop :: "int \<Rightarrow> int \<Rightarrow> int \<Rightarrow> int option" where
  "gcd_loop a b c =
    (if c \<noteq> 0 then
       (case c_mod b c of None \<Rightarrow> None | Some c' \<Rightarrow> gcd_loop b c c')
     else Some b)"
  by pat_completeness auto
termination
  by (relation "measure (\<lambda>(a, b, c). nat \<bar>c\<bar>)")
    (auto simp: c_mod_def abs_trunc_mod_less split: if_splits)

declare gcd_loop.simps [simp del]

definition gcd_c :: "int \<Rightarrow> int \<Rightarrow> int option" where
  "gcd_c a b = (case c_mod a b of None \<Rightarrow> None | Some c \<Rightarrow> gcd_loop a b c)"

lemma gcd_trunc_mod: "gcd b (trunc_mod a b) = gcd a b"
proof -
  have "gcd b (trunc_mod a b) = gcd b (trunc_div a b * b + trunc_mod a b)"
    by (simp add: gcd_add_mult)
  then show ?thesis by (simp only: trunc_div_mod gcd.commute)
qed

lemma gcd_loop_correct:
  "b \<noteq> 0 \<Longrightarrow> b \<noteq> INT_MIN \<or> c \<noteq> - 1 \<Longrightarrow> \<bar>c\<bar> < - INT_MIN \<Longrightarrow>
    \<exists>g. gcd_loop a b c = Some g \<and> g \<noteq> 0 \<and> \<bar>g\<bar> = gcd b c"
proof (induction a b c rule: gcd_loop.induct)
  case (1 a b c)
  show ?case
  proof (cases "c = 0")
    case True
    with 1 show ?thesis by (subst gcd_loop.simps) simp
  next
    case False
    have m: "c_mod b c = Some (trunc_mod b c)" using "1.prems" False by (auto simp: c_mod_def)
    have "\<bar>trunc_mod b c\<bar> < \<bar>c\<bar>" using False by (rule abs_trunc_mod_less)
    with "1.prems" have "c \<noteq> INT_MIN \<or> trunc_mod b c \<noteq> - 1" "\<bar>trunc_mod b c\<bar> < - INT_MIN" by auto
    with False "1.IH"[OF False m False] m show ?thesis
      by (subst gcd_loop.simps) (simp add: gcd_trunc_mod)
  qed
qed

lemma gcd_c_cases:
  assumes "is_int a" "is_int b"
  shows "case gcd_c a b of
      None \<Rightarrow> b = 0 \<or> (a = INT_MIN \<and> b = - 1) \<or> (a = - 1 \<and> b = INT_MIN)
    | Some g \<Rightarrow> g \<noteq> 0 \<and> \<bar>g\<bar> = gcd a b \<and>
        \<not> (b = 0 \<or> (a = INT_MIN \<and> b = - 1) \<or> (a = - 1 \<and> b = INT_MIN))"
proof (cases "b = 0 \<or> (a = INT_MIN \<and> b = - 1)")
  case True
  then show ?thesis by (auto simp: gcd_c_def c_mod_def)
next
  case False
  then have m: "c_mod a b = Some (trunc_mod a b)" by (auto simp: c_mod_def)
  have l: "\<bar>trunc_mod a b\<bar> < \<bar>b\<bar>" using False abs_trunc_mod_less by blast
  show ?thesis
  proof (cases "a = - 1 \<and> b = INT_MIN")
    case True
    then show ?thesis
      by (simp add: gcd_c_def c_mod_def trunc_mod_def gcd_loop.simps INT_MIN_def)
  next
    case other: False
    have "b \<noteq> INT_MIN \<or> trunc_mod a b \<noteq> - 1"
    proof -
      have "a = - 2147483648 \<or> a < 0 \<and> - a mod 2147483648 = - a \<or> 0 \<le> a"
        using assms(1) mod_pos_pos_trivial[of "- a" 2147483648]
        unfolding is_int_def INT_MIN_def INT_MAX_def by linarith
      with other show ?thesis by (auto simp: trunc_mod_def sgn_if INT_MIN_def)
    qed
    moreover have "\<bar>trunc_mod a b\<bar> < - INT_MIN" using l assms by (auto simp: is_int_def INT_MIN_def INT_MAX_def)
    ultimately obtain g where "gcd_loop a b (trunc_mod a b) = Some g" "g \<noteq> 0" "\<bar>g\<bar> = gcd a b"
      using gcd_loop_correct[of b "trunc_mod a b" a] False by (auto simp: gcd_trunc_mod)
    with m False other show ?thesis by (simp add: gcd_c_def)
  qed
qed

text \<open>
  C33. \<open>gcd\<close> on two \<open>int\<close>s is undefined exactly for a zero second argument and for the
  pairs of \<open>INT_MIN\<close> and \<open>-1\<close>, in either order; otherwise it returns a value that is
  not zero and whose magnitude is the greatest common divisor.
\<close>

theorem gcd_c_correct:
  assumes "is_int a" "is_int b"
  shows "case gcd_c a b of
      None \<Rightarrow> b = 0 \<or> (a = INT_MIN \<and> b = - 1) \<or> (a = - 1 \<and> b = INT_MIN)
    | Some g \<Rightarrow> g \<noteq> 0 \<and> \<bar>g\<bar> = gcd a b \<and>
        \<not> (b = 0 \<or> (a = INT_MIN \<and> b = - 1) \<or> (a = - 1 \<and> b = INT_MIN))"
  using assms by (rule gcd_c_cases)

theorem gcd_c_correct_witness: "gcd_c 84 (- 36) = Some 12 \<and> gcd 84 (- 36 :: int) = 12"
proof -
  have h: "is_int 84" "is_int (- 36)" by (simp_all add: is_int_def INT_MIN_def INT_MAX_def)
  have "gcd_c 84 (- 36) = Some 12"
    by (simp add: gcd_c_def c_mod_def trunc_mod_def gcd_loop.simps)
  with gcd_c_correct[OF h] show ?thesis by simp
qed

section \<open>\<open>getprimefactors\<close>\<close>

text \<open>
  \<open>for (c = 3; i % c; c += 2) if (c > i) return 0;\<close> gives the first odd divisor from
  \<open>c\<close> on, or \<open>None\<close> for the early return. \<open>i\<close> is positive and \<open>c\<close> stays at most
  \<open>i + 2\<close>; the two additions cannot overflow below \<open>INT_MAX - 2\<close> because an odd \<open>i\<close>
  other than \<open>1\<close> divides itself.
\<close>

function odd_divisor :: "int \<Rightarrow> int \<Rightarrow> int option" where
  "odd_divisor i c =
    (if i mod c = 0 then Some c else if c > i then None else odd_divisor i (c + 2))"
  by pat_completeness auto
termination by (relation "measure (\<lambda>(i, c). nat (i + 1 - c))") auto

declare odd_divisor.simps [simp del]

lemma odd_divisor_Some: "odd_divisor i c = Some d \<Longrightarrow> c \<le> d \<and> i mod d = 0"
  by (induction i c rule: odd_divisor.induct)
    (subst (asm) (2) odd_divisor.simps, auto split: if_splits)

text \<open>
  The callback gets the user data and a factor; it answers a value that cancels when it
  is not zero, and the user data after the call.
\<close>

function getprimefactors :: "int \<Rightarrow> 'u \<Rightarrow> ('u \<Rightarrow> int \<Rightarrow> int \<times> 'u) \<Rightarrow> int \<times> 'u" where
  "getprimefactors i u f =
    (if i > 0 then
       if i AND 1 = 0 then
         (case f u 2 of (s, u') \<Rightarrow>
            if s \<noteq> 0 then (1, u') else getprimefactors (drop_bit 1 i) u' f)
       else
         (case odd_divisor i 3 of
            None \<Rightarrow> (0, u)
          | Some c \<Rightarrow>
              (case f u c of (s, u') \<Rightarrow>
                 if s \<noteq> 0 then (1, u') else getprimefactors (i div c) u' f))
     else (- 1, u))"
  by pat_completeness auto
termination
proof (relation "measure (\<lambda>(i, u, f). nat i)", goal_cases)
  case 1
  then show ?case by simp
next
  case (2 i u f)
  then show ?case by (simp add: drop_bit_eq_div)
next
  case (3 i u f c)
  then have "3 \<le> c" using odd_divisor_Some by blast
  with 3 have "i div c < i" by (simp add: int_div_less_self)
  with 3 show ?case by simp
qed

declare getprimefactors.simps [simp del]

text \<open>The specification: the prime factors in order.\<close>

definition is_prime :: "int \<Rightarrow> bool" where
  "is_prime p \<longleftrightarrow> p > 1 \<and> (\<forall>d. 1 < d \<and> d < p \<longrightarrow> \<not> d dvd p)"

definition factorization :: "int \<Rightarrow> int list \<Rightarrow> bool" where
  "factorization i fs \<longleftrightarrow> (\<forall>p \<in> set fs. is_prime p) \<and> sorted fs \<and> prod_list fs = i"

text \<open>No divisor of \<open>i\<close> lies strictly between \<open>1\<close> and \<open>c\<close>.\<close>

definition rough :: "int \<Rightarrow> int \<Rightarrow> bool" where
  "rough i c \<longleftrightarrow> (\<forall>d. 1 < d \<and> d < c \<longrightarrow> \<not> d dvd i)"

lemma odd_divisor_least:
  "odd i \<Longrightarrow> 1 \<le> i \<Longrightarrow> odd c \<Longrightarrow> 3 \<le> c \<Longrightarrow> rough i c \<Longrightarrow>
    (case odd_divisor i c of None \<Rightarrow> i = 1 | Some d \<Rightarrow> d dvd i \<and> 3 \<le> d \<and> rough i d)"
proof (induction i c rule: odd_divisor.induct)
  case (1 i c)
  show ?case
  proof (cases "i mod c = 0")
    case True
    with "1.prems" show ?thesis by (subst odd_divisor.simps) (auto simp: dvd_eq_mod_eq_0)
  next
    case False
    show ?thesis
    proof (cases "c > i")
      case True
      have "i = 1" using "1.prems" True unfolding rough_def by force
      with False True show ?thesis by (subst odd_divisor.simps) simp
    next
      case le: False
      have "rough i (c + 2)"
        unfolding rough_def
      proof (intro allI impI notI)
        fix d assume d: "1 < d \<and> d < c + 2" "d dvd i"
        with "1.prems" have "odd d" by auto
        from d "1.prems"(5) have "c \<le> d" unfolding rough_def by (meson not_le)
        with d(1) \<open>odd d\<close> \<open>odd c\<close> have "d = c" by presburger
        with d False show False by (simp add: dvd_eq_mod_eq_0)
      qed
      with 1 False le show ?thesis by (subst odd_divisor.simps) simp
    qed
  qed
qed

lemma rough_dvd: "rough i c \<Longrightarrow> j dvd i \<Longrightarrow> rough j c"
  unfolding rough_def by (meson dvd_trans)

lemma rough_prime: "rough i d \<Longrightarrow> d dvd i \<Longrightarrow> 1 < d \<Longrightarrow> is_prime d"
  unfolding rough_def is_prime_def by (meson dvd_trans)

text \<open>One turn of the outer loop: the next factor is the least divisor above \<open>1\<close>.\<close>

lemma getprimefactors_1: "getprimefactors 1 u f = (0, u)"
  by (simp add: getprimefactors.simps odd_divisor.simps)

lemma next_factor:
  assumes "2 \<le> i"
  obtains d where "d dvd i" "2 \<le> d" "rough i d"
    "getprimefactors i u f = (case f u d of (s, u') \<Rightarrow>
       if s \<noteq> 0 then (1, u') else getprimefactors (i div d) u' f)"
proof (cases "even i")
  case True
  then have "i AND 1 = 0" by (simp add: and_one_eq mod_2_eq_odd)
  moreover have "rough i 2" by (auto simp: rough_def)
  moreover have "drop_bit 1 i = i div 2" by (simp add: drop_bit_eq_div)
  ultimately show ?thesis
    using that[of 2] assms True getprimefactors.simps[of i u f] by (simp only:) simp
next
  case False
  then have o: "i AND 1 \<noteq> 0" by (simp add: and_one_eq mod_2_eq_odd)
  have "d = 2" if "1 < d \<and> d < 3" for d :: int using that by linarith
  with False have "rough i 3" unfolding rough_def by blast
  with odd_divisor_least[of i 3] assms False obtain d where d: "odd_divisor i 3 = Some d"
    "d dvd i" "3 \<le> d" "rough i d"
    by (cases "odd_divisor i 3") auto
  then show ?thesis using that[of d] assms o getprimefactors.simps[of i u f] by simp
qed

lemma prod_list_factor: "d dvd i \<Longrightarrow> prod_list fs = i div d \<Longrightarrow> prod_list (d # fs) = (i :: int)"
  by simp

text \<open>
  What a caller may rely on when its callback never cancels: if \<open>shows_factors u fs\<close>
  says how the user data accounts for the factors \<open>fs\<close> it was given, it accounts for the
  whole factorisation when the function returns \<open>0\<close>.
\<close>

locale factor_callback =
  fixes f :: "'u \<Rightarrow> int \<Rightarrow> int \<times> 'u" and shows_factors :: "'u \<Rightarrow> int list \<Rightarrow> bool"
  assumes proceeds: "shows_factors u fs \<Longrightarrow> fst (f u p) = 0"
    and accounts: "shows_factors u fs \<Longrightarrow> shows_factors (snd (f u p)) (fs @ [p])"
begin

lemma factors_from:
  "1 \<le> i \<Longrightarrow> rough i c \<Longrightarrow> shows_factors u fs \<Longrightarrow>
    \<exists>gs. fst (getprimefactors i u f) = 0 \<and> shows_factors (snd (getprimefactors i u f)) (fs @ gs)
      \<and> factorization i gs \<and> (\<forall>g \<in> set gs. c \<le> g)"
proof (induction "nat i" arbitrary: i u fs c rule: less_induct)
  case less
  show ?case
  proof (cases "i = 1")
    case True
    with less.prems show ?thesis
      by (intro exI[of _ "[]"]) (simp add: getprimefactors_1 factorization_def)
  next
    case False
    with less.prems(1) have "2 \<le> i" by simp
    then obtain d where d: "d dvd i" "2 \<le> d" "rough i d"
      and g: "getprimefactors i u f = (case f u d of (s, u') \<Rightarrow>
        if s \<noteq> 0 then (1, u') else getprimefactors (i div d) u' f)"
      by (rule next_factor)
    from g proceeds[OF less.prems(3)]
    have g': "getprimefactors i u f = getprimefactors (i div d) (snd (f u d)) f"
      by (simp add: case_prod_unfold)
    have j: "1 \<le> i div d" "i div d < i" "i div d dvd i"
      using d less.prems(1) by (auto simp: int_div_less_self pos_imp_zdiv_pos_iff zdvd_imp_le elim: dvdE)
    have "rough (i div d) d" using d(3) j(3) by (rule rough_dvd)
    from less.hyps[OF _ j(1) this accounts[OF less.prems(3)], of d] j obtain gs where
      "fst (getprimefactors i u f) = 0" "shows_factors (snd (getprimefactors i u f)) (fs @ d # gs)"
      "factorization (i div d) gs" "\<forall>g \<in> set gs. d \<le> g" unfolding g' by auto
    moreover have "is_prime d" using d by (intro rough_prime) auto
    moreover have "c \<le> d" using less.prems(2) d unfolding rough_def by force
    ultimately show ?thesis
      using d(1) by (intro exI[of _ "d # gs"]) (force simp: factorization_def)
  qed
qed

lemma all_factors:
  "1 \<le> i \<Longrightarrow> shows_factors u [] \<Longrightarrow>
    \<exists>gs. fst (getprimefactors i u f) = 0 \<and> shows_factors (snd (getprimefactors i u f)) gs \<and> factorization i gs"
  (is "_ \<Longrightarrow> _ \<Longrightarrow> ?thesis")
proof -
  have "rough i 0" by (auto simp: rough_def)
  then show "1 \<le> i \<Longrightarrow> shows_factors u [] \<Longrightarrow> ?thesis"
    using factors_from[of i 0 u "[]"] by auto
qed

end

section \<open>\<open>primtal.c\<close>\<close>

datatype console = Puts string | Print string | Message string "arg list" | Scanf | Fgets nat

text \<open>The global of \<open>primtal.c\<close> and what the callback has printed since it was cleared.\<close>

record printer =
  factorprinted :: bool
  printed :: "string list"

definition printfactor :: "printer \<Rightarrow> int \<Rightarrow> int \<times> printer" where
  "printfactor u f =
    (0, u\<lparr>factorprinted := True,
          printed := printed u @ [(if factorprinted u then '' * '' else []) @ dec f]\<rparr>)"

primrec print_all :: "string list \<Rightarrow> (console, reply) prog \<Rightarrow> (console, reply) prog" where
  "print_all [] k = k"
| "print_all (s # ss) k = Sys (Print s) (\<lambda>_. print_all ss k)"

fun primtal_main :: "nat \<Rightarrow> (console, reply) prog" where
  "primtal_main 0 = OutOfFuel"
| "primtal_main (Suc fuel) =
    Sys (Puts ''Vilket tal vill du primfaktoruppdela?'') (\<lambda>_.
    Sys Scanf (\<lambda>r.
      let no = (if rv r = 1 then num r else 0) in
      if no \<le> 0 then Done 0
      else
        (case getprimefactors no \<lparr>factorprinted = False, printed = []\<rparr> printfactor of
           (_, u) \<Rightarrow>
             print_all (printed u) (Sys (Print ('' = '' @ dec no @ [CHR 0x0A])) (\<lambda>_.
             primtal_main fuel)))))"

text \<open>What a user sees: the factors joined by a multiplication sign.\<close>

fun product_text :: "int list \<Rightarrow> string" where
  "product_text [] = []"
| "product_text [p] = dec p"
| "product_text (p # q # ps) = dec p @ '' * '' @ product_text (q # ps)"

lemma product_text_snoc:
  "product_text (ps @ [p]) = (if ps = [] then dec p else product_text ps @ '' * '' @ dec p)"
  by (induction ps rule: product_text.induct) auto

interpretation printer: factor_callback printfactor
  "\<lambda>u fs. factorprinted u = (fs \<noteq> []) \<and> concat (printed u) = product_text fs"
  by unfold_locales (auto simp: printfactor_def product_text_snoc)

text \<open>A user who types the numbers of a list; the screen keeps all that was written.\<close>

type_synonym session = "int list \<times> string"

fun user :: "session \<Rightarrow> console \<Rightarrow> reply \<times> session" where
  "user (ns, scr) (Puts s) = (ok, ns, scr @ s @ [CHR 0x0A])"
| "user (ns, scr) (Print s) = (ok, ns, scr @ s)"
| "user (ns, scr) (Message m as) = (ok, ns, scr)"
| "user (ns, scr) Scanf =
    (case ns of [] \<Rightarrow> (ok\<lparr>rv := - 1\<rparr>, [], scr) | n # ns' \<Rightarrow> (ok\<lparr>num := n\<rparr>, ns', scr))"
| "user (ns, scr) (Fgets k) = (ok\<lparr>rv := 0\<rparr>, ns, scr)"

lemma user_print_all:
  "interp user (ns, scr) (print_all ss k) = interp user (ns, scr @ concat ss) k"
  by (induction ss arbitrary: scr) auto

definition question :: string where
  "question = ''Vilket tal vill du primfaktoruppdela?'' @ [CHR 0x0A]"

definition answer :: "int \<Rightarrow> int list \<Rightarrow> string" where
  "answer n fs = product_text fs @ '' = '' @ dec n @ [CHR 0x0A]"

text \<open>
  C34. A session of \<open>primtal\<close>: given positive numbers and then a number that is not, the
  program answers each of them with its prime factors in ascending order, their product
  being the number, and ends with status \<open>0\<close>.
\<close>

theorem primtal_session:
  assumes "\<forall>n \<in> set ns. 1 \<le> n" and "m \<le> 0"
  shows "\<exists>fss. list_all2 factorization ns fss \<and>
    interp user (ns @ m # rest, scr) (primtal_main (Suc (length ns)))
      = (Some 0, rest, scr @ concat (map (\<lambda>(n, fs). question @ answer n fs) (zip ns fss)) @ question)"
  using assms(1)
proof (induction ns arbitrary: scr)
  case Nil
  with assms(2) show ?case by (simp add: question_def ok_def)
next
  case (Cons n ns)
  let ?u = "\<lparr>factorprinted = False, printed = []\<rparr>"
  obtain fs where f: "concat (printed (snd (getprimefactors n ?u printfactor))) = product_text fs"
    "factorization n fs"
    using printer.all_factors[of n ?u] Cons.prems by auto
  let ?scr = "scr @ question @ answer n fs"
  obtain fss where g: "list_all2 factorization ns fss"
    "interp user (ns @ m # rest, ?scr) (primtal_main (Suc (length ns)))
      = (Some 0, rest, ?scr @ concat (map (\<lambda>(n, fs). question @ answer n fs) (zip ns fss)) @ question)"
    using Cons.IH[of ?scr] Cons.prems by auto
  have "interp user ((n # ns) @ m # rest, scr) (primtal_main (Suc (length (n # ns))))
      = interp user (ns @ m # rest, ?scr) (primtal_main (Suc (length ns)))"
    using Cons.prems f(1)
    by (simp add: case_prod_unfold user_print_all question_def answer_def ok_def del: primtal_main.simps(2)
        add: primtal_main.simps(2)[of "Suc (length ns)"])
  with f(2) g show ?case by (intro exI[of _ "fs # fss"]) simp
qed

theorem primtal_session_witness:
  "\<exists>fs. factorization 12 fs \<and>
    interp user ([12, 0], []) (primtal_main 2) = (Some 0, [], question @ answer 12 fs @ question)"
proof -
  have h: "\<forall>n \<in> set [12::int]. 1 \<le> n" and m: "(0::int) \<le> 0" by simp_all
  from primtal_session[OF h m, of "[]" "[]"] obtain fss where
    "list_all2 factorization [12] fss"
    "interp user ([12, 0], []) (primtal_main 2)
      = (Some 0, [], concat (map (\<lambda>(n, fs). question @ answer n fs) (zip [12] fss)) @ question)"
    by (auto simp: numeral_2_eq_2 simp del: primtal_main.simps)
  then show ?thesis by (auto simp: list_all2_Cons1)
qed

section \<open>\<open>fraction.c\<close>\<close>

text \<open>
  The buffer survives from one turn to the next when \<open>fgets\<close> fails; before the first
  line it has no defined content (\<open>None\<close>). The tag of the message stands for the
  Swedish sentence that reports the reduced fraction.
\<close>

definition fraction_prompt :: string where
  "fraction_prompt = ''Ange br'' @ [CHR 0xE5] @ ''ktal p'' @ [CHR 0xE5] @ '' formen t/n''"

fun fraction_main :: "nat \<Rightarrow> string option \<Rightarrow> (console, reply) prog" where
  "fraction_main 0 buffer = OutOfFuel"
| "fraction_main (Suc fuel) buffer =
    Sys (Puts fraction_prompt) (\<lambda>_.
    Sys (Fgets 261) (\<lambda>r.
      case (if rv r \<noteq> 0 then Some (line r) else buffer) of
        None \<Rightarrow> Crash
      | Some b \<Rightarrow>
          if CHR ''/'' \<notin> set b then Done 0
          else
            (let buf = takeWhile (\<lambda>c. c \<noteq> CHR ''/'') b;
                 cn = tl (dropWhile (\<lambda>c. c \<noteq> CHR ''/'') b);
                 t = sint (fst (strtoul buf 0));
                 n = sint (fst (strtoul cn 0))
             in case gcd_c t n of
                  None \<Rightarrow> Crash
                | Some f \<Rightarrow>
                    if f \<noteq> 0 then
                      (case (c_div t f, c_div n f) of
                         (Some t', Some n') \<Rightarrow>
                           Sys (Message ''forenklat'' [I t', I n', I f]) (\<lambda>_.
                           fraction_main fuel (Some buf))
                       | _ \<Rightarrow> Crash)
                    else
                      Sys (Puts ''Hmm... Det blev visst fel...'') (\<lambda>_.
                      fraction_main fuel (Some buf)))))"

lemma trunc_div_dvd: "f dvd a \<Longrightarrow> trunc_div a f * f = a"
  using trunc_div_mod[of a f] by (auto simp: trunc_mod_def)

lemma reduced:
  fixes t n f :: int
  assumes "f \<noteq> 0" "\<bar>f\<bar> = gcd t n"
  shows "trunc_div t f * n = t * trunc_div n f \<and> coprime (trunc_div t f) (trunc_div n f)"
proof -
  have d: "f dvd t" "f dvd n" using assms by (metis abs_dvd_iff gcd_dvd1 gcd_dvd2)+
  from d[THEN trunc_div_dvd] have e: "t = trunc_div t f * f" "n = trunc_div n f * f" by simp_all
  have "trunc_div t f * n = trunc_div t f * (trunc_div n f * f)" using e(2) by simp
  also have "\<dots> = t * trunc_div n f" using e(1) by (simp add: mult.commute mult.left_commute)
  finally have q: "trunc_div t f * n = t * trunc_div n f" .
  have "gcd t n = gcd (trunc_div t f * f) (trunc_div n f * f)" using e by simp
  also have "\<dots> = \<bar>f\<bar> * gcd (trunc_div t f) (trunc_div n f)"
    using gcd_mult_distrib_int[of f] by (simp add: mult.commute)
  finally have "\<bar>f\<bar> * gcd (trunc_div t f) (trunc_div n f) = \<bar>f\<bar> * 1"
    using assms(2) by (simp only: mult_1_right)
  with assms(1) have "gcd (trunc_div t f) (trunc_div n f) = 1" by (simp only: mult_cancel_left) simp
  with q show ?thesis by (simp add: coprime_iff_gcd_eq_1)
qed

text \<open>
  \<open>fraction\<close> answers a line that has a division sign with the reduced fraction, when
  the division of the two numbers by the factor is defined.
\<close>

definition fraction_of :: "string \<Rightarrow> int \<times> int" where
  "fraction_of b =
    (sint (fst (strtoul (takeWhile (\<lambda>c. c \<noteq> CHR ''/'') b) 0)),
     sint (fst (strtoul (tl (dropWhile (\<lambda>c. c \<noteq> CHR ''/'') b)) 0)))"

lemma is_int_sint: "is_int (sint (w :: DWORD))"
  using sint_range_size[of w] by (simp add: is_int_def INT_MIN_def INT_MAX_def word_size)

text \<open>A user who types lines; the screen keeps the messages.\<close>

type_synonym dialogue = "string list \<times> (string \<times> arg list) list"

fun typist :: "dialogue \<Rightarrow> console \<Rightarrow> reply \<times> dialogue" where
  "typist (ls, scr) (Message m as) = (ok, ls, scr @ [(m, as)])"
| "typist (ls, scr) (Fgets k) =
    (case ls of [] \<Rightarrow> (ok\<lparr>rv := 0\<rparr>, [], scr) | l # ls' \<Rightarrow> (ok\<lparr>line := l\<rparr>, ls', scr))"
| "typist (ls, scr) Scanf = (ok\<lparr>rv := - 1\<rparr>, ls, scr)"
| "typist (ls, scr) _ = (ok, ls, scr)"

definition reduced_answer :: "string \<Rightarrow> string \<times> arg list \<Rightarrow> bool" where
  "reduced_answer b ms \<longleftrightarrow>
    (\<exists>t n t' n' f. fraction_of b = (t, n) \<and> ms = (''forenklat'', [I t', I n', I f]) \<and>
       t' * n = t * n' \<and> coprime t' n' \<and> t = t' * f \<and> n = n' * f)"

definition proper :: "string \<Rightarrow> bool" where
  "proper b \<longleftrightarrow> CHR ''/'' \<in> set b \<and>
    (case fraction_of b of (t, n) \<Rightarrow> n \<noteq> 0 \<and> t \<noteq> INT_MIN \<and> n \<noteq> INT_MIN)"

lemma fraction_turn:
  assumes "proper b"
  shows "\<exists>a buf. reduced_answer b a \<and>
    interp typist (b # ls, scr) (fraction_main (Suc fuel) buffer) =
    interp typist (ls, scr @ [a]) (fraction_main fuel (Some buf))"
proof -
  obtain t n where tn: "fraction_of b = (t, n)" by fastforce
  with assms have p: "CHR ''/'' \<in> set b" "n \<noteq> 0" "t \<noteq> INT_MIN" "n \<noteq> INT_MIN"
    by (auto simp: proper_def)
  have i: "is_int t" "is_int n" using tn by (auto simp: fraction_of_def is_int_sint)
  from gcd_c_cases[OF i] p obtain f where f: "gcd_c t n = Some f" "f \<noteq> 0" "\<bar>f\<bar> = gcd t n"
    by (auto split: option.splits)
  have d: "f dvd t" "f dvd n" using f(3) by (metis abs_dvd_iff gcd_dvd1 gcd_dvd2)+
  have q: "c_div t f = Some (trunc_div t f)" "c_div n f = Some (trunc_div n f)"
    using p f(2) by (auto simp: c_div_def)
  let ?a = "(''forenklat'', [I (trunc_div t f), I (trunc_div n f), I f])"
  have "reduced_answer b ?a"
    using reduced[OF f(2,3)] tn d[THEN trunc_div_dvd] by (auto simp: reduced_answer_def)
  moreover have "interp typist (b # ls, scr) (fraction_main (Suc fuel) buffer) =
      interp typist (ls, scr @ [?a]) (fraction_main fuel (Some (takeWhile (\<lambda>c. c \<noteq> CHR ''/'') b)))"
    using p(1) tn f(1,2) q by (simp add: ok_def fraction_of_def Let_def)
  ultimately show ?thesis by blast
qed

text \<open>
  A session of \<open>fraction\<close>: every line \<open>t/n\<close> whose two numbers are ordinary (the
  denominator is not zero, neither is \<open>INT_MIN\<close>) is answered with the same fraction in
  lowest terms and the factor taken out; the first line without a division sign ends it.
\<close>

theorem fraction_session:
  assumes "\<forall>b \<in> set bs. proper b" and "CHR ''/'' \<notin> set e"
  shows "\<exists>as. list_all2 reduced_answer bs as \<and>
    interp typist (bs @ e # rest, scr) (fraction_main (Suc (length bs)) buffer) = (Some 0, rest, scr @ as)"
  using assms(1)
proof (induction bs arbitrary: scr buffer)
  case Nil
  with assms(2) show ?case by (simp add: ok_def)
next
  case (Cons b bs)
  then obtain a buf where a: "reduced_answer b a"
    "interp typist (b # bs @ e # rest, scr) (fraction_main (Suc (Suc (length bs))) buffer) =
     interp typist (bs @ e # rest, scr @ [a]) (fraction_main (Suc (length bs)) (Some buf))"
    using fraction_turn[of b "bs @ e # rest" scr "Suc (length bs)" buffer] by auto
  from Cons obtain as where "list_all2 reduced_answer bs as"
    "interp typist (bs @ e # rest, scr @ [a]) (fraction_main (Suc (length bs)) (Some buf)) =
      (Some 0, rest, (scr @ [a]) @ as)"
    using Cons.IH[of "scr @ [a]" "Some buf"] by auto
  with a show ?case by (intro exI[of _ "a # as"]) (simp del: fraction_main.simps)
qed

theorem fraction_session_witness:
  "\<exists>as. list_all2 reduced_answer [''12/18''] as \<and>
    interp typist ([''12/18'', ''q''], []) (fraction_main 2 None) = (Some 0, [], as)"
proof -
  have f: "fraction_of ''12/18'' = (12, 18)"
    by (simp add: fraction_of_def strtoul_def Let_def number_prefix_def is_digit_of_def
        digit_value_def c_isspace_def code_def digits_value_def ULONG_MAX_def)
  have h: "\<forall>b \<in> set [''12/18'']. proper b" "CHR ''/'' \<notin> set ''q''"
    using f by (simp_all add: proper_def INT_MIN_def)
  from fraction_session[OF h, of "[]" "[]" None] show ?thesis
    by (simp add: numeral_2_eq_2 del: fraction_main.simps)
qed

end
