(* ===== verification/Filters.thy ===== *)
theory Filters
  imports CLib Prog
begin

text \<open>
  The programs that copy standard input to standard output and change it on the way:
  \<open>rot13.c\<close>, \<open>chr7filter.c\<close>, \<open>extrtext32.c\<close>, \<open>aaofiltr.c\<close>, and the generator
  \<open>strmchr.c\<close>. They share the calls and the pipe they are run against.
\<close>

section \<open>Calls and pipes\<close>

text \<open>
  \<open>ReadFile\<close> answers the bytes read in \<open>out\<close> and their number in \<open>num\<close>, \<open>WriteFile\<close>
  the number of bytes written in \<open>num\<close>; \<open>Yield\<close> is \<open>Sleep(0)\<close>.
\<close>

datatype filter_call =
    ReadFile nat
  | WriteFile "byte list"
  | Yield
  | IsCharLower byte
  | Rand
  | Srand
  | Usage

type_synonym filter = "(filter_call, reply) prog"

text \<open>
  A pipe: the bytes still to come, the sizes of the pieces in which the other end wrote
  them (a read returns at most one piece), and the bytes that went out.
\<close>

record pipe =
  source :: "byte list"
  pieces :: "nat list"
  sink :: "byte list"

definition piece :: "pipe \<Rightarrow> nat \<Rightarrow> nat" where
  "piece s n = min n (case pieces s of [] \<Rightarrow> n | k # _ \<Rightarrow> max 1 k)"

fun pipe_step :: "pipe \<Rightarrow> filter_call \<Rightarrow> reply \<times> pipe" where
  "pipe_step s (ReadFile n) =
    (let d = take (piece s n) (source s) in
     (ok\<lparr>out := d, num := int (length d)\<rparr>,
      s\<lparr>source := drop (piece s n) (source s), pieces := tl (pieces s)\<rparr>))"
| "pipe_step s (WriteFile bs) = (ok\<lparr>num := int (length bs)\<rparr>, s\<lparr>sink := sink s @ bs\<rparr>)"
| "pipe_step s (IsCharLower b) = (ok\<lparr>rv := (if 97 \<le> b \<and> b \<le> 122 then 1 else 0)\<rparr>, s)"
| "pipe_step s _ = (ok, s)"

text \<open>What the documentation of the calls promises for every pipe.\<close>

fun pipe_law :: "filter_call \<Rightarrow> reply \<Rightarrow> bool" where
  "pipe_law (ReadFile n) r \<longleftrightarrow> length (out r) \<le> n \<and> num r = int (length (out r))"
| "pipe_law (WriteFile bs) r \<longleftrightarrow> 0 \<le> num r \<and> num r \<le> int (length bs)"
| "pipe_law _ r \<longleftrightarrow> True"

interpretation pipe: environment pipe_step pipe_law
proof
  fix s c
  show "pipe_law c (fst (pipe_step s c))"
    by (cases c) (auto simp: ok_def Let_def piece_def)
qed

lemma piece_pos: "0 < n \<Longrightarrow> 0 < piece s n"
  by (auto simp: piece_def split: list.splits)

section \<open>\<open>rot13.c\<close>\<close>

definition rot13 :: "byte \<Rightarrow> byte" where
  "rot13 b =
    (if b \<ge> 97 then
       if b \<le> 122 - 13 then b + 13 else if b \<le> 122 then b - 13 else b
     else if b \<ge> 65 then
       if b \<le> 90 - 13 then b + 13 else if b \<le> 90 then b - 13 else b
     else b)"

text \<open>
  The count is both the size of the next read and the place where the calls store theirs:
  what was written last bounds what is read next.
\<close>

fun rot13_loop :: "nat \<Rightarrow> nat \<Rightarrow> filter" where
  "rot13_loop 0 len = OutOfFuel"
| "rot13_loop (Suc fuel) len =
    Sys (ReadFile len) (\<lambda>r.
      if rv r = 0 then Done 1
      else if num r = 0 then Done 0
      else Sys Yield (\<lambda>_.
        Sys (WriteFile (map rot13 (out r))) (\<lambda>w.
          if rv w = 0 then Done 1 else rot13_loop fuel (nat (num w)))))"

definition rot13_main :: "nat \<Rightarrow> filter" where
  "rot13_main fuel = rot13_loop fuel 8192"

lemma unat_rotated:
  "unat (rot13 b) =
    (let n = unat b in
     if 97 \<le> n then if n \<le> 109 then n + 13 else if n \<le> 122 then n - 13 else n
     else if 65 \<le> n then if n \<le> 77 then n + 13 else if n \<le> 90 then n - 13 else n else n)"
proof -
  have "unat (b + 13) = unat b + 13" if "b \<le> 200"
    using that unat_add_lem[of b 13] by (simp add: word_le_nat_alt)
  moreover have "unat (b - 13) = unat b - 13" if "13 \<le> b"
    using that by (simp add: unat_sub word_le_nat_alt)
  ultimately show ?thesis
    by (simp add: rot13_def word_le_nat_alt Let_def)
qed

lemma rot13_involution: "rot13 (rot13 b) = b"
proof -
  have "unat (rot13 (rot13 b)) = unat b" unfolding unat_rotated Let_def by (auto split: if_splits)
  then show ?thesis by (simp only: word_unat_eq_iff)
qed

lemma rot13_loop_pipe:
  "length (source s) < fuel \<Longrightarrow> 0 < len \<Longrightarrow>
    \<exists>s'. interp pipe_step s (rot13_loop fuel len) = (Some 0, s') \<and>
      sink s' = sink s @ map rot13 (source s) \<and> source s' = []"
proof (induction fuel arbitrary: s len)
  case 0
  then show ?case by simp
next
  case (Suc fuel)
  show ?case
  proof (cases "source s = []")
    case True
    then show ?thesis by (simp add: ok_def)
  next
    case False
    let ?k = "piece s len"
    let ?d = "take ?k (source s)"
    let ?s = "s\<lparr>source := drop ?k (source s), pieces := tl (pieces s), sink := sink s @ map rot13 ?d\<rparr>"
    have k: "0 < ?k" using Suc.prems(2) by (rule piece_pos)
    with False have d: "0 < length ?d" "min (length (source s)) ?k \<noteq> 0" by simp_all
    have "interp pipe_step s (rot13_loop (Suc fuel) len) = interp pipe_step ?s (rot13_loop fuel (length ?d))"
      using d by (auto simp: Let_def ok_def min_def)
    moreover have "length (source ?s) < fuel"
      using Suc.prems(1) False k by (cases "source s") auto
    then obtain s' where "interp pipe_step ?s (rot13_loop fuel (length ?d)) = (Some 0, s')"
      "sink s' = sink ?s @ map rot13 (source ?s)" "source s' = []"
      using Suc.IH[of ?s "length ?d"] d by auto
    moreover have "map rot13 ?d @ map rot13 (drop ?k (source s)) = map rot13 (source s)"
      by (metis append_take_drop_id map_append)
    ultimately show ?thesis by simp
  qed
qed

text \<open>The bytes that a filter makes of an input, and its exit status.\<close>

definition filtered :: "filter \<Rightarrow> byte list \<Rightarrow> nat list \<Rightarrow> int option \<times> byte list" where
  "filtered p inp sizes =
    (case interp pipe_step \<lparr>source = inp, pieces = sizes, sink = []\<rparr> p of (n, s) \<Rightarrow> (n, sink s))"

text \<open>
  \<open>rot13\<close> on a pipe that delivers its input in pieces of any size turns every byte
  of the input and ends with status \<open>0\<close>; a second pass over its output, again in
  pieces of any size, gives the input back.
\<close>

theorem rot13_twice:
  assumes "length inp < fuel"
  shows "filtered (rot13_main fuel) inp sizes = (Some 0, map rot13 inp)
    \<and> filtered (rot13_main fuel) (map rot13 inp) sizes' = (Some 0, inp)"
proof -
  have "filtered (rot13_main fuel) xs zs = (Some 0, map rot13 xs)" if "length xs < fuel" for xs zs
    using rot13_loop_pipe[of "\<lparr>source = xs, pieces = zs, sink = []\<rparr>" fuel 8192] that
    by (auto simp: filtered_def rot13_main_def)
  with assms show ?thesis by (simp add: rot13_involution o_def)
qed

theorem rot13_twice_witness:
  "filtered (rot13_main 5) [72, 101, 106, 33] [1, 2] = (Some 0, [85, 114, 119, 33])"
proof -
  have h: "length [72, 101, 106, 33 :: byte] < 5" by simp
  have "map rot13 [72, 101, 106, 33] = [85, 114, 119, 33]" by (simp add: rot13_def)
  with rot13_twice[OF h, of "[1, 2]"] show ?thesis by simp
qed

section \<open>\<open>chr7filter.c\<close>\<close>

primrec yields :: "nat \<Rightarrow> filter \<Rightarrow> filter" where
  "yields 0 k = k"
| "yields (Suc n) k = Sys Yield (\<lambda>_. yields n k)"

definition no_bell :: "byte \<Rightarrow> byte" where
  "no_bell b = (if b = 0x07 then 0x00 else b)"

fun chr7_main :: "nat \<Rightarrow> filter" where
  "chr7_main 0 = OutOfFuel"
| "chr7_main (Suc fuel) =
    Sys (ReadFile 8192) (\<lambda>r.
      if rv r = 0 then Done 0
      else if num r = 0 then Done 0
      else yields (nat (num r))
        (Sys (WriteFile (map no_bell (out r))) (\<lambda>w.
          if rv w = 0 then Done 0 else chr7_main fuel)))"

lemma interp_yields [simp]: "interp pipe_step s (yields n k) = interp pipe_step s k"
  by (induction n) (simp_all add: ok_def)

lemma chr7_main_pipe:
  "length (source s) < fuel \<Longrightarrow>
    \<exists>s'. interp pipe_step s (chr7_main fuel) = (Some 0, s') \<and>
      sink s' = sink s @ map no_bell (source s) \<and> source s' = []"
proof (induction fuel arbitrary: s)
  case 0
  then show ?case by simp
next
  case (Suc fuel)
  show ?case
  proof (cases "source s = []")
    case True
    then show ?thesis by (simp add: ok_def)
  next
    case False
    let ?k = "piece s 8192"
    let ?d = "take ?k (source s)"
    let ?s = "s\<lparr>source := drop ?k (source s), pieces := tl (pieces s), sink := sink s @ map no_bell ?d\<rparr>"
    have k: "0 < ?k" by (rule piece_pos) simp
    with False have d: "0 < length ?d" "min (length (source s)) ?k \<noteq> 0" by simp_all
    have "interp pipe_step s (chr7_main (Suc fuel)) = interp pipe_step ?s (chr7_main fuel)"
      using d by (auto simp: Let_def ok_def min_def)
    moreover have "length (source ?s) < fuel"
      using Suc.prems(1) False k by (cases "source s") auto
    then obtain s' where "interp pipe_step ?s (chr7_main fuel) = (Some 0, s')"
      "sink s' = sink ?s @ map no_bell (source ?s)" "source s' = []"
      using Suc.IH[of ?s] d by auto
    moreover have "map no_bell ?d @ map no_bell (drop ?k (source s)) = map no_bell (source s)"
      by (metis append_take_drop_id map_append)
    ultimately show ?thesis by simp
  qed
qed

lemma chr7_filtered:
  "length inp < fuel \<Longrightarrow> filtered (chr7_main fuel) inp sizes = (Some 0, map no_bell inp)"
  using chr7_main_pipe[of "\<lparr>source = inp, pieces = sizes, sink = []\<rparr>" fuel]
  by (auto simp: filtered_def)

section \<open>\<open>extrtext32.c\<close>\<close>

text \<open>
  Two loops that alternate: control characters are skipped, text is copied; every byte is
  one read. The reply to the write of the line end is ignored.
\<close>

fun extr_skip :: "nat \<Rightarrow> filter" and extr_copy :: "nat \<Rightarrow> byte \<Rightarrow> filter" where
  "extr_skip 0 = OutOfFuel"
| "extr_skip (Suc fuel) =
    Sys (ReadFile 1) (\<lambda>r.
      if rv r = 0 then Done 1
      else if num r = 0 then Done 0
      else if hd (out r) < 0x20 then extr_skip fuel
      else extr_copy fuel (hd (out r)))"
| "extr_copy 0 c = OutOfFuel"
| "extr_copy (Suc fuel) c =
    Sys (WriteFile [c]) (\<lambda>w.
      if rv w = 0 then Done 1
      else if num w = 0 then Done 1
      else Sys (ReadFile 1) (\<lambda>r.
        if rv r = 0 then Done 1
        else if num r = 0 then Done 0
        else if hd (out r) \<ge> 0x20 then extr_copy fuel (hd (out r))
        else Sys Yield (\<lambda>_. Sys (WriteFile [13, 10]) (\<lambda>_. extr_skip fuel))))"

text \<open>
  The specification: the runs of bytes from \<open>0x20\<close> on, each one that something follows
  with a line end.
\<close>

function text_runs :: "byte list \<Rightarrow> byte list" where
  "text_runs bs =
    (let t = dropWhile (\<lambda>b. b < 0x20) bs;
         run = takeWhile (\<lambda>b. \<not> b < 0x20) t
     in if t = [] then []
        else case dropWhile (\<lambda>b. \<not> b < 0x20) t of
            [] \<Rightarrow> run
          | _ # rest \<Rightarrow> run @ [13, 10] @ text_runs rest)"
  by pat_completeness auto
termination
proof (relation "measure length", goal_cases)
  case (2 bs t run c rest)
  have "length (c # rest) \<le> length t" unfolding 2(4)[symmetric] by (rule length_dropWhile_le)
  moreover have "length t \<le> length bs" unfolding 2(1) by (rule length_dropWhile_le)
  ultimately show ?case by simp
qed simp

declare text_runs.simps [simp del]

definition rest_of_run :: "byte list \<Rightarrow> byte list" where
  "rest_of_run bs = takeWhile (\<lambda>b. \<not> b < 0x20) bs @
    (case dropWhile (\<lambda>b. \<not> b < 0x20) bs of [] \<Rightarrow> [] | _ # rest \<Rightarrow> [13, 10] @ text_runs rest)"

lemma extract_steps:
  "text_runs [] = []"
  "b < 0x20 \<Longrightarrow> text_runs (b # bs) = text_runs bs"
  "\<not> b < 0x20 \<Longrightarrow> text_runs (b # bs) = b # rest_of_run bs"
  "rest_of_run [] = []"
  "\<not> b < 0x20 \<Longrightarrow> rest_of_run (b # bs) = b # rest_of_run bs"
  "b < 0x20 \<Longrightarrow> rest_of_run (b # bs) = [13, 10] @ text_runs bs"
proof -
  show "text_runs [] = []" by (subst text_runs.simps) simp
  show "b < 0x20 \<Longrightarrow> text_runs (b # bs) = text_runs bs"
    by (subst (1 2) text_runs.simps) simp
  show "\<not> b < 0x20 \<Longrightarrow> text_runs (b # bs) = b # rest_of_run bs"
    by (cases "dropWhile (\<lambda>b. \<not> b < 0x20) bs"; subst text_runs.simps) (simp_all add: rest_of_run_def Let_def del: dropWhile_eq_Nil_conv)
qed (simp_all add: rest_of_run_def)

lemma piece_1 [simp]: "piece s (Suc 0) = Suc 0"
  by (auto simp: piece_def split: list.splits)

lemma extr_pipe:
  "length (source s) < fuel \<Longrightarrow>
     map_prod id sink (interp pipe_step s (extr_skip fuel)) = (Some 0, sink s @ text_runs (source s))
   \<and> map_prod id sink (interp pipe_step s (extr_copy fuel c)) = (Some 0, sink s @ c # rest_of_run (source s))"
proof (induction fuel arbitrary: s c)
  case (Suc fuel)
  show ?case
  proof (cases "source s")
    case Nil
    then show ?thesis by (simp add: ok_def Let_def extract_steps)
  next
    case (Cons b bs)
    have "length bs < fuel" using Suc.prems Cons by simp
    with Suc.IH Cons show ?thesis
      by (cases "b < 0x20") (simp_all add: ok_def Let_def extract_steps flip: not_less)
  qed
qed simp

text \<open>
  C30. \<open>extrtext32\<close> on any input that arrives in pieces of any size writes the text runs of
  the input, separated by line ends, and ends with status \<open>0\<close>.
\<close>

theorem extrtext_extracts:
  assumes "length inp < fuel"
  shows "filtered (extr_skip fuel) inp sizes = (Some 0, text_runs inp)"
  using extr_pipe[of "\<lparr>source = inp, pieces = sizes, sink = []\<rparr>" fuel] assms
  by (auto simp: filtered_def map_prod_def split: prod.splits)

theorem extrtext_extracts_witness:
  "filtered (extr_skip 9) [0, 65, 66, 10, 13, 67] [] = (Some 0, [65, 66, 13, 10, 67])"
proof -
  have h: "length [0, 65, 66, 10, 13, 67 :: byte] < 9" by simp
  from extrtext_extracts[OF h, of "[]"] show ?thesis by (simp add: extract_steps)
qed

section \<open>\<open>aaofiltr.c\<close>\<close>

definition lputs :: "byte list \<Rightarrow> filter \<Rightarrow> filter" where
  "lputs bs k = Sys (WriteFile bs) (\<lambda>_. k)"

text \<open>
  One pass over the text in the buffer, which ends at the first zero byte; the byte that
  follows the last one is that zero.
\<close>

definition next_byte :: "byte list \<Rightarrow> byte" where
  "next_byte bs = (case bs of [] \<Rightarrow> 0 | b # _ \<Rightarrow> b)"

primrec aao_text :: "byte list \<Rightarrow> filter \<Rightarrow> filter" where
  "aao_text [] k = k"
| "aao_text (b # bs) k =
    (if b = 0x86 then lputs [97, 97] (aao_text bs k)
     else if b = 0x84 then lputs [97, 101] (aao_text bs k)
     else if b = 0x94 then lputs [111, 101] (aao_text bs k)
     else if b = 0x8F then
       Sys (IsCharLower (next_byte bs)) (\<lambda>r.
         lputs (if rv r \<noteq> 0 then [65, 97] else [65, 65]) (aao_text bs k))
     else if b = 0x8E then
       Sys (IsCharLower (next_byte bs)) (\<lambda>r.
         lputs (if rv r \<noteq> 0 then [65, 101] else [65, 69]) (aao_text bs k))
     else if b = 0x99 then
       Sys (IsCharLower (next_byte bs)) (\<lambda>r.
         lputs (if rv r \<noteq> 0 then [79, 101] else [79, 69]) (aao_text bs k))
     else Sys (WriteFile [b]) (\<lambda>_. aao_text bs k))"

fun aao_main :: "nat \<Rightarrow> filter" where
  "aao_main 0 = OutOfFuel"
| "aao_main (Suc fuel) =
    Sys (ReadFile 260) (\<lambda>r.
      if rv r = 0 then Done 0
      else if num r = 0 then Done 0
      else aao_text (takeWhile (\<lambda>b. b \<noteq> 0) (out r)) (aao_main fuel))"

text \<open>The transliteration as a function: a table of the six letters.\<close>

definition aao_letter :: "byte \<Rightarrow> (byte \<times> byte \<times> bool) option" where
  "aao_letter b = map_of
    [(0x86, (97, 97, False)), (0x84, (97, 101, False)), (0x94, (111, 101, False)),
     (0x8F, (65, 97, True)), (0x8E, (65, 101, True)), (0x99, (79, 101, True))] b"

definition lower_byte :: "byte \<Rightarrow> bool" where
  "lower_byte b \<longleftrightarrow> 97 \<le> b \<and> b \<le> 122"

primrec transliterate :: "byte list \<Rightarrow> byte list" where
  "transliterate [] = []"
| "transliterate (b # bs) =
    (case aao_letter b of
       None \<Rightarrow> [b]
     | Some (x, y, capital) \<Rightarrow>
         [x, if capital \<and> \<not> lower_byte (next_byte bs) then y - 32 else y]) @ transliterate bs"

lemma aao_text_pipe:
  "interp pipe_step s (aao_text bs k) = interp pipe_step (s\<lparr>sink := sink s @ transliterate bs\<rparr>) k"
  by (induction bs arbitrary: s)
    (simp_all add: lputs_def aao_letter_def lower_byte_def ok_def)

text \<open>
  \<open>aaofiltr\<close> transliterates every piece up to its first zero byte on its own: a capital
  that ends a piece is followed by nothing.
\<close>

fun pieces_of :: "nat \<Rightarrow> pipe \<Rightarrow> byte list list" where
  "pieces_of 0 s = []"
| "pieces_of (Suc n) s =
    (if source s = [] then []
     else take (piece s 260) (source s)
       # pieces_of n (s\<lparr>source := drop (piece s 260) (source s), pieces := tl (pieces s)\<rparr>))"

lemma pieces_of_sink [simp]: "pieces_of n (s\<lparr>sink := x\<rparr>) = pieces_of n s"
proof (induction n arbitrary: s)
  case (Suc n)
  have "piece (s\<lparr>sink := x\<rparr>) 260 = piece s 260" by (simp add: piece_def)
  with Suc[of "s\<lparr>source := drop (piece s 260) (source s), pieces := tl (pieces s)\<rparr>"] show ?case
    by (cases s) simp
qed simp

lemma aao_main_pipe:
  "length (source s) < fuel \<Longrightarrow>
    map_prod id sink (interp pipe_step s (aao_main fuel))
      = (Some 0, sink s @ concat (map (\<lambda>p. transliterate (takeWhile (\<lambda>b. b \<noteq> 0) p)) (pieces_of fuel s)))"
proof (induction fuel arbitrary: s)
  case 0
  then show ?case by simp
next
  case (Suc fuel)
  show ?case
  proof (cases "source s = []")
    case True
    then show ?thesis by (simp add: ok_def)
  next
    case False
    let ?k = "piece s 260"
    let ?d = "takeWhile (\<lambda>b. b \<noteq> 0) (take ?k (source s))"
    let ?s = "s\<lparr>source := drop ?k (source s), pieces := tl (pieces s), sink := sink s @ transliterate ?d\<rparr>"
    have k: "0 < ?k" by (rule piece_pos) simp
    with False have d: "min (length (source s)) ?k \<noteq> 0" by simp
    have "interp pipe_step s (aao_main (Suc fuel)) = interp pipe_step ?s (aao_main fuel)"
      using d by (auto simp: Let_def ok_def min_def aao_text_pipe)
    moreover have "length (source ?s) < fuel"
      using Suc.prems(1) False k by (cases "source s") auto
    ultimately show ?thesis using Suc.IH[of ?s] False by (simp del: aao_main.simps)
  qed
qed

section \<open>\<open>strmchr.c\<close>\<close>

text \<open>\<open>argv\<close> without the program name. \<open>c\<close> is the constant character, if there is one.\<close>

definition SLEEP_INTERVAL_BYTES :: nat where
  "SLEEP_INTERVAL_BYTES = 65536"

fun strmchr_loop :: "nat \<Rightarrow> byte option \<Rightarrow> nat \<Rightarrow> filter" where
  "strmchr_loop 0 c counter = OutOfFuel"
| "strmchr_loop (Suc fuel) c counter =
    (let put = (\<lambda>b. Sys (WriteFile [b]) (\<lambda>w.
       if num w \<noteq> 1 then Done 0
       else if Suc counter > SLEEP_INTERVAL_BYTES then
         Sys Yield (\<lambda>_. strmchr_loop fuel c 0)
       else strmchr_loop fuel c (Suc counter)))
     in case c of Some b \<Rightarrow> put b | None \<Rightarrow> Sys Rand (\<lambda>r. put (of_int (num r))))"

definition strmchr_main :: "string list \<Rightarrow> nat \<Rightarrow> filter" where
  "strmchr_main args fuel =
    (case args of
       [] \<Rightarrow> Sys Srand (\<lambda>_. strmchr_loop fuel None 0)
     | a # extra \<Rightarrow>
         (case strtoul a 0 of
            (v, rest) \<Rightarrow>
              if rest \<noteq> [] \<or> extra \<noteq> [] then Sys Usage (\<lambda>_. Done 1)
              else strmchr_loop fuel (Some (ucast v)) 0))"

text \<open>
  A run with a numeric argument writes nothing but that character, and it ends only when a
  write fails.
\<close>

definition last_write_failed :: "(filter_call, reply) trace \<Rightarrow> bool" where
  "last_write_failed tr \<longleftrightarrow> tr \<noteq> [] \<and> (\<exists>b w. last tr = (WriteFile [b], w) \<and> num w \<noteq> 1)"

lemma strmchr_loop_writes:
  "\<forall>e \<in> set h. \<forall>bs. fst e = WriteFile bs \<longrightarrow> bs = [b] \<Longrightarrow>
    holds anything (\<lambda>tr n. n = 0 \<and> last_write_failed tr \<and>
      (\<forall>e \<in> set tr. \<forall>bs. fst e = WriteFile bs \<longrightarrow> bs = [b])) h (strmchr_loop fuel (Some b) k)"
  by (induction fuel arbitrary: h k) (simp_all add: Let_def last_write_failed_def)

lemma strmchr_constant:
  assumes "strtoul a 0 = (v, [])" "runs anything (strmchr_main [a] fuel) tr n"
  shows "n = 0 \<and> last_write_failed tr \<and> (\<forall>e \<in> set tr. \<forall>bs. fst e = WriteFile bs \<longrightarrow> bs = [ucast v])"
  using strmchr_loop_writes[of "[]" "ucast v" fuel 0] assms
  by (simp add: strmchr_main_def holds_iff_runs)

end
