(* ===== verification/StripCr.thy ===== *)
theory StripCr
  imports Prelude
begin

text \<open>
  \<open>stripcr.c\<close>: removes carriage returns, from standard input to standard output or in
  place through two shared mappings of each file that is named. The window of the
  mapping that is read and the window that is written move over the same file, so the
  bytes that \<open>convert\<close> reads may have been changed by what it sent before; the model
  keeps that aliasing. Answers of the operating system that the code cannot foresee are
  lists of answers in the state.
\<close>

section \<open>The state\<close>

datatype event =
    Perror string
  | Failed string
  | Usleep
  | Opened string
  | Closed string
  | Mapped nat nat
  | Unmapped nat
  | Truncated nat

datatype wr_mapping = Null | MapFailed | MapAt nat

text \<open>
  \<open>reads\<close> are the answers of \<open>read(0)\<close> to come (\<open>None\<close> is \<open>-1\<close>, an empty list the end of
  the input), \<open>accepts\<close> how many bytes the coming writes take at most. \<open>maps\<close>, \<open>stats\<close>
  and \<open>truncs\<close> tell which of the coming calls succeed; past their end every call does.
  \<open>data\<close> is the content of the file that is open. The rest are the globals of the
  source: the sizes \<open>sb\<close> and \<open>sb2\<close>, the file positions, the write window and the
  pointer into it (an offset, \<open>None\<close> for \<open>NULL\<close>).
\<close>

record strip_state =
  reads :: "byte list option list"
  accepts :: "nat list"
  written :: "byte list"
  files :: "string \<Rightarrow> byte list option"
  maps :: "bool list"
  stats :: "bool list"
  truncs :: "bool list"
  events :: "event list"
  data :: "byte list"
  rdmapfilepos :: nat
  wrmapfilepos :: nat
  wrmap :: wr_mapping
  wrmapptr :: "nat option"
  sb_size :: nat
  sb2_size :: nat

definition MMPSIZE :: nat where "MMPSIZE = 524288"

lemma MMPSIZE_pos [simp]: "0 < MMPSIZE"
  by (simp add: MMPSIZE_def)

definition answer_of :: "bool list \<Rightarrow> bool" where
  "answer_of as = (case as of [] \<Rightarrow> True | a # _ \<Rightarrow> a)"

definition emit :: "event list \<Rightarrow> strip_state \<Rightarrow> strip_state" where
  "emit es s = s\<lparr>events := events s @ es\<rparr>"

text \<open>\<open>mmap\<close> of no bytes fails; otherwise the next answer decides.\<close>

definition mmap :: "nat \<Rightarrow> nat \<Rightarrow> strip_state \<Rightarrow> bool \<times> strip_state" where
  "mmap n pos s =
    (let good = (n > 0 \<and> answer_of (maps s))
     in (good, (if good then emit [Mapped pos n] else id) (s\<lparr>maps := tl (maps s)\<rparr>)))"

text \<open>
  \<open>memmove\<close> inside the open file: \<open>n\<close> bytes from file position \<open>src\<close> to \<open>dst\<close>, as if
  through a buffer. A mapping does not lengthen its file.
\<close>

definition move :: "nat \<Rightarrow> nat \<Rightarrow> nat \<Rightarrow> byte list \<Rightarrow> byte list" where
  "move dst src n d =
    take (length d) (take dst d @ take n (drop src d) @ drop (dst + n) d)"

section \<open>\<open>convert\<close>\<close>

text \<open>
  \<open>peek s i\<close> reads the buffer at \<open>i\<close> in the state \<open>s\<close>, \<open>send s e n\<close> is
  \<open>sendfnc(buffer + e, n)\<close>. \<open>lb\<close> and \<open>le\<close> are \<open>lastbeginpos\<close> and \<open>lastendpos\<close>.
\<close>

function convert_loop :: "('s \<Rightarrow> nat \<Rightarrow> byte) \<Rightarrow> ('s \<Rightarrow> nat \<Rightarrow> nat \<Rightarrow> bool \<times> 's) \<Rightarrow>
    nat \<Rightarrow> nat \<Rightarrow> nat option \<Rightarrow> nat option \<Rightarrow> 's \<Rightarrow> bool \<times> 's" where
  "convert_loop peek send len ptr lb le s =
    (if ptr < len then
       if peek s ptr = 13 then
         (case le of
            Some e \<Rightarrow>
              (case send s e (ptr - e) of
                 (good, s') \<Rightarrow>
                   if \<not> good then (False, s')
                   else convert_loop peek send len (Suc ptr) (Some ptr) None s')
          | None \<Rightarrow>
              convert_loop peek send len (Suc ptr) (if lb = None then Some ptr else lb) None s)
       else if lb \<noteq> None \<and> le = None then
         convert_loop peek send len (Suc ptr) lb (Some ptr) s
       else convert_loop peek send len (Suc ptr) lb le s
     else
       (case le of
          Some e \<Rightarrow> (case send s e (ptr - e) of (good, s') \<Rightarrow> if \<not> good then (False, s') else (True, s'))
        | None \<Rightarrow> (True, s)))"
  by pat_completeness auto
termination by (relation "measure (\<lambda>(peek, send, len, ptr, lb, le, s). len - ptr)") auto

declare convert_loop.simps [simp del]

definition convert :: "('s \<Rightarrow> nat \<Rightarrow> byte) \<Rightarrow> ('s \<Rightarrow> nat \<Rightarrow> nat \<Rightarrow> bool \<times> 's) \<Rightarrow> nat \<Rightarrow> 's \<Rightarrow> bool \<times> 's" where
  "convert peek send len s = convert_loop peek send len 0 None (Some 0) s"

section \<open>The two receivers\<close>

definition wrstdout :: "byte list \<Rightarrow> strip_state \<Rightarrow> nat \<Rightarrow> nat \<Rightarrow> bool \<times> strip_state" where
  "wrstdout buffer s e n =
    (let bs = take n (drop e buffer);
         k = (case accepts s of [] \<Rightarrow> length bs | a # _ \<Rightarrow> min a (length bs))
     in (k = n, s\<lparr>written := written s @ take k bs, accepts := tl (accepts s)\<rparr>))"

text \<open>
  \<open>wrfmap\<close>. Opening the next write window is written twice in the source; the first
  time the size is copied from \<open>sb\<close>. \<open>src\<close> is the file position of \<open>buffer\<close>, which
  points into the mapping that is read.
\<close>

definition map_window :: "strip_state \<Rightarrow> bool \<times> strip_state" where
  "map_window s =
    (let n = (if sb2_size s > MMPSIZE then MMPSIZE else sb2_size s);
         (good, s') = mmap n (wrmapfilepos s) s;
         s'' = (if sb2_size s > MMPSIZE then s'\<lparr>sb2_size := sb2_size s - MMPSIZE\<rparr> else s')
     in if good then (True, s''\<lparr>wrmap := MapAt (wrmapfilepos s), wrmapptr := Some 0\<rparr>)
        else (False, s''\<lparr>wrmap := MapFailed\<rparr>))"

definition ptr_offset :: "strip_state \<Rightarrow> nat" where
  "ptr_offset s = (case wrmapptr s of None \<Rightarrow> 0 | Some p \<Rightarrow> p)"

lemma ptr_offset_other [simp]:
  "ptr_offset (s\<lparr>events := es\<rparr>) = ptr_offset s" "ptr_offset (s\<lparr>data := d\<rparr>) = ptr_offset s"
  by (simp_all add: ptr_offset_def)

lemma map_window_offset: "map_window s = (True, s') \<Longrightarrow> ptr_offset s' = 0"
  by (auto simp: map_window_def ptr_offset_def Let_def split: prod.splits if_splits)

function wrfmap_loop :: "nat \<Rightarrow> nat \<Rightarrow> strip_state \<Rightarrow> bool \<times> strip_state" where
  "wrfmap_loop src len s =
    (if ptr_offset s + len > MMPSIZE then
       let k = MMPSIZE - ptr_offset s;
           s1 = emit [Unmapped MMPSIZE]
             (s\<lparr>data := move (wrmapfilepos s + ptr_offset s) src k (data s)\<rparr>);
           r = map_window (s1\<lparr>wrmapfilepos := wrmapfilepos s1 + MMPSIZE\<rparr>)
       in if fst r then wrfmap_loop src (len - k) (snd r) else (False, snd r)
     else
       (True, s\<lparr>data := move (wrmapfilepos s + ptr_offset s) src len (data s),
                wrmapptr := Some (ptr_offset s + len)\<rparr>))"
  by pat_completeness auto
termination
proof (relation "measure (\<lambda>(src, len, s). ptr_offset s + len)", goal_cases)
  case (2 src len s k s1 r)
  then have "ptr_offset (snd r) = 0" by (metis map_window_offset prod.collapse)
  moreover have "len - k < ptr_offset s + len"
    using 2(1,2) MMPSIZE_pos unfolding 2(2) by linarith
  ultimately show ?case by simp
qed simp

declare wrfmap_loop.simps [simp del]

definition wrfmap :: "strip_state \<Rightarrow> nat \<Rightarrow> nat \<Rightarrow> bool \<times> strip_state" where
  "wrfmap s e len =
    (let src = rdmapfilepos s + e in
     if wrmapptr s = None then
       (case map_window (s\<lparr>sb2_size := sb_size s\<rparr>) of
          (good, s') \<Rightarrow> if good then wrfmap_loop src len s' else (False, s'))
     else wrfmap_loop src len s)"

section \<open>\<open>main\<close>\<close>

text \<open>Without arguments: standard input to standard output.\<close>

function strip_stdin :: "strip_state \<Rightarrow> int \<times> strip_state" where
  "strip_stdin s =
    (let s1 = emit [Usleep] s in
     case reads s of
       [] \<Rightarrow> (0, s1)
     | None # rs \<Rightarrow> (1, emit [Perror ''read''] (s1\<lparr>reads := rs\<rparr>))
     | Some buffer # rs \<Rightarrow>
         if length buffer = 0 then (0, s1\<lparr>reads := rs\<rparr>)
         else
           let r = convert (\<lambda>_ i. buffer ! i) (wrstdout buffer) (length buffer) (s1\<lparr>reads := rs\<rparr>)
           in if \<not> fst r then (1, emit [Perror ''write''] (snd r))
              else strip_stdin ((snd r)\<lparr>reads := rs\<rparr>))"
  by pat_completeness auto
termination by (relation "measure (\<lambda>s. length (reads s))") auto

declare strip_stdin.simps [simp del]

text \<open>
  In file mode the buffer is the read window. The first loop strips whole windows while
  more than one window is left; it ends early when a mapping or a write fails.
\<close>

definition peek_map :: "strip_state \<Rightarrow> nat \<Rightarrow> byte" where
  "peek_map s i = data s ! (rdmapfilepos s + i)"

definition convert_map :: "nat \<Rightarrow> strip_state \<Rightarrow> bool \<times> strip_state" where
  "convert_map n s = convert peek_map wrfmap n s"

function strip_windows :: "nat \<Rightarrow> strip_state \<Rightarrow> strip_state" where
  "strip_windows left s =
    (if left > MMPSIZE then
       let m = mmap MMPSIZE (rdmapfilepos s) (emit [Usleep] s)
       in if \<not> fst m then snd m
          else
            let c = convert_map MMPSIZE (snd m)
            in if \<not> fst c then snd c
               else
                 let s' = emit [Unmapped MMPSIZE] (snd c)
                 in strip_windows (left - MMPSIZE)
                      (s'\<lparr>rdmapfilepos := rdmapfilepos s' + MMPSIZE, sb_size := left - MMPSIZE\<rparr>)
     else s)"
  by pat_completeness auto
termination by (relation "measure fst") auto

declare strip_windows.simps [simp del]

definition is_mapped :: "wr_mapping \<Rightarrow> bool" where
  "is_mapped m \<longleftrightarrow> m \<noteq> Null \<and> m \<noteq> MapFailed"

definition close_file :: "string \<Rightarrow> strip_state \<Rightarrow> strip_state" where
  "close_file f s = emit [Closed f] (s\<lparr>files := (files s)(f \<mapsto> data s)\<rparr>)"

text \<open>
  The rest of the turn for one file: the last window, then the truncation to what has
  been written. The unmapping of a window names a whole window, whatever its size.
\<close>

definition ftruncate :: "nat \<Rightarrow> strip_state \<Rightarrow> bool \<times> strip_state" where
  "ftruncate n s =
    (if answer_of (truncs s) then
       (True, emit [Truncated n] (s\<lparr>truncs := tl (truncs s), data := take n (data s) @ replicate (n - length (data s)) 0\<rparr>))
     else (False, s\<lparr>truncs := tl (truncs s)\<rparr>))"

definition strip_last :: "string \<Rightarrow> strip_state \<Rightarrow> strip_state" where
  "strip_last f s =
    (if sb_size s > MMPSIZE then
       let s1 = emit [Perror ''mmap'', Failed f] s;
           s2 = (if is_mapped (wrmap s1) then emit [Unmapped MMPSIZE] s1 else s1)
       in close_file f s2
     else
       let m = mmap (sb_size s) (rdmapfilepos s) s
       in if \<not> fst m then close_file f (emit [Perror ''mmap'', Failed f] (snd m))
          else
            let c = convert_map (sb_size s) (snd m)
            in if \<not> fst c then
                 let s1 = emit [Perror ''write end map'', Failed f, Unmapped MMPSIZE] (snd c);
                     s2 = (if is_mapped (wrmap s1) then emit [Unmapped MMPSIZE] s1 else s1)
                 in close_file f s2
               else
                 let s1 = emit [Unmapped MMPSIZE] (snd c)
                 in if is_mapped (wrmap s1) then
                      let t = ftruncate (wrmapfilepos s1 + ptr_offset s1) (emit [Unmapped MMPSIZE] s1)
                      in close_file f
                           (if fst t then snd t else emit [Perror ''ftruncate'', Failed f] (snd t))
                    else close_file f s1)"

definition strip_file :: "string \<Rightarrow> strip_state \<Rightarrow> strip_state" where
  "strip_file f s =
    (case files s f of
       None \<Rightarrow> emit [Perror ''open'', Failed f] s
     | Some d \<Rightarrow>
         let s1 = emit [Opened f] (s\<lparr>data := d, stats := tl (stats s)\<rparr>)
         in if \<not> answer_of (stats s) then emit [Perror ''fstat'', Failed f, Closed f] s1
            else
              let s2 = s1\<lparr>sb_size := length d, rdmapfilepos := 0, wrmapfilepos := 0, wrmap := Null,
                          wrmapptr := None\<rparr>
              in strip_last f (strip_windows (length d) s2))"

definition stripcr_main :: "string list \<Rightarrow> strip_state \<Rightarrow> int \<times> strip_state" where
  "stripcr_main args s = (if args = [] then strip_stdin s else (0, fold strip_file args s))"

section \<open>The contract between \<open>convert\<close> and its receiver\<close>

text \<open>
  \<open>good s p out\<close>: the receiver has been given \<open>out\<close>, and the buffer still holds its
  original bytes from \<open>p\<close> on. A receiver promises to take any stretch of the buffer
  from there and to leave what lies behind the stretch alone; \<open>started\<close> says that it
  has been called. Then \<open>convert\<close> succeeds, calls the receiver, and sends everything but
  the carriage returns.
\<close>

locale receiver =
  fixes peek :: "'s \<Rightarrow> nat \<Rightarrow> byte" and send :: "'s \<Rightarrow> nat \<Rightarrow> nat \<Rightarrow> bool \<times> 's"
    and buffer :: "byte list" and good :: "'s \<Rightarrow> nat \<Rightarrow> byte list \<Rightarrow> bool"
    and started :: "'s \<Rightarrow> bool"
  assumes intact: "good s p out \<Longrightarrow> p \<le> i \<Longrightarrow> i < length buffer \<Longrightarrow> peek s i = buffer ! i"
    and takes: "good s p out \<Longrightarrow> p \<le> e \<Longrightarrow> e + n \<le> length buffer \<Longrightarrow>
      \<exists>s'. send s e n = (True, s') \<and> good s' (e + n) (out @ take n (drop e buffer)) \<and> started s'"
begin

definition pending :: "nat option \<Rightarrow> nat \<Rightarrow> byte list" where
  "pending le ptr = (case le of None \<Rightarrow> [] | Some e \<Rightarrow> take (ptr - e) (drop e buffer))"

lemma pending_Suc:
  "e \<le> ptr \<Longrightarrow> ptr < length buffer \<Longrightarrow>
    pending (Some e) (Suc ptr) = pending (Some e) ptr @ [buffer ! ptr]"
  by (simp add: pending_def Suc_diff_le take_Suc_conv_app_nth)

lemma convert_loop_sends:
  "good s p out \<Longrightarrow> ptr \<le> length buffer \<Longrightarrow>
    (case le of None \<Rightarrow> lb \<noteq> None \<and> p \<le> ptr \<and> started s | Some e \<Rightarrow> p \<le> e \<and> e \<le> ptr) \<Longrightarrow>
    \<exists>s' q. convert_loop peek send (length buffer) ptr lb le s = (True, s') \<and>
      good s' q (out @ pending le ptr @ filter (\<lambda>b. b \<noteq> 13) (drop ptr buffer)) \<and> started s'"
proof (induction "length buffer - ptr" arbitrary: ptr lb le s p out)
  case 0
  then have "ptr = length buffer" by simp
  with 0 show ?case
    using takes[of s p out "the le" "ptr - the le"]
    by (subst convert_loop.simps) (fastforce simp: pending_def split: option.splits)
next
  case (Suc k)
  then have l: "ptr < length buffer" "k = length buffer - Suc ptr" by simp_all
  then have d: "drop ptr buffer = buffer ! ptr # drop (Suc ptr) buffer" by (simp add: Cons_nth_drop_Suc)
  have pk: "peek s ptr = buffer ! ptr"
    using intact[OF Suc.prems(1) _ l(1)] Suc.prems(3) by (auto split: option.splits)
  note IH = Suc.hyps(1)[OF l(2)]
  show ?case
  proof (cases le)
    case (Some e)
    then have e: "p \<le> e" "e \<le> ptr" using Suc.prems(3) by auto
    show ?thesis
    proof (cases "buffer ! ptr = 13")
      case True
      obtain s' where s': "send s e (ptr - e) = (True, s')" "good s' ptr (out @ pending le ptr)"
        "started s'"
        using takes[OF Suc.prems(1) e(1), of "ptr - e"] e l Some by (auto simp: pending_def)
      from IH[OF s'(2), of "Some ptr" None] l Some True pk s'(1,3) d show ?thesis
        by (subst convert_loop.simps) (simp add: pending_def)
    next
      case False
      from IH[OF Suc.prems(1), of lb le] l e Some False pk d pending_Suc[of e ptr] show ?thesis
        by (subst convert_loop.simps) simp
    qed
  next
    case None
    then obtain b where lb: "lb = Some b" "p \<le> ptr" "started s" using Suc.prems(3) by auto
    show ?thesis
    proof (cases "buffer ! ptr = 13")
      case True
      from IH[OF Suc.prems(1), of lb None] l lb None True pk d show ?thesis
        by (subst convert_loop.simps) (simp add: pending_def)
    next
      case False
      have "pending (Some ptr) (Suc ptr) = [buffer ! ptr]"
        using pending_Suc[of ptr ptr] l by (simp add: pending_def)
      with IH[OF Suc.prems(1), of lb "Some ptr"] l lb None False pk d show ?thesis
        by (subst convert_loop.simps) (simp add: pending_def)
    qed
  qed
qed

lemma convert_sends:
  "good s 0 out \<Longrightarrow>
    \<exists>s' q. convert peek send (length buffer) s = (True, s') \<and>
      good s' q (out @ filter (\<lambda>b. b \<noteq> 13) buffer) \<and> started s'"
  using convert_loop_sends[of s 0 out 0 None "Some 0"] by (simp add: convert_def pending_def)

end

section \<open>Standard input to standard output\<close>

interpretation stdout: receiver "\<lambda>_ i. buffer ! i" "wrstdout buffer" buffer
  "\<lambda>s p out. accepts s = [] \<and> written s = base @ out" "\<lambda>_. True" for buffer base
  by unfold_locales (auto simp: wrstdout_def Let_def)

lemma strip_stdin_chunks:
  "reads s = map Some chunks \<Longrightarrow> [] \<notin> set chunks \<Longrightarrow> accepts s = [] \<Longrightarrow>
    \<exists>s'. strip_stdin s = (0, s') \<and> written s' = written s @ filter (\<lambda>b. b \<noteq> 13) (concat chunks)"
proof (induction chunks arbitrary: s)
  case Nil
  then show ?case by (subst strip_stdin.simps) (simp add: emit_def Let_def)
next
  case (Cons c chunks)
  let ?s = "(emit [Usleep] s)\<lparr>reads := map Some chunks\<rparr>"
  have "accepts ?s = [] \<and> written ?s = written s @ []" using Cons.prems by (simp add: emit_def)
  from stdout.convert_sends[OF this] obtain s' where
    s': "convert (\<lambda>_ i. c ! i) (wrstdout c) (length c) ?s = (True, s')" "accepts s' = []"
      "written s' = written s @ filter (\<lambda>b. b \<noteq> 13) c" by auto
  have "c \<noteq> []" using Cons.prems by auto
  then have "strip_stdin s = strip_stdin (s'\<lparr>reads := map Some chunks\<rparr>)"
    using Cons.prems s'(1) by (subst strip_stdin.simps) (simp add: Let_def)
  with Cons.IH[of "s'\<lparr>reads := map Some chunks\<rparr>"] Cons.prems s'(2,3) show ?case by auto
qed

section \<open>One file of at most one window\<close>

lemma move_exact:
  "dst + n \<le> length d \<Longrightarrow> src + n \<le> length d \<Longrightarrow>
    move dst src n d = take dst d @ take n (drop src d) @ drop (dst + n) d"
  by (simp add: move_def)

text \<open>What one call of \<open>wrfmap\<close> does while everything fits the first window.\<close>

definition in_window :: "byte list \<Rightarrow> strip_state \<Rightarrow> nat \<Rightarrow> byte list \<Rightarrow> bool" where
  "in_window buffer s p out \<longleftrightarrow>
    stats s = [] \<and> maps s = [] \<and> truncs s = [] \<and> rdmapfilepos s = 0 \<and> wrmapfilepos s = 0 \<and>
    sb_size s = length buffer \<and> 0 < length buffer \<and> length buffer \<le> MMPSIZE \<and>
    length (data s) = length buffer \<and> length out \<le> p \<and> p \<le> length buffer \<and>
    take (length out) (data s) = out \<and> (\<forall>i. p \<le> i \<and> i < length buffer \<longrightarrow> data s ! i = buffer ! i) \<and>
    ptr_offset s = length out \<and> (wrmapptr s = None \<or> is_mapped (wrmap s))"

lemma drop_nth_eq:
  "length xs = length ys \<Longrightarrow> \<forall>i. p \<le> i \<and> i < length ys \<longrightarrow> xs ! i = ys ! i \<Longrightarrow> p \<le> e \<Longrightarrow>
    drop e xs = drop e ys"
  by (rule nth_equalityI) auto

lemma wrfmap_in_window:
  assumes g: "in_window buffer s p out" and e: "p \<le> e" "e + n \<le> length buffer"
  shows "\<exists>s'. wrfmap s e n = (True, s') \<and> in_window buffer s' (e + n) (out @ take n (drop e buffer))
    \<and> (wrmapptr s' \<noteq> None \<and> is_mapped (wrmap s')) \<and> files s' = files s"
proof -
  define s1 where "s1 = (if wrmapptr s = None then snd (map_window (s\<lparr>sb2_size := sb_size s\<rparr>)) else s)"
  have o: "length out + n \<le> length buffer" using g e by (auto simp: in_window_def)
  have w: "fst (map_window (s\<lparr>sb2_size := sb_size s\<rparr>)) = True"
    using g by (simp add: in_window_def map_window_def Let_def mmap_def answer_of_def)
  have g1: "in_window buffer s1 p out" "is_mapped (wrmap s1)" "data s1 = data s" "files s1 = files s"
    using g by (auto simp: s1_def in_window_def map_window_def Let_def mmap_def answer_of_def
        emit_def ptr_offset_def is_mapped_def)
  let ?d = "move (length out) e n (data s)"
  let ?s = "s1\<lparr>data := ?d, wrmapptr := Some (length out + n)\<rparr>"
  have "wrfmap s e n = wrfmap_loop e n s1"
    using w g by (auto simp: wrfmap_def s1_def in_window_def case_prod_unfold)
  also have "\<dots> = (True, ?s)"
    using g1 o by (subst wrfmap_loop.simps) (auto simp: in_window_def)
  finally have r: "wrfmap s e n = (True, ?s)" .
  have l: "length (data s) = length buffer" "length out \<le> p" using g by (auto simp: in_window_def)
  have dr: "drop e (data s) = drop e buffer"
    using g e(1) by (intro drop_nth_eq[of _ _ p]) (auto simp: in_window_def)
  have m: "?d = out @ take n (drop e buffer) @ drop (length out + n) (data s)"
    using move_exact[of "length out" n "data s" e] l o e g dr by (auto simp: in_window_def)
  have t: "length (take n (drop e buffer)) = n" using e by simp
  have "data ?s ! i = buffer ! i" if "e + n \<le> i" "i < length buffer" for i
  proof -
    have "\<not> i < length out" "\<not> i - length out < n" using that l e by linarith+
    then have "?d ! i = drop (length out + n) (data s) ! (i - (length out + n))"
      using t unfolding m by (simp add: nth_append)
    also have "\<dots> = data s ! i" using that l e by simp
    also have "\<dots> = buffer ! i" using that g e by (auto simp: in_window_def)
    finally show ?thesis by simp
  qed
  moreover have "length ?d = length buffer" using l o t unfolding m by simp
  moreover have "take (length out + n) ?d = out @ take n (drop e buffer)" using t unfolding m by simp
  ultimately have "in_window buffer ?s (e + n) (out @ take n (drop e buffer))"
    using g1 g e t by (auto simp: in_window_def ptr_offset_def)
  with r g1 show ?thesis by (simp add: is_mapped_def)
qed

interpretation window: receiver peek_map wrfmap buffer
  "\<lambda>s p out. in_window buffer s p out \<and> files s = fs" "\<lambda>s. wrmapptr s \<noteq> None \<and> is_mapped (wrmap s)"
  for buffer fs
proof
  fix s p out e n
  assume "in_window buffer s p out \<and> files s = fs" "p \<le> e" "e + n \<le> length buffer"
  then show "\<exists>s'. wrfmap s e n = (True, s') \<and>
      (in_window buffer s' (e + n) (out @ take n (drop e buffer)) \<and> files s' = fs) \<and>
      wrmapptr s' \<noteq> None \<and> is_mapped (wrmap s')"
    using wrfmap_in_window by metis
qed (auto simp: in_window_def peek_map_def)

definition quiet :: "strip_state \<Rightarrow> bool" where
  "quiet s \<longleftrightarrow> stats s = [] \<and> maps s = [] \<and> truncs s = []"

lemma strip_file_one_window:
  assumes "files s f = Some d" "d \<noteq> []" "length d \<le> MMPSIZE" "quiet s"
  shows "files (strip_file f s) = (files s)(f \<mapsto> filter (\<lambda>b. b \<noteq> 13) d) \<and> quiet (strip_file f s)"
proof -
  define s1 where "s1 = emit [Mapped 0 (length d)] ((emit [Opened f] (s\<lparr>data := d, stats := tl (stats s)\<rparr>))
    \<lparr>sb_size := length d, rdmapfilepos := 0, wrmapfilepos := 0, wrmap := Null, wrmapptr := None, maps := []\<rparr>)"
  have "in_window d s1 0 [] \<and> files s1 = files s"
    using assms by (simp add: quiet_def s1_def in_window_def emit_def ptr_offset_def)
  from window.convert_sends[OF this] obtain s2 q where
    c: "convert_map (length d) s1 = (True, s2)"
    and g: "in_window d s2 q (filter (\<lambda>b. b \<noteq> 13) d)" "files s2 = files s" "is_mapped (wrmap s2)"
    by (auto simp: convert_map_def)
  have t: "take (length (filter (\<lambda>b. b \<noteq> 13) d)) (data s2) = filter (\<lambda>b. b \<noteq> 13) d"
    "length (filter (\<lambda>b. b \<noteq> 13) d) \<le> length (data s2)"
    using g(1) by (auto simp: in_window_def)
  have "mmap (length d) 0 ((emit [Opened f] (s\<lparr>data := d, stats := tl (stats s)\<rparr>))
    \<lparr>sb_size := length d, rdmapfilepos := 0, wrmapfilepos := 0, wrmap := Null, wrmapptr := None\<rparr>) = (True, s1)"
    using assms by (simp add: quiet_def mmap_def s1_def answer_of_def emit_def)
  with assms c g t show ?thesis
    by (simp add: quiet_def strip_file_def strip_windows.simps strip_last_def answer_of_def emit_def Let_def
        in_window_def ftruncate_def close_file_def)
qed

lemma strip_file_other:
  assumes "quiet s" "case files s f of None \<Rightarrow> True | Some d \<Rightarrow> d = []"
  shows "files (strip_file f s) = files s \<and> quiet (strip_file f s)"
  using assms by (cases "files s f")
    (auto simp: quiet_def strip_file_def strip_windows.simps strip_last_def answer_of_def emit_def
      Let_def mmap_def close_file_def)

definition stripped :: "byte list \<Rightarrow> byte list" where
  "stripped d = filter (\<lambda>b. b \<noteq> 13) d"

lemma stripped_idem [simp]:
  "stripped (stripped d) = stripped d" "map_option stripped (map_option stripped x) = map_option stripped x"
  by (simp_all add: stripped_def option.map_comp o_def cong: option.map_cong)

definition one_window :: "strip_state \<Rightarrow> string list \<Rightarrow> bool" where
  "one_window s args \<longleftrightarrow> (\<forall>f \<in> set args. \<forall>d. files s f = Some d \<longrightarrow> length d \<le> MMPSIZE)"

lemma strip_file_cases:
  assumes "quiet s" "\<forall>d. files s f = Some d \<longrightarrow> length d \<le> MMPSIZE"
  shows "files (strip_file f s) = (files s)(f := map_option stripped (files s f))
    \<and> quiet (strip_file f s)"
proof (cases "files s f")
  case None
  with strip_file_other[of s f] assms(1) show ?thesis by (auto simp: fun_upd_idem)
next
  case (Some d)
  show ?thesis
  proof (cases "d = []")
    case True
    with Some strip_file_other[of s f] assms(1) show ?thesis by (auto simp: stripped_def fun_upd_idem)
  next
    case False
    with Some strip_file_one_window[OF Some False] assms show ?thesis by (simp add: stripped_def)
  qed
qed

lemma strip_files:
  "quiet s \<Longrightarrow> one_window s args \<Longrightarrow>
    files (fold strip_file args s) = (\<lambda>f. if f \<in> set args then map_option stripped (files s f) else files s f)"
proof (induction args arbitrary: s)
  case Nil
  then show ?case by simp
next
  case (Cons f args)
  let ?s = "strip_file f s"
  have f: "files ?s = (files s)(f := map_option stripped (files s f))" "quiet ?s"
    using strip_file_cases[of s f] Cons.prems by (auto simp: one_window_def)
  have "length d \<le> MMPSIZE" if "g \<in> set args" "files ?s g = Some d" for g d
  proof (cases "g = f")
    case True
    with that(2) f(1) obtain d' where d': "files s f = Some d'" "d = stripped d'" by auto
    with Cons.prems(2) have "length d' \<le> MMPSIZE" by (simp add: one_window_def)
    with d'(2) length_filter_le[of "\<lambda>b. b \<noteq> 13" d'] show ?thesis
      by (simp add: stripped_def del: length_filter_le)
  next
    case False
    with that f(1) Cons.prems(2) show ?thesis by (simp add: one_window_def)
  qed
  then have "one_window ?s args" by (simp add: one_window_def)
  from Cons.IH[OF f(2) this] f(1) show ?case by (simp add: fun_eq_iff)
qed

text \<open>
  C20. \<open>stripcr\<close> without arguments, when every read gives a piece of the input and every
  write takes what it is offered: the output is the input without its carriage returns,
  wherever the pieces begin and end, and the status is \<open>0\<close>.
\<close>

theorem stripcr_stdin:
  assumes "reads s = map Some chunks" "[] \<notin> set chunks" "accepts s = []"
  shows "\<exists>s'. stripcr_main [] s = (0, s') \<and> written s' = written s @ stripped (concat chunks)"
  using strip_stdin_chunks[OF assms] by (simp add: stripcr_main_def stripped_def)

text \<open>
  C19. \<open>stripcr\<close> with arguments, when no system call fails and no named file is larger than
  one mapping window: every named file that exists ends up with its carriage returns
  removed and nothing else changed, every other file is untouched, and the status is \<open>0\<close>.
\<close>

theorem stripcr_files:
  assumes "args \<noteq> []" "quiet s" "one_window s args"
  shows "fst (stripcr_main args s) = 0 \<and>
    files (snd (stripcr_main args s)) =
      (\<lambda>f. if f \<in> set args then map_option stripped (files s f) else files s f)"
  using strip_files[OF assms(2,3)] assms(1) by (simp add: stripcr_main_def)

definition calm :: strip_state where
  "calm = \<lparr>reads = [], accepts = [], written = [], files = (\<lambda>_. None), maps = [], stats = [],
     truncs = [], events = [], data = [], rdmapfilepos = 0, wrmapfilepos = 0, wrmap = Null,
     wrmapptr = None, sb_size = 0, sb2_size = 0\<rparr>"

theorem stripcr_stdin_witness:
  "\<exists>s'. stripcr_main [] (calm\<lparr>reads := [Some [65, 13], Some [10, 13, 66]]\<rparr>) = (0, s') \<and> written s' = [65, 10, 66]"
proof -
  let ?s = "calm\<lparr>reads := [Some [65, 13], Some [10, 13, 66]]\<rparr>"
  have h: "reads ?s = map Some [[65, 13], [10, 13, 66]]" "[] \<notin> set [[65, 13], [10, 13, 66 :: byte]]" "accepts ?s = []"
    by (simp_all add: calm_def)
  from stripcr_stdin[OF h] show ?thesis by (simp add: calm_def stripped_def)
qed

theorem stripcr_files_witness:
  "files (snd (stripcr_main [''a''] (calm\<lparr>files := [''a'' \<mapsto> [65, 13, 10], ''b'' \<mapsto> [13]]\<rparr>)))
    = [''a'' \<mapsto> [65, 10], ''b'' \<mapsto> [13]]"
proof -
  let ?s = "calm\<lparr>files := [''a'' \<mapsto> [65, 13, 10], ''b'' \<mapsto> [13]]\<rparr>"
  have h: "[''a''] \<noteq> []" "quiet ?s" "one_window ?s [''a'']"
    by (simp_all add: quiet_def calm_def one_window_def MMPSIZE_def)
  from stripcr_files[OF h] show ?thesis by (auto simp: calm_def stripped_def fun_eq_iff)
qed

text \<open>
  Beyond one window \<open>wrfmap\<close> does not advance \<open>buffer\<close>: a stretch that crosses the end of
  the write window continues in the next one with the bytes it began with.
\<close>

lemma wrfmap_crossing:
  assumes "wrmapptr s = Some off" "off \<le> MMPSIZE" "MMPSIZE < off + len" "off + len \<le> 2 * MMPSIZE"
    and "MMPSIZE < sb2_size s" "maps s = []"
  shows "\<exists>s'. wrfmap s e len = (True, s') \<and>
    data s' = move (wrmapfilepos s + MMPSIZE) (rdmapfilepos s + e) (len - (MMPSIZE - off))
      (move (wrmapfilepos s + off) (rdmapfilepos s + e) (MMPSIZE - off) (data s))"
proof -
  let ?k = "MMPSIZE - off"
  let ?s1 = "emit [Unmapped MMPSIZE]
    (s\<lparr>data := move (wrmapfilepos s + off) (rdmapfilepos s + e) ?k (data s)\<rparr>)"
  let ?s2 = "?s1\<lparr>wrmapfilepos := wrmapfilepos s + MMPSIZE\<rparr>"
  let ?r = "map_window ?s2"
  have o: "ptr_offset s = off" using assms(1) by (simp add: ptr_offset_def)
  obtain t where t: "?r = (True, t)" "ptr_offset t = 0" "data t = data ?s1"
    "wrmapfilepos t = wrmapfilepos s + MMPSIZE"
    using assms(5,6) by (simp add: map_window_def Let_def mmap_def answer_of_def emit_def ptr_offset_def)
  have "wrfmap s e len = wrfmap_loop (rdmapfilepos s + e) (len - ?k) t"
    using assms(1,3) o t(1) by (simp add: wrfmap_def wrfmap_loop.simps[of _ _ s] Let_def emit_def)
  moreover have "\<not> MMPSIZE < len - ?k" using assms by linarith
  ultimately show ?thesis
    using t(2-4) by (simp add: wrfmap_loop.simps[of _ _ t] emit_def)
qed

end
