(* ===== verification/FSplit.thy ===== *)
theory FSplit
  imports CLib Prog
begin

text \<open>
  \<open>fsplit32.c\<close>: splits a file into numbered pieces. The program is a tree of calls; the
  disk it is run against keeps whole files, a position for the handle that reads and
  one for the handle that writes.
\<close>

section \<open>The program\<close>

datatype split_call =
    GetHelp
  | Printf string "arg list"
  | Eprintf string "arg list"
  | Perror string
  | Malloc nat
  | OpenRead string
  | OpenWrite string
  | Read int nat
  | Write int "byte list"
  | Close int
  | Unlink string
  | FileLength int

definition NOERR :: int where [simp]: "NOERR = 0"
definition NOFILES :: int where [simp]: "NOFILES = 1"
definition INFERR :: int where [simp]: "INFERR = 2"
definition OUTFERR :: int where [simp]: "OUTFERR = 3"
definition MEMERR :: int where [simp]: "MEMERR = 4"
definition FRAGTOOSMALL :: int where [simp]: "FRAGTOOSMALL = 6"

definition MAX_PATH :: nat where "MAX_PATH = 260"

text \<open>
  The name of a piece, and the test that the template, the point, the number and the
  terminator fit the buffer; when they do not, the program writes behind it.
\<close>

definition piece_name :: "string \<Rightarrow> nat \<Rightarrow> string" where
  "piece_name template n = template @ ''.'' @ dec_nat n"

definition number_text :: "nat \<Rightarrow> string" where
  "number_text n = (if n = 0 then [] else dec_nat n)"

definition number_fits :: "string \<Rightarrow> nat \<Rightarrow> bool" where
  "number_fits template n \<longleftrightarrow> length template + 1 + length (number_text n) + 1 \<le> MAX_PATH"

definition to_unsigned :: "int \<Rightarrow> nat" where
  "to_unsigned i = nat (i mod 2 ^ 32)"

text \<open>
  The loop. \<open>InFile\<close>, \<open>template\<close> (the content of \<open>OutFile\<close> before the point), \<open>infh\<close>
  and \<open>outfsiz\<close> do not change; \<open>filecou\<close> and \<open>written\<close> are 32 bit counters. The
  function ends without \<open>return\<close>, which is status \<open>0\<close> for \<open>main\<close>.
\<close>

definition split_finish :: "string \<Rightarrow> int \<Rightarrow> nat \<Rightarrow> nat \<Rightarrow> (split_call, reply) prog" where
  "split_finish template infh filecou written =
    Sys (FileLength infh) (\<lambda>l.
      let tail =
        Sys (Close infh) (\<lambda>_.
        if \<not> number_fits template filecou then Crash
        else Sys (Eprintf ''File split into %s pieces.'' [S (number_text filecou)]) (\<lambda>_. Done 0))
      in if written \<noteq> to_unsigned (rv l) then
           Sys (FileLength infh) (\<lambda>l'.
           Sys (Eprintf ''Warning, %u byte not written.'' [I (int (to_unsigned (rv l' - int written)))]) (\<lambda>_. tail))
         else tail)"

fun split_loop :: "nat \<Rightarrow> string \<Rightarrow> string \<Rightarrow> int \<Rightarrow> nat \<Rightarrow> nat \<Rightarrow> nat \<Rightarrow> (split_call, reply) prog" where
  "split_loop 0 InFile template infh outfsiz filecou written = OutOfFuel"
| "split_loop (Suc fuel) InFile template infh outfsiz filecou written =
    Sys (Printf ''Reading %s...'' [S InFile]) (\<lambda>_.
    Sys (Read infh outfsiz) (\<lambda>r.
      if rv r = - 1 then
        Sys (Perror InFile) (\<lambda>_.
        Sys (Eprintf ''Error reading file %s.'' [S InFile]) (\<lambda>_.
        Sys (Close infh) (\<lambda>_. Done INFERR)))
      else if rv r = 0 then split_finish template infh filecou written
      else
        (let n = (filecou + 1) mod 2 ^ 32; OutFile = piece_name template n in
         if \<not> number_fits template n then Crash
         else
           Sys (Printf ''Writing %s...'' [S OutFile]) (\<lambda>_.
           Sys (OpenWrite OutFile) (\<lambda>h.
             if rv h = - 1 then
               Sys (Perror OutFile) (\<lambda>_.
               Sys (Eprintf ''Error creating file %s.'' [S OutFile]) (\<lambda>_.
               Sys (Close infh) (\<lambda>_. Done OUTFERR)))
             else
               Sys (Write (rv h) (out r)) (\<lambda>w.
                 let rest =
                   Sys (Close (rv h)) (\<lambda>_.
                     if rv w \<noteq> rv r then
                       Sys (Printf ''Deleting %s...'' [S OutFile]) (\<lambda>_.
                       Sys (Unlink OutFile) (\<lambda>_.
                       Sys (Close infh) (\<lambda>_. Done OUTFERR)))
                     else
                       split_loop fuel InFile template infh outfsiz n
                         ((written + to_unsigned (rv w)) mod 2 ^ 32))
                 in if rv w = - 1 then
                      Sys (Perror OutFile) (\<lambda>_.
                      Sys (Eprintf ''Error writing output file.'' []) (\<lambda>_. rest))
                    else rest))))))"

text \<open>\<open>main\<close>; the arguments are \<open>argv[1]\<close>, \<open>argv[2]\<close> and so on.\<close>

definition split_open :: "nat \<Rightarrow> string \<Rightarrow> string \<Rightarrow> nat \<Rightarrow> (split_call, reply) prog" where
  "split_open fuel InFile OutFile outfsiz =
    Sys (Printf ''Fragment size: %u'' [I (int outfsiz)]) (\<lambda>_.
    Sys (Malloc outfsiz) (\<lambda>m.
      if rv m = 0 then
        Sys (Eprintf ''Insufficient memory for fragment size.'' []) (\<lambda>_. Done MEMERR)
      else
        Sys (OpenRead InFile) (\<lambda>i.
          if rv i = - 1 then
            Sys (Perror InFile) (\<lambda>_.
            Sys (Eprintf ''Error opening input file.'' []) (\<lambda>_. Done INFERR))
          else split_loop fuel InFile OutFile (rv i) outfsiz 0 0)))"

definition split_main :: "string list \<Rightarrow> nat \<Rightarrow> (split_call, reply) prog" where
  "split_main args fuel =
    (case args of
       [] \<Rightarrow> Sys GetHelp (\<lambda>_. Done NOERR)
     | InFile # more_args \<Rightarrow>
         if InFile \<noteq> [] \<and> is_switch (hd InFile) then Sys GetHelp (\<lambda>_. Done NOERR)
         else
           Sys (Printf ''File split tool by Olof Lagerkvist.'' []) (\<lambda>_.
           Sys (Printf ''Input file: %s'' [S InFile]) (\<lambda>_.
           if InFile = [] then Done NOFILES
           else
             (let OutFile = take (MAX_PATH - 1) (case more_args of [] \<Rightarrow> InFile | t # _ \<Rightarrow> t) in
              Sys (Printf ''Output file name template: %s'' [S OutFile]) (\<lambda>_.
              if OutFile = [] then Done NOFILES
              else
                (case more_args of
                   _ # size_text # _ \<Rightarrow>
                     (let outfsiz = unat (fst (strtoul size_text 10)) in
                      if outfsiz = 0 then
                        Sys (Eprintf ''Invalid fragment size: %s'' [S size_text]) (\<lambda>_. Done FRAGTOOSMALL)
                      else split_open fuel InFile OutFile outfsiz)
                 | _ \<Rightarrow> split_open fuel InFile OutFile 1457664))))))"

section \<open>A disk\<close>

text \<open>
  Opening a file for writing does not cut it: the flags have \<open>O_CREAT\<close> and not
  \<open>O_TRUNC\<close>, so a write replaces the beginning of an older, longer file.
\<close>

record disk =
  files :: "string \<Rightarrow> byte list option"
  rname :: string
  rpos :: nat
  wname :: string
  wpos :: nat

definition content :: "disk \<Rightarrow> string \<Rightarrow> byte list" where
  "content s f = (case files s f of None \<Rightarrow> [] | Some d \<Rightarrow> d)"

fun disk_step :: "disk \<Rightarrow> split_call \<Rightarrow> reply \<times> disk" where
  "disk_step s (OpenRead f) =
    (case files s f of
       None \<Rightarrow> (ok\<lparr>rv := - 1\<rparr>, s)
     | Some _ \<Rightarrow> (ok\<lparr>rv := 3\<rparr>, s\<lparr>rname := f, rpos := 0\<rparr>))"
| "disk_step s (OpenWrite f) =
    (ok\<lparr>rv := 4\<rparr>, s\<lparr>files := (files s)(f \<mapsto> content s f), wname := f, wpos := 0\<rparr>)"
| "disk_step s (Read h n) =
    (let d = take n (drop (rpos s) (content s (rname s))) in
     (ok\<lparr>rv := int (length d), out := d\<rparr>, s\<lparr>rpos := rpos s + length d\<rparr>))"
| "disk_step s (Write h bs) =
    (ok\<lparr>rv := int (length bs)\<rparr>,
     s\<lparr>files := (files s)(wname s \<mapsto>
          take (wpos s) (content s (wname s)) @ bs @ drop (wpos s + length bs) (content s (wname s))),
       wpos := wpos s + length bs\<rparr>)"
| "disk_step s (Unlink f) = (ok, s\<lparr>files := (files s)(f := None)\<rparr>)"
| "disk_step s (FileLength h) = (ok\<lparr>rv := int (length (content s (rname s)))\<rparr>, s)"
| "disk_step s _ = (ok, s)"

section \<open>Splitting\<close>

text \<open>The pieces of a file, and the files that a split leaves behind.\<close>

function pieces :: "nat \<Rightarrow> byte list \<Rightarrow> byte list list" where
  "pieces k d = (if k = 0 \<or> d = [] then [] else take k d # pieces k (drop k d))"
  by pat_completeness auto
termination by (relation "measure (\<lambda>(k, d). length d)") auto

declare pieces.simps [simp del]

lemma concat_pieces: "0 < k \<Longrightarrow> concat (pieces k d) = d"
  by (induction k d rule: pieces.induct) (subst pieces.simps, auto)

lemma pieces_bound: "p \<in> set (pieces k d) \<Longrightarrow> 0 < length p \<and> length p \<le> k"
proof (induction k d rule: pieces.induct)
  case (1 k d)
  then show ?case
    by (cases "k = 0 \<or> d = []") (auto simp: pieces.simps[of k d])
qed

lemma length_pieces: "length (pieces k d) \<le> length d"
proof (induction k d rule: pieces.induct)
  case (1 k d)
  show ?case
  proof (cases "k = 0 \<or> d = []")
    case True
    then show ?thesis by (subst pieces.simps) simp
  next
    case False
    then have "0 < k" "0 < length d" by auto
    moreover have "length (pieces k (drop k d)) \<le> length d - k" using 1 False by simp
    ultimately have "Suc (length (pieces k (drop k d))) \<le> length d" by linarith
    with False show ?thesis by (subst pieces.simps) simp
  qed
qed

fun with_pieces :: "string \<Rightarrow> nat \<Rightarrow> byte list list \<Rightarrow> (string \<Rightarrow> byte list option) \<Rightarrow> (string \<Rightarrow> byte list option)" where
  "with_pieces t n [] fs = fs"
| "with_pieces t n (p # ps) fs = with_pieces t (Suc n) ps (fs(piece_name t (Suc n) \<mapsto> p))"

lemma dec_nat_inj: "dec_nat m = dec_nat n \<Longrightarrow> m = n"
  using digits_value_dec_nat by metis

lemma piece_name_inj [simp]: "piece_name t m = piece_name t n \<longleftrightarrow> m = n"
  by (auto simp: piece_name_def dest: dec_nat_inj)

lemma take_drop_content: "take k (drop p d) = [] \<longleftrightarrow> k = 0 \<or> length d \<le> p"
  by auto

lemma split_finish_disk:
  assumes "content s (rname s) = d" "length d < 2 ^ 32" "number_fits t n"
  shows "interp disk_step s (split_finish t h n (length d)) = (Some 0, s)"
  using assms by (simp add: split_finish_def ok_def to_unsigned_def Let_def)

lemma split_loop_disk:
  assumes "0 < k" "length D < 2 ^ 32" "length (pieces k (drop p D)) < fuel"
    and "rname s = f" "rpos s = p" "files s f = Some D" "p \<le> length D" "n \<le> p"
    and "\<forall>i \<le> n + length (pieces k (drop p D)). number_fits t i"
    and "\<forall>i. n < i \<and> i \<le> n + length (pieces k (drop p D)) \<longrightarrow>
      piece_name t i \<noteq> f \<and> files s (piece_name t i) = None"
  shows "\<exists>s'. interp disk_step s (split_loop fuel f t h k n p) = (Some 0, s') \<and>
    files s' = with_pieces t n (pieces k (drop p D)) (files s)"
  using assms(3-)
proof (induction fuel arbitrary: s n p)
  case 0
  then show ?case by simp
next
  case (Suc fuel)
  show ?case
  proof (cases "p = length D")
    case True
    have "content (s\<lparr>rpos := p\<rparr>) (rname (s\<lparr>rpos := p\<rparr>)) = D" using Suc.prems by (simp add: content_def)
    from split_finish_disk[OF this assms(2), of t n h] Suc.prems True show ?thesis
      by (simp add: Let_def ok_def pieces.simps content_def)
  next
    case False
    let ?c = "take k (drop p D)"
    let ?p = "p + length ?c"
    let ?f = "piece_name t (Suc n)"
    let ?s = "s\<lparr>rpos := ?p, wname := ?f, files := (files s)(?f \<mapsto> ?c), wpos := length ?c\<rparr>"
    have l: "0 < length ?c" "?p \<le> length D" "drop k (drop p D) = drop ?p D"
      using False Suc.prems(5) assms(1) by (auto simp: min_def add.commute)
    have ps: "pieces k (drop p D) = ?c # pieces k (drop ?p D)"
      using False Suc.prems(5) assms(1) l(3) by (subst pieces.simps) auto
    have m: "(n + 1) mod 2 ^ 32 = Suc n" "(p + to_unsigned (int (length ?c))) mod 2 ^ 32 = ?p"
      using assms(2) l Suc.prems(5,6) by (simp_all add: to_unsigned_def)
    have f: "number_fits t (Suc n)" "?f \<noteq> f" "files s ?f = None"
      using Suc.prems(7,8) ps by auto
    have "interp disk_step s (split_loop (Suc fuel) f t h k n p) = interp disk_step ?s (split_loop fuel f t h k (Suc n) ?p)"
    proof -
      have c: "content s f = D" "content s ?f = []" using Suc.prems f by (simp_all add: content_def)
      have n: "int (length ?c) \<noteq> - 1" "int (length ?c) \<noteq> 0" using l(1) by linarith+
      show ?thesis using Suc.prems(2,3) c m f n
        by (simp add: Let_def ok_def content_def del: length_take)
    qed
    moreover have "\<exists>s'. interp disk_step ?s (split_loop fuel f t h k (Suc n) ?p) = (Some 0, s') \<and>
      files s' = with_pieces t (Suc n) (pieces k (drop ?p D)) (files ?s)"
    proof (rule Suc.IH)
      show "\<forall>i \<le> Suc n + length (pieces k (drop ?p D)). number_fits t i" using Suc.prems(7) ps by auto
      show "\<forall>i. Suc n < i \<and> i \<le> Suc n + length (pieces k (drop ?p D)) \<longrightarrow>
        piece_name t i \<noteq> f \<and> files ?s (piece_name t i) = None" using Suc.prems(8) ps by auto
    qed (use Suc.prems l f ps in auto)
    ultimately show ?thesis unfolding ps by simp
  qed
qed

text \<open>What a caller of \<open>fsplit32 f t size\<close> has to provide for the split to be exact.\<close>

definition splittable :: "disk \<Rightarrow> string \<Rightarrow> string \<Rightarrow> nat \<Rightarrow> byte list \<Rightarrow> bool" where
  "splittable s f t k D \<longleftrightarrow>
    f \<noteq> [] \<and> \<not> is_switch (hd f) \<and> t \<noteq> [] \<and> length t < MAX_PATH \<and> 0 < k \<and>
    files s f = Some D \<and> length D < 2 ^ 32 \<and>
    (\<forall>i \<le> length (pieces k D). number_fits t i) \<and>
    (\<forall>i \<le> length (pieces k D). piece_name t i \<noteq> f \<and> files s (piece_name t i) = None)"

lemma with_pieces_piece: "i < length ps \<Longrightarrow> with_pieces t n ps fs (piece_name t (Suc (n + i))) = Some (ps ! i)"
proof (induction t n ps fs arbitrary: i rule: with_pieces.induct)
  case (2 t n p ps fs)
  have keep: "with_pieces t m qs gs (piece_name t j) = gs (piece_name t j)" if "j \<le> m" for m qs gs j
    using that by (induction t m qs gs rule: with_pieces.induct) simp_all
  show ?case
  proof (cases i)
    case 0
    then show ?thesis by (simp add: keep)
  next
    case (Suc j)
    with 2 show ?thesis by (simp del: fun_upd_apply)
  qed
qed simp

lemma with_pieces_other:
  "\<forall>i \<le> n + length ps. g \<noteq> piece_name t i \<Longrightarrow> with_pieces t n ps fs g = fs g"
  by (induction t n ps fs rule: with_pieces.induct) auto


definition one_file :: "string \<Rightarrow> byte list \<Rightarrow> disk" where
  "one_file f d = \<lparr>files = [f \<mapsto> d], rname = [], rpos = 0, wname = [], wpos = 0\<rparr>"


end
