(* ===== verification/Worlds.thy ===== *)
theory Worlds
  imports Prog
begin

text \<open>
  Programs against an environment with a state. A world relation says which replies and
  which next states a call may have; \<open>wpx\<close> is the weakest precondition of a program for
  every choice that the relation leaves open: \<open>Q\<close> holds where it ends, \<open>E\<close> in the state in
  which it runs out of fuel. A program that crashes satisfies neither. \<open>wp\<close> asks for an
  end; with an invariant for \<open>Q\<close> and \<open>E\<close>, \<open>wpx\<close> is about runs of any length.
\<close>

type_synonym ('w, 'c, 'r) world = "'w \<Rightarrow> 'c \<Rightarrow> 'r \<Rightarrow> 'w \<Rightarrow> bool"

named_theorems wp_rules \<open>weakest precondition rules, one for each routine\<close>

primrec wpx :: "('w, 'c, 'r) world \<Rightarrow> ('w \<Rightarrow> int \<Rightarrow> bool) \<Rightarrow> ('w \<Rightarrow> bool) \<Rightarrow> 'w \<Rightarrow> ('c, 'r) prog \<Rightarrow> bool" where
  "wpx T Q E w (Done n) \<longleftrightarrow> Q w n"
| "wpx T Q E w (Sys c k) \<longleftrightarrow> (\<forall>r w'. T w c r w' \<longrightarrow> wpx T Q E w' (k r))"
| "wpx T Q E w OutOfFuel \<longleftrightarrow> E w"
| "wpx T Q E w Crash \<longleftrightarrow> False"

abbreviation wp :: "('w, 'c, 'r) world \<Rightarrow> ('w \<Rightarrow> int \<Rightarrow> bool) \<Rightarrow> 'w \<Rightarrow> ('c, 'r) prog \<Rightarrow> bool" where
  "wp T Q \<equiv> wpx T Q (\<lambda>_. False)"

lemma wp_Sys: "(\<And>r w'. T w c r w' \<Longrightarrow> wpx T Q E w' (k r)) \<Longrightarrow> wpx T Q E w (Sys c k)"
  by simp

lemma wp_mono: "wp T Q w p \<Longrightarrow> (\<And>w n. Q w n \<Longrightarrow> Q' w n) \<Longrightarrow> wp T Q' w p"
  by (induction p arbitrary: w) auto

lemma wp_conj: "wp T Q w p \<Longrightarrow> wp T Q' w p \<Longrightarrow> wp T (\<lambda>w n. Q w n \<and> Q' w n) w p"
  by (induction p arbitrary: w) auto

text \<open>A relation with more behaviours has the stronger precondition.\<close>

lemma wp_weaken: "wp T Q w p \<Longrightarrow> (\<And>w c r w'. T' w c r w' \<Longrightarrow> T w c r w') \<Longrightarrow> wp T' Q w p"
  by (induction p arbitrary: w) auto

text \<open>Invariants of the world: what every step keeps holds at every end.\<close>

lemma wp_invariant:
  assumes step: "\<And>w c r w'. J w \<Longrightarrow> T w c r w' \<Longrightarrow> J w'"
  shows "wp T Q w p \<Longrightarrow> J w \<Longrightarrow> wp T (\<lambda>w n. Q w n \<and> J w) w p"
proof (induction p arbitrary: w)
  case (Sys c k)
  then show ?case using step[OF Sys.prems(2)] by (simp add: range_eqI)
qed simp_all

section \<open>Handlers in a world\<close>

text \<open>A handler that the relation allows ends in a state that the postcondition describes.\<close>

locale inhabitant =
  fixes H :: "'w \<Rightarrow> 'c \<Rightarrow> 'r \<times> 'w" and T :: "('w, 'c, 'r) world"
  assumes allowed: "T w c (fst (H w c)) (snd (H w c))"
begin

lemma wp_interp: "wp T Q w p \<Longrightarrow> \<exists>n. fst (interp H w p) = Some n \<and> Q (snd (interp H w p)) n"
proof (induction p arbitrary: w)
  case (Sys c k)
  with allowed[of w c] have "wp T Q (snd (H w c)) (k (fst (H w c)))" by simp
  with Sys.IH show ?case by (simp add: case_prod_unfold)
qed simp_all

end

text \<open>\<open>total\<close> is the case of a world without state and without a postcondition.\<close>

lemma total_wp: "total R p \<longleftrightarrow> wp (\<lambda>_ c r _. R c r) (\<lambda>_ _. True) () p"
  by (induction p) simp_all

section \<open>Programs in programs\<close>

text \<open>A program with calls of its own kind, and what its caller does with its result.\<close>

primrec embed :: "('c \<Rightarrow> 'd) \<Rightarrow> ('q \<Rightarrow> 'r) \<Rightarrow> ('c, 'r) prog \<Rightarrow> (int \<Rightarrow> ('d, 'q) prog) \<Rightarrow> ('d, 'q) prog" where
  "embed f g (Done n) k = k n"
| "embed f g (Sys c j) k = Sys (f c) (\<lambda>r. embed f g (j (g r)) k)"
| "embed f g OutOfFuel k = OutOfFuel"
| "embed f g Crash k = Crash"

lemma wp_embed:
  assumes "\<And>w c r w'. T w (f c) r w' \<Longrightarrow> U w c (g r) w'"
  shows "wp U (\<lambda>w n. wpx T Q E w (k n)) w p \<Longrightarrow> wpx T Q E w (embed f g p k)"
  by (induction p arbitrary: w) (use assms in auto)

section \<open>Bytes of numbers\<close>

text \<open>A number in \<open>n\<close> bytes, the lowest first, as the machine stores it.\<close>

primrec le_bytes :: "nat \<Rightarrow> nat \<Rightarrow> byte list" where
  "le_bytes 0 v = []"
| "le_bytes (Suc n) v = of_nat v # le_bytes n (v div 256)"

primrec le_nat :: "byte list \<Rightarrow> nat" where
  "le_nat [] = 0"
| "le_nat (b # bs) = unat b + 256 * le_nat bs"

lemma length_le_bytes [simp]: "length (le_bytes n v) = n"
  by (induction n arbitrary: v) simp_all

lemma le_nat_le_bytes: "le_nat (le_bytes n v) = v mod 256 ^ n"
proof (induction n arbitrary: v)
  case (Suc n)
  have "unat (of_nat v :: byte) = v mod 256" by (simp add: unsigned_of_nat take_bit_eq_mod)
  with Suc show ?case by (simp add: mod_mult2_eq)
qed simp

lemma le_nat_bound: "le_nat bs < 256 ^ length bs"
proof (induction bs)
  case (Cons b bs)
  have "unat b < 256" by (rule unat_byte)
  with Cons show ?case by simp
qed simp

lemma le_bytes_le_nat: "le_bytes (length bs) (le_nat bs) = bs"
proof (induction bs)
  case (Cons b bs)
  have "unat b < 256" by (rule unat_byte)
  then have "(unat b + 256 * le_nat bs) div 256 = le_nat bs"
    "(of_nat (unat b + 256 * le_nat bs) :: byte) = b"
    by (simp_all only: word_unat_eq_iff unsigned_of_nat take_bit_eq_mod) simp_all
  with Cons show ?case by simp
qed simp

lemma le_nat_inj: "length xs = length ys \<Longrightarrow> le_nat xs = le_nat ys \<Longrightarrow> xs = ys"
  by (metis le_bytes_le_nat)

section \<open>Memory\<close>

text \<open>
  A buffer is the list of its bytes. \<open>peek\<close> reads \<open>n\<close> bytes, \<open>poke\<close> writes some; both
  are meant for places inside the buffer, which is tested where C does not.
\<close>

definition peek :: "byte list \<Rightarrow> nat \<Rightarrow> nat \<Rightarrow> byte list" where
  "peek m pos n = take n (drop pos m)"

definition poke :: "byte list \<Rightarrow> nat \<Rightarrow> byte list \<Rightarrow> byte list" where
  "poke m pos bs = take pos m @ bs @ drop (pos + length bs) m"

lemma length_poke [simp]: "pos + length bs \<le> length m \<Longrightarrow> length (poke m pos bs) = length m"
  by (simp add: poke_def)

lemma length_peek [simp]: "pos + n \<le> length m \<Longrightarrow> length (peek m pos n) = n"
  by (simp add: peek_def)

lemma peek_poke_same: "pos \<le> length m \<Longrightarrow> peek (poke m pos bs) pos (length bs) = bs"
  by (simp add: peek_def poke_def)

lemma peek_poke_inside:
  "pos \<le> length m \<Longrightarrow> i + n \<le> length bs \<Longrightarrow> peek (poke m pos bs) (pos + i) n = take n (drop i bs)"
  by (simp add: peek_def poke_def)

lemma peek_poke_before: "i + n \<le> pos \<Longrightarrow> pos \<le> length m \<Longrightarrow> peek (poke m pos bs) i n = peek m i n"
  by (auto simp: peek_def poke_def min_def drop_take)

lemma peek_poke_after:
  assumes "pos + length bs \<le> i" "pos + length bs \<le> length m"
  shows "peek (poke m pos bs) i n = peek m i n"
proof -
  have "drop i (poke m pos bs) = drop (i - (pos + length bs)) (drop (pos + length bs) m)"
    using assms by (simp add: poke_def)
  then show ?thesis using assms by (simp add: peek_def)
qed

lemma poke_poke_adjacent:
  "pos \<le> length m \<Longrightarrow> poke (poke m pos xs) (pos + length xs) ys = poke m pos (xs @ ys)"
  by (simp add: poke_def ac_simps)

lemma poke_Nil [simp]: "poke m pos [] = m"
  by (simp add: poke_def)

lemma peek_nothing [simp]: "peek m pos 0 = []"
  by (simp add: peek_def)

lemma peek_add: "peek m pos (a + b) = peek m pos a @ peek m (pos + a) b"
  by (simp add: peek_def take_add add.commute)

end
