(* ===== verification/ChkFile.thy ===== *)
theory ChkFile
  imports Worlds
begin

text \<open>
  \<open>fdf/chkfile.c\<close>: the comparison of two files and the checksum of one, as used by the
  finder of duplicate files. Handles are counted as resources.
\<close>

section \<open>The result of a comparison\<close>

datatype FILE_COMPARE_STATUS =
    FILE_COMPARE_EQUAL
  | FILE_COMPARE_FILE1_FAILED
  | FILE_COMPARE_FILE2_FAILED
  | FILE_COMPARE_FILE1_LONGER
  | FILE_COMPARE_FILE2_LONGER
  | FILE_COMPARE_NOT_EQUAL

text \<open>The value of the enumeration constant, which the function returns.\<close>

fun status_code :: "FILE_COMPARE_STATUS \<Rightarrow> int" where
  "status_code FILE_COMPARE_EQUAL = 0"
| "status_code FILE_COMPARE_FILE1_FAILED = 1"
| "status_code FILE_COMPARE_FILE2_FAILED = 2"
| "status_code FILE_COMPARE_FILE1_LONGER = 3"
| "status_code FILE_COMPARE_FILE2_LONGER = 4"
| "status_code FILE_COMPARE_NOT_EQUAL = 5"

lemma status_code_inj: "status_code a = status_code b \<longleftrightarrow> a = b"
  by (cases a; cases b) simp_all

instantiation FILE_COMPARE_STATUS :: linorder
begin

definition less_eq_FILE_COMPARE_STATUS :: "FILE_COMPARE_STATUS \<Rightarrow> FILE_COMPARE_STATUS \<Rightarrow> bool" where
  "less_eq_FILE_COMPARE_STATUS a b \<longleftrightarrow> status_code a \<le> status_code b"

definition less_FILE_COMPARE_STATUS :: "FILE_COMPARE_STATUS \<Rightarrow> FILE_COMPARE_STATUS \<Rightarrow> bool" where
  "less_FILE_COMPARE_STATUS a b \<longleftrightarrow> status_code a < status_code b"

instance
  by standard
    (auto simp: less_eq_FILE_COMPARE_STATUS_def less_FILE_COMPARE_STATUS_def status_code_inj)

end

section \<open>Memory as 64 bit blocks\<close>

definition block :: "byte list \<Rightarrow> nat \<Rightarrow> QWORD" where
  "block m i = of_nat (le_nat (take 8 (drop (8 * i) m)))"

lemma block_inj:
  assumes "8 * i + 8 \<le> length m" "8 * i + 8 \<le> length m'" "block m i = block m' i"
  shows "take 8 (drop (8 * i) m) = take 8 (drop (8 * i) m')"
proof -
  let ?a = "take 8 (drop (8 * i) m)" and ?b = "take 8 (drop (8 * i) m')"
  have l: "length ?a = 8" "length ?b = 8" using assms by simp_all
  have "le_nat ?a < 2 ^ 64" "le_nat ?b < 2 ^ 64"
    using le_nat_bound[of ?a] le_nat_bound[of ?b] l by simp_all
  with assms(3) have "le_nat ?a = le_nat ?b"
    by (simp add: block_def word_of_nat_eq_iff take_bit_nat_eq_self)
  with l show ?thesis by (intro le_nat_inj) simp_all
qed

function compare_loop :: "byte list \<Rightarrow> byte list \<Rightarrow> nat \<Rightarrow> nat \<Rightarrow> bool" where
  "compare_loop m1 m2 n i =
    (if i < n then if block m1 i \<noteq> block m2 i then False else compare_loop m1 m2 n (Suc i) else True)"
  by pat_completeness auto
termination by (relation "measure (\<lambda>(m1, m2, n, i). n - i)") auto

declare compare_loop.simps [simp del]

definition CompareMemory :: "byte list \<Rightarrow> byte list \<Rightarrow> nat \<Rightarrow> bool" where
  "CompareMemory m1 m2 n = compare_loop m1 m2 n 0"

lemma compare_loop_iff: "compare_loop m1 m2 n i \<longleftrightarrow> (\<forall>j. i \<le> j \<and> j < n \<longrightarrow> block m1 j = block m2 j)"
proof (induction m1 m2 n i rule: compare_loop.induct)
  case (1 m1 m2 n i)
  show ?case
  proof (cases "i < n \<and> block m1 i = block m2 i")
    case True
    then have "(\<forall>j. i \<le> j \<and> j < n \<longrightarrow> block m1 j = block m2 j)
        \<longleftrightarrow> (\<forall>j. Suc i \<le> j \<and> j < n \<longrightarrow> block m1 j = block m2 j)"
      by (metis Suc_leD le_neq_implies_less Suc_leI)
    with 1 True show ?thesis by (subst compare_loop.simps) simp
  next
    case False
    then show ?thesis by (subst compare_loop.simps) auto
  qed
qed

text \<open>Only whole blocks are compared.\<close>

lemma take_blocks:
  "(\<forall>j < n. take 8 (drop (8 * j) m) = take 8 (drop (8 * j) m')) \<Longrightarrow>
    take (8 * n) m = take (8 * n) m'"
proof (induction n)
  case (Suc n)
  have "take (8 * Suc n) x = take (8 * n) x @ take 8 (drop (8 * n) x)" for x :: "'a list"
    by (simp flip: take_add) (simp add: add.commute)
  with Suc show ?case by simp
qed simp

lemma block_cong: "take 8 (drop (8 * j) m) = take 8 (drop (8 * j) m') \<Longrightarrow> block m j = block m' j"
  by (simp add: block_def)

lemma CompareMemory_iff:
  assumes "8 * n \<le> length m1" "8 * n \<le> length m2"
  shows "CompareMemory m1 m2 n \<longleftrightarrow> take (8 * n) m1 = take (8 * n) m2"
proof
  assume "CompareMemory m1 m2 n"
  then have "\<forall>j < n. block m1 j = block m2 j" by (simp add: CompareMemory_def compare_loop_iff)
  then have "\<forall>j < n. take 8 (drop (8 * j) m1) = take 8 (drop (8 * j) m2)"
    using assms by (auto intro!: block_inj)
  then show "take (8 * n) m1 = take (8 * n) m2" by (rule take_blocks)
next
  assume e: "take (8 * n) m1 = take (8 * n) m2"
  have "take 8 (drop (8 * j) m1) = take 8 (drop (8 * j) m2)" if "j < n" for j
  proof -
    have "min 8 (8 * n - 8 * j) = 8" using that by linarith
    then have c: "take 8 (drop (8 * j) (take (8 * n) m)) = take 8 (drop (8 * j) m)" for m :: "byte list"
      by (simp add: drop_take)
    show ?thesis by (rule trans[OF c[of m1, unfolded e, symmetric] c[of m2]])
  qed
  then show "CompareMemory m1 m2 n" unfolding CompareMemory_def compare_loop_iff
    by (intro allI impI block_cong) simp
qed

section \<open>\<open>CompareFiles\<close>\<close>

datatype file_call =
    CreateFile string
  | SetFilePointer int nat
  | ReadFile int nat
  | CloseHandle int
  | Sleep

type_synonym comparison = "(file_call, reply) prog"

definition result :: "FILE_COMPARE_STATUS \<Rightarrow> comparison" where
  "result st = Done (status_code st)"

definition close_both :: "int \<Rightarrow> int \<Rightarrow> FILE_COMPARE_STATUS \<Rightarrow> comparison" where
  "close_both hFile1 hFile2 st =
    Sys (CloseHandle hFile1) (\<lambda>_. Sys (CloseHandle hFile2) (\<lambda>_. result st))"

fun compare_files_loop :: "nat \<Rightarrow> int \<Rightarrow> int \<Rightarrow> comparison" where
  "compare_files_loop 0 hFile1 hFile2 = OutOfFuel"
| "compare_files_loop (Suc fuel) hFile1 hFile2 =
    Sys Sleep (\<lambda>_.
    Sys (ReadFile hFile1 16384) (\<lambda>r1.
      if rv r1 = 0 then close_both hFile1 hFile2 FILE_COMPARE_FILE1_FAILED
      else Sys (ReadFile hFile2 16384) (\<lambda>r2.
        if rv r2 = 0 then close_both hFile1 hFile2 FILE_COMPARE_FILE2_FAILED
        else if num r1 > num r2 then close_both hFile1 hFile2 FILE_COMPARE_FILE1_LONGER
        else if num r1 < num r2 then close_both hFile1 hFile2 FILE_COMPARE_FILE2_LONGER
        else if num r1 = 0 then close_both hFile1 hFile2 FILE_COMPARE_EQUAL
        else if \<not> CompareMemory (out r1) (out r2) (nat (num r1) div 8) then
          close_both hFile1 hFile2 FILE_COMPARE_NOT_EQUAL
        else compare_files_loop fuel hFile1 hFile2)))"

definition compare_rest :: "nat \<Rightarrow> int \<Rightarrow> string \<Rightarrow> nat \<Rightarrow> comparison" where
  "compare_rest fuel hFile1 szFile2 dwSkipSize =
    Sys (CreateFile szFile2) (\<lambda>f2.
      if rv f2 = invalid_handle then
        Sys (CloseHandle hFile1) (\<lambda>_. result FILE_COMPARE_FILE2_FAILED)
      else if dwSkipSize > 0 then
        Sys (SetFilePointer (rv f2) dwSkipSize) (\<lambda>p.
          if rv p = 0 then
            Sys (CloseHandle hFile1) (\<lambda>_. result FILE_COMPARE_FILE1_FAILED)
          else compare_files_loop fuel hFile1 (rv f2))
      else compare_files_loop fuel hFile1 (rv f2))"

definition CompareFiles :: "nat \<Rightarrow> string \<Rightarrow> string \<Rightarrow> nat \<Rightarrow> comparison" where
  "CompareFiles fuel szFile1 szFile2 dwSkipSize =
    Sys (CreateFile szFile1) (\<lambda>f1.
      if rv f1 = invalid_handle then result FILE_COMPARE_FILE1_FAILED
      else if dwSkipSize > 0 then
        Sys (SetFilePointer (rv f1) dwSkipSize) (\<lambda>p.
          if rv p = 0 then result FILE_COMPARE_FILE1_FAILED
          else compare_rest fuel (rv f1) szFile2 dwSkipSize)
      else compare_rest fuel (rv f1) szFile2 dwSkipSize)"

section \<open>Handles\<close>

fun opened :: "file_call \<times> reply \<Rightarrow> int option" where
  "opened (CreateFile f, r) = (if rv r = invalid_handle then None else Some (rv r))"
| "opened _ = None"

fun closed :: "file_call \<times> reply \<Rightarrow> int option" where
  "closed (CloseHandle h, r) = Some h"
| "closed _ = None"

interpretation handles: resources opened closed
proof
  fix e
  show "opened e \<noteq> None \<Longrightarrow> closed e = None"
    by (cases e rule: opened.cases) simp_all
qed

lemmas handle_simps = handles.balance_append balance_start clean_balance result_def

lemma close_both_clean:
  "balance opened closed h = Some {#a, b#} \<Longrightarrow>
    holds anything (\<lambda>tr n. balance opened closed tr = Some {#} \<and> n = status_code st) h (close_both a b st)"
  by (simp add: close_both_def handle_simps)

lemma close_both_balance:
  "balance opened closed h = Some {#a, b#} \<Longrightarrow> holds anything (\<lambda>tr n. balance opened closed tr = Some {#}) h (close_both a b st)"
  by (rule holds_mono[OF close_both_clean]) simp_all

lemma compare_files_loop_clean:
  "balance opened closed h = Some {#a, b#} \<Longrightarrow> holds anything (\<lambda>tr n. balance opened closed tr = Some {#}) h (compare_files_loop fuel a b)"
  by (induction fuel arbitrary: h) (simp_all add: close_both_balance handles.balance_append)

lemma compare_rest_clean:
  "balance opened closed h = Some {#a#} \<Longrightarrow> holds anything (\<lambda>tr n. balance opened closed tr = Some {#}) h (compare_rest fuel a f 0)"
  by (simp add: compare_rest_def compare_files_loop_clean handle_simps add_mset_commute)

text \<open>
  C35. A comparison that does not skip a beginning gives back every handle it got, on each
  of its ways out and whatever the calls answer.
\<close>

theorem CompareFiles_closes:
  assumes "runs anything (CompareFiles fuel f1 f2 0) tr n"
  shows "clean opened closed tr"
proof -
  have "holds anything (\<lambda>tr n. balance opened closed tr = Some {#}) [] (CompareFiles fuel f1 f2 0)"
    by (simp add: CompareFiles_def compare_rest_clean handle_simps)
  with assms show ?thesis by (auto simp: holds_iff_runs clean_balance)
qed

text \<open>A comparison of a file with itself, with both handles open at once.\<close>

definition got :: "int \<Rightarrow> reply" where
  "got h = ok\<lparr>rv := h\<rparr>"

theorem CompareFiles_closes_witness:
  "clean opened closed
    [(CreateFile ''a'', got 5), (CreateFile ''b'', got 6), (Sleep, ok), (ReadFile 5 16384, ok),
     (ReadFile 6 16384, ok), (CloseHandle 5, ok), (CloseHandle 6, ok)]"
proof -
  have "runs anything (CompareFiles 1 ''a'' ''b'' 0)
    [(CreateFile ''a'', got 5), (CreateFile ''b'', got 6), (Sleep, ok), (ReadFile 5 16384, ok),
     (ReadFile 6 16384, ok), (CloseHandle 5, ok), (CloseHandle 6, ok)] 0"
    by (simp add: CompareFiles_def compare_rest_def close_both_def result_def got_def ok_def)
  then show ?thesis by (rule CompareFiles_closes)
qed

text \<open>
  With a beginning to skip, a failing \<open>SetFilePointer\<close> leaves a handle open, and for the
  second file the answer blames the first.
\<close>

lemma CompareFiles_leaks:
  "runs anything (CompareFiles fuel f1 f2 8)
    [(CreateFile f1, got 5), (SetFilePointer 5 8, got 8), (CreateFile f2, got 6),
     (SetFilePointer 6 8, got 0), (CloseHandle 5, ok)] (status_code FILE_COMPARE_FILE1_FAILED)"
  "\<not> clean opened closed
    [(CreateFile f1, got 5), (SetFilePointer 5 8, got 8), (CreateFile f2, got 6),
     (SetFilePointer 6 8, got 0), (CloseHandle 5, ok)]"
  by (simp_all add: CompareFiles_def compare_rest_def result_def got_def clean_def)

section \<open>What equality means\<close>

text \<open>
  Two files that are open at the handles \<open>1\<close> and \<open>2\<close>: a read gives as many bytes as are
  asked for while there are that many.
\<close>

type_synonym two_files = "byte list \<times> byte list"

definition read_reply :: "byte list \<Rightarrow> reply" where
  "read_reply d = ok\<lparr>out := d, num := int (length d)\<rparr>"

fun two_files_step :: "two_files \<Rightarrow> file_call \<Rightarrow> reply \<times> two_files" where
  "two_files_step (d1, d2) (ReadFile h n) =
    (if h = 1 then (read_reply (take n d1), drop n d1, d2) else (read_reply (take n d2), d1, drop n d2))"
| "two_files_step (d1, d2) (CreateFile f) = (got (if f = ''1'' then 1 else 2), d1, d2)"
| "two_files_step (d1, d2) (SetFilePointer h n) =
    (got (int n), if h = 1 then drop n d1 else d1, if h = 1 then d2 else drop n d2)"
| "two_files_step s _ = (ok, s)"

fun file_law :: "file_call \<Rightarrow> reply \<Rightarrow> bool" where
  "file_law (ReadFile h n) r \<longleftrightarrow> rv r \<noteq> 0 \<longrightarrow> num r = int (length (out r)) \<and> length (out r) \<le> n"
| "file_law _ r \<longleftrightarrow> True"

interpretation two_files: environment two_files_step file_law
proof
  fix s c
  show "file_law c (fst (two_files_step s c))"
    by (cases s; cases c) (simp_all add: read_reply_def ok_def)
qed

text \<open>The bytes that the comparison looks at.\<close>

definition compared :: "byte list \<Rightarrow> byte list" where
  "compared d = take (8 * (length d div 8)) d"

lemma compared_append:
  "8 dvd length a \<Longrightarrow> compared (a @ b) = a @ compared b"
  by (auto simp: compared_def elim!: dvdE)

lemma CompareMemory_compared:
  "length a = length b \<Longrightarrow> CompareMemory a b (length a div 8) \<longleftrightarrow> compared a = compared b"
  using CompareMemory_iff[of "length a div 8" a b] times_div_less_eq_dividend[of 8 "length a"]
  by (simp add: compared_def)

lemma compare_files_loop_equal:
  "length d1 = length d2 \<Longrightarrow> length d1 < fuel \<Longrightarrow>
    fst (interp two_files_step (d1, d2) (compare_files_loop fuel 1 2))
      = Some (status_code (if compared d1 = compared d2 then FILE_COMPARE_EQUAL else FILE_COMPARE_NOT_EQUAL))"
proof (induction fuel arbitrary: d1 d2)
  case 0
  then show ?case by simp
next
  case (Suc fuel)
  let ?a = "take 16384 d1" and ?b = "take 16384 d2"
  have l: "length ?a = length ?b" using Suc.prems by simp
  then have m: "CompareMemory ?a ?b (length ?a div 8) \<longleftrightarrow> compared ?a = compared ?b"
    by (rule CompareMemory_compared)
  show ?case
  proof (cases "d1 = []")
    case True
    with Suc.prems show ?thesis
      by (simp add: read_reply_def ok_def close_both_def result_def compared_def)
  next
    case False
    have step: "fst (interp two_files_step (d1, d2) (compare_files_loop (Suc fuel) 1 2)) =
      (if compared ?a = compared ?b
       then fst (interp two_files_step (drop 16384 d1, drop 16384 d2) (compare_files_loop fuel 1 2))
       else Some (status_code FILE_COMPARE_NOT_EQUAL))"
      using False Suc.prems l m
      by (auto simp: read_reply_def ok_def close_both_def result_def min_def)
    have ih: "fst (interp two_files_step (drop 16384 d1, drop 16384 d2) (compare_files_loop fuel 1 2)) =
      Some (status_code (if compared (drop 16384 d1) = compared (drop 16384 d2)
        then FILE_COMPARE_EQUAL else FILE_COMPARE_NOT_EQUAL))"
    proof (rule Suc.IH)
      have "0 < length d1" using False by simp
      with Suc.prems(2) show "length (drop 16384 d1) < fuel" unfolding length_drop by linarith
    qed (use Suc.prems in simp)
    have "compared d1 = compared d2 \<longleftrightarrow> compared ?a = compared ?b \<and> compared (drop 16384 d1) = compared (drop 16384 d2)"
    proof (cases "length d1 \<le> 16384")
      case True
      with Suc.prems show ?thesis by (simp add: compared_def)
    next
      case False
      have e: "length x = length d1 \<Longrightarrow> compared x = take 16384 x @ compared (drop 16384 x) \<and> compared (take 16384 x) = take 16384 x"
        for x :: "byte list"
        using False compared_append[of "take 16384 x" "drop 16384 x"] compared_append[of "take 16384 x" "[]"]
        by (simp add: compared_def)
      from e[of d1] e[of d2] Suc.prems show ?thesis by simp
    qed
    with step ih show ?thesis by simp
  qed
qed

text \<open>
  C10. Two files of the same length compare equal exactly when they agree on their whole
  64 bit blocks; the last bytes, up to seven, are never looked at.
\<close>

theorem CompareFiles_equal:
  assumes "length d1 = length d2" "length d1 < fuel"
  shows "fst (interp two_files_step (d1, d2) (CompareFiles fuel ''1'' ''2'' 0))
    = Some (status_code (if compared d1 = compared d2 then FILE_COMPARE_EQUAL else FILE_COMPARE_NOT_EQUAL))"
  using compare_files_loop_equal[OF assms]
  by (simp add: CompareFiles_def compare_rest_def got_def ok_def)

theorem CompareFiles_equal_witness:
  "fst (interp two_files_step ([1, 2, 3], [1, 2, 4]) (CompareFiles 4 ''1'' ''2'' 0)) = Some (status_code FILE_COMPARE_EQUAL)"
proof -
  have h: "length [1, 2, 3 :: byte] = length [1, 2, 4 :: byte]" "length [1, 2, 3 :: byte] < 4" by simp_all
  from CompareFiles_equal[OF h] show ?thesis by (simp add: compared_def)
qed

section \<open>\<open>GetFileCheckSum\<close>\<close>

text \<open>
  The buffer after a read is filled up with zeros to whole blocks; the index of a block
  starts again with every read. The two sums are handed to the continuation with the
  returned BOOL.
\<close>

definition padded :: "byte list \<Rightarrow> byte list" where
  "padded m = (if length m AND 7 \<noteq> 0 then m @ replicate (8 - (length m AND 7)) 0 else m)"

function checksum_blocks :: "byte list \<Rightarrow> nat \<Rightarrow> nat \<Rightarrow> QWORD \<times> QWORD \<Rightarrow> QWORD \<times> QWORD" where
  "checksum_blocks buffer n i (c0, c1) =
    (if i < n then
       let q = block buffer i; c0' = c0 XOR q
       in checksum_blocks buffer n (Suc i) (c0', c1 + (q + c0' + of_nat i + 1))
     else (c0, c1))"
  by pat_completeness auto
termination by (relation "measure (\<lambda>(buffer, n, i, c). n - i)") auto

declare checksum_blocks.simps [simp del]

fun checksum_loop :: "nat \<Rightarrow> int \<Rightarrow> QWORD \<times> QWORD \<Rightarrow> (bool \<Rightarrow> QWORD \<times> QWORD \<Rightarrow> comparison) \<Rightarrow> comparison" where
  "checksum_loop 0 hFile c k = OutOfFuel"
| "checksum_loop (Suc fuel) hFile c k =
    Sys (ReadFile hFile 16384) (\<lambda>r.
      if rv r = 0 then k False c
      else Sys Sleep (\<lambda>_.
        if num r = 0 then k True c
        else
          let buffer = padded (out r)
          in checksum_loop fuel hFile (checksum_blocks buffer (length buffer div 8) 0 c) k))"

definition GetFileCheckSum :: "nat \<Rightarrow> int \<Rightarrow> (bool \<Rightarrow> QWORD \<times> QWORD \<Rightarrow> comparison) \<Rightarrow> comparison" where
  "GetFileCheckSum fuel hFile k = checksum_loop fuel hFile (0, 0) k"

text \<open>
  The first sum is the exclusive or of all blocks of the file, wherever the reads end as
  long as they end between blocks.
\<close>

definition blocks :: "byte list \<Rightarrow> QWORD list" where
  "blocks m = map (block m) [0..<length m div 8]"

lemma and_7: "(n :: nat) AND 7 = n mod 8"
  using take_bit_eq_mask[of 3 n] by (simp add: take_bit_eq_mod mask_eq_exp_minus_1)

lemma padded_append: "8 dvd length a \<Longrightarrow> padded (a @ b) = a @ padded b"
proof -
  assume "8 dvd length a"
  then have "(length a + length b) mod 8 = length b mod 8" by (elim dvdE) simp
  then show ?thesis by (simp add: padded_def and_7)
qed

lemma length_padded: "8 dvd length (padded m)"
proof (cases "length m mod 8 = 0")
  case True
  then show ?thesis by (simp add: padded_def and_7 mod_eq_0_iff_dvd)
next
  case False
  have "length m + (8 - length m mod 8) = 8 * (length m div 8 + 1)" by presburger
  with False show ?thesis by (simp add: padded_def and_7)
qed

lemma checksum_blocks_xor:
  "fst (checksum_blocks m n i c) = fold (\<lambda>q x. x XOR q) (map (block m) [i..<n]) (fst c)"
proof (induction m n i c rule: checksum_blocks.induct)
  case (1 m n i c0 c1)
  then show ?case
    by (subst checksum_blocks.simps) (auto simp: Let_def upt_rec[of i n])
qed

lemma blocks_append:
  "8 dvd length a \<Longrightarrow> blocks (a @ b) = blocks a @ blocks b"
proof (elim dvdE)
  fix k assume k: "length a = 8 * k"
  have "[0..<k + length b div 8] = [0..<k] @ map (\<lambda>i. i + k) [0..<length b div 8]"
    using upt_add_eq_append[of 0 k "length b div 8"] map_add_upt[of k "length b div 8"]
    by (simp only: add.commute[of _ k] le0 simp_thms)
  moreover have "block (a @ b) j = block a j" if "j < k" for j
  proof -
    have "8 * j + 8 \<le> length a" using that k by linarith
    then show ?thesis by (simp add: block_def)
  qed
  moreover have "block (a @ b) (j + k) = block b j" for j
    using k by (simp add: block_def algebra_simps)
  ultimately show "blocks (a @ b) = blocks a @ blocks b"
    using k by (simp add: blocks_def o_def)
qed

lemma checksum_loop_xor:
  "length d < fuel \<Longrightarrow>
    \<exists>c1. interp two_files_step (d, e) (checksum_loop fuel 1 c k)
      = interp two_files_step ([], e) (k True (fold (\<lambda>q x. x XOR q) (blocks (padded d)) (fst c), c1))"
proof (induction fuel arbitrary: d c)
  case 0
  then show ?case by simp
next
  case (Suc fuel)
  show ?case
  proof (cases "d = []")
    case True
    then show ?thesis
      by (intro exI[of _ "snd c"]) (simp add: read_reply_def ok_def padded_def blocks_def)
  next
    case False
    let ?p = "padded (take 16384 d)"
    let ?c = "checksum_blocks ?p (length ?p div 8) 0 c"
    have step: "interp two_files_step (d, e) (checksum_loop (Suc fuel) 1 c k) =
      interp two_files_step (drop 16384 d, e) (checksum_loop fuel 1 ?c k)"
      using False by (auto simp: read_reply_def ok_def Let_def min_def)
    have "0 < length d" using False by simp
    with Suc.prems have "length (drop 16384 d) < fuel" unfolding length_drop by linarith
    from Suc.IH[OF this, of ?c] obtain c1 where
      "interp two_files_step (drop 16384 d, e) (checksum_loop fuel 1 ?c k)
      = interp two_files_step ([], e)
          (k True (fold (\<lambda>q x. x XOR q) (blocks (padded (drop 16384 d))) (fst ?c), c1))" by blast
    moreover have "fold (\<lambda>q x. x XOR q) (blocks (padded (drop 16384 d))) (fst ?c)
      = fold (\<lambda>q x. x XOR q) (blocks (padded d)) (fst c)"
    proof -
      have "blocks (padded d) = blocks ?p @ blocks (padded (drop 16384 d))"
      proof (cases "length d \<le> 16384")
        case True
        then show ?thesis by (simp add: padded_def blocks_def)
      next
        case False
        then have t: "length (take 16384 d) = 16384" by simp
        then have "?p = take 16384 d" by (simp add: padded_def)
        moreover have "padded d = take 16384 d @ padded (drop 16384 d)"
          using padded_append[of "take 16384 d" "drop 16384 d"] t by simp
        ultimately show ?thesis using t by (simp add: blocks_append)
      qed
      then show ?thesis by (simp add: checksum_blocks_xor blocks_def)
    qed
    ultimately show ?thesis unfolding step by auto
  qed
qed

end
