(* ===== verification/Lnk.thy ===== *)
theory Lnk
  imports Prog
begin

text \<open>
  Hard links through the native file system calls: \<open>fdf/lnk.c\<close>, which looks the calls up
  at run time, and \<open>strarc/lnk.c\<close>, which links to them. Heap blocks, handles and the
  strings that the path conversion allocates are counted as resources.
\<close>

section \<open>Calls and state\<close>

text \<open>The link record that is passed to \<open>NtSetInformationFile\<close>, its name in characters.\<close>

record link_information =
  ReplaceIfExists :: bool
  RootDirectory :: int
  LinkName :: string

datatype lnk_call =
    GetModuleHandle string
  | GetProcAddress int string
  | DosPathNameToNtPathName string
  | FreeUnicodeString int
  | HAlloc nat
  | HFree int
  | ToWideAlloc bool string
  | AreFileApisANSI
  | CreateFile string
  | CloseHandle int
  | SetLinkInformation int link_information nat
  | SetShortNameInformation int string nat
  | NtOpenFile int string
  | NtClose int
  | NtStatusToDosError int
  | SetLastError int
  | GetLastError

type_synonym lnk = "(lnk_call, reply) prog"

text \<open>\<open>LnkLibInitStatus\<close>; a global is zero at the start.\<close>

datatype lnk_status = LnkLibNotInit | LnkLibInitFailed | LnkLibInitOk

definition ERROR_PATH_NOT_FOUND :: int where "ERROR_PATH_NOT_FOUND = 3"
definition ERROR_CALL_NOT_IMPLEMENTED :: int where "ERROR_CALL_NOT_IMPLEMENTED = 120"

text \<open>
  \<open>Length\<close> of a native string counts bytes, two for each character; the fixed part of
  the link record without its name member is \<open>14\<close> bytes on the 32 bit platform, the
  fixed part of the name record \<open>6\<close>.
\<close>

definition byte_length :: "string \<Rightarrow> nat" where
  "byte_length s = 2 * length s"

definition link_size :: "string \<Rightarrow> nat" where
  "link_size s = byte_length s + 16 - 2"

definition name_size :: "string \<Rightarrow> nat" where
  "name_size s = byte_length s + 8 - 2"

definition NT_SUCCESS :: "int \<Rightarrow> bool" where
  "NT_SUCCESS status \<longleftrightarrow> status \<ge> 0"

definition fail_with :: "int \<Rightarrow> lnk" where
  "fail_with e = Sys (SetLastError e) (\<lambda>_. Done 0)"

section \<open>\<open>fdf/lnk.c\<close>\<close>

text \<open>The continuation gets the BOOL and the new value of the global.\<close>

primrec look_up :: "int \<Rightarrow> string list \<Rightarrow> (bool \<Rightarrow> lnk) \<Rightarrow> lnk" where
  "look_up hModule [] k = k True"
| "look_up hModule (name # names) k =
    Sys (GetProcAddress hModule name) (\<lambda>r. if rv r = 0 then k False else look_up hModule names k)"

definition LnkLibInit :: "(bool \<Rightarrow> lnk_status \<Rightarrow> lnk) \<Rightarrow> lnk" where
  "LnkLibInit k =
    Sys (GetModuleHandle ''NTDLL.DLL'') (\<lambda>m.
      if rv m = 0 then k False LnkLibInitFailed
      else look_up (rv m)
        [''RtlNtStatusToDosError'', ''RtlFreeUnicodeString'', ''NtSetInformationFile'',
         ''RtlDosPathNameToNtPathName_U'']
        (\<lambda>found. if found then k True LnkLibInitOk else k False LnkLibInitFailed))"

text \<open>
  The converted name is in \<open>line\<close>, and \<open>num\<close> identifies the string for its release. The
  result goes to a continuation, because the caller goes on after it.
\<close>

definition CreateHardLinkToOpenFile :: "int \<Rightarrow> string \<Rightarrow> bool \<Rightarrow> (bool \<Rightarrow> lnk) \<Rightarrow> lnk" where
  "CreateHardLinkToOpenFile hFile lpTarget bReplaceOk k =
    Sys (DosPathNameToNtPathName lpTarget) (\<lambda>t.
      if rv t = 0 then Sys (SetLastError ERROR_PATH_NOT_FOUND) (\<lambda>_. k False)
      else Sys (HAlloc (link_size (line t))) (\<lambda>a.
        if rv a = 0 then k False
        else
          Sys (SetLinkInformation hFile
              \<lparr>ReplaceIfExists = bReplaceOk, RootDirectory = 0, LinkName = line t\<rparr>
              (link_size (line t))) (\<lambda>st.
          Sys (FreeUnicodeString (num t)) (\<lambda>_.
          Sys (HFree (rv a)) (\<lambda>_.
            if NT_SUCCESS (rv st) then k True
            else
              Sys (NtStatusToDosError (rv st)) (\<lambda>e.
              Sys (SetLastError (rv e)) (\<lambda>_. k False)))))))"

definition link_by_name :: "string \<Rightarrow> string \<Rightarrow> bool \<Rightarrow> lnk" where
  "link_by_name lpExisting lpNew bReplaceOk =
    Sys AreFileApisANSI (\<lambda>ansi.
    Sys (ToWideAlloc (rv ansi \<noteq> 0) lpNew) (\<lambda>w.
      if rv w = 0 then Done 0
      else Sys (CreateFile lpExisting) (\<lambda>f.
        if rv f = invalid_handle then Sys (HFree (rv w)) (\<lambda>_. Done 0)
        else CreateHardLinkToOpenFile (rv f) (line w) bReplaceOk (\<lambda>bResult.
          let finish = (\<lambda>dwLastError.
            Sys (HFree (rv w)) (\<lambda>_.
            Sys (CloseHandle (rv f)) (\<lambda>_.
              if \<not> bResult then fail_with dwLastError else Done 1)))
          in if \<not> bResult then Sys GetLastError (\<lambda>e. finish (err e)) else finish 0))))"

definition CreateHardLinkToFile :: "lnk_status \<Rightarrow> string \<Rightarrow> string \<Rightarrow> bool \<Rightarrow> lnk" where
  "CreateHardLinkToFile status lpExisting lpNew bReplaceOk =
    (if status = LnkLibInitFailed then fail_with ERROR_CALL_NOT_IMPLEMENTED
     else if status = LnkLibNotInit then
       LnkLibInit (\<lambda>good status'.
         if \<not> good then fail_with ERROR_CALL_NOT_IMPLEMENTED
         else link_by_name lpExisting lpNew bReplaceOk)
     else link_by_name lpExisting lpNew bReplaceOk)"

section \<open>\<open>strarc/lnk.c\<close>\<close>

definition SetShortFileName :: "int \<Rightarrow> string \<Rightarrow> lnk" where
  "SetShortFileName hFile Name =
    Sys (HAlloc (name_size Name)) (\<lambda>a.
      if rv a = 0 then Done 0
      else
        Sys (SetShortNameInformation hFile Name (name_size Name)) (\<lambda>st.
        Sys (HFree (rv a)) (\<lambda>_.
          if NT_SUCCESS (rv st) then Done 1
          else Sys (NtStatusToDosError (rv st)) (\<lambda>e. fail_with (rv e)))))"

text \<open>A new link is opened once, only to make the system copy the attributes.\<close>

definition CreateHardLinkAt :: "int \<Rightarrow> int \<Rightarrow> string \<Rightarrow> bool \<Rightarrow> lnk" where
  "CreateHardLinkAt hFile Root Target Replace =
    Sys (HAlloc (link_size Target)) (\<lambda>a.
      if rv a = 0 then Done 0
      else
        Sys (SetLinkInformation hFile
            \<lparr>ReplaceIfExists = Replace, RootDirectory = Root, LinkName = Target\<rparr> (link_size Target)) (\<lambda>st.
        Sys (HFree (rv a)) (\<lambda>_.
          if NT_SUCCESS (rv st) then
            Sys (NtOpenFile Root Target) (\<lambda>o'.
              if NT_SUCCESS (rv o') then Sys (NtClose (num o')) (\<lambda>_. Done 1) else Done 1)
          else Sys (NtStatusToDosError (rv st)) (\<lambda>e. fail_with (rv e)))))"

section \<open>Resources\<close>

datatype resource = Block int | Handle int | NtString int

fun acquires :: "lnk_call \<times> reply \<Rightarrow> resource option" where
  "acquires (HAlloc n, r) = (if rv r = 0 then None else Some (Block (rv r)))"
| "acquires (ToWideAlloc a s, r) = (if rv r = 0 then None else Some (Block (rv r)))"
| "acquires (CreateFile f, r) = (if rv r = invalid_handle then None else Some (Handle (rv r)))"
| "acquires (NtOpenFile d f, r) = (if NT_SUCCESS (rv r) then Some (Handle (num r)) else None)"
| "acquires (DosPathNameToNtPathName s, r) = (if rv r = 0 then None else Some (NtString (num r)))"
| "acquires _ = None"

fun releases :: "lnk_call \<times> reply \<Rightarrow> resource option" where
  "releases (HFree p, r) = Some (Block p)"
| "releases (CloseHandle h, r) = Some (Handle h)"
| "releases (NtClose h, r) = Some (Handle h)"
| "releases (FreeUnicodeString s, r) = Some (NtString s)"
| "releases _ = None"

interpretation lnk: resources acquires releases
proof
  fix e
  show "acquires e \<noteq> None \<Longrightarrow> releases e = None"
    by (cases e rule: acquires.cases) simp_all
qed

lemmas lnk_simps = lnk.balance_append balance_start clean_balance fail_with_def NT_SUCCESS_def

text \<open>
  The one way that keeps something: the link record cannot be allocated after the target
  path has been converted.
\<close>

definition link_block_refused :: "(lnk_call \<times> reply) list \<Rightarrow> bool" where
  "link_block_refused tr \<longleftrightarrow> (\<exists>e \<in> set tr. \<exists>n. fst e = HAlloc n \<and> rv (snd e) = 0)"

definition tidy :: "(lnk_call \<times> reply) list \<Rightarrow> int \<Rightarrow> bool" where
  "tidy tr n \<longleftrightarrow> n \<in> {0, 1} \<and>
    (\<not> link_block_refused tr \<longrightarrow> balance acquires releases tr = Some {#}) \<and>
    (link_block_refused tr \<longrightarrow> n = 0 \<and> (\<exists>s. balance acquires releases tr = Some {#NtString s#}))"

lemma link_by_name_tidy:
  "balance acquires releases h = Some {#} \<Longrightarrow> \<not> link_block_refused h \<Longrightarrow>
    holds anything tidy h (link_by_name f new replace)"
  unfolding tidy_def link_block_refused_def
  by (simp add: link_by_name_def CreateHardLinkToOpenFile_def lnk_simps Let_def add_mset_commute)

text \<open>
  C37. \<open>CreateHardLinkToFile\<close> (the version with the run time lookup) returns a BOOL and has
  released every block, handle and string when it returns, whatever the calls answered,
  with one exception: when the block for the link record is refused, it keeps exactly the
  converted target path.
\<close>

theorem CreateHardLinkToFile_tidy:
  assumes "runs anything (CreateHardLinkToFile status f new replace) tr n"
  shows "n \<in> {0, 1} \<and>
    (\<not> link_block_refused tr \<longrightarrow> clean acquires releases tr) \<and>
    (link_block_refused tr \<longrightarrow> n = 0 \<and> (\<exists>s. settle acquires releases {#} tr = Some {#NtString s#}))"
proof -
  have "holds anything tidy [] (CreateHardLinkToFile status f new replace)"
    by (simp add: CreateHardLinkToFile_def LnkLibInit_def link_by_name_tidy lnk_simps
        link_block_refused_def tidy_def)
  with assms show ?thesis
    by (auto simp: holds_iff_runs tidy_def clean_balance balance_def)
qed

definition made :: "int \<Rightarrow> string \<Rightarrow> reply" where
  "made i s = ok\<lparr>rv := i, line := s, num := i\<rparr>"

theorem CreateHardLinkToFile_tidy_witness:
  "settle acquires releases {#}
    [(AreFileApisANSI, ok), (ToWideAlloc True ''b'', made 7 ''b''), (CreateFile ''a'', made 4 []),
     (DosPathNameToNtPathName ''b'', made 9 ''//b''), (HAlloc 20, made 0 []), (GetLastError, ok),
     (HFree 7, ok), (CloseHandle 4, ok), (SetLastError 0, ok)] = Some {#NtString 9#}"
proof -
  let ?tr = "[(AreFileApisANSI, ok), (ToWideAlloc True ''b'', made 7 ''b''), (CreateFile ''a'', made 4 []),
     (DosPathNameToNtPathName ''b'', made 9 ''//b''), (HAlloc 20, made 0 []), (GetLastError, ok),
     (HFree 7, ok), (CloseHandle 4, ok), (SetLastError 0, ok)]"
  have r: "runs anything (CreateHardLinkToFile LnkLibInitOk ''a'' ''b'' True) ?tr 0"
    by (simp add: CreateHardLinkToFile_def link_by_name_def CreateHardLinkToOpenFile_def fail_with_def
        made_def ok_def link_size_def byte_length_def)
  have b: "link_block_refused ?tr" by (simp add: link_block_refused_def made_def)
  from CreateHardLinkToFile_tidy[OF r] b obtain s where s: "settle acquires releases {#} ?tr = Some {#NtString s#}"
    by blast
  then have "s = 9" by (simp add: made_def split: if_splits)
  with s show ?thesis by simp
qed

text \<open>The error of a failed link survives the releases that follow it.\<close>

lemma link_error_preserved:
  "holds anything (\<lambda>tr n. n = 0 \<longrightarrow>
      (\<forall>e r. (GetLastError, r) \<in> set tr \<longrightarrow> fst (last tr) = SetLastError (err r)))
    [] (CreateHardLinkToFile LnkLibInitOk f new replace)"
  by (simp add: CreateHardLinkToFile_def link_by_name_def CreateHardLinkToOpenFile_def fail_with_def Let_def)

text \<open>The two routines of \<open>strarc\<close> release what they take on every way.\<close>

lemma SetShortFileName_tidy:
  "holds anything (\<lambda>tr n. n \<in> {0, 1} \<and> balance acquires releases tr = Some {#}) [] (SetShortFileName h name)"
  by (simp add: SetShortFileName_def lnk_simps)

lemma CreateHardLinkAt_tidy:
  "holds anything (\<lambda>tr n. n \<in> {0, 1} \<and> balance acquires releases tr = Some {#}) [] (CreateHardLinkAt h root name replace)"
  by (simp add: CreateHardLinkAt_def lnk_simps)

end
