(* ===== verification/Args.thy ===== *)
theory Args
  imports MemSearch Prog
begin

text \<open>
  What the command line tools share: wide strings, the loop over the switches that
  precede the operands (the sources call it the nice argument parse loop), and the start
  code of the tools that need Windows NT.
\<close>

section \<open>Wide strings\<close>

type_synonym wide = "WCHAR list"

definition wide_of :: "string \<Rightarrow> wide" where
  "wide_of s = map of_char s"

definition wide_switch :: "WCHAR \<Rightarrow> bool" where
  "wide_switch c \<longleftrightarrow> c OR 2 = 0x2F"

definition wide_fold :: "WCHAR \<Rightarrow> WCHAR" where
  "wide_fold c = c OR 0x20"

text \<open>What the functions for digits and blanks see of a wide character, and lower case.\<close>

definition narrow :: "WCHAR \<Rightarrow> char" where
  "narrow c = (if unat c < 256 then char_of (unat c) else CHR ''?'')"

definition wide_lower :: "WCHAR \<Rightarrow> WCHAR" where
  "wide_lower c = (if 65 \<le> c \<and> c \<le> 90 then c + 32 else c)"

definition wcsicmp :: "wide \<Rightarrow> wide \<Rightarrow> bool" where
  "wcsicmp a b \<longleftrightarrow> map wide_lower a = map wide_lower b"

section \<open>The loop over the switches\<close>

text \<open>
  \<open>sw\<close> recognises a switch character; every letter behind it is a switch of its own.
  A letter may end the program: \<open>Inl\<close> is what it ends with.
\<close>

fun switch_letters :: "('c \<Rightarrow> 's \<Rightarrow> 'e + 's) \<Rightarrow> 'c list \<Rightarrow> 's \<Rightarrow> 'e + 's" where
  "switch_letters f [] s = Inr s"
| "switch_letters f (c # cs) s =
    (case f c s of Inl e \<Rightarrow> Inl e | Inr s' \<Rightarrow> switch_letters f cs s')"

fun parse_switches :: "('c \<Rightarrow> bool) \<Rightarrow> ('c \<Rightarrow> 's \<Rightarrow> 'e + 's) \<Rightarrow> 'c list list \<Rightarrow> 's \<Rightarrow> 'e + 's \<times> 'c list list" where
  "parse_switches sw f [] s = Inr (s, [])"
| "parse_switches sw f ([] # args) s = Inr (s, [] # args)"
| "parse_switches sw f ((c # cs) # args) s =
    (if sw c then
       (case switch_letters f cs s of
          Inl e \<Rightarrow> Inl e
        | Inr s' \<Rightarrow> parse_switches sw f args s')
     else Inr (s, (c # cs) # args))"

text \<open>The letters before the first operand, and the operands.\<close>

fun is_option :: "('c \<Rightarrow> bool) \<Rightarrow> 'c list \<Rightarrow> bool" where
  "is_option sw [] \<longleftrightarrow> False"
| "is_option sw (c # cs) \<longleftrightarrow> sw c"

definition letters :: "('c \<Rightarrow> bool) \<Rightarrow> 'c list list \<Rightarrow> 'c list" where
  "letters sw args = concat (map tl (takeWhile (is_option sw) args))"

definition operands :: "('c \<Rightarrow> bool) \<Rightarrow> 'c list list \<Rightarrow> 'c list list" where
  "operands sw args = dropWhile (is_option sw) args"

lemma switch_letters_append:
  "switch_letters f (xs @ ys) s =
    (case switch_letters f xs s of Inl e \<Rightarrow> Inl e | Inr s' \<Rightarrow> switch_letters f ys s')"
  by (induction f xs s rule: switch_letters.induct) (auto split: sum.splits)

lemma parse_switches_letters:
  "parse_switches sw f args s =
    (case switch_letters f (letters sw args) s of Inl e \<Rightarrow> Inl e | Inr s' \<Rightarrow> Inr (s', operands sw args))"
  by (induction sw f args s rule: parse_switches.induct)
    (auto simp: letters_def operands_def switch_letters_append split: sum.splits)

lemma switch_letters_total: "switch_letters (\<lambda>c s. Inr (g c s)) cs s = Inr (fold g cs s)"
  by (induction cs arbitrary: s) simp_all

section \<open>Start code\<close>

text \<open>
  \<open>CommandLineToArgvW\<close> exists on Windows NT only; without it the program shows a
  message and ends.
\<close>

definition nt_startup :: "'c \<Rightarrow> ('a list \<Rightarrow> ('c, 'r) prog) \<Rightarrow> 'a list option \<Rightarrow> ('c, 'r) prog" where
  "nt_startup box wmain argv = (case argv of None \<Rightarrow> Sys box (\<lambda>_. Done (- 1)) | Some args \<Rightarrow> wmain args)"

section \<open>Status values\<close>

text \<open>The severity of an \<open>NTSTATUS\<close>: negative numbers are warnings and errors.\<close>

definition NT_SUCCESS :: "int \<Rightarrow> bool" where
  "NT_SUCCESS s \<longleftrightarrow> 0 \<le> s"

definition NT_ERROR :: "int \<Rightarrow> bool" where
  "NT_ERROR s \<longleftrightarrow> - 0x40000000 \<le> s \<and> s < 0"

end
