(* ===== verification/Junc.thy ===== *)
theory Junc
  imports Args
begin

text \<open>
  \<open>junc.c\<close>: creates, shows and removes junctions. The record that is passed to the file
  system is built byte for byte; the file system is a table of directories, each with the
  junction data it carries, if any.
\<close>

section \<open>The reparse record\<close>


record reparse_data =
  ReparseTag :: nat
  ReparseDataLength :: nat
  NameOffset :: nat
  NameLength :: nat
  DisplayNameOffset :: nat
  DisplayNameLength :: nat
  Data :: "byte list"

definition IO_REPARSE_TAG_MOUNT_POINT :: nat where "IO_REPARSE_TAG_MOUNT_POINT = 0xA0000003"

definition blank_reparse :: reparse_data where
  "blank_reparse = \<lparr>ReparseTag = 0, ReparseDataLength = 0, NameOffset = 0, NameLength = 0,
     DisplayNameOffset = 0, DisplayNameLength = 0, Data = []\<rparr>"

text \<open>\<open>Data\<close> has 65536 bytes; the cast to \<open>WORD\<close> cuts a number to 16 bits.\<close>

definition DATA_SIZE :: nat where "DATA_SIZE = 65536"

definition WORD :: "nat \<Rightarrow> nat" where
  "WORD n = n mod 65536"

primrec wide_bytes :: "wide \<Rightarrow> byte list" where
  "wide_bytes [] = []"
| "wide_bytes (w # ws) = ucast w # ucast (drop_bit 8 w) # wide_bytes ws"

fun bytes_wide :: "byte list \<Rightarrow> wide" where
  "bytes_wide (a # b # bs) = (ucast a OR push_bit 8 (ucast b)) # bytes_wide bs"
| "bytes_wide _ = []"

definition size_of :: "wide \<Rightarrow> nat" where
  "size_of target = 2 * length target"

text \<open>
  The target is written twice, each time with its terminator. The test before it allows
  \<open>size + 6\<close> bytes; \<open>None\<close> is a record that does not fit, which the program would write
  behind the buffer.
\<close>

definition name_refused :: "wide \<Rightarrow> bool" where
  "name_refused target \<longleftrightarrow> size_of target + 6 > DATA_SIZE \<or> size_of target = 0"

definition junction_data :: "wide \<Rightarrow> reparse_data option" where
  "junction_data target =
    (let n = size_of target;
         d = wide_bytes target @ [0, 0] @ wide_bytes target @ [0, 0]
     in if length d > DATA_SIZE then None
        else Some \<lparr>ReparseTag = IO_REPARSE_TAG_MOUNT_POINT,
             ReparseDataLength = WORD (8 + n + 2 + n + 2), NameOffset = 0, NameLength = WORD n,
             DisplayNameOffset = WORD (n + 2), DisplayNameLength = WORD n, Data = d\<rparr>)"

text \<open>\<open>%.*ws\<close> prints at most so many characters, and none from a terminator on.\<close>

definition shown_name :: "reparse_data \<Rightarrow> wide" where
  "shown_name r =
    takeWhile (\<lambda>w. w \<noteq> 0) (take (NameLength r div 2) (bytes_wide (drop (NameOffset r) (Data r))))"

section \<open>The program\<close>

datatype access = GENERIC_READ | GENERIC_WRITE | GENERIC_READ_WRITE

datatype junc_call =
    CreateFile wide access
  | CreateDirectory wide
  | RemoveDirectory wide
  | DeleteReparsePoint int reparse_data
  | SetReparsePoint int reparse_data nat
  | GetReparsePoint int
  | CloseHandle int
  | GetLastError
  | WinPerror wide
  | Message string "wide list"

record junc_reply = reply +
  rdata :: reparse_data

type_synonym junc = "(junc_call, junc_reply) prog"

definition ERROR_INVALID_FUNCTION :: int where "ERROR_INVALID_FUNCTION = 1"
definition ERROR_FILE_NOT_FOUND :: int where "ERROR_FILE_NOT_FOUND = 2"
definition ERROR_INVALID_PARAMETER :: int where "ERROR_INVALID_PARAMETER = 87"
definition ERROR_DIR_NOT_EMPTY :: int where "ERROR_DIR_NOT_EMPTY = 145"
definition ERROR_DIRECTORY :: int where "ERROR_DIRECTORY = 267"
definition ERROR_NOT_A_REPARSE_POINT :: int where "ERROR_NOT_A_REPARSE_POINT = 4390"
definition ERROR_INVALID_REPARSE_DATA :: int where "ERROR_INVALID_REPARSE_DATA = 4392"

text \<open>The message for an error, by the tag of the text; the default reads the error again.\<close>

definition removal_error :: "wide \<Rightarrow> int \<Rightarrow> junc \<Rightarrow> junc" where
  "removal_error dir e k =
    (if e = ERROR_INVALID_REPARSE_DATA then Sys (Message ''invalid data'' [dir]) (\<lambda>_. k)
     else if e = ERROR_INVALID_PARAMETER then Sys (Message ''no reparse points on this OS'' []) (\<lambda>_. k)
     else if e = ERROR_INVALID_FUNCTION then Sys (Message ''NTFS only'' []) (\<lambda>_. k)
     else if e = ERROR_NOT_A_REPARSE_POINT \<or> e = ERROR_DIRECTORY \<or> e = ERROR_DIR_NOT_EMPTY then
       Sys (Message ''not a reparse point'' [dir]) (\<lambda>_. k)
     else Sys GetLastError (\<lambda>_. Sys (Message ''error getting reparse data'' [dir]) (\<lambda>_. k)))"

definition creation_error :: "wide \<Rightarrow> wide \<Rightarrow> int \<Rightarrow> junc \<Rightarrow> junc" where
  "creation_error dir target e k =
    (if e = ERROR_INVALID_REPARSE_DATA then Sys (Message ''invalid target path'' [target]) (\<lambda>_. k)
     else if e = ERROR_INVALID_PARAMETER then Sys (Message ''no reparse points on this OS'' []) (\<lambda>_. k)
     else if e = ERROR_INVALID_FUNCTION \<or> e = ERROR_NOT_A_REPARSE_POINT then
       Sys (Message ''NTFS only'' []) (\<lambda>_. k)
     else if e = ERROR_DIRECTORY \<or> e = ERROR_DIR_NOT_EMPTY then
       Sys (Message ''only on empty directories'' []) (\<lambda>_. k)
     else Sys GetLastError (\<lambda>_. Sys (Message ''error joining'' [target, dir]) (\<lambda>_. k)))"

definition junc_remove :: "wide \<Rightarrow> int \<Rightarrow> junc" where
  "junc_remove dir h =
    Sys (DeleteReparsePoint h (blank_reparse\<lparr>ReparseTag := IO_REPARSE_TAG_MOUNT_POINT\<rparr>)) (\<lambda>r.
      if rv r = 0 then Sys GetLastError (\<lambda>e. removal_error dir (err e) (Done 1)) else Done 0)"

definition junc_create :: "wide \<Rightarrow> wide \<Rightarrow> int \<Rightarrow> bool \<Rightarrow> junc" where
  "junc_create dir target h bDirectoryCreated =
    (if name_refused target then Sys (Message ''name is too long'' [target]) (\<lambda>_. Done 4)
     else case junction_data target of
       None \<Rightarrow> Crash
     | Some d \<Rightarrow>
         Sys (SetReparsePoint h d (16 + size_of target + 2 + size_of target + 2)) (\<lambda>r.
           if rv r = 0 then
             Sys GetLastError (\<lambda>e.
               creation_error dir target (err e)
                 (Sys (CloseHandle h) (\<lambda>_.
                    if bDirectoryCreated then Sys (RemoveDirectory dir) (\<lambda>_. Done 1) else Done 1)))
           else Done 0))"

definition junc_show :: "wide \<Rightarrow> int \<Rightarrow> junc" where
  "junc_show dir h =
    Sys (GetReparsePoint h) (\<lambda>r.
      if rv r = 0 then Sys GetLastError (\<lambda>e. removal_error dir (err e) (Done 1))
      else if ReparseTag (rdata r) \<noteq> IO_REPARSE_TAG_MOUNT_POINT then
        Sys (Message ''not a junction'' []) (\<lambda>_. Done 2)
      else Sys (Message ''->'' [dir, shown_name (rdata r)]) (\<lambda>_. Done 0))"

text \<open>
  Opening the directory. To create a junction a directory that does not exist is created
  first, and opened again.
\<close>

definition open_failed :: "wide \<Rightarrow> int \<Rightarrow> junc \<Rightarrow> junc" where
  "open_failed dir h k = (if h = invalid_handle then Sys (WinPerror dir) (\<lambda>_. Done 3) else k)"

definition open_to_create :: "wide \<Rightarrow> (int \<Rightarrow> bool \<Rightarrow> junc) \<Rightarrow> junc" where
  "open_to_create dir k =
    Sys (CreateFile dir GENERIC_WRITE) (\<lambda>f.
      if rv f = invalid_handle then
        Sys GetLastError (\<lambda>e.
          if err e = ERROR_FILE_NOT_FOUND then
            Sys (CreateDirectory dir) (\<lambda>c.
              if rv c \<noteq> 0 then
                Sys (CreateFile dir GENERIC_READ_WRITE) (\<lambda>f'. open_failed dir (rv f') (k (rv f') True))
              else Sys (WinPerror dir) (\<lambda>_. Done 3))
          else open_failed dir (rv f) (k (rv f) False))
      else k (rv f) False)"

definition junc_main :: "wide list \<Rightarrow> junc" where
  "junc_main args =
    (case args of
       [dir] \<Rightarrow> Sys (CreateFile dir GENERIC_READ) (\<lambda>f. open_failed dir (rv f) (junc_show dir (rv f)))
     | [a, b] \<Rightarrow>
         if a = [45, 114] then
           Sys (CreateFile b GENERIC_WRITE) (\<lambda>f. open_failed b (rv f) (junc_remove b (rv f)))
         else open_to_create a (junc_create a b)
     | _ \<Rightarrow> Sys (Message ''syntax'' []) (\<lambda>_. Done 5))"

section \<open>What is written is read back\<close>

lemma bytes_of_char:
  "ucast (ucast (w :: WCHAR) :: byte) OR push_bit 8 (ucast (ucast (drop_bit 8 w) :: byte)) = w"
  by (rule bit_word_eqI) (auto simp: bit_simps not_less)

lemma bytes_wide_bytes: "bytes_wide (wide_bytes ws @ bs) = ws @ bytes_wide bs"
  by (induction ws) (simp_all add: bytes_of_char)

lemma length_wide_bytes [simp]: "length (wide_bytes ws) = size_of ws"
  by (induction ws) (simp_all add: size_of_def)

lemma junction_data_shown:
  assumes "junction_data target = Some d" "0 \<notin> set target"
  shows "shown_name d = target \<and> ReparseTag d = IO_REPARSE_TAG_MOUNT_POINT"
proof -
  have l: "2 * size_of target + 4 \<le> DATA_SIZE"
    using assms(1) by (auto simp: junction_data_def Let_def split: if_splits)
  then have n: "WORD (size_of target) = size_of target" by (simp add: WORD_def DATA_SIZE_def)
  have "takeWhile (\<lambda>w. w \<noteq> 0) target = target" using assms(2) by (auto simp: takeWhile_eq_all_conv)
  with assms(1) n show ?thesis
    by (auto simp: junction_data_def Let_def shown_name_def bytes_wide_bytes size_of_def split: if_splits)
qed

section \<open>A volume with junctions\<close>

text \<open>
  The directories of a volume; the value is the junction data a directory carries. One
  directory is open at a time; \<open>screen\<close> collects the messages, \<open>last\<close> is the last error.
\<close>

record volume =
  dirs :: "wide \<Rightarrow> reparse_data option option"
  current :: wide
  last_error :: int
  screen :: "(string \<times> wide list) list"

definition good :: junc_reply where
  "good = \<lparr>rv = 1, out = [], line = [], num = 0, err = 0, rdata = blank_reparse\<rparr>"

definition refuse :: "int \<Rightarrow> volume \<Rightarrow> junc_reply \<times> volume" where
  "refuse e s = (good\<lparr>rv := 0\<rparr>, s\<lparr>last_error := e\<rparr>)"

fun volume_step :: "volume \<Rightarrow> junc_call \<Rightarrow> junc_reply \<times> volume" where
  "volume_step s (CreateFile d a) =
    (if dirs s d = None then (good\<lparr>rv := - 1\<rparr>, s\<lparr>last_error := ERROR_FILE_NOT_FOUND\<rparr>)
     else (good\<lparr>rv := 4\<rparr>, s\<lparr>current := d\<rparr>))"
| "volume_step s (CreateDirectory d) =
    (if dirs s d = None then (good, s\<lparr>dirs := (dirs s)(d \<mapsto> None)\<rparr>) else refuse 183 s)"
| "volume_step s (RemoveDirectory d) = (good, s\<lparr>dirs := (dirs s)(d := None)\<rparr>)"
| "volume_step s (SetReparsePoint h r n) = (good, s\<lparr>dirs := (dirs s)(current s \<mapsto> Some r)\<rparr>)"
| "volume_step s (GetReparsePoint h) =
    (case dirs s (current s) of
       Some (Some r) \<Rightarrow> (good\<lparr>rdata := r\<rparr>, s)
     | _ \<Rightarrow> refuse ERROR_NOT_A_REPARSE_POINT s)"
| "volume_step s (DeleteReparsePoint h r) =
    (case dirs s (current s) of
       Some (Some r') \<Rightarrow>
         if ReparseTag r = ReparseTag r' then (good, s\<lparr>dirs := (dirs s)(current s \<mapsto> None)\<rparr>)
         else refuse ERROR_INVALID_REPARSE_DATA s
     | _ \<Rightarrow> refuse ERROR_NOT_A_REPARSE_POINT s)"
| "volume_step s GetLastError = (good\<lparr>err := last_error s\<rparr>, s)"
| "volume_step s (Message m as) = (good, s\<lparr>screen := screen s @ [(m, as)]\<rparr>)"
| "volume_step s _ = (good, s)"

definition junc_run :: "wide list \<Rightarrow> volume \<Rightarrow> int option \<times> volume" where
  "junc_run args s = interp volume_step s (junc_main args)"

definition fits :: "wide \<Rightarrow> bool" where
  "fits target \<longleftrightarrow> target \<noteq> [] \<and> 0 \<notin> set target \<and> 2 * size_of target + 4 \<le> DATA_SIZE"

lemma junction_data_fits:
  "fits target \<Longrightarrow> \<exists>d. junction_data target = Some d \<and> \<not> name_refused target"
  by (auto simp: fits_def junction_data_def name_refused_def Let_def size_of_def DATA_SIZE_def)

lemma junc_create_run:
  assumes "junction_data target = Some d" "\<not> name_refused target" "dir \<noteq> [45, 114]"
    and "case dirs s dir of None \<Rightarrow> True | Some x \<Rightarrow> x = None"
  shows "\<exists>s'. junc_run [dir, target] s = (Some 0, s') \<and> dirs s' = (dirs s)(dir \<mapsto> Some d) \<and> screen s' = screen s"
  using assms
  by (cases "dirs s dir")
    (auto simp: junc_run_def junc_main_def open_to_create_def junc_create_def open_failed_def good_def refuse_def)



text \<open>The length test lets targets through whose record does not fit.\<close>

lemma junc_overflow:
  assumes "length target = 20000"
  shows "\<not> name_refused target \<and> junc_create dir target h b = Crash"
  using assms by (simp add: junc_create_def name_refused_def junction_data_def size_of_def DATA_SIZE_def Let_def)

end
