(* ===== verification/Mmap.thy ===== *)
theory Mmap
  imports Prog
begin

text \<open>
  \<open>wmmap.c\<close> and \<open>wmsync.c\<close>: \<open>mmap\<close>, \<open>munmap\<close> and \<open>msync\<close> on the file mappings of the
  operating system. The bits of \<open>prot\<close> and \<open>flags\<close> come from a header outside the
  repository and are sets of names here.
\<close>

section \<open>Arguments and calls\<close>

datatype prot = PROT_READ | PROT_WRITE | PROT_EXEC

datatype map_flag =
    MAP_SHARED | MAP_PRIVATE | MAP_COPY | MAP_FIXED | MAP_NORESERVE
  | MAP_RENAME | MAP_INHERIT | MAP_NOEXTEND | MAP_HASSEMAPHORE

datatype sync_flag = MS_ASYNC | MS_INVALIDATE | MS_SYNC

datatype page_protection =
    NoProtection
  | PAGE_READONLY | PAGE_READWRITE | PAGE_WRITECOPY
  | PAGE_EXECUTE | PAGE_EXECUTE_READ | PAGE_EXECUTE_READWRITE | PAGE_EXECUTE_WRITECOPY

datatype section_access = SECTION_OTHER | SECTION_MAP_READ | SECTION_MAP_WRITE | SECTION_MAP_EXECUTE | FILE_MAP_COPY

datatype errno = ENOSYS | EBADF | EACCES | ENOMEM | EINVAL

datatype map_call =
    CreateFileMapping int page_protection bool
  | MapViewOfFileEx int "section_access list" "32 word" "32 word" nat int
  | UnmapViewOfFile int
  | FlushViewOfFile int nat
  | CloseHandle int
  | GetLastError
  | SetErrno errno

type_synonym mapper = "(map_call, reply) prog"

definition MAP_FAILED :: int where "MAP_FAILED = - 1"

definition ERROR_CALL_NOT_IMPLEMENTED :: int where "ERROR_CALL_NOT_IMPLEMENTED = 120"
definition ERROR_INVALID_HANDLE :: int where "ERROR_INVALID_HANDLE = 6"
definition ERROR_ACCESS_DENIED :: int where "ERROR_ACCESS_DENIED = 5"
definition ERROR_NOT_ENOUGH_MEMORY :: int where "ERROR_NOT_ENOUGH_MEMORY = 8"

definition map_error :: "int \<Rightarrow> errno" where
  "map_error e =
    (if e = ERROR_CALL_NOT_IMPLEMENTED then ENOSYS
     else if e = ERROR_INVALID_HANDLE then EBADF
     else if e = ERROR_ACCESS_DENIED then EACCES
     else if e = ERROR_NOT_ENOUGH_MEMORY then ENOMEM
     else EINVAL)"

text \<open>\<open>msync\<close> has no case for exhausted memory.\<close>

definition sync_error :: "int \<Rightarrow> errno" where
  "sync_error e =
    (if e = ERROR_CALL_NOT_IMPLEMENTED then ENOSYS
     else if e = ERROR_INVALID_HANDLE then EBADF
     else if e = ERROR_ACCESS_DENIED then EACCES
     else EINVAL)"

section \<open>Protection and access\<close>

text \<open>The assignments of the source in their order: a later one overwrites an earlier one.\<close>

definition copies :: "map_flag list \<Rightarrow> bool" where
  "copies flags \<longleftrightarrow> MAP_PRIVATE \<in> set flags \<or> MAP_COPY \<in> set flags"

definition page_protection_of :: "prot list \<Rightarrow> map_flag list \<Rightarrow> page_protection" where
  "page_protection_of prot flags =
    (if PROT_EXEC \<in> set prot then
       let p = PAGE_EXECUTE;
           p = (if PROT_READ \<in> set prot then PAGE_EXECUTE_READ else p);
           p = (if PROT_WRITE \<in> set prot then PAGE_EXECUTE_READWRITE else p)
       in (if copies flags then PAGE_EXECUTE_WRITECOPY else p)
     else
       let p = NoProtection;
           p = (if PROT_READ \<in> set prot then PAGE_READONLY else p);
           p = (if PROT_WRITE \<in> set prot then PAGE_READWRITE else p)
       in (if copies flags then PAGE_WRITECOPY else p))"

text \<open>\<open>SECTION_ALL_ACCESS\<close> less the rights whose \<open>PROT_\<close> bit is missing.\<close>

definition view_access :: "prot list \<Rightarrow> map_flag list \<Rightarrow> section_access list" where
  "view_access prot flags =
    (let a = [SECTION_OTHER, SECTION_MAP_READ, SECTION_MAP_WRITE, SECTION_MAP_EXECUTE];
         a = (if PROT_READ \<notin> set prot then removeAll SECTION_MAP_READ a else a);
         a = (if PROT_WRITE \<notin> set prot then removeAll SECTION_MAP_WRITE a else a);
         a = (if PROT_EXEC \<notin> set prot then removeAll SECTION_MAP_EXECUTE a else a)
     in if copies flags then a @ [FILE_MAP_COPY] else a)"

section \<open>The three functions\<close>

definition fail_errno :: "errno \<Rightarrow> int \<Rightarrow> mapper" where
  "fail_errno e n = Sys (SetErrno e) (\<lambda>_. Done n)"

definition mmap :: "int \<Rightarrow> nat \<Rightarrow> prot list \<Rightarrow> map_flag list \<Rightarrow> int \<Rightarrow> QWORD \<Rightarrow> mapper" where
  "mmap addr len prot flags fd off =
    (if MAP_RENAME \<in> set flags \<or> MAP_INHERIT \<in> set flags \<or> MAP_NOEXTEND \<in> set flags
        \<or> MAP_HASSEMAPHORE \<in> set flags
     then fail_errno ENOSYS MAP_FAILED
     else
       Sys (CreateFileMapping fd (page_protection_of prot flags) (MAP_NORESERVE \<in> set flags)) (\<lambda>m.
         if rv m = 0 then
           Sys GetLastError (\<lambda>e. fail_errno (map_error (err e)) MAP_FAILED)
         else
           Sys (MapViewOfFileEx (rv m) (view_access prot flags) (ucast (drop_bit 32 off)) (ucast off) len addr) (\<lambda>v.
             if rv v = 0 then
               Sys GetLastError (\<lambda>e.
               Sys (SetErrno (map_error (err e))) (\<lambda>_.
               Sys (CloseHandle (rv m)) (\<lambda>_. Done MAP_FAILED)))
             else
               Sys (CloseHandle (rv m)) (\<lambda>_.
                 if MAP_FIXED \<in> set flags \<and> rv v \<noteq> addr then
                   Sys (UnmapViewOfFile (rv v)) (\<lambda>_. fail_errno ENOMEM MAP_FAILED)
                 else Done (rv v)))))"

definition munmap :: "int \<Rightarrow> nat \<Rightarrow> mapper" where
  "munmap addr len =
    Sys (UnmapViewOfFile addr) (\<lambda>u.
      if rv u \<noteq> 0 then Done 0
      else Sys GetLastError (\<lambda>e. fail_errno (map_error (err e)) (- 1)))"

definition msync :: "int \<Rightarrow> nat \<Rightarrow> sync_flag list \<Rightarrow> mapper" where
  "msync addr len flags =
    (if MS_ASYNC \<in> set flags \<or> MS_INVALIDATE \<in> set flags then fail_errno ENOSYS (- 1)
     else
       Sys (FlushViewOfFile addr len) (\<lambda>f.
         if rv f \<noteq> 0 then Done 0
         else Sys GetLastError (\<lambda>e. fail_errno (sync_error (err e)) (- 1))))"

section \<open>The contract of the interface\<close>

text \<open>The section handle and the view are resources; a view is an address.\<close>

datatype resource = Section int | View int

fun acquires :: "map_call \<times> reply \<Rightarrow> resource option" where
  "acquires (CreateFileMapping f p r', r) = (if rv r = 0 then None else Some (Section (rv r)))"
| "acquires (MapViewOfFileEx h a hi lo n p, r) = (if rv r = 0 then None else Some (View (rv r)))"
| "acquires _ = None"

fun releases :: "map_call \<times> reply \<Rightarrow> resource option" where
  "releases (CloseHandle h, r) = Some (Section h)"
| "releases (UnmapViewOfFile v, r) = (if rv r = 0 then None else Some (View v))"
| "releases _ = None"

interpretation views: resources acquires releases
proof
  fix e
  show "acquires e \<noteq> None \<Longrightarrow> releases e = None"
    by (cases e rule: acquires.cases) simp_all
qed

text \<open>The errno that a trace sets last.\<close>

definition errno_of :: "(map_call \<times> reply) list \<Rightarrow> errno list" where
  "errno_of tr = List.map_filter (\<lambda>e. case fst e of SetErrno x \<Rightarrow> Some x | _ \<Rightarrow> None) tr"

text \<open>A view is never at the address that means failure, and unmapping a view succeeds.\<close>

definition mapping_law :: "map_call \<Rightarrow> reply \<Rightarrow> bool" where
  "mapping_law c r \<longleftrightarrow>
    (case c of
       MapViewOfFileEx h a hi lo n p \<Rightarrow> rv r \<noteq> MAP_FAILED
     | UnmapViewOfFile v \<Rightarrow> rv r \<noteq> 0
     | _ \<Rightarrow> True)"

text \<open>
  C39. \<open>mmap\<close> either fails, having set \<open>errno\<close> exactly once and keeping nothing, or
  returns the address of a view, sets no \<open>errno\<close> and keeps exactly that view; with
  \<open>MAP_FIXED\<close> the address is the one that was asked for.
\<close>

theorem mmap_contract:
  assumes "runs mapping_law (mmap addr len prot flags fd off) tr n"
  shows "if n = MAP_FAILED then length (errno_of tr) = 1 \<and> settle acquires releases {#} tr = Some {#}
    else errno_of tr = [] \<and> settle acquires releases {#} tr = Some {#View n#} \<and>
      (MAP_FIXED \<in> set flags \<longrightarrow> n = addr)"
proof -
  have "holds mapping_law (\<lambda>tr n.
      (n = MAP_FAILED \<longrightarrow> length (errno_of tr) = 1 \<and> balance acquires releases tr = Some {#}) \<and>
      (n \<noteq> MAP_FAILED \<longrightarrow> errno_of tr = [] \<and> balance acquires releases tr = Some {#View n#} \<and>
        (MAP_FIXED \<in> set flags \<longrightarrow> n = addr))) [] (mmap addr len prot flags fd off)"
    by (simp add: holds_Sys mmap_def fail_errno_def mapping_law_def errno_of_def map_filter_simps balance_start
        add_mset_commute)
  with assms show ?thesis by (auto simp: holds_iff_runs balance_def)
qed

definition answer :: "int \<Rightarrow> reply" where
  "answer i = ok\<lparr>rv := i\<rparr>"

theorem mmap_contract_witness:
  "settle acquires releases {#}
    [(CreateFileMapping 3 PAGE_READWRITE False, answer 8),
     (MapViewOfFileEx 8 [SECTION_OTHER, SECTION_MAP_WRITE] 1 0 4096 0, answer 65536), (CloseHandle 8, ok)]
    = Some {#View 65536#}"
proof -
  let ?tr = "[(CreateFileMapping 3 PAGE_READWRITE False, answer 8),
     (MapViewOfFileEx 8 [SECTION_OTHER, SECTION_MAP_WRITE] 1 0 4096 0, answer 65536), (CloseHandle 8, ok)]"
  have "runs mapping_law (mmap 0 4096 [PROT_WRITE] [MAP_SHARED] 3 0x100000000) ?tr 65536"
    by (simp add: runs_Sys mmap_def page_protection_of_def view_access_def copies_def answer_def mapping_law_def
        MAP_FAILED_def drop_bit_eq_div)
  from mmap_contract[OF this] show ?thesis by (simp add: MAP_FAILED_def)
qed

lemma munmap_contract:
  "holds anything (\<lambda>tr n. n \<in> {0, - 1} \<and> (n = 0 \<longleftrightarrow> errno_of tr = [])) [] (munmap addr len)"
  by (simp add: munmap_def fail_errno_def errno_of_def map_filter_simps)

lemma msync_contract:
  "holds anything (\<lambda>tr n. n \<in> {0, - 1} \<and> (n = 0 \<longleftrightarrow> errno_of tr = []) \<and>
      ((MS_ASYNC \<in> set flags \<or> MS_INVALIDATE \<in> set flags) \<longrightarrow> map fst tr = [SetErrno ENOSYS]))
    [] (msync addr len flags)"
  by (simp add: msync_def fail_errno_def errno_of_def map_filter_simps)

text \<open>A section that is created has a protection only if some right is asked for.\<close>

lemma page_protection_none:
  "page_protection_of prot flags = NoProtection \<longleftrightarrow> set prot = {} \<and> \<not> copies flags"
proof -
  have "set prot = {} \<longleftrightarrow> (\<forall>p. p \<notin> set prot)" by (metis all_not_in_conv)
  moreover have "(\<forall>p. p \<notin> set prot) \<longleftrightarrow> PROT_READ \<notin> set prot \<and> PROT_WRITE \<notin> set prot \<and> PROT_EXEC \<notin> set prot"
    by (metis prot.exhaust)
  ultimately show ?thesis by (simp add: page_protection_of_def Let_def)
qed

end
