(* ===== verification/Sockets.thy ===== *)
theory Sockets
  imports Prog
begin

text \<open>
  The network clients: \<open>finger.c\<close> (the Windows one and the one under \<open>posix\<close>), \<open>whois.c\<close>
  and \<open>gethost.c\<close>. The part from the address lookup to the closing of the socket is the
  same in the first three; the report of a socket error is a parameter, because they
  differ in it.
\<close>

section \<open>Calls\<close>

record sock_reply = reply +
  aliases :: "string list"
  addresses :: "int list"

datatype sock_call =
    WSAStartup nat
  | WSASetLastError int
  | WSAGetLastError
  | GetServByName string
  | Socket
  | GetHostName nat
  | InetAddr string
  | GetHostByName string
  | GetHostByAddr int
  | InetNtoa int
  | Connect int int int
  | Send int string
  | Recv int nat
  | CloseSocket int
  | CharToOem string
  | FormatMessage int
  | LoadLibrary string
  | GetProcAddress int string
  | SPerror string int
  | FreeLibrary int
  | LocalFree
  | OemPrintf string "arg list"
  | Printf string "arg list"
  | Eprintf string "arg list"
  | Perror string

type_synonym client = "(sock_call, sock_reply) prog"
type_synonym report = "string \<Rightarrow> client \<Rightarrow> client"

definition SOCKET_ERROR :: int where [simp]: "SOCKET_ERROR = - 1"
definition INVALID_SOCKET :: int where [simp]: "INVALID_SOCKET = - 1"
definition INADDR_NONE :: int where [simp]: "INADDR_NONE = - 1"
definition PACKET_SIZE :: nat where "PACKET_SIZE = 8192"

definition stdserver :: string where "stdserver = ''whois.internic.net''"

section \<open>Reports of socket errors\<close>

definition posix_report :: report where
  "posix_report msg k = Sys (Perror msg) (\<lambda>_. k)"

definition winsock_number :: "string \<Rightarrow> int \<Rightarrow> client \<Rightarrow> client" where
  "winsock_number msg e k =
    (if msg \<noteq> [] then Sys (Eprintf ''%s: Winsock error %u'' [S msg, I e]) (\<lambda>_. k)
     else Sys (Eprintf ''Winsock error %u'' [I e]) (\<lambda>_. k))"

text \<open>\<open>displayerrmsg\<close> of \<open>finger.c\<close>: the system text, else the library's printer, else the number.\<close>

definition finger_report :: report where
  "finger_report msg k =
    Sys WSAGetLastError (\<lambda>e.
    Sys (FormatMessage (rv e)) (\<lambda>m.
      if rv m = 0 then
        Sys (LoadLibrary ''MSWSOCK.DLL'') (\<lambda>l.
          if rv l \<noteq> 0 then
            Sys (GetProcAddress (rv l) ''s_perror'') (\<lambda>p.
              if rv p \<noteq> 0 then
                Sys (SPerror msg (rv e)) (\<lambda>_. Sys (FreeLibrary (rv l)) (\<lambda>_. k))
              else Sys (FreeLibrary (rv l)) (\<lambda>_. winsock_number msg (rv e) k))
          else winsock_number msg (rv e) k)
      else if msg \<noteq> [] then
        Sys (OemPrintf ''%1: %2'' [S msg, S (line m)]) (\<lambda>_. Sys LocalFree (\<lambda>_. k))
      else Sys (OemPrintf ''%1'' [S (line m)]) (\<lambda>_. Sys LocalFree (\<lambda>_. k))))"

definition whois_report :: report where
  "whois_report msg k =
    Sys WSAGetLastError (\<lambda>e.
      let rest =
        Sys (FormatMessage (rv e)) (\<lambda>m.
          if rv m \<noteq> 0 then
            Sys (CharToOem (line m)) (\<lambda>t.
            Sys (Eprintf ''%s'' [S (line t)]) (\<lambda>_. Sys LocalFree (\<lambda>_. k)))
          else Sys (Eprintf ''Winsock error %i'' [I (rv e)]) (\<lambda>_. k))
      in if msg \<noteq> [] then Sys (Eprintf ''%s: '' [S msg]) (\<lambda>_. rest) else rest)"

section \<open>One conversation\<close>

text \<open>
  The text of a packet ends at its first NUL. \<open>to_oem\<close> says whether the answer is
  converted before it is printed.
\<close>

definition c_text :: "string \<Rightarrow> string" where
  "c_text s = takeWhile (\<lambda>c. c \<noteq> CHR 0x00) s"

definition hang_up :: "int \<Rightarrow> client \<Rightarrow> client" where
  "hang_up sd k = Sys (CloseSocket sd) (\<lambda>_. k)"

fun recv_loop :: "string \<Rightarrow> report \<Rightarrow> bool \<Rightarrow> nat \<Rightarrow> int \<Rightarrow> client \<Rightarrow> client" where
  "recv_loop app report to_oem 0 sd k = OutOfFuel"
| "recv_loop app report to_oem (Suc fuel) sd k =
    Sys (Recv sd (PACKET_SIZE - 1)) (\<lambda>r.
      if rv r = 0 then hang_up sd k
      else if rv r = SOCKET_ERROR then
        Sys (Printf ''%s'' [S []]) (\<lambda>_. report (app @ '': recv'') (hang_up sd k))
      else if to_oem then
        Sys (CharToOem (c_text (line r))) (\<lambda>t.
        Sys (Printf ''%s'' [S (line t)]) (\<lambda>_. recv_loop app report to_oem fuel sd k))
      else
        Sys (Printf ''%s'' [S (c_text (line r))]) (\<lambda>_. recv_loop app report to_oem fuel sd k))"

definition talk :: "string \<Rightarrow> report \<Rightarrow> bool \<Rightarrow> nat \<Rightarrow> int \<Rightarrow> int \<Rightarrow> string \<Rightarrow> string \<Rightarrow> int \<Rightarrow> client \<Rightarrow> client" where
  "talk app report to_oem fuel port sd packet hname haddr k =
    Sys (Printf ''[%s]'' [S hname]) (\<lambda>_.
    Sys (Connect sd haddr port) (\<lambda>c.
      if rv c = SOCKET_ERROR then report (app @ '': connect'') (hang_up sd k)
      else Sys (Send sd packet) (\<lambda>s.
        if rv s \<noteq> int (length packet) then report (app @ '': send'') (hang_up sd k)
        else recv_loop app report to_oem fuel sd k)))"

definition converse :: "string \<Rightarrow> report \<Rightarrow> bool \<Rightarrow> nat \<Rightarrow> int \<Rightarrow> int \<Rightarrow> string \<Rightarrow> string \<Rightarrow> client \<Rightarrow> client" where
  "converse app report to_oem fuel port sd packet hname k =
    Sys (InetAddr hname) (\<lambda>a.
      if rv a = INADDR_NONE then
        Sys (GetHostByName hname) (\<lambda>h.
          if rv h = 0 then
            Sys (Eprintf (app @ '': Host %s not found.'') [S hname]) (\<lambda>_. hang_up sd k)
          else talk app report to_oem fuel port sd packet (line h) (num h) k)
      else talk app report to_oem fuel port sd packet hname (rv a) k)"

text \<open>A request: what the buffer holds of the argument, and a line end.\<close>

definition request :: "string \<Rightarrow> string" where
  "request query = take (PACKET_SIZE - 2) query @ [CHR 0x0A]"

section \<open>\<open>finger\<close>\<close>

text \<open>
  \<open>user@host\<close> splits at the first \<open>@\<close>; without a host (or with an empty one, whose \<open>@\<close>
  is cut off) the local host is asked. Without arguments one NUL byte is sent.
\<close>

definition user_part :: "string \<Rightarrow> string" where
  "user_part a = takeWhile (\<lambda>c. c \<noteq> CHR ''@'') a"

definition host_part :: "string \<Rightarrow> string" where
  "host_part a = tl (dropWhile (\<lambda>c. c \<noteq> CHR ''@'') a)"

definition finger_packet :: "string list \<Rightarrow> string" where
  "finger_packet args = (case args of [] \<Rightarrow> [CHR 0x00] | a # _ \<Rightarrow> request (user_part a))"

definition finger_turn :: "report \<Rightarrow> nat \<Rightarrow> int \<Rightarrow> string list \<Rightarrow> client \<Rightarrow> client" where
  "finger_turn report fuel port args k =
    Sys Socket (\<lambda>s.
      if rv s = INVALID_SOCKET then report ''finger: socket'' (Done (- 1))
      else if args \<noteq> [] \<and> host_part (hd args) \<noteq> [] then
        converse ''finger'' report False fuel port (rv s) (finger_packet args) (host_part (hd args)) k
      else
        Sys (GetHostName 159) (\<lambda>n.
          if rv n \<noteq> 0 then
            report ''finger: Can't resolve local host name'' (hang_up (rv s) k)
          else
            converse ''finger'' report False fuel port (rv s) (finger_packet args) (line n) k))"

fun finger_loop :: "report \<Rightarrow> nat \<Rightarrow> int \<Rightarrow> string list \<Rightarrow> client" where
  "finger_loop report fuel port [] = finger_turn report fuel port [] (Done 0)"
| "finger_loop report fuel port [a] = finger_turn report fuel port [a] (Done 0)"
| "finger_loop report fuel port (a # b # args) =
    finger_turn report fuel port (a # b # args) (finger_loop report fuel port (b # args))"

definition finger_body :: "report \<Rightarrow> nat \<Rightarrow> string \<Rightarrow> string list \<Rightarrow> client" where
  "finger_body report fuel appname args =
    Sys (GetServByName ''finger'') (\<lambda>v.
      if rv v = 0 then report ''finger: Can't resolve service name'' (Done (- 1))
      else if args \<noteq> [] \<and> hd args \<noteq> [] \<and> is_switch (hd (hd args)) then
        Sys (Printf ''usage'' [S appname]) (\<lambda>_. Done (- 1))
      else finger_loop report fuel (num v) args)"

definition posix_finger_main :: "nat \<Rightarrow> string \<Rightarrow> string list \<Rightarrow> client" where
  "posix_finger_main fuel appname args = finger_body posix_report fuel appname args"

definition finger_main :: "nat \<Rightarrow> string \<Rightarrow> string list \<Rightarrow> client" where
  "finger_main fuel appname args =
    Sys (WSAStartup 2) (\<lambda>w.
      if rv w \<noteq> 0 then
        Sys (WSASetLastError (rv w)) (\<lambda>_. finger_report ''whois: WSAStartup'' (Done (- 1)))
      else finger_body finger_report fuel appname args)"

section \<open>\<open>whois\<close>\<close>

definition whois_turn :: "nat \<Rightarrow> int \<Rightarrow> string \<Rightarrow> string \<Rightarrow> client \<Rightarrow> client" where
  "whois_turn fuel port hname query k =
    Sys Socket (\<lambda>s.
      if rv s = INVALID_SOCKET then whois_report ''whois: socket'' (Done (- 1))
      else converse ''whois'' whois_report True fuel port (rv s) (request query) hname k)"

text \<open>With \<open>-h\<close> the arguments are pairs of a server and a domain; a server left over ends the loop.\<close>

fun whois_loop :: "nat \<Rightarrow> int \<Rightarrow> bool \<Rightarrow> string list \<Rightarrow> client" where
  "whois_loop fuel port False [] = Done 0"
| "whois_loop fuel port False (d # args) =
    whois_turn fuel port stdserver d (if args = [] then Done 0 else whois_loop fuel port False args)"
| "whois_loop fuel port True (h # d # args) =
    whois_turn fuel port h d (if args = [] then Done 0 else whois_loop fuel port True args)"
| "whois_loop fuel port True _ = Done 0"

definition whois_main :: "nat \<Rightarrow> string \<Rightarrow> string list \<Rightarrow> client" where
  "whois_main fuel appname args =
    Sys (WSAStartup 2) (\<lambda>w.
      if rv w \<noteq> 0 then
        Sys (WSASetLastError (rv w)) (\<lambda>_. whois_report ''whois: WSAStartup'' (Done (- 1)))
      else Sys (GetServByName ''whois'') (\<lambda>v.
        if rv v = 0 then whois_report ''whois: Can't resolve service name'' (Done (- 1))
        else if length args > 2 \<and> hd args = ''-h'' then whois_loop fuel (num v) True (tl args)
        else if args = [] then Sys (Printf ''usage'' [S appname]) (\<lambda>_. Done (- 1))
        else whois_loop fuel (num v) False args))"

section \<open>\<open>gethost\<close>\<close>

primrec print_each :: "string \<Rightarrow> string list \<Rightarrow> client \<Rightarrow> client" where
  "print_each fmt [] k = k"
| "print_each fmt (s # ss) k = Sys (Printf fmt [S s]) (\<lambda>_. print_each fmt ss k)"

primrec print_addresses :: "int list \<Rightarrow> client \<Rightarrow> client" where
  "print_addresses [] k = k"
| "print_addresses (a # as) k =
    Sys (InetNtoa a) (\<lambda>t. Sys (Printf ''%s'' [S (line t)]) (\<lambda>_. print_addresses as k))"

definition host_found :: "sock_reply \<Rightarrow> client" where
  "host_found hent =
    (if rv hent = 0 then Sys (Eprintf ''Host name lookup failed.'' []) (\<lambda>_. Done (- 1))
     else
       Sys (Printf ''Host: %s'' [S (line hent)]) (\<lambda>_.
       print_each ''Alias: %s'' (aliases hent)
         (Sys (Printf ''IP: '' []) (\<lambda>_.
          print_addresses (addresses hent) (Sys (Printf ''%s'' [S []]) (\<lambda>_. Done 0))))))"

definition look_up_host :: "string \<Rightarrow> client" where
  "look_up_host hname =
    Sys (InetAddr hname) (\<lambda>a.
      if rv a = INADDR_NONE then Sys (GetHostByName hname) host_found
      else Sys (GetHostByAddr (rv a)) host_found)"

definition gethost_main :: "string list \<Rightarrow> client" where
  "gethost_main args =
    Sys (WSAStartup 257) (\<lambda>w.
      if rv w \<noteq> 0 then Sys (Eprintf ''Winsock initalization error.'' []) (\<lambda>_. Done (- 1))
      else
        (case args of
           a # _ \<Rightarrow>
             if a \<noteq> [] \<and> is_switch (hd a) then Sys (Printf ''usage'' []) (\<lambda>_. Done 0)
             else look_up_host a
         | [] \<Rightarrow>
             Sys (GetHostName 259) (\<lambda>n.
               if rv n \<noteq> 0 then Sys (Eprintf ''Error getting local host name'' []) (\<lambda>_. Done 0)
               else look_up_host (line n))))"

section \<open>Sockets are closed\<close>

fun socket_open :: "sock_call \<times> sock_reply \<Rightarrow> int option" where
  "socket_open (Socket, r) = (if rv r = INVALID_SOCKET then None else Some (rv r))"
| "socket_open _ = None"

fun socket_close :: "sock_call \<times> sock_reply \<Rightarrow> int option" where
  "socket_close (CloseSocket s, r) = Some s"
| "socket_close _ = None"

interpretation sockets: resources socket_open socket_close
proof
  fix e
  show "socket_open e \<noteq> None \<Longrightarrow> socket_close e = None"
    by (cases e rule: socket_open.cases) simp_all
qed

abbreviation held :: "(sock_call \<times> sock_reply) list \<Rightarrow> int multiset option" where
  "held tr \<equiv> balance socket_open socket_close tr"

text \<open>What every packet that is sent looks like: it fits the buffer with its terminator.\<close>

definition packets_fit :: "(sock_call \<times> sock_reply) list \<Rightarrow> bool" where
  "packets_fit tr \<longleftrightarrow> (\<forall>e \<in> set tr. \<forall>s p. fst e = Send s p \<longrightarrow> length p < PACKET_SIZE)"

definition proper_run :: "(sock_call \<times> sock_reply) list \<Rightarrow> int multiset \<Rightarrow> bool" where
  "proper_run tr M \<longleftrightarrow> held tr = Some M \<and> packets_fit tr"

definition ends_well :: "(sock_call \<times> sock_reply) list \<Rightarrow> int \<Rightarrow> bool" where
  "ends_well tr n \<longleftrightarrow> proper_run tr {#} \<and> n \<in> {0, - 1}"

lemma proper_start [simp]: "proper_run [] {#}"
  by (simp add: proper_run_def packets_fit_def balance_start)

lemma proper_snoc:
  "proper_run tr M \<Longrightarrow> socket_open (c, r) = None \<Longrightarrow> socket_close (c, r) = None \<Longrightarrow>
    (\<forall>s p. c = Send s p \<longrightarrow> length p < PACKET_SIZE) \<Longrightarrow> proper_run (tr @ [(c, r)]) M"
  by (auto simp: proper_run_def packets_fit_def sockets.balance_append)

lemma proper_open: "proper_run tr {#} \<Longrightarrow> rv r \<noteq> INVALID_SOCKET \<Longrightarrow> proper_run (tr @ [(Socket, r)]) {#rv r#}"
  by (auto simp: proper_run_def packets_fit_def sockets.balance_append)

lemma proper_close: "proper_run tr {#s#} \<Longrightarrow> proper_run (tr @ [(CloseSocket s, r)]) {#}"
  by (auto simp: proper_run_def packets_fit_def sockets.balance_append)

text \<open>\<open>carries p k\<close>: a piece of program in front of \<open>k\<close> keeps sockets and packets as they are.\<close>

definition carries :: "(client \<Rightarrow> client) \<Rightarrow> bool" where
  "carries f \<longleftrightarrow> (\<forall>h M k Q. proper_run h M \<longrightarrow>
    (\<forall>h'. proper_run h' M \<longrightarrow> holds anything Q h' k) \<longrightarrow> holds anything Q h (f k))"

lemma carriesD:
  "carries f \<Longrightarrow> proper_run h M \<Longrightarrow> (\<And>h'. proper_run h' M \<Longrightarrow> holds anything Q h' k) \<Longrightarrow>
    holds anything Q h (f k)"
  by (auto simp: carries_def)

text \<open>
  The interface between a client and its report: reporting an error leaves sockets alone,
  sends nothing and goes on.
\<close>

locale reporter =
  fixes report :: report
  assumes reports: "carries (report msg)"
begin

lemma hang_up_well:
  "proper_run h {#sd#} \<Longrightarrow> (\<And>h'. proper_run h' {#} \<Longrightarrow> holds anything Q h' k) \<Longrightarrow>
    holds anything Q h (hang_up sd k)"
  by (simp add: hang_up_def proper_close)

lemma recv_loop_well:
  "proper_run h {#sd#} \<Longrightarrow> (\<And>h'. proper_run h' {#} \<Longrightarrow> holds anything Q h' k) \<Longrightarrow>
    holds anything Q h (recv_loop app report to_oem fuel sd k)"
proof (induction fuel arbitrary: h)
  case (Suc fuel)
  have r: "proper_run (h @ [(Recv sd (PACKET_SIZE - 1), r)]) {#sd#}" for r
    using Suc.prems(1) by (rule proper_snoc) simp_all
  have p: "proper_run h' {#sd#} \<Longrightarrow> proper_run (h' @ [(Printf f as, r)]) {#sd#}"
    "proper_run h' {#sd#} \<Longrightarrow> proper_run (h' @ [(CharToOem t, r)]) {#sd#}" for h' f as t r
    by (rule proper_snoc; simp)+
  have up: "proper_run h' {#sd#} \<Longrightarrow> holds anything Q h' (hang_up sd k)" for h'
    by (rule hang_up_well[OF _ Suc.prems(2)])
  have rep: "proper_run h' {#sd#} \<Longrightarrow> holds anything Q h' (report m (hang_up sd k))" for h' m
    using carriesD[OF reports] up by blast
  have go: "proper_run h' {#sd#} \<Longrightarrow> holds anything Q h' (recv_loop app report to_oem fuel sd k)" for h'
    using Suc.IH Suc.prems(2) by blast
  show ?case
    using up[OF r] rep[OF p(1)[OF r]] go[OF p(1)[OF r]] go[OF p(1)[OF p(2)[OF r]]]
    by (cases to_oem) (simp_all del: append_assoc)
qed simp

lemma talk_well:
  assumes "proper_run h {#sd#}" "length packet < PACKET_SIZE"
    and k: "\<And>h'. proper_run h' {#} \<Longrightarrow> holds anything Q h' k"
  shows "holds anything Q h (talk app report to_oem fuel port sd packet hname haddr k)"
proof -
  have up: "proper_run h' {#sd#} \<Longrightarrow> holds anything Q h' (hang_up sd k)" for h'
    by (rule hang_up_well[OF _ k])
  have rep: "proper_run h' {#sd#} \<Longrightarrow> holds anything Q h' (report m (hang_up sd k))" for h' m
    using carriesD[OF reports] up by blast
  have go: "proper_run h' {#sd#} \<Longrightarrow> holds anything Q h' (recv_loop app report to_oem fuel sd k)" for h'
    by (rule recv_loop_well[OF _ k])
  have p: "proper_run (h @ [(Printf f as, r)]) {#sd#}" for f as r
    using assms(1) by (rule proper_snoc) simp_all
  have c: "proper_run ((h @ [(Printf f as, r)]) @ [(Connect sd a po, r')]) {#sd#}" for f as r a po r'
    using p by (rule proper_snoc) simp_all
  have s: "proper_run (((h @ [(Printf f as, r)]) @ [(Connect sd a po, r')]) @ [(Send sd packet, r'')]) {#sd#}"
    for f as r a po r' r''
    using c by (rule proper_snoc) (simp_all add: assms(2))
  show ?thesis using rep[OF c] rep[OF s] go[OF s] by (simp add: talk_def del: append_assoc)
qed

lemma converse_well:
  assumes "proper_run h {#sd#}" "length packet < PACKET_SIZE"
    and k: "\<And>h'. proper_run h' {#} \<Longrightarrow> holds anything Q h' k"
  shows "holds anything Q h (converse app report to_oem fuel port sd packet hname k)"
proof -
  have t: "proper_run h' {#sd#} \<Longrightarrow>
      holds anything Q h' (talk app report to_oem fuel port sd packet hname' haddr k)" for h' hname' haddr
    by (rule talk_well[OF _ assms(2) k])
  have up: "proper_run h' {#sd#} \<Longrightarrow> holds anything Q h' (hang_up sd k)" for h'
    by (rule hang_up_well[OF _ k])
  have a: "proper_run (h @ [(InetAddr n, r)]) {#sd#}" for n r
    using assms(1) by (rule proper_snoc) simp_all
  have b: "proper_run ((h @ [(InetAddr n, r)]) @ [(GetHostByName m, r')]) {#sd#}" for n r m r'
    using a by (rule proper_snoc) simp_all
  have e: "proper_run (((h @ [(InetAddr n, r)]) @ [(GetHostByName m, r')]) @ [(Eprintf f as, r'')]) {#sd#}"
    for n r m r' f as r''
    using b by (rule proper_snoc) simp_all
  show ?thesis using t[OF a] t[OF b] up[OF e] by (simp add: converse_def del: append_assoc)
qed

end

lemma carries_Sys:
  "(\<And>r. carries (\<lambda>k. f r k)) \<Longrightarrow> (\<And>r. socket_open (c, r) = None) \<Longrightarrow> (\<And>r. socket_close (c, r) = None) \<Longrightarrow>
    (\<forall>s p. c \<noteq> Send s p) \<Longrightarrow> carries (\<lambda>k. Sys c (\<lambda>r. f r k))"
  unfolding carries_def
proof (intro allI impI)
  fix h M k Q
  assume f: "\<And>r. \<forall>h M k Q. proper_run h M \<longrightarrow>
      (\<forall>h'. proper_run h' M \<longrightarrow> holds anything Q h' k) \<longrightarrow> holds anything Q h (f r k)"
    and c: "\<And>r. socket_open (c, r) = None" "\<And>r. socket_close (c, r) = None" "\<forall>s p. c \<noteq> Send s p"
    and h: "proper_run h M" and k: "\<forall>h'. proper_run h' M \<longrightarrow> holds anything Q h' k"
  have "proper_run (h @ [(c, r)]) M" for r using h c by (intro proper_snoc) auto
  with f k show "holds anything Q h (Sys c (\<lambda>r. f r k))" unfolding holds_anything by blast
qed

lemma carries_id: "carries (\<lambda>k. k)"
  by (auto simp: carries_def)

lemma carries_if: "carries f \<Longrightarrow> carries g \<Longrightarrow> carries (\<lambda>k. if b then f k else g k)"
  by (cases b) simp_all

lemmas carries_intros = carries_Sys carries_id carries_if

interpretation posix: reporter posix_report
  by unfold_locales (auto simp: posix_report_def[abs_def] intro!: carries_intros)

interpretation finger: reporter finger_report
  by unfold_locales (auto simp: finger_report_def[abs_def] winsock_number_def[abs_def] intro!: carries_intros)

interpretation whois: reporter whois_report
  by unfold_locales (auto simp: whois_report_def[abs_def] Let_def intro!: carries_intros)

section \<open>The clients\<close>

lemma request_fits: "length (request q) < PACKET_SIZE"
  by (simp add: request_def PACKET_SIZE_def)

lemma finger_packet_fits: "length (finger_packet args) < PACKET_SIZE"
  by (cases args) (simp_all add: finger_packet_def request_fits, simp add: PACKET_SIZE_def)

lemma stop_well: "proper_run h {#} \<Longrightarrow> n \<in> {0, - 1} \<Longrightarrow> holds anything ends_well h (Done n)"
  by (simp add: ends_well_def)

context reporter
begin

lemma report_stop_well: "proper_run h {#} \<Longrightarrow> holds anything ends_well h (report m (Done (- 1)))"
  using carriesD[OF reports, where h = h and M = "{#}" and k = "Done (- 1)" and Q = ends_well] by (simp add: ends_well_def)

lemma finger_turn_well:
  assumes "proper_run h {#}" and k: "\<And>h'. proper_run h' {#} \<Longrightarrow> holds anything ends_well h' k"
  shows "holds anything ends_well h (finger_turn report fuel port args k)"
proof -
  have s: "rv r \<noteq> INVALID_SOCKET \<Longrightarrow> proper_run (h @ [(Socket, r)]) {#rv r#}" for r
    using proper_open[OF assms(1)] by simp
  have f: "rv r = INVALID_SOCKET \<Longrightarrow> proper_run (h @ [(Socket, r)]) {#}" for r
    by (rule proper_snoc[OF assms(1)]) simp_all
  have n: "rv r \<noteq> INVALID_SOCKET \<Longrightarrow> proper_run ((h @ [(Socket, r)]) @ [(GetHostName 159, r')]) {#rv r#}" for r r'
    by (rule proper_snoc[OF s]) simp_all
  have c: "proper_run h' {#sd#} \<Longrightarrow>
      holds anything ends_well h' (converse app report b fuel port sd (finger_packet args) name k)" for h' sd app b name
    by (rule converse_well[OF _ finger_packet_fits k])
  have u: "proper_run h' {#sd#} \<Longrightarrow> holds anything ends_well h' (report m (hang_up sd k))" for h' sd m
    using carriesD[OF reports] hang_up_well[OF _ k] by blast
  show ?thesis
    using report_stop_well[OF f] c[OF s] c[OF n] u[OF n]
    by (cases args) (simp_all add: finger_turn_def holds_anything del: append_assoc holds.simps(1))
qed

lemma finger_loop_well: "proper_run h {#} \<Longrightarrow> holds anything ends_well h (finger_loop report fuel port args)"
proof (induction args arbitrary: h)
  case Nil
  then show ?case by (simp add: finger_turn_well stop_well del: holds.simps(1))
next
  case (Cons a args)
  then show ?case by (cases args) (simp_all add: finger_turn_well stop_well del: holds.simps(1))
qed

lemma finger_body_well: "proper_run h {#} \<Longrightarrow> holds anything ends_well h (finger_body report fuel app args)"
proof -
  assume h: "proper_run h {#}"
  have v: "proper_run (h @ [(GetServByName n, r)]) {#}" for n r by (rule proper_snoc[OF h]) simp_all
  have u: "proper_run ((h @ [(GetServByName n, r)]) @ [(Printf f as, r')]) {#}" for n r f as r'
    by (rule proper_snoc[OF v]) simp_all
  show ?thesis using report_stop_well[OF v] stop_well[OF u] finger_loop_well[OF v]
    by (simp add: finger_body_def holds_anything del: append_assoc holds.simps(1))
qed

end

text \<open>
  C36. \<open>finger\<close> under \<open>posix\<close>, with any arguments and whatever the network does: every
  socket that was opened is closed exactly once, no packet is larger than the buffer
  allows, and the status is \<open>0\<close> or \<open>-1\<close>.
\<close>

theorem finger_closes:
  assumes "runs anything (posix_finger_main fuel app args) tr n"
  shows "clean socket_open socket_close tr \<and> packets_fit tr \<and> n \<in> {0, - 1}"
  using posix.finger_body_well[OF proper_start, of fuel app args] assms
  by (auto simp: posix_finger_main_def holds_iff_runs ends_well_def proper_run_def clean_balance)

definition num_reply :: "int \<Rightarrow> sock_reply" where
  "num_reply i = \<lparr>rv = i, out = [], line = [], num = i, err = 0, aliases = [], addresses = []\<rparr>"

theorem finger_closes_witness:
  "clean socket_open socket_close
    [(GetServByName ''finger'', num_reply 79), (Socket, num_reply 3), (InetAddr ''h'', num_reply 1),
     (Printf ''[%s]'' [S ''h''], num_reply 0), (Connect 3 1 79, num_reply 0),
     (Send 3 [CHR ''u'', CHR 0x0A], num_reply 2), (Recv 3 8191, num_reply 0), (CloseSocket 3, num_reply 0)]"
proof -
  let ?tr = "[(GetServByName ''finger'', num_reply 79), (Socket, num_reply 3), (InetAddr ''h'', num_reply 1),
     (Printf ''[%s]'' [S ''h''], num_reply 0), (Connect 3 1 79, num_reply 0),
     (Send 3 [CHR ''u'', CHR 0x0A], num_reply 2), (Recv 3 8191, num_reply 0), (CloseSocket 3, num_reply 0)]"
  have "runs anything (posix_finger_main 1 ''finger'' [''u@h'']) ?tr 0"
    by (simp add: posix_finger_main_def finger_body_def finger_turn_def converse_def talk_def hang_up_def
        num_reply_def finger_packet_def request_def user_part_def host_part_def is_switch_iff PACKET_SIZE_def)
  from finger_closes[OF this] show ?thesis by blast
qed

lemma finger_main_well:
  "holds anything ends_well [] (finger_main fuel app args)"
proof -
  have w: "proper_run ([] @ [(WSAStartup 2, r)]) {#}" for r by (rule proper_snoc[OF proper_start]) simp_all
  have e: "proper_run (([] @ [(WSAStartup 2, r)]) @ [(WSASetLastError i, r')]) {#}" for r i r'
    by (rule proper_snoc[OF w]) simp_all
  show ?thesis using finger.report_stop_well[OF e] finger.finger_body_well[OF w]
    by (simp add: finger_main_def holds_anything del: holds.simps(1))
qed

lemma whois_turn_well:
  assumes "proper_run h {#}" and k: "\<And>h'. proper_run h' {#} \<Longrightarrow> holds anything ends_well h' k"
  shows "holds anything ends_well h (whois_turn fuel port hname query k)"
proof -
  have s: "rv r \<noteq> INVALID_SOCKET \<Longrightarrow> proper_run (h @ [(Socket, r)]) {#rv r#}" for r
    using proper_open[OF assms(1)] by simp
  have f: "rv r = INVALID_SOCKET \<Longrightarrow> proper_run (h @ [(Socket, r)]) {#}" for r
    by (rule proper_snoc[OF assms(1)]) simp_all
  show ?thesis
    using whois.report_stop_well[OF f] whois.converse_well[OF s request_fits k]
    by (simp add: whois_turn_def holds_anything del: append_assoc holds.simps(1))
qed

lemma whois_loop_well: "proper_run h {#} \<Longrightarrow> holds anything ends_well h (whois_loop fuel port b args)"
  by (induction fuel port b args arbitrary: h rule: whois_loop.induct)
    (simp_all add: whois_turn_well stop_well del: holds.simps(1))

lemma whois_main_well: "holds anything ends_well [] (whois_main fuel app args)"
proof -
  have w: "proper_run ([] @ [(WSAStartup 2, r)]) {#}" for r by (rule proper_snoc[OF proper_start]) simp_all
  have e: "proper_run (([] @ [(WSAStartup 2, r)]) @ [(WSASetLastError i, r')]) {#}" for r i r'
    by (rule proper_snoc[OF w]) simp_all
  have g: "proper_run (([] @ [(WSAStartup 2, r)]) @ [(GetServByName n, r')]) {#}" for r n r'
    by (rule proper_snoc[OF w]) simp_all
  have u: "proper_run ((([] @ [(WSAStartup 2, r)]) @ [(GetServByName n, r')]) @ [(Printf f as, r'')]) {#}"
    for r n r' f as r''
    by (rule proper_snoc[OF g]) simp_all
  show ?thesis using whois.report_stop_well[OF e] whois.report_stop_well[OF g] whois_loop_well[OF g] stop_well[OF u]
    by (simp add: whois_main_def holds_anything del: holds.simps(1))
qed

end
