(* ===== verification/Games.thy ===== *)
theory Games
  imports CLib Prog
begin

text \<open>
  Three programs around random numbers: the guessing game \<open>gissatal.c\<close> as a state
  machine, the lottery row of \<open>lotto.c\<close> and the pronounceable passwords of \<open>genpwds.c\<close>.
\<close>

section \<open>\<open>gissatal.c\<close>\<close>

record game =
  HighestGuessedValue :: int
  LowestGuessedValue :: int
  Try :: int
  Value :: int

datatype verdict = OutOfRange | Right | ToldHigh | ToldLow | High | Low

text \<open>The chain of tests after a guess; \<open>Right\<close> leaves the loop.\<close>

definition judge :: "game \<Rightarrow> int \<Rightarrow> verdict \<times> game" where
  "judge g Guessed =
    (if Guessed < 1 \<or> Guessed > 99 then (OutOfRange, g)
     else if Guessed = Value g then (Right, g)
     else if Guessed \<ge> HighestGuessedValue g then (ToldHigh, g)
     else if Guessed \<le> LowestGuessedValue g then (ToldLow, g)
     else if Guessed > Value g then (High, g\<lparr>HighestGuessedValue := Guessed\<rparr>)
     else (Low, g\<lparr>LowestGuessedValue := Guessed\<rparr>))"

definition new_game :: "int \<Rightarrow> game" where
  "new_game r = \<lparr>HighestGuessedValue = 99, LowestGuessedValue = 1, Try = 0, Value = r mod 99 + 1\<rparr>"

definition count_try :: "game \<Rightarrow> game" where
  "count_try g = g\<lparr>Try := Try g + 1\<rparr>"

text \<open>One turn as a step of the machine, and the games that can be reached from a draw.\<close>

inductive turn :: "game \<Rightarrow> int \<Rightarrow> verdict \<Rightarrow> game \<Rightarrow> bool" where
  turnI: "judge (count_try g) x = (v, g') \<Longrightarrow> turn g x v g'"

inductive reachable :: "int \<Rightarrow> game \<Rightarrow> bool" for r where
  reach_start: "reachable r (new_game r)"
| reach_turn: "reachable r g \<Longrightarrow> turn g x v g' \<Longrightarrow> v \<noteq> Right \<Longrightarrow> reachable r g'"

inductive_cases turnE: "turn g x v g'"
inductive_simps turn_iff: "turn g x v g'"

definition consistent :: "game \<Rightarrow> bool" where
  "consistent g \<longleftrightarrow> 1 \<le> LowestGuessedValue g \<and> LowestGuessedValue g \<le> Value g \<and>
    Value g \<le> HighestGuessedValue g \<and> HighestGuessedValue g \<le> 99 \<and> 0 \<le> Try g"

lemma consistent_new: "0 \<le> r \<Longrightarrow> consistent (new_game r)"
  using pos_mod_bound[of 99 r] by (simp add: consistent_def new_game_def)

lemma consistent_turn: "consistent g \<Longrightarrow> turn g x v g' \<Longrightarrow> consistent g' \<and> Value g' = Value g"
  by (auto simp: turn_iff judge_def count_try_def consistent_def split: if_splits)

lemma reachable_consistent: "reachable r g \<Longrightarrow> 0 \<le> r \<Longrightarrow> consistent g \<and> Value g = r mod 99 + 1"
proof (induction rule: reachable.induct)
  case reach_start
  then show ?case using consistent_new[of r] by (simp add: new_game_def)
next
  case (reach_turn g x v g')
  then show ?case using consistent_turn[of g x v g'] by auto
qed

text \<open>The truth about a guess.\<close>

definition truthful :: "int \<Rightarrow> int \<Rightarrow> verdict \<Rightarrow> bool" where
  "truthful n x v \<longleftrightarrow>
    (case v of
       OutOfRange \<Rightarrow> x < 1 \<or> 99 < x
     | Right \<Rightarrow> x = n
     | ToldHigh \<Rightarrow> n < x
     | High \<Rightarrow> n < x
     | ToldLow \<Rightarrow> x < n
     | Low \<Rightarrow> x < n)"

text \<open>
  In every game that can be reached, whatever was guessed before, the answer to the
  next guess is true of the hidden number; in particular the two replies that blame the
  player for a repeated mistake are never given to the right number.
\<close>

theorem gissatal_truthful:
  assumes "reachable r g" "0 \<le> r" "turn g x v g'"
  shows "truthful (r mod 99 + 1) x v \<and> consistent g'"
proof -
  have c: "consistent g" "Value g = r mod 99 + 1" using reachable_consistent[OF assms(1,2)] by auto
  moreover have "consistent g'" using consistent_turn[OF c(1) assms(3)] by simp
  ultimately show ?thesis using assms(3)
    by (auto simp: turn_iff judge_def count_try_def consistent_def truthful_def split: if_splits)
qed

theorem gissatal_truthful_witness:
  "truthful 43 50 High \<and> consistent (count_try (new_game 42)\<lparr>HighestGuessedValue := 50\<rparr>)"
proof -
  have r: "reachable 42 (new_game 42)" by (rule reach_start)
  have t: "turn (new_game 42) 50 High (count_try (new_game 42)\<lparr>HighestGuessedValue := 50\<rparr>)"
    by (simp add: turn_iff judge_def count_try_def new_game_def)
  from gissatal_truthful[OF r _ t] show ?thesis by simp
qed

text \<open>The program around the machine. A failing \<open>scanf\<close> leaves the last guess in place.\<close>

datatype game_call =
    Srand
  | Rand
  | Scanf
  | Puts string
  | Printf string "int list"
  | Putchar char
  | Fgetc

type_synonym random_prog = "(game_call, reply) prog"

fun verdict_text :: "verdict \<Rightarrow> string" where
  "verdict_text OutOfRange = ''mellan 1 och 99''"
| "verdict_text Right = ''ratt''"
| "verdict_text ToldHigh = ''har sagt for hogt''"
| "verdict_text ToldLow = ''har sagt for lagt''"
| "verdict_text High = ''for hogt''"
| "verdict_text Low = ''for lagt''"

fun gissatal_loop :: "nat \<Rightarrow> game \<Rightarrow> int option \<Rightarrow> random_prog" where
  "gissatal_loop 0 g guess = OutOfFuel"
| "gissatal_loop (Suc fuel) g guess =
    (let g = count_try g in
     Sys (Printf ''forsok nr'' [Try g]) (\<lambda>_.
     Sys Scanf (\<lambda>r.
       case (if rv r = 1 then Some (num r) else guess) of
         None \<Rightarrow> Crash
       | Some x \<Rightarrow>
           (case judge g x of
              (v, g') \<Rightarrow>
                if v = Right then Sys (Printf (verdict_text Right) [Try g]) (\<lambda>_. Done 0)
                else Sys (Puts (verdict_text v)) (\<lambda>_. gissatal_loop fuel g' (Some x))))))"

definition gissatal_main :: "nat \<Rightarrow> random_prog" where
  "gissatal_main fuel = Sys Srand (\<lambda>_. Sys Rand (\<lambda>r. gissatal_loop fuel (new_game (num r)) None))"

text \<open>
  A player who halves the interval of the numbers that are still possible. The screen of
  the player is the last verdict.
\<close>

record player =
  hidden :: int
  from_number :: int
  to_number :: int
  won_at :: int

definition middle :: "player \<Rightarrow> int" where
  "middle p = (from_number p + to_number p) div 2"

fun player_step :: "player \<Rightarrow> game_call \<Rightarrow> reply \<times> player" where
  "player_step p Rand = (ok\<lparr>num := hidden p\<rparr>, p)"
| "player_step p Scanf = (ok\<lparr>num := middle p\<rparr>, p)"
| "player_step p (Puts m) =
    (ok, if m = verdict_text High \<or> m = verdict_text ToldHigh then p\<lparr>to_number := middle p - 1\<rparr>
         else if m = verdict_text Low \<or> m = verdict_text ToldLow then p\<lparr>from_number := middle p + 1\<rparr>
         else p)"
| "player_step p (Printf m ns) = (ok, if m = verdict_text Right then p\<lparr>won_at := hd ns\<rparr> else p)"
| "player_step p _ = (ok, p)"

lemma player_wins:
  "consistent g \<Longrightarrow> from_number p \<le> Value g \<Longrightarrow> Value g \<le> to_number p \<Longrightarrow> 1 \<le> from_number p \<Longrightarrow> to_number p \<le> 99 \<Longrightarrow>
    to_number p - from_number p + 2 \<le> 2 ^ n \<Longrightarrow> n \<le> fuel \<Longrightarrow>
    \<exists>p'. interp player_step p (gissatal_loop fuel g x) = (Some 0, p') \<and>
      Try g < won_at p' \<and> won_at p' \<le> Try g + int n"
proof (induction n arbitrary: fuel g p x)
  case 0
  then show ?case by simp
next
  case (Suc n)
  obtain f where f: "fuel = Suc f" using Suc.prems(7) by (cases fuel) auto
  let ?g = "count_try g" and ?m = "middle p"
  obtain v g' where j: "judge ?g ?m = (v, g')" by fastforce
  have t: "turn g ?m v g'" using j by (simp add: turn_iff)
  have c: "consistent g'" "Value g' = Value g" using consistent_turn[OF Suc.prems(1) t] by auto
  have m: "from_number p \<le> ?m" "?m \<le> to_number p" using Suc.prems(2,3) by (auto simp: middle_def)
  have try_g': "Try g' = Try g + 1" using j
    by (auto simp: judge_def count_try_def split: if_splits)
  consider "v = Right" "?m = Value g" | "v \<in> {High, ToldHigh}" "Value g < ?m" | "v \<in> {Low, ToldLow}" "?m < Value g"
    using j m Suc.prems by (auto simp: judge_def count_try_def consistent_def split: if_splits)
  then show ?case
  proof cases
    case 1
    then show ?thesis using j f by (simp add: count_try_def ok_def Let_def)
  next
    case 2
    let ?p = "p\<lparr>to_number := ?m - 1\<rparr>"
    have step: "interp player_step p (gissatal_loop fuel g x) = interp player_step ?p (gissatal_loop f g' (Some ?m))"
      using 2(1) j f by (auto simp: ok_def Let_def)
    have "?m - 1 - from_number p + 2 \<le> 2 ^ n" using Suc.prems(6) by (simp add: middle_def)
    then obtain p' where "interp player_step ?p (gissatal_loop f g' (Some ?m)) = (Some 0, p')"
      "Try g' < won_at p'" "won_at p' \<le> Try g' + int n"
      using Suc.IH[of g' ?p f "Some ?m"] Suc.prems c m 2(2) f by auto
    then show ?thesis unfolding step try_g' by simp
  next
    case 3
    let ?p = "p\<lparr>from_number := ?m + 1\<rparr>"
    have step: "interp player_step p (gissatal_loop fuel g x) = interp player_step ?p (gissatal_loop f g' (Some ?m))"
      using 3(1) j f by (auto simp: ok_def Let_def)
    have "to_number p - (?m + 1) + 2 \<le> 2 ^ n" using Suc.prems(6) by (simp add: middle_def)
    then obtain p' where "interp player_step ?p (gissatal_loop f g' (Some ?m)) = (Some 0, p')"
      "Try g' < won_at p'" "won_at p' \<le> Try g' + int n"
      using Suc.IH[of g' ?p f "Some ?m"] Suc.prems c m 3(2) f by auto
    then show ?thesis unfolding step try_g' by simp
  qed
qed

text \<open>
  C40. Whatever number is drawn, a player who halves the interval wins within seven tries,
  and the program then ends with status \<open>0\<close>.
\<close>

theorem gissatal_seven_tries:
  assumes "0 \<le> r" "7 \<le> fuel"
  shows "\<exists>p'. interp player_step \<lparr>hidden = r, from_number = 1, to_number = 99, won_at = 0\<rparr> (gissatal_main fuel)
      = (Some 0, p') \<and> 1 \<le> won_at p' \<and> won_at p' \<le> 7"
proof -
  let ?p = "\<lparr>hidden = r, from_number = 1, to_number = 99, won_at = 0\<rparr>"
  have v: "1 \<le> Value (new_game r)" "Value (new_game r) \<le> 99"
    using consistent_new[OF assms(1)] by (auto simp: consistent_def)
  have "\<exists>p'. interp player_step ?p (gissatal_loop fuel (new_game r) None) = (Some 0, p') \<and>
      Try (new_game r) < won_at p' \<and> won_at p' \<le> Try (new_game r) + int 7"
    by (rule player_wins) (use v consistent_new[OF assms(1)] assms(2) in simp_all)
  then show ?thesis by (auto simp: gissatal_main_def ok_def new_game_def)
qed

theorem gissatal_seven_tries_witness:
  "\<exists>p'. interp player_step \<lparr>hidden = 36, from_number = 1, to_number = 99, won_at = 0\<rparr> (gissatal_main 7)
      = (Some 0, p') \<and> won_at p' \<le> 7"
proof -
  have h: "(0::int) \<le> 36" "(7::nat) \<le> 7" by simp_all
  from gissatal_seven_tries[OF h] show ?thesis by blast
qed

section \<open>\<open>lotto.c\<close>\<close>

text \<open>
  \<open>nummer\<close> is a list of flags. The inner loop draws until a number is new, the outer one
  draws rows until the input ends; each has its own fuel.
\<close>

definition NUMBER_OF_NUMBERS :: nat where "NUMBER_OF_NUMBERS = 39"

fun draw_new :: "nat \<Rightarrow> bool list \<Rightarrow> (nat \<Rightarrow> random_prog) \<Rightarrow> random_prog" where
  "draw_new 0 nummer k = OutOfFuel"
| "draw_new (Suc fuel) nummer k =
    Sys Rand (\<lambda>r.
      let nr = nat (num r mod int NUMBER_OF_NUMBERS)
      in if nummer ! nr then draw_new fuel nummer k else k nr)"

fun draw_row :: "nat \<Rightarrow> nat \<Rightarrow> bool list \<Rightarrow> (bool list \<Rightarrow> random_prog) \<Rightarrow> random_prog" where
  "draw_row fuel 0 nummer k = k nummer"
| "draw_row fuel (Suc togo) nummer k =
    draw_new fuel nummer (\<lambda>nr. draw_row fuel togo (nummer[nr := True]) k)"

definition flagged :: "bool list \<Rightarrow> int list" where
  "flagged nummer = map (\<lambda>i. int i + 1) (filter (\<lambda>i. nummer ! i) [0..<length nummer])"

primrec print_numbers :: "int list \<Rightarrow> random_prog \<Rightarrow> random_prog" where
  "print_numbers [] k = k"
| "print_numbers (n # ns) k = Sys (Printf ''%i'' [n]) (\<lambda>_. print_numbers ns k)"

fun lotto_loop :: "nat \<Rightarrow> nat \<Rightarrow> random_prog" where
  "lotto_loop 0 fuel = OutOfFuel"
| "lotto_loop (Suc rounds) fuel =
    draw_row fuel 7 (replicate NUMBER_OF_NUMBERS False) (\<lambda>nummer.
    print_numbers (flagged nummer)
      (Sys Fgetc (\<lambda>c. if rv c \<noteq> - 1 then lotto_loop rounds fuel else Done 0)))"

definition lotto_main :: "nat \<Rightarrow> nat \<Rightarrow> random_prog" where
  "lotto_main rounds fuel = Sys Srand (\<lambda>_. lotto_loop rounds fuel)"

text \<open>The numbers that were printed, and the rows they make, seven at a time.\<close>

fun printed_number :: "game_call \<times> reply \<Rightarrow> int option" where
  "printed_number (Printf f ns, r) = (if f = ''%i'' then Some (hd ns) else None)"
| "printed_number _ = None"

definition numbers :: "(game_call \<times> reply) list \<Rightarrow> int list" where
  "numbers tr = List.map_filter printed_number tr"

definition lotto_row :: "int list \<Rightarrow> bool" where
  "lotto_row ns \<longleftrightarrow> length ns = 7 \<and> sorted ns \<and> distinct ns \<and> set ns \<subseteq> {1..39}"

lemma numbers_simps [simp]:
  "numbers [] = []" "numbers (xs @ ys) = numbers xs @ numbers ys"
  "numbers [(Printf ''%i'' [n], r)] = [n]" "numbers [(Rand, r)] = []" "numbers [(Srand, r)] = []"
  "numbers [(Fgetc, r)] = []"
  by (simp_all add: numbers_def List.map_filter_def)

lemma draw_new_holds:
  "length nummer = 39 \<Longrightarrow>
    (\<And>h' nr. nr < 39 \<Longrightarrow> \<not> nummer ! nr \<Longrightarrow> numbers h' = numbers h \<Longrightarrow> holds anything Q h' (k nr)) \<Longrightarrow>
    holds anything Q h (draw_new fuel nummer k)"
proof (induction fuel arbitrary: h)
  case (Suc fuel)
  have n: "nat (num r mod 39) < 39" for r :: reply by simp
  show ?case
    using Suc.IH[of "h @ [(Rand, r)]" for r] Suc.prems n
    by (simp add: NUMBER_OF_NUMBERS_def Let_def)
qed simp

lemma draw_row_holds:
  "length nummer = 39 \<Longrightarrow>
    (\<And>h' f. length f = 39 \<Longrightarrow> length (filter (\<lambda>b. b) f) = length (filter (\<lambda>b. b) nummer) + togo \<Longrightarrow>
      numbers h' = numbers h \<Longrightarrow> holds anything Q h' (k f)) \<Longrightarrow>
    holds anything Q h (draw_row fuel togo nummer k)"
proof (induction togo arbitrary: nummer h)
  case (Suc togo)
  show ?case
  proof (subst draw_row.simps, rule draw_new_holds)
    fix h' nr
    assume n: "nr < 39" "\<not> nummer ! nr" "numbers h' = numbers h"
    have "length (filter (\<lambda>b. b) (nummer[nr := True])) = Suc (length (filter (\<lambda>b. b) nummer))"
    proof -
      have e: "nummer = take nr nummer @ False # drop (Suc nr) nummer"
        using n(1,2) Suc.prems(1) id_take_nth_drop[of nr nummer] by simp
      have "nummer[nr := True] = take nr nummer @ True # drop (Suc nr) nummer"
        using n(1) Suc.prems(1) by (simp add: upd_conv_take_nth_drop)
      then show ?thesis by (subst (2) e) simp
    qed
    then show "holds anything Q h' (draw_row fuel togo (nummer[nr := True]) k)"
      using Suc.prems n(3) by (intro Suc.IH) simp_all
  qed (rule Suc.prems(1))
qed simp

lemma flagged_row:
  assumes "length f = 39" "length (filter (\<lambda>b. b) f) = 7"
  shows "lotto_row (flagged f)"
proof -
  let ?is = "filter (\<lambda>i. f ! i) [0..<length f]"
  have "filter (\<lambda>b. b) f = filter (\<lambda>b. b) (map ((!) f) [0..<length f])" by (simp add: map_nth)
  also have "\<dots> = map ((!) f) ?is" by (simp add: filter_map o_def)
  finally have "filter (\<lambda>b. b) f = map ((!) f) ?is" .
  then have "length ?is = 7" using assms(2) by (metis length_map)
  moreover have "sorted ?is" "distinct ?is" by (simp_all add: sorted_wrt_filter)
  ultimately show ?thesis using assms(1)
    by (auto simp: lotto_row_def flagged_def sorted_map distinct_map inj_on_def sorted_wrt_map
        intro: sorted_wrt_mono_rel[of _ "(\<le>)"])
qed

definition rows_printed :: "(game_call \<times> reply) list \<Rightarrow> int \<Rightarrow> bool" where
  "rows_printed tr n \<longleftrightarrow> n = 0 \<and> (\<exists>rows. numbers tr = concat rows \<and> (\<forall>row \<in> set rows. lotto_row row))"

lemma print_numbers_holds:
  "(\<And>h'. numbers h' = numbers h @ ns \<Longrightarrow> holds anything Q h' k) \<Longrightarrow> holds anything Q h (print_numbers ns k)"
  by (induction ns arbitrary: h) simp_all

lemma lotto_loop_holds:
  "\<exists>rows. numbers h = concat rows \<and> (\<forall>row \<in> set rows. lotto_row row) \<Longrightarrow>
    holds anything rows_printed h (lotto_loop rounds fuel)"
proof (induction rounds arbitrary: h)
  case (Suc rounds)
  then obtain rows where rows: "numbers h = concat rows" "\<forall>row \<in> set rows. lotto_row row" by blast
  show ?case
  proof (subst lotto_loop.simps, rule draw_row_holds)
    fix h' f
    assume f: "length f = 39" "length (filter (\<lambda>b. b) f)
        = length (filter (\<lambda>b. b) (replicate NUMBER_OF_NUMBERS False)) + 7" "numbers h' = numbers h"
    then have row: "lotto_row (flagged f)" by (intro flagged_row) simp_all
    show "holds anything rows_printed h' (print_numbers (flagged f)
        (Sys Fgetc (\<lambda>c. if rv c \<noteq> - 1 then lotto_loop rounds fuel else Done 0)))"
    proof (rule print_numbers_holds)
      fix h'' assume "numbers h'' = numbers h' @ flagged f"
      with f(3) rows row have r: "numbers (h'' @ [(Fgetc, r)]) = concat (rows @ [flagged f])"
        "\<forall>row \<in> set (rows @ [flagged f]). lotto_row row" for r by simp_all
      then have "\<exists>rows. numbers (h'' @ [(Fgetc, r)]) = concat rows \<and> (\<forall>row \<in> set rows. lotto_row row)" for r
        by blast
      moreover from this have r_end: "rows_printed (h'' @ [(Fgetc, r)]) 0" for r by (simp add: rows_printed_def)
      ultimately show "holds anything rows_printed h''
          (Sys Fgetc (\<lambda>c. if rv c \<noteq> - 1 then lotto_loop rounds fuel else Done 0))"
        using Suc.IH r_end by simp
    qed
  qed (simp add: NUMBER_OF_NUMBERS_def)
qed simp

text \<open>
  Whatever the random numbers are, all that \<open>lotto\<close> prints is rows of seven different
  numbers from \<open>1\<close> to \<open>39\<close> in ascending order.
\<close>

theorem lotto_rows:
  assumes "runs anything (lotto_main rounds fuel) tr n"
  shows "rows_printed tr n"
proof -
  have "\<exists>rows. numbers [(Srand, r)] = concat rows \<and> (\<forall>row \<in> set rows. lotto_row row)" for r
    by (intro exI[of _ "[]"]) simp
  then have "holds anything rows_printed [] (lotto_main rounds fuel)"
    using lotto_loop_holds by (simp add: lotto_main_def)
  with assms show ?thesis by (simp add: holds_iff_runs)
qed

definition drawn :: "int \<Rightarrow> reply" where
  "drawn i = ok\<lparr>num := i\<rparr>"

theorem lotto_rows_witness:
  "rows_printed
    ((Srand, ok) # map (\<lambda>i. (Rand, drawn i)) [40, 1, 2, 3, 4, 5, 6, 46] @
     map (\<lambda>i. (Printf ''%i'' [i], ok)) [2, 3, 4, 5, 6, 7, 8] @ [(Fgetc, ok\<lparr>rv := - 1\<rparr>)]) 0"
proof -
  let ?tr = "(Srand, ok) # map (\<lambda>i. (Rand, drawn i)) [40, 1, 2, 3, 4, 5, 6, 46] @
     map (\<lambda>i. (Printf ''%i'' [i], ok)) [2, 3, 4, 5, 6, 7, 8] @ [(Fgetc, ok\<lparr>rv := - 1\<rparr>)]"
  have f: "flagged ((replicate 39 False)[1 := True, 2 := True, 3 := True, 4 := True, 5 := True, 6 := True, 7 := True])
      = [2, 3, 4, 5, 6, 7, 8]" by code_simp
  have seven: "draw_row fuel 7 n k = draw_row fuel (Suc (Suc (Suc (Suc (Suc (Suc (Suc 0))))))) n k" for fuel n k
    by (rule arg_cong[where f = "\<lambda>c. draw_row fuel c n k"]) simp
  have "runs anything (lotto_main (Suc 0) (Suc (Suc 0))) ?tr 0"
    using f by (simp add: lotto_main_def NUMBER_OF_NUMBERS_def drawn_def seven nth_list_update)
  from lotto_rows[OF this] show ?thesis by blast
qed

section \<open>\<open>genpwds.c\<close>\<close>

text \<open>
  A letter is drawn again while it is one of the avoided ones. \<open>vokaldags\<close> is positive
  after a vowel and falls with every consonant.
\<close>

definition avoided :: string where "avoided = ''CQWXZ''"
definition vowels :: string where "vowels = ''AOUEIY''"

definition rand_letter :: "int \<Rightarrow> char" where
  "rand_letter r = char_of (65 + nat (r mod 26))"

fun draw_letter :: "nat \<Rightarrow> string \<Rightarrow> (char \<Rightarrow> random_prog) \<Rightarrow> random_prog" where
  "draw_letter 0 bad k = OutOfFuel"
| "draw_letter (Suc fuel) bad k =
    Sys Rand (\<lambda>r.
      let randletter = rand_letter (num r)
      in if randletter \<in> set bad then draw_letter fuel bad k else k randletter)"

primrec gen_letters :: "nat \<Rightarrow> nat \<Rightarrow> int \<Rightarrow> random_prog \<Rightarrow> random_prog" where
  "gen_letters fuel 0 vokaldags k = k"
| "gen_letters fuel (Suc n) vokaldags k =
    draw_letter fuel avoided (\<lambda>c.
      if c \<in> set vowels then
        (if vokaldags > 0 then
           draw_letter fuel (avoided @ vowels) (\<lambda>c'. Sys (Putchar c') (\<lambda>_. gen_letters fuel n 1 k))
         else Sys (Putchar c) (\<lambda>_. gen_letters fuel n 1 k))
      else Sys (Putchar c) (\<lambda>_. gen_letters fuel n (vokaldags - 1) k))"

fun genpwds_loop :: "nat \<Rightarrow> nat \<Rightarrow> int \<Rightarrow> random_prog" where
  "genpwds_loop 0 fuel passwds = OutOfFuel"
| "genpwds_loop (Suc rounds) fuel passwds =
    (if passwds = 0 then Done 0
     else gen_letters fuel 4 0 (Sys (Printf ''    '' []) (\<lambda>_. genpwds_loop rounds fuel (passwds - 1))))"

definition genpwds_main :: "string list \<Rightarrow> nat \<Rightarrow> nat \<Rightarrow> random_prog" where
  "genpwds_main args rounds fuel =
    Sys Srand (\<lambda>_. genpwds_loop rounds fuel
      (case args of [] \<Rightarrow> 1 | a # _ \<Rightarrow> sint (fst (strtoul a 0))))"

text \<open>The text that was printed, and what a password is.\<close>

fun printed_text :: "(game_call \<times> reply) list \<Rightarrow> string" where
  "printed_text [] = []"
| "printed_text ((Putchar c, r) # tr) = c # printed_text tr"
| "printed_text ((Printf f ns, r) # tr) = f @ printed_text tr"
| "printed_text (e # tr) = printed_text tr"

lemma printed_text_append [simp]: "printed_text (xs @ ys) = printed_text xs @ printed_text ys"
  by (induction xs rule: printed_text.induct) simp_all

fun spoken :: "string \<Rightarrow> bool" where
  "spoken (a # b # s) \<longleftrightarrow> \<not> (a \<in> set vowels \<and> b \<in> set vowels) \<and> spoken (b # s)"
| "spoken _ \<longleftrightarrow> True"

definition password :: "string \<Rightarrow> bool" where
  "password p \<longleftrightarrow> length p = 4 \<and> spoken p \<and> (\<forall>c \<in> set p. c \<notin> set avoided \<and> (\<exists>r. c = rand_letter r))"

lemma spoken_snoc: "spoken (s @ [c]) \<longleftrightarrow> spoken s \<and> \<not> (s \<noteq> [] \<and> last s \<in> set vowels \<and> c \<in> set vowels)"
  by (induction s rule: spoken.induct) auto

lemma draw_letter_holds:
  "(\<And>h' c r. c = rand_letter r \<Longrightarrow> c \<notin> set bad \<Longrightarrow> printed_text h' = printed_text h \<Longrightarrow> holds anything Q h' (k c)) \<Longrightarrow>
    holds anything Q h (draw_letter fuel bad k)"
proof (induction fuel arbitrary: h)
  case (Suc fuel)
  show ?case using Suc.IH[of "h @ [(Rand, r)]" for r] Suc.prems by (simp add: Let_def)
qed simp

lemma gen_letters_holds:
  "printed_text h = t @ p \<Longrightarrow> spoken p \<Longrightarrow> (\<forall>c \<in> set p. c \<notin> set avoided \<and> (\<exists>r. c = rand_letter r)) \<Longrightarrow>
    (p \<noteq> [] \<and> last p \<in> set vowels \<longrightarrow> 0 < v) \<Longrightarrow> length p + n = 4 \<Longrightarrow>
    (\<And>h' p'. printed_text h' = t @ p' \<Longrightarrow> password p' \<Longrightarrow> holds anything Q h' k) \<Longrightarrow>
    holds anything Q h (gen_letters fuel n v k)"
proof (induction n arbitrary: h p v)
  case 0
  then show ?case by (simp add: password_def)
next
  case (Suc n)
  have put: "holds anything Q h' (Sys (Putchar c) (\<lambda>_. gen_letters fuel n v' k))"
    if "printed_text h' = t @ p" "c = rand_letter r" "c \<notin> set avoided"
      "\<not> (p \<noteq> [] \<and> last p \<in> set vowels \<and> c \<in> set vowels)" "c \<in> set vowels \<longrightarrow> 0 < v'" for h' c r v'
    using that Suc.prems by (auto intro!: Suc.IH[of _ "p @ [c]"] simp: spoken_snoc)
  show ?case
  proof (subst gen_letters.simps, rule draw_letter_holds)
    fix h' c r assume c: "c = rand_letter r" "c \<notin> set avoided" "printed_text h' = printed_text h"
    show "holds anything Q h' (if c \<in> set vowels then
        (if v > 0 then draw_letter fuel (avoided @ vowels) (\<lambda>c'. Sys (Putchar c') (\<lambda>_. gen_letters fuel n 1 k))
         else Sys (Putchar c) (\<lambda>_. gen_letters fuel n 1 k))
      else Sys (Putchar c) (\<lambda>_. gen_letters fuel n (v - 1) k))"
    proof (cases "c \<in> set vowels \<and> 0 < v")
      case True
      have "holds anything Q h' (draw_letter fuel (avoided @ vowels)
          (\<lambda>c'. Sys (Putchar c') (\<lambda>_. gen_letters fuel n 1 k)))"
      proof (rule draw_letter_holds)
        fix h'' c' r' assume "c' = rand_letter r'" "c' \<notin> set (avoided @ vowels)" "printed_text h'' = printed_text h'"
        then show "holds anything Q h'' (Sys (Putchar c') (\<lambda>_. gen_letters fuel n 1 k))"
          using c Suc.prems(1) by (intro put[of h'' c' r' 1]) simp_all
      qed
      with True show ?thesis by simp
    next
      case False
      then show ?thesis using put[of h' c r 1] put[of h' c r "v - 1"] c Suc.prems(1,4)
        by (cases "c \<in> set vowels") auto
    qed
  qed
qed

definition passwords_printed :: "(game_call \<times> reply) list \<Rightarrow> int \<Rightarrow> bool" where
  "passwords_printed tr n \<longleftrightarrow> n = 0 \<and>
    (\<exists>ps. printed_text tr = concat (map (\<lambda>p. p @ ''    '') ps) \<and> (\<forall>p \<in> set ps. password p))"

lemma genpwds_loop_holds:
  "printed_text h = concat (map (\<lambda>p. p @ ''    '') ps) \<Longrightarrow> \<forall>p \<in> set ps. password p \<Longrightarrow>
    holds anything passwords_printed h (genpwds_loop rounds fuel m)"
proof (induction rounds arbitrary: h ps m)
  case (Suc rounds)
  have stop: "passwords_printed h 0" using Suc.prems by (auto simp: passwords_printed_def)
  have "holds anything passwords_printed h
      (gen_letters fuel 4 0 (Sys (Printf ''    '' []) (\<lambda>_. genpwds_loop rounds fuel (m - 1))))"
  proof (rule gen_letters_holds[where p = "[]" and t = "printed_text h"])
    fix h' p assume "printed_text h' = printed_text h @ p" "password p"
    with Suc.prems show "holds anything passwords_printed h' (Sys (Printf ''    '' []) (\<lambda>_. genpwds_loop rounds fuel (m - 1)))"
      by (auto intro!: Suc.IH[of _ "ps @ [p]"])
  qed simp_all
  with stop show ?case by simp
qed simp

text \<open>
  Whatever the random numbers are, \<open>genpwds\<close> prints passwords of four letters without
  the avoided letters and without two vowels next to each other.
\<close>

theorem genpwds_pronounceable:
  assumes "runs anything (genpwds_main args rounds fuel) tr n"
  shows "passwords_printed tr n"
proof -
  have "holds anything passwords_printed [] (genpwds_main args rounds fuel)"
    using genpwds_loop_holds[of "[(Srand, r)]" "[]" for r] by (simp add: genpwds_main_def)
  with assms show ?thesis by (simp add: holds_iff_runs)
qed

theorem genpwds_pronounceable_witness:
  "passwords_printed
    [(Srand, ok), (Rand, drawn 0), (Putchar CHR ''A'', ok), (Rand, drawn 4), (Rand, drawn 1), (Putchar CHR ''B'', ok),
     (Rand, drawn 2), (Rand, drawn 3), (Putchar CHR ''D'', ok), (Rand, drawn 8), (Putchar CHR ''I'', ok),
     (Printf ''    '' [], ok)] 0"
proof -
  have four: "gen_letters fuel 4 v k = gen_letters fuel (Suc (Suc (Suc (Suc 0)))) v k" for fuel v k
    by (rule arg_cong[where f = "\<lambda>n. gen_letters fuel n v k"]) simp
  have letters: "rand_letter 0 = CHR ''A''" "rand_letter 1 = CHR ''B''" "rand_letter 2 = CHR ''C''"
    "rand_letter 3 = CHR ''D''" "rand_letter 4 = CHR ''E''" "rand_letter 8 = CHR ''I''"
    by (simp_all add: rand_letter_def char_of_def bit_Suc_0_iff)
  have "runs anything (genpwds_main [] (Suc (Suc 0)) (Suc (Suc 0)))
    [(Srand, ok), (Rand, drawn 0), (Putchar CHR ''A'', ok), (Rand, drawn 4), (Rand, drawn 1), (Putchar CHR ''B'', ok),
     (Rand, drawn 2), (Rand, drawn 3), (Putchar CHR ''D'', ok), (Rand, drawn 8), (Putchar CHR ''I'', ok),
     (Printf ''    '' [], ok)] 0"
    using letters by (simp add: genpwds_main_def four drawn_def avoided_def vowels_def Let_def)
  then show ?thesis by (rule genpwds_pronounceable)
qed

end
