(* ===== verification/Personnr.thy ===== *)
theory Personnr
  imports CLib Prog
begin

text \<open>
  \<open>personnr.c\<close>: checks the control digit of a Swedish personal or organisation number and
  tells the two apart by asking whether the number begins with a date. The line that is
  read is a buffer; reading behind what has been written to it, or writing behind the end
  of the small buffer of the digits, is undefined.
\<close>

section \<open>The program\<close>

datatype pnr_call =
    Puts string
  | Printf string "int list"
  | Fgets nat
  | SystemTimeToFileTime nat nat nat
  | Fgetc

type_synonym pnr = "(pnr_call, reply) prog"

text \<open>\<open>c & 0xCF\<close>: the value of a digit character.\<close>

definition figure :: "char \<Rightarrow> nat" where
  "figure c = code c AND 0xCF"

text \<open>
  The sum over the first nine characters. \<open>buf2\<close> is the third character of the small
  buffer: it is written only when a doubled digit has two figures.
\<close>

fun figures :: "string \<Rightarrow> nat" where
  "figures [] = 0"
| "figures (c # cs) = figure c + figures cs"

fun control_sum :: "nat \<Rightarrow> nat \<Rightarrow> string \<Rightarrow> nat \<Rightarrow> char option \<Rightarrow> (nat \<times> char option) option" where
  "control_sum 0 i buffer checksum buf2 = Some (checksum, buf2)"
| "control_sum (Suc n) i buffer checksum buf2 =
    (if i \<ge> length buffer then None
     else if odd i then control_sum n (Suc i) buffer (checksum + figure (buffer ! i)) buf2
     else
       (let buf = dec_nat (2 * figure (buffer ! i)) in
        if length buf > 2 then None
        else control_sum n (Suc i) buffer (checksum + figures buf)
          (if length buf = 2 then Some (CHR 0x00) else buf2)))"

text \<open>
  Two characters of the number as a part of the date; the small buffer ends at its third
  character, which has to be there.
\<close>

definition date_part :: "string \<Rightarrow> nat \<Rightarrow> char option \<Rightarrow> nat option" where
  "date_part buffer i buf2 =
    (if Suc i < length buffer \<and> buf2 = Some (CHR 0x00) then
       Some (unat (fst (strtoul (takeWhile (\<lambda>c. c \<noteq> CHR 0x00) [buffer ! i, buffer ! Suc i]) 0)))
     else None)"

definition control_figure :: "nat \<Rightarrow> nat" where
  "control_figure checksum =
    (let checkfig = 10 - figure (last (dec_nat checksum)) in if checkfig = 10 then 0 else checkfig)"

definition verdict :: "string \<Rightarrow> nat \<Rightarrow> pnr" where
  "verdict buffer checksum =
    (if length buffer \<le> 9 then Crash
     else
       (let k = Sys Fgetc (\<lambda>_. Done 0) in
        if control_figure checksum = figure (buffer ! 9) then Sys (Puts ''Korrekt kontrollsiffra.'') (\<lambda>_. k)
        else Sys (Printf ''Felaktigt. Kontrollsiffran ska vara %i.'' [int (control_figure checksum)]) (\<lambda>_. k)))"

definition check_number :: "string \<Rightarrow> pnr" where
  "check_number buffer =
    (case control_sum 9 0 buffer 0 None of
       None \<Rightarrow> Crash
     | Some (checksum, buf2) \<Rightarrow>
         (case (date_part buffer 0 buf2, date_part buffer 2 buf2, date_part buffer 4 buf2) of
            (Some y, Some m, Some d) \<Rightarrow>
              Sys (SystemTimeToFileTime ((y + 1900) mod 65536) (m mod 65536) (d mod 65536)) (\<lambda>t.
                if rv t \<noteq> 0 then
                  Sys (Puts (if odd (code (buffer ! 8)) then ''Kon: Man'' else ''Kon: Kvinna'')) (\<lambda>_.
                  verdict buffer checksum)
                else Sys (Puts ''Organisationsnummer.'') (\<lambda>_. verdict buffer checksum))
          | _ \<Rightarrow> Crash))"

text \<open>The last character of the line is cut off, whatever it is.\<close>

definition personnr_main :: pnr where
  "personnr_main =
    Sys (Puts ''Skriv in personnummer eller organisationsnummer'') (\<lambda>_.
    Sys (Fgets 261) (\<lambda>r.
      if rv r = 0 then Crash
      else if line r = [] then Crash
      else check_number (butlast (line r) @ [CHR 0x00, CHR 0x00])))"

section \<open>The control digit\<close>

text \<open>The rule: double every other digit, add all figures; the sum has to end in zero.\<close>

definition digit_sum :: "nat \<Rightarrow> nat" where
  "digit_sum n = n div 10 + n mod 10"

fun luhn_sum :: "bool \<Rightarrow> nat list \<Rightarrow> nat" where
  "luhn_sum twice [] = 0"
| "luhn_sum twice (d # ds) = (if twice then digit_sum (2 * d) else d) + luhn_sum (\<not> twice) ds"

definition luhn :: "nat list \<Rightarrow> bool" where
  "luhn ds \<longleftrightarrow> luhn_sum True ds mod 10 = 0"

definition digit_char :: "nat \<Rightarrow> char" where
  "digit_char d = char_of (48 + d)"

lemma code_digit_char [simp]: "d < 10 \<Longrightarrow> code (digit_char d) = 48 + d"
  by (simp add: digit_char_def)

lemma and_CF: "n < 10 \<Longrightarrow> (48 + n) AND 0xCF = (n :: nat)"
proof -
  assume "n < 10"
  then have "n \<in> {0, 1, 2, 3, 4, 5, 6, 7, 8, 9}" by auto
  then show ?thesis by auto
qed

lemma figure_digit [simp]: "d < 10 \<Longrightarrow> figure (digit_char d) = d"
  by (simp add: figure_def and_CF)

lemma dec_nat_small: "n < 10 \<Longrightarrow> dec_nat n = [digit_char n]"
  by (subst dec_nat.simps) (simp add: digit_char_def add.commute)

lemma dec_nat_two: "10 \<le> n \<Longrightarrow> n < 100 \<Longrightarrow> dec_nat n = [digit_char (n div 10), digit_char (n mod 10)]"
  by (subst dec_nat.simps) (simp add: dec_nat_small digit_char_def add.commute)

lemma last_dec_nat: "last (dec_nat n) = digit_char (n mod 10)"
  by (subst dec_nat.simps) (simp add: digit_char_def add.commute)

lemma doubled:
  assumes "d < 10"
  shows "figures (dec_nat (2 * d)) = digit_sum (2 * d)" "length (dec_nat (2 * d)) = (if 5 \<le> d then 2 else 1)"
proof -
  show "figures (dec_nat (2 * d)) = digit_sum (2 * d)"
    using assms dec_nat_small[of "2 * d"] dec_nat_two[of "2 * d"]
    by (cases "2 * d < 10") (simp_all add: digit_sum_def)
  show "length (dec_nat (2 * d)) = (if 5 \<le> d then 2 else 1)"
    using assms dec_nat_small[of "2 * d"] dec_nat_two[of "2 * d"]
    by (cases "2 * d < 10") simp_all
qed

lemma control_sum_digits:
  "length ds = n \<Longrightarrow> \<forall>d \<in> set ds. d < 10 \<Longrightarrow> \<exists>b. control_sum n (length pre) (pre @ map digit_char ds @ post) c buf2
    = Some (c + luhn_sum (even (length pre)) ds, b) \<and>
      ((\<exists>i < n. even (length pre + i) \<and> 5 \<le> ds ! i) \<longrightarrow> b = Some (CHR 0x00)) \<and>
      (buf2 = Some (CHR 0x00) \<longrightarrow> b = Some (CHR 0x00))"
proof (induction n arbitrary: ds pre c buf2)
  case 0
  then show ?case by simp
next
  case (Suc n)
  then obtain d ds' where ds: "ds = d # ds'" "d < 10" "length ds' = n" "\<forall>d \<in> set ds'. d < 10"
    by (cases ds) auto
  let ?c = "c + (if even (length pre) then digit_sum (2 * d) else d)"
  let ?b = "if even (length pre) \<and> 5 \<le> d then Some (CHR 0x00) else buf2"
  obtain b where b: "control_sum n (length (pre @ [digit_char d])) ((pre @ [digit_char d]) @ map digit_char ds' @ post) ?c ?b
      = Some (?c + luhn_sum (even (length (pre @ [digit_char d]))) ds', b)"
    "(\<exists>i < n. even (length (pre @ [digit_char d]) + i) \<and> 5 \<le> ds' ! i) \<longrightarrow> b = Some (CHR 0x00)"
    "?b = Some (CHR 0x00) \<longrightarrow> b = Some (CHR 0x00)"
    using Suc.IH[OF ds(3,4)] by blast
  have "control_sum (Suc n) (length pre) (pre @ map digit_char ds @ post) c buf2
      = Some (c + luhn_sum (even (length pre)) ds, b)"
    using b(1) doubled[OF ds(2)] ds
    by (cases "even (length pre)"; cases "5 \<le> d") (simp_all add: nth_append Let_def)
  moreover have "(\<exists>i < Suc n. even (length pre + i) \<and> 5 \<le> ds ! i) \<longrightarrow> b = Some (CHR 0x00)"
    using b(2,3) ds(1) by (auto simp: less_Suc_eq_0_disj)
  ultimately show ?case using b(3) by auto
qed

lemma control_figure_luhn:
  "d < 10 \<Longrightarrow> control_figure s = d \<longleftrightarrow> (s + d) mod 10 = 0"
proof -
  assume d: "d < 10"
  have f: "figure (last (dec_nat s)) = s mod 10" by (simp add: last_dec_nat)
  obtain r where r: "s mod 10 = r" "r < 10" by simp
  have "(s + d) mod 10 = (r + d) mod 10" by (simp add: r(1)[symmetric] mod_add_left_eq)
  also have "\<dots> = (if r + d < 10 then r + d else r + d - 10)" using d r(2) by (simp add: mod_if)
  finally have m: "(s + d) mod 10 = (if r + d < 10 then r + d else r + d - 10)" .
  have "control_figure s = (if r = 0 then 0 else 10 - r)"
    using f r by (auto simp: control_figure_def Let_def)
  with m d r(2) show ?thesis by (auto split: if_splits)
qed

section \<open>A session\<close>

text \<open>
  A clerk who types one line; \<open>valid y m d\<close> says which dates the system accepts. The
  answers are kept.
\<close>

record clerk =
  typed :: string
  valid :: "nat \<Rightarrow> nat \<Rightarrow> nat \<Rightarrow> bool"
  answers :: "(string \<times> int list) list"

fun clerk_step :: "clerk \<Rightarrow> pnr_call \<Rightarrow> reply \<times> clerk" where
  "clerk_step s (Puts m) = (ok, s\<lparr>answers := answers s @ [(m, [])]\<rparr>)"
| "clerk_step s (Printf m ns) = (ok, s\<lparr>answers := answers s @ [(m, ns)]\<rparr>)"
| "clerk_step s (Fgets n) = (ok\<lparr>line := typed s\<rparr>, s)"
| "clerk_step s (SystemTimeToFileTime y m d) = (ok\<lparr>rv := (if valid s y m d then 1 else 0)\<rparr>, s)"
| "clerk_step s Fgetc = (ok, s)"

definition right_answer :: "nat list \<Rightarrow> string \<times> int list" where
  "right_answer ds =
    (if luhn ds then (''Korrekt kontrollsiffra.'', [])
     else (''Felaktigt. Kontrollsiffran ska vara %i.'',
       [int (THE d. d < 10 \<and> luhn (butlast ds @ [d]))]))"

definition number_digits :: "nat list \<Rightarrow> bool" where
  "number_digits ds \<longleftrightarrow> length ds = 10 \<and> (\<forall>d \<in> set ds. d < 10) \<and> (\<exists>i < 9. even i \<and> 5 \<le> ds ! i)"

lemma luhn_sum_snoc: "luhn_sum b (ds @ [d]) = luhn_sum b ds + (if b = even (length ds) then digit_sum (2 * d) else d)"
  by (induction b ds rule: luhn_sum.induct) auto

lemma luhn_snoc:
  assumes "length es = 9" "d < 10"
  shows "luhn (es @ [d]) \<longleftrightarrow> control_figure (luhn_sum True es) = d"
  using assms by (simp add: luhn_def luhn_sum_snoc control_figure_luhn)

lemma control_figure_bound: "control_figure s < 10"
  using control_figure_luhn[of "control_figure s"] mod_less_divisor[of 10 s]
  by (auto simp: control_figure_def Let_def last_dec_nat)

lemma right_answer_snoc:
  assumes "length es = 9" "d < 10"
  shows "right_answer (es @ [d]) =
    (if control_figure (luhn_sum True es) = d then (''Korrekt kontrollsiffra.'', [])
     else (''Felaktigt. Kontrollsiffran ska vara %i.'', [int (control_figure (luhn_sum True es))]))"
proof -
  have "(THE x. x < 10 \<and> luhn (es @ [x])) = control_figure (luhn_sum True es)"
    using luhn_snoc[OF assms(1)] control_figure_bound by (intro the_equality) auto
  with luhn_snoc[OF assms] show ?thesis by (simp add: right_answer_def)
qed

text \<open>
  For a number of ten digits (one of the doubled ones being at least five, so that the
  small buffer is complete) followed by the line end, the last answer of the program is
  the verdict of the control digit rule, with the digit that would be right when it is
  wrong; the status is \<open>0\<close>.
\<close>

theorem personnr_control_digit:
  assumes "number_digits ds" "typed s = map digit_char ds @ [c]"
  shows "\<exists>s'. interp clerk_step s personnr_main = (Some 0, s') \<and> answers s' \<noteq> [] \<and> last (answers s') = right_answer ds"
proof -
  let ?es = "butlast ds" and ?d = "last ds"
  let ?buffer = "map digit_char ds @ [CHR 0x00, CHR 0x00]"
  have ne: "ds \<noteq> []" using assms(1) by (auto simp: number_digits_def)
  then have ds: "ds = ?es @ [?d]" by simp
  have e: "length ?es = 9" "\<forall>d \<in> set ?es. d < 10" "?d < 10"
    using assms(1) ne by (auto simp: number_digits_def dest: in_set_butlastD)
  have b: "?buffer = [] @ map digit_char ?es @ (digit_char ?d # [CHR 0x00, CHR 0x00])"
    by (subst ds) simp
  have five: "\<exists>i < 9. even i \<and> 5 \<le> ?es ! i" using assms(1) e(1) by (auto simp: number_digits_def nth_butlast)
  obtain b2 where c: "control_sum 9 0 ?buffer 0 None = Some (luhn_sum True ?es, b2)" "b2 = Some (CHR 0x00)"
    using control_sum_digits[OF e(1,2), of "[]" "digit_char ?d # [CHR 0x00, CHR 0x00]" 0 None] five
    unfolding b by auto
  have nine: "?buffer ! 9 = digit_char ?d" using e(1) unfolding b by (simp add: nth_append)
  have l: "length ?buffer = 12" using assms(1) by (simp add: number_digits_def)
  have "\<exists>s'. interp clerk_step s' (verdict ?buffer (luhn_sum True ?es)) = (Some 0, s'\<lparr>answers := answers s' @ [right_answer ds]\<rparr>)
      \<and> s' = t" for t
    using right_answer_snoc[OF e(1,3)] nine l e(3)
    by (subst (2) ds) (simp add: verdict_def Let_def ok_def del: map_append)
  then have v: "interp clerk_step t (verdict ?buffer (luhn_sum True ?es)) = (Some 0, t\<lparr>answers := answers t @ [right_answer ds]\<rparr>)" for t
    by blast
  have "\<exists>y m d. check_number ?buffer = Sys (SystemTimeToFileTime y m d) (\<lambda>t.
      if rv t \<noteq> 0 then
        Sys (Puts (if odd (code (?buffer ! 8)) then ''Kon: Man'' else ''Kon: Kvinna'')) (\<lambda>_.
        verdict ?buffer (luhn_sum True ?es))
      else Sys (Puts ''Organisationsnummer.'') (\<lambda>_. verdict ?buffer (luhn_sum True ?es)))"
    using c l by (simp add: check_number_def date_part_def del: map_append)
  moreover have "butlast (typed s) @ [CHR 0x00, CHR 0x00] = ?buffer" using assms(2) by simp
  ultimately show ?thesis
    using assms(2) v by (auto simp: personnr_main_def ok_def simp del: map_append)
qed

theorem personnr_control_digit_witness:
  "\<exists>s'. interp clerk_step \<lparr>typed = ''8112189876'' @ [CHR 0x0A], valid = (\<lambda>y m d. True), answers = []\<rparr> personnr_main
      = (Some 0, s') \<and> last (answers s') = (''Korrekt kontrollsiffra.'', [])"
proof -
  let ?ds = "[8, 1, 1, 2, 1, 8, 9, 8, 7, 6] :: nat list"
  let ?s = "\<lparr>typed = ''8112189876'' @ [CHR 0x0A], valid = (\<lambda>y m d. True), answers = []\<rparr>"
  have n: "number_digits ?ds" by (auto simp: number_digits_def intro!: exI[of _ 0])
  have t: "typed ?s = map digit_char ?ds @ [CHR 0x0A]"
    by (simp add: digit_char_def char_of_def bit_Suc_0_iff)
  have "luhn ?ds" by (simp add: luhn_def digit_sum_def)
  with personnr_control_digit[OF n t] show ?thesis by (auto simp: right_answer_def)
qed

text \<open>
  The parts of the date are read in base \<open>0\<close>, where a leading zero means octal: August,
  September and the days \<open>08\<close> and \<open>09\<close> become \<open>0\<close>, which is no date.
\<close>

lemma date_part_octal:
  "date_part ''..08'' 2 (Some CHR 0x00) = Some 0" "date_part ''..09'' 2 (Some CHR 0x00) = Some 0"
  "date_part ''..07'' 2 (Some CHR 0x00) = Some 7" "date_part ''..12'' 2 (Some CHR 0x00) = Some 12"
  by (simp_all add: date_part_def strtoul_def Let_def number_prefix_def is_digit_of_def
      digit_value_def c_isspace_def code_def digits_value_def ULONG_MAX_def)

end
