(* ===== verification/MoveTools.thy ===== *)
theory MoveTools
  imports Args
begin

text \<open>
  The tools that rename, link and delete: \<open>movent.c\<close>, \<open>hardlink.c\<close>, both \<open>lowerfn.c\<close>,
  \<open>radera.c\<close> and \<open>nameansi2oem.c\<close>.
\<close>

section \<open>Calls\<close>

record name_reply = reply +
  wtext :: wide

datatype name_call =
    MoveFileEx wide wide DWORD
  | MoveFile wide wide
  | CreateHardLink string string
  | Rename string string
  | Unlink string
  | Strdup string
  | Free int
  | HeapAlloc nat
  | HeapFree int
  | WideCharToMultiByte wide nat
  | MultiByteToWideChar "byte list" nat
  | WinPerror "wide option"
  | Perror string
  | Usage
  | MessageBox string
  | Puts string
  | Eputs string
  | Eprintf string "arg list"
  | Printf string "arg list"
  | PrintWide string "wide list"

type_synonym name_prog = "(name_call, name_reply) prog"

section \<open>\<open>movent.c\<close>\<close>

definition MOVEFILE_REPLACE_EXISTING :: DWORD where "MOVEFILE_REPLACE_EXISTING = 0x01"
definition MOVEFILE_COPY_ALLOWED :: DWORD where "MOVEFILE_COPY_ALLOWED = 0x02"
definition MOVEFILE_DELAY_UNTIL_REBOOT :: DWORD where "MOVEFILE_DELAY_UNTIL_REBOOT = 0x04"
definition MOVEFILE_WRITE_THROUGH :: DWORD where "MOVEFILE_WRITE_THROUGH = 0x08"
definition MOVEFILE_CREATE_HARDLINK :: DWORD where "MOVEFILE_CREATE_HARDLINK = 0x10"
definition MOVEFILE_FAIL_IF_NOT_TRACKABLE :: DWORD where "MOVEFILE_FAIL_IF_NOT_TRACKABLE = 0x20"

lemmas move_flags =
  MOVEFILE_REPLACE_EXISTING_def MOVEFILE_COPY_ALLOWED_def MOVEFILE_DELAY_UNTIL_REBOOT_def
  MOVEFILE_WRITE_THROUGH_def MOVEFILE_CREATE_HARDLINK_def MOVEFILE_FAIL_IF_NOT_TRACKABLE_def

text \<open>The state of the loop is \<open>dwFlags\<close> and \<open>bDisplayHelp\<close>; the case for \<open>s\<close> falls through.\<close>

definition movent_letter :: "WCHAR \<Rightarrow> DWORD \<times> bool \<Rightarrow> DWORD \<times> bool" where
  "movent_letter c s =
    (let l = wide_fold c; dwFlags = fst s; bDisplayHelp = snd s in
     if l = 0x63 then (dwFlags OR MOVEFILE_COPY_ALLOWED, bDisplayHelp)
     else if l = 0x68 then (dwFlags OR MOVEFILE_CREATE_HARDLINK, bDisplayHelp)
     else if l = 0x62 then (dwFlags OR MOVEFILE_DELAY_UNTIL_REBOOT, bDisplayHelp)
     else if l = 0x72 then (dwFlags OR MOVEFILE_REPLACE_EXISTING, bDisplayHelp)
     else if l = 0x74 then (dwFlags OR MOVEFILE_FAIL_IF_NOT_TRACKABLE, bDisplayHelp)
     else if l = 0x73 then (dwFlags OR MOVEFILE_WRITE_THROUGH, True)
     else (dwFlags, True))"

definition movent_main :: "wide list \<Rightarrow> name_prog" where
  "movent_main args =
    (case parse_switches wide_switch (\<lambda>c s. Inr (movent_letter c s)) args (0, False) of
       Inl n \<Rightarrow> Done n
     | Inr ((dwFlags, bDisplayHelp), args) \<Rightarrow>
         if bDisplayHelp \<or> length args < 2 then Sys Usage (\<lambda>_. Done 0)
         else Sys (MoveFileEx (args ! 0) (args ! 1) dwFlags) (\<lambda>r.
           if rv r \<noteq> 0 then Done 0 else Sys (WinPerror None) (\<lambda>_. Done 1)))"

definition movent_start :: "wide list option \<Rightarrow> name_prog" where
  "movent_start argv = nt_startup (MessageBox ''This program requires Windows NT.'') movent_main argv"

text \<open>Which bit of the flags a letter stands for.\<close>

definition move_bit :: "WCHAR \<Rightarrow> nat option" where
  "move_bit l =
    (if l = wide_fold 0x52 then Some 0 else if l = wide_fold 0x43 then Some 1
     else if l = wide_fold 0x42 then Some 2 else if l = wide_fold 0x48 then Some 4
     else if l = wide_fold 0x54 then Some 5 else None)"

definition move_letters :: "wide list \<Rightarrow> WCHAR list" where
  "move_letters args = map wide_fold (letters wide_switch args)"

lemma bit_flag:
  "bit (0x01 :: DWORD) n \<longleftrightarrow> n = 0" "bit (0x02 :: DWORD) n \<longleftrightarrow> n = 1" "bit (0x04 :: DWORD) n \<longleftrightarrow> n = 2"
  "bit (0x08 :: DWORD) n \<longleftrightarrow> n = 3" "bit (0x10 :: DWORD) n \<longleftrightarrow> n = 4" "bit (0x20 :: DWORD) n \<longleftrightarrow> n = 5"
proof -
  have b: "bit (2 ^ k :: DWORD) n \<longleftrightarrow> n = k" if "k < 32" for k using that by (auto simp: bit_simps)
  show "bit (0x01 :: DWORD) n \<longleftrightarrow> n = 0" using b[of 0] by simp
  show "bit (0x02 :: DWORD) n \<longleftrightarrow> n = 1" using b[of 1] by simp
  show "bit (0x04 :: DWORD) n \<longleftrightarrow> n = 2" using b[of 2] by simp
  show "bit (0x08 :: DWORD) n \<longleftrightarrow> n = 3" using b[of 3] by simp
  show "bit (0x10 :: DWORD) n \<longleftrightarrow> n = 4" using b[of 4] by simp
  show "bit (0x20 :: DWORD) n \<longleftrightarrow> n = 5" using b[of 5] by simp
qed

lemma movent_letter_good:
  assumes "move_bit (wide_fold c) = Some k"
  shows "snd (movent_letter c s) = snd s \<and> bit (fst (movent_letter c s)) n = (bit (fst s) n \<or> n = k)"
  using assms
  by (auto simp: movent_letter_def move_bit_def wide_fold_def move_flags bit_flag bit_or_iff Let_def
      simp del: bit_numeral_word_iff split: if_splits)

lemma movent_letter_bad: "move_bit (wide_fold c) = None \<Longrightarrow> snd (movent_letter c s)"
  by (auto simp: movent_letter_def move_bit_def wide_fold_def Let_def split: if_splits)

lemma movent_letter_help: "snd s \<Longrightarrow> snd (movent_letter c s)"
  by (simp add: movent_letter_def Let_def)

lemma movent_fold_help: "snd s \<Longrightarrow> snd (fold movent_letter cs s)"
  by (induction cs arbitrary: s) (simp_all add: movent_letter_help)

lemma movent_fold:
  "snd (fold movent_letter cs s) = (snd s \<or> None \<in> set (map (move_bit \<circ> wide_fold) cs))"
  "\<not> snd (fold movent_letter cs s) \<Longrightarrow>
    bit (fst (fold movent_letter cs s)) n = (bit (fst s) n \<or> Some n \<in> set (map (move_bit \<circ> wide_fold) cs))"
proof (induction cs arbitrary: s)
  case (Cons c cs)
  { case 1
    show ?case
    proof (cases "move_bit (wide_fold c)")
      case None
      then show ?thesis using movent_letter_bad[of c s] movent_fold_help by auto
    next
      case (Some k)
      then show ?thesis using movent_letter_good[OF Some, of s] Cons.IH(1)[of "movent_letter c s"] by auto
    qed
  next
    case 2
    then have h: "\<not> snd (fold movent_letter cs (movent_letter c s))" by simp
    show ?case
    proof (cases "move_bit (wide_fold c)")
      case None
      then show ?thesis using movent_letter_bad[of c s] movent_fold_help h by auto
    next
      case (Some k)
      then show ?thesis using movent_letter_good[OF Some, of s] Cons.IH(2)[OF h] by auto
    qed }
qed simp_all

text \<open>
  \<open>movent\<close> either shows its help and does nothing (an unknown letter, the letter
  \<open>s\<close>, fewer than two operands), or it moves the first operand to the second with
  exactly the flags whose letters were given; the status is \<open>0\<close> unless the move fails,
  which is reported.
\<close>

theorem movent_moves:
  assumes "runs anything (movent_main args) tr n"
  shows "if None \<in> move_bit ` set (move_letters args) \<or> length (operands wide_switch args) < 2
    then n = 0 \<and> map fst tr = [Usage]
    else \<exists>dwFlags.
      (\<forall>i. bit dwFlags i \<longleftrightarrow> Some i \<in> move_bit ` set (move_letters args)) \<and>
      fst (hd tr) = MoveFileEx (operands wide_switch args ! 0) (operands wide_switch args ! 1) dwFlags \<and>
      (if rv (snd (hd tr)) \<noteq> 0 then n = 0 \<and> tl tr = [] else n = 1 \<and> map fst (tl tr) = [WinPerror None])"
proof -
  obtain fl hp where f: "fold movent_letter (letters wide_switch args) (0, False) = (fl, hp)" by fastforce
  have hp: "hp = (None \<in> move_bit ` set (move_letters args))"
    using movent_fold(1)[of "letters wide_switch args" "(0, False)"] f by (simp add: move_letters_def image_image)
  have fl: "\<not> hp \<Longrightarrow> bit fl i = (Some i \<in> move_bit ` set (move_letters args))" for i
    using movent_fold(2)[of "letters wide_switch args" "(0, False)" i] f by (simp add: move_letters_def image_image)
  have m: "movent_main args =
    (if hp \<or> length (operands wide_switch args) < 2 then Sys Usage (\<lambda>_. Done 0)
     else Sys (MoveFileEx (operands wide_switch args ! 0) (operands wide_switch args ! 1) fl) (\<lambda>r.
           if rv r \<noteq> 0 then Done 0 else Sys (WinPerror None) (\<lambda>_. Done 1)))"
    by (simp add: movent_main_def parse_switches_letters switch_letters_total f)
  show ?thesis
  proof (cases "hp \<or> length (operands wide_switch args) < 2")
    case True
    with assms hp show ?thesis by (auto simp: m)
  next
    case False
    with assms hp fl show ?thesis by (auto simp: m split: if_splits intro!: exI[of _ fl])
  qed
qed

definition name_ok :: name_reply where
  "name_ok = \<lparr>rv = 1, out = [], line = [], num = 0, err = 0, wtext = []\<rparr>"

theorem movent_moves_witness:
  "\<exists>dwFlags. (\<forall>i. bit dwFlags i \<longleftrightarrow> i = 0 \<or> i = 1) \<and>
    MoveFileEx [97] [98] 3 = MoveFileEx [97] [98] dwFlags"
proof -
  let ?args = "[[0x2D, 0x63], [0x2F, 0x52], [97], [98]] :: wide list"
  have l: "letters wide_switch ?args = [0x63, 0x52]" "operands wide_switch ?args = [[97], [98]]"
    by (simp_all add: letters_def operands_def wide_switch_def)
  have "runs anything (movent_main ?args) [(MoveFileEx [97] [98] 3, name_ok)] 0"
    by (simp add: movent_main_def parse_switches_letters switch_letters_total l movent_letter_def
        wide_fold_def move_flags name_ok_def)
  from movent_moves[OF this] show ?thesis
    by (simp add: move_letters_def l move_bit_def wide_fold_def name_ok_def insert_commute)
qed

section \<open>\<open>lowerfn.c\<close>, \<open>radera.c\<close>, \<open>hardlink.c\<close> and \<open>nameansi2oem.c\<close>\<close>

primrec lowerfn_main :: "string list \<Rightarrow> name_prog" where
  "lowerfn_main [] = Done 0"
| "lowerfn_main (a # args) =
    Sys (Strdup a) (\<lambda>d.
      if rv d = 0 then Sys (Eprintf ''%s: too long file name.'' [S a]) (\<lambda>_. lowerfn_main args)
      else
        (case strlwr (a @ [NUL]) (Some 0) of
           None \<Rightarrow> Crash
         | Some newname \<Rightarrow>
             Sys (Rename a (takeWhile (\<lambda>c. c \<noteq> NUL) newname)) (\<lambda>r.
               if rv r \<noteq> 0 then
                 Sys (Perror a) (\<lambda>_. Sys (Free (rv d)) (\<lambda>_. lowerfn_main args))
               else Sys (Free (rv d)) (\<lambda>_. lowerfn_main args))))"

text \<open>\<open>argv\<close> is given with the name of the program; only without even that is there a message.\<close>

primrec radera_loop :: "string list \<Rightarrow> name_prog" where
  "radera_loop [] = Done 0"
| "radera_loop (a # args) =
    Sys (Unlink a) (\<lambda>r.
      if rv r \<noteq> 0 then Sys (Perror a) (\<lambda>_. radera_loop args)
      else Sys (Printf ''Deleted: %s'' [S a]) (\<lambda>_. radera_loop args))"

definition radera_main :: "string list \<Rightarrow> name_prog" where
  "radera_main argv =
    (if length argv < 1 then Sys (Puts ''No file to delete.'') (\<lambda>_. Done 0) else radera_loop (tl argv))"

definition hardlink_main :: "string list \<Rightarrow> name_prog" where
  "hardlink_main args =
    (if length args \<noteq> 2 then Sys (Eputs ''Usage: hardlink sourcefile targetfile'') (\<lambda>_. Done 1)
     else Sys (CreateHardLink (args ! 1) (args ! 0)) (\<lambda>r.
       if rv r \<noteq> 0 then Done 0 else Sys (WinPerror None) (\<lambda>_. Done 1)))"

text \<open>
  The heap raises an exception instead of answering NULL. A failing conversion (the
  buffer of one byte for each character may be too small) leaves the buffer without a
  defined text, which is read next.
\<close>

primrec nameansi2oem_main :: "wide list \<Rightarrow> name_prog" where
  "nameansi2oem_main [] = Done 0"
| "nameansi2oem_main (a # args) =
    (let strlength = length a + 1 in
     Sys (HeapAlloc strlength) (\<lambda>oldname.
     Sys (WideCharToMultiByte a strlength) (\<lambda>o8.
       if rv o8 = 0 then Crash
       else
         Sys (HeapAlloc (2 * strlength)) (\<lambda>newname.
         Sys (MultiByteToWideChar (out o8) strlength) (\<lambda>n.
           if rv n = 0 then Crash
           else
             (let free_both = Sys (HeapFree (rv oldname)) (\<lambda>_. Sys (HeapFree (rv newname)) (\<lambda>_. nameansi2oem_main args)) in
              Sys (MoveFile a (wtext n)) (\<lambda>r.
                if rv r \<noteq> 0 then Sys (PrintWide ''%ws -> %ws, OK.'' [a, wtext n]) (\<lambda>_. free_both)
                else Sys (WinPerror (Some (wtext n))) (\<lambda>_. free_both))))))))"

definition nameansi2oem_start :: "wide list option \<Rightarrow> name_prog" where
  "nameansi2oem_start argv = nt_startup (Eputs ''This program requires Windows NT.'') nameansi2oem_main argv"

section \<open>A folder\<close>

text \<open>
  The files of a folder by name. Renaming to a name that exists replaces that file on
  Unix and fails on Windows.
\<close>

record folder =
  files :: "string \<rightharpoonup> byte list"
  replaces :: bool
  told :: "(string \<times> arg list) list"

fun folder_step :: "folder \<Rightarrow> name_call \<Rightarrow> name_reply \<times> folder" where
  "folder_step s (Rename a b) =
    (case files s a of
       None \<Rightarrow> (name_ok\<lparr>rv := - 1\<rparr>, s)
     | Some c \<Rightarrow>
         if b \<noteq> a \<and> files s b \<noteq> None \<and> \<not> replaces s then (name_ok\<lparr>rv := - 1\<rparr>, s)
         else (name_ok\<lparr>rv := 0\<rparr>, s\<lparr>files := (files s)(a := None, b \<mapsto> c)\<rparr>))"
| "folder_step s (Unlink a) =
    (if files s a = None then (name_ok\<lparr>rv := - 1\<rparr>, s)
     else (name_ok\<lparr>rv := 0\<rparr>, s\<lparr>files := (files s)(a := None)\<rparr>))"
| "folder_step s (Printf f as) = (name_ok, s\<lparr>told := told s @ [(f, as)]\<rparr>)"
| "folder_step s (Perror m) = (name_ok, s\<lparr>told := told s @ [(''error'', [S m])]\<rparr>)"
| "folder_step s c = (name_ok, s)"

definition lower :: "string \<Rightarrow> string" where
  "lower a = map c_tolower a"

lemma lower_lower [simp]: "lower (lower a) = lower a"
  by (simp add: lower_def)

lemma c_tolower_NUL:
  assumes "c \<noteq> NUL"
  shows "c_tolower c \<noteq> NUL"
proof (cases "65 \<le> (of_char c :: nat) \<and> (of_char c :: nat) \<le> 90")
  case True
  then have "c_tolower c = char_of ((of_char c :: nat) + 32)" by (simp only: c_tolower_def Let_def if_True simp_thms)
  moreover have "(of_char (char_of ((of_char c :: nat) + 32)) :: nat) = of_char c + 32"
    unfolding of_char_of using True by simp
  moreover have "(of_char NUL :: nat) = 0" by simp
  ultimately show ?thesis by (metis add_eq_0_iff_both_eq_0 zero_neq_numeral)
next
  case False
  then have "c_tolower c = c" by (simp only: c_tolower_def Let_def if_False simp_thms)
  with assms show ?thesis by simp
qed

lemma strlwr_name: "NUL \<notin> set a \<Longrightarrow> strlwr (a @ [NUL]) (Some 0) = Some (lower a @ [NUL])"
  using strlwr_string[of a "[]" "[]"] by (simp add: lower_def)

lemma lower_text:
  assumes "NUL \<notin> set a"
  shows "takeWhile (\<lambda>c. c \<noteq> NUL) (lower a @ [NUL]) = lower a"
proof -
  have "c \<noteq> NUL" if "c \<in> set (lower a)" for c
  proof -
    from that obtain d where "d \<in> set a" "c = c_tolower d" unfolding lower_def set_map by blast
    with assms show ?thesis using c_tolower_NUL[of d] by metis
  qed
  then have "takeWhile (\<lambda>c. c \<noteq> NUL) (lower a @ [NUL]) = lower a @ takeWhile (\<lambda>c. c \<noteq> NUL) [NUL]"
    by (rule takeWhile_append2)
  then show ?thesis by simp
qed

definition renamed :: "bool \<Rightarrow> (string \<rightharpoonup> byte list) \<Rightarrow> string \<Rightarrow> string \<Rightarrow> (string \<rightharpoonup> byte list)" where
  "renamed p f a b =
    (case f a of None \<Rightarrow> f | Some c \<Rightarrow> if b \<noteq> a \<and> f b \<noteq> None \<and> \<not> p then f else f(a := None, b \<mapsto> c))"

lemma lowerfn_step:
  assumes "NUL \<notin> set a"
  shows "\<exists>t. interp folder_step s (lowerfn_main (a # args)) =
    interp folder_step (s\<lparr>files := renamed (replaces s) (files s) a (lower a), told := t\<rparr>) (lowerfn_main args)"
proof -
  let ?b = "lower a"
  show ?thesis
  proof (cases "files s a = None \<or> ?b \<noteq> a \<and> files s ?b \<noteq> None \<and> \<not> replaces s")
    case True
    then have "renamed (replaces s) (files s) a ?b = files s" by (auto simp: renamed_def split: option.splits)
    moreover have "folder_step s (Rename a ?b) = (name_ok\<lparr>rv := - 1\<rparr>, s)"
      using True by (auto split: option.splits)
    ultimately show ?thesis using strlwr_name[OF assms] lower_text[OF assms]
      by (intro exI[of _ "told s @ [(''error'', [S a])]"]) (simp add: name_ok_def del: folder_step.simps(1))
  next
    case False
    then have "folder_step s (Rename a ?b) = (name_ok\<lparr>rv := 0\<rparr>, s\<lparr>files := renamed (replaces s) (files s) a ?b\<rparr>)"
      by (auto simp: renamed_def split: option.splits)
    then show ?thesis using strlwr_name[OF assms] lower_text[OF assms]
      by (intro exI[of _ "told s"]) (simp add: name_ok_def del: folder_step.simps(1))
  qed
qed

text \<open>The folder when the names in \<open>D\<close> have been dealt with.\<close>

definition lowered :: "string set \<Rightarrow> (string \<rightharpoonup> byte list) \<Rightarrow> (string \<rightharpoonup> byte list) \<Rightarrow> bool" where
  "lowered D f0 f \<longleftrightarrow>
    (\<forall>a \<in> D. f (lower a) = f0 a \<and> (lower a \<noteq> a \<longrightarrow> f a = None)) \<and>
    (\<forall>n. n \<notin> D \<and> n \<notin> lower ` D \<longrightarrow> f n = f0 n)"

lemma lowered_step:
  assumes l: "lowered D f0 f" and inj: "inj_on lower A" and a: "a \<in> A" "D \<subseteq> A" "f0 a \<noteq> None"
    and free: "\<forall>b \<in> A. f0 (lower b) \<noteq> None \<longrightarrow> lower b = b" and dom: "\<forall>b \<in> A. f0 b \<noteq> None"
  shows "lowered (insert a D) f0 (renamed p f a (lower a))"
proof (cases "a \<in> D")
  case True
  have "renamed p f a (lower a) = f"
  proof (cases "lower a = a")
    case True
    then show ?thesis by (auto simp: renamed_def split: option.splits)
  next
    case False
    with \<open>a \<in> D\<close> l have "f a = None" by (auto simp: lowered_def)
    then show ?thesis by (simp add: renamed_def)
  qed
  with True l show ?thesis by (simp add: insert_absorb)
next
  case False
  have ne: "lower b \<noteq> lower a" if "b \<in> D" for b
    using inj_onD[OF inj, of b a] that a False by auto
  have "a \<notin> lower ` D"
  proof
    assume "a \<in> lower ` D"
    then obtain b where "b \<in> D" "a = lower b" by auto
    then show False using ne[of b] by simp
  qed
  with False l have fa: "f a = f0 a" by (simp add: lowered_def)
  have fl: "lower a = a \<or> f (lower a) = None"
  proof (cases "lower a \<in> D")
    case True
    then show ?thesis using free dom a by auto
  next
    case False
    have "lower a \<notin> lower ` D" using ne by fastforce
    with False l have "f (lower a) = f0 (lower a)" by (simp add: lowered_def)
    with free a(1) show ?thesis by fastforce
  qed
  obtain c where c: "f0 a = Some c" using a(3) by auto
  have r: "renamed p f a (lower a) = f(a := None, lower a \<mapsto> c)" using fl fa c by (auto simp: renamed_def)
  have na: "lower b \<noteq> a" if "b \<in> D" for b using \<open>a \<notin> lower ` D\<close> that by auto
  have old: "lower a \<noteq> b" if "b \<in> D" "lower b \<noteq> b" for b using that by auto
  show ?thesis using l c ne na old unfolding lowered_def r by auto
qed

lemma lowerfn_run:
  "lowered D f0 (files s) \<Longrightarrow> inj_on lower A \<Longrightarrow> set args \<union> D \<subseteq> A \<Longrightarrow>
    \<forall>b \<in> A. f0 (lower b) \<noteq> None \<longrightarrow> lower b = b \<Longrightarrow> \<forall>b \<in> A. f0 b \<noteq> None \<Longrightarrow> \<forall>a \<in> set args. NUL \<notin> set a \<Longrightarrow>
    \<exists>s'. interp folder_step s (lowerfn_main args) = (Some 0, s') \<and> lowered (D \<union> set args) f0 (files s')"
proof (induction args arbitrary: D s)
  case (Cons a args)
  let ?s = "\<lambda>t. s\<lparr>files := renamed (replaces s) (files s) a (lower a), told := t\<rparr>"
  obtain t where t: "interp folder_step s (lowerfn_main (a # args)) = interp folder_step (?s t) (lowerfn_main args)"
    using lowerfn_step[of a s args] Cons.prems(6) by auto
  have "lowered (insert a D) f0 (files (?s t))"
    using lowered_step[OF Cons.prems(1,2), of a] Cons.prems(3,4,5) by simp
  from Cons.IH[OF this Cons.prems(2)] Cons.prems show ?case unfolding t by simp
qed simp

text \<open>
  \<open>lowerfn\<close> renames every named file to its name in lower case: if all of them exist,
  no two of them have the same name in lower case and no other file is in the way, every
  content is found under the lower case name, the old names are gone, and no other file
  has changed, on systems that replace files as on those that do not.
\<close>

theorem lowerfn_lowers:
  assumes "\<forall>a \<in> set args. NUL \<notin> set a \<and> files s a \<noteq> None \<and> (files s (lower a) \<noteq> None \<longrightarrow> lower a = a)"
    and "inj_on lower (set args)"
  shows "\<exists>s'. interp folder_step s (lowerfn_main args) = (Some 0, s') \<and>
    (\<forall>a \<in> set args. files s' (lower a) = files s a \<and> (lower a \<noteq> a \<longrightarrow> files s' a = None)) \<and>
    (\<forall>n. n \<notin> set args \<union> lower ` set args \<longrightarrow> files s' n = files s n)"
proof -
  have "lowered {} (files s) (files s)" by (simp add: lowered_def)
  from lowerfn_run[OF this assms(2), of args] assms(1)
  show ?thesis by (auto simp: lowered_def)
qed

theorem lowerfn_lowers_witness:
  "\<exists>s'. interp folder_step \<lparr>files = [''A'' \<mapsto> [1], ''b'' \<mapsto> [2]], replaces = False, told = []\<rparr>
      (lowerfn_main [''A'', ''b'']) = (Some 0, s') \<and>
    files s' ''a'' = Some [1] \<and> files s' ''b'' = Some [2] \<and> files s' ''A'' = None"
proof -
  let ?s = "\<lparr>files = [''A'' \<mapsto> [1], ''b'' \<mapsto> [2]], replaces = False, told = []\<rparr>"
  have l: "lower ''A'' = ''a''" "lower ''b'' = ''b''"
    by (simp_all add: lower_def c_tolower_def char_of_def bit_Suc_0_iff)
  have h: "\<forall>a \<in> set [''A'', ''b'']. NUL \<notin> set a \<and> files ?s a \<noteq> None \<and> (files ?s (lower a) \<noteq> None \<longrightarrow> lower a = a)"
    "inj_on lower (set [''A'', ''b''])"
    by (simp_all add: l)
  from lowerfn_lowers[OF h] show ?thesis by (auto simp: l simp del: lowerfn_main.simps)
qed

text \<open>\<open>radera\<close> removes the named files and nothing else.\<close>

lemma radera_removes:
  "\<exists>s'. interp folder_step s (radera_main (p # args)) = (Some 0, s') \<and> files s' = files s |` (- set args)"
proof -
  have "\<exists>s'. interp folder_step s (radera_loop args) = (Some 0, s') \<and> files s' = files s |` (- set args)"
  proof (induction args arbitrary: s)
    case Nil
    then show ?case by (simp add: restrict_map_def)
  next
    case (Cons a args)
    show ?case
    proof (cases "files s a")
      case None
      with Cons.IH[of "s\<lparr>told := told s @ [(''error'', [S a])]\<rparr>"] show ?thesis
        by (auto simp: name_ok_def restrict_map_def fun_eq_iff)
    next
      case (Some c)
      with Cons.IH[of "s\<lparr>files := (files s)(a := None), told := told s @ [(''Deleted: %s'', [S a])]\<rparr>"] show ?thesis
        by (auto simp: name_ok_def restrict_map_def fun_eq_iff)
    qed
  qed
  then show ?thesis by (simp add: radera_main_def)
qed

section \<open>Memory\<close>

fun block_taken :: "name_call \<times> name_reply \<Rightarrow> int option" where
  "block_taken (Strdup a, r) = (if rv r = 0 then None else Some (rv r))"
| "block_taken (HeapAlloc n, r) = Some (rv r)"
| "block_taken _ = None"

fun block_given :: "name_call \<times> name_reply \<Rightarrow> int option" where
  "block_given (Free p, r) = Some p"
| "block_given (HeapFree p, r) = Some p"
| "block_given _ = None"

interpretation blocks: resources block_taken block_given
proof
  fix e
  show "block_taken e \<noteq> None \<Longrightarrow> block_given e = None"
    by (cases e rule: block_taken.cases) simp_all
qed

definition tidy_end :: "(name_call \<times> name_reply) list \<Rightarrow> int \<Rightarrow> bool" where
  "tidy_end tr n \<longleftrightarrow> clean block_taken block_given tr \<and> n = 0"

text \<open>Every copy of a name and every buffer is freed, once.\<close>

lemma lowerfn_frees:
  "balance block_taken block_given h = Some {#} \<Longrightarrow> holds anything tidy_end h (lowerfn_main args)"
proof (induction args arbitrary: h)
  case Nil
  then show ?case by (simp add: tidy_end_def clean_balance)
next
  case (Cons a args)
  then show ?case by (auto simp: blocks.balance_append split: option.splits)
qed

lemma nameansi2oem_frees:
  "balance block_taken block_given h = Some {#} \<Longrightarrow> holds anything tidy_end h (nameansi2oem_main args)"
proof (induction args arbitrary: h)
  case Nil
  then show ?case by (simp add: tidy_end_def clean_balance)
next
  case (Cons a args)
  then show ?case by (auto simp: blocks.balance_append Let_def)
qed

end
