(* ===== verification/FileTimes.thy ===== *)
theory FileTimes
  imports Prog
begin

text \<open>
  The tools that set the time stamps of files: \<open>roundft.c\<close> rounds them up to whole
  seconds, \<open>copyft.c\<close> copies them, with the attributes, from one file to others.
\<close>

section \<open>Calls\<close>

text \<open>A \<open>FILETIME\<close> counts steps of 100 nanoseconds in 64 bits.\<close>

record file_times =
  CreationTime :: QWORD
  LastAccessTime :: QWORD
  LastWriteTime :: QWORD

record time_reply = reply +
  times :: file_times
  attributes :: DWORD

datatype access =
    FILE_READ_ATTRIBUTES
  | FILE_WRITE_ATTRIBUTES
  | FILE_READ_WRITE_ATTRIBUTES

datatype time_call =
    CreateFile string access
  | GetStdHandle string
  | CloseHandle int
  | GetFileTime int
  | SetFileTime int file_times
  | GetFileInformationByHandle int
  | SetFileAttributes string DWORD
  | WinPerror string
  | WinError
  | LocalFree
  | SetOemPrintFLineLength int
  | OemPrintf string "arg list"

type_synonym time_prog = "(time_call, time_reply) prog"

section \<open>\<open>roundft.c\<close>\<close>

definition SECOND :: nat where "SECOND = 10000000"

definition round_up :: "QWORD \<Rightarrow> QWORD" where
  "round_up q = (q + 9999999) div 10000000 * 10000000"

definition round_times :: "file_times \<Rightarrow> file_times" where
  "round_times t = \<lparr>CreationTime = round_up (CreationTime t), LastAccessTime = round_up (LastAccessTime t),
     LastWriteTime = round_up (LastWriteTime t)\<rparr>"

definition report_error :: "string \<Rightarrow> string \<Rightarrow> time_prog \<Rightarrow> time_prog" where
  "report_error fmt a k =
    Sys WinError (\<lambda>e. Sys (OemPrintf fmt [S a, S (line e)]) (\<lambda>_. Sys LocalFree (\<lambda>_. k)))"

primrec roundft_loop :: "string list \<Rightarrow> time_prog" where
  "roundft_loop [] = Done 0"
| "roundft_loop (a # args) =
    Sys (CreateFile a FILE_READ_WRITE_ATTRIBUTES) (\<lambda>f.
      if rv f = invalid_handle then report_error ''Open failed on '' a (roundft_loop args)
      else Sys (GetFileTime (rv f)) (\<lambda>t.
        if rv t = 0 then
          Sys WinError (\<lambda>e.
          Sys (CloseHandle (rv f)) (\<lambda>_.
          Sys (OemPrintf ''Query time failed on '' [S a, S (line e)]) (\<lambda>_.
          Sys LocalFree (\<lambda>_. roundft_loop args))))
        else
          Sys (SetFileTime (rv f) (round_times (times t))) (\<lambda>s.
            if rv s = 0 then
              report_error ''Set time failed on '' a (Sys (CloseHandle (rv f)) (\<lambda>_. roundft_loop args))
            else Sys (CloseHandle (rv f)) (\<lambda>_. roundft_loop args))))"

definition roundft_main :: "string list \<Rightarrow> time_prog" where
  "roundft_main args =
    Sys (GetStdHandle ''STD_ERROR_HANDLE'') (\<lambda>h.
    Sys (SetOemPrintFLineLength (rv h)) (\<lambda>_. roundft_loop args))"

section \<open>\<open>copyft.c\<close>\<close>

primrec copyft_loop :: "file_times \<Rightarrow> DWORD \<Rightarrow> string list \<Rightarrow> time_prog" where
  "copyft_loop t attr [] = Done 0"
| "copyft_loop t attr (a # args) =
    Sys (CreateFile a FILE_WRITE_ATTRIBUTES) (\<lambda>f.
      if rv f = invalid_handle then Sys (WinPerror a) (\<lambda>_. copyft_loop t attr args)
      else Sys (SetFileTime (rv f) t) (\<lambda>s.
        if rv s = 0 then Sys (WinPerror a) (\<lambda>_. copyft_loop t attr args)
        else Sys (CloseHandle (rv f)) (\<lambda>_.
          Sys (SetFileAttributes a attr) (\<lambda>b.
            if rv b = 0 then Sys (WinPerror a) (\<lambda>_. copyft_loop t attr args)
            else copyft_loop t attr args))))"

text \<open>\<open>name\<close> is what an error of the source is reported under.\<close>

definition copyft_from :: "string \<Rightarrow> int \<Rightarrow> string list \<Rightarrow> time_prog" where
  "copyft_from name hIn targets =
    Sys (GetFileInformationByHandle hIn) (\<lambda>i.
      if rv i = 0 then Sys (WinPerror name) (\<lambda>_. Done 1)
      else if targets = [] then
        Sys (GetStdHandle ''STD_OUTPUT_HANDLE'') (\<lambda>h.
        Sys (SetFileTime (rv h) (times i)) (\<lambda>s.
          if rv s = 0 then Sys (WinPerror ''stdout'') (\<lambda>_. Done 2) else Done 0))
      else Sys (CloseHandle hIn) (\<lambda>_. copyft_loop (times i) (attributes i) targets))"

definition copyft_main :: "string list \<Rightarrow> time_prog" where
  "copyft_main args =
    (case args of
       [] \<Rightarrow> Sys (GetStdHandle ''STD_INPUT_HANDLE'') (\<lambda>h. copyft_from ''stdin'' (rv h) [])
     | a # targets \<Rightarrow>
         Sys (CreateFile a FILE_READ_ATTRIBUTES) (\<lambda>f.
           if rv f = invalid_handle then Sys (WinPerror a) (\<lambda>_. Done 1)
           else copyft_from a (rv f) targets))"

section \<open>Rounding\<close>

text \<open>\<open>r\<close> is the first whole second from \<open>q\<close> on.\<close>

definition whole_second :: "QWORD \<Rightarrow> QWORD \<Rightarrow> bool" where
  "whole_second q r \<longleftrightarrow> SECOND dvd unat r \<and> unat q \<le> unat r \<and> unat r < unat q + SECOND"

definition whole_seconds :: "file_times \<Rightarrow> file_times \<Rightarrow> bool" where
  "whole_seconds t t' \<longleftrightarrow> whole_second (CreationTime t) (CreationTime t') \<and>
    whole_second (LastAccessTime t) (LastAccessTime t') \<and> whole_second (LastWriteTime t) (LastWriteTime t')"

text \<open>The system accepts no time from \<open>2^63\<close> on.\<close>

definition sane :: "file_times \<Rightarrow> bool" where
  "sane t \<longleftrightarrow> unat (CreationTime t) < 2 ^ 63 \<and> unat (LastAccessTime t) < 2 ^ 63 \<and> unat (LastWriteTime t) < 2 ^ 63"

lemma unat_round_up:
  assumes "unat q < 2 ^ 64 - SECOND"
  shows "unat (round_up q) = (unat q + 9999999) div SECOND * SECOND"
proof -
  have a: "unat (q + 9999999) = unat q + 9999999"
    using assms by (subst unat_add_lem[THEN iffD1]) (simp_all add: SECOND_def)
  have d: "unat ((q + 9999999) div 10000000) = (unat q + 9999999) div SECOND"
    by (simp add: unat_div_distrib a SECOND_def)
  have "(unat q + 9999999) div SECOND * SECOND \<le> unat q + 9999999" by simp
  then have "unat ((q + 9999999) div 10000000) * unat (10000000 :: QWORD) < 2 ^ 64"
    using assms by (simp add: d SECOND_def)
  then have "unat ((q + 9999999) div 10000000 * 10000000) = unat ((q + 9999999) div 10000000) * unat (10000000 :: QWORD)"
    by (simp add: unat_mult_lem[THEN iffD1])
  with d show ?thesis by (simp add: round_up_def SECOND_def)
qed

lemma round_up_whole:
  assumes "unat q < 2 ^ 64 - SECOND"
  shows "whole_second q (round_up q)"
proof -
  let ?m = "unat q + 9999999"
  have "?m div SECOND * SECOND + ?m mod SECOND = ?m" by simp
  moreover have "?m mod SECOND < SECOND" by (simp add: SECOND_def)
  moreover have "SECOND = 10000000" by (rule SECOND_def)
  ultimately have "unat q \<le> ?m div SECOND * SECOND" "?m div SECOND * SECOND < unat q + SECOND" by linarith+
  then show ?thesis by (simp add: whole_second_def unat_round_up[OF assms])
qed

lemma whole_second_again:
  assumes "whole_second q r" "unat q < 2 ^ 63"
  shows "round_up r = r"
proof -
  from assms obtain k where k: "unat r = k * SECOND" "unat r < 2 ^ 64 - SECOND"
    by (auto simp: whole_second_def dvd_def SECOND_def mult.commute)
  have "(k * SECOND + 9999999) div SECOND = k" by (simp add: SECOND_def)
  with unat_round_up[OF k(2)] k(1) have "unat (round_up r) = unat r" by simp
  then show ?thesis by (simp add: word_unat_eq_iff)
qed

lemma round_times_whole: "sane t \<Longrightarrow> whole_seconds t (round_times t)"
  by (auto simp: sane_def whole_seconds_def round_times_def SECOND_def intro!: round_up_whole)

lemma round_times_again: "sane t \<Longrightarrow> round_times (round_times t) = round_times t"
  using round_times_whole[of t]
  by (auto simp: sane_def whole_seconds_def round_times_def intro: whole_second_again)

section \<open>A disk\<close>

text \<open>
  Files with their time stamps and attributes, and the handles that are open on them;
  \<open>fresh\<close> is the next handle.
\<close>

record disk =
  stamps :: "string \<rightharpoonup> file_times"
  attribs :: "string \<Rightarrow> DWORD"
  handles :: "int \<rightharpoonup> string"
  fresh :: int

definition time_ok :: time_reply where
  "time_ok = \<lparr>rv = 1, out = [], line = [], num = 0, err = 0,
     times = \<lparr>CreationTime = 0, LastAccessTime = 0, LastWriteTime = 0\<rparr>, attributes = 0\<rparr>"

definition stamp_of :: "disk \<Rightarrow> int \<Rightarrow> (string \<times> file_times) option" where
  "stamp_of s h =
    (case handles s h of
       None \<Rightarrow> None
     | Some n \<Rightarrow> (case stamps s n of None \<Rightarrow> None | Some t \<Rightarrow> Some (n, t)))"

fun disk_step :: "disk \<Rightarrow> time_call \<Rightarrow> time_reply \<times> disk" where
  "disk_step s (CreateFile n a) =
    (if stamps s n = None then (time_ok\<lparr>rv := - 1\<rparr>, s)
     else (time_ok\<lparr>rv := fresh s\<rparr>, s\<lparr>handles := (handles s)(fresh s \<mapsto> n), fresh := fresh s + 1\<rparr>))"
| "disk_step s (GetFileTime h) =
    (case stamp_of s h of None \<Rightarrow> (time_ok\<lparr>rv := 0\<rparr>, s) | Some (n, t) \<Rightarrow> (time_ok\<lparr>times := t\<rparr>, s))"
| "disk_step s (SetFileTime h t) =
    (case stamp_of s h of
       None \<Rightarrow> (time_ok\<lparr>rv := 0\<rparr>, s)
     | Some (n, _) \<Rightarrow> (time_ok, s\<lparr>stamps := (stamps s)(n \<mapsto> t)\<rparr>))"
| "disk_step s (GetFileInformationByHandle h) =
    (case stamp_of s h of
       None \<Rightarrow> (time_ok\<lparr>rv := 0\<rparr>, s)
     | Some (n, t) \<Rightarrow> (time_ok\<lparr>times := t, attributes := attribs s n\<rparr>, s))"
| "disk_step s (CloseHandle h) = (time_ok, s\<lparr>handles := (handles s)(h := None)\<rparr>)"
| "disk_step s (SetFileAttributes n a) =
    (if stamps s n = None then (time_ok\<lparr>rv := 0\<rparr>, s) else (time_ok, s\<lparr>attribs := (attribs s)(n := a)\<rparr>))"
| "disk_step s c = (time_ok, s)"

definition usual :: "disk \<Rightarrow> bool" where
  "usual s \<longleftrightarrow> 0 < fresh s \<and> (\<forall>h \<in> dom (handles s). h < fresh s)"

lemma usual_fresh: "usual s \<Longrightarrow> handles s (fresh s) = None \<and> fresh s \<noteq> invalid_handle"
  by (fastforce simp: usual_def)

lemma usual_next: "usual s \<Longrightarrow> usual (s\<lparr>fresh := fresh s + 1, stamps := m\<rparr>)"
proof -
  assume "usual s"
  then have "0 < fresh s" "h < fresh s" if "h \<in> dom (handles s)" for h using that by (auto simp: usual_def)
  then have "h < fresh s + 1" if "h \<in> dom (handles s)" for h using that by fastforce
  with \<open>usual s\<close> show ?thesis by (auto simp: usual_def)
qed

lemma roundft_step:
  "usual s \<Longrightarrow> stamps s a = Some t \<Longrightarrow>
    interp disk_step s (roundft_loop (a # args)) =
    interp disk_step (s\<lparr>fresh := fresh s + 1, stamps := (stamps s)(a \<mapsto> round_times t)\<rparr>) (roundft_loop args)"
  using usual_fresh[of s]
  by (simp add: stamp_of_def time_ok_def fun_upd_idem)

lemma roundft_run:
  "usual s \<Longrightarrow> (\<And>a t. a \<in> set args \<Longrightarrow> stamps s a = Some t \<Longrightarrow> sane t \<or> round_times t = t) \<Longrightarrow>
    \<exists>s'. interp disk_step s (roundft_loop args) = (Some 0, s') \<and> handles s' = handles s \<and>
      stamps s' = (\<lambda>n. if n \<in> set args then map_option round_times (stamps s n) else stamps s n)"
proof (induction args arbitrary: s)
  case Nil
  then show ?case by simp
next
  case (Cons a args)
  show ?case
  proof (cases "stamps s a")
    case None
    then have step: "interp disk_step s (roundft_loop (a # args)) = interp disk_step s (roundft_loop args)"
      by (simp add: report_error_def time_ok_def)
    obtain s' where "interp disk_step s (roundft_loop args) = (Some 0, s')" "handles s' = handles s"
      "stamps s' = (\<lambda>n. if n \<in> set args then map_option round_times (stamps s n) else stamps s n)"
      using Cons.IH[of s] Cons.prems by auto
    with None show ?thesis unfolding step by (auto simp: fun_eq_iff)
  next
    case (Some t)
    let ?s = "s\<lparr>fresh := fresh s + 1, stamps := (stamps s)(a \<mapsto> round_times t)\<rparr>"
    have rr: "round_times (round_times t) = round_times t"
      using Cons.prems(2)[of a t] Some round_times_again[of t] by auto
    have "usual ?s" using usual_next[OF Cons.prems(1)] by simp
    moreover have "sane t' \<or> round_times t' = t'" if "b \<in> set args" "stamps ?s b = Some t'" for b t'
      using that Cons.prems(2)[of b t'] rr by (auto split: if_splits)
    ultimately obtain s' where s': "interp disk_step ?s (roundft_loop args) = (Some 0, s')" "handles s' = handles ?s"
      "stamps s' = (\<lambda>n. if n \<in> set args then map_option round_times (stamps ?s n) else stamps ?s n)"
      using Cons.IH[of ?s] by blast
    show ?thesis
      unfolding roundft_step[OF Cons.prems(1) Some] using s' Some rr by (auto simp: fun_eq_iff)
  qed
qed

text \<open>
  C38. \<open>roundft\<close> moves the three time stamps of every named file up to the first whole
  second, changes no other file, leaves no handle open and ends with status \<open>0\<close>, however
  often a file is named and whether or not all of them exist.
\<close>

theorem roundft_rounds:
  assumes "usual s" "\<forall>a \<in> set args. case stamps s a of None \<Rightarrow> True | Some t \<Rightarrow> sane t"
  shows "\<exists>s'. interp disk_step s (roundft_main args) = (Some 0, s') \<and> handles s' = handles s \<and>
    (\<forall>n. case stamps s n of
       None \<Rightarrow> stamps s' n = None
     | Some t \<Rightarrow> \<exists>t'. stamps s' n = Some t' \<and> (if n \<in> set args then whole_seconds t t' else t' = t))"
proof -
  have "\<exists>s'. interp disk_step s (roundft_loop args) = (Some 0, s') \<and> handles s' = handles s \<and>
      stamps s' = (\<lambda>n. if n \<in> set args then map_option round_times (stamps s n) else stamps s n)"
    by (rule roundft_run[OF assms(1)]) (use assms(2) in force)
  with assms(2) show ?thesis by (fastforce simp: roundft_main_def round_times_whole split: option.splits)
qed

definition stamp :: "QWORD \<Rightarrow> file_times" where
  "stamp q = \<lparr>CreationTime = q, LastAccessTime = q, LastWriteTime = q\<rparr>"

theorem roundft_rounds_witness:
  "\<exists>s'. interp disk_step \<lparr>stamps = [''a'' \<mapsto> stamp 10000001], attribs = (\<lambda>_. 0), handles = Map.empty, fresh = 1\<rparr>
      (roundft_main [''a'', ''b'']) = (Some 0, s') \<and>
    (\<exists>t'. stamps s' ''a'' = Some t' \<and> whole_seconds (stamp 10000001) t')"
proof -
  let ?s = "\<lparr>stamps = [''a'' \<mapsto> stamp 10000001], attribs = (\<lambda>_. 0), handles = Map.empty, fresh = 1\<rparr>"
  have h: "usual ?s" "\<forall>a \<in> set [''a'', ''b'']. case stamps ?s a of None \<Rightarrow> True | Some t \<Rightarrow> sane t"
    by (simp_all add: usual_def sane_def stamp_def)
  from roundft_rounds[OF h] obtain s' where s': "interp disk_step ?s (roundft_main [''a'', ''b'']) = (Some 0, s')"
    "\<forall>n. case stamps ?s n of
       None \<Rightarrow> stamps s' n = None
     | Some t \<Rightarrow> \<exists>t'. stamps s' n = Some t' \<and> (if n \<in> set [''a'', ''b''] then whole_seconds t t' else t' = t)" by blast
  from s'(2)[rule_format, of "''a''"] s'(1) show ?thesis by auto
qed

text \<open>Next to the end of the clock the sum wraps and the stamp becomes the beginning of time.\<close>

lemma round_up_wraps: "round_up 0xFFFFFFFFFFFFFFFF = 0"
  by (simp add: round_up_def)

section \<open>Copying\<close>

lemma copyft_run:
  "usual s \<Longrightarrow> \<exists>s'. interp disk_step s (copyft_loop t attr args) = (Some 0, s') \<and> handles s' = handles s \<and>
    stamps s' = (\<lambda>n. if n \<in> set args \<and> stamps s n \<noteq> None then Some t else stamps s n) \<and>
    attribs s' = (\<lambda>n. if n \<in> set args \<and> stamps s n \<noteq> None then attr else attribs s n)"
proof (induction args arbitrary: s)
  case Nil
  then show ?case by simp
next
  case (Cons a args)
  show ?case
  proof (cases "stamps s a")
    case None
    then have step: "interp disk_step s (copyft_loop t attr (a # args)) = interp disk_step s (copyft_loop t attr args)"
      by (simp add: time_ok_def)
    obtain s' where "interp disk_step s (copyft_loop t attr args) = (Some 0, s')" "handles s' = handles s"
      "stamps s' = (\<lambda>n. if n \<in> set args \<and> stamps s n \<noteq> None then Some t else stamps s n)"
      "attribs s' = (\<lambda>n. if n \<in> set args \<and> stamps s n \<noteq> None then attr else attribs s n)"
      using Cons.IH[OF Cons.prems] by blast
    with None show ?thesis unfolding step by (auto simp: fun_eq_iff)
  next
    case (Some t0)
    let ?s = "s\<lparr>fresh := fresh s + 1, stamps := (stamps s)(a \<mapsto> t), attribs := (attribs s)(a := attr)\<rparr>"
    have step: "interp disk_step s (copyft_loop t attr (a # args)) = interp disk_step ?s (copyft_loop t attr args)"
      using usual_fresh[OF Cons.prems] Some by (simp add: stamp_of_def time_ok_def fun_upd_idem)
    have "usual ?s" using usual_next[OF Cons.prems] by (simp add: usual_def)
    from Cons.IH[OF this] obtain s' where "interp disk_step ?s (copyft_loop t attr args) = (Some 0, s')"
      "handles s' = handles ?s"
      "stamps s' = (\<lambda>n. if n \<in> set args \<and> stamps ?s n \<noteq> None then Some t else stamps ?s n)"
      "attribs s' = (\<lambda>n. if n \<in> set args \<and> stamps ?s n \<noteq> None then attr else attribs ?s n)" by blast
    with Some show ?thesis unfolding step by (auto simp: fun_eq_iff)
  qed
qed

text \<open>
  With a source that exists and at least one target, \<open>copyft\<close> gives every target that
  exists the stamps and the attributes the source had at the start, changes no other file,
  leaves no handle open and ends with status \<open>0\<close>.
\<close>

theorem copyft_copies:
  assumes "usual s" "stamps s a = Some t" "targets \<noteq> []"
  shows "\<exists>s'. interp disk_step s (copyft_main (a # targets)) = (Some 0, s') \<and> handles s' = handles s \<and>
    (\<forall>n. if n \<in> set targets \<and> stamps s n \<noteq> None then stamps s' n = Some t \<and> attribs s' n = attribs s a
         else stamps s' n = stamps s n \<and> attribs s' n = attribs s n)"
proof -
  let ?s = "s\<lparr>fresh := fresh s + 1, stamps := stamps s\<rparr>"
  have step: "interp disk_step s (copyft_main (a # targets)) =
      interp disk_step ?s (copyft_loop t (attribs s a) targets)"
    using usual_fresh[OF assms(1)] assms(2,3)
    by (simp add: copyft_main_def copyft_from_def stamp_of_def time_ok_def fun_upd_idem)
  from copyft_run[OF usual_next[OF assms(1), of "stamps s"], of t "attribs s a" targets] show ?thesis
    unfolding step by auto
qed

theorem copyft_copies_witness:
  "\<exists>s'. interp disk_step \<lparr>stamps = [''a'' \<mapsto> stamp 7, ''b'' \<mapsto> stamp 8], attribs = (\<lambda>_. 0)(''a'' := 32),
      handles = Map.empty, fresh = 1\<rparr> (copyft_main [''a'', ''b'', ''c'']) = (Some 0, s') \<and>
    stamps s' ''b'' = Some (stamp 7) \<and> attribs s' ''b'' = 32 \<and> stamps s' ''c'' = None"
proof -
  let ?s = "\<lparr>stamps = [''a'' \<mapsto> stamp 7, ''b'' \<mapsto> stamp 8], attribs = (\<lambda>_. 0)(''a'' := 32),
      handles = Map.empty, fresh = 1\<rparr>"
  have h: "usual ?s" "stamps ?s ''a'' = Some (stamp 7)" "[''b'', ''c''] \<noteq> []"
    by (simp_all add: usual_def)
  from copyft_copies[OF h] obtain s' where "interp disk_step ?s (copyft_main [''a'', ''b'', ''c'']) = (Some 0, s')"
    "\<forall>n. if n \<in> set [''b'', ''c''] \<and> stamps ?s n \<noteq> None then stamps s' n = Some (stamp 7) \<and> attribs s' n = attribs ?s ''a''
         else stamps s' n = stamps ?s n \<and> attribs s' n = attribs ?s n" by blast
  then show ?thesis by (intro exI[of _ s']) (auto dest: spec[of _ "''b''"] spec[of _ "''c''"])
qed

section \<open>Handles\<close>

fun file_opened :: "time_call \<times> time_reply \<Rightarrow> int option" where
  "file_opened (CreateFile n a, r) = (if rv r = invalid_handle then None else Some (rv r))"
| "file_opened _ = None"

fun file_closed :: "time_call \<times> time_reply \<Rightarrow> int option" where
  "file_closed (CloseHandle h, r) = Some h"
| "file_closed _ = None"

fun file_refused :: "time_call \<times> time_reply \<Rightarrow> int option" where
  "file_refused (SetFileTime h t, r) = (if rv r = 0 then Some h else None)"
| "file_refused _ = None"

interpretation opened: resources file_opened file_closed
proof
  fix e
  show "file_opened e \<noteq> None \<Longrightarrow> file_closed e = None"
    by (cases e rule: file_opened.cases) simp_all
qed

text \<open>\<open>roundft\<close> closes every file; \<open>copyft\<close> leaves those open whose stamps it could not set.\<close>

definition refused :: "(time_call \<times> time_reply) list \<Rightarrow> int multiset" where
  "refused tr = mset (List.map_filter file_refused tr)"

lemma refused_simps [simp]:
  "refused [] = {#}" "refused (xs @ ys) = refused xs + refused ys"
  "refused (e # tr) = (case file_refused e of None \<Rightarrow> {#} | Some h \<Rightarrow> {#h#}) + refused tr"
  by (simp_all add: refused_def List.map_filter_def split: option.splits)

lemma roundft_closes:
  "balance file_opened file_closed h = Some {#} \<Longrightarrow>
    holds anything (\<lambda>tr n. clean file_opened file_closed tr) h (roundft_loop args)"
  by (induction args arbitrary: h) (auto simp: clean_balance report_error_def opened.balance_append)

lemma copyft_leaks:
  "balance file_opened file_closed h = Some (refused h) \<Longrightarrow>
    holds anything (\<lambda>tr n. balance file_opened file_closed tr = Some (refused tr)) h (copyft_loop t attr args)"
  by (induction args arbitrary: h) (auto simp: opened.balance_append)

end
