(* ===== verification/NtNames.thy ===== *)
theory NtNames
  imports Args
begin

text \<open>
  The tools that use NT path names: \<open>ntrm.c\<close> deletes files by the native call,
  \<open>shortren.c\<close> sets the short name of a file and \<open>dos2nt.c\<close> prints native names.
\<close>

section \<open>Calls\<close>

text \<open>\<open>wtext\<close> is the native name that a conversion put in its output string.\<close>

record nt_reply = reply +
  wtext :: wide

datatype nt_call =
    GetStdHandle string
  | SetOemPrintFLineLength int
  | RtlCreateUnicodeString wide
  | RtlDosPathNameToNtPathName wide
  | RtlFreeUnicodeString wide
  | NtDeleteFile wide
  | NtOpenFile wide
  | NtSetInformationFile int wide nat
  | OpenProcessToken
  | LookupPrivilegeValue string
  | AdjustTokenPrivileges int int
  | HeapAlloc nat
  | NtErrMsg int
  | WinErrMsg int
  | LocalFree
  | WinPerror
  | OemPrintf string string "wide list" "arg list"
  | Usage
  | Eputs string
  | Puts string
  | MessageBox string

type_synonym nt_prog = "(nt_call, nt_reply) prog"

definition error_line :: "nt_prog \<Rightarrow> nt_prog" where
  "error_line k = Sys (GetStdHandle ''STD_ERROR_HANDLE'') (\<lambda>h. Sys (SetOemPrintFLineLength (rv h)) (\<lambda>_. k))"

section \<open>\<open>ntrm.c\<close>\<close>

text \<open>
  Both conversions answer a BOOLEAN, which is taken for an \<open>NTSTATUS\<close>: FALSE, which is
  \<open>0\<close>, counts as success, and \<open>NtPath\<close>, which nothing has been stored in, is used.
\<close>

definition ntrm_error :: "wide \<Rightarrow> int \<Rightarrow> nt_prog \<Rightarrow> nt_prog" where
  "ntrm_error a stat k =
    Sys (NtErrMsg stat) (\<lambda>m.
    Sys (OemPrintf ''stderr'' ''Error: '' [a] [S (line m)]) (\<lambda>_. Sys LocalFree (\<lambda>_. k)))"

definition to_nt_path :: "wide \<Rightarrow> nt_call" where
  "to_nt_path a = (if a ! 0 = 0x5C then RtlCreateUnicodeString a else RtlDosPathNameToNtPathName a)"

primrec ntrm_loop :: "wide list \<Rightarrow> nt_prog" where
  "ntrm_loop [] = Done 0"
| "ntrm_loop (a # args) =
    (if a = [] then ntrm_loop args
     else Sys (to_nt_path a) (\<lambda>stat.
       if \<not> NT_SUCCESS (rv stat) then ntrm_error a (rv stat) (Done 1)
       else if rv stat = 0 then Crash
       else
         (let free = Sys (RtlFreeUnicodeString (wtext stat)) (\<lambda>_. ntrm_loop args) in
          Sys (NtDeleteFile (wtext stat)) (\<lambda>d.
            if NT_SUCCESS (rv d) then Sys (OemPrintf ''stderr'' ''Success: '' [a] []) (\<lambda>_. free)
            else ntrm_error a (rv d) free))))"

definition ntrm_main :: "wide list \<Rightarrow> nt_prog" where
  "ntrm_main args = error_line (if args = [] then Sys Usage (\<lambda>_. Done 1) else ntrm_loop args)"

definition ntrm_start :: "wide list option \<Rightarrow> nt_prog" where
  "ntrm_start argv = nt_startup (MessageBox ''This program requires Windows NT.'') ntrm_main argv"

section \<open>\<open>dos2nt.c\<close>\<close>

text \<open>
  \<open>several\<close> says that there is more than one name, \<open>garbage\<close> is the value that happens
  to be returned: the function ends without a return statement.
\<close>

primrec dos2nt_loop :: "bool \<Rightarrow> int \<Rightarrow> wide list \<Rightarrow> nt_prog" where
  "dos2nt_loop several garbage [] = Done garbage"
| "dos2nt_loop several garbage (a # args) =
    Sys (RtlDosPathNameToNtPathName a) (\<lambda>r.
      if rv r = 0 then Sys (OemPrintf ''stderr'' ''Invalid path: '' [a] []) (\<lambda>_. dos2nt_loop several garbage args)
      else
        Sys (OemPrintf ''stdout'' (if several then '' -> '' else []) (if several then [a, wtext r] else [wtext r]) []) (\<lambda>_.
        Sys (RtlFreeUnicodeString (wtext r)) (\<lambda>_. dos2nt_loop several garbage args)))"

definition dos2nt_main :: "int \<Rightarrow> wide list \<Rightarrow> nt_prog" where
  "dos2nt_main garbage args = error_line (dos2nt_loop (length args > 1) garbage args)"

definition dos2nt_start :: "int \<Rightarrow> wide list option \<Rightarrow> nt_prog" where
  "dos2nt_start garbage argv = nt_startup (MessageBox ''This program requires Windows NT.'') (dos2nt_main garbage) argv"

section \<open>\<open>shortren.c\<close>\<close>

definition enable_restore :: "nt_prog \<Rightarrow> nt_prog" where
  "enable_restore k =
    Sys OpenProcessToken (\<lambda>t.
      if rv t \<noteq> 0 then
        Sys (LookupPrivilegeValue ''SE_RESTORE_NAME'') (\<lambda>p.
        Sys (AdjustTokenPrivileges (num t) (num p)) (\<lambda>_. k))
      else k)"

definition set_short_name :: "int \<Rightarrow> wide \<Rightarrow> nt_prog" where
  "set_short_name hFile name =
    (let BufferSize = 8 + 2 * length name in
     Sys (HeapAlloc BufferSize) (\<lambda>b.
       if rv b = 0 then Sys WinPerror (\<lambda>_. Done (- 1))
       else Sys (NtSetInformationFile hFile name BufferSize) (\<lambda>s.
         if NT_SUCCESS (rv s) then Sys (Puts ''File short name successfully set.'') (\<lambda>_. Done 0)
         else
           Sys (NtErrMsg (rv s)) (\<lambda>m.
           Sys (OemPrintf ''stderr'' ''Cannot set new short filename: '' [] [S (line m)]) (\<lambda>_. Done (rv s))))))"

definition shortren_main :: "wide list \<Rightarrow> nt_prog" where
  "shortren_main args =
    error_line
      (if length args < 2 then Sys Usage (\<lambda>_. Done 2)
       else enable_restore
         (Sys (RtlDosPathNameToNtPathName (args ! 0)) (\<lambda>p.
            if rv p = 0 then Sys (Eputs ''Invalid path.'') (\<lambda>_. Done 1)
            else Sys (NtOpenFile (wtext p)) (\<lambda>f.
              if NT_ERROR (rv f) then
                Sys (WinErrMsg (rv f)) (\<lambda>m.
                Sys (OemPrintf ''stderr'' ''Cannot open file '' [args ! 0] [S (line m)]) (\<lambda>_. Done (rv f)))
              else set_short_name (num f) (args ! 1)))))"

definition shortren_start :: "wide list option \<Rightarrow> nt_prog" where
  "shortren_start argv =
    nt_startup (MessageBox ''This program requires Windows XP or Server 2003.'') shortren_main argv"

section \<open>Native names\<close>

text \<open>What is known of the calls: the conversions answer TRUE or FALSE.\<close>

fun nt_law :: "nt_call \<Rightarrow> nt_reply \<Rightarrow> bool" where
  "nt_law (RtlCreateUnicodeString a) r \<longleftrightarrow> rv r \<in> {0, 1}"
| "nt_law (RtlDosPathNameToNtPathName a) r \<longleftrightarrow> rv r \<in> {0, 1}"
| "nt_law _ r \<longleftrightarrow> True"

fun name_made :: "nt_call \<times> nt_reply \<Rightarrow> wide option" where
  "name_made (RtlCreateUnicodeString a, r) = (if rv r = 0 then None else Some (wtext r))"
| "name_made (RtlDosPathNameToNtPathName a, r) = (if rv r = 0 then None else Some (wtext r))"
| "name_made _ = None"

fun name_freed :: "nt_call \<times> nt_reply \<Rightarrow> wide option" where
  "name_freed (RtlFreeUnicodeString w, r) = Some w"
| "name_freed _ = None"

fun name_deleted :: "nt_call \<times> nt_reply \<Rightarrow> wide option" where
  "name_deleted (NtDeleteFile w, r) = Some w"
| "name_deleted _ = None"

interpretation nt_names: resources name_made name_freed
proof
  fix e
  show "name_made e \<noteq> None \<Longrightarrow> name_freed e = None"
    by (cases e rule: name_made.cases) simp_all
qed

definition made :: "(nt_call \<times> nt_reply) list \<Rightarrow> wide list" where
  "made tr = List.map_filter name_made tr"

definition deleted :: "(nt_call \<times> nt_reply) list \<Rightarrow> wide list" where
  "deleted tr = List.map_filter name_deleted tr"

lemma made_simps [simp]:
  "made [] = []" "made (xs @ ys) = made xs @ made ys"
  "made (e # tr) = (case name_made e of None \<Rightarrow> [] | Some w \<Rightarrow> [w]) @ made tr"
  by (simp_all add: made_def List.map_filter_def split: option.splits)

lemma deleted_simps [simp]:
  "deleted [] = []" "deleted (xs @ ys) = deleted xs @ deleted ys"
  "deleted (e # tr) = (case name_deleted e of None \<Rightarrow> [] | Some w \<Rightarrow> [w]) @ deleted tr"
  by (simp_all add: deleted_def List.map_filter_def split: option.splits)

definition names_done :: "nat \<Rightarrow> (nt_call \<times> nt_reply) list \<Rightarrow> int \<Rightarrow> bool" where
  "names_done k tr n \<longleftrightarrow> n = 0 \<and> clean name_made name_freed tr \<and> deleted tr = made tr \<and> length (made tr) = k"

lemma to_nt_path_cases:
  "nt_law (to_nt_path a) r \<Longrightarrow> rv r = 0 \<or> rv r = 1"
  "name_made (to_nt_path a, r) = (if rv r = 0 then None else Some (wtext r))"
  "name_freed (to_nt_path a, r) = None" "name_deleted (to_nt_path a, r) = None"
  by (auto simp: to_nt_path_def split: if_splits)

lemma ntrm_loop_names:
  "balance name_made name_freed h = Some {#} \<Longrightarrow> deleted h = made h \<Longrightarrow>
    holds nt_law (names_done (length (made h) + length (filter (\<lambda>a. a \<noteq> []) args))) h (ntrm_loop args)"
proof (induction args arbitrary: h)
  case Nil
  then show ?case by (simp add: names_done_def clean_balance)
next
  case (Cons a args)
  have go: "holds nt_law (names_done (length (made h) + length (filter (\<lambda>a. a \<noteq> []) (a # args)))) h' (ntrm_loop args)"
    if "a \<noteq> []" "balance name_made name_freed h' = Some {#}" "deleted h' = made h'" "made h' = made h @ [w]" for h' w
    using Cons.IH[OF that(2,3)] that(1,4) by simp
  show ?case
  proof (cases "a = []")
    case True
    with Cons show ?thesis by simp
  next
    case False
    then show ?thesis using Cons.prems
      by (auto simp: holds_Sys Let_def ntrm_error_def NT_SUCCESS_def to_nt_path_cases nt_names.balance_append
          dest: to_nt_path_cases(1) simp del: filter.simps intro!: go)
  qed
qed

text \<open>
  Started with names, \<open>ntrm\<close> has no way to report that a name could not be converted:
  every run that ends has converted all names that are not empty, has tried to delete each
  of them once and in order, has freed each native name once, and ends with status \<open>0\<close>.
\<close>

theorem ntrm_names:
  assumes "runs nt_law (ntrm_main args) tr n" "args \<noteq> []"
  shows "n = 0 \<and> clean name_made name_freed tr \<and> deleted tr = made tr \<and>
    length (made tr) = length (filter (\<lambda>a. a \<noteq> []) args)"
proof -
  have "holds nt_law (names_done (length (filter (\<lambda>a. a \<noteq> []) args))) [] (ntrm_main args)"
    using assms(2) ntrm_loop_names[of "[(GetStdHandle ''STD_ERROR_HANDLE'', r), (SetOemPrintFLineLength (rv r), r')]" args for r r']
    by (simp add: ntrm_main_def error_line_def holds_Sys balance_start)
  with assms(1) show ?thesis by (simp add: holds_iff_runs names_done_def)
qed

definition nt_ok :: nt_reply where
  "nt_ok = \<lparr>rv = 1, out = [], line = [], num = 0, err = 0, wtext = []\<rparr>"

theorem ntrm_names_witness:
  "clean name_made name_freed
    [(GetStdHandle ''STD_ERROR_HANDLE'', nt_ok), (SetOemPrintFLineLength 1, nt_ok),
     (RtlDosPathNameToNtPathName [97], nt_ok\<lparr>wtext := [92, 97]\<rparr>), (NtDeleteFile [92, 97], nt_ok),
     (OemPrintf ''stderr'' ''Success: '' [[97]] [], nt_ok), (RtlFreeUnicodeString [92, 97], nt_ok)]"
proof -
  let ?tr = "[(GetStdHandle ''STD_ERROR_HANDLE'', nt_ok), (SetOemPrintFLineLength 1, nt_ok),
     (RtlDosPathNameToNtPathName [97], nt_ok\<lparr>wtext := [92, 97]\<rparr>), (NtDeleteFile [92, 97], nt_ok),
     (OemPrintf ''stderr'' ''Success: '' [[97]] [], nt_ok), (RtlFreeUnicodeString [92, 97], nt_ok)]"
  have "runs nt_law (ntrm_main [[], [97]]) ?tr 0"
    by (simp add: ntrm_main_def error_line_def runs_Sys to_nt_path_def NT_SUCCESS_def nt_ok_def Let_def)
  from ntrm_names[OF this] show ?thesis by simp
qed

text \<open>A name that cannot be converted leads to the use of a string that was never set.\<close>

lemma ntrm_unconvertible: "a \<noteq> [] \<Longrightarrow> \<not> total nt_law (ntrm_loop (a # args))"
  by (auto simp: NT_SUCCESS_def to_nt_path_def intro: exI[of _ "nt_ok\<lparr>rv := 0\<rparr>"] split: if_splits)

lemma dos2nt_frees:
  "balance name_made name_freed h = Some {#} \<Longrightarrow>
    holds anything (\<lambda>tr n. clean name_made name_freed tr) h (dos2nt_loop b g args)"
  by (induction args arbitrary: h) (auto simp: clean_balance nt_names.balance_append)

text \<open>
  The buffer of \<open>shortren\<close> holds the length field and the name; a status of \<open>0\<close> is
  returned exactly when the name was set.
\<close>

lemma set_short_name_status:
  "runs anything (set_short_name h name) tr n \<Longrightarrow>
    (n = 0) = (\<exists>r size. (NtSetInformationFile h name size, r) \<in> set tr \<and> 0 \<le> rv r \<and> 4 + 2 * length name \<le> size)"
  by (auto simp: set_short_name_def Let_def NT_SUCCESS_def split: if_splits)

end
