(* ===== verification/Pipes.thy ===== *)
theory Pipes
  imports Args Filters
begin

text \<open>
  \<open>fwpipes.c\<close> forwards what arrives at one pipe to another; \<open>txfile.c\<close> sends a file
  through a socket, with an HTTP header in front of it when it is asked to.
\<close>

section \<open>\<open>fwpipes.c\<close>\<close>

datatype fw_call =
    InitializeSecurityDescriptor
  | SetSecurityDescriptorDacl
  | CreateNamedPipe string DWORD bool
  | GetStdHandle string
  | ConnectNamedPipe int
  | ReadPipe int nat
  | WritePipe int "byte list"
  | WinPerror "string option"
  | Warning int
  | Usage

type_synonym fw_prog = "(fw_call, reply) prog"

definition PIPE_ACCESS_INBOUND :: DWORD where "PIPE_ACCESS_INBOUND = 1"
definition PIPE_ACCESS_OUTBOUND :: DWORD where "PIPE_ACCESS_OUTBOUND = 2"
definition FILE_FLAG_WRITE_THROUGH :: DWORD where "FILE_FLAG_WRITE_THROUGH = 0x80000000"
definition BUFFER_SIZE :: nat where "BUFFER_SIZE = 8192"

text \<open>The state of the argument loop is \<open>bAnonymous\<close> and \<open>dwOpenMode\<close>; \<open>Inl\<close> leads to the usage text.\<close>

definition fw_letter :: "char \<Rightarrow> bool \<times> DWORD \<Rightarrow> unit + bool \<times> DWORD" where
  "fw_letter c s =
    (if fold_case c = CHR ''a'' then Inr (True, snd s)
     else if fold_case c = CHR ''w'' then Inr (fst s, snd s OR FILE_FLAG_WRITE_THROUGH)
     else Inl ())"

definition fw_usage :: fw_prog where
  "fw_usage = Sys Usage (\<lambda>_. Done 0)"

text \<open>
  One end: the switches and the name of a pipe, or an empty name for the standard handle.
  Without a name behind the switches the null pointer at the end of \<open>argv\<close> is read.
\<close>

definition open_end :: "DWORD \<Rightarrow> string \<Rightarrow> string list \<Rightarrow> (int \<Rightarrow> string list \<Rightarrow> fw_prog) \<Rightarrow> fw_prog" where
  "open_end mode std args k =
    (if args = [] then fw_usage
     else
       (case parse_switches is_switch fw_letter args (False, 0) of
          Inl u \<Rightarrow> fw_usage
        | Inr (_, []) \<Rightarrow> Crash
        | Inr ((bAnonymous, dwOpenMode), a # rest) \<Rightarrow>
            (let opened = (\<lambda>r. if rv r = invalid_handle then Sys (WinPerror (Some a)) (\<lambda>_. Done 1) else k (rv r) rest);
                 make = Sys (CreateNamedPipe a (mode OR dwOpenMode) bAnonymous) opened
             in if a = [] then Sys (GetStdHandle std) opened
                else if bAnonymous then
                  Sys InitializeSecurityDescriptor (\<lambda>_. Sys SetSecurityDescriptorDacl (\<lambda>_. make))
                else make)))"

text \<open>\<open>dwReadLength\<close> is the size of the next read and receives the size of the last one.\<close>

fun fw_loop :: "nat \<Rightarrow> int \<Rightarrow> int \<Rightarrow> nat \<Rightarrow> fw_prog" where
  "fw_loop 0 hSource hTarget dwReadLength = OutOfFuel"
| "fw_loop (Suc fuel) hSource hTarget dwReadLength =
    Sys (ReadPipe hSource dwReadLength) (\<lambda>r.
      if rv r = 0 then Sys (WinPerror None) (\<lambda>_. Done 1)
      else if num r = 0 then Done 0
      else Sys (WritePipe hTarget (out r)) (\<lambda>w.
        if rv w = 0 then Sys (WinPerror None) (\<lambda>_. Done 1)
        else if num r \<noteq> num w then
          Sys (Warning (num r - num w)) (\<lambda>_. fw_loop fuel hSource hTarget (nat (num r)))
        else fw_loop fuel hSource hTarget (nat (num r))))"

definition fwpipes_main :: "nat \<Rightarrow> string list \<Rightarrow> fw_prog" where
  "fwpipes_main fuel args =
    open_end PIPE_ACCESS_INBOUND ''STD_INPUT_HANDLE'' args (\<lambda>hSource args.
    open_end PIPE_ACCESS_OUTBOUND ''STD_OUTPUT_HANDLE'' args (\<lambda>hTarget _.
      Sys (ConnectNamedPipe hSource) (\<lambda>_.
      Sys (ConnectNamedPipe hTarget) (\<lambda>_.
      fw_loop fuel hSource hTarget BUFFER_SIZE))))"

section \<open>Forwarding\<close>

text \<open>
  The two ends are one pipe; \<open>broken\<close> says that a read behind the end fails, as it does
  when the writer of a named pipe has gone, where a file just gives no bytes.
\<close>

definition end_status :: "bool \<Rightarrow> int" where
  "end_status broken = (if broken then 1 else 0)"

fun tube_step :: "bool \<Rightarrow> pipe \<Rightarrow> fw_call \<Rightarrow> reply \<times> pipe" where
  "tube_step broken s (ReadPipe h n) =
    (let d = take (piece s n) (source s) in
     (ok\<lparr>rv := (if source s = [] \<and> broken then 0 else 1), out := d, num := int (length d)\<rparr>,
      s\<lparr>source := drop (piece s n) (source s), pieces := tl (pieces s)\<rparr>))"
| "tube_step broken s (WritePipe h bs) = (ok\<lparr>num := int (length bs)\<rparr>, s\<lparr>sink := sink s @ bs\<rparr>)"
| "tube_step broken s (CreateNamedPipe a m b) = (ok\<lparr>rv := 4\<rparr>, s)"
| "tube_step broken s (GetStdHandle a) = (ok\<lparr>rv := 3\<rparr>, s)"
| "tube_step broken s c = (ok, s)"

lemma fw_loop_tube:
  "length (source s) < fuel \<Longrightarrow> 0 < n \<Longrightarrow>
    \<exists>s'. interp (tube_step broken) s (fw_loop fuel hSource hTarget n) = (Some (end_status broken), s') \<and>
      sink s' = sink s @ source s \<and> source s' = []"
proof (induction fuel arbitrary: s n)
  case 0
  then show ?case by simp
next
  case (Suc fuel)
  show ?case
  proof (cases "source s = []")
    case True
    then show ?thesis by (simp add: ok_def end_status_def)
  next
    case False
    let ?k = "piece s n"
    let ?d = "take ?k (source s)"
    let ?s = "s\<lparr>source := drop ?k (source s), pieces := tl (pieces s), sink := sink s @ ?d\<rparr>"
    have k: "0 < ?k" using Suc.prems(2) by (rule piece_pos)
    with False have d: "0 < length ?d" "min (length (source s)) ?k \<noteq> 0" by simp_all
    have "interp (tube_step broken) s (fw_loop (Suc fuel) hSource hTarget n) =
        interp (tube_step broken) ?s (fw_loop fuel hSource hTarget (length ?d))"
      using d False by (auto simp: Let_def ok_def min_def)
    moreover have "length (source ?s) < fuel"
      using Suc.prems(1) False k by (cases "source s") auto
    then obtain s' where "interp (tube_step broken) ?s (fw_loop fuel hSource hTarget (length ?d)) = (Some (end_status broken), s')"
      "sink s' = sink ?s @ source ?s" "source s' = []"
      using Suc.IH[of ?s "length ?d"] d by auto
    ultimately show ?thesis by simp
  qed
qed

text \<open>Arguments that name two ends: switches out of \<open>a\<close> and \<open>w\<close>, a name, and again.\<close>

definition fw_option :: "string \<Rightarrow> bool" where
  "fw_option a \<longleftrightarrow> a \<noteq> [] \<and> is_switch (hd a) \<and> (\<forall>c \<in> set (tl a). fold_case c \<in> {CHR ''a'', CHR ''w''})"

definition fw_name :: "string \<Rightarrow> bool" where
  "fw_name a \<longleftrightarrow> a = [] \<or> \<not> is_switch (hd a)"

lemma fw_letters: "\<forall>c \<in> set cs. fold_case c \<in> {CHR ''a'', CHR ''w''} \<Longrightarrow> \<exists>s'. switch_letters fw_letter cs s = Inr s'"
  by (induction cs arbitrary: s) (auto simp: fw_letter_def)

lemma parse_fw:
  assumes "\<forall>a \<in> set opts. fw_option a" "fw_name p"
  shows "\<exists>s'. parse_switches is_switch fw_letter (opts @ p # rest) s = Inr (s', p # rest)"
proof -
  have o: "is_option is_switch a" if "a \<in> set opts" for a
    using assms(1) that by (cases a) (auto simp: fw_option_def)
  have p: "\<not> is_option is_switch p" using assms(2) by (cases p) (auto simp: fw_name_def)
  have l: "letters is_switch (opts @ p # rest) = concat (map tl opts)" "operands is_switch (opts @ p # rest) = p # rest"
    using o p by (simp_all add: letters_def operands_def takeWhile_append dropWhile_append)
  have "\<forall>c \<in> set (concat (map tl opts)). fold_case c \<in> {CHR ''a'', CHR ''w''}"
    using assms(1) by (auto simp: fw_option_def)
  from fw_letters[OF this] obtain s' where "switch_letters fw_letter (concat (map tl opts)) s = Inr s'" by blast
  then show ?thesis by (simp add: parse_switches_letters l)
qed

lemma open_end_tube:
  assumes "\<forall>a \<in> set opts. fw_option a" "fw_name p"
  shows "\<exists>h. interp (tube_step broken) s (open_end mode std (opts @ p # rest) k) = interp (tube_step broken) s (k h rest)"
  using parse_fw[OF assms, of rest "(False, 0)"] by (auto simp: open_end_def Let_def ok_def)

text \<open>
  With the switches and names of two ends, \<open>fwpipes\<close> writes every byte of the source
  to the target, in order, however the source is cut into pieces, and then ends: with
  status \<open>0\<close> at the end of a file, with status \<open>1\<close> when the source breaks.
\<close>

theorem fwpipes_forwards:
  assumes "\<forall>a \<in> set (opts @ opts'). fw_option a" "fw_name p" "fw_name p'" "length (source s) < fuel"
  shows "\<exists>s'. interp (tube_step broken) s (fwpipes_main fuel (opts @ p # opts' @ p' # rest)) =
      (Some (end_status broken), s') \<and> sink s' = sink s @ source s \<and> source s' = []"
proof -
  have o: "\<forall>a \<in> set opts. fw_option a" "\<forall>a \<in> set opts'. fw_option a" using assms(1) by auto
  let ?k2 = "\<lambda>h h' _ :: string list. Sys (ConnectNamedPipe h) (\<lambda>_. Sys (ConnectNamedPipe h') (\<lambda>_.
      fw_loop fuel h h' BUFFER_SIZE))"
  let ?k1 = "\<lambda>h args. open_end PIPE_ACCESS_OUTBOUND ''STD_OUTPUT_HANDLE'' args (?k2 h)"
  obtain h where "interp (tube_step broken) s (fwpipes_main fuel (opts @ p # opts' @ p' # rest)) =
      interp (tube_step broken) s (?k1 h (opts' @ p' # rest))"
    using open_end_tube[OF o(1) assms(2), where k = ?k1] unfolding fwpipes_main_def by blast
  moreover obtain h' where "interp (tube_step broken) s (?k1 h (opts' @ p' # rest)) = interp (tube_step broken) s (?k2 h h' rest)"
    using open_end_tube[OF o(2) assms(3), where k = "?k2 h"] by blast
  ultimately have "interp (tube_step broken) s (fwpipes_main fuel (opts @ p # opts' @ p' # rest)) =
      interp (tube_step broken) s (fw_loop fuel h h' BUFFER_SIZE)"
    by (simp add: ok_def)
  then show ?thesis using fw_loop_tube[OF assms(4)] by (simp add: BUFFER_SIZE_def)
qed

theorem fwpipes_forwards_witness:
  "\<exists>s'. interp (tube_step True) \<lparr>source = [1, 2, 3], pieces = [1], sink = []\<rparr>
      (fwpipes_main 4 [''-aw'', ''p'', []]) = (Some 1, s') \<and> sink s' = [1, 2, 3]"
proof -
  let ?s = "\<lparr>source = [1, 2, 3], pieces = [1], sink = []\<rparr>"
  have "fold_case CHR ''a'' = CHR ''a''" "fold_case CHR ''w'' = CHR ''w''"
    by (simp_all add: fold_case_def char_of_def bit_Suc_0_iff)
  then have h: "\<forall>a \<in> set ([''-aw''] @ []). fw_option a" "fw_name ''p''" "fw_name []" "length (source ?s) < 4"
    by (simp_all add: fw_option_def fw_name_def is_switch_iff)
  from fwpipes_forwards[OF h, of True "[]"] show ?thesis by (auto simp: end_status_def)
qed

text \<open>
  No read asks for more than the read before it has delivered: one short piece makes all
  later ones short.
\<close>

fun asked :: "fw_call \<times> reply \<Rightarrow> nat option" where
  "asked (ReadPipe h n, r) = Some n"
| "asked _ = None"

fun tube_law :: "fw_call \<Rightarrow> reply \<Rightarrow> bool" where
  "tube_law (ReadPipe h n) r \<longleftrightarrow> length (out r) \<le> n \<and> num r = int (length (out r))"
| "tube_law _ r \<longleftrightarrow> True"

interpretation tube: environment "tube_step broken" tube_law for broken
proof
  fix s c
  show "tube_law c (fst (tube_step broken s c))"
    by (cases c) (auto simp: ok_def Let_def piece_def)
qed

lemma fw_loop_asks:
  "runs tube_law (fw_loop fuel h h' n) tr st \<Longrightarrow>
    sorted_wrt (\<ge>) (List.map_filter asked tr) \<and> (\<forall>m \<in> set (List.map_filter asked tr). m \<le> n)"
proof (induction fuel arbitrary: n tr)
  case (Suc fuel)
  from Suc.prems obtain r tr' where tr: "tr = (ReadPipe h n, r) # tr'" and law: "num r = int (length (out r))" "length (out r) \<le> n"
    and rest: "runs tube_law (if rv r = 0 then Sys (WinPerror None) (\<lambda>_. Done 1)
      else if num r = 0 then Done 0
      else Sys (WritePipe h' (out r)) (\<lambda>w.
        if rv w = 0 then Sys (WinPerror None) (\<lambda>_. Done 1)
        else if num r \<noteq> num w then Sys (Warning (num r - num w)) (\<lambda>_. fw_loop fuel h h' (nat (num r)))
        else fw_loop fuel h h' (nat (num r)))) tr' st"
    by (auto simp: runs_Sys)
  have loop: "runs tube_law (fw_loop fuel h h' (nat (num r))) t st \<Longrightarrow>
      sorted_wrt (\<ge>) (List.map_filter asked t) \<and> (\<forall>m \<in> set (List.map_filter asked t). m \<le> length (out r))" for t
    using Suc.IH[of "length (out r)"] law(1) by simp
  have "sorted_wrt (\<ge>) (List.map_filter asked tr') \<and> (\<forall>m \<in> set (List.map_filter asked tr'). m \<le> length (out r))"
    using rest loop by (auto simp: runs_Sys map_filter_simps split: if_splits)
  with law(2) show ?case by (auto simp: tr map_filter_simps intro: le_trans)
qed simp

section \<open>\<open>txfile.c\<close>\<close>

datatype tx_call =
    WSAStartup nat
  | TxStdHandle string
  | CreateFile wide
  | GetFileSize int
  | GetLastError
  | RegOpenKey wide
  | RegQueryValue int string nat
  | RegCloseKey int
  | TransmitFile int int "string option"
  | TxPerror string wide
  | Eputs string
  | UnknownFlag WCHAR
  | MessageBox string

type_synonym tx_prog = "(tx_call, reply) prog"

definition INVALID_FILE_SIZE :: int where "INVALID_FILE_SIZE = 0xFFFFFFFF"
definition HEADER_SIZE :: nat where "HEADER_SIZE = 1024"
definition octet_stream :: string where "octet_stream = ''application/octet-stream''"

definition crlf :: string where "crlf = [CHR 0x0D, CHR 0x0A]"

text \<open>The state of the argument loop says whether a header is wanted; \<open>Inl\<close> is an unknown flag.\<close>

definition tx_letter :: "WCHAR \<Rightarrow> bool \<Rightarrow> WCHAR + bool" where
  "tx_letter c head = (if wide_fold c = 0x68 then Inr True else Inl c)"

text \<open>\<open>wcsrchr\<close>: the text from the last dot on.\<close>

fun extension :: "wide \<Rightarrow> wide option" where
  "extension [] = None"
| "extension (c # cs) =
    (case extension cs of Some e \<Rightarrow> Some e | None \<Rightarrow> if c = 0x2E then Some (c # cs) else None)"

text \<open>A size of \<open>0\<close> stands for one that could not be found out.\<close>

definition tx_size :: "int \<Rightarrow> (int \<Rightarrow> tx_prog) \<Rightarrow> tx_prog" where
  "tx_size hFile k =
    Sys (GetFileSize hFile) (\<lambda>s.
      if num s mod 2 ^ 32 = INVALID_FILE_SIZE then
        Sys GetLastError (\<lambda>e. if err e \<noteq> 0 then k 0 else k (num s))
      else k (num s))"

text \<open>
  The media type of an extension, from the registry. The terminator is written at the
  last byte of the value, which an empty value does not have.
\<close>

definition registry_text :: "byte list \<Rightarrow> nat \<Rightarrow> string" where
  "registry_text bs n = map (\<lambda>b. char_of (unat b)) (takeWhile (\<lambda>b. b \<noteq> 0) (take (n - 1) bs))"

definition tx_media :: "wide option \<Rightarrow> (string \<Rightarrow> tx_prog) \<Rightarrow> tx_prog" where
  "tx_media ext k =
    (case ext of
       None \<Rightarrow> k octet_stream
     | Some e \<Rightarrow>
         Sys (RegOpenKey e) (\<lambda>h.
           if rv h = 0 then
             Sys (RegQueryValue (num h) ''Content Type'' 1024) (\<lambda>q.
               if rv q = 0 then
                 (if num q = 0 then Crash
                  else Sys (RegCloseKey (num h)) (\<lambda>_. k (registry_text (out q) (nat (num q)))))
               else Sys (RegCloseKey (num h)) (\<lambda>_. k octet_stream))
           else k octet_stream))"

definition http_header :: "string \<Rightarrow> int \<Rightarrow> string" where
  "http_header media n =
    take (HEADER_SIZE - 1)
      (if n > 0 then ''Content-type: '' @ media @ crlf @ ''Content-length: '' @ dec n @ crlf @ crlf
       else ''Content-type: '' @ media @ crlf @ crlf)"

definition tx_send :: "int \<Rightarrow> int \<Rightarrow> string option \<Rightarrow> tx_prog" where
  "tx_send hSocket hFile head =
    Sys (TransmitFile hSocket hFile head) (\<lambda>r.
      if rv r \<noteq> 0 then
        (if head = None then Sys (Eputs ''Transmit successful.'') (\<lambda>_. Done 0) else Done 0)
      else Sys (TxPerror (if head = None then ''File not transmitted'' else ''HTTP Error 500: transmission failed'') [])
        (\<lambda>_. Done 1))"

text \<open>Where standard input is sent, the search for the extension reads through the null pointer.\<close>

definition tx_file :: "int \<Rightarrow> bool \<Rightarrow> wide list \<Rightarrow> int \<Rightarrow> tx_prog" where
  "tx_file hSocket head args hFile =
    (if hFile = 0 \<or> hFile = invalid_handle then
       Sys (if head then TxPerror ''HTTP Error 500: cannot open'' []
            else case args of [] \<Rightarrow> TxPerror ''stdin'' [] | a # _ \<Rightarrow> TxPerror [] a) (\<lambda>_. Done 1)
     else if head then
       (case args of
          [] \<Rightarrow> Crash
        | a # _ \<Rightarrow>
            tx_size hFile (\<lambda>n. tx_media (extension a) (\<lambda>media.
              tx_send hSocket hFile (Some (http_header media n)))))
     else tx_send hSocket hFile None)"

definition txfile_main :: "wide list \<Rightarrow> tx_prog" where
  "txfile_main args =
    Sys (TxStdHandle ''STD_OUTPUT_HANDLE'') (\<lambda>s.
      case parse_switches wide_switch tx_letter args False of
        Inl c \<Rightarrow> Sys (UnknownFlag c) (\<lambda>_. Done 1)
      | Inr (head, args) \<Rightarrow>
          Sys (WSAStartup 2) (\<lambda>_.
            case args of
              [] \<Rightarrow> Sys (TxStdHandle ''STD_INPUT_HANDLE'') (\<lambda>f. tx_file (rv s) head [] (rv f))
            | a # rest \<Rightarrow> Sys (CreateFile a) (\<lambda>f. tx_file (rv s) head (a # rest) (rv f))))"

definition txfile_start :: "wide list option \<Rightarrow> tx_prog" where
  "txfile_start argv = nt_startup (MessageBox ''This program requires Windows NT.'') txfile_main argv"

section \<open>The header\<close>

text \<open>What is known of the calls: a size has 64 bits.\<close>

fun tx_law :: "tx_call \<Rightarrow> reply \<Rightarrow> bool" where
  "tx_law (GetFileSize h) r \<longleftrightarrow> 0 \<le> num r \<and> num r < 2 ^ 64"
| "tx_law _ r \<longleftrightarrow> True"

definition made_header :: "string \<Rightarrow> bool" where
  "made_header h \<longleftrightarrow> (\<exists>media n. h = http_header media n \<and> 0 \<le> n \<and> n < 2 ^ 64)"

definition sends_headers :: "(tx_call \<times> reply) list \<Rightarrow> bool" where
  "sends_headers tr \<longleftrightarrow> (\<forall>e \<in> set tr. \<forall>s f h. fst e = TransmitFile s f (Some h) \<longrightarrow> made_header h)"

lemma made_headerI: "0 \<le> n \<Longrightarrow> n < 2 ^ 64 \<Longrightarrow> made_header (http_header m n)"
  by (auto simp: made_header_def)

lemma sends_headers_simps [simp]:
  "sends_headers []"
  "sends_headers (xs @ ys) \<longleftrightarrow> sends_headers xs \<and> sends_headers ys"
  "sends_headers ((c, r) # tr) \<longleftrightarrow> (\<forall>s f h. c = TransmitFile s f (Some h) \<longrightarrow> made_header h) \<and> sends_headers tr"
  by (auto simp: sends_headers_def)

abbreviation tx_safe :: "(tx_call \<times> reply) list \<Rightarrow> tx_prog \<Rightarrow> bool" where
  "tx_safe tr p \<equiv> holds tx_law (\<lambda>tr n. sends_headers tr) tr p"

lemma tx_send_safe: "sends_headers tr \<Longrightarrow> (\<forall>h. head = Some h \<longrightarrow> made_header h) \<Longrightarrow> tx_safe tr (tx_send s f head)"
  by (simp add: tx_send_def holds_Sys)

lemma tx_size_safe:
  "sends_headers tr \<Longrightarrow> (\<And>tr' n. sends_headers tr' \<Longrightarrow> 0 \<le> n \<Longrightarrow> n < 2 ^ 64 \<Longrightarrow> tx_safe tr' (k n)) \<Longrightarrow>
    tx_safe tr (tx_size f k)"
  by (simp add: tx_size_def holds_Sys)

lemma tx_media_safe:
  "sends_headers tr \<Longrightarrow> (\<And>tr' m. sends_headers tr' \<Longrightarrow> tx_safe tr' (k m)) \<Longrightarrow> tx_safe tr (tx_media e k)"
  by (simp add: tx_media_def holds_Sys split: option.splits)

lemma tx_file_safe:
  assumes "sends_headers tr"
  shows "tx_safe tr (tx_file s head args f)"
proof -
  have "tx_safe tr (tx_size f (\<lambda>n. tx_media (extension a) (\<lambda>m. tx_send s f (Some (http_header m n)))))" for a
    using assms by (auto intro!: tx_size_safe tx_media_safe tx_send_safe made_headerI)
  then show ?thesis using assms tx_send_safe[of tr None s f]
    by (auto simp: tx_file_def holds_Sys split: list.splits)
qed

lemma txfile_safe: "tx_safe [] (txfile_main args)"
  by (auto simp: txfile_main_def holds_Sys split: sum.splits list.splits intro!: tx_file_safe)

text \<open>How a client reads the header: the lines end with a carriage return and a line feed.\<close>

definition after :: "string \<Rightarrow> string \<Rightarrow> string option" where
  "after p s = (if take (length p) s = p then Some (drop (length p) s) else None)"

definition header_line :: "string \<Rightarrow> string" where
  "header_line s = takeWhile (\<lambda>c. c \<noteq> CHR 0x0D) s"

definition header_rest :: "string \<Rightarrow> string" where
  "header_rest s = drop 2 (dropWhile (\<lambda>c. c \<noteq> CHR 0x0D) s)"

definition read_header :: "string \<Rightarrow> (string \<times> nat option) option" where
  "read_header h =
    (case after ''Content-type: '' h of
       None \<Rightarrow> None
     | Some s \<Rightarrow>
         (case after ''Content-length: '' (header_rest s) of
            None \<Rightarrow> Some (header_line s, None)
          | Some t \<Rightarrow> Some (header_line s, Some (digits_value 10 (header_line t)))))"

lemma after_append [simp]: "after p (p @ s) = Some s"
  by (simp add: after_def)

lemma header_line_crlf: "CHR 0x0D \<notin> set m \<Longrightarrow> header_line (m @ crlf @ s) = m"
  by (auto simp: header_line_def crlf_def takeWhile_append)

lemma header_rest_crlf: "CHR 0x0D \<notin> set m \<Longrightarrow> header_rest (m @ crlf @ s) = s"
  by (auto simp: header_rest_def crlf_def dropWhile_append)

lemma dec_nat_no_cr: "CHR 0x0D \<notin> set (dec_nat n)"
proof
  assume "CHR 0x0D \<in> set (dec_nat n)"
  from dec_nat_digits[OF this] show False by (simp add: is_digit_of_def digit_value_def code_def Let_def)
qed

lemma read_header_lines:
  assumes "CHR 0x0D \<notin> set m"
  shows "read_header (''Content-type: '' @ m @ crlf @ s) =
    (case after ''Content-length: '' s of
       None \<Rightarrow> Some (m, None)
     | Some t \<Rightarrow> Some (m, Some (digits_value 10 (header_line t))))"
  by (simp only: read_header_def after_append option.case header_line_crlf[OF assms] header_rest_crlf[OF assms])

lemma read_http_header:
  assumes "CHR 0x0D \<notin> set m" "length m \<le> 900" "0 \<le> n" "n < 2 ^ 64"
  shows "read_header (http_header m n) = Some (m, if n = 0 then None else Some (nat n))"
proof -
  have "nat n < 10 ^ 20" using assms(3,4) by (simp add: nat_less_iff)
  from length_dec_nat[OF this] have l: "length (dec n) \<le> 20" using assms(3) by (simp add: dec_def)
  show ?thesis
  proof (cases "n = 0")
    case True
    have "http_header m n = ''Content-type: '' @ m @ crlf @ crlf"
      using assms(2) True by (simp add: http_header_def HEADER_SIZE_def crlf_def)
    moreover have "after ''Content-length: '' crlf = None" by (simp add: after_def crlf_def)
    ultimately show ?thesis using True by (simp only: read_header_lines[OF assms(1)] option.case if_True simp_thms)
  next
    case False
    with assms(3) have d: "dec n = dec_nat (nat n)" "0 < n" by (simp_all add: dec_def)
    have "http_header m n = ''Content-type: '' @ m @ crlf @ ''Content-length: '' @ dec_nat (nat n) @ crlf @ crlf"
      using assms(2) l d by (simp add: http_header_def HEADER_SIZE_def crlf_def)
    then show ?thesis using False
      by (simp only: read_header_lines[OF assms(1)] after_append option.case header_line_crlf[OF dec_nat_no_cr]
          digits_value_dec_nat if_False simp_thms)
  qed
qed

text \<open>
  Whatever the system answers, every header that \<open>txfile\<close> sends fits its buffer of 1024
  bytes with the terminator, and is made of a media type and a size; a client that reads
  it finds both again, as long as the media type has at most 900 characters and no line
  end in it.
\<close>

theorem txfile_headers:
  assumes "runs tx_law (txfile_main args) tr st" "(TransmitFile s f (Some h), r) \<in> set tr"
  shows "length h < HEADER_SIZE \<and> (\<exists>m n. h = http_header m n \<and>
    (CHR 0x0D \<notin> set m \<and> length m \<le> 900 \<longrightarrow>
      read_header h = Some (m, if n = 0 then None else Some (nat n))))"
proof -
  have "made_header h" using holds_runs[OF assms(1) txfile_safe] assms(2) by (force simp: sends_headers_def)
  then obtain m n where h: "h = http_header m n" "0 \<le> n" "n < 2 ^ 64" by (auto simp: made_header_def)
  then have "length h < HEADER_SIZE" by (simp add: http_header_def HEADER_SIZE_def)
  with h read_http_header[of m n] show ?thesis by blast
qed

theorem txfile_headers_witness:
  "\<exists>tr. runs tx_law (txfile_main [wide_of ''-h'', wide_of ''a'']) tr 0 \<and>
    (\<exists>m n. http_header octet_stream 42 = http_header m n) \<and> length (http_header octet_stream 42) < HEADER_SIZE"
proof -
  let ?h = "http_header octet_stream 42"
  let ?tr = "[(TxStdHandle ''STD_OUTPUT_HANDLE'', ok), (WSAStartup 2, ok), (CreateFile [97], ok\<lparr>rv := 7\<rparr>),
    (GetFileSize 7, ok\<lparr>num := 42\<rparr>), (TransmitFile 1 7 (Some ?h), ok)]"
  have "runs tx_law (txfile_main [wide_of ''-h'', wide_of ''a'']) ?tr 0"
    by (simp add: txfile_main_def wide_of_def wide_switch_def tx_letter_def wide_fold_def runs_Sys ok_def
        tx_file_def tx_size_def INVALID_FILE_SIZE_def tx_media_def tx_send_def del: of_char_of)
  moreover from txfile_headers[OF this, of 1 7 ?h ok] have "length ?h < HEADER_SIZE" by simp
  ultimately show ?thesis by blast
qed

text \<open>Asked for a header, \<open>txfile\<close> cannot send its standard input.\<close>

lemma txfile_stdin_crash: "hFile \<noteq> 0 \<Longrightarrow> hFile \<noteq> invalid_handle \<Longrightarrow> tx_file s True [] hFile = Crash"
  by (simp add: tx_file_def)

end
