(* ===== verification/Clipboard.thy ===== *)
theory Clipboard
  imports Filters
begin

text \<open>
  \<open>writeclp.c\<close> puts a file on the clipboard, \<open>readclp.c\<close> prints what is there.
\<close>

section \<open>The programs\<close>

datatype clip_call =
    OpenClipboard
  | EmptyClipboard
  | SetClipboardData "byte list"
  | GetClipboardData
  | GetFileSize
  | LocalAlloc nat
  | ReadFile nat
  | GetLastError
  | WinPerror string
  | Eputs string
  | Fputs "byte list"

type_synonym clip_prog = "(clip_call, reply) prog"

definition ERROR_PROC_NOT_FOUND :: int where "ERROR_PROC_NOT_FOUND = 127"
definition MAX_CLIP :: nat where "MAX_CLIP = 0x7FFFFFFD"

text \<open>
  The loop fills the block from its beginning; \<open>dwFileSize\<close> is what is still to come. A
  read that gives no bytes is no failure.
\<close>

fun fill :: "nat \<Rightarrow> nat \<Rightarrow> byte list \<Rightarrow> (byte list \<Rightarrow> clip_prog) \<Rightarrow> clip_prog" where
  "fill 0 dwFileSize mem k = (if dwFileSize = 0 then k mem else OutOfFuel)"
| "fill (Suc fuel) dwFileSize mem k =
    (if dwFileSize = 0 then k mem
     else Sys (ReadFile dwFileSize) (\<lambda>r.
       if rv r = 0 then Sys (WinPerror ''File read error'') (\<lambda>_. Done 2)
       else fill fuel (dwFileSize - nat (num r)) (mem @ out r) k))"

text \<open>
  \<open>GetFileSize\<close> gives the two halves of the size: \<open>rv\<close> the lower one, \<open>num\<close> the higher
  one. The block is one byte longer than the file and zero at first.
\<close>

definition store :: "byte list \<Rightarrow> clip_prog" where
  "store mem =
    Sys EmptyClipboard (\<lambda>e.
      let set_data = Sys (SetClipboardData (mem @ [0])) (\<lambda>r.
            if rv r = 0 then Sys (WinPerror ''Clipboard error'') (\<lambda>_. Done 1) else Done 0)
      in if rv e = 0 then Sys (WinPerror ''Cannot empty clipboard'') (\<lambda>_. set_data) else set_data)"

definition writeclp_main :: "nat \<Rightarrow> clip_prog" where
  "writeclp_main fuel =
    Sys OpenClipboard (\<lambda>o'.
      if rv o' = 0 then Sys (WinPerror ''Cannot open clipboard'') (\<lambda>_. Done 1)
      else Sys GetFileSize (\<lambda>s.
        if num s \<noteq> 0 then Sys (Eputs ''Too big input file'') (\<lambda>_. Done 2)
        else if rv s = 0 then Sys (Eputs ''Input file is either empty or unreadable.'') (\<lambda>_. Done 2)
        else if nat (rv s) > MAX_CLIP then
          Sys (Eputs ''Either the input file is too big or is not a seekable file object.'') (\<lambda>_. Done 2)
        else Sys (LocalAlloc (nat (rv s) + 1)) (\<lambda>m.
          if rv m = 0 then Sys (WinPerror ''Memory allocation error'') (\<lambda>_. Done 3)
          else fill fuel (nat (rv s)) [] store)))"

definition readclp_main :: clip_prog where
  "readclp_main =
    Sys OpenClipboard (\<lambda>o'.
      if rv o' = 0 then Sys (WinPerror ''Cannot open clipboard'') (\<lambda>_. Done 1)
      else Sys GetClipboardData (\<lambda>d.
        if rv d = 0 then
          Sys GetLastError (\<lambda>e.
            if err e = ERROR_PROC_NOT_FOUND then Sys (Eputs ''Clipboard data is not text.'') (\<lambda>_. Done 2)
            else Sys (WinPerror ''Unable to read data from clipboard'') (\<lambda>_. Done 2))
        else Sys (Fputs (takeWhile (\<lambda>b. b \<noteq> 0) (out d))) (\<lambda>_. Done 0)))"

section \<open>A desktop\<close>

text \<open>
  The input file with the pieces in which it is read, the clipboard, and what has been
  printed. \<open>shrunk\<close> is a file that has become shorter since its size was asked for.
\<close>

record desktop =
  input :: pipe
  claimed :: nat
  clip :: "byte list option"
  printed :: "byte list"

fun desk_step :: "desktop \<Rightarrow> clip_call \<Rightarrow> reply \<times> desktop" where
  "desk_step s GetFileSize = (ok\<lparr>rv := int (claimed s mod 2 ^ 32), num := int (claimed s div 2 ^ 32)\<rparr>, s)"
| "desk_step s (ReadFile n) =
    (let k = piece (input s) n; d = take k (source (input s)) in
     (ok\<lparr>out := d, num := int (length d)\<rparr>,
      s\<lparr>input := (input s)\<lparr>source := drop k (source (input s)), pieces := tl (pieces (input s))\<rparr>\<rparr>))"
| "desk_step s EmptyClipboard = (ok, s\<lparr>clip := None\<rparr>)"
| "desk_step s (SetClipboardData bs) = (ok, s\<lparr>clip := Some bs\<rparr>)"
| "desk_step s GetClipboardData =
    (case clip s of None \<Rightarrow> (ok\<lparr>rv := 0\<rparr>, s) | Some bs \<Rightarrow> (ok\<lparr>out := bs\<rparr>, s))"
| "desk_step s (Fputs bs) = (ok, s\<lparr>printed := printed s @ bs\<rparr>)"
| "desk_step s c = (ok, s)"

lemma fill_desk:
  "length (source (input s)) \<le> fuel \<Longrightarrow>
    \<exists>p. interp desk_step s (fill fuel (length (source (input s))) mem k) =
      interp desk_step (s\<lparr>input := p\<rparr>) (k (mem @ source (input s)))"
proof (induction fuel arbitrary: s mem)
  case 0
  then show ?case by (intro exI[of _ "input s"]) simp
next
  case (Suc fuel)
  let ?src = "source (input s)"
  show ?case
  proof (cases "?src = []")
    case True
    then show ?thesis by (intro exI[of _ "input s"]) simp
  next
    case False
    let ?j = "piece (input s) (length ?src)"
    let ?s = "s\<lparr>input := (input s)\<lparr>source := drop ?j ?src, pieces := tl (pieces (input s))\<rparr>\<rparr>"
    have j: "0 < ?j" "?j \<le> length ?src" using False by (auto simp: piece_pos) (simp add: piece_def)
    have step: "interp desk_step s (fill (Suc fuel) (length ?src) mem k) =
        interp desk_step ?s (fill fuel (length (source (input ?s))) (mem @ take ?j ?src) k)"
      using False j by (simp add: Let_def ok_def min_absorb2)
    have "length (source (input ?s)) \<le> fuel" using Suc.prems j by simp
    from Suc.IH[OF this, of "mem @ take ?j ?src"] obtain p where
      "interp desk_step ?s (fill fuel (length (source (input ?s))) (mem @ take ?j ?src) k) =
        interp desk_step (?s\<lparr>input := p\<rparr>) (k ((mem @ take ?j ?src) @ source (input ?s)))" by blast
    then have "interp desk_step s (fill (Suc fuel) (length ?src) mem k) =
        interp desk_step (s\<lparr>input := p\<rparr>) (k (mem @ ?src))" unfolding step by simp
    then show ?thesis by blast
  qed
qed

text \<open>
  What \<open>writeclp\<close> takes from a file of up to \<open>MAX_CLIP\<close> bytes, in whatever pieces it is
  read, \<open>readclp\<close> prints, up to the first zero byte; both runs end with status \<open>0\<close>.
\<close>

theorem clipboard_roundtrip:
  assumes "claimed s = length (source (input s))" "0 < claimed s" "claimed s \<le> MAX_CLIP" "claimed s \<le> fuel"
  shows "\<exists>s1 s2. interp desk_step s (writeclp_main fuel) = (Some 0, s1) \<and>
    interp desk_step s1 readclp_main = (Some 0, s2) \<and>
    printed s2 = printed s @ takeWhile (\<lambda>b. b \<noteq> 0) (source (input s))"
proof -
  let ?src = "source (input s)"
  have c: "claimed s mod 2 ^ 32 = claimed s" "claimed s div 2 ^ 32 = 0"
    using assms(3) by (simp_all add: MAX_CLIP_def)
  have "length ?src \<le> fuel" using assms(1,4) by simp
  from fill_desk[OF this, of "[]" store] obtain p where
    p: "interp desk_step s (fill fuel (length ?src) [] store) = interp desk_step (s\<lparr>input := p\<rparr>) (store ?src)" by auto
  have "interp desk_step s (writeclp_main fuel) = interp desk_step s (fill fuel (length ?src) [] store)"
    using assms c by (simp add: writeclp_main_def ok_def)
  also have "\<dots> = (Some 0, s\<lparr>input := p, clip := Some (?src @ [0])\<rparr>)"
    unfolding p by (simp add: store_def ok_def)
  finally have w: "interp desk_step s (writeclp_main fuel) = (Some 0, s\<lparr>input := p, clip := Some (?src @ [0])\<rparr>)" .
  have t: "takeWhile (\<lambda>b. b \<noteq> 0) (xs @ [0]) = takeWhile (\<lambda>b. b \<noteq> 0) xs" for xs :: "byte list"
    by (induction xs) simp_all
  show ?thesis using w t by (auto simp: readclp_main_def ok_def)
qed

theorem clipboard_roundtrip_witness:
  "\<exists>s1 s2. interp desk_step \<lparr>input = \<lparr>source = [72, 105, 0, 33], pieces = [1, 2], sink = []\<rparr>, claimed = 4,
      clip = Some [1], printed = []\<rparr> (writeclp_main 4) = (Some 0, s1) \<and>
    interp desk_step s1 readclp_main = (Some 0, s2) \<and> printed s2 = [72, 105]"
proof -
  let ?s = "\<lparr>input = \<lparr>source = [72, 105, 0, 33], pieces = [1, 2], sink = []\<rparr>, claimed = 4, clip = Some [1], printed = []\<rparr>"
  have h: "claimed ?s = length (source (input ?s))" "0 < claimed ?s" "claimed ?s \<le> MAX_CLIP" "claimed ?s \<le> 4"
    by (simp_all add: MAX_CLIP_def)
  from clipboard_roundtrip[OF h] show ?thesis by simp
qed

text \<open>A file that has become shorter than its size keeps \<open>writeclp\<close> reading for ever.\<close>

lemma fill_shrunk:
  "source (input s) = [] \<Longrightarrow> 0 < n \<Longrightarrow> fst (interp desk_step s (fill fuel n mem k)) = None"
  by (induction fuel arbitrary: s mem) (simp_all add: Let_def ok_def)

end
