(* ===== verification/Devices.thy ===== *)
theory Devices
  imports CLib ChkFile Prog
begin

text \<open>
  The tools that control files and volumes below their contents: \<open>chsize32.c\<close> sets the
  size of a file, \<open>umount.c\<close> and \<open>devioctl_get_disk_geometry.c\<close> make one device request,
  \<open>devioctl.c\<close> makes all of them.
\<close>

section \<open>Calls\<close>

text \<open>
  \<open>members\<close> are the numbers of an output structure, in the order of its members; the last
  argument of \<open>DeviceIoControl\<close> are the numbers of the input structure.
\<close>

record dev_reply = reply +
  members :: "int list"

datatype access =
    GENERIC_READ
  | GENERIC_READ_WRITE
  | ATTRIBUTES_SYNCHRONIZE
  | NO_ACCESS

datatype ioctl =
    FSCTL_LOCK_VOLUME
  | FSCTL_DISMOUNT_VOLUME
  | FSCTL_EXTEND_VOLUME
  | FSCTL_SET_SPARSE
  | IOCTL_STORAGE_LOAD_MEDIA
  | IOCTL_STORAGE_EJECT_MEDIA
  | IOCTL_STORAGE_GET_DEVICE_NUMBER
  | IOCTL_DISK_GET_DRIVE_GEOMETRY
  | IOCTL_DISK_GET_LENGTH_INFO
  | IOCTL_DISK_GET_PARTITION_INFO
  | IOCTL_DISK_GROW_PARTITION
  | IOCTL_DISK_UPDATE_PROPERTIES
  | IOCTL_SCSI_GET_ADDRESS
  | IOCTL_VOLUME_OFFLINE
  | IOCTL_VOLUME_ONLINE

datatype dev_call =
    CreateFile string access
  | DeviceIoControl int ioctl "int list"
  | FlushFileBuffers int
  | ReadFile int nat
  | SetFilePointer int QWORD
  | SetEndOfFile int
  | SetLastError int
  | GetLastError
  | SetErrorMode
  | SetProcessShutdownParameters nat
  | WinPerror "string option"
  | Usage
  | Puts string
  | Eputs string
  | Eprintf string "arg list"
  | Printf string "arg list"

type_synonym dev_prog = "(dev_call, dev_reply) prog"

definition num_at :: "dev_reply \<Rightarrow> nat \<Rightarrow> arg" where
  "num_at r i = I (if i < length (members r) then members r ! i else 0)"

section \<open>Sizes with a suffix\<close>

text \<open>
  \<open>%I64i\<close>: a number with the prefixes of C, and the text behind it. A number that has no
  64 bit value is undefined in C.
\<close>

definition scan_number :: "string \<Rightarrow> (int \<times> string) option" where
  "scan_number s =
    (let t = dropWhile c_isspace s;
         neg = (t \<noteq> [] \<and> hd t = CHR ''-'');
         u = (if t \<noteq> [] \<and> (hd t = CHR ''-'' \<or> hd t = CHR ''+'') then tl t else t);
         (base, v) = number_prefix 0 u;
         ds = takeWhile (is_digit_of base) v;
         n = int (digits_value base ds)
     in if ds = [] then None else Some (if neg then - n else n, dropWhile (is_digit_of base) v))"

definition fits_64 :: "int \<Rightarrow> bool" where
  "fits_64 n \<longleftrightarrow> - (2 ^ 63) \<le> n \<and> n < 2 ^ 63"

datatype scanned =
    NoNumber
  | Number QWORD
  | WithSuffix QWORD char
  | TooLarge

definition sscanf_size :: "string \<Rightarrow> scanned" where
  "sscanf_size s =
    (case scan_number s of
       None \<Rightarrow> NoNumber
     | Some (n, r) \<Rightarrow>
         if \<not> fits_64 n then TooLarge
         else (case r of [] \<Rightarrow> Number (of_int n) | c # _ \<Rightarrow> WithSuffix (of_int n) c))"

text \<open>The cases fall through: a step for each letter down to \<open>K\<close>.\<close>

definition suffix_steps :: "char \<Rightarrow> nat option" where
  "suffix_steps c =
    (if c = CHR ''K'' then Some 1 else if c = CHR ''M'' then Some 2 else if c = CHR ''G'' then Some 3
     else None)"

definition chsize_steps :: "char \<Rightarrow> nat option" where
  "chsize_steps c =
    (if c = CHR 0x00 then Some 0
     else if c = CHR ''T'' \<or> c = CHR ''t'' then Some 4
     else if c = CHR ''G'' \<or> c = CHR ''g'' then Some 3
     else if c = CHR ''M'' \<or> c = CHR ''m'' then Some 2
     else if c = CHR ''K'' \<or> c = CHR ''k'' then Some 1
     else None)"

primrec shift_steps :: "nat \<Rightarrow> QWORD \<Rightarrow> QWORD" where
  "shift_steps 0 n = n"
| "shift_steps (Suc k) n = shift_steps k (push_bit 10 n)"

text \<open>
  The two levels of the switch: \<open>bad\<close> is what happens to an unknown suffix, \<open>none\<close> to a
  text that is no number.
\<close>

definition with_size :: "(char \<Rightarrow> nat option) \<Rightarrow> string \<Rightarrow> (char \<Rightarrow> dev_prog) \<Rightarrow> dev_prog \<Rightarrow>
    (QWORD \<Rightarrow> dev_prog) \<Rightarrow> dev_prog" where
  "with_size steps s bad none k =
    (case sscanf_size s of
       NoNumber \<Rightarrow> none
     | Number n \<Rightarrow> k n
     | WithSuffix n c \<Rightarrow> (case steps c of None \<Rightarrow> bad c | Some j \<Rightarrow> k (shift_steps j n))
     | TooLarge \<Rightarrow> Crash)"

section \<open>\<open>chsize32.c\<close>\<close>

definition set_size :: "int \<Rightarrow> QWORD \<Rightarrow> dev_prog" where
  "set_size hFile n =
    (let set_end = Sys (SetEndOfFile hFile) (\<lambda>r. if rv r \<noteq> 0 then Done 0 else Sys (WinPerror None) (\<lambda>_. Done 1)) in
     Sys (SetFilePointer hFile n) (\<lambda>p.
       if rv p = 0xFFFFFFFF then
         Sys GetLastError (\<lambda>e. if err e \<noteq> 0 then Sys (WinPerror None) (\<lambda>_. Done 1) else set_end)
       else set_end))"

definition chsize_file :: "bool \<Rightarrow> string \<Rightarrow> QWORD \<Rightarrow> dev_prog" where
  "chsize_file bSetSparse a n =
    Sys (CreateFile a GENERIC_READ_WRITE) (\<lambda>f.
      if rv f = invalid_handle then Sys (WinPerror (Some a)) (\<lambda>_. Done 1)
      else if bSetSparse then
        Sys (DeviceIoControl (rv f) FSCTL_SET_SPARSE []) (\<lambda>s.
          if rv s = 0 then Sys (WinPerror (Some ''Error setting sparse attribute'')) (\<lambda>_. set_size (rv f) n)
          else set_size (rv f) n)
      else set_size (rv f) n)"

text \<open>\<open>strcmpi\<close> with \<open>-s\<close> ignores the case of the letter.\<close>

definition chsize_main :: "string list \<Rightarrow> dev_prog" where
  "chsize_main args =
    (let bSetSparse = (length args = 3 \<and> (args ! 0 = ''-s'' \<or> args ! 0 = ''-S''));
         args = (if bSetSparse then tl args else args)
     in if length args \<noteq> 2 then Sys Usage (\<lambda>_. Done 0)
        else with_size chsize_steps (args ! 1)
          (\<lambda>c. Sys (Eprintf ''Unknown size extension: %c'' [S [c]]) (\<lambda>_. Done 1))
          (Sys (Eprintf ''Expected file size, got %s'' [S (args ! 1)]) (\<lambda>_. Done 1))
          (chsize_file bSetSparse (args ! 0)))"

section \<open>\<open>umount.c\<close> and \<open>devioctl_get_disk_geometry.c\<close>\<close>

text \<open>
  Both pass \<open>argv[1]\<close> on without a test; without arguments it is a null pointer, which
  the system refuses, here as the name of no device.
\<close>

definition first_name :: "string list \<Rightarrow> string" where
  "first_name args = (case args of [] \<Rightarrow> [] | a # _ \<Rightarrow> a)"

definition umount_main :: "string list \<Rightarrow> dev_prog" where
  "umount_main args =
    Sys (CreateFile (first_name args) GENERIC_READ_WRITE) (\<lambda>d.
      if rv d = invalid_handle then Sys (WinPerror (Some ''Cannot access volume'')) (\<lambda>_. Done 2)
      else Sys (DeviceIoControl (rv d) FSCTL_DISMOUNT_VOLUME []) (\<lambda>r.
        if rv r = 0 then Sys (WinPerror (Some ''Volume dismount failed'')) (\<lambda>_. Done 1)
        else Sys (Puts ''Volume dismounted successfully.'') (\<lambda>_. Done 0)))"

definition geometry_main :: "string list \<Rightarrow> dev_prog" where
  "geometry_main args =
    Sys SetErrorMode (\<lambda>_.
    Sys (CreateFile (first_name args) NO_ACCESS) (\<lambda>h.
      if rv h = invalid_handle then Sys (WinPerror None) (\<lambda>_. Done 1)
      else Sys (DeviceIoControl (rv h) IOCTL_DISK_GET_DRIVE_GEOMETRY []) (\<lambda>g.
        if rv g = 0 then Sys (WinPerror None) (\<lambda>_. Done 1)
        else Sys (Printf ''Cylinders, Tracks per cylinder, Sectors per track, Bytes per sector''
          [num_at g 0, num_at g 2, num_at g 3, num_at g 4]) (\<lambda>_. Done 0))))"

section \<open>\<open>devioctl.c\<close>: the boot record\<close>

text \<open>The packed structures at the beginning of a volume, all numbers little endian.\<close>

definition le_at :: "byte list \<Rightarrow> nat \<Rightarrow> nat \<Rightarrow> int" where
  "le_at bs off n = int (le_nat (take n (drop off bs)))"

record FAT_BPB =
  BytesPerSector :: int
  SectorsPerCluster :: int
  ReservedSectors :: int
  NumberOfFileAllocationTables :: int
  NumberOfRootEntries :: int
  NumberOfSectors :: int
  MediaDescriptor :: int
  SectorsPerFileAllocationTable :: int
  SectorsPerTrack :: int
  NumberOfHeads :: int
  NumberOfHiddenSectors :: int
  TotalNumberOfSectors :: int

record EXT_BPB =
  PhysicalDriveNumber :: int
  CurrentHead :: int
  Signature :: int
  Id :: int
  VolumeLabel :: "byte list"
  SystemId :: "byte list"

record FAT_VBR =
  OEMName :: "byte list"
  BPB :: FAT_BPB
  ExtendedBPB :: EXT_BPB

definition fat_bpb :: "byte list \<Rightarrow> FAT_BPB" where
  "fat_bpb bs = \<lparr>BytesPerSector = le_at bs 0 2, SectorsPerCluster = le_at bs 2 1, ReservedSectors = le_at bs 3 2,
     NumberOfFileAllocationTables = le_at bs 5 1, NumberOfRootEntries = le_at bs 6 2, NumberOfSectors = le_at bs 8 2,
     MediaDescriptor = le_at bs 10 1, SectorsPerFileAllocationTable = le_at bs 11 2, SectorsPerTrack = le_at bs 13 2,
     NumberOfHeads = le_at bs 15 2, NumberOfHiddenSectors = le_at bs 17 4, TotalNumberOfSectors = le_at bs 21 4\<rparr>"

definition ext_bpb :: "byte list \<Rightarrow> EXT_BPB" where
  "ext_bpb bs = \<lparr>PhysicalDriveNumber = le_at bs 0 1, CurrentHead = le_at bs 1 1, Signature = le_at bs 2 1,
     Id = le_at bs 3 4, VolumeLabel = take 11 (drop 7 bs), SystemId = take 8 (drop 18 bs)\<rparr>"

definition fat_vbr :: "byte list \<Rightarrow> FAT_VBR" where
  "fat_vbr bs = \<lparr>OEMName = take 8 (drop 3 bs), BPB = fat_bpb (drop 11 bs), ExtendedBPB = ext_bpb (drop 36 bs)\<rparr>"

definition CleanNonPrintables :: "byte list \<Rightarrow> byte list" where
  "CleanNonPrintables str = map (\<lambda>b. if b AND 0xE0 = 0 then 0x20 else b) str"

text \<open>\<open>%.*s\<close> with the size of the array; a zero byte would end the text.\<close>

definition shown_text :: "byte list \<Rightarrow> arg" where
  "shown_text bs = S (map (\<lambda>b. char_of (unat b)) (takeWhile (\<lambda>b. b \<noteq> 0) (CleanNonPrintables bs)))"

text \<open>\<open>TO_h\<close> is a quotient; it is given by its numerator and its divisor.\<close>

definition to_unit :: "int \<Rightarrow> int" where
  "to_unit n = (if n \<ge> 2 ^ 40 then 2 ^ 40 else if n \<ge> 2 ^ 30 then 2 ^ 30 else if n \<ge> 2 ^ 20 then 2 ^ 20
     else if n \<ge> 2 ^ 10 then 2 ^ 10 else 1)"

definition TO_p :: "int \<Rightarrow> string" where
  "TO_p n = (if n \<ge> 2 ^ 40 then ''TB'' else if n \<ge> 2 ^ 30 then ''GB'' else if n \<ge> 2 ^ 20 then ''MB''
     else if n \<ge> 2 ^ 10 then ''KB'' else if n = 1 then ''byte'' else ''bytes'')"

definition human :: "int \<Rightarrow> arg list" where
  "human n = [I n, I n, I (to_unit n), S (TO_p n)]"

text \<open>The comparisons are unsigned.\<close>

definition unsigned_64 :: "int \<Rightarrow> int" where
  "unsigned_64 n = n mod 2 ^ 64"

section \<open>\<open>devioctl.c\<close>: one device\<close>

text \<open>
  Each part is given what happens when it leaves the switch: \<open>brk\<close>. Only the geometry and
  the address are asked for with read access.
\<close>

definition num_of :: "dev_reply \<Rightarrow> nat \<Rightarrow> int" where
  "num_of r i = (if i < length (members r) then members r ! i else 0)"

definition print_geometry :: "int \<Rightarrow> dev_prog \<Rightarrow> dev_prog" where
  "print_geometry hDev k =
    Sys (DeviceIoControl hDev IOCTL_DISK_GET_DRIVE_GEOMETRY []) (\<lambda>g.
      if rv g \<noteq> 0 then
        (let total_size = unsigned_64 (num_of g 0 * num_of g 2 * num_of g 3 * num_of g 4) in
         Sys (Printf ''Disk CHS geometry''
           ([num_at g 1, num_at g 0, num_at g 2, num_at g 3, num_at g 4] @ human total_size)) (\<lambda>_. k))
      else Sys (WinPerror (Some ''IOCTL_DISK_GET_DRIVE_GEOMETRY'')) (\<lambda>_. k))"

definition print_length :: "int \<Rightarrow> dev_prog \<Rightarrow> dev_prog" where
  "print_length hDev k =
    Sys (DeviceIoControl hDev IOCTL_DISK_GET_LENGTH_INFO []) (\<lambda>l.
      if rv l \<noteq> 0 then Sys (Printf ''LBA length'' (human (unsigned_64 (num_of l 0)))) (\<lambda>_. k) else k)"

definition print_partition :: "int \<Rightarrow> dev_prog \<Rightarrow> dev_prog" where
  "print_partition hDev k =
    Sys (DeviceIoControl hDev IOCTL_DISK_GET_PARTITION_INFO []) (\<lambda>p.
      if rv p \<noteq> 0 then
        Sys (Printf ''Partition information''
          ([num_at p 0] @ human (unsigned_64 (num_of p 1)) @ [num_at p 2, num_at p 3, num_at p 4, num_at p 5, num_at p 6]))
          (\<lambda>_. k)
      else k)"

definition print_number :: "int \<Rightarrow> dev_prog \<Rightarrow> dev_prog" where
  "print_number hDev k =
    Sys (DeviceIoControl hDev IOCTL_STORAGE_GET_DEVICE_NUMBER []) (\<lambda>n.
      if rv n \<noteq> 0 then Sys (Printf ''Device type'' [num_at n 0, num_at n 1, num_at n 2]) (\<lambda>_. k) else k)"

definition vbr_args :: "FAT_VBR \<Rightarrow> arg list" where
  "vbr_args v =
    (let b = BPB v; e = ExtendedBPB v in
     [shown_text (OEMName v), I (BytesPerSector b), I (SectorsPerCluster b), I (ReservedSectors b),
      I (NumberOfFileAllocationTables b), I (NumberOfRootEntries b), I (NumberOfSectors b), I (MediaDescriptor b),
      I (SectorsPerFileAllocationTable b), I (SectorsPerTrack b), I (NumberOfHeads b), I (PhysicalDriveNumber e),
      I (Signature e), I (Id e), shown_text (VolumeLabel e), shown_text (SystemId e)])"

text \<open>A sector that arrives only in part leaves members of the record without a value.\<close>

definition print_boot_record :: "int \<Rightarrow> dev_prog \<Rightarrow> dev_prog" where
  "print_boot_record hDev k =
    Sys (ReadFile hDev 512) (\<lambda>r.
      if rv r \<noteq> 0 then
        (if length (out r) < 512 then Crash
         else Sys (Printf ''Volume boot record values'' (vbr_args (fat_vbr (out r)))) (\<lambda>_. k))
      else Sys (WinPerror (Some ''Error reading first sector'')) (\<lambda>_. k))"

definition geometry_turn :: "string \<Rightarrow> dev_prog \<Rightarrow> dev_prog" where
  "geometry_turn cBuf brk =
    Sys (CreateFile cBuf GENERIC_READ) (\<lambda>f.
      if rv f = invalid_handle then brk
      else
        Sys (DeviceIoControl (rv f) IOCTL_DISK_UPDATE_PROPERTIES []) (\<lambda>_.
        print_geometry (rv f) (print_length (rv f) (print_partition (rv f) (print_number (rv f)
          (print_boot_record (rv f) (Sys (SetLastError 0) (\<lambda>_. brk))))))))"

definition scsi_turn :: "string \<Rightarrow> dev_prog \<Rightarrow> dev_prog" where
  "scsi_turn cBuf brk =
    Sys (CreateFile cBuf GENERIC_READ) (\<lambda>f.
      if rv f = invalid_handle then brk
      else
        Sys (DeviceIoControl (rv f) IOCTL_DISK_UPDATE_PROPERTIES []) (\<lambda>_.
        Sys (DeviceIoControl (rv f) IOCTL_SCSI_GET_ADDRESS []) (\<lambda>a.
          if rv a = 0 then brk
          else Sys (Printf ''Disk SCSI address'' [num_at a 1, num_at a 2, num_at a 3, num_at a 4]) (\<lambda>_.
            Sys (SetLastError 0) (\<lambda>_. brk)))))"

definition open_volume :: "string \<Rightarrow> (int \<Rightarrow> dev_prog) \<Rightarrow> dev_prog \<Rightarrow> dev_prog" where
  "open_volume cBuf k brk =
    Sys (CreateFile cBuf GENERIC_READ_WRITE) (\<lambda>f.
      if rv f = invalid_handle then
        Sys (CreateFile cBuf ATTRIBUTES_SYNCHRONIZE) (\<lambda>f'. if rv f' = invalid_handle then brk else k (rv f'))
      else k (rv f))"

definition dismount :: "ioctl \<Rightarrow> dev_prog \<Rightarrow> int \<Rightarrow> dev_prog" where
  "dismount req brk hDev =
    Sys (DeviceIoControl hDev FSCTL_DISMOUNT_VOLUME []) (\<lambda>d.
      if rv d = 0 then brk
      else if req \<in> {IOCTL_STORAGE_EJECT_MEDIA, IOCTL_VOLUME_OFFLINE, IOCTL_VOLUME_ONLINE} then
        Sys (DeviceIoControl hDev req []) (\<lambda>e. if rv e \<noteq> 0 then Sys (SetLastError 0) (\<lambda>_. brk) else brk)
      else Sys (SetLastError 0) (\<lambda>_. brk))"

definition lock_turn :: "ioctl \<Rightarrow> string \<Rightarrow> dev_prog \<Rightarrow> dev_prog" where
  "lock_turn req cBuf brk =
    open_volume cBuf
      (\<lambda>hDev. Sys (FlushFileBuffers hDev) (\<lambda>_.
        Sys (DeviceIoControl hDev FSCTL_LOCK_VOLUME []) (\<lambda>l. if rv l = 0 then brk else dismount req brk hDev)))
      brk"

definition dismount_turn :: "ioctl \<Rightarrow> string \<Rightarrow> dev_prog \<Rightarrow> dev_prog" where
  "dismount_turn req cBuf brk = open_volume cBuf (dismount req brk) brk"

definition simple_turn :: "ioctl \<Rightarrow> string \<Rightarrow> dev_prog \<Rightarrow> dev_prog" where
  "simple_turn req cBuf brk =
    Sys (CreateFile cBuf ATTRIBUTES_SYNCHRONIZE) (\<lambda>f.
      if rv f = invalid_handle then brk
      else Sys (DeviceIoControl (rv f) req []) (\<lambda>r.
        if rv r \<noteq> 0 then Sys (SetLastError 0) (\<lambda>_. brk) else brk))"

definition flush_turn :: "string \<Rightarrow> dev_prog \<Rightarrow> dev_prog" where
  "flush_turn cBuf brk =
    Sys (CreateFile cBuf GENERIC_READ_WRITE) (\<lambda>f.
      if rv f = invalid_handle then brk else Sys (FlushFileBuffers (rv f)) (\<lambda>_. brk))"

text \<open>
  \<open>nxt\<close> goes on behind the arguments that were used. A size that is no number is reported
  with the argument behind it, which may be the null pointer at the end.
\<close>

definition change_volume :: "ioctl \<Rightarrow> int list \<Rightarrow> string \<Rightarrow> string \<Rightarrow> dev_prog \<Rightarrow> dev_prog \<Rightarrow> dev_prog" where
  "change_volume req ins a cBuf brk nxt =
    Sys (CreateFile cBuf GENERIC_READ_WRITE) (\<lambda>f.
      if rv f = invalid_handle then brk
      else Sys (DeviceIoControl (rv f) req ins) (\<lambda>r.
        if rv r \<noteq> 0 then Sys (Printf ''%s - OK.'' [S a]) (\<lambda>_. nxt)
        else Sys (WinPerror (Some a)) (\<lambda>_. nxt)))"

definition bad_suffix :: "char \<Rightarrow> dev_prog" where
  "bad_suffix c = Sys (Eprintf ''Invalid size suffix: %c'' [S [c]]) (\<lambda>_. Done 1)"

definition extend_turn :: "string \<Rightarrow> string list \<Rightarrow> string \<Rightarrow> dev_prog \<Rightarrow> dev_prog \<Rightarrow> dev_prog" where
  "extend_turn a rest cBuf brk nxt =
    (case rest of
       [] \<Rightarrow> Sys (Eputs ''Function requires an argument.'') (\<lambda>_. Done 1)
     | s # rest' \<Rightarrow>
         with_size suffix_steps s bad_suffix
           (case rest' of
              [] \<Rightarrow> Crash
            | x # _ \<Rightarrow> Sys (Eprintf ''Invalid grow size: %s'' [S x]) (\<lambda>_. Done 1))
           (\<lambda>newsize. change_volume FSCTL_EXTEND_VOLUME [sint newsize] a cBuf brk nxt))"

definition grow_turn :: "string \<Rightarrow> string list \<Rightarrow> string \<Rightarrow> dev_prog \<Rightarrow> dev_prog \<Rightarrow> dev_prog" where
  "grow_turn a rest cBuf brk nxt =
    (case rest of
       p # s # _ \<Rightarrow>
         (case scan_number p of
            None \<Rightarrow> Sys (Eprintf ''Invalid partition number: %s'' [S p]) (\<lambda>_. Done 1)
          | Some (n, _) \<Rightarrow>
              if \<not> is_int n then Crash
              else with_size suffix_steps s bad_suffix
                (Sys (Eprintf ''Invalid grow size: %s'' [S s]) (\<lambda>_. Done 1))
                (\<lambda>bytes. change_volume IOCTL_DISK_GROW_PARTITION [n, sint bytes] a cBuf brk nxt))
     | _ \<Rightarrow> Sys (Eputs ''Function requires two arguments.'') (\<lambda>_. Done 1))"

section \<open>\<open>devioctl.c\<close>: all devices\<close>

text \<open>
  The request of the first argument, in either case of letters; the inner \<open>None\<close> is the
  control code \<open>0\<close>.
\<close>

definition upcase :: "string \<Rightarrow> string" where
  "upcase s = map (\<lambda>c. if 97 \<le> code c \<and> code c \<le> 122 then char_of (code c - 32) else c) s"

definition request_of :: "string \<Rightarrow> ioctl option option" where
  "request_of a =
    (let u = upcase a in
     if u = ''DISMOUNT'' then Some (Some FSCTL_LOCK_VOLUME)
     else if u = ''FORCEDISMOUNT'' then Some (Some FSCTL_DISMOUNT_VOLUME)
     else if u = ''FLUSH'' then Some None
     else if u = ''LOAD'' then Some (Some IOCTL_STORAGE_LOAD_MEDIA)
     else if u = ''EJECT'' then Some (Some IOCTL_STORAGE_EJECT_MEDIA)
     else if u = ''GEOMETRY'' then Some (Some IOCTL_DISK_GET_DRIVE_GEOMETRY)
     else if u = ''SCSIADDRESS'' then Some (Some IOCTL_SCSI_GET_ADDRESS)
     else if u = ''EXTEND'' then Some (Some FSCTL_EXTEND_VOLUME)
     else if u = ''GROW'' then Some (Some IOCTL_DISK_GROW_PARTITION)
     else if u = ''UPDATE'' then Some (Some IOCTL_DISK_UPDATE_PROPERTIES)
     else if u = ''OFFLINE'' then Some (Some IOCTL_VOLUME_OFFLINE)
     else if u = ''ONLINE'' then Some (Some IOCTL_VOLUME_ONLINE)
     else None)"

text \<open>\<open>cBuf\<close> has room for 255 characters behind its first four.\<close>

definition device_path :: "string \<Rightarrow> string" where
  "device_path a = [CHR 0x5C, CHR 0x5C, CHR ''.'', CHR 0x5C] @ take 255 a"

definition report_turn :: "string \<Rightarrow> dev_prog \<Rightarrow> dev_prog" where
  "report_turn a k = Sys (Eputs []) (\<lambda>_. Sys (WinPerror (Some a)) (\<lambda>_. k))"

text \<open>
  The two requests with further arguments skip them, unless the device could not be
  opened; then they are taken for devices.
\<close>

fun devioctl_loop :: "ioctl option \<Rightarrow> string list \<Rightarrow> dev_prog" where
  "devioctl_loop req [] = Done 0"
| "devioctl_loop req (a # rest) =
    (if a = [] then Done 0
     else
       (let cBuf = device_path a; brk = report_turn a (devioctl_loop req rest) in
        case req of
          None \<Rightarrow> flush_turn cBuf brk
        | Some r \<Rightarrow>
            if r = IOCTL_DISK_GET_DRIVE_GEOMETRY then geometry_turn cBuf brk
            else if r = IOCTL_SCSI_GET_ADDRESS then scsi_turn cBuf brk
            else if r \<in> {IOCTL_VOLUME_OFFLINE, IOCTL_VOLUME_ONLINE, FSCTL_LOCK_VOLUME, IOCTL_STORAGE_EJECT_MEDIA}
            then lock_turn r cBuf brk
            else if r = FSCTL_DISMOUNT_VOLUME then dismount_turn r cBuf brk
            else if r \<in> {IOCTL_DISK_UPDATE_PROPERTIES, IOCTL_STORAGE_LOAD_MEDIA} then simple_turn r cBuf brk
            else if r = FSCTL_EXTEND_VOLUME then
              extend_turn a rest cBuf brk (devioctl_loop req (drop 1 rest))
            else if r = IOCTL_DISK_GROW_PARTITION then
              grow_turn a rest cBuf brk (devioctl_loop req (drop 2 rest))
            else flush_turn cBuf brk))"

definition devioctl_main :: "string list \<Rightarrow> dev_prog" where
  "devioctl_main args =
    (let req = (if length args < 2 then None else request_of (args ! 0)) in
     case req of
       None \<Rightarrow> Sys Usage (\<lambda>_. Done (- 1))
     | Some r \<Rightarrow>
         Sys SetErrorMode (\<lambda>_.
         Sys (SetProcessShutdownParameters 0x3FF) (\<lambda>_. devioctl_loop r (tl args))))"

section \<open>Media are ejected after the volume has been locked and dismounted\<close>

text \<open>How far a volume has come, by its handle.\<close>

datatype stage = Closed | Opened | Locked | Dismounted

instantiation stage :: linorder
begin

fun stage_rank :: "stage \<Rightarrow> nat" where
  "stage_rank Closed = 0"
| "stage_rank Opened = 1"
| "stage_rank Locked = 2"
| "stage_rank Dismounted = 3"

definition less_eq_stage :: "stage \<Rightarrow> stage \<Rightarrow> bool" where
  "less_eq_stage a b \<longleftrightarrow> stage_rank a \<le> stage_rank b"

definition less_stage :: "stage \<Rightarrow> stage \<Rightarrow> bool" where
  "less_stage a b \<longleftrightarrow> stage_rank a < stage_rank b"

lemma stage_rank_inj: "stage_rank a = stage_rank b \<longleftrightarrow> a = b"
  by (cases a; cases b) simp_all

instance
  by standard (auto simp: less_eq_stage_def less_stage_def stage_rank_inj)

end

fun advance :: "dev_call \<times> dev_reply \<Rightarrow> (int \<Rightarrow> stage) \<Rightarrow> (int \<Rightarrow> stage)" where
  "advance (CreateFile a m, r) s = (if rv r = invalid_handle then s else s(rv r := Opened))"
| "advance (DeviceIoControl h FSCTL_LOCK_VOLUME ns, r) s =
    (if rv r \<noteq> 0 \<and> s h = Opened then s(h := Locked) else s)"
| "advance (DeviceIoControl h FSCTL_DISMOUNT_VOLUME ns, r) s =
    (if rv r \<noteq> 0 \<and> s h = Locked then s(h := Dismounted) else s)"
| "advance _ s = s"

definition stages :: "(dev_call \<times> dev_reply) list \<Rightarrow> int \<Rightarrow> stage" where
  "stages tr = fold advance tr (\<lambda>_. Closed)"

lemma stages_append: "stages (tr @ [e]) = advance e (stages tr)"
  by (simp add: stages_def)

text \<open>The requests that take a medium or a volume away, and the runs that make them in time.\<close>

definition takes_away :: "dev_call \<Rightarrow> int option" where
  "takes_away c =
    (case c of
       DeviceIoControl h req ns \<Rightarrow>
         if req \<in> {IOCTL_STORAGE_EJECT_MEDIA, IOCTL_VOLUME_OFFLINE, IOCTL_VOLUME_ONLINE} then Some h else None
     | _ \<Rightarrow> None)"

definition in_time :: "(dev_call \<times> dev_reply) list \<Rightarrow> bool" where
  "in_time tr \<longleftrightarrow>
    (\<forall>i < length tr. \<forall>h. takes_away (fst (tr ! i)) = Some h \<longrightarrow> stages (take i tr) h = Dismounted)"

lemma in_time_start [simp]: "in_time []"
  by (simp add: in_time_def)

lemma in_time_snoc:
  "in_time (tr @ [e]) \<longleftrightarrow> in_time tr \<and> (\<forall>h. takes_away (fst e) = Some h \<longrightarrow> stages tr h = Dismounted)"
  by (auto simp: in_time_def less_Suc_eq nth_append)

text \<open>\<open>safe p\<close>: from a run that is in time \<open>p\<close> only makes runs that are.\<close>

definition safe :: "dev_prog \<Rightarrow> bool" where
  "safe p \<longleftrightarrow> (\<forall>tr. in_time tr \<longrightarrow> holds anything (\<lambda>tr n. in_time tr) tr p)"

named_theorems safe_rules \<open>rules that build safe programs\<close>

lemma safe_Done [safe_rules]: "safe (Done n)"
  by (simp add: safe_def)

lemma safe_Crash [safe_rules]: "safe Crash"
  by (simp add: safe_def)

lemma safe_Sys [safe_rules]: "takes_away c = None \<Longrightarrow> (\<And>r. safe (k r)) \<Longrightarrow> safe (Sys c k)"
  by (simp add: safe_def in_time_snoc)

lemma safe_if [safe_rules]: "safe p \<Longrightarrow> safe q \<Longrightarrow> safe (if b then p else q)"
  by simp

lemma safe_holds: "safe p \<Longrightarrow> in_time tr \<Longrightarrow> holds anything (\<lambda>tr n. in_time tr) tr p"
  by (simp add: safe_def)

lemma takes_away_simps [simp]:
  "takes_away (CreateFile a m) = None" "takes_away (FlushFileBuffers h) = None" "takes_away (ReadFile h n) = None"
  "takes_away (SetLastError i) = None" "takes_away (WinPerror w) = None" "takes_away (Eputs t) = None"
  "takes_away (Puts t) = None" "takes_away (Printf t as) = None" "takes_away (Eprintf t as) = None"
  "takes_away Usage = None" "takes_away SetErrorMode = None" "takes_away (SetProcessShutdownParameters n) = None"
  "takes_away (DeviceIoControl h req ns) =
    (if req \<in> {IOCTL_STORAGE_EJECT_MEDIA, IOCTL_VOLUME_OFFLINE, IOCTL_VOLUME_ONLINE} then Some h else None)"
  by (simp_all add: takes_away_def)

lemma safe_open_volume:
  assumes "safe brk" "\<And>h tr. in_time tr \<Longrightarrow> stages tr h = Opened \<Longrightarrow> holds anything (\<lambda>tr n. in_time tr) tr (k h)"
  shows "safe (open_volume cBuf k brk)"
proof -
  have "holds anything (\<lambda>tr n. in_time tr) (tr @ [(CreateFile cBuf m, r)]) (k (rv r))"
    if "in_time tr" "rv r \<noteq> - 1" for tr m r
    using that by (intro assms(2)) (simp_all add: in_time_snoc stages_append)
  note this[of "tr @ [e]" for tr e] this
  then show ?thesis using safe_holds[OF assms(1)]
    by (auto simp: open_volume_def safe_def in_time_snoc simp flip: append_assoc)
qed

lemma dismount_in_time:
  assumes "safe brk" "in_time tr" "stages tr h = Locked"
  shows "holds anything (\<lambda>tr n. in_time tr) tr (dismount req brk h)"
proof -
  let ?e = "\<lambda>r. (DeviceIoControl h FSCTL_DISMOUNT_VOLUME [], r)"
  have t: "in_time (tr @ [?e r])" for r using assms(2) by (simp add: in_time_snoc)
  have s: "rv r \<noteq> 0 \<Longrightarrow> stages (tr @ [?e r]) h = Dismounted" for r
    using assms(3) by (simp add: stages_append)
  show ?thesis using safe_holds[OF assms(1)] t s
    by (auto simp: dismount_def in_time_snoc simp flip: append_assoc)
qed

lemma lock_turn_safe [safe_rules]: "safe brk \<Longrightarrow> safe (lock_turn req cBuf brk)"
proof -
  assume brk: "safe brk"
  have "holds anything (\<lambda>tr n. in_time tr) tr
     (Sys (FlushFileBuffers h) (\<lambda>_. Sys (DeviceIoControl h FSCTL_LOCK_VOLUME [])
        (\<lambda>l. if rv l = 0 then brk else dismount req brk h)))"
    if "in_time tr" "stages tr h = Opened" for h tr
  proof -
    have "holds anything (\<lambda>tr n. in_time tr) (((tr @ [(FlushFileBuffers h, q)]) @ [(DeviceIoControl h FSCTL_LOCK_VOLUME [], r)]))
        (if rv r = 0 then brk else dismount req brk h)" for q r
      using that by (auto intro!: safe_holds[OF brk] dismount_in_time[OF brk] simp: in_time_snoc stages_append
          simp del: append_assoc)
    then show ?thesis by simp
  qed
  then show ?thesis unfolding lock_turn_def by (rule safe_open_volume[OF brk])
qed

text \<open>\<open>dismount\<close> without a lock is used for the forced request only.\<close>

lemma dismount_turn_safe [safe_rules]: "safe brk \<Longrightarrow> safe (dismount_turn FSCTL_DISMOUNT_VOLUME cBuf brk)"
  unfolding dismount_turn_def open_volume_def dismount_def by (auto intro!: safe_rules)

lemma other_turns_safe [safe_rules]:
  "safe brk \<Longrightarrow> safe (geometry_turn cBuf brk)" "safe brk \<Longrightarrow> safe (scsi_turn cBuf brk)"
  "safe brk \<Longrightarrow> safe (flush_turn cBuf brk)" "safe brk \<Longrightarrow> safe (report_turn a brk)"
  "safe brk \<Longrightarrow> req \<in> {IOCTL_DISK_UPDATE_PROPERTIES, IOCTL_STORAGE_LOAD_MEDIA} \<Longrightarrow> safe (simple_turn req cBuf brk)"
  by (auto simp: geometry_turn_def scsi_turn_def flush_turn_def report_turn_def simple_turn_def print_geometry_def
      print_length_def print_partition_def print_number_def print_boot_record_def Let_def intro!: safe_rules)

lemma with_size_safe: "(\<And>c. safe (bad c)) \<Longrightarrow> safe none \<Longrightarrow> (\<And>n. safe (k n)) \<Longrightarrow> safe (with_size steps s bad none k)"
  by (auto simp: with_size_def intro!: safe_rules split: scanned.splits option.splits)

lemma argument_turns_safe [safe_rules]:
  "safe brk \<Longrightarrow> safe nxt \<Longrightarrow> safe (extend_turn a rest cBuf brk nxt)"
  "safe brk \<Longrightarrow> safe nxt \<Longrightarrow> safe (grow_turn a rest cBuf brk nxt)"
  by (auto simp: extend_turn_def grow_turn_def change_volume_def bad_suffix_def intro!: safe_rules with_size_safe
      split: list.splits option.splits)

lemma devioctl_loop_safe: "safe (devioctl_loop req args)"
  by (induction req args rule: devioctl_loop.induct) (auto simp: Let_def intro!: safe_rules split: option.splits)

text \<open>
  C29. In every run of \<open>devioctl\<close>, whatever the system answers, a medium is ejected and a
  volume taken offline or online only on a handle on which the volume has been locked and
  then dismounted.
\<close>

theorem devioctl_in_time:
  assumes "runs anything (devioctl_main args) tr n"
  shows "in_time tr"
proof -
  have "safe (devioctl_main args)"
    by (auto simp: devioctl_main_def Let_def intro!: safe_rules devioctl_loop_safe split: option.splits)
  from safe_holds[OF this in_time_start] assms show ?thesis by (auto simp: holds_iff_runs)
qed

definition dev_ok :: dev_reply where
  "dev_ok = \<lparr>rv = 1, out = [], line = [], num = 0, err = 0, members = []\<rparr>"

theorem devioctl_in_time_witness:
  "in_time [(SetErrorMode, dev_ok), (SetProcessShutdownParameters 0x3FF, dev_ok),
    (CreateFile (device_path ''E:'') GENERIC_READ_WRITE, dev_ok\<lparr>rv := 8\<rparr>), (FlushFileBuffers 8, dev_ok),
    (DeviceIoControl 8 FSCTL_LOCK_VOLUME [], dev_ok), (DeviceIoControl 8 FSCTL_DISMOUNT_VOLUME [], dev_ok),
    (DeviceIoControl 8 IOCTL_STORAGE_EJECT_MEDIA [], dev_ok), (SetLastError 0, dev_ok), (Eputs [], dev_ok),
    (WinPerror (Some ''E:''), dev_ok)]"
proof -
  have u: "upcase ''EJECT'' = ''EJECT''" by (simp add: upcase_def code_def)
  have "runs anything (devioctl_main [''EJECT'', ''E:''])
   [(SetErrorMode, dev_ok), (SetProcessShutdownParameters 0x3FF, dev_ok),
    (CreateFile (device_path ''E:'') GENERIC_READ_WRITE, dev_ok\<lparr>rv := 8\<rparr>), (FlushFileBuffers 8, dev_ok),
    (DeviceIoControl 8 FSCTL_LOCK_VOLUME [], dev_ok), (DeviceIoControl 8 FSCTL_DISMOUNT_VOLUME [], dev_ok),
    (DeviceIoControl 8 IOCTL_STORAGE_EJECT_MEDIA [], dev_ok), (SetLastError 0, dev_ok), (Eputs [], dev_ok),
    (WinPerror (Some ''E:''), dev_ok)] 0"
    by (simp add: devioctl_main_def request_of_def u Let_def lock_turn_def open_volume_def dismount_def report_turn_def dev_ok_def)
  then show ?thesis by (rule devioctl_in_time)
qed

text \<open>A size that is no number, with nothing behind it, makes \<open>devioctl\<close> print the null pointer.\<close>

lemma extend_crash: "sscanf_size s = NoNumber \<Longrightarrow> extend_turn a [s] cBuf brk nxt = Crash"
  by (simp add: extend_turn_def with_size_def)

section \<open>The text of the boot record\<close>

lemma cleaned_byte: "(if b AND 0xE0 = 0 then 0x20 else b) \<noteq> (0 :: byte)"
  by auto

text \<open>A cleaned text has no zero byte, so all of it is printed.\<close>

lemma shown_text_length:
  assumes "shown_text bs = S s"
  shows "length s = length bs"
proof -
  have "\<forall>b \<in> set (CleanNonPrintables bs). b \<noteq> 0"
    using cleaned_byte by (force simp: CleanNonPrintables_def)
  then have t: "takeWhile (\<lambda>b. b \<noteq> 0) (CleanNonPrintables bs) = CleanNonPrintables bs"
    by (simp add: takeWhile_eq_all_conv)
  from assms have "s = map (\<lambda>b. char_of (unat b)) (CleanNonPrintables bs)"
    by (simp only: shown_text_def t arg.inject)
  then show ?thesis by (simp add: CleanNonPrintables_def)
qed

section \<open>Setting a size\<close>

text \<open>
  Files by name; the one that is open has the handle \<open>3\<close>. A position that is negative as a
  signed number is refused.
\<close>

record store =
  contents :: "string \<rightharpoonup> byte list"
  opened :: string
  position :: QWORD
  last_error :: int

definition resize :: "nat \<Rightarrow> byte list \<Rightarrow> byte list" where
  "resize n bs = take n bs @ replicate (n - length bs) 0"

fun store_step :: "store \<Rightarrow> dev_call \<Rightarrow> dev_reply \<times> store" where
  "store_step s (CreateFile a m) =
    (dev_ok\<lparr>rv := 3\<rparr>, s\<lparr>contents := (contents s)(a \<mapsto> (case contents s a of None \<Rightarrow> [] | Some bs \<Rightarrow> bs)), opened := a\<rparr>)"
| "store_step s (SetFilePointer h n) =
    (if sint n < 0 then (dev_ok\<lparr>rv := 0xFFFFFFFF\<rparr>, s\<lparr>last_error := 131\<rparr>)
     else (dev_ok\<lparr>rv := uint n mod 2 ^ 32\<rparr>, s\<lparr>position := n, last_error := 0\<rparr>))"
| "store_step s (SetEndOfFile h) =
    (dev_ok, s\<lparr>contents := (contents s)(opened s \<mapsto> resize (unat (position s)) (the (contents s (opened s))))\<rparr>)"
| "store_step s GetLastError = (dev_ok\<lparr>err := last_error s\<rparr>, s)"
| "store_step s c = (dev_ok, s)"

lemma hd_dec_nat: "0 < n \<Longrightarrow> hd (dec_nat n) \<noteq> CHR ''0''"
proof (induction n rule: dec_nat.induct)
  case (1 n)
  show ?case
  proof (cases "n < 10")
    case True
    have "char_of (n + 48) \<noteq> CHR ''0''"
    proof
      assume "char_of (n + 48) = CHR ''0''"
      then have "code (char_of (n + 48)) = code CHR ''0''" by (rule arg_cong)
      moreover have "code CHR ''0'' = 48" by (simp add: code_def)
      ultimately show False using True 1(2) by simp
    qed
    with True show ?thesis by (subst dec_nat.simps) simp
  next
    case False
    then have "0 < n div 10" by simp
    with 1(1)[OF False] False show ?thesis by (subst dec_nat.simps) simp
  qed
qed

lemma scan_number_dec_nat:
  assumes "0 < n" and r: "r = [] \<or> \<not> is_digit_of 10 (hd r)"
  shows "scan_number (dec_nat n @ r) = Some (int n, r)"
proof -
  obtain c t where c: "dec_nat n = c # t" by (cases "dec_nat n") auto
  then have d: "is_digit_of 10 c" "\<forall>x \<in> set t. is_digit_of 10 x"
    using dec_nat_digits[of _ n] by auto
  have tw: "takeWhile (is_digit_of 10) (dec_nat n @ r) = dec_nat n"
    "dropWhile (is_digit_of 10) (dec_nat n @ r) = r"
    using r dec_nat_digits[of _ n] by (cases r; simp add: takeWhile_append dropWhile_append)+
  have "c \<noteq> CHR ''0''" using hd_dec_nat[OF assms(1)] c by simp
  then have p: "number_prefix 0 (dec_nat n @ r) = (10, dec_nat n @ r)"
    by (simp add: number_prefix_def c split: list.splits)
  from d c c_isspace_digit[OF d(1)] tw p digits_value_dec_nat[of n] show ?thesis
    by (simp add: scan_number_def Let_def)
qed

lemma unat_shift_steps:
  "unat n * 1024 ^ k < 2 ^ 64 \<Longrightarrow> unat (shift_steps k n) = unat n * 1024 ^ k"
proof (induction k arbitrary: n)
  case (Suc k)
  have "unat n * 1024 \<le> unat n * 1024 ^ Suc k" by simp
  with Suc.prems have l: "unat n * 1024 < 2 ^ 64" by (rule le_less_trans[rotated])
  have "unat (push_bit 10 n) = unat n * 1024"
    using l by (simp add: push_bit_eq_mult unat_word_ariths mult.commute)
  with Suc.IH[of "push_bit 10 n"] Suc.prems show ?case by (simp add: mult.assoc)
qed simp

text \<open>The texts that stand for a number of steps.\<close>

definition size_suffix :: "nat \<Rightarrow> string \<Rightarrow> bool" where
  "size_suffix j r \<longleftrightarrow> (r = [] \<and> j = 0) \<or> (\<exists>c. r = [c] \<and> c \<noteq> CHR 0x00 \<and> chsize_steps c = Some j)"

lemma size_suffix_no_digit: "size_suffix j r \<Longrightarrow> r = [] \<or> \<not> is_digit_of 10 (hd r)"
proof -
  have "chsize_steps c = None" if "is_digit_of 10 c" "c \<noteq> CHR 0x00" for c
  proof -
    from that(1) have d: "c_isdigit c" by (simp only: is_digit_10)
    have "c \<notin> set ''TtGgMmKk''" using d by (auto simp: c_isdigit_def code_def)
    with that(2) show ?thesis by (simp add: chsize_steps_def)
  qed
  then show "size_suffix j r \<Longrightarrow> r = [] \<or> \<not> is_digit_of 10 (hd r)"
    by (fastforce simp: size_suffix_def)
qed

lemma sscanf_suffix:
  assumes "0 < n" "int n < 2 ^ 63" "size_suffix j r"
  shows "with_size chsize_steps (dec_nat n @ r) bad none k = k (shift_steps j (of_nat n))"
proof -
  have r: "r = [] \<or> \<not> is_digit_of 10 (hd r)"
    by (rule size_suffix_no_digit[OF assms(3)])
  show ?thesis using scan_number_dec_nat[OF assms(1) r] assms(2,3)
    by (auto simp: with_size_def sscanf_size_def fits_64_def size_suffix_def)
qed

text \<open>
  \<open>chsize32\<close> with a decimal number and a suffix gives the named file exactly that
  many bytes, times \<open>1024\<close> for every step of the suffix: the old content is cut or
  continued with zeros, a file that did not exist is made of zeros, and no other file
  changes; the status is \<open>0\<close>.
\<close>

theorem chsize_resizes:
  assumes "0 < n" "n * 1024 ^ j < 2 ^ 63" "size_suffix j r"
  shows "\<exists>s'. interp store_step s (chsize_main [a, dec_nat n @ r]) = (Some 0, s') \<and>
    contents s' = (contents s)(a \<mapsto> resize (n * 1024 ^ j) (case contents s a of None \<Rightarrow> [] | Some bs \<Rightarrow> bs))"
proof -
  have n: "n < 2 ^ 63"
    using assms(2) by (rule le_less_trans[rotated]) simp
  let ?w = "shift_steps j (of_nat n) :: QWORD"
  have u: "unat (of_nat n :: QWORD) = n" using n by (simp add: unat_of_nat)
  have w: "unat ?w = n * 1024 ^ j" using unat_shift_steps[of "of_nat n" j] u assms(2) by simp
  with assms(2) have "unat ?w < 2 ^ 63" by simp
  then have "uint ?w < 2 ^ 63" by (metis of_nat_less_iff of_nat_numeral of_nat_power uint_nat)
  then have "\<not> bit (uint ?w) 63" using div_pos_pos_trivial[of "uint ?w" "2 ^ 63"] by (simp add: bit_iff_odd)
  then have nn: "\<not> sint ?w < 0" by (simp add: sint_uint)
  have "interp store_step s (chsize_main [a, dec_nat n @ r]) = interp store_step s (chsize_file False a ?w)"
    using sscanf_suffix[OF assms(1) _ assms(3)] n by (simp add: chsize_main_def)
  then show ?thesis using nn w
    by (simp add: chsize_file_def set_size_def dev_ok_def Let_def)
qed

theorem chsize_resizes_witness:
  "\<exists>s'. interp store_step \<lparr>contents = [''a'' \<mapsto> [7]], opened = [], position = 0, last_error = 0\<rparr>
      (chsize_main [''a'', ''3k'']) = (Some 0, s') \<and> contents s' ''a'' = Some (7 # replicate 3071 0)"
proof -
  let ?s = "\<lparr>contents = [''a'' \<mapsto> [7]], opened = [], position = 0, last_error = 0\<rparr>"
  have h: "0 < (3::nat)" "3 * 1024 ^ 1 < (2 ^ 63 :: nat)" "size_suffix 1 ''k''"
    by (simp_all add: size_suffix_def chsize_steps_def)
  have d: "dec_nat 3 @ ''k'' = ''3k''" by (subst dec_nat.simps) (simp add: char_of_def bit_Suc_0_iff)
  from chsize_resizes[OF h, of ?s "''a''"] show ?thesis unfolding d by (auto simp: resize_def)
qed

end
