(* ===== verification/Philosophers.thy ===== *)
theory Philosophers
  imports Prelude
begin

text \<open>
  The dining philosophers of \<open>filosof.cpp\<close> and \<open>nyfilosof.cpp\<close> (under \<open>posix\<close> and, with
  Windows calls, under \<open>win32/cpp\<close>): processes or threads that share five semaphores, one
  for each chopstick. The two programs differ in which chopstick a philosopher takes
  first. Printing and sleeping change nothing that is shared; a step is a wait or a signal.
\<close>

section \<open>The machine\<close>

definition N :: nat where "N = 5"

definition Left :: "nat \<Rightarrow> nat" where "Left p = p"
definition Right :: "nat \<Rightarrow> nat" where "Right p = (p + 1) mod N"

text \<open>
  Where a philosopher is: before the first wait, between the two waits, with both
  chopsticks, and between the two signals of \<open>put_down\<close>.
\<close>

datatype place = Hungry | OneTaken | Eating | OnePut

record table =
  chopstick :: "nat \<Rightarrow> nat"
  place :: "nat \<Rightarrow> place"

text \<open>All semaphores are made with the value one, all philosophers start at \<open>pick_up\<close>.\<close>

definition start :: table where
  "start = \<lparr>chopstick = (\<lambda>c. if c < N then 1 else 0), place = (\<lambda>_. Hungry)\<rparr>"

text \<open>\<open>wait\<close> blocks while the semaphore is zero; \<open>signal\<close> never blocks.\<close>

definition wait :: "nat \<Rightarrow> table \<Rightarrow> table option" where
  "wait c s = (if chopstick s c > 0 then Some (s\<lparr>chopstick := (chopstick s)(c := chopstick s c - 1)\<rparr>) else None)"

definition signal :: "nat \<Rightarrow> table \<Rightarrow> table" where
  "signal c s = s\<lparr>chopstick := (chopstick s)(c := chopstick s c + 1)\<rparr>"

definition goto :: "nat \<Rightarrow> place \<Rightarrow> table \<Rightarrow> table" where
  "goto p l s = s\<lparr>place := (place s)(p := l)\<rparr>"

text \<open>One step of philosopher \<open>p\<close>, who takes \<open>first p\<close> and then \<open>second p\<close>.\<close>

definition act :: "(nat \<Rightarrow> nat) \<Rightarrow> (nat \<Rightarrow> nat) \<Rightarrow> nat \<Rightarrow> table \<Rightarrow> table option" where
  "act first second p s =
    (case place s p of
       Hungry \<Rightarrow> map_option (goto p OneTaken) (wait (first p) s)
     | OneTaken \<Rightarrow> map_option (goto p Eating) (wait (second p) s)
     | Eating \<Rightarrow> Some (goto p OnePut (signal (Left p) s))
     | OnePut \<Rightarrow> Some (goto p Hungry (signal (Right p) s)))"

text \<open>The order of \<open>pick_up\<close> in the two programs.\<close>

definition filosof_first :: "nat \<Rightarrow> nat" where "filosof_first me = (if me = 0 then Right me else Left me)"
definition filosof_second :: "nat \<Rightarrow> nat" where "filosof_second me = (if me = 0 then Left me else Right me)"
definition nyfilosof_first :: "nat \<Rightarrow> nat" where "nyfilosof_first me = (if odd me then Right me else Left me)"
definition nyfilosof_second :: "nat \<Rightarrow> nat" where "nyfilosof_second me = (if odd me then Left me else Right me)"

definition filosof_act :: "nat \<Rightarrow> table \<Rightarrow> table option" where
  "filosof_act = act filosof_first filosof_second"

definition nyfilosof_act :: "nat \<Rightarrow> table \<Rightarrow> table option" where
  "nyfilosof_act = act nyfilosof_first nyfilosof_second"

text \<open>Any philosopher may be the next to run.\<close>

inductive reachable :: "(nat \<Rightarrow> table \<Rightarrow> table option) \<Rightarrow> table \<Rightarrow> bool" for A where
  reach_start: "reachable A start"
| reach_act: "reachable A s \<Longrightarrow> p < N \<Longrightarrow> A p s = Some s' \<Longrightarrow> reachable A s'"

definition stuck :: "(nat \<Rightarrow> table \<Rightarrow> table option) \<Rightarrow> table \<Rightarrow> bool" where
  "stuck A s \<longleftrightarrow> (\<forall>p < N. A p s = None)"

section \<open>What a philosopher holds\<close>

definition holding :: "(nat \<Rightarrow> nat) \<Rightarrow> table \<Rightarrow> nat \<Rightarrow> nat set" where
  "holding first s p =
    (case place s p of Hungry \<Rightarrow> {} | OneTaken \<Rightarrow> {first p} | Eating \<Rightarrow> {Left p, Right p} | OnePut \<Rightarrow> {Right p})"

text \<open>Every chopstick lies on the table or is in the hands of exactly one philosopher.\<close>

definition laid :: "(nat \<Rightarrow> nat) \<Rightarrow> (nat \<Rightarrow> nat set) \<Rightarrow> bool" where
  "laid ch H \<longleftrightarrow>
    (\<forall>c < N. ch c \<le> 1) \<and>
    (\<forall>c < N. ch c = 0 \<longleftrightarrow> (\<exists>p < N. c \<in> H p)) \<and>
    (\<forall>p < N. \<forall>q < N. p \<noteq> q \<longrightarrow> H p \<inter> H q = {})"

definition well_laid :: "(nat \<Rightarrow> nat) \<Rightarrow> table \<Rightarrow> bool" where
  "well_laid first s \<longleftrightarrow> laid (chopstick s) (holding first s)"

lemma laid_take:
  assumes "laid ch H" "ch c > 0" "c < N" "p < N"
  shows "laid (ch(c := ch c - 1)) (H(p := insert c (H p)))"
proof -
  have free: "\<forall>q < N. c \<notin> H q" and one: "ch c = 1"
    using assms by (auto simp: laid_def dest: spec[of _ c])
  show ?thesis using assms free one by (auto simp: laid_def)
qed

lemma laid_put:
  assumes "laid ch H" "c \<in> H p" "c < N" "p < N"
  shows "laid (ch(c := ch c + 1)) (H(p := H p - {c}))"
proof -
  have zero: "ch c = 0" using assms unfolding laid_def by blast
  have only: "c \<notin> H q" if "q < N" "q \<noteq> p" for q
    using assms that unfolding laid_def by blast
  have held: "(\<exists>q < N. d \<in> (H(p := H p - {c})) q) \<longleftrightarrow> d \<noteq> c \<and> (\<exists>q < N. d \<in> H q)" for d
    using only assms(4) by (auto split: if_splits) metis
  have apart: "q = r" if "d \<in> H q" "d \<in> H r" "q < N" "r < N" for d q r
    using assms(1) that unfolding laid_def by blast
  show ?thesis unfolding laid_def held using assms(1) zero only assms(4)
    by (auto simp: laid_def dest: apart)
qed

text \<open>
  The specification: a set of eaters, no two of them neighbours; one philosopher at a
  time begins or ends eating, or nothing is seen to happen.
\<close>

definition neighbours :: "nat \<Rightarrow> nat \<Rightarrow> bool" where
  "neighbours p q \<longleftrightarrow> Right p = q \<or> Right q = p"

inductive spec_step :: "nat set \<Rightarrow> nat set \<Rightarrow> bool" where
  spec_begin: "p < N \<Longrightarrow> p \<notin> E \<Longrightarrow> \<forall>q \<in> E. \<not> neighbours p q \<Longrightarrow> spec_step E (insert p E)"
| spec_end: "p \<in> E \<Longrightarrow> spec_step E (E - {p})"
| spec_idle: "spec_step E E"

definition eaters :: "table \<Rightarrow> nat set" where
  "eaters s = {p. p < N \<and> place s p = Eating}"

section \<open>The interface: an order of the chopsticks\<close>

locale table_manners =
  fixes first second :: "nat \<Rightarrow> nat" and rank :: "nat \<Rightarrow> nat"
  assumes both: "p < N \<Longrightarrow> {first p, second p} = {Left p, Right p}"
    and ascending: "p < N \<Longrightarrow> rank (first p) < rank (second p)"
begin

lemma in_range: "p < N \<Longrightarrow> first p < N \<and> second p < N"
proof -
  assume p: "p < N"
  have "Left p < N" "Right p < N" using p by (simp_all add: Left_def Right_def N_def)
  with both[OF p] show ?thesis by (metis insertCI insertE singletonD)
qed

lemma different: "p < N \<Longrightarrow> first p \<noteq> second p"
  using ascending[of p] by auto

lemma well_laid_start: "well_laid first start"
  by (simp add: well_laid_def laid_def start_def holding_def)

lemma Right_differs: "p < N \<Longrightarrow> Right p \<noteq> p"
  unfolding Right_def N_def by presburger

text \<open>What the four kinds of step do, to the semaphores and to what is held.\<close>

lemma act_cases:
  assumes "act first second p s = Some s'" "p < N"
  obtains (take) c l where "c < N" "chopstick s c > 0"
    "s' = s\<lparr>chopstick := (chopstick s)(c := chopstick s c - 1), place := (place s)(p := l)\<rparr>"
    "holding first s' = (holding first s)(p := insert c (holding first s p))"
    "place s p = Hungry \<and> l = OneTaken \<or> place s p = OneTaken \<and> l = Eating"
  | (put) c l where "c < N" "c \<in> holding first s p"
    "s' = s\<lparr>chopstick := (chopstick s)(c := chopstick s c + 1), place := (place s)(p := l)\<rparr>"
    "holding first s' = (holding first s)(p := holding first s p - {c})"
    "place s p = Eating \<and> l = OnePut \<or> place s p = OnePut \<and> l = Hungry"
proof (cases "place s p")
  case Hungry
  then have s': "s' = s\<lparr>chopstick := (chopstick s)(first p := chopstick s (first p) - 1), place := (place s)(p := OneTaken)\<rparr>"
    "chopstick s (first p) > 0"
    using assms(1) by (auto simp: act_def wait_def goto_def split: if_splits)
  moreover have "holding first s' = (holding first s)(p := insert (first p) (holding first s p))"
    using Hungry by (auto simp: s'(1) holding_def fun_eq_iff)
  ultimately show ?thesis using Hungry in_range[OF assms(2)] take by blast
next
  case OneTaken
  then have s': "s' = s\<lparr>chopstick := (chopstick s)(second p := chopstick s (second p) - 1), place := (place s)(p := Eating)\<rparr>"
    "chopstick s (second p) > 0"
    using assms(1) by (auto simp: act_def wait_def goto_def split: if_splits)
  moreover have "holding first s' = (holding first s)(p := insert (second p) (holding first s p))"
    using OneTaken both[OF assms(2)] by (auto simp: s'(1) holding_def fun_eq_iff)
  ultimately show ?thesis using OneTaken in_range[OF assms(2)] take by blast
next
  case Eating
  then have s': "s' = s\<lparr>chopstick := (chopstick s)(Left p := chopstick s (Left p) + 1), place := (place s)(p := OnePut)\<rparr>"
    using assms(1) by (auto simp: act_def signal_def goto_def)
  moreover have "holding first s' = (holding first s)(p := holding first s p - {Left p})"
    using Eating Right_differs[OF assms(2)] by (auto simp: s' holding_def fun_eq_iff Left_def)
  moreover have "Left p < N" "Left p \<in> holding first s p" using Eating assms(2) by (simp_all add: Left_def holding_def)
  ultimately show ?thesis using Eating put by blast
next
  case OnePut
  then have s': "s' = s\<lparr>chopstick := (chopstick s)(Right p := chopstick s (Right p) + 1), place := (place s)(p := Hungry)\<rparr>"
    using assms(1) by (auto simp: act_def signal_def goto_def)
  moreover have "holding first s' = (holding first s)(p := holding first s p - {Right p})"
    using OnePut by (auto simp: s' holding_def fun_eq_iff)
  moreover have "Right p < N" "Right p \<in> holding first s p" using OnePut by (simp_all add: Right_def N_def holding_def)
  ultimately show ?thesis using OnePut put by blast
qed

lemma act_well_laid: "well_laid first s \<Longrightarrow> p < N \<Longrightarrow> act first second p s = Some s' \<Longrightarrow> well_laid first s'"
proof -
  assume w: "well_laid first s" and p: "p < N" and a: "act first second p s = Some s'"
  from a p show "well_laid first s'"
  proof (cases rule: act_cases)
    case (take c l)
    have "chopstick s' = (chopstick s)(c := chopstick s c - 1)" unfolding take(3) by simp
    with laid_take[OF w[unfolded well_laid_def] take(2,1) p] take(4) show ?thesis
      by (simp only: well_laid_def)
  next
    case (put c l)
    have "chopstick s' = (chopstick s)(c := chopstick s c + 1)" unfolding put(3) by simp
    with laid_put[OF w[unfolded well_laid_def] put(2,1) p] put(4) show ?thesis
      by (simp only: well_laid_def)
  qed
qed

lemma reachable_well_laid: "reachable (act first second) s \<Longrightarrow> well_laid first s"
  by (induction rule: reachable.induct) (auto intro: well_laid_start act_well_laid)

text \<open>Neighbours share a chopstick, so they never eat at the same time.\<close>

lemma eaters_apart:
  assumes "well_laid first s" "p \<in> eaters s" "q \<in> eaters s"
  shows "\<not> neighbours p q"
proof
  assume n: "neighbours p q"
  have "p \<noteq> q" using n assms(2) Right_differs by (auto simp: neighbours_def eaters_def)
  with assms have "holding first s p \<inter> holding first s q = {}" by (auto simp: well_laid_def laid_def eaters_def)
  with n assms(2,3) show False by (auto simp: neighbours_def eaters_def holding_def Left_def)
qed

lemma act_refines:
  assumes "well_laid first s" "p < N" "act first second p s = Some s'"
  shows "spec_step (eaters s) (eaters s')"
  using assms(3,2)
proof (cases rule: act_cases)
  case (take c l)
  show ?thesis
  proof (cases "l = Eating")
    case True
    then have e: "eaters s' = insert p (eaters s)" "p \<notin> eaters s" using take assms(2) by (auto simp: eaters_def)
    have "\<forall>q \<in> eaters s. \<not> neighbours p q"
      using eaters_apart[OF act_well_laid[OF assms], of p] unfolding e by blast
    with e assms(2) show ?thesis by (simp add: spec_begin)
  next
    case False
    then have "eaters s' = eaters s" using take by (auto simp: eaters_def)
    then show ?thesis by (simp add: spec_idle)
  qed
next
  case (put c l)
  show ?thesis
  proof (cases "l = OnePut")
    case True
    then have "eaters s' = eaters s - {p}" "p \<in> eaters s" using put assms(2) by (auto simp: eaters_def)
    then show ?thesis by (simp add: spec_end)
  next
    case False
    then have "eaters s' = eaters s" using put by (auto simp: eaters_def)
    then show ?thesis by (simp add: spec_idle)
  qed
qed

text \<open>
  Somebody can always go on: among those who wait for their second chopstick, the one
  whose chopstick has the highest rank waits for somebody who does not wait.
\<close>

lemma not_stuck:
  assumes w: "well_laid first s"
  shows "\<not> stuck (act first second) s"
proof
  assume stuck: "stuck (act first second) s"
  have waits: "place s p = Hungry \<and> chopstick s (first p) = 0 \<or> place s p = OneTaken \<and> chopstick s (second p) = 0"
    if "p < N" for p
    using stuck that by (cases "place s p") (auto simp: stuck_def act_def wait_def split: if_splits)
  have owner: "\<exists>q < N. place s q = OneTaken \<and> first q = c" if "c < N" "chopstick s c = 0" for c
  proof -
    from w that obtain q where q: "q < N" "c \<in> holding first s q" unfolding well_laid_def laid_def by blast
    with waits[of q] show ?thesis by (auto simp: holding_def)
  qed
  have "\<exists>q < N. place s q = OneTaken"
  proof -
    have z: "0 < N" by (simp add: N_def)
    from waits[OF z] show ?thesis
    proof
      assume "place s 0 = Hungry \<and> chopstick s (first 0) = 0"
      then have c: "chopstick s (first 0) = 0" by simp
      from owner[OF conjunct1[OF in_range[OF z]] c] show ?thesis by metis
    next
      assume "place s 0 = OneTaken \<and> chopstick s (second 0) = 0"
      with z show ?thesis by metis
    qed
  qed
  then have ne: "{q. q < N \<and> place s q = OneTaken} \<noteq> {}" by blast
  let ?W = "{q. q < N \<and> place s q = OneTaken}"
  have "finite ?W" by simp
  then have m: "Max ((\<lambda>q. rank (second q)) ` ?W) \<in> (\<lambda>q. rank (second q)) ` ?W"
    "\<forall>q \<in> ?W. rank (second q) \<le> Max ((\<lambda>q. rank (second q)) ` ?W)"
    using ne by simp_all
  from m(1) obtain p where p: "p \<in> ?W" "Max ((\<lambda>q. rank (second q)) ` ?W) = rank (second p)" by blast
  with m(2) have p: "p \<in> ?W" "\<forall>q \<in> ?W. rank (second q) \<le> rank (second p)" by simp_all
  then have "chopstick s (second p) = 0" "second p < N" using waits[of p] in_range[of p] by auto
  then obtain q where q: "q \<in> ?W" "first q = second p" using owner by blast
  then have "rank (second p) < rank (second q)" using ascending[of q] by auto
  with p(2) q(1) show False by fastforce
qed

end

section \<open>The two programs\<close>

definition filosof_rank :: "nat \<Rightarrow> nat" where
  "filosof_rank c = (c + 4) mod 5"

definition nyfilosof_rank :: "nat \<Rightarrow> nat" where
  "nyfilosof_rank c = (if c = 0 then 1 else if odd c then 2 else 0)"

interpretation filosof: table_manners filosof_first filosof_second filosof_rank
proof
  fix p assume "p < N"
  then show "{filosof_first p, filosof_second p} = {Left p, Right p}"
    by (auto simp: filosof_first_def filosof_second_def)
  from \<open>p < N\<close> have "p = 0 \<or> p = 1 \<or> p = 2 \<or> p = 3 \<or> p = 4" by (auto simp: N_def)
  then show "filosof_rank (filosof_first p) < filosof_rank (filosof_second p)"
    by (auto simp: filosof_first_def filosof_second_def filosof_rank_def Left_def Right_def N_def)
qed

interpretation nyfilosof: table_manners nyfilosof_first nyfilosof_second nyfilosof_rank
proof
  fix p assume "p < N"
  then show "{nyfilosof_first p, nyfilosof_second p} = {Left p, Right p}"
    by (auto simp: nyfilosof_first_def nyfilosof_second_def)
  from \<open>p < N\<close> have "p = 0 \<or> p = 1 \<or> p = 2 \<or> p = 3 \<or> p = 4" by (auto simp: N_def)
  then show "nyfilosof_rank (nyfilosof_first p) < nyfilosof_rank (nyfilosof_second p)"
    by (auto simp: nyfilosof_first_def nyfilosof_second_def nyfilosof_rank_def Left_def Right_def N_def)
qed

text \<open>
  C18. In no state that the philosophers of \<open>filosof\<close> can reach, in whatever order they
  run, are all of them blocked.
\<close>

theorem filosof_not_stuck:
  assumes "reachable filosof_act s"
  shows "\<exists>p < N. filosof_act p s \<noteq> None"
  using filosof.not_stuck[OF filosof.reachable_well_laid] assms
  by (auto simp: filosof_act_def stuck_def)

lemma filosof_reaches:
  "reachable filosof_act \<lparr>chopstick = (\<lambda>c. if c < N then 1 else 0)(1 := 0), place = (\<lambda>_. Hungry)(0 := OneTaken)\<rparr>"
proof (rule reach_act[OF reach_start])
  show "0 < N" by (simp add: N_def)
  show "filosof_act 0 start =
      Some \<lparr>chopstick = (\<lambda>c. if c < N then 1 else 0)(1 := 0), place = (\<lambda>_. Hungry)(0 := OneTaken)\<rparr>"
    by (simp add: filosof_act_def act_def start_def wait_def goto_def filosof_first_def Right_def N_def)
qed

theorem filosof_not_stuck_witness:
  "\<exists>p < N. filosof_act p \<lparr>chopstick = (\<lambda>c. if c < N then 1 else 0)(1 := 0), place = (\<lambda>_. Hungry)(0 := OneTaken)\<rparr> \<noteq> None"
  by (rule filosof_not_stuck[OF filosof_reaches])



text \<open>Both orders matter: with the left chopstick first for all, all can block.\<close>

lemma all_left_stuck:
  "stuck (act Left Right) \<lparr>chopstick = (\<lambda>c. 0), place = (\<lambda>_. OneTaken)\<rparr>"
  by (simp add: stuck_def act_def wait_def)

end
