(* ===== verification/UrlNames.thy ===== *)
theory UrlNames
  imports CLib CStrings Prog
begin

text \<open>
  \<open>cpp/undecorateurl.cpp\<close>: replaces the escapes \<open>%xx\<close> of URLs, in place, in standard
  input or in the names of files.
\<close>

section \<open>Decoding in place\<close>

text \<open>
  \<open>isxdigit\<close> of a character of the buffer; reading outside the object, and passing a
  negative \<open>char\<close> to it, is undefined.
\<close>

definition xdigit_at :: "string \<Rightarrow> nat \<Rightarrow> bool option" where
  "xdigit_at m i =
    (if i < length m \<and> code (m ! i) < 128 then Some (is_digit_of 16 (m ! i)) else None)"

definition two_digits :: "string \<Rightarrow> nat \<Rightarrow> bool option" where
  "two_digits m i =
    (case xdigit_at m i of
       None \<Rightarrow> None
     | Some False \<Rightarrow> Some False
     | Some True \<Rightarrow> xdigit_at m (Suc i))"

definition hex_char :: "char \<Rightarrow> char \<Rightarrow> char" where
  "hex_char a b = char_of (unat (fst (strtoul [a, b] 16)))"

text \<open>
  \<open>d\<close> is \<open>done\<close>, \<open>w\<close> the place of \<open>writeptr\<close>, which is also \<open>targetlength\<close>.
\<close>

function undecorate_loop :: "string \<Rightarrow> nat \<Rightarrow> nat \<Rightarrow> nat \<Rightarrow> (string \<times> nat) option" where
  "undecorate_loop m sourcelength d w =
    (if d \<ge> sourcelength then Some (m, w)
     else if d \<ge> length m then None
     else if m ! d = CHR ''%'' then
       (case two_digits m (Suc d) of
          None \<Rightarrow> None
        | Some True \<Rightarrow> undecorate_loop (m[w := hex_char (m ! (d + 1)) (m ! (d + 2))]) sourcelength (d + 3) (Suc w)
        | Some False \<Rightarrow> undecorate_loop (m[w := m ! d]) sourcelength (Suc d) (Suc w))
     else undecorate_loop (m[w := m ! d]) sourcelength (Suc d) (Suc w))"
  by pat_completeness auto
termination by (relation "measure (\<lambda>(m, n, d, w). n - d)") auto

declare undecorate_loop.simps [simp del]

definition undecorateurlname :: "string \<Rightarrow> nat \<Rightarrow> (string \<times> nat) option" where
  "undecorateurlname buffer sourcelength = undecorate_loop buffer sourcelength 0 0"

section \<open>The program\<close>

datatype url_call =
    Fread nat
  | Fwrite string
  | Ferror string
  | Perror string
  | Strdup string
  | Rename string string
  | Free int

type_synonym url_prog = "(url_call, reply) prog"

definition BUFFER :: nat where "BUFFER = 4096"

definition overwrite :: "string \<Rightarrow> string \<Rightarrow> string" where
  "overwrite old new = new @ drop (length new) old"

text \<open>
  \<open>fwrite(buffer, writesize, 1, stdout)\<close> writes one item of \<open>writesize\<close> bytes; its
  answer, a number of items, is compared with the number of bytes.
\<close>

fun undecorate_stdin :: "nat \<Rightarrow> string \<Rightarrow> url_prog" where
  "undecorate_stdin 0 buffer = OutOfFuel"
| "undecorate_stdin (Suc fuel) buffer =
    Sys (Fread BUFFER) (\<lambda>r.
      if line r = [] then
        Sys (Ferror ''stdin'') (\<lambda>e. if rv e \<noteq> 0 then Sys (Perror []) (\<lambda>_. Done 0) else Done 0)
      else
        (case undecorateurlname (overwrite buffer (line r)) (length (line r)) of
           None \<Rightarrow> Crash
         | Some (b, writesize) \<Rightarrow>
             Sys (Fwrite (take writesize b)) (\<lambda>f.
               if num f \<noteq> int writesize then
                 Sys (Ferror ''stdout'') (\<lambda>e. if rv e \<noteq> 0 then Sys (Perror []) (\<lambda>_. Done 0) else Done 0)
               else undecorate_stdin fuel b)))"

text \<open>The copy of a name ends with its terminator; \<open>strdup\<close> is not tested.\<close>

primrec undecorate_names :: "string list \<Rightarrow> url_prog" where
  "undecorate_names [] = Done 0"
| "undecorate_names (a # args) =
    Sys (Strdup a) (\<lambda>p.
      if rv p = 0 then Crash
      else
        (case undecorateurlname (a @ [NUL]) (length a) of
           None \<Rightarrow> Crash
         | Some (m, newlength) \<Rightarrow>
             if newlength \<ge> length m then Crash
             else Sys (Rename a (takeWhile (\<lambda>c. c \<noteq> NUL) (m[newlength := NUL]))) (\<lambda>r.
               if rv r \<noteq> 0 then Sys (Perror a) (\<lambda>_. Sys (Free (rv p)) (\<lambda>_. undecorate_names args))
               else Sys (Free (rv p)) (\<lambda>_. undecorate_names args))))"

definition undecorate_main :: "nat \<Rightarrow> string list \<Rightarrow> url_prog" where
  "undecorate_main fuel args =
    (if args = [] then undecorate_stdin fuel (replicate BUFFER NUL) else undecorate_names args)"

section \<open>Escapes\<close>

text \<open>The escape of a character, with either case of letters, and the escaped texts.\<close>

definition hex_digit :: "bool \<Rightarrow> nat \<Rightarrow> char" where
  "hex_digit upper n = char_of (if n < 10 then 48 + n else if upper then 55 + n else 87 + n)"

definition escape_char :: "bool \<Rightarrow> char \<Rightarrow> string" where
  "escape_char upper c = [CHR ''%'', hex_digit upper (code c div 16), hex_digit upper (code c mod 16)]"

definition escape :: "bool \<Rightarrow> (char \<Rightarrow> bool) \<Rightarrow> string \<Rightarrow> string" where
  "escape upper plain s = concat (map (\<lambda>c. if plain c \<and> c \<noteq> CHR ''%'' then [c] else escape_char upper c) s)"

lemma code_bound: "code c < 256"
  by (simp add: code_def)

lemma code_hex_digit:
  "n < 16 \<Longrightarrow> code (hex_digit u n) = (if n < 10 then 48 + n else if u then 55 + n else 87 + n)"
  by (simp add: hex_digit_def)

lemma digit_value_hex [simp]: "n < 16 \<Longrightarrow> digit_value (hex_digit u n) = Some n"
  by (auto simp: digit_value_def code_hex_digit Let_def)

lemma hex_digit_facts:
  assumes "n < 16"
  shows "is_digit_of 16 (hex_digit u n)" "code (hex_digit u n) < 128" "\<not> c_isspace (hex_digit u n)"
    "hex_digit u n \<noteq> CHR ''-''" "hex_digit u n \<noteq> CHR ''+''"
proof -
  have c: "code (hex_digit u n) \<ge> 48" "code (hex_digit u n) < 128" using assms by (auto simp: code_hex_digit)
  show "is_digit_of 16 (hex_digit u n)" using assms by (simp add: is_digit_of_def)
  show "code (hex_digit u n) < 128" by (rule c)
  show "\<not> c_isspace (hex_digit u n)" using c by (auto simp: c_isspace_def)
  have "code CHR ''-'' = 45" "code CHR ''+'' = 43" by (simp_all add: code_def)
  with c show "hex_digit u n \<noteq> CHR ''-''" "hex_digit u n \<noteq> CHR ''+''" by (metis leD numeral_less_iff semiring_norm order.refl less_le_trans)+
qed

lemma hex_char_digits:
  assumes "a < 16" "b < 16"
  shows "hex_char (hex_digit u a) (hex_digit u b) = char_of (16 * a + b)"
proof -
  let ?s = "[hex_digit u a, hex_digit u b]"
  have p: "number_prefix 16 ?s = (16, ?s)" by (simp add: number_prefix_def)
  have v: "digits_value 16 ?s = 16 * a + b" using assms by (simp add: digits_value_def mult.commute)
  have small: "16 * a + b < 256" using assms by simp
  have "strtoul ?s 16 = (of_nat (16 * a + b), [])"
    using hex_digit_facts[OF assms(1), of u] hex_digit_facts[OF assms(2), of u] p v small
    by (simp add: strtoul_def Let_def ULONG_MAX_def)
  moreover have "unat (of_nat (16 * a + b) :: DWORD) = 16 * a + b" using small unat_of_nat[of "16 * a + b", where ?'a = 32] by (simp del: of_nat_add of_nat_mult)
  ultimately show ?thesis by (simp add: hex_char_def)
qed

lemma two_digits_hex:
  assumes "a < 16" "b < 16"
  shows "two_digits (pre @ c # hex_digit u a # hex_digit u b # post) (Suc (length pre)) = Some True"
  using hex_digit_facts[OF assms(1), of u] hex_digit_facts[OF assms(2), of u]
  by (simp add: two_digits_def xdigit_at_def nth_append)

text \<open>
  The memory is the decoded text, something that has been read already, and the escaped
  text that is left, with what follows it.
\<close>

lemma undecorate_plain:
  assumes "c \<noteq> CHR ''%''" "length done + length junk < n"
  shows "\<exists>junk'. undecorate_loop (done @ junk @ c # rest) n (length done + length junk) (length done) =
      undecorate_loop ((done @ [c]) @ junk' @ rest) n (length (done @ [c]) + length junk') (length (done @ [c]))
    \<and> length junk' = length junk"
proof -
  obtain x xs where x: "junk @ [c] = x # xs" by (cases "junk @ [c]") auto
  then have l: "length xs = length junk" by (metis length_append_singleton length_Cons nat.inject)
  have "(done @ junk @ c # rest)[length done := c] = (done @ [c]) @ xs @ rest"
  proof -
    have "done @ junk @ c # rest = done @ x # xs @ rest"
      using arg_cong[OF x, of "\<lambda>l. done @ l @ rest"] by simp
    then show ?thesis by (simp only:) simp
  qed
  moreover have "(done @ junk @ c # rest) ! (length done + length junk) = c" by (simp add: nth_append)
  ultimately show ?thesis using assms l
    by (intro exI[of _ xs]) (subst undecorate_loop.simps, simp)
qed

lemma undecorate_escape:
  assumes "length done + length junk < n"
  shows "\<exists>junk'. undecorate_loop (done @ junk @ escape_char u c @ rest) n (length done + length junk) (length done) =
      undecorate_loop ((done @ [c]) @ junk' @ rest) n (length (done @ [c]) + length junk') (length (done @ [c]))
    \<and> length junk' = length junk + 2"
proof -
  let ?a = "hex_digit u (code c div 16)" and ?b = "hex_digit u (code c mod 16)"
  have ab: "code c div 16 < 16" "code c mod 16 < 16" using code_bound[of c] by auto
  obtain x xs where x: "junk @ [CHR ''%'', ?a, ?b] = x # xs" by (cases "junk @ [CHR ''%'', ?a, ?b]") auto
  then have "length (x # xs) = length junk + 3" by (metis length_append length_Cons list.size(3) numeral_3_eq_3 add_Suc_right add.right_neutral)
  then have l: "length xs = length junk + 2" by simp
  let ?m = "done @ junk @ CHR ''%'' # ?a # ?b # rest"
  have m: "done @ junk @ escape_char u c @ rest = ?m" by (simp add: escape_char_def)
  have "hex_char ?a ?b = c" using hex_char_digits[OF ab] by (simp add: code_def)
  moreover have "?m[length done := c] = (done @ [c]) @ xs @ rest"
  proof -
    have "?m = done @ x # xs @ rest" using arg_cong[OF x, of "\<lambda>l. done @ l @ rest"] by simp
    then show ?thesis by (simp only:) simp
  qed
  moreover have "two_digits ?m (Suc (length done + length junk)) = Some True"
    using two_digits_hex[OF ab, of "done @ junk" "CHR ''%''" u rest] by simp
  moreover have "?m ! (length done + length junk) = CHR ''%''" "?m ! (length done + length junk + 1) = ?a"
    "?m ! (length done + length junk + 2) = ?b" by (simp_all add: nth_append)
  ultimately have "undecorate_loop ?m n (length done + length junk) (length done) =
      undecorate_loop ((done @ [c]) @ xs @ rest) n (length done + length junk + 3) (Suc (length done))"
    using assms by (subst undecorate_loop.simps) simp
  moreover have "length done + length junk + 3 = length (done @ [c]) + length xs" "Suc (length done) = length (done @ [c])"
    using l by simp_all
  ultimately show ?thesis using l unfolding m by (intro exI[of _ xs]) (simp only:)
qed

lemma escape_Cons:
  "escape u plain (c # s) = (if plain c \<and> c \<noteq> CHR ''%'' then [c] else escape_char u c) @ escape u plain s"
  by (simp add: escape_def)

lemma undecorate_escaped:
  "n = length done + length junk + length (escape u plain s) \<Longrightarrow>
    \<exists>junk'. undecorate_loop (done @ junk @ escape u plain s @ rest) n (length done + length junk) (length done) =
      Some ((done @ s) @ junk' @ rest, length (done @ s)) \<and> length junk' + length s = length junk + length (escape u plain s)"
proof (induction s arbitrary: "done" junk)
  case Nil
  then show ?case by (subst undecorate_loop.simps) (simp add: escape_def)
next
  case (Cons c s)
  show ?case
  proof (cases "plain c \<and> c \<noteq> CHR ''%''")
    case True
    obtain junk1 where j: "undecorate_loop (done @ junk @ c # (escape u plain s @ rest)) n (length done + length junk) (length done) =
      undecorate_loop ((done @ [c]) @ junk1 @ (escape u plain s @ rest)) n (length (done @ [c]) + length junk1) (length (done @ [c]))"
      "length junk1 = length junk"
      using undecorate_plain[of c "done" junk n "escape u plain s @ rest"] True Cons.prems by (auto simp: escape_Cons)
    have "n = length (done @ [c]) + length junk1 + length (escape u plain s)"
      using Cons.prems True j(2) by (simp add: escape_Cons)
    from Cons.IH[OF this] j True show ?thesis by (auto simp: escape_Cons)
  next
    case False
    obtain junk1 where j: "undecorate_loop (done @ junk @ escape_char u c @ (escape u plain s @ rest)) n (length done + length junk) (length done) =
      undecorate_loop ((done @ [c]) @ junk1 @ (escape u plain s @ rest)) n (length (done @ [c]) + length junk1) (length (done @ [c]))"
      "length junk1 = length junk + 2"
      using undecorate_escape[of "done" junk n u c "escape u plain s @ rest"] Cons.prems False
      by (auto simp: escape_Cons escape_char_def)
    have "n = length (done @ [c]) + length junk1 + length (escape u plain s)"
      using Cons.prems False j(2) by (simp add: escape_Cons escape_char_def)
    from Cons.IH[OF this] j False show ?thesis by (auto simp: escape_Cons escape_char_def)
  qed
qed

text \<open>
  Decoding undoes escaping: whatever characters are escaped beside the percent sign, in
  either case of letters, \<open>undecorateurlname\<close> leaves the original text at the beginning of
  the buffer and returns its length, and the buffer keeps its size.
\<close>

theorem undecorate_undoes:
  "\<exists>m. undecorateurlname (escape u plain s @ rest) (length (escape u plain s)) = Some (m, length s) \<and>
    take (length s) m = s \<and> length m = length (escape u plain s @ rest)"
  using undecorate_escaped[of "length (escape u plain s)" "[]" "[]" u plain s rest]
  by (auto simp: undecorateurlname_def)

text \<open>
  The comparison after \<open>fwrite\<close> ends the program behind the first piece of its input
  unless that piece decodes to one character; what follows is lost without a message.
\<close>

lemma undecorate_stdin_once:
  assumes "undecorateurlname (overwrite buffer t) (length t) = Some (b, w)" "t \<noteq> []" "w \<noteq> 1"
  shows "runs anything (undecorate_stdin (Suc fuel) buffer)
    [(Fread BUFFER, ok\<lparr>line := t\<rparr>), (Fwrite (take w b), ok\<lparr>num := 1\<rparr>), (Ferror ''stdout'', ok\<lparr>rv := 0\<rparr>)] 0"
  using assms by (simp add: ok_def)

text \<open>A piece that fills the buffer and ends with a percent sign makes it read behind its end.\<close>

lemma undecorate_reads_behind: "undecorate_loop (replicate k (CHR ''a'') @ [CHR ''%'']) (Suc k) k k = None"
  by (subst undecorate_loop.simps) (simp add: two_digits_def xdigit_at_def nth_append)

end
