(* ===== verification/Uptime.thy ===== *)
theory Uptime
  imports CLib Prog
begin

text \<open>
  The tools that show a span of time in weeks, days, hours, minutes and seconds:
  \<open>tickcount.c\<close> and \<open>tickcntw.c\<close> show the time since the system started,
  \<open>PrintAbsoluteTime\<close> of \<open>wtimeflt.c\<close> a span in steps of 100 nanoseconds.
\<close>

section \<open>Calls\<close>

text \<open>\<open>QueryPerformanceFrequency\<close> and \<open>QueryPerformanceCounter\<close> put a 64 bit number in
  \<open>num\<close>.\<close>

datatype time_call =
    QueryPerformanceFrequency
  | QueryPerformanceCounter
  | Perror
  | Printf string "arg list"
  | MessageBox string "arg list"
  | ErrorBox string

type_synonym time_prog = "(time_call, reply) prog"

text \<open>Conversions to \<open>DWORD\<close>, and to \<open>int\<close>, which is also what an exit status is.\<close>

definition to_DWORD :: "int \<Rightarrow> int" where
  "to_DWORD i = i mod 2 ^ 32"

definition to_int :: "int \<Rightarrow> int" where
  "to_int i = (i + 2 ^ 31) mod 2 ^ 32 - 2 ^ 31"

lemma to_DWORD_small [simp]: "0 \<le> i \<Longrightarrow> i < 4294967296 \<Longrightarrow> to_DWORD i = i"
  by (simp add: to_DWORD_def)

lemma to_int_small [simp]: "- 2147483648 \<le> i \<Longrightarrow> i < 2147483648 \<Longrightarrow> to_int i = i"
  by (simp add: to_int_def)

lemma to_int_mod: "to_int i mod 2 ^ 32 = i mod 2 ^ 32"
  by (simp add: to_int_def mod_simps)

section \<open>\<open>tickcount.c\<close> and \<open>tickcntw.c\<close>\<close>

definition plural :: "int \<Rightarrow> arg" where
  "plural n = S (if n = 1 then [] else ''s'')"

text \<open>The five quotients and the milliseconds that remain.\<close>

definition tick_parts :: "int \<Rightarrow> int list" where
  "tick_parts llTime =
    (let llWeeks = trunc_div llTime 604800000; t1 = trunc_mod llTime 604800000;
         dwDays = to_DWORD (trunc_div t1 86400000); t2 = trunc_mod t1 86400000;
         dwHours = to_DWORD (trunc_div t2 3600000); t3 = trunc_mod t2 3600000;
         dwMinutes = to_DWORD (trunc_div t3 60000); t4 = trunc_mod t3 60000;
         dwSeconds = to_DWORD (trunc_div t4 1000); t5 = trunc_mod t4 1000
     in [llWeeks, dwDays, dwHours, dwMinutes, dwSeconds, t5])"

definition tick_args :: "int list \<Rightarrow> arg list" where
  "tick_args parts = concat (map (\<lambda>n. [I n, plural n]) parts)"

definition tick_format :: string where
  "tick_format = ''%.f week%s %u day%s %u hour%s %u minute%s %u second%s and %.f millisecond%s.''"

text \<open>
  The counter divided by the counts of a millisecond. The divisor is zero when the
  frequency is below 1000, and the quotient of the least number by \<open>-1\<close> does not exist.
\<close>

definition tick_time :: "int \<Rightarrow> int \<Rightarrow> int option" where
  "tick_time liFreq liTime =
    (let d = trunc_div liFreq 1000 in
     if d = 0 \<or> liTime = - (2 ^ 63) \<and> d = - 1 then None else Some (trunc_div liTime d))"

definition tickcount_startup :: time_prog where
  "tickcount_startup =
    Sys QueryPerformanceFrequency (\<lambda>f.
      if rv f = 0 then Sys Perror (\<lambda>_. Done 0)
      else Sys QueryPerformanceCounter (\<lambda>c.
        if rv c = 0 then Sys Perror (\<lambda>_. Done 0)
        else
          (case tick_time (num f) (num c) of
             None \<Rightarrow> Crash
           | Some llTime \<Rightarrow>
               Sys (Printf (''System up time: '' @ tick_format) (tick_args (tick_parts llTime)))
                 (\<lambda>_. Done (to_int llTime)))))"

definition tickcntw_startup :: time_prog where
  "tickcntw_startup =
    Sys QueryPerformanceFrequency (\<lambda>f.
      (let show = (\<lambda>bRet t.
         if bRet = 0 then Sys (ErrorBox ''Performance counter'') (\<lambda>_. Done 0)
         else
           (case tick_time (num f) t of
              None \<Rightarrow> Crash
            | Some llTime \<Rightarrow>
                Sys (MessageBox tick_format (tick_args (tick_parts llTime)))
                  (\<lambda>_. Done (to_int llTime))))
       in if rv f \<noteq> 0 then Sys QueryPerformanceCounter (\<lambda>c. show (rv c) (num c))
          else show (rv f) 0))"

section \<open>\<open>PrintAbsoluteTime\<close>\<close>

text \<open>\<open>printf(\"%f\")\<close> of a number of ten thousandths.\<close>

definition percent_f :: "int \<Rightarrow> string" where
  "percent_f q =
    dec (q div 10000) @ ''.'' @
    map (\<lambda>d. char_of (nat (q div d mod 10) + 48)) [1000, 100, 10, 1] @ ''00''"

definition PrintAbsoluteTime :: "QWORD \<Rightarrow> (string \<times> arg list) list" where
  "PrintAbsoluteTime qwTime =
    (let dwWeeks = (ucast (qwTime div 6048000000000) :: DWORD); q1 = qwTime mod 6048000000000;
         dwDays = (ucast (q1 div 864000000000) :: DWORD); q2 = q1 mod 864000000000;
         dwHours = (ucast (q2 div 36000000000) :: DWORD); q3 = q2 mod 36000000000;
         dwMinutes = (ucast (q3 div 600000000) :: DWORD); q4 = q3 mod 600000000;
         dwSeconds = (ucast (q4 div 10000000) :: DWORD); q5 = q4 mod 10000000
     in (if dwWeeks \<noteq> 0 then [(''%u weeks, '', [I (uint dwWeeks)])] else []) @
        (if dwDays \<noteq> 0 then [(''%u days, '', [I (uint dwDays)])] else []) @
        [(''%u:%.2u:%.2u %f'', [I (uint dwHours), I (uint dwMinutes), I (uint dwSeconds), S (percent_f (uint q5))])])"

section \<open>The clock\<close>

text \<open>A machine with a counter: it runs \<open>f\<close> times a second and stands at \<open>t\<close>. What is
  shown is kept.\<close>

fun clock :: "int \<Rightarrow> int \<Rightarrow> (string \<times> arg list) list \<Rightarrow> time_call \<Rightarrow> reply \<times> (string \<times> arg list) list" where
  "clock f t shown QueryPerformanceFrequency = (ok\<lparr>num := f\<rparr>, shown)"
| "clock f t shown QueryPerformanceCounter = (ok\<lparr>num := t\<rparr>, shown)"
| "clock f t shown (Printf s xs) = (ok, shown @ [(s, xs)])"
| "clock f t shown (MessageBox s xs) = (ok, shown @ [(s, xs)])"
| "clock f t shown _ = (ok, shown)"

text \<open>One place of a mixed radix: the quotient is below its bound and nothing is lost.\<close>

lemma place_bound:
  assumes "0 \<le> (a::int)" "a < k * b" "0 < b"
  shows "0 \<le> a div b" "a div b < k"
proof -
  show "0 \<le> a div b" using assms by (simp add: pos_imp_zdiv_nonneg_iff)
  have "b * (a div b) \<le> a" using mult_div_mod_eq[of b a] pos_mod_sign[OF assms(3), of a] by linarith
  with assms(2) have "b * (a div b) < b * k" by (simp add: mult.commute)
  with assms(3) show "a div b < k" by simp
qed
lemma place_split:
  "(k::int) dvd b \<Longrightarrow> t mod b = k * (t mod b div k) + t mod k"
  using mult_div_mod_eq[of k "t mod b"] by (simp add: mod_mod_cancel)

text \<open>The numbers of weeks, days, hours, minutes, seconds and milliseconds of \<open>t\<close>.\<close>

definition spells :: "int list \<Rightarrow> int \<Rightarrow> bool" where
  "spells parts t \<longleftrightarrow>
    (case parts of
       [w, d, h, m, s, ms] \<Rightarrow>
         t = ((((w * 7 + d) * 24 + h) * 60 + m) * 60 + s) * 1000 + ms \<and>
         0 \<le> w \<and> 0 \<le> d \<and> d < 7 \<and> 0 \<le> h \<and> h < 24 \<and> 0 \<le> m \<and> m < 60 \<and> 0 \<le> s \<and> s < 60 \<and> 0 \<le> ms \<and> ms < 1000
     | _ \<Rightarrow> False)"

lemma place_DWORD:
  assumes "0 < (b::int)" "0 < c" "c \<le> 4294967296 * b"
  shows "to_DWORD (trunc_div (t mod c) b) = t mod c div b"
proof -
  have "0 \<le> t mod c" "t mod c < 4294967296 * b" using assms by (simp_all add: order.strict_trans2[OF pos_mod_bound])
  then show ?thesis using place_bound[of "t mod c" 4294967296 b] assms(1) by (simp only: trunc_div_nonneg to_DWORD_small)
qed

lemma tick_parts_div:
  assumes "0 \<le> t"
  shows "tick_parts t =
    [t div 604800000, t mod 604800000 div 86400000, t mod 86400000 div 3600000,
     t mod 3600000 div 60000, t mod 60000 div 1000, t mod 1000]"
proof -
  have m: "trunc_mod t 604800000 = t mod 604800000" "trunc_mod (t mod 604800000) 86400000 = t mod 86400000"
    "trunc_mod (t mod 86400000) 3600000 = t mod 3600000" "trunc_mod (t mod 3600000) 60000 = t mod 60000"
    "trunc_mod (t mod 60000) 1000 = t mod 1000"
    using assms by (simp_all add: trunc_mod_nonneg mod_mod_cancel)
  have d: "trunc_div t 604800000 = t div 604800000"
    "to_DWORD (trunc_div (t mod 604800000) 86400000) = t mod 604800000 div 86400000"
    "to_DWORD (trunc_div (t mod 86400000) 3600000) = t mod 86400000 div 3600000"
    "to_DWORD (trunc_div (t mod 3600000) 60000) = t mod 3600000 div 60000"
    "to_DWORD (trunc_div (t mod 60000) 1000) = t mod 60000 div 1000"
    using assms by (simp_all add: place_DWORD trunc_div_nonneg)
  show ?thesis by (simp only: tick_parts_def Let_def m d)
qed

lemma spells_places:
  fixes w :: int
  assumes "t = 604800000 * w + t1" "t1 = 86400000 * d + t2" "t2 = 3600000 * h + t3" "t3 = 60000 * m + t4"
    "t4 = 1000 * s + ms" "0 \<le> w" "0 \<le> d" "d < 7" "0 \<le> h" "h < 24" "0 \<le> m" "m < 60" "0 \<le> s" "s < 60"
    "0 \<le> ms" "ms < 1000"
  shows "spells [w, d, h, m, s, ms] t"
  using assms by (simp add: spells_def)

lemma tick_parts_spell:
  assumes "0 \<le> t"
  shows "spells (tick_parts t) t"
  unfolding tick_parts_div[OF assms]
proof (rule spells_places)
  show "t = 604800000 * (t div 604800000) + t mod 604800000" by (rule mult_div_mod_eq[symmetric])
  show "t mod 604800000 = 86400000 * (t mod 604800000 div 86400000) + t mod 86400000"
    "t mod 86400000 = 3600000 * (t mod 86400000 div 3600000) + t mod 3600000"
    "t mod 3600000 = 60000 * (t mod 3600000 div 60000) + t mod 60000"
    "t mod 60000 = 1000 * (t mod 60000 div 1000) + t mod 1000"
    by (rule place_split, simp)+
  show "t mod 604800000 div 86400000 < 7" "t mod 86400000 div 3600000 < 24"
    "t mod 3600000 div 60000 < 60" "t mod 60000 div 1000 < 60"
    by (rule place_bound(2), simp_all)+
qed (use assms in \<open>simp_all add: pos_imp_zdiv_nonneg_iff\<close>)

lemma tick_time_nonneg:
  assumes "1000 \<le> f" "0 \<le> t"
  shows "tick_time f t = Some (t div (f div 1000))"
proof -
  have "0 < f div 1000" using assms by (simp add: pos_imp_zdiv_pos_iff)
  with assms show ?thesis by (simp add: tick_time_def Let_def trunc_div_nonneg)
qed

text \<open>
  On a machine whose counter runs at least a thousand times a second, \<open>tickcount\<close> and
  \<open>tickcntw\<close> show once, in weeks, days, hours, minutes, seconds and milliseconds, each below
  the size of the next unit, exactly the milliseconds that the counter stands for, and end
  with that number.
\<close>

theorem tickcount_tells:
  assumes "1000 \<le> f" "0 \<le> t"
  shows "\<exists>parts. spells parts (t div (f div 1000)) \<and>
    interp (clock f t) [] tickcount_startup =
      (Some (to_int (t div (f div 1000))), [(''System up time: '' @ tick_format, tick_args parts)]) \<and>
    interp (clock f t) [] tickcntw_startup =
      (Some (to_int (t div (f div 1000))), [(tick_format, tick_args parts)])"
proof -
  have "0 \<le> t div (f div 1000)" using assms by (simp add: pos_imp_zdiv_nonneg_iff pos_imp_zdiv_pos_iff)
  from tick_parts_spell[OF this] show ?thesis
    by (intro exI[of _ "tick_parts (t div (f div 1000))"])
      (simp add: tickcount_startup_def tickcntw_startup_def tick_time_nonneg[OF assms] Let_def ok_def)
qed

theorem tickcount_tells_witness:
  "\<exists>parts. spells parts 788645006 \<and>
    interp (clock 3579545 2822560476474) [] tickcount_startup =
      (Some 788645006, [(''System up time: '' @ tick_format, tick_args parts)])"
  using tickcount_tells[of 3579545 2822560476474] by auto

text \<open>A counter that runs slower is divided by zero.\<close>

lemma tickcount_slow_clock:
  assumes "0 \<le> f" "f < 1000"
  shows "fst (interp (clock f t) [] tickcount_startup) = None"
proof -
  have "tick_time f t = None" using assms by (simp add: tick_time_def trunc_div_nonneg)
  then show ?thesis by (simp add: tickcount_startup_def ok_def)
qed

text \<open>Without a counter both report the failure and end with status \<open>0\<close>.\<close>

lemma tickcount_no_counter:
  "runs anything tickcount_startup ((QueryPerformanceFrequency, f) # tr) n \<Longrightarrow> rv f = 0 \<Longrightarrow>
    n = 0 \<and> (\<exists>r. tr = [(Perror, r)])"
  "runs anything tickcntw_startup ((QueryPerformanceFrequency, f) # tr) n \<Longrightarrow> rv f = 0 \<Longrightarrow>
    n = 0 \<and> (\<exists>r. tr = [(ErrorBox ''Performance counter'', r)])"
  by (auto simp: tickcount_startup_def tickcntw_startup_def Let_def)

text \<open>
  \<open>PrintAbsoluteTime\<close> loses nothing either: the numbers it prints, of weeks and days only when
  there are any, spell the span, of which a ten thousandth of a millisecond is the last place.
\<close>

definition absolute_text :: "int \<Rightarrow> int \<Rightarrow> int \<Rightarrow> int \<Rightarrow> int \<Rightarrow> int \<Rightarrow> (string \<times> arg list) list" where
  "absolute_text w d h m s f =
    (if w \<noteq> 0 then [(''%u weeks, '', [I w])] else []) @ (if d \<noteq> 0 then [(''%u days, '', [I d])] else []) @
    [(''%u:%.2u:%.2u %f'', [I h, I m, I s, S (percent_f f)])]"

lemma uint_quotient:
  assumes "uint (q :: QWORD) = t" "uint (b :: QWORD) = c" "0 < c" "t < 4294967296 * c"
  shows "uint (ucast (q div b) :: DWORD) = t div c"
proof -
  have "0 \<le> t" using assms(1) by auto
  from place_bound[OF this assms(4,3)] assms(1,2) show ?thesis
    by (simp add: unsigned_ucast_eq uint_div take_bit_int_eq_self)
qed

lemma absolute_places:
  fixes w :: int
  assumes "t = 6048000000000 * w + t1" "t1 = 864000000000 * d + t2" "t2 = 36000000000 * h + t3"
    "t3 = 600000000 * m + t4" "t4 = 10000000 * s + f"
  shows "t = ((((w * 7 + d) * 24 + h) * 60 + m) * 60 + s) * 10000000 + f"
  using assms by simp

lemma PrintAbsoluteTime_spells:
  "\<exists>w d h m s f. PrintAbsoluteTime q = absolute_text w d h m s f \<and>
    uint q = ((((w * 7 + d) * 24 + h) * 60 + m) * 60 + s) * 10000000 + f \<and>
    0 \<le> w \<and> 0 \<le> d \<and> d < 7 \<and> 0 \<le> h \<and> h < 24 \<and> 0 \<le> m \<and> m < 60 \<and> 0 \<le> s \<and> s < 60 \<and> 0 \<le> f \<and> f < 10000000"
proof -
  let ?t = "uint q"
  let ?w = "?t div 6048000000000" and ?d = "?t mod 6048000000000 div 864000000000"
    and ?h = "?t mod 864000000000 div 36000000000" and ?m = "?t mod 36000000000 div 600000000"
    and ?s = "?t mod 600000000 div 10000000" and ?f = "?t mod 10000000"
  have u: "uint (q mod 6048000000000) = ?t mod 6048000000000"
    "uint (q mod 6048000000000 mod 864000000000) = ?t mod 864000000000"
    "uint (q mod 6048000000000 mod 864000000000 mod 36000000000) = ?t mod 36000000000"
    "uint (q mod 6048000000000 mod 864000000000 mod 36000000000 mod 600000000) = ?t mod 600000000"
    "uint (q mod 6048000000000 mod 864000000000 mod 36000000000 mod 600000000 mod 10000000) = ?f"
    by (simp_all add: uint_mod mod_mod_cancel)
  have t: "?t < 25975962206208000000000" using uint_bounded[of q] by simp
  have c: "uint (ucast (q div 6048000000000) :: DWORD) = ?w"
    "uint (ucast (q mod 6048000000000 div 864000000000) :: DWORD) = ?d"
    "uint (ucast (q mod 6048000000000 mod 864000000000 div 36000000000) :: DWORD) = ?h"
    "uint (ucast (q mod 6048000000000 mod 864000000000 mod 36000000000 div 600000000) :: DWORD) = ?m"
    "uint (ucast (q mod 6048000000000 mod 864000000000 mod 36000000000 mod 600000000 div 10000000) :: DWORD) = ?s"
    by (rule uint_quotient[OF u(1)] uint_quotient[OF u(2)] uint_quotient[OF u(3)]
        uint_quotient[OF u(4)] uint_quotient[OF refl]; simp add: t order.strict_trans2[OF pos_mod_bound])+
  have z: "(x \<noteq> 0) = (uint x \<noteq> 0)" for x :: DWORD by (simp add: uint_0_iff)
  have "PrintAbsoluteTime q = absolute_text ?w ?d ?h ?m ?s ?f"
    by (simp only: PrintAbsoluteTime_def Let_def absolute_text_def z c u)
  moreover have "?t = ((((?w * 7 + ?d) * 24 + ?h) * 60 + ?m) * 60 + ?s) * 10000000 + ?f"
    by (rule absolute_places, rule mult_div_mod_eq[symmetric]; rule place_split, simp)
  moreover have "?d < 7" "?h < 24" "?m < 60" "?s < 60" by (rule place_bound(2), simp_all)+
  moreover have "0 \<le> ?w" "0 \<le> ?d" "0 \<le> ?h" "0 \<le> ?m" "0 \<le> ?s" "0 \<le> ?f" "?f < 10000000"
    by (simp_all add: pos_imp_zdiv_nonneg_iff)
  ultimately show ?thesis by (intro exI conjI) assumption+
qed

end
