(* ===== verification/Procs.thy ===== *)
theory Procs
  imports Args CLib Uptime
begin

text \<open>
  The tools that wait for processes, start them and change them: \<open>waitpid.c\<close>,
  \<open>runwait.c\<close>, \<open>runwaitw.c\<close>, \<open>logonwrap.c\<close>, \<open>cpretpid.c\<close>, \<open>setprio.c\<close>,
  \<open>logout.c\<close> and \<open>shutdown.c\<close>.
\<close>

section \<open>Calls\<close>

text \<open>\<open>process\<close> and \<open>thread\<close> are the handles that \<open>CreateProcess\<close> has made; the rest
  are the times of a process.\<close>

record proc_reply = reply +
  process :: int
  thread :: int
  created :: QWORD
  kernel_time :: QWORD
  user_time :: QWORD

datatype access = SYNCHRONIZE | SET_INFORMATION | QUERY_INFORMATION

text \<open>
  The arguments of \<open>CreateProcess\<close> that differ: the command line as character codes,
  the creation flags by name, and the window style, if it is set.
\<close>

datatype proc_call =
    Eputs string
  | Puts string
  | Eprintf string "arg list"
  | Printf string "arg list"
  | Perror string
  | MessageBox string
  | HeapAlloc nat
  | OpenProcess access DWORD
  | WaitForMultipleObjects "int list" bool
  | WaitForSingleObject int
  | GetExitCodeProcess int
  | GetStartupInfo
  | GetProcAddress string
  | Wow64DisableWow64FsRedirection
  | CreateProcess "nat list" "string list" "int option"
  | CloseHandle int
  | ExitWindows
  | ExitWindowsEx nat int
  | GetCommandLine
  | SetProcessAffinityMask int int
  | ResumeThread int
  | SetPriorityClass int int
  | GetPriorityClass int
  | GetProcessTimes int
  | FileTimeToLocalFileTime QWORD
  | FileTimeToSystemTime QWORD
  | CharToOem string
  | GetDateFormat string
  | GetTimeFormat
  | WindowsNT
  | Win32s
  | OpenProcessToken
  | LookupPrivilegeValue string
  | AdjustTokenPrivileges int
  | LocalFree
  | InitiateSystemShutdown "wide option" bool
  | WinPerror "wide option"

type_synonym proc_prog = "(proc_call, proc_reply) prog"

definition STILL_ACTIVE :: int where [simp]: "STILL_ACTIVE = 259"
definition WAIT_TIMEOUT :: int where [simp]: "WAIT_TIMEOUT = 258"
definition WAIT_OBJECT_0 :: int where [simp]: "WAIT_OBJECT_0 = 0"
definition WAIT_ABANDONED_0 :: int where [simp]: "WAIT_ABANDONED_0 = 128"
definition MAXIMUM_WAIT_OBJECTS :: nat where [simp]: "MAXIMUM_WAIT_OBJECTS = 64"

section \<open>\<open>waitpid.c\<close>\<close>

text \<open>
  The last call writes the exit code over the index. A look behind the array of handles
  would be undefined.
\<close>

definition exit_code :: "int list \<Rightarrow> int \<Rightarrow> proc_prog" where
  "exit_code hProc i =
    (if i < 0 \<or> int (length hProc) \<le> i then Crash
     else Sys (GetExitCodeProcess (hProc ! nat i)) (\<lambda>e.
       if rv e = 0 then Sys (Perror ''Cannot get exit code'') (\<lambda>_. Done 0)
       else Done (to_int (num e))))"

definition wait_processes :: "bool \<Rightarrow> int list \<Rightarrow> proc_prog" where
  "wait_processes bWaitAll hProc =
    Sys (WaitForMultipleObjects hProc bWaitAll) (\<lambda>w.
      (let dwSignalledObjectId = rv w; argc = int (length hProc) + 1 in
       if dwSignalledObjectId = WAIT_TIMEOUT then Sys (Eputs ''Timeout.'') (\<lambda>_. Done STILL_ACTIVE)
       else if WAIT_OBJECT_0 \<le> dwSignalledObjectId \<and> dwSignalledObjectId \<le> WAIT_OBJECT_0 + argc - 2
         then exit_code hProc (dwSignalledObjectId - WAIT_OBJECT_0)
       else if WAIT_ABANDONED_0 \<le> dwSignalledObjectId \<and> dwSignalledObjectId \<le> WAIT_ABANDONED_0 + argc - 2
         then exit_code hProc (dwSignalledObjectId - WAIT_ABANDONED_0)
       else Sys (Perror ''Wait failed'') (\<lambda>_. Done STILL_ACTIVE)))"

definition process_id :: "string \<Rightarrow> DWORD" where
  "process_id a = fst (strtoul a 0)"

primrec open_processes :: "string list \<Rightarrow> int list \<Rightarrow> (int list \<Rightarrow> proc_prog) \<Rightarrow> proc_prog" where
  "open_processes [] hProc k = k hProc"
| "open_processes (a # args) hProc k =
    Sys (OpenProcess SYNCHRONIZE (process_id a)) (\<lambda>h.
      if rv h = 0 then Sys (Perror a) (\<lambda>_. Done STILL_ACTIVE)
      else open_processes args (hProc @ [rv h]) k)"

text \<open>
  The heap answers a request that it cannot meet with an exception, which ends the
  program; its code is in \<open>num\<close>.
\<close>

definition waitpid_main :: "string list \<Rightarrow> proc_prog" where
  "waitpid_main args =
    (let bWaitAll = (args \<noteq> [] \<and> hd args = ''-a'');
         pids = (if bWaitAll then tl args else args)
     in if pids = [] then Sys (Eputs ''Usage'') (\<lambda>_. Done STILL_ACTIVE)
        else if MAXIMUM_WAIT_OBJECTS \<le> length pids + 1
          then Sys (Eputs ''Too many process identifiers.'') (\<lambda>_. Done STILL_ACTIVE)
        else Sys (HeapAlloc (4 * length pids)) (\<lambda>b.
          if rv b = 0 then Done (num b) else open_processes pids [] (wait_processes bWaitAll)))"

section \<open>What \<open>waitpid\<close> answers\<close>

text \<open>The processes that a run has opened, and the handles they were given.\<close>

fun process_opened :: "proc_call \<times> proc_reply \<Rightarrow> (DWORD \<times> int) option" where
  "process_opened (OpenProcess a p, r) = (if rv r = 0 then None else Some (p, rv r))"
| "process_opened _ = None"

definition processes :: "(proc_call \<times> proc_reply) list \<Rightarrow> (DWORD \<times> int) list" where
  "processes tr = List.map_filter process_opened tr"

lemma processes_simps [simp]:
  "processes [] = []" "processes (xs @ ys) = processes xs @ processes ys"
  "processes (e # tr) = (case process_opened e of None \<Rightarrow> [] | Some p \<Rightarrow> [p]) @ processes tr"
  by (simp_all add: processes_def List.map_filter_def split: option.splits)

text \<open>
  The meaning of an exit status: an error was reported, or it is the exit code of one of the
  named processes, asked for through the handle of the process the system said was signalled.
\<close>

fun reported :: "proc_call \<times> proc_reply \<Rightarrow> int \<Rightarrow> bool" where
  "reported (Eputs m, r) n \<longleftrightarrow> n = STILL_ACTIVE"
| "reported (Perror m, r) n \<longleftrightarrow> n \<in> {0, STILL_ACTIVE}"
| "reported (HeapAlloc k, r) n \<longleftrightarrow> rv r = 0 \<and> n = num r"
| "reported _ n \<longleftrightarrow> False"

definition reports :: "(proc_call \<times> proc_reply) list \<Rightarrow> int \<Rightarrow> bool" where
  [simp]: "reports tr n \<longleftrightarrow> reported (last tr) n"

definition answers :: "bool \<Rightarrow> string list \<Rightarrow> (proc_call \<times> proc_reply) list \<Rightarrow> int \<Rightarrow> bool" where
  "answers bWaitAll pids tr n \<longleftrightarrow>
    (\<exists>tr0 hs i w e. tr = tr0 @ [(WaitForMultipleObjects hs bWaitAll, w), (GetExitCodeProcess (hs ! i), e)] \<and>
      processes tr0 = zip (map process_id pids) hs \<and> length hs = length pids \<and> i < length pids \<and>
      (rv w = int i \<or> rv w = 128 + int i) \<and> n = to_int (num e))"

text \<open>Whether all processes are waited for, and the names of the processes.\<close>

definition waits_for_all :: "string list \<Rightarrow> bool" where
  "waits_for_all args \<longleftrightarrow> args \<noteq> [] \<and> hd args = ''-a''"

definition named :: "string list \<Rightarrow> string list" where
  "named args = (if waits_for_all args then tl args else args)"

lemma exit_code_in: "i < length hs \<Longrightarrow> exit_code hs (int i) =
  Sys (GetExitCodeProcess (hs ! i)) (\<lambda>e.
    if rv e = 0 then Sys (Perror ''Cannot get exit code'') (\<lambda>_. Done 0) else Done (to_int (num e)))"
  by (simp add: exit_code_def)

lemma wait_range:
  assumes "0 \<le> x" "x \<le> int (length hs) - 1"
  obtains i where "x = int i" "i < length hs"
  using assms by (metis nat_0_le nat_less_iff zle_diff1_eq)

lemma wait_processes_total: "total anything (wait_processes b hs)"
  by (auto simp: wait_processes_def Let_def exit_code_def)

lemma open_processes_total:
  "(\<And>hs. total anything (k hs)) \<Longrightarrow> total anything (open_processes pids hs k)"
  by (induction pids arbitrary: hs) simp_all

lemma exit_code_answers:
  assumes "i < length hs" "length hs = length pids" "processes h = zip (map process_id pids) hs"
    "rv w = int i \<or> rv w = 128 + int i"
  shows "holds anything (\<lambda>tr n. reports tr n \<or> answers b pids tr n)
    (h @ [(WaitForMultipleObjects hs b, w)]) (exit_code hs (int i))"
proof -
  have "answers b pids (h @ [(WaitForMultipleObjects hs b, w), (GetExitCodeProcess (hs ! i), e)]) (to_int (num e))" for e
    unfolding answers_def using assms
    by (intro exI[of _ h] exI[of _ hs] exI[of _ i] exI[of _ w] exI[of _ e]) simp
  then show ?thesis using assms(1) by (simp add: exit_code_in)
qed

lemma wait_processes_answers:
  assumes "length hs = length pids" "processes h = zip (map process_id pids) hs"
  shows "holds anything (\<lambda>tr n. reports tr n \<or> answers b pids tr n) h (wait_processes b hs)"
proof -
  have go: "holds anything (\<lambda>tr n. reports tr n \<or> answers b pids tr n)
      (h @ [(WaitForMultipleObjects hs b, w)]) (exit_code hs x)"
    if "0 \<le> x" "x \<le> int (length hs) - 1" "rv w = x \<or> rv w = 128 + x" for w x
    using that exit_code_answers[OF _ assms, of _ w b] by (auto elim!: wait_range)
  show ?thesis
    unfolding wait_processes_def Let_def holds_anything
  proof
    fix w
    show "holds anything (\<lambda>tr n. reports tr n \<or> answers b pids tr n) (h @ [(WaitForMultipleObjects hs b, w)])
      (if rv w = WAIT_TIMEOUT then Sys (Eputs ''Timeout.'') (\<lambda>_. Done STILL_ACTIVE)
       else if WAIT_OBJECT_0 \<le> rv w \<and> rv w \<le> WAIT_OBJECT_0 + (int (length hs) + 1) - 2
         then exit_code hs (rv w - WAIT_OBJECT_0)
       else if WAIT_ABANDONED_0 \<le> rv w \<and> rv w \<le> WAIT_ABANDONED_0 + (int (length hs) + 1) - 2
         then exit_code hs (rv w - WAIT_ABANDONED_0)
       else Sys (Perror ''Wait failed'') (\<lambda>_. Done STILL_ACTIVE))"
      using go[of "rv w" w] go[of "rv w - 128" w] by simp
  qed
qed

lemma open_processes_answers:
  assumes "length hs = length ps" "processes h = zip (map process_id ps) hs"
  shows "holds anything (\<lambda>tr n. reports tr n \<or> answers b (ps @ pids) tr n) h
    (open_processes pids hs (wait_processes b))"
  using assms
proof (induction pids arbitrary: h hs ps)
  case Nil
  then show ?case using wait_processes_answers[of hs ps h b] by simp
next
  case (Cons a pids)
  have "holds anything (\<lambda>tr n. reports tr n \<or> answers b (ps @ a # pids) tr n)
      (h @ [(OpenProcess SYNCHRONIZE (process_id a), r)]) (open_processes pids (hs @ [rv r]) (wait_processes b))"
    if "rv r \<noteq> 0" for r
    using Cons.IH[of "hs @ [rv r]" "ps @ [a]"] Cons.prems that by simp
  then show ?case by simp
qed

text \<open>
  C26. \<open>waitpid\<close> always ends and never looks behind its array of handles, whatever the
  system answers. When a run ends, it has either reported an error or returned the exit code
  of one of the named processes, the one that \<open>WaitForMultipleObjects\<close> said was signalled or
  abandoned.
\<close>

theorem waitpid_answers:
  "total anything (waitpid_main args) \<and>
    (\<forall>tr n. runs anything (waitpid_main args) tr n \<longrightarrow>
      reports tr n \<or> answers (waits_for_all args) (named args) tr n)"
proof -
  let ?Q = "\<lambda>tr n. reports tr n \<or> answers (waits_for_all args) (named args) tr n"
  have main: "waitpid_main args =
    (if named args = [] then Sys (Eputs ''Usage'') (\<lambda>_. Done STILL_ACTIVE)
     else if MAXIMUM_WAIT_OBJECTS \<le> length (named args) + 1
       then Sys (Eputs ''Too many process identifiers.'') (\<lambda>_. Done STILL_ACTIVE)
     else Sys (HeapAlloc (4 * length (named args))) (\<lambda>b.
       if rv b = 0 then Done (num b) else open_processes (named args) [] (wait_processes (waits_for_all args))))"
    by (simp only: waitpid_main_def Let_def named_def waits_for_all_def)
  have "holds anything ?Q [(HeapAlloc k, b)] (open_processes (named args) [] (wait_processes (waits_for_all args)))" for k b
    using open_processes_answers[of "[]" "[]" "[(HeapAlloc k, b)]" "waits_for_all args" "named args"] by simp
  then have "holds anything ?Q [] (waitpid_main args)" by (simp add: main)
  then show ?thesis
    by (simp add: holds_iff_runs main open_processes_total wait_processes_total)
qed

definition proc_ok :: proc_reply where
  "proc_ok = \<lparr>rv = 1, out = [], line = [], num = 0, err = 0, process = 0, thread = 0,
    created = 0, kernel_time = 0, user_time = 0\<rparr>"

lemma process_id_5: "process_id ''5'' = 5"
  by (simp add: process_id_def strtoul_def Let_def c_isspace_def code_def number_prefix_def is_digit_of_def
      digit_value_def digits_value_def ULONG_MAX_def)

theorem waitpid_answers_witness:
  "answers True [''5'']
    [(HeapAlloc 4, proc_ok), (OpenProcess SYNCHRONIZE 5, proc_ok\<lparr>rv := 7\<rparr>),
     (WaitForMultipleObjects [7] True, proc_ok\<lparr>rv := 128\<rparr>), (GetExitCodeProcess 7, proc_ok\<lparr>num := 4294967295\<rparr>)] (- 1)"
proof -
  let ?tr = "[(HeapAlloc 4, proc_ok), (OpenProcess SYNCHRONIZE 5, proc_ok\<lparr>rv := 7\<rparr>),
     (WaitForMultipleObjects [7] True, proc_ok\<lparr>rv := 128\<rparr>), (GetExitCodeProcess 7, proc_ok\<lparr>num := 4294967295\<rparr>)]"
  have "runs anything (waitpid_main [''-a'', ''5'']) ?tr (- 1)"
    by (simp add: waitpid_main_def Let_def wait_processes_def exit_code_def process_id_5 proc_ok_def to_int_def)
  then have "reports ?tr (- 1) \<or> answers (waits_for_all [''-a'', ''5'']) (named [''-a'', ''5'']) ?tr (- 1)"
    using waitpid_answers[of "[''-a'', ''5'']"] by blast
  then show ?thesis by (simp add: named_def waits_for_all_def)
qed

section \<open>\<open>runwait.c\<close> and \<open>runwaitw.c\<close>\<close>

text \<open>
  The command line is a list of character codes in both programs, of \<open>char\<close> in one and of
  \<open>WCHAR\<close> in the other. \<open>strnicmp\<close> and \<open>wcsnicmp\<close> ignore the case of the letters.
\<close>

definition lower_code :: "nat \<Rightarrow> nat" where
  "lower_code n = (if 65 \<le> n \<and> n \<le> 90 then n + 32 else n)"

definition codes :: "string \<Rightarrow> nat list" where
  "codes s = map code s"

text \<open>The comparison of the first characters, and the text behind them.\<close>

definition option_given :: "string \<Rightarrow> nat list \<Rightarrow> bool" where
  "option_given w s \<longleftrightarrow> map lower_code (take (length w) s) = map lower_code (codes w)"

definition SW_HIDE :: int where "SW_HIDE = 0"
definition SW_MINIMIZE :: int where "SW_MINIMIZE = 6"
definition SW_MAXIMIZE :: int where "SW_MAXIMIZE = 3"

definition window_option :: "nat list \<Rightarrow> int option \<Rightarrow> int option \<times> nat list" where
  "window_option s show0 =
    (if option_given ''/hide '' s then (Some SW_HIDE, drop 6 s)
     else if option_given ''/min '' s then (Some SW_MINIMIZE, drop 5 s)
     else if option_given ''/max '' s then (Some SW_MAXIMIZE, drop 5 s)
     else (show0, s))"

definition wait_and_return :: "int \<Rightarrow> proc_prog" where
  "wait_and_return hProcess =
    Sys (WaitForSingleObject hProcess) (\<lambda>w.
      if rv w \<noteq> WAIT_OBJECT_0 then Done (- 1)
      else Sys (GetExitCodeProcess hProcess) (\<lambda>e.
        if rv e = 0 then Done (- 1) else Done (to_int (num e))))"

definition start_process :: "nat list \<Rightarrow> bool \<Rightarrow> int option \<Rightarrow> proc_prog" where
  "start_process cmd detach sh =
    Sys (CreateProcess cmd (if detach then [''DETACHED_PROCESS''] else []) sh) (\<lambda>p.
      if rv p = 0 then Sys (MessageBox ''Error %1!i!: %2%n'%3'.'') (\<lambda>_. Done (- 1))
      else Sys (CloseHandle (thread p)) (\<lambda>_. wait_and_return (process p)))"

definition run_rest :: "nat list \<Rightarrow> int option \<Rightarrow> proc_prog" where
  "run_rest s1 show0 =
    (let detach = option_given ''/detach '' s1;
         s2 = (if detach then drop 8 s1 else s1);
         (sh, s3) = window_option s2 show0
     in start_process s3 detach sh)"

definition run_options :: "nat list \<Rightarrow> int option \<Rightarrow> proc_prog" where
  "run_options s show0 =
    (if option_given ''/64 '' s then
       Sys (GetProcAddress ''Wow64DisableWow64FsRedirection'') (\<lambda>f.
         if rv f \<noteq> 0 then Sys Wow64DisableWow64FsRedirection (\<lambda>_. run_rest (drop 4 s) show0)
         else run_rest (drop 4 s) show0)
     else run_rest s show0)"

text \<open>
  \<open>runwait\<close> gets its window style from its caller; \<open>runwaitw\<close> passes on the information
  it was itself started with.
\<close>

definition runwait_WinMain :: "string \<Rightarrow> int \<Rightarrow> proc_prog" where
  "runwait_WinMain lpCmdLine nCmdShow =
    (if lpCmdLine = [] then Sys (MessageBox ''Syntax:'') (\<lambda>_. Done (- 1))
     else run_options (codes lpCmdLine) (Some (nCmdShow mod 65536)))"

definition runwaitw_wWinMain :: "nat list \<Rightarrow> proc_prog" where
  "runwaitw_wWinMain lpCmdLine =
    (if lpCmdLine = [] then Sys (MessageBox ''Syntax:'') (\<lambda>_. Done (- 1))
     else Sys GetStartupInfo (\<lambda>_. run_options lpCmdLine None))"

text \<open>The start code of \<open>runwaitw\<close> skips the name of the program, which may be quoted.\<close>

definition skip_program :: "nat list \<Rightarrow> nat list" where
  "skip_program s =
    (let t = (if s \<noteq> [] \<and> hd s = 34 then dropWhile (\<lambda>c. c \<noteq> 34) (tl s) else s)
     in dropWhile (\<lambda>c. c \<le> 32) (dropWhile (\<lambda>c. 32 < c) t))"

definition runwaitw_startup :: "WCHAR list \<Rightarrow> proc_prog" where
  "runwaitw_startup cmdline = runwaitw_wWinMain (skip_program (map unat cmdline))"

text \<open>
  The documented options, each of them given or not, in the documented order, are understood:
  the rest of the line is the command, whatever style and detachment were asked for.
\<close>

definition is_command :: "nat list \<Rightarrow> bool" where
  "is_command cmd \<longleftrightarrow> \<not> option_given ''/64 '' cmd \<and> \<not> option_given ''/detach '' cmd \<and>
    \<not> option_given ''/hide '' cmd \<and> \<not> option_given ''/min '' cmd \<and> \<not> option_given ''/max '' cmd"

fun window_text :: "int option \<Rightarrow> string" where
  "window_text None = []"
| "window_text (Some n) = (if n = SW_HIDE then ''/hide '' else if n = SW_MINIMIZE then ''/min '' else ''/max '')"

lemma option_given_here [simp]: "option_given w (codes w @ s)"
  by (simp add: option_given_def codes_def)

lemma option_given_other:
  "\<not> option_given ''/64 '' (codes ''/detach '' @ s)" "\<not> option_given ''/64 '' (codes ''/hide '' @ s)"
  "\<not> option_given ''/64 '' (codes ''/min '' @ s)" "\<not> option_given ''/64 '' (codes ''/max '' @ s)"
  "\<not> option_given ''/detach '' (codes ''/hide '' @ s)" "\<not> option_given ''/detach '' (codes ''/min '' @ s)"
  "\<not> option_given ''/detach '' (codes ''/max '' @ s)" "\<not> option_given ''/hide '' (codes ''/min '' @ s)"
  "\<not> option_given ''/hide '' (codes ''/max '' @ s)" "\<not> option_given ''/min '' (codes ''/max '' @ s)"
  by (simp_all add: option_given_def codes_def lower_code_def code_def)

lemma length_codes [simp]: "length (codes s) = length s"
  by (simp add: codes_def)

lemma codes_Nil [simp]: "codes [] = []"
  by (simp add: codes_def)

lemma drop_codes: "length w = n \<Longrightarrow> drop n (codes w @ s) = s"
  by simp

lemma window_option_text:
  assumes "is_command cmd" "w \<in> {None, Some SW_HIDE, Some SW_MINIMIZE, Some SW_MAXIMIZE}"
  shows "window_option (codes (window_text w) @ cmd) None = (w, cmd)"
    and "\<not> option_given ''/detach '' (codes (window_text w) @ cmd)"
    and "\<not> option_given ''/64 '' (codes (window_text w) @ cmd)"
  using assms
  by (auto simp: window_option_def is_command_def option_given_other drop_codes SW_HIDE_def SW_MINIMIZE_def SW_MAXIMIZE_def)

lemma run_rest_options:
  assumes "is_command cmd" "w \<in> {None, Some SW_HIDE, Some SW_MINIMIZE, Some SW_MAXIMIZE}"
  shows "run_rest (codes (if detach then ''/detach '' else []) @ codes (window_text w) @ cmd) None =
    start_process cmd detach w"
  by (cases detach) (simp_all add: run_rest_def Let_def window_option_text[OF assms] drop_codes option_given_here)

lemma skip_program_quoted:
  assumes "34 \<notin> set name" "rest = [] \<or> 32 < hd rest"
  shows "skip_program (34 # name @ [34, 32] @ rest) = rest"
proof -
  have "dropWhile (\<lambda>c. c \<noteq> 34) (name @ 34 # 32 # rest) = 34 # 32 # rest"
    using assms(1) by (induction name) auto
  with assms(2) show ?thesis by (cases rest) (simp_all add: skip_program_def Let_def)
qed

text \<open>A status other than \<open>-1\<close> is the exit code of the process that was started.\<close>

lemma start_process_status:
  "runs anything (start_process cmd d w) tr n \<Longrightarrow> n \<noteq> - 1 \<Longrightarrow>
    \<exists>p c x e. tr = [(CreateProcess cmd (if d then [''DETACHED_PROCESS''] else []) w, p), (CloseHandle (thread p), c),
      (WaitForSingleObject (process p), x), (GetExitCodeProcess (process p), e)] \<and> n = to_int (num e)"
  by (auto simp: start_process_def wait_and_return_def split: if_splits)

section \<open>\<open>logonwrap.c\<close> and \<open>cpretpid.c\<close>\<close>

definition logonwrap_WinMain :: "string \<Rightarrow> int \<Rightarrow> proc_prog" where
  "logonwrap_WinMain lpCmdLine nCmdShow =
    (if lpCmdLine = [] then Sys (MessageBox ''Usage syntax: logonwrap <command line>'') (\<lambda>_. Done 0)
     else
       (let log_out = Sys ExitWindows (\<lambda>x.
              if rv x = 0 then Sys (MessageBox ''logonwrap'') (\<lambda>_. Done 0) else Done 1)
        in Sys (CreateProcess (codes lpCmdLine) [] (Some (nCmdShow mod 65536))) (\<lambda>p.
             if rv p \<noteq> 0 then Sys (WaitForSingleObject (process p)) (\<lambda>_. log_out)
             else Sys (MessageBox ''Error %1!i!: %2%n'%3'.'') (\<lambda>_. log_out))))"

definition strcmpi :: "string \<Rightarrow> string \<Rightarrow> bool" where
  "strcmpi a b \<longleftrightarrow> map lower_code (codes a) = map lower_code (codes b)"

fun strstr :: "string \<Rightarrow> string \<Rightarrow> string option" where
  "strstr [] p = (if p = [] then Some [] else None)"
| "strstr (c # s) p = (if take (length p) (c # s) = p then Some (c # s) else strstr s p)"

text \<open>
  The switches are compared until another argument is found; the comparison of a missing
  argument is undefined.
\<close>

fun cpretpid_switches :: "string list \<Rightarrow> bool \<Rightarrow> bool \<Rightarrow> (bool \<times> bool \<times> string) option" where
  "cpretpid_switches [] uniproc noexcept = None"
| "cpretpid_switches (a # args) uniproc noexcept =
    (if strcmpi a ''/U'' then cpretpid_switches args True noexcept
     else if strcmpi a ''/I'' then cpretpid_switches args uniproc True
     else Some (uniproc, noexcept, a))"

text \<open>
  The command begins where the first argument that is no switch is found in the command
  line. Without such a place \<open>CreateProcess\<close> would get no name and no command line.
\<close>

definition cpretpid_main :: "string list \<Rightarrow> proc_prog" where
  "cpretpid_main args =
    (if args = [] then Sys (Puts ''Creates a process and returns process id.'') (\<lambda>_. Done 0)
     else
       (case cpretpid_switches args False False of
          None \<Rightarrow> Crash
        | Some (uniproc, noexcept, a) \<Rightarrow>
            Sys GetCommandLine (\<lambda>g. Sys (GetPriorityClass (- 1)) (\<lambda>c.
              (case strstr (line g) a of
                 None \<Rightarrow> Crash
               | Some cmd \<Rightarrow>
                   Sys (CreateProcess (codes cmd)
                     [''CREATE_NEW_CONSOLE'', ''CREATE_NEW_PROCESS_GROUP'', ''CREATE_SUSPENDED'', dec (rv c)] None) (\<lambda>p.
                     if rv p = 0 then Sys (Perror ''cpretpid'') (\<lambda>_. Done 0)
                     else
                       (let resume = Sys (ResumeThread (thread p)) (\<lambda>_. Done (to_int (num p)))
                        in if uniproc then
                             Sys (SetProcessAffinityMask (process p) 1) (\<lambda>s.
                               if rv s = 0 then Sys (Perror ''cpretpid /U'') (\<lambda>_. resume) else resume)
                           else resume)))))))"

text \<open>Started with a command, \<open>logonwrap\<close> always ends the session, and only at the end.\<close>

lemma logonwrap_logs_out:
  assumes "runs anything (logonwrap_WinMain cmd sh) tr n" "cmd \<noteq> []"
  shows "\<exists>before x after. tr = before @ (ExitWindows, x) # after \<and> (rv x = 0) = (n = 0) \<and>
    ExitWindows \<notin> fst ` set before \<and> ExitWindows \<notin> fst ` set after"
proof -
  have "holds anything (\<lambda>tr n. \<exists>before x after. tr = before @ (ExitWindows, x) # after \<and> (rv x = 0) = (n = 0) \<and>
      ExitWindows \<notin> fst ` set before \<and> ExitWindows \<notin> fst ` set after) [] (logonwrap_WinMain cmd sh)"
    using assms(2)
    by (simp add: logonwrap_WinMain_def Let_def append_eq_Cons_conv Cons_eq_append_conv) 
  with assms(1) show ?thesis by (simp add: holds_iff_runs)
qed

text \<open>Only switches: the argument that is missing is compared.\<close>

lemma cpretpid_switches_only: "cpretpid_main [''/u''] = Crash"
  by (simp add: cpretpid_main_def strcmpi_def lower_code_def codes_def code_def)

text \<open>
  The first occurrence of the argument may be inside the program's own name: then it is the
  program itself that is started again.
\<close>

lemma cpretpid_starts_itself:
  "runs anything (cpretpid_main [''c'']) ((GetCommandLine, g) # (GetPriorityClass (- 1), c) # e # tr) n \<Longrightarrow>
    line g = ''cpretpid c'' \<Longrightarrow> \<exists>fs. fst e = CreateProcess (codes ''cpretpid c'') fs None"
  by (auto simp: cpretpid_main_def strcmpi_def lower_code_def codes_def code_def Let_def)

section \<open>\<open>wtime.c\<close> and \<open>setprio.c\<close>\<close>

text \<open>The text of a date or a time is converted in its buffer before it is printed.\<close>

definition print_part :: "proc_call \<Rightarrow> string \<Rightarrow> proc_prog \<Rightarrow> proc_prog" where
  "print_part c fmt k =
    Sys c (\<lambda>r. if rv r \<noteq> 0 then Sys (CharToOem (line r)) (\<lambda>t. Sys (Printf fmt [S (line t)]) (\<lambda>_. k)) else k)"

definition PrintShortDate :: "proc_prog \<Rightarrow> proc_prog" where
  "PrintShortDate k = print_part (GetDateFormat '''') ''%s'' k"

definition PrintLongDate :: "proc_prog \<Rightarrow> proc_prog" where
  "PrintLongDate k = print_part (GetDateFormat ''DATE_LONGDATE'') ''%s'' k"

definition PrintTime :: "proc_prog \<Rightarrow> proc_prog" where
  "PrintTime k = print_part GetTimeFormat ''%s'' k"

definition PrintShortDateAndTime :: "proc_prog \<Rightarrow> proc_prog" where
  "PrintShortDateAndTime k = print_part (GetDateFormat '''') ''%s '' (print_part GetTimeFormat ''%s'' k)"

definition PrintLongDateAndTime :: "proc_prog \<Rightarrow> proc_prog" where
  "PrintLongDateAndTime k = print_part (GetDateFormat ''DATE_LONGDATE'') ''%s '' (print_part GetTimeFormat ''%s'' k)"

text \<open>The letters of the priority classes, and the names that are shown for them.\<close>

definition priority_class :: "char \<Rightarrow> int option" where
  "priority_class c =
    (let l = fold_case c in
     if l = CHR ''h'' then Some 0x80
     else if l = CHR ''i'' then Some 0x40
     else if l = CHR ''b'' then Some 0x4000
     else if l = CHR ''n'' then Some 0x20
     else if l = CHR ''a'' then Some 0x8000
     else if l = CHR ''r'' then Some 0x100
     else None)"

definition priority_name :: "int \<Rightarrow> proc_call" where
  "priority_name p =
    (if p = 0x80 then Puts ''High''
     else if p = 0x40 then Puts ''Idle''
     else if p = 0x4000 then Puts ''Below normal''
     else if p = 0x20 then Puts ''Normal''
     else if p = 0x8000 then Puts ''Above normal''
     else if p = 0x100 then Puts ''Realtime''
     else Printf ''%i'' [I p])"

fun printfs :: "(string \<times> arg list) list \<Rightarrow> proc_prog \<Rightarrow> proc_prog" where
  "printfs [] k = k"
| "printfs ((f, xs) # ps) k = Sys (Printf f xs) (\<lambda>_. printfs ps k)"

definition ERROR_CALL_NOT_IMPLEMENTED :: int where "ERROR_CALL_NOT_IMPLEMENTED = 120"

definition process_times :: "int \<Rightarrow> proc_prog" where
  "process_times hProcess =
    Sys (GetProcessTimes hProcess) (\<lambda>t.
      if rv t = 0 then
        (if err t = ERROR_CALL_NOT_IMPLEMENTED then Done 0
         else Sys (Perror ''Error getting process times'') (\<lambda>_. Done 1))
      else if created t = 0 then Done 0
      else
        Sys (FileTimeToLocalFileTime (created t)) (\<lambda>l. Sys (FileTimeToSystemTime (created l)) (\<lambda>_.
        Sys (Printf ''Start time: '' []) (\<lambda>_. PrintShortDateAndTime (Sys (Printf '''' []) (\<lambda>_.
          if user_time t = 0 then Done 0
          else
            Sys (Printf ''Kernel time: '' []) (\<lambda>_. printfs (PrintAbsoluteTime (kernel_time t))
            (Sys (Printf ''User time: '' []) (\<lambda>_. printfs (PrintAbsoluteTime (user_time t))
            (Sys (Printf '''' []) (\<lambda>_. Done 0)))))))))))"

text \<open>An empty second argument ends in a character that is no class.\<close>

definition first_char :: "string \<Rightarrow> char" where
  "first_char s = (if s = [] then CHR 0x00 else hd s)"

definition setprio_set :: "DWORD \<Rightarrow> int \<Rightarrow> proc_prog" where
  "setprio_set dwPID dwPriority =
    Sys (OpenProcess SET_INFORMATION dwPID) (\<lambda>h.
      if rv h = 0 then Sys (Perror ''OpenProcess'') (\<lambda>_. Done 1)
      else Sys (SetPriorityClass (rv h) dwPriority) (\<lambda>s.
        if rv s = 0 then Sys (Perror ''SetPriorityClass'') (\<lambda>_. Done 2) else Done 0))"

definition setprio_show :: "DWORD \<Rightarrow> proc_prog" where
  "setprio_show dwPID =
    Sys (OpenProcess QUERY_INFORMATION dwPID) (\<lambda>h.
      if rv h = 0 then Sys (Perror ''OpenProcess'') (\<lambda>_. Done 1)
      else Sys (GetPriorityClass (rv h)) (\<lambda>p.
        if rv p = 0 then Sys (Perror ''GetPriorityClass'') (\<lambda>_. Done 2)
        else
          Sys (Printf ''Priority class for pid %i: '' [I (sint dwPID)]) (\<lambda>_.
          Sys (priority_name (rv p)) (\<lambda>_. process_times (rv h)))))"

definition setprio_main :: "string list \<Rightarrow> proc_prog" where
  "setprio_main args =
    (if args = [] then Sys (Puts ''Usage:'') (\<lambda>_. Done 0)
     else
       (let dwPID = process_id (args ! 0) in
        if length args = 1 then setprio_show dwPID
        else
          (case priority_class (first_char (args ! 1)) of
             None \<Rightarrow> Sys (Eprintf ''Unsupported priority class - %c.'' [S [fold_case (first_char (args ! 1))]]) (\<lambda>_. Done (- 1))
           | Some dwPriority \<Rightarrow> setprio_set dwPID dwPriority)))"

text \<open>What a class that can be set is called when it is shown.\<close>

lemma priority_class_shown:
  "priority_class c = Some p \<Longrightarrow> p \<noteq> 0 \<and>
    priority_name p \<in> {Puts ''High'', Puts ''Idle'', Puts ''Below normal'', Puts ''Normal'', Puts ''Above normal'', Puts ''Realtime''}"
  by (auto simp: priority_class_def priority_name_def Let_def split: if_splits)

text \<open>The handle of the process is closed on no path.\<close>

lemma setprio_leaks:
  "runs anything (setprio_set pid p) tr n \<Longrightarrow> (CloseHandle h, r) \<notin> set tr"
  by (auto simp: setprio_set_def split: if_splits)

section \<open>\<open>logout.c\<close>\<close>

text \<open>One letter: the flag it adds, or the help.\<close>

definition logout_letter :: "char \<Rightarrow> nat \<times> bool \<Rightarrow> nat \<times> bool" where
  "logout_letter c = (\<lambda>(uFlags, displayhelp).
    (let l = fold_case c in
     if l = CHR ''f'' then (uFlags OR 4, displayhelp)
     else if l = CHR ''l'' then (uFlags OR 0, displayhelp)
     else if l = CHR ''o'' then (uFlags OR 8, displayhelp)
     else if l = CHR ''r'' then (uFlags OR 2, displayhelp)
     else if l = CHR ''h'' then (uFlags OR 1, displayhelp)
     else (uFlags, True)))"

definition logout_switches :: "string \<Rightarrow> nat \<times> bool" where
  "logout_switches lpCmdLine =
    (if lpCmdLine \<noteq> [] \<and> is_switch (hd lpCmdLine) then fold logout_letter (tl lpCmdLine) (0, False)
     else (0, False))"

definition SHTDN_REASON_FLAG_PLANNED :: int where "SHTDN_REASON_FLAG_PLANNED = 0x80000000"

definition logout_exit :: "nat \<Rightarrow> proc_prog" where
  "logout_exit uFlags =
    Sys Win32s (\<lambda>w.
      (let (fl, dwReason) = (if rv w \<noteq> 0 then (0, 0) else (uFlags, SHTDN_REASON_FLAG_PLANNED))
       in Sys (ExitWindowsEx fl dwReason) (\<lambda>x.
            if rv x = 0 then Sys (MessageBox ''Logout'') (\<lambda>_. Done 1) else Done 0)))"

definition logout_WinMain :: "string \<Rightarrow> proc_prog" where
  "logout_WinMain lpCmdLine =
    (let (uFlags, displayhelp) = logout_switches lpCmdLine;
         refused = Sys (MessageBox ''Logout'') (\<lambda>_. Sys LocalFree (\<lambda>_. Done 1))
     in if displayhelp then Sys (MessageBox ''LOGOUT.'') (\<lambda>_. Done 0)
        else Sys WindowsNT (\<lambda>v.
          if rv v \<noteq> 0 then
            Sys OpenProcessToken (\<lambda>t.
              if rv t = 0 then refused
              else Sys (LookupPrivilegeValue ''SE_SHUTDOWN_NAME'') (\<lambda>_.
                Sys (AdjustTokenPrivileges (num t)) (\<lambda>a.
                  if rv a = 0 then refused else logout_exit uFlags)))
          else logout_exit uFlags))"

text \<open>
  The flags are those of the letters, and one character that is no such letter, a blank
  between two switches for instance, shows the help instead.
\<close>

lemma logout_letters:
  "fold logout_letter cs (u, h) =
    (fold (\<lambda>c u. fst (logout_letter c (u, False))) cs u, h \<or> (\<exists>c \<in> set cs. fold_case c \<notin> set ''florh''))"
  by (induction cs arbitrary: u h) (auto simp: logout_letter_def Let_def split: prod.splits)

lemma logout_help:
  assumes "is_switch s" "c \<in> set cs" "fold_case c \<notin> set ''florh''"
  shows "logout_WinMain (s # cs) = Sys (MessageBox ''LOGOUT.'') (\<lambda>_. Done 0)"
proof -
  have "snd (logout_switches (s # cs))" using assms unfolding logout_switches_def logout_letters by auto
  then show ?thesis by (simp add: logout_WinMain_def case_prod_unfold)
qed

lemma logout_two_switches: "logout_WinMain ''/h /f'' = Sys (MessageBox ''LOGOUT.'') (\<lambda>_. Done 0)"
  by (rule logout_help[of _ "CHR '' ''"]) (simp_all add: is_switch_iff fold_case_def char_of_def bit_Suc_0_iff)

section \<open>\<open>shutdown.c\<close>\<close>

text \<open>
  \<open>reboot_flag\<close> is fixed when the program is built: the same source makes the program that
  shuts down and the one that restarts.
\<close>

definition shutdown_now :: "bool \<Rightarrow> wide option \<Rightarrow> proc_prog" where
  "shutdown_now reboot_flag lpMachineName =
    Sys (InitiateSystemShutdown lpMachineName reboot_flag) (\<lambda>s.
      if rv s \<noteq> 0 then Done 0 else Sys (WinPerror lpMachineName) (\<lambda>_. Done 1))"

definition shutdown_wmain :: "bool \<Rightarrow> wide list \<Rightarrow> proc_prog" where
  "shutdown_wmain reboot_flag args =
    (let lpMachineName = (if args \<noteq> [] then Some (args ! 0) else None) in
     Sys OpenProcessToken (\<lambda>t.
       if rv t \<noteq> 0 then
         Sys (LookupPrivilegeValue ''SE_SHUTDOWN_NAME'') (\<lambda>_.
         Sys (LookupPrivilegeValue ''SE_REMOTE_SHUTDOWN_NAME'') (\<lambda>_.
         Sys (AdjustTokenPrivileges (num t)) (\<lambda>_. shutdown_now reboot_flag lpMachineName)))
       else shutdown_now reboot_flag lpMachineName))"

definition shutdown_start :: "bool \<Rightarrow> wide list option \<Rightarrow> proc_prog" where
  "shutdown_start reboot_flag argv =
    nt_startup (Eputs ''This program requires Windows NT.'') (shutdown_wmain reboot_flag) argv"

text \<open>One machine is asked once, and the status says whether it agreed.\<close>

lemma shutdown_asks_once:
  "runs anything (shutdown_wmain b args) tr n \<Longrightarrow>
    \<exists>s. filter (\<lambda>e. case fst e of InitiateSystemShutdown m f \<Rightarrow> True | _ \<Rightarrow> False) tr =
      [(InitiateSystemShutdown (if args = [] then None else Some (hd args)) b, s)] \<and> (n = 0) = (rv s \<noteq> 0)"
  by (auto simp: shutdown_wmain_def shutdown_now_def Let_def hd_conv_nth split: if_splits)

end
