(* ===== verification/NoExcept.thy ===== *)
theory NoExcept
  imports Args CLib
begin

text \<open>
  \<open>noexcept.c\<close>: starts a program or opens a running one and loads a library into it, by
  running \<open>LoadLibrary\<close> in a thread of that process on a name that was written into its
  memory. A program that it starts is suspended until the library has been installed.
\<close>

section \<open>Calls\<close>

text \<open>
  \<open>num\<close> is an address, or the exit code of a thread; \<open>wtext\<close> a name or a command line;
  \<open>process\<close> and \<open>thread\<close> the handles of \<open>CreateProcess\<close>. Memory is always freed with
  the size it was given or with size zero, both of which mean the whole block.
\<close>

record ne_reply = reply +
  wtext :: wide
  process :: int
  thread :: int

datatype routine = GetModuleHandleW | LoadLibraryW | Address DWORD

datatype ne_call =
    MessageBox string
  | GetModuleFileName
  | GetCommandLine
  | OpenProcess DWORD
  | CreateSuspended wide
  | NtAllocateVirtualMemory int nat
  | NtFreeVirtualMemory int int
  | WriteProcessMemory int int wide
  | CreateRemoteThread int routine int
  | WaitForSingleObject int
  | GetExitCodeThread int
  | CloseHandle int
  | TerminateProcess int int
  | ResumeThread int

type_synonym ne_prog = "(ne_call, ne_reply) prog"

text \<open>\<open>wcstoul\<close> reads the digits, blanks and signs of ASCII only.\<close>

definition wcstoul :: "wide \<Rightarrow> DWORD" where
  "wcstoul w = fst (strtoul (map narrow w) 0)"

section \<open>Taking the library out\<close>

text \<open>A failure to read the exit code leaves the address at \<open>0\<close>.\<close>

definition exit_value :: "ne_reply \<Rightarrow> int" where
  "exit_value e = (if rv e = 0 then 0 else num e)"

definition dll_name :: wide where
  "dll_name = wide_of ''noexcept.dll'' @ [0]"

definition run_uninstall :: "DWORD \<Rightarrow> int \<Rightarrow> int \<Rightarrow> DWORD \<Rightarrow> ne_prog" where
  "run_uninstall dwFunctionOffset hProcess dwBaseAddress parameter =
    (if dwBaseAddress = 0 then Sys (MessageBox ''Not installed'') (\<lambda>_. Done 1)
     else Sys (CreateRemoteThread hProcess (Address (word_of_int dwBaseAddress + dwFunctionOffset)) (uint parameter)) (\<lambda>h.
       if rv h = 0 then Sys (MessageBox ''Cannot create thread in the process'') (\<lambda>_. Done 1)
       else Sys (WaitForSingleObject (rv h)) (\<lambda>_. Done 0)))"

definition find_module :: "DWORD \<Rightarrow> int \<Rightarrow> int \<Rightarrow> DWORD \<Rightarrow> ne_prog" where
  "find_module dwFunctionOffset hProcess lpMemBlock parameter =
    Sys (WriteProcessMemory hProcess lpMemBlock dll_name) (\<lambda>w.
      if rv w = 0 then
        Sys (MessageBox ''Cannot write memory in the process'') (\<lambda>_.
        Sys (NtFreeVirtualMemory hProcess lpMemBlock) (\<lambda>_. Done 1))
      else Sys (CreateRemoteThread hProcess GetModuleHandleW lpMemBlock) (\<lambda>h.
        if rv h = 0 then
          Sys (MessageBox ''Cannot create thread in the process'') (\<lambda>_.
          Sys (NtFreeVirtualMemory hProcess lpMemBlock) (\<lambda>_. Done 1))
        else
          Sys (WaitForSingleObject (rv h)) (\<lambda>_.
          Sys (NtFreeVirtualMemory hProcess lpMemBlock) (\<lambda>_.
          Sys (GetExitCodeThread (rv h)) (\<lambda>e.
          Sys (CloseHandle (rv h)) (\<lambda>_.
          run_uninstall dwFunctionOffset hProcess (exit_value e) parameter))))))"

text \<open>
  \<open>args\<close> is what follows the switch. The process identifier is read before the number of
  arguments is tested.
\<close>

definition Uninstall :: "DWORD \<Rightarrow> wide list \<Rightarrow> ne_prog" where
  "Uninstall dwFunctionOffset args =
    (if args = [] then Crash
     else Sys (OpenProcess (wcstoul (args ! 0))) (\<lambda>p.
       if rv p = 0 then Sys (MessageBox ''Cannot open process'') (\<lambda>_. Done 1)
       else Sys (NtAllocateVirtualMemory (rv p) (2 * length dll_name)) (\<lambda>m.
         if \<not> NT_SUCCESS (rv m) then Sys (MessageBox ''Cannot allocate memory in the process'') (\<lambda>_. Done 1)
         else find_module dwFunctionOffset (rv p) (num m)
           (if length args > 1 then wcstoul (args ! 1) else 0))))"

section \<open>Putting it in\<close>

text \<open>
  The part of the command line behind the program's name: \<open>dwOffset\<close> is the distance of
  the first two arguments in the array of the shell, a closing quote may stand there. A
  distance behind the end of the line would be read out of bounds.
\<close>

definition command_part :: "wide \<Rightarrow> nat \<Rightarrow> wide option" where
  "command_part cmdline dwOffset =
    (if length cmdline < dwOffset then None
     else
       (let t = drop dwOffset cmdline;
            u = (if dwOffset > 1 \<and> take 2 t = [0x22, 0x20] then drop 2 t else t)
        in Some (dropWhile (\<lambda>c. c = 0x20) u)))"

text \<open>On the way out, a program that was started is ended.\<close>

definition give_up :: "int \<Rightarrow> int \<Rightarrow> ne_prog" where
  "give_up hProcess hThread =
    (if hThread \<noteq> 0 then Sys (TerminateProcess hProcess (- 1)) (\<lambda>_. Done 1) else Done 1)"

definition install_handler :: "DWORD \<Rightarrow> wide list \<Rightarrow> int \<Rightarrow> int \<Rightarrow> int \<Rightarrow> ne_prog" where
  "install_handler dwFunctionOffset args hProcess hThread dwBaseAddress =
    (if dwBaseAddress = 0 then
       Sys (MessageBox ''LoadLibrary() failed in the process'') (\<lambda>_. give_up hProcess hThread)
     else Sys (CreateRemoteThread hProcess (Address (word_of_int dwBaseAddress + dwFunctionOffset))
         (if hThread = 0 \<and> length args > 1 then uint (wcstoul (args ! 1)) else 0)) (\<lambda>h.
       if rv h = 0 then
         Sys (MessageBox ''Cannot create thread in the process'') (\<lambda>_. give_up hProcess hThread)
       else Sys (WaitForSingleObject (rv h)) (\<lambda>_.
         if hThread \<noteq> 0 then Sys (ResumeThread hThread) (\<lambda>_. Done 0) else Done 0)))"

definition load_library :: "DWORD \<Rightarrow> wide list \<Rightarrow> wide \<Rightarrow> int \<Rightarrow> int \<Rightarrow> int \<Rightarrow> ne_prog" where
  "load_library dwFunctionOffset args wszModFile hProcess hThread lpMemBlock =
    Sys (WriteProcessMemory hProcess lpMemBlock (wszModFile @ [0])) (\<lambda>w.
      if rv w = 0 then
        Sys (MessageBox ''Cannot write memory in the process'') (\<lambda>_.
        Sys (NtFreeVirtualMemory hProcess lpMemBlock) (\<lambda>_. give_up hProcess hThread))
      else Sys (CreateRemoteThread hProcess LoadLibraryW lpMemBlock) (\<lambda>h.
        if rv h = 0 then
          Sys (MessageBox ''Cannot create thread in the process'') (\<lambda>_.
          Sys (NtFreeVirtualMemory hProcess lpMemBlock) (\<lambda>_. give_up hProcess hThread))
        else
          Sys (WaitForSingleObject (rv h)) (\<lambda>_.
          Sys (GetExitCodeThread (rv h)) (\<lambda>e.
          Sys (CloseHandle (rv h)) (\<lambda>_.
          Sys (NtFreeVirtualMemory hProcess lpMemBlock) (\<lambda>_.
          install_handler dwFunctionOffset args hProcess hThread (exit_value e)))))))"

definition attach :: "DWORD \<Rightarrow> wide list \<Rightarrow> wide \<Rightarrow> int \<Rightarrow> int \<Rightarrow> ne_prog" where
  "attach dwFunctionOffset args wszModFile hProcess hThread =
    Sys (NtAllocateVirtualMemory hProcess ((length wszModFile + 1) * 2)) (\<lambda>m.
      if \<not> NT_SUCCESS (rv m) then
        Sys (MessageBox ''Cannot allocate memory in the process'') (\<lambda>_. give_up hProcess hThread)
      else load_library dwFunctionOffset args wszModFile hProcess hThread (num m))"

text \<open>
  \<open>args\<close> are the arguments behind the program's name; \<open>install\<close> and \<open>uninstall\<close> the
  places of the two routines in the library.
\<close>

definition noexcept_wmain :: "DWORD \<Rightarrow> DWORD \<Rightarrow> nat \<Rightarrow> wide list \<Rightarrow> ne_prog" where
  "noexcept_wmain install uninstall dwOffset args =
    Sys GetModuleFileName (\<lambda>f.
      if rv f = 0 then Sys (MessageBox ''Cannot attach noexcept.dll'') (\<lambda>_. Done 1)
      else if args = [] then Sys (MessageBox ''noexcept'') (\<lambda>_. Done 2)
      else if wcsicmp (args ! 0) (wide_of ''/u'') then Uninstall uninstall (tl args)
      else if wcstoul (args ! 0) \<noteq> 0 then
        Sys (OpenProcess (wcstoul (args ! 0))) (\<lambda>p.
          if rv p = 0 then Sys (MessageBox ''Cannot open process'') (\<lambda>_. Done 1)
          else attach install args (wtext f) (rv p) 0)
      else Sys GetCommandLine (\<lambda>g.
        (case command_part (wtext g) dwOffset of
           None \<Rightarrow> Crash
         | Some cmd \<Rightarrow>
             Sys (CreateSuspended cmd) (\<lambda>p.
               if rv p = 0 then Sys (MessageBox ''Cannot create process'') (\<lambda>_. Done 1)
               else attach install args (wtext f) (process p) (thread p)))))"

section \<open>What must be undone\<close>

text \<open>
  Memory in another process, and a program that was started and stands still. \<open>owner\<close> says
  to which process a thread belongs; ending the process or resuming its thread settles it.
\<close>

datatype borrowed = Memory int int | Suspended int

fun borrows :: "ne_call \<times> ne_reply \<Rightarrow> borrowed option" where
  "borrows (NtAllocateVirtualMemory h k, r) = (if NT_SUCCESS (rv r) then Some (Memory h (num r)) else None)"
| "borrows (CreateSuspended c, r) = (if rv r \<noteq> 0 then Some (Suspended (process r)) else None)"
| "borrows _ = None"

fun settles :: "(int \<Rightarrow> int) \<Rightarrow> ne_call \<times> ne_reply \<Rightarrow> borrowed option" where
  "settles owner (NtFreeVirtualMemory h a, r) = Some (Memory h a)"
| "settles owner (TerminateProcess h c, r) = Some (Suspended h)"
| "settles owner (ResumeThread t, r) = Some (Suspended (owner t))"
| "settles owner _ = None"

fun process_law :: "(int \<Rightarrow> int) \<Rightarrow> ne_call \<Rightarrow> ne_reply \<Rightarrow> bool" where
  "process_law owner (CreateSuspended c) r \<longleftrightarrow> (rv r \<noteq> 0 \<longrightarrow> thread r \<noteq> 0 \<and> owner (thread r) = process r)"
| "process_law owner _ r \<longleftrightarrow> True"

interpretation loans: resources borrows "settles owner" for owner
proof
  fix e
  show "borrows e \<noteq> None \<Longrightarrow> settles owner e = None"
    by (cases e rule: borrows.cases) simp_all
qed

lemmas loan_simps = holds_Sys loans.balance_append NT_SUCCESS_def

text \<open>The state of the program that was started, if one was.\<close>

definition standing :: "int \<Rightarrow> int \<Rightarrow> borrowed multiset" where
  "standing hProcess hThread = (if hThread \<noteq> 0 then {#Suspended hProcess#} else {#})"

definition settled :: "(int \<Rightarrow> int) \<Rightarrow> (ne_call \<times> ne_reply) list \<Rightarrow> int \<Rightarrow> bool" where
  "settled owner tr n \<longleftrightarrow> balance borrows (settles owner) tr = Some {#}"

lemma give_up_settles:
  "balance borrows (settles owner) h = Some (standing p t) \<Longrightarrow> holds (process_law owner) (settled owner) h (give_up p t)"
  by (auto simp: give_up_def loan_simps standing_def settled_def)

lemma install_handler_settles:
  assumes "balance borrows (settles owner) h = Some (standing p t)" "t \<noteq> 0 \<Longrightarrow> owner t = p"
  shows "holds (process_law owner) (settled owner) h (install_handler off args p t base)"
  using assms by (auto simp: install_handler_def loan_simps standing_def settled_def intro!: give_up_settles)

lemma load_library_settles:
  assumes "balance borrows (settles owner) h = Some (add_mset (Memory p a) (standing p t))" "t \<noteq> 0 \<Longrightarrow> owner t = p"
  shows "holds (process_law owner) (settled owner) h (load_library off args f p t a)"
  using assms by (auto simp: load_library_def loan_simps intro!: give_up_settles install_handler_settles)

lemma attach_settles:
  assumes "balance borrows (settles owner) h = Some (standing p t)" "t \<noteq> 0 \<Longrightarrow> owner t = p"
  shows "holds (process_law owner) (settled owner) h (attach off args f p t)"
  using assms by (auto simp: attach_def loan_simps intro!: give_up_settles load_library_settles)

lemma Uninstall_settles:
  "balance borrows (settles owner) h = Some {#} \<Longrightarrow> holds (process_law owner) (settled owner) h (Uninstall off args)"
  by (auto simp: Uninstall_def find_module_def run_uninstall_def loan_simps settled_def)

lemma attach_fate:
  assumes "t \<noteq> 0"
  shows "holds R (\<lambda>tr n. fst (last tr) = (if n = 0 then ResumeThread t else TerminateProcess p (- 1))) h
    (attach off args f p t)"
  using assms
  by (auto simp: attach_def load_library_def install_handler_def give_up_def holds_Sys)

lemma noexcept_settles_all:
  "holds (process_law owner) (settled owner) [] (noexcept_wmain i u d args)"
proof -
  let ?L = "process_law owner" and ?b = "balance borrows (settles owner)"
  have "holds ?L (settled owner) [(GetModuleFileName, f)] (Uninstall u (tl args))" for f
    by (rule Uninstall_settles) (simp add: balance_start)
  moreover have "holds ?L (settled owner) [(GetModuleFileName, f), (OpenProcess w, p)] (attach i args (wtext f) (rv p) 0)" for f w p
    by (rule attach_settles) (simp_all add: balance_start standing_def)
  moreover have "holds ?L (settled owner) [(GetModuleFileName, f), (GetCommandLine, g), (CreateSuspended c, p)]
      (attach i args (wtext f) (process p) (thread p))"
    if "?L (CreateSuspended c) p" "rv p \<noteq> 0" for f g c p
    by (rule attach_settles) (use that in \<open>simp_all add: balance_start standing_def\<close>)
  ultimately show ?thesis
    by (simp add: noexcept_wmain_def loan_simps settled_def balance_start split: option.splits)
qed

text \<open>
  C27. Whatever \<open>noexcept\<close> borrows it gives back: on every way out the memory it took in
  another process is freed once, and a program that it started is not left standing: its last
  call resumes that program, and then the status is \<open>0\<close>, or it ends it.
\<close>

theorem noexcept_settles:
  assumes "runs (process_law owner) (noexcept_wmain install uninstall dwOffset args) tr n"
  shows "clean borrows (settles owner) tr \<and>
    (\<forall>f g c p rest. tr = (GetModuleFileName, f) # (GetCommandLine, g) # (CreateSuspended c, p) # rest \<and> rv p \<noteq> 0 \<longrightarrow>
      fst (last tr) = (if n = 0 then ResumeThread (thread p) else TerminateProcess (process p) (- 1)))"
proof (intro conjI allI impI)
  show "clean borrows (settles owner) tr"
    using holds_runs[OF assms noexcept_settles_all] by (simp add: clean_balance settled_def)
next
  fix f g c p rest
  assume t: "tr = (GetModuleFileName, f) # (GetCommandLine, g) # (CreateSuspended c, p) # rest \<and> rv p \<noteq> 0"
  with assms have "runs (process_law owner) (attach install args (wtext f) (process p) (thread p)) rest n" "thread p \<noteq> 0"
    by (auto simp: noexcept_wmain_def runs_Sys Uninstall_def split: if_splits option.splits)
  with attach_fate[of "thread p" "process_law owner" "process p" "take 3 tr" install args "wtext f"] t
  show "fst (last tr) = (if n = 0 then ResumeThread (thread p) else TerminateProcess (process p) (- 1))"
    by (auto simp: holds_iff_runs)
qed

definition ne_ok :: ne_reply where
  "ne_ok = \<lparr>rv = 1, out = [], line = [], num = 0, err = 0, wtext = [], process = 0, thread = 0\<rparr>"

theorem noexcept_settles_witness:
  "clean borrows (settles (\<lambda>t. 5))
    [(GetModuleFileName, ne_ok\<lparr>wtext := [99]\<rparr>), (GetCommandLine, ne_ok\<lparr>wtext := [110, 32, 112]\<rparr>),
     (CreateSuspended [112], ne_ok\<lparr>process := 5, thread := 6\<rparr>), (NtAllocateVirtualMemory 5 4, ne_ok\<lparr>rv := - 1\<rparr>),
     (MessageBox ''Cannot allocate memory in the process'', ne_ok), (TerminateProcess 5 (- 1), ne_ok)]"
proof -
  have "narrow 112 = CHR ''p''" by (simp add: narrow_def char_of_def bit_Suc_0_iff)
  then have w: "wcstoul [112] = 0"
    by (simp add: wcstoul_def strtoul_def Let_def c_isspace_def code_def number_prefix_def is_digit_of_def digit_value_def)
  have u: "\<not> wcsicmp [112] (wide_of ''/u'')" by (simp add: wcsicmp_def wide_of_def)
  have "runs (process_law (\<lambda>t. 5)) (noexcept_wmain 0 0 2 [[112]])
    [(GetModuleFileName, ne_ok\<lparr>wtext := [99]\<rparr>), (GetCommandLine, ne_ok\<lparr>wtext := [110, 32, 112]\<rparr>),
     (CreateSuspended [112], ne_ok\<lparr>process := 5, thread := 6\<rparr>), (NtAllocateVirtualMemory 5 4, ne_ok\<lparr>rv := - 1\<rparr>),
     (MessageBox ''Cannot allocate memory in the process'', ne_ok), (TerminateProcess 5 (- 1), ne_ok)] 1"
    by (simp add: noexcept_wmain_def runs_Sys w u command_part_def attach_def give_up_def NT_SUCCESS_def ne_ok_def)
  from noexcept_settles[OF this] show ?thesis by simp
qed

text \<open>The switch alone: the missing identifier is read before it is missed.\<close>

lemma uninstall_without_pid: "noexcept_wmain i u d [wide_of ''/u''] =
    Sys GetModuleFileName (\<lambda>f. if rv f = 0 then Sys (MessageBox ''Cannot attach noexcept.dll'') (\<lambda>_. Done 1) else Crash)"
  by (simp add: noexcept_wmain_def Uninstall_def wcsicmp_def cong: if_cong)

text \<open>
  The arguments of the shell stand one behind the other, so the distance is the length of
  the program's name and its end; the rest of the line is found with and without quotes.
\<close>

lemma command_part_finds:
  assumes "rest \<noteq> []" "hd rest \<noteq> 0x20"
  shows "take 2 rest \<noteq> [0x22, 0x20] \<Longrightarrow> command_part (name @ 0x20 # rest) (Suc (length name)) = Some rest"
    and "name \<noteq> [] \<Longrightarrow> command_part (0x22 # name @ [0x22, 0x20] @ rest) (Suc (length name)) = Some rest"
proof -
  have d: "dropWhile (\<lambda>c. c = 0x20) rest = rest" using assms by (cases rest) simp_all
  show "take 2 rest \<noteq> [0x22, 0x20] \<Longrightarrow> command_part (name @ 0x20 # rest) (Suc (length name)) = Some rest"
    by (simp only: command_part_def Let_def) (simp add: d)
  show "name \<noteq> [] \<Longrightarrow> command_part (0x22 # name @ [0x22, 0x20] @ rest) (Suc (length name)) = Some rest"
    by (simp only: command_part_def Let_def) (simp add: d)
qed

end
