(* ===== verification/PrimeSer.thy ===== *)
theory PrimeSer
  imports WiMath
begin

text \<open>
  \<open>primeser.cpp\<close>: the older way to factorise a number. It builds the series of odd primes up
  to the number and writes the factors, with a one behind them, into an array of the
  caller. The array is a list with a position; a write behind its end is None.
\<close>

section \<open>The functions\<close>

definition put :: "int list \<Rightarrow> nat \<Rightarrow> int \<Rightarrow> int list option" where
  "put primefactors i v = (if i < length primefactors then Some (primefactors[i := v]) else None)"

text \<open>A factor and the one that ends the list, unless another factor takes its place.\<close>

definition put_last :: "int list \<Rightarrow> nat \<Rightarrow> int \<Rightarrow> int list option" where
  "put_last primefactors i v = Option.bind (put primefactors i v) (\<lambda>a. put a (Suc i) 1)"

text \<open>
  The loop over the series; \<open>self\<close> is the function itself, applied to the quotient. What the
  inner call returns is ignored.
\<close>

primrec seek :: "(int \<Rightarrow> int list \<Rightarrow> (bool \<times> int list) option) \<Rightarrow> int \<Rightarrow> int list \<Rightarrow> nat \<Rightarrow> bool \<Rightarrow>
    int list \<Rightarrow> (bool \<times> int list) option" where
  "seek self no primefactors i verbose [] = Some (True, primefactors)"
| "seek self no primefactors i verbose (p # primeseries) =
    (if no = p then map_option (Pair True) (put_last primefactors i p)
     else
       (case c_div no p of
          None \<Rightarrow> None
        | Some quote \<Rightarrow>
            if quote * p = no then
              (if verbose then
                 Option.bind (put_last primefactors i p) (\<lambda>a. map_option (\<lambda>(_, a'). (False, a')) (self quote a))
               else Some (False, primefactors))
            else seek self no primefactors i verbose primeseries))"

text \<open>The recursion ends because quotients get smaller; a series with a one in it would not.\<close>

primrec isprimeno :: "nat \<Rightarrow> int \<Rightarrow> int list \<Rightarrow> nat \<Rightarrow> int list \<Rightarrow> bool \<Rightarrow> (bool \<times> int list) option" where
  "isprimeno 0 no primefactors i primeseries verbose = None"
| "isprimeno (Suc fuel) no primefactors i primeseries verbose =
    seek (\<lambda>quote a. isprimeno fuel quote a (Suc i) primeseries verbose) no primefactors i verbose primeseries"

text \<open>\<open>left\<close> is how many turns of the loop over the odd numbers remain.\<close>

primrec series_loop :: "nat \<Rightarrow> nat \<Rightarrow> int \<Rightarrow> int \<Rightarrow> int list \<Rightarrow> nat \<Rightarrow> int list \<Rightarrow> (bool \<times> int list) option" where
  "series_loop 0 fuel no currentno primefactors i primeseries = Some (True, primefactors)"
| "series_loop (Suc left) fuel no currentno primefactors i primeseries =
    (let verbose = (left = 0) in
     case isprimeno fuel currentno primefactors i primeseries verbose of
       None \<Rightarrow> None
     | Some (True, a) \<Rightarrow>
         if verbose then map_option (Pair True) (put_last a i no)
         else series_loop left fuel no (currentno + 2) a i (primeseries @ [currentno])
     | Some (False, a) \<Rightarrow> series_loop left fuel no (currentno + 2) a i primeseries)"

text \<open>The part behind the twos; \<open>memory\<close> says whether \<open>alloca\<close> found room for the series.\<close>

definition odd_part :: "bool \<Rightarrow> int \<Rightarrow> int list \<Rightarrow> nat \<Rightarrow> (bool \<times> int list) option" where
  "odd_part memory no primefactors i =
    (if no < 3 then map_option (Pair True) (put primefactors i 1)
     else if \<not> memory then Some (False, primefactors)
     else series_loop (nat (drop_bit 1 no)) (nat no) no 3 primefactors i [])"

function two_part :: "bool \<Rightarrow> int \<Rightarrow> int list \<Rightarrow> nat \<Rightarrow> (bool \<times> int list) option" where
  "two_part memory no primefactors i =
    (if 0 < no \<and> no AND 1 = 0 then
       Option.bind (put primefactors i 2) (\<lambda>a. two_part memory (drop_bit 1 no) a (Suc i))
     else odd_part memory no primefactors i)"
  by pat_completeness auto
termination
  by (relation "measure (\<lambda>(memory, no, a, i). nat no)") (auto simp: drop_bit_eq_div)

declare two_part.simps [simp del]

definition primefactorexpress :: "bool \<Rightarrow> int list \<Rightarrow> int \<Rightarrow> (bool \<times> int list) option" where
  "primefactorexpress memory primefactors no =
    (if no < 2 then map_option (Pair True) (put primefactors 0 1)
     else two_part memory no primefactors 0)"

section \<open>Peeling off the least factor\<close>

primrec peels :: "int \<Rightarrow> int list \<Rightarrow> bool" where
  "peels n [] \<longleftrightarrow> n = 1"
| "peels n (p # fs) \<longleftrightarrow> 1 < p \<and> p dvd n \<and> rough n p \<and> peels (n div p) fs"

lemma peels_length: "peels n fs \<Longrightarrow> 2 ^ length fs \<le> n"
proof (induction fs arbitrary: n)
  case (Cons p fs)
  then have "2 ^ length fs \<le> n div p" "2 \<le> p" "n = p * (n div p)" by auto
  from mult_mono[OF this(2,1)] this(2) show ?case by (simp add: \<open>n = p * (n div p)\<close>[symmetric])
qed simp

lemma peels_positive: "peels n fs \<Longrightarrow> 1 \<le> n"
  using peels_length[of n fs] one_le_power[of "2::int" "length fs"] by linarith

text \<open>Collecting is one use of the callback of \<open>getprimefactors\<close>.\<close>

definition collect :: "int list \<Rightarrow> int \<Rightarrow> int \<times> int list" where
  "collect fs p = (0, fs @ [p])"

interpretation collect: factor_callback collect "(=)"
  by unfold_locales (simp_all add: collect_def)

lemma getprimefactors_peels:
  "1 \<le> n \<Longrightarrow> \<exists>fs. getprimefactors n us collect = (0, us @ fs) \<and> peels n fs"
proof (induction "nat n" arbitrary: n us rule: less_induct)
  case less
  show ?case
  proof (cases "n = 1")
    case True
    then show ?thesis by (intro exI[of _ "[]"]) (simp add: getprimefactors_1)
  next
    case False
    with less.prems have "2 \<le> n" by simp
    then obtain d where d: "d dvd n" "2 \<le> d" "rough n d"
      and g: "getprimefactors n us collect = (case collect us d of (s, u') \<Rightarrow>
        if s \<noteq> 0 then (1, u') else getprimefactors (n div d) u' collect)"
      by (rule next_factor)
    have j: "1 \<le> n div d" "n div d < n"
      using d less.prems by (auto simp: int_div_less_self pos_imp_zdiv_pos_iff zdvd_imp_le elim: dvdE)
    with less.hyps[of "n div d" "us @ [d]"] less.prems obtain fs where
      "getprimefactors (n div d) (us @ [d]) collect = (0, us @ d # fs)" "peels (n div d) fs" by auto
    with g d show ?thesis by (intro exI[of _ "d # fs"]) (simp add: collect_def)
  qed
qed

section \<open>The series of odd primes\<close>

definition odd_primes :: "int \<Rightarrow> int list" where
  "odd_primes m = filter is_prime [3..m - 1]"

lemma odd_primes_set [simp]: "x \<in> set (odd_primes m) \<longleftrightarrow> is_prime x \<and> 3 \<le> x \<and> x < m"
  by (auto simp: odd_primes_def)

lemma even_not_prime: "even p \<Longrightarrow> 2 < p \<Longrightarrow> \<not> is_prime p"
  unfolding is_prime_def by (auto intro!: exI[of _ 2])

lemma odd_primes_next:
  assumes "odd m" "3 \<le> m"
  shows "odd_primes (m + 2) = odd_primes m @ (if is_prime m then [m] else [])"
proof -
  have "[3..m + 1] = [3..m - 1] @ [m, m + 1]"
    using assms(2) upto_rec2[of 3 "m + 1"] upto_rec2[of 3 m] by simp
  then have "odd_primes (m + 2) = filter is_prime ([3..m - 1] @ [m, m + 1])"
    by (simp only: odd_primes_def) (simp add: add.commute)
  moreover have "\<not> is_prime (m + 1)" using assms by (intro even_not_prime) auto
  ultimately show ?thesis by (simp add: odd_primes_def)
qed

text \<open>The series up to a prime that divides, which is where the search stops.\<close>

lemma odd_primes_split:
  assumes "is_prime p" "3 \<le> p" "p < m"
  obtains xs ys where "odd_primes m = xs @ p # ys" "\<forall>x \<in> set xs. 3 \<le> x \<and> x < p"
proof -
  have "[3..m - 1] = [3..p - 1] @ p # [p + 1..m - 1]"
    using assms upto_split3[of 3 p "m - 1"] by simp
  with assms(1) have "odd_primes m = filter is_prime [3..p - 1] @ p # filter is_prime [p + 1..m - 1]"
    by (simp add: odd_primes_def)
  then show ?thesis by (rule that) simp
qed

lemma least_divisor:
  assumes "1 < (n :: int)"
  obtains d where "1 < d" "d dvd n" "rough n d" "d \<le> n"
proof -
  from assms obtain d where "d dvd n" "2 \<le> d" "rough n d" using next_factor[of n] by (metis int_one_le_iff_zero_less zero_less_one_class.zero_less_one one_add_one zless_add1_eq add1_zle_eq)
  with assms that[of d] show ?thesis by (simp add: zdvd_imp_le)
qed

lemma prime_if_no_odd_prime:
  assumes "odd n" "1 < n"
  shows "is_prime n \<longleftrightarrow> (\<forall>p \<in> set (odd_primes n). \<not> p dvd n)"
proof
  assume "is_prime n"
  then show "\<forall>p \<in> set (odd_primes n). \<not> p dvd n" unfolding is_prime_def by auto
next
  assume no: "\<forall>p \<in> set (odd_primes n). \<not> p dvd n"
  obtain d where d: "1 < d" "d dvd n" "rough n d" "d \<le> n" using assms(2) by (rule least_divisor)
  then have p: "is_prime d" by (intro rough_prime) auto
  have "odd d" using d(2) assms(1) by auto
  with d(1) have "3 \<le> d" by presburger
  with p d no have "d = n" by force
  with p show "is_prime n" by simp
qed

section \<open>The search\<close>

lemma c_div_positive: "0 \<le> n \<Longrightarrow> 0 < p \<Longrightarrow> c_div n p = Some (n div p)"
  by (simp add: c_div_def INT_MIN_def trunc_div_nonneg)

lemma quote_dvd: "0 < (p :: int) \<Longrightarrow> n div p * p = n \<longleftrightarrow> p dvd n"
  by (metis dvd_div_mult_self dvd_triv_right)

lemma seek_skip:
  assumes "\<forall>x \<in> set xs. 0 < x \<and> x \<noteq> no \<and> \<not> x dvd no" "0 \<le> no"
  shows "seek self no a i v (xs @ ys) = seek self no a i v ys"
  using assms by (induction xs) (auto simp: c_div_positive quote_dvd)

text \<open>Without \<open>verbose\<close> the function decides primality and writes nothing.\<close>

lemma isprimeno_decides:
  assumes "odd n" "3 \<le> n"
  shows "isprimeno (Suc fuel) n a i (odd_primes n) False = Some (is_prime n, a)"
proof -
  have "seek self n a i False ps = Some (\<forall>p \<in> set ps. \<not> p dvd n, a)"
    if "\<forall>p \<in> set ps. 0 < p \<and> p \<noteq> n" for self ps
    using that assms by (induction ps) (auto simp: c_div_positive quote_dvd)
  then show ?thesis using prime_if_no_odd_prime[of n] assms by force
qed

lemma put_last_fits:
  "Suc i < length a \<Longrightarrow> put_last a i p = Some (take i a @ p # 1 # drop (i + 2) a)"
  by (simp add: put_last_def put_def upd_conv_take_nth_drop take_update_swap drop_update_swap Cons_nth_drop_Suc[symmetric])

text \<open>With \<open>verbose\<close> it writes all factors of a number below the end of the series.\<close>

lemma isprimeno_writes:
  assumes "peels n fs" "odd n" "n < m" "fs \<noteq> []" "length fs \<le> fuel" "i + length fs < length a"
  shows "isprimeno fuel n a i (odd_primes m) True = Some (length fs = 1, take i a @ fs @ 1 # drop (i + length fs + 1) a)"
  using assms
proof (induction fs arbitrary: n fuel i a)
  case Nil
  then show ?case by simp
next
  case (Cons p fs)
  from Cons.prems(1) have p: "1 < p" "p dvd n" "rough n p" "peels (n div p) fs" by auto
  from Cons.prems(5) obtain f where f: "fuel = Suc f" "length fs \<le> f" by (cases fuel) auto
  have n: "1 \<le> n" using Cons.prems(1) by (rule peels_positive)
  have pr: "is_prime p" using p by (intro rough_prime) auto
  have "odd p" using p(2) Cons.prems(2) by auto
  with p(1) have p3: "3 \<le> p" by presburger
  have pm: "p < m" using zdvd_imp_le[OF p(2)] n Cons.prems(3) by simp
  obtain xs ys where s: "odd_primes m = xs @ p # ys" and x: "\<forall>x \<in> set xs. 3 \<le> x \<and> x < p"
    using pr p3 pm by (rule odd_primes_split)
  have "\<forall>x \<in> set xs. 0 < x \<and> x \<noteq> n \<and> \<not> x dvd n"
    using x p(3) zdvd_imp_le[OF p(2)] n unfolding rough_def by force
  then have skip: "seek self n a i True (odd_primes m) = seek self n a i True (p # ys)" for self
    unfolding s by (rule seek_skip) (use n in simp)
  have w: "put_last a i p = Some (take i a @ p # 1 # drop (i + 2) a)"
    using Cons.prems(6) by (intro put_last_fits) simp
  show ?case
  proof (cases "fs = []")
    case True
    with p(4) p(1,2) have "n = p" by (metis dvd_mult_div_cancel mult.right_neutral peels.simps(1))
    then show ?thesis using True f(1) skip w by auto
  next
    case False
    let ?a = "take i a @ p # 1 # drop (i + 2) a"
    have "n \<noteq> p" using False p(4) p(1) by (cases fs) auto
    have q: "odd (n div p)" "n div p < m"
      using p(1,2) Cons.prems(2,3) n by (auto elim!: dvdE simp: int_div_less_self) (smt (verit) mult_less_cancel_right1 zero_less_mult_iff)
    have "Suc i + length fs < length ?a" using Cons.prems(6) by simp
    then have "isprimeno f (n div p) ?a (Suc i) (odd_primes m) True
        = Some (length fs = 1, take (Suc i) ?a @ fs @ 1 # drop (Suc i + length fs + 1) ?a)"
      using Cons.IH[OF p(4) q False f(2)] by blast
    moreover have "take (Suc i) ?a = take i a @ [p]" "drop (Suc i + length fs + 1) ?a = drop (i + length (p # fs) + 1) a"
      using Cons.prems(6) False by (auto simp: min_def Suc_diff_le) (cases fs; simp add: add.commute add.left_commute)+
    ultimately show ?thesis
      using f(1) skip w \<open>n \<noteq> p\<close> p(1,2) n False by (auto simp: c_div_positive quote_dvd)
  qed
qed

section \<open>The whole function\<close>

text \<open>
  The loop reaches \<open>no\<close> in its last turn, with all smaller odd primes in the series; until
  then the array does not change.
\<close>

lemma peels_prime: "peels n fs \<Longrightarrow> 1 < n \<Longrightarrow> is_prime n \<longleftrightarrow> fs = [n]"
proof
  assume f: "peels n fs" "1 < n" "is_prime n"
  then obtain p gs where g: "fs = p # gs" by (cases fs) auto
  with f have p: "1 < p" "p dvd n" "peels (n div p) gs" by auto
  with f(2,3) have "p = n" using zdvd_imp_le[OF p(2)] unfolding is_prime_def by force
  with p(3) f(2) have "peels 1 gs" by simp
  then have "gs = []" using peels_length[of 1 gs] by (cases gs) auto
  with g \<open>p = n\<close> show "fs = [n]" by simp
next
  assume "peels n fs" "fs = [n]"
  then show "is_prime n" by (intro rough_prime[of n n]) auto
qed

lemma peels_single: "peels n [p] \<Longrightarrow> n = p"
  by (auto elim!: dvdE)

text \<open>The last turn: \<open>no\<close> itself.\<close>

lemma last_turn_writes:
  assumes "peels no fs" "odd no" "3 \<le> no" "length fs \<le> fuel" "1 \<le> fuel" "i + length fs < length a"
  shows "series_loop 1 fuel no no a i (odd_primes no) = Some (True, take i a @ fs @ 1 # drop (i + length fs + 1) a)"
proof (cases "is_prime no")
  case True
  from assms(5) obtain f where f: "fuel = Suc f" by (cases fuel) auto
  have fs: "fs = [no]" using True assms(1,3) peels_prime by auto
  have "\<forall>x \<in> set (odd_primes no). 0 < x \<and> x \<noteq> no \<and> \<not> x dvd no" using True unfolding is_prime_def by auto
  then have "isprimeno fuel no a i (odd_primes no) True = Some (True, a)"
    unfolding f isprimeno.simps using seek_skip[of "odd_primes no" no _ a i True "[]"] assms(3) by simp
  then show ?thesis using assms(6) fs by (simp add: put_last_fits)
next
  case False
  have fs: "fs \<noteq> []" "length fs \<noteq> 1"
    using assms(1,3) False peels_prime[OF assms(1)] peels_single[of no] by (auto simp: length_Suc_conv simp del: peels.simps(2))
  have "isprimeno fuel no a i (odd_primes no) True = isprimeno fuel no a i (odd_primes (no + 2)) True"
    using odd_primes_next[OF assms(2,3)] False by simp
  then show ?thesis using isprimeno_writes[OF assms(1,2) _ fs(1) assms(4,6), of "no + 2"] fs(2) by simp
qed

lemma series_loop_writes:
  assumes "peels no fs" "odd no" "length fs \<le> fuel" "1 \<le> fuel" "i + length fs < length a"
  shows "odd c \<Longrightarrow> 3 \<le> c \<Longrightarrow> no = c + 2 * int left \<Longrightarrow>
    series_loop (Suc left) fuel no c a i (odd_primes c) = Some (True, take i a @ fs @ 1 # drop (i + length fs + 1) a)"
proof (induction left arbitrary: c)
  case 0
  then show ?case using last_turn_writes[OF assms(1,2) _ assms(3,4,5)] by simp
next
  case (Suc left)
  from assms(4) obtain f where f: "fuel = Suc f" by (cases fuel) auto
  have d: "isprimeno fuel c a i (odd_primes c) False = Some (is_prime c, a)"
    unfolding f by (rule isprimeno_decides[OF Suc.prems(1,2)])
  have "series_loop (Suc left) fuel no (c + 2) a i (odd_primes (c + 2)) =
      Some (True, take i a @ fs @ 1 # drop (i + length fs + 1) a)"
    using Suc.prems by (intro Suc.IH) auto
  then show ?case unfolding series_loop.simps(2)[of "Suc left"] using d odd_primes_next[OF Suc.prems(1,2)]
    by (cases "is_prime c") (simp_all del: series_loop.simps)
qed

lemma peels_length_nat: "peels n fs \<Longrightarrow> length fs \<le> nat n"
proof -
  assume "peels n fs"
  from peels_length[OF this] have "2 ^ length fs \<le> n" .
  moreover have "int (length fs) < 2 ^ length fs" using less_exp[of "length fs"] by (metis of_nat_less_iff of_nat_numeral of_nat_power)
  ultimately show ?thesis by linarith
qed

lemma odd_part_writes:
  assumes "peels no fs" "odd no" "i + length fs < length a"
  shows "odd_part True no a i = Some (True, take i a @ fs @ 1 # drop (i + length fs + 1) a)"
proof (cases "no < 3")
  case True
  have "1 \<le> no" using assms(1) by (rule peels_positive)
  with True assms(2) have "no = 1" by presburger
  with assms(1) have "fs = []" using peels_length[of 1 fs] by (cases fs) auto
  with True assms(3) show ?thesis by (simp add: odd_part_def put_def upd_conv_take_nth_drop)
next
  case False
  with assms(2) have "no = 3 + 2 * ((no - 3) div 2)" "0 \<le> (no - 3) div 2" by presburger+
  then have "no = 3 + 2 * int (nat ((no - 3) div 2))" by simp
  then obtain left where l: "no = 3 + 2 * int left" by blast
  then have "nat (drop_bit 1 no) = Suc left" by (simp add: drop_bit_eq_div)
  moreover have "odd_primes 3 = []" by (simp add: odd_primes_def)
  moreover have "1 \<le> nat no" using False by simp
  ultimately show ?thesis
    using series_loop_writes[OF assms(1,2) peels_length_nat[OF assms(1)] _ assms(3), of 3 left] False l
    by (simp add: odd_part_def)
qed

lemma peels_even:
  assumes "peels n fs" "even n"
  obtains gs where "fs = 2 # gs" "peels (n div 2) gs"
proof (cases fs)
  case Nil
  with assms show ?thesis by auto
next
  case (Cons p gs)
  with assms have p: "rough n p" "1 < p" by auto
  then have "\<not> 2 < p" using assms(2) unfolding rough_def by (metis one_less_numeral_iff semiring_norm(76))
  with p(2) have "p = 2" by simp
  with Cons assms(1) that show ?thesis by auto
qed

lemma two_part_writes:
  "peels no fs \<Longrightarrow> i + length fs < length a \<Longrightarrow>
    two_part True no a i = Some (True, take i a @ fs @ 1 # drop (i + length fs + 1) a)"
proof (induction "True" no a i arbitrary: fs rule: two_part.induct)
  case (1 no a i)
  have n: "1 \<le> no" using "1.prems"(1) by (rule peels_positive)
  show ?case
  proof (cases "even no")
    case True
    with "1.prems"(1) obtain gs where g: "fs = 2 # gs" "peels (no div 2) gs" by (rule peels_even)
    have e: "no AND 1 = 0" using True by (simp add: and_one_eq mod_2_eq_odd)
    have w: "put a i 2 = Some (a[i := 2])" using "1.prems"(2) by (simp add: put_def)
    have "two_part True (drop_bit 1 no) (a[i := 2]) (Suc i) =
        Some (True, take (Suc i) (a[i := 2]) @ gs @ 1 # drop (Suc i + length gs + 1) (a[i := 2]))"
      using "1.hyps"[of "a[i := 2]" gs] n e g w "1.prems"(2) by (simp add: drop_bit_eq_div)
    moreover have "take (Suc i) (a[i := 2]) = take i a @ [2]"
      using "1.prems"(2) by (simp add: take_Suc_conv_app_nth)
    ultimately show ?thesis using g n e w "1.prems"(2)
      by (subst two_part.simps) simp
  next
    case False
    then have "no AND 1 = 1" by (simp add: and_one_eq mod_2_eq_odd)
    with odd_part_writes[OF "1.prems"(1) False "1.prems"(2)] show ?thesis by (subst two_part.simps) simp
  qed
qed

lemma primefactorexpress_writes:
  assumes "peels no fs" "length fs < length a"
  shows "primefactorexpress True a no = Some (True, fs @ 1 # drop (length fs + 1) a)"
proof (cases "no < 2")
  case True
  with assms(1) have "no = 1" using peels_positive[of no fs] by simp
  with assms(1) have "fs = []" using peels_length[of 1 fs] by (cases fs) auto
  with True assms(2) show ?thesis by (cases a) (simp_all add: primefactorexpress_def put_def)
next
  case False
  then show ?thesis using two_part_writes[of no fs 0 a] assms by (simp add: primefactorexpress_def)
qed

text \<open>
  C28. The series of primes and the search for divisors find the same factors: for a positive
  \<open>int\<close> and an array of 33 elements \<open>primefactorexpress\<close> stays inside the array, answers true and
  leaves in it exactly what \<open>getprimefactors\<close> hands to its callback, the prime factors in
  ascending order, with a one behind them.
\<close>

theorem primefactorexpress_factors:
  assumes "1 \<le> no" "no \<le> INT_MAX" "33 \<le> length a"
  shows "\<exists>fs. getprimefactors no [] collect = (0, fs) \<and> factorization no fs \<and> length fs \<le> 30 \<and>
    primefactorexpress True a no = Some (True, fs @ 1 # drop (length fs + 1) a)"
proof -
  obtain fs where f: "getprimefactors no [] collect = (0, fs)" "peels no fs"
    using getprimefactors_peels[OF assms(1), of "[]"] by auto
  then have "factorization no fs" using collect.all_factors[OF assms(1), of "[]"] by auto
  moreover have "length fs < 31"
  proof (rule ccontr)
    assume "\<not> length fs < 31"
    then have "(2 :: int) ^ 31 \<le> 2 ^ length fs" by (intro power_increasing) auto
    with peels_length[OF f(2)] assms(2) show False by (simp add: INT_MAX_def)
  qed
  ultimately show ?thesis using f primefactorexpress_writes[OF f(2)] assms(3) by auto
qed

theorem primefactorexpress_factors_witness:
  "\<exists>fs. factorization 45 fs \<and> primefactorexpress True (replicate 33 0) 45 = Some (True, fs @ 1 # drop (length fs + 1) (replicate 33 0))"
  using primefactorexpress_factors[of 45 "replicate 33 0"] by (auto simp: INT_MAX_def)

text \<open>Without memory for the series the array keeps what it had and the answer is false.\<close>

lemma primefactorexpress_no_memory:
  "odd no \<Longrightarrow> 3 \<le> no \<Longrightarrow> primefactorexpress False a no = Some (False, a)"
  by (simp add: primefactorexpress_def two_part.simps odd_part_def and_one_eq mod_2_eq_odd)

end
