(* ===== verification/TruncZero.thy ===== *)
theory TruncZero
  imports CLib Prog
begin

text \<open>
  \<open>trunczerotail.cpp\<close>: removes the blocks of zeros at the end of a file. It walks from the
  end to the beginning, block by block, until it finds a block with data.
\<close>

section \<open>Calls\<close>

text \<open>
  \<open>num\<close> is a size or a position of 64 bits; a reply with \<open>rv\<close> zero says that the call has
  failed. The calls of \<open>Sleep\<close> are left out.
\<close>

datatype tz_call =
    SetErrorMode
  | Eputs string
  | Eprintf string "arg list"
  | Perror string
  | LocalAlloc nat
  | CreateFile string
  | GetStdHandle
  | GetFileInformation int
  | SetFilePointerEnd int int
  | SetFilePointerCurrent int int
  | ReadFile int nat
  | SetEndOfFile int
  | GetFileSize int

type_synonym tz_prog = "(tz_call, reply) prog"

section \<open>The size of a block\<close>

text \<open>What follows \<open>-m:\<close>. The suffixes fall through from one case to the next.\<close>

definition suffix_factor :: "char \<Rightarrow> DWORD option" where
  "suffix_factor c =
    (if c = CHR ''G'' then Some (2 ^ 30)
     else if c = CHR ''M'' then Some (2 ^ 20)
     else if c = CHR ''K'' then Some (2 ^ 10)
     else if c = CHR ''g'' then Some 1000000000
     else if c = CHR ''m'' then Some 1000000
     else if c = CHR ''k'' then Some 1000
     else None)"

definition buffer_size :: "string \<Rightarrow> (string \<times> arg list) + DWORD" where
  "buffer_size s =
    (case strtoul s 0 of (bufsiz, szSizeSuffix) \<Rightarrow>
       if szSizeSuffix = s then Inl (''Invalid buffer size: %s'', [S szSizeSuffix])
       else
         (case szSizeSuffix of
            [] \<Rightarrow> Inr bufsiz
          | [c] \<Rightarrow>
              (case suffix_factor c of
                 None \<Rightarrow> Inl (''Invalid size suffix: %c'', [S [c]])
               | Some f \<Rightarrow> Inr (bufsiz * f))
          | _ \<Rightarrow> Inl (''Invalid buffer size: %s'', [S s])))"

record tz_options =
  bufsiz :: DWORD
  bBigBufferMode :: bool
  bDisplayHelp :: bool

fun tz_letters :: "string \<Rightarrow> tz_options \<Rightarrow> (string \<times> arg list) + tz_options" where
  "tz_letters [] opt = Inr opt"
| "tz_letters (c # cs) opt =
    (if c = CHR ''m'' then
       (if cs \<noteq> [] \<and> hd cs = CHR '':'' then
          (case buffer_size (tl cs) of
             Inl e \<Rightarrow> Inl e
           | Inr b \<Rightarrow> Inr (opt\<lparr>bufsiz := b, bBigBufferMode := True\<rparr>))
        else tz_letters cs (opt\<lparr>bBigBufferMode := True\<rparr>))
     else tz_letters cs (opt\<lparr>bDisplayHelp := True\<rparr>))"

fun tz_arguments :: "string list \<Rightarrow> tz_options \<Rightarrow> (string \<times> arg list) + tz_options \<times> string list" where
  "tz_arguments [] opt = Inr (opt, [])"
| "tz_arguments (a # args) opt =
    (if a \<noteq> [] \<and> is_switch (hd a) then
       (case tz_letters (tl a) opt of
          Inl e \<Rightarrow> Inl e
        | Inr opt' \<Rightarrow> tz_arguments args opt')
     else Inr (opt, a # args))"

text \<open>The position of the highest bit.\<close>

lemma unat_half: "unat (drop_bit 1 (r :: DWORD)) = unat r div 2"
  by (simp add: drop_bit_eq_div unat_div)

function bits_of :: "DWORD \<Rightarrow> nat" where
  "bits_of rembufsiz = (if rembufsiz > 1 then Suc (bits_of (drop_bit 1 rembufsiz)) else 0)"
  by pat_completeness auto
termination
proof (relation "measure unat", simp, goal_cases)
  case (1 r)
  then have "1 < unat r" by (simp add: word_less_nat_alt)
  then show ?case by (simp only: unat_half in_measure)
qed

declare bits_of.simps [simp del]

definition block_size :: "DWORD \<Rightarrow> DWORD" where
  "block_size b = push_bit (bits_of ((b AND NOT 0x1FF) OR 0x200)) 1"

section \<open>The program\<close>

definition STDBUFSIZ :: nat where "STDBUFSIZ = 512"

text \<open>The end: the pointer of the file stands behind the block that was read last.\<close>

definition cut_file :: "int \<Rightarrow> int \<Rightarrow> int \<Rightarrow> int \<Rightarrow> tz_prog" where
  "cut_file hOut bsize fsize current =
    (if current + bsize \<ge> fsize then Sys (Eputs ''File not truncated.'') (\<lambda>_. Done 0)
     else Sys (SetEndOfFile hOut) (\<lambda>e.
       if rv e = 0 then Sys (Perror ''Fatal, cannot set end of file'') (\<lambda>_. Done (- 1))
       else Sys (GetFileSize hOut) (\<lambda>s.
         if num s mod 2 ^ 32 = 2 ^ 32 - 1 \<and> err s = 0
         then Sys (Perror ''Fatal, cannot get size of file'') (\<lambda>_. Done (- 1))
         else Sys (Eprintf ''File truncated to %I64u bytes.'' [I (num s)]) (\<lambda>_. Done 0))))"

definition seek_failed :: tz_prog where
  "seek_failed = Sys (Perror ''Fatal, cannot set output file pointer'') (\<lambda>_. Done (- 1))"

text \<open>
  The search looks at whole words of eight bytes, so up to seven bytes behind a short read
  are looked at too: \<open>buf\<close> is all the memory at \<open>bufptr\<close>.
\<close>

definition data_found :: "byte list \<Rightarrow> nat \<Rightarrow> bool" where
  "data_found buf dwReadSize \<longleftrightarrow> (\<exists>x \<in> set (take ((dwReadSize + 7) div 8 * 8) buf). x \<noteq> 0)"

primrec scan :: "nat \<Rightarrow> int \<Rightarrow> nat \<Rightarrow> int \<Rightarrow> int \<Rightarrow> byte list \<Rightarrow> tz_prog" where
  "scan 0 hOut bsize fsize current buf = OutOfFuel"
| "scan (Suc fuel) hOut bsize fsize current buf =
    (if current < int bsize then cut_file hOut (int bsize) fsize current
     else Sys (SetFilePointerCurrent hOut (- int bsize)) (\<lambda>p.
       if rv p = 0 then seek_failed
       else Sys (Eprintf ''Reading at %I64u bytes...'' [I (num p)]) (\<lambda>_.
       Sys (ReadFile hOut bsize) (\<lambda>r.
         if rv r = 0 then Sys (Perror ''Fatal, cannot read from file'') (\<lambda>_. Done (- 1))
         else if length buf < length (out r) then Crash
         else if out r = [] then Sys (Eputs ''Fatal, read failed.'') (\<lambda>_. Done (- 1))
         else
           (let dwReadSize = length (out r); buf' = out r @ drop dwReadSize buf in
            if length buf' < (dwReadSize + 7) div 8 * 8 then Crash
            else if data_found buf' dwReadSize then cut_file hOut (int bsize) fsize (num p)
            else Sys (SetFilePointerCurrent hOut (- int dwReadSize)) (\<lambda>q.
              if rv q = 0 then seek_failed
              else scan fuel hOut bsize fsize (num q) buf'))))))"

definition examine :: "nat \<Rightarrow> nat \<Rightarrow> int \<Rightarrow> byte list \<Rightarrow> tz_prog" where
  "examine fuel bsize hOut buf =
    Sys (GetFileInformation hOut) (\<lambda>i.
      if rv i = 0 then Sys (Perror ''Unsupported type of file'') (\<lambda>_. Done (- 1))
      else
        (let last_block_bytes = num i mod int bsize in
         Sys (SetFilePointerEnd hOut (if last_block_bytes \<noteq> 0 then int bsize - last_block_bytes else 0)) (\<lambda>p.
           if rv p = 0 then seek_failed else scan fuel hOut bsize (num i) (num p) buf)))"

definition open_target :: "nat \<Rightarrow> nat \<Rightarrow> string list \<Rightarrow> byte list \<Rightarrow> tz_prog" where
  "open_target fuel bsize args buf =
    (let go = (\<lambda>h. if rv h = invalid_handle
        then Sys (Perror (if args \<noteq> [] then args ! 0 else ''stdout'')) (\<lambda>_. Done (- 1))
        else examine fuel bsize (rv h) buf)
     in if args \<noteq> [] \<and> args ! 0 \<noteq> [] then Sys (CreateFile (args ! 0)) go else Sys GetStdHandle go)"

text \<open>
  A buffer that cannot be allocated is replaced by the static one, but the size of the blocks
  stays; both are filled with zeros.
\<close>

definition trunczerotail_main :: "nat \<Rightarrow> string list \<Rightarrow> tz_prog" where
  "trunczerotail_main fuel args =
    (case tz_arguments args \<lparr>bufsiz = 512, bBigBufferMode = False, bDisplayHelp = False\<rparr> of
       Inl (m, xs) \<Rightarrow> Sys (Eprintf m xs) (\<lambda>_. Done (- 1))
     | Inr (opt, files) \<Rightarrow>
         (let bsize = unat (block_size (bufsiz opt)); small = replicate STDBUFSIZ 0 in
          Sys SetErrorMode (\<lambda>_.
            if bDisplayHelp opt then Sys (Eputs ''File truncation program.'') (\<lambda>_. Done (- 1))
            else if bBigBufferMode opt then
              Sys (LocalAlloc bsize) (\<lambda>b.
                if rv b = 0 then
                  Sys (Perror ''Memory allocation error, using 512 bytes buffer instead'') (\<lambda>_.
                  Sys (Eprintf ''Buffering %u bytes.'' [I (int bsize)]) (\<lambda>_. open_target fuel bsize files small))
                else
                  Sys (Eprintf ''Buffering %u bytes.'' [I (int bsize)]) (\<lambda>_.
                    open_target fuel bsize files (replicate bsize 0)))
            else Sys (Eprintf ''Buffer size is %u bytes.'' [I (int bsize)]) (\<lambda>_.
              open_target fuel bsize files small))))"

section \<open>The sizes of blocks\<close>

lemma bits_of_range:
  "r \<noteq> 0 \<Longrightarrow> 2 ^ bits_of r \<le> unat r \<and> unat r < 2 ^ Suc (bits_of r)"
proof (induction r rule: bits_of.induct)
  case (1 r)
  show ?case
  proof (cases "1 < r")
    case True
    then have u: "1 < unat r" by (simp add: word_less_nat_alt)
    have d: "unat (drop_bit 1 r) = unat r div 2" by (rule unat_half)
    with u have "drop_bit 1 r \<noteq> 0" by (metis div_greater_zero_iff One_nat_def Suc_leI numeral_2_eq_2 unat_0 not_less0 unat_gt_0 zero_less_numeral)
    with 1 True d have "2 ^ bits_of (drop_bit 1 r) \<le> unat r div 2 \<and> unat r div 2 < 2 ^ Suc (bits_of (drop_bit 1 r))" by simp
    with True show ?thesis by (subst (1 2) bits_of.simps) auto
  next
    case False
    then have "unat r \<le> 1" by (simp add: word_le_nat_alt not_less)
    with 1 have "unat r = unat (1 :: DWORD)" by (simp add: unat_eq_zero le_Suc_eq)
    then have "r = 1" by (simp only: word_unat_eq_iff)
    then show ?thesis by (simp add: bits_of.simps)
  qed
qed

text \<open>Whatever was asked for, a block is a power of two of at least 512 bytes.\<close>

lemma block_size_power:
  "\<exists>k. unat (block_size b) = 2 ^ k \<and> 9 \<le> k \<and> k < 32"
proof -
  let ?r = "(b AND NOT 0x1FF) OR 0x200 :: DWORD"
  have "0x200 \<le> ?r" by (metis word_bw_comms(2) le_word_or2)
  then have r: "512 \<le> unat ?r" by (simp add: word_le_nat_alt)
  then have "?r \<noteq> 0" by (metis not_numeral_le_zero unat_0)
  note b = bits_of_range[OF this]
  have "unat ?r < 2 ^ 32" using unsigned_less[of ?r] by simp
  with b have "bits_of ?r < 32" using nat_power_less_imp_less[of 2 "bits_of ?r" 32] by simp
  moreover have "9 \<le> bits_of ?r"
  proof (rule ccontr)
    assume "\<not> 9 \<le> bits_of ?r"
    then have "(2::nat) ^ Suc (bits_of ?r) \<le> 2 ^ 9" by (intro power_increasing) auto
    with b r show False by simp
  qed
  moreover have "unat (2 ^ k :: DWORD) = 2 ^ k" if "k < 32" for k
  proof -
    have "(2::nat) ^ k < 2 ^ 32" using that by (intro power_strict_increasing) auto
    then have "unat (of_nat (2 ^ k) :: DWORD) = 2 ^ k" unfolding unat_of_nat by simp
    then show ?thesis by simp
  qed
  ultimately show ?thesis
    by (intro exI[of _ "bits_of ?r"]) (simp add: block_size_def push_bit_eq_mult)
qed

section \<open>A file\<close>

text \<open>The file that is opened, with its pointer; a pointer before the beginning is refused.\<close>

record tz_file =
  bytes :: "byte list"
  pointer :: int

definition move_to :: "tz_file \<Rightarrow> int \<Rightarrow> reply \<times> tz_file" where
  "move_to s p = (if p < 0 then (ok\<lparr>rv := 0\<rparr>, s) else (ok\<lparr>num := p\<rparr>, s\<lparr>pointer := p\<rparr>))"

definition disk_read :: "tz_file \<Rightarrow> nat \<Rightarrow> byte list" where
  "disk_read s n = take n (drop (nat (pointer s)) (bytes s))"

fun disk :: "tz_file \<Rightarrow> tz_call \<Rightarrow> reply \<times> tz_file" where
  "disk s (GetFileInformation h) = (ok\<lparr>num := int (length (bytes s))\<rparr>, s)"
| "disk s (GetFileSize h) = (ok\<lparr>num := int (length (bytes s))\<rparr>, s)"
| "disk s (SetFilePointerEnd h d) = move_to s (int (length (bytes s)) + d)"
| "disk s (SetFilePointerCurrent h d) = move_to s (pointer s + d)"
| "disk s (ReadFile h n) = (ok\<lparr>out := disk_read s n\<rparr>, s\<lparr>pointer := pointer s + int (length (disk_read s n))\<rparr>)"
| "disk s (SetEndOfFile h) = (ok, s\<lparr>bytes := take (nat (pointer s)) (bytes s)\<rparr>)"
| "disk s _ = (ok, s)"

definition zeros :: "byte list \<Rightarrow> bool" where
  "zeros d \<longleftrightarrow> (\<forall>x \<in> set d. x = 0)"

lemma zeros_simps [simp]:
  "zeros []" "zeros (xs @ ys) \<longleftrightarrow> zeros xs \<and> zeros ys" "zeros (replicate n 0)"
  by (auto simp: zeros_def)

lemma zeros_take_drop: "zeros d \<Longrightarrow> zeros (take n d)" "zeros d \<Longrightarrow> zeros (drop n d)"
  by (auto simp: zeros_def dest: in_set_takeD in_set_dropD)

text \<open>
  What must be left: the blocks up to the last one with data, none if there is no such
  block, but a file of at most one block of zeros as it was.
\<close>

definition trimmed :: "nat \<Rightarrow> byte list \<Rightarrow> byte list \<Rightarrow> bool" where
  "trimmed b d d' \<longleftrightarrow>
    (if zeros d \<and> length d \<le> b then d' = d
     else (\<exists>k. d' = take (k * b) d \<and> zeros (drop (k * b) d) \<and> (k = 0 \<or> \<not> zeros (drop ((k - 1) * b) d'))))"

lemma data_found_zeros:
  assumes "zeros buf" "length d \<le> length buf"
  shows "data_found (d @ drop (length d) buf) (length d) \<longleftrightarrow> \<not> zeros d"
proof -
  have "length d \<le> (length d + 7) div 8 * 8" by linarith
  then have "take ((length d + 7) div 8 * 8) (d @ drop (length d) buf) = d @ take ((length d + 7) div 8 * 8 - length d) (drop (length d) buf)"
    by simp
  moreover have "zeros (take ((length d + 7) div 8 * 8 - length d) (drop (length d) buf))"
    using assms(1) by (intro zeros_take_drop)
  ultimately show ?thesis by (auto simp: data_found_def zeros_def)
qed

lemma low_half_even:
  assumes "even b"
  shows "int (k * b) mod 2 ^ 32 \<noteq> 2 ^ 32 - 1"
proof -
  have "even (int (k * b) mod 2 ^ 32)" using assms by (simp add: dvd_mod)
  then show ?thesis by auto
qed

text \<open>The end of the search, with everything behind block \<open>k\<close> known to be zero.\<close>

lemma cut_file_keeps:
  assumes "int n mod 2 ^ 32 \<noteq> 2 ^ 32 - 1"
    "int b + c < int (length (bytes s)) \<Longrightarrow> pointer s = int n \<and> n \<le> length (bytes s)"
  shows "interp disk s (cut_file h (int b) (int (length (bytes s))) c) =
    (Some 0, if int b + c < int (length (bytes s)) then s\<lparr>bytes := take n (bytes s)\<rparr> else s)"
  using assms by (auto simp: cut_file_def ok_def min_def add.commute)

lemma scan_trims:
  assumes "0 < b" "8 dvd b" "bytes s = d" "pointer s = int (m * b)" "zeros (drop (m * b) d)"
    "m = 0 \<or> (m - 1) * b < length d" "m < fuel" "zeros buf" "b \<le> length buf"
  shows "\<exists>s'. interp disk s (scan fuel h b (int (length d)) (int (m * b)) buf) = (Some 0, s') \<and> trimmed b d (bytes s')"
  using assms(3-)
proof (induction m arbitrary: s fuel buf)
  case 0
  then obtain f where f: "fuel = Suc f" by (cases fuel) auto
  have e: "even b" using assms(2) by (meson dvd_trans even_numeral dvd_triv_left) 
  show ?case using 0 f assms(1) cut_file_keeps[of 0 b 0 s h]
    by (auto simp: trimmed_def)
next
  case (Suc m)
  then obtain f where f: "fuel = Suc f" "m < f" by (cases fuel) auto
  have e: "even b" using assms(2) by (meson dvd_trans even_numeral dvd_triv_left)
  let ?r = "take b (drop (m * b) d)"
  have r: "?r \<noteq> []" "length ?r \<le> length buf" "length ?r \<le> b" using Suc.prems assms(1) by auto
  let ?s1 = "s\<lparr>pointer := int (m * b)\<rparr>"
  let ?s2 = "s\<lparr>pointer := int (m * b) + int (length ?r)\<rparr>"
  let ?buf = "?r @ drop (length ?r) buf"
  have lb: "length ?buf = length buf" using r(2) by simp
  have "(length ?r + 7) div 8 * 8 \<le> b" using r(3) assms(2) by (auto elim!: dvdE)
  with Suc.prems(7) lb have fits: "\<not> length ?buf < (length ?r + 7) div 8 * 8" by simp
  have found: "data_found ?buf (length ?r) \<longleftrightarrow> \<not> zeros ?r" by (rule data_found_zeros[OF Suc.prems(6) r(2)])
  have bk: "int (Suc m * b) - int b = int (m * b)" "int b \<le> int (Suc m * b)" by (simp_all add: algebra_simps)
  have step: "interp disk s (scan fuel h b (int (length d)) (int (Suc m * b)) buf) =
     (if zeros ?r then interp disk ?s1 (scan f h b (int (length d)) (int (m * b)) ?buf)
      else interp disk ?s2 (cut_file h (int b) (int (length d)) (int (m * b))))"
    using r fits found Suc.prems(1,2,7) f(1) bk
    by (simp add: move_to_def disk_read_def ok_def Let_def del: of_nat_mult mult_Suc)
  show ?case
  proof (cases "zeros ?r")
    case True
    have "drop (m * b) d = ?r @ drop (Suc m * b) d" by (simp add: add.commute append_take_drop_id flip: drop_drop)
    with True Suc.prems(3) have "zeros (drop (m * b) d)" by (metis zeros_simps(2))
    moreover have "m = 0 \<or> (m - 1) * b < length d"
      using Suc.prems(4) mult_le_mono1[of "m - 1" m b] by (cases m) auto
    moreover have "zeros ?buf" using True Suc.prems(6) by (simp add: zeros_take_drop)
    ultimately show ?thesis
      using Suc.IH[of ?s1 f ?buf] Suc.prems(1,7) f(2) True lb unfolding step by simp
  next
    case False
    let ?d = "take (Suc m * b) d"
    have s2: "bytes ?s2 = d" using Suc.prems(1) by simp
    have "pointer ?s2 = int (Suc m * b) \<and> Suc m * b \<le> length (bytes ?s2)"
      if "int b + int (m * b) < int (length (bytes ?s2))"
    proof -
      from that have l: "b + m * b < length d" unfolding s2 by (simp only: of_nat_add[symmetric] of_nat_less_iff)
      then have "length ?r = b" by simp
      then have "pointer ?s2 = int (Suc m * b)" by simp
      with l s2 show ?thesis by simp
    qed
    from cut_file_keeps[where h = h, OF low_half_even[OF e] this]
    have "interp disk ?s2 (cut_file h (int b) (int (length d)) (int (m * b))) =
        (Some 0, if int b + int (m * b) < int (length d) then ?s2\<lparr>bytes := ?d\<rparr> else ?s2)"
      unfolding s2 .
    moreover have "?d = d" if "\<not> int b + int (m * b) < int (length d)"
    proof -
      from that have "\<not> b + m * b < length d" by (simp only: of_nat_add[symmetric] of_nat_less_iff simp_thms)
      then show ?thesis by simp
    qed
    moreover have "drop (m * b) ?d = ?r" by (simp add: drop_take)
    moreover have "\<not> zeros d" using False by (metis zeros_take_drop)
    ultimately have "interp disk ?s2 (cut_file h (int b) (int (length d)) (int (m * b))) =
        (Some 0, if int b + int (m * b) < int (length d) then ?s2\<lparr>bytes := ?d\<rparr> else ?s2)"
      "trimmed b d ?d" "int b + int (m * b) < int (length d) \<or> ?d = d"
      using False Suc.prems(3) unfolding trimmed_def by (auto intro!: exI[of _ "Suc m"])
    then show ?thesis unfolding step using False Suc.prems(1) by auto
  qed
qed

text \<open>A block size that was asked for always comes with a buffer of its own.\<close>

lemma buffer_of_its_own:
  "tz_arguments args opt = Inr (opt', files) \<Longrightarrow> bBigBufferMode opt \<or> bufsiz opt = 512 \<Longrightarrow>
    bBigBufferMode opt' \<or> bufsiz opt' = 512"
proof (induction args opt rule: tz_arguments.induct)
  case (2 a args opt)
  have "tz_letters cs o1 = Inr o2 \<Longrightarrow> bBigBufferMode o1 \<or> bufsiz o1 = 512 \<Longrightarrow> bBigBufferMode o2 \<or> bufsiz o2 = 512"
    for cs o1 o2
    by (induction cs o1 rule: tz_letters.induct) (auto split: if_splits sum.splits)
  with 2 show ?case by (auto split: if_splits sum.splits)
qed simp

lemma examine_trims:
  assumes "0 < b" "8 dvd b" "bytes s = d" "length d < fuel" "zeros buf" "b \<le> length buf"
  shows "\<exists>s'. interp disk s (examine fuel b h buf) = (Some 0, s') \<and> trimmed b d (bytes s')"
proof -
  define m where "m = (length d + b - 1) div b"
  have m: "length d \<le> m * b" "m * b < length d + b"
    using div_mod_decomp[of "length d + b - 1" b] mod_less_divisor[OF assms(1), of "length d + b - 1"] assms(1)
    unfolding m_def by linarith+
  have m1: "m = 0 \<or> (m - 1) * b < length d" using m(2) by (cases m) auto
  have "m * b \<le> length d * b"
  proof (cases "length d = 0")
    case True
    with m(2) have "m = 0" by simp
    then show ?thesis by simp
  next
    case False
    then have "length d + b \<le> length d * b + 1" using assms(1)
      by (cases "length d"; cases b) auto
    with m(2) show ?thesis by linarith
  qed
  then have m2: "m < fuel" using assms(1,4) by simp
  have up: "int (length d) + (if int (length d) mod int b \<noteq> 0 then int b - int (length d) mod int b else 0) = int (m * b)"
  proof -
    let ?q = "length d div b" and ?x = "length d mod b"
    have q: "length d = ?q * b + ?x" "?x < b" using assms(1) by simp_all
    show ?thesis
    proof (cases "?x = 0")
      case True
      with q(1) m have "m * b < (?q + 1) * b" "?q * b \<le> m * b" by simp_all
      then have "m = ?q" using assms(1) by (metis mult_le_cancel2 mult_less_cancel2 Suc_eq_plus1 less_Suc_eq_le order_antisym)
      with True q(1) show ?thesis by (simp flip: of_nat_mod)
    next
      case False
      with q m have "?q * b < m * b" "m * b < ?q * b + 2 * b" by linarith+
      then have "?q * b < m * b" "m * b < (?q + 2) * b" by (simp_all only: distrib_right)
      then have "?q < m" "m < ?q + 2" by (simp_all only: mult_less_cancel2)
      then have "m = ?q + 1" by simp
      moreover have "int (length d) = int ?q * int b + int ?x" by (metis q(1) of_nat_add of_nat_mult)
      moreover have "int (length d) mod int b = int ?x" by (simp add: zmod_int)
      ultimately show ?thesis using False by (simp add: algebra_simps)
    qed
  qed
  from scan_trims[of b "s\<lparr>pointer := int (m * b)\<rparr>" d m fuel buf h] assms m(1) m1 m2
  obtain s' where "interp disk (s\<lparr>pointer := int (m * b)\<rparr>) (scan fuel h b (int (length d)) (int (m * b)) buf) = (Some 0, s')"
    "trimmed b d (bytes s')" by auto
  then show ?thesis using up assms(3)
    by (auto simp: examine_def Let_def move_to_def ok_def simp del: of_nat_mult)
qed

definition tz_start :: tz_options where
  "tz_start = \<lparr>bufsiz = 512, bBigBufferMode = False, bDisplayHelp = False\<rparr>"

text \<open>
  C23. \<open>trunczerotail\<close> loses no data: started on a file, with any switches that do not ask for
  help, it ends with status \<open>0\<close>, what it cut off was zeros only, it cut at a block, and the
  block before the cut has data in it. A file of zeros that fits into one block stays as it is.
\<close>

theorem trunczerotail_trims:
  assumes "tz_arguments args tz_start = Inr (opt, [f])" "\<not> bDisplayHelp opt" "f \<noteq> []" "length (bytes s) < fuel"
  shows "\<exists>s'. interp disk s (trunczerotail_main fuel args) = (Some 0, s') \<and>
    trimmed (unat (block_size (bufsiz opt))) (bytes s) (bytes s')"
proof -
  let ?b = "unat (block_size (bufsiz opt))"
  obtain k where k: "?b = 2 ^ k" "9 \<le> k" using block_size_power by blast
  have p: "0 < ?b" using k(1) by simp
  have e: "8 dvd ?b" using k le_imp_power_dvd[of 3 k "2::nat"] by simp
  have own: "bBigBufferMode opt \<or> ?b = 512"
  proof -
    have "block_size 512 = 512" by (simp add: block_size_def bits_of.simps)
    then show ?thesis using buffer_of_its_own[OF assms(1)] by (auto simp: tz_start_def)
  qed
  obtain s1 s2 where
    "interp disk s (examine fuel ?b 1 (replicate ?b 0)) = (Some 0, s1)" "trimmed ?b (bytes s) (bytes s1)"
    using examine_trims[OF p e refl assms(4), of "replicate ?b 0" 1] by auto
  then show ?thesis using assms own
    by (auto simp: trunczerotail_main_def tz_start_def[symmetric] open_target_def Let_def ok_def STDBUFSIZ_def)
qed

theorem trunczerotail_trims_witness:
  "\<exists>s'. interp disk \<lparr>bytes = [1] @ replicate 2000 0, pointer = 0\<rparr> (trunczerotail_main 3000 [''/m'', ''f'']) = (Some 0, s') \<and>
    trimmed (unat (block_size 512)) ([1] @ replicate 2000 0) (bytes s')"
proof -
  have a: "tz_arguments [''/m'', ''f''] tz_start = Inr (tz_start\<lparr>bBigBufferMode := True\<rparr>, [''f''])"
    by (simp add: is_switch_iff tz_start_def)
  show ?thesis
    using trunczerotail_trims[OF a, of "\<lparr>bytes = [1] @ replicate 2000 0, pointer = 0\<rparr>" 3000]
    by (simp add: tz_start_def)
qed

text \<open>
  A buffer that cannot be allocated is replaced by one of 512 bytes, into which whole blocks
  are read.
\<close>

lemma small_buffer_overflow:
  fixes q r :: reply
  assumes "512 < length (out r)" "int b \<le> p" "rv q \<noteq> 0" "rv r \<noteq> 0"
  shows "\<not> total anything (scan (Suc fuel) h b fsize p (replicate STDBUFSIZ 0))"
  using assms by (auto simp: STDBUFSIZ_def anything intro!: exI[of _ q] exI[of _ r])

text \<open>The test of the last call is inverted: its failure is taken for a size.\<close>

lemma size_error_ignored:
  assumes "runs anything (cut_file h b fsize c) ((SetEndOfFile h, e) # (GetFileSize h, z) # tr) n"
    "rv e \<noteq> 0" "num z = 2 ^ 32 - 1" "err z \<noteq> 0"
  shows "n = 0"
  using assms by (auto simp: cut_file_def split: if_splits)

end
