(* ===== verification/Checksum.thy ===== *)
theory Checksum
  imports Filters
begin

text \<open>
  \<open>lrc.cpp\<close>: the longitudinal parity of standard input, printed as a hexadecimal number. It
  reads from the pipe of the filters.
\<close>

section \<open>The program\<close>

fun hex_nat :: "nat \<Rightarrow> string" where
  "hex_nat n =
    (if n < 16 then [char_of (if n < 10 then n + 48 else n + 55)]
     else hex_nat (n div 16) @ [char_of (if n mod 16 < 10 then n mod 16 + 48 else n mod 16 + 55)])"

declare hex_nat.simps [simp del]

text \<open>\<open>printf(\"%.2X\")\<close> of a \<open>char\<close>, which is promoted to \<open>int\<close> with its sign.\<close>

definition hex_char_text :: "byte \<Rightarrow> string" where
  "hex_char_text c =
    (let n = unat (scast c :: DWORD); t = hex_nat n in if n < 16 then CHR ''0'' # t else t)"

definition parity :: "byte list \<Rightarrow> byte \<Rightarrow> byte" where
  "parity bs x = foldl (XOR) x bs"

definition printed_line :: "byte \<Rightarrow> byte list" where
  "printed_line x = map of_char (hex_char_text x) @ [10]"

text \<open>A negative number of bytes is a failure; \<open>perror\<close> is not shown.\<close>

primrec lrc_loop :: "nat \<Rightarrow> byte \<Rightarrow> filter" where
  "lrc_loop 0 x = OutOfFuel"
| "lrc_loop (Suc fuel) x =
    Sys (ReadFile 65536) (\<lambda>r.
      if num r < 0 then Done 1
      else if num r = 0 then Sys (WriteFile (printed_line x)) (\<lambda>_. Done 0)
      else lrc_loop fuel (parity (out r) x))"

definition lrc_main :: "nat \<Rightarrow> filter" where
  "lrc_main fuel = lrc_loop fuel 0"

section \<open>The parity\<close>

lemma parity_append: "parity (as @ bs) x = parity bs (parity as x)"
  by (simp add: parity_def)

lemma lrc_loop_pipe:
  "length (source s) < fuel \<Longrightarrow>
    \<exists>s'. interp pipe_step s (lrc_loop fuel x) = (Some 0, s') \<and> sink s' = sink s @ printed_line (parity (source s) x)"
proof (induction fuel arbitrary: s x)
  case (Suc fuel)
  show ?case
  proof (cases "source s = []")
    case True
    then show ?thesis by (simp add: ok_def parity_def)
  next
    case False
    let ?k = "piece s 65536"
    let ?s = "s\<lparr>source := drop ?k (source s), pieces := tl (pieces s)\<rparr>"
    have k: "0 < ?k" by (rule piece_pos) simp
    with False have d: "0 < length (take ?k (source s))" "min (length (source s)) ?k \<noteq> 0" by simp_all
    have "interp pipe_step s (lrc_loop (Suc fuel) x) = interp pipe_step ?s (lrc_loop fuel (parity (take ?k (source s)) x))"
      using d by (auto simp: Let_def ok_def min_def)
    moreover have "length (source ?s) < fuel" using Suc.prems False k by (cases "source s") auto
    from Suc.IH[OF this, of "parity (take ?k (source s)) x"] have
      "\<exists>s'. interp pipe_step ?s (lrc_loop fuel (parity (take ?k (source s)) x)) = (Some 0, s') \<and>
        sink s' = sink s @ printed_line (parity (source s) x)"
      by (simp add: parity_append[symmetric])
    ultimately show ?thesis by simp
  qed
qed simp

text \<open>
  Whatever the pieces in which the input comes, the parity of all its bytes is printed. When
  its highest bit is set it is printed with the sign, in eight digits instead of two.
\<close>

lemma lrc_prints_parity:
  "length (source s) < fuel \<Longrightarrow>
    \<exists>s'. interp pipe_step s (lrc_main fuel) = (Some 0, s') \<and> sink s' = sink s @ printed_line (parity (source s) 0)"
  using lrc_loop_pipe[of s fuel 0] by (simp add: lrc_main_def)

lemma lrc_sign_extends: "hex_char_text 0x80 = ''FFFFFF80''" "hex_char_text 0x7F = ''7F''"
  by (simp_all add: hex_char_text_def hex_nat.simps char_of_def bit_Suc_0_iff)

end
