(* ===== verification/SysInfo.thy ===== *)
theory SysInfo
  imports Args CLib
begin

text \<open>
  The tools that show or set one thing of the system: \<open>w32ver.c\<close>, \<open>w32verc.c\<close>, \<open>wntver.c\<close>,
  \<open>sysinf.c\<close>, \<open>validate.c\<close>, \<open>finddll.c\<close>, \<open>searchtreeforfile.c\<close>, \<open>allowsetfg.c\<close>, \<open>getkey.c\<close>,
  \<open>joindomain.c\<close>, \<open>showwin.c\<close> and \<open>char.c\<close>.
\<close>

section \<open>Calls\<close>

text \<open>The members of the version and of the description of the processor, and wide texts.\<close>

record sys_reply = reply +
  dwPlatformId :: int
  dwMajorVersion :: int
  dwMinorVersion :: int
  dwBuildNumber :: DWORD
  members :: "int list"

datatype sys_call =
    GetVersionEx
  | GetNativeSystemInfo
  | GetSystemInfo
  | Mprintf string "arg list"
  | MessageBox string "arg list"
  | WinError
  | LocalFree
  | Printf string "arg list"
  | Eprintf string "arg list"
  | Perror string
  | MapFileAndCheckSum "string option"
  | SetErrorMode
  | LoadLibrary string
  | GetModuleFileName
  | GetProcAddress string
  | SearchTreeForFile string string
  | GetLockTimeout
  | SetLockTimeout DWORD
  | SetConsoleMode
  | ReadKey
  | WriteKey byte
  | SetOemPrintFLineLength
  | NetJoinDomain "wide option" wide "wide option" "wide option" "wide option"
  | WinErrMsg int
  | OemPrintf string string "wide option list" "arg list"
  | FindWindow "string option" string
  | GetWindowThreadProcessId
  | GetClassName
  | GetProcessVersion int
  | ShowWindow int
  | Putchar byte

type_synonym sys_prog = "(sys_call, sys_reply) prog"

section \<open>The name of the system\<close>

definition PLATFORM_WIN32s :: int where [simp]: "PLATFORM_WIN32s = 0"
definition PLATFORM_WINDOWS :: int where [simp]: "PLATFORM_WINDOWS = 1"
definition PLATFORM_NT :: int where [simp]: "PLATFORM_NT = 2"

text \<open>In \<open>w32ver.c\<close> and \<open>w32verc.c\<close>; a version that is not in the table stays without a name
  until the end of its case.\<close>

definition nt_name :: "int \<Rightarrow> int \<Rightarrow> string option" where
  "nt_name major minor =
    (if major < 5 then Some ''Windows NT''
     else if major = 5 then
       (if minor < 1 then Some ''Windows 2000''
        else if minor = 1 then Some ''Windows XP''
        else if minor = 2 then Some ''Windows Server 2003''
        else None)
     else if major = 6 then
       (if minor < 1 then Some ''Windows Vista or Server 2008''
        else if minor = 1 then Some ''Windows 7 or Server 2008 R2''
        else if minor = 2 then Some ''Windows 8 or Server 2012''
        else None)
     else None)"

definition os_name :: "int \<Rightarrow> int \<Rightarrow> int \<Rightarrow> string" where
  "os_name platform major minor =
    (if platform = PLATFORM_WIN32s then ''Win32s''
     else if platform = PLATFORM_WINDOWS then
       (if minor < 10 then ''Windows 95'' else if minor > 10 then ''Windows ME'' else ''Windows 98'')
     else if platform = PLATFORM_NT then
       (case nt_name major minor of None \<Rightarrow> ''Windows'' | Some n \<Rightarrow> n)
     else ''Unknown OS'')"

definition os_name_short :: "int \<Rightarrow> int \<Rightarrow> string" where
  "os_name_short platform minor =
    (if platform = PLATFORM_WIN32s then ''Win32s''
     else if platform = PLATFORM_WINDOWS then (if minor < 10 then ''Windows 95'' else ''Windows 98'')
     else if platform = PLATFORM_NT then ''Windows NT''
     else ''Unknown OS'')"

definition build_number :: "sys_reply \<Rightarrow> int" where
  "build_number v =
    uint (if dwPlatformId v = PLATFORM_WINDOWS then dwBuildNumber v AND 0xFFFF else dwBuildNumber v)"

definition version_args :: "sys_reply \<Rightarrow> string \<Rightarrow> arg list" where
  "version_args v name = [S name, I (dwMajorVersion v), I (dwMinorVersion v), I (build_number v), S (line v)]"

definition w32ver_main :: sys_prog where
  "w32ver_main =
    Sys GetVersionEx (\<lambda>v.
    Sys (Mprintf ''%1 version %2!u!.%3!u!%nBuild %4!u! %5!s!''
      (version_args v (os_name (dwPlatformId v) (dwMajorVersion v) (dwMinorVersion v)))) (\<lambda>m.
      (let show = (\<lambda>msg. Sys (MessageBox ''Win32 version'' [S msg]) (\<lambda>_. Sys LocalFree (\<lambda>_. Done 0)))
       in if rv m = 0 then Sys WinError (\<lambda>e. show (line e)) else show (line m))))"

definition w32verc_main :: sys_prog where
  "w32verc_main =
    Sys GetVersionEx (\<lambda>v.
    Sys (Printf ''%s version %u.%u Build %u %s''
      (version_args v (os_name (dwPlatformId v) (dwMajorVersion v) (dwMinorVersion v)))) (\<lambda>_. Done 0))"

definition wntver_main :: sys_prog where
  "wntver_main =
    Sys GetVersionEx (\<lambda>v.
    Sys (MessageBox ''%s version %u.%02u Build %u %s''
      (version_args v (os_name_short (dwPlatformId v) (dwMinorVersion v)))) (\<lambda>_. Done 0))"

text \<open>
  The two tables agree on the systems before Windows 2000, with one exception: the older one
  has no Windows ME and shows Windows 98 for it.
\<close>

lemma os_names_agree:
  "platform \<noteq> PLATFORM_NT \<or> major < 5 \<Longrightarrow> platform \<noteq> PLATFORM_WINDOWS \<or> minor \<le> 10 \<Longrightarrow>
    os_name platform major minor = os_name_short platform minor"
  by (auto simp: os_name_def os_name_short_def nt_name_def)

lemma os_name_ME:
  "10 < minor \<Longrightarrow> os_name PLATFORM_WINDOWS major minor = ''Windows ME'' \<and>
    os_name_short PLATFORM_WINDOWS minor = ''Windows 98''"
  by (simp add: os_name_def os_name_short_def)

section \<open>\<open>sysinf.c\<close>\<close>

text \<open>
  The members: architecture, level, second word, page size, least and greatest address,
  number and type of processors, granularity, revision.
\<close>

definition power_pc :: "int \<Rightarrow> string" where
  "power_pc level =
    (if level = 1 then ''601'' else if level = 3 then ''603'' else if level = 4 then ''604''
     else if level = 6 then ''603+'' else if level = 9 then ''604+'' else if level = 20 then ''620''
     else ''Unknown'')"

definition processor_text :: "int \<Rightarrow> int \<Rightarrow> string \<times> arg list" where
  "processor_text architecture level =
    (if architecture = 0 then (''Intel %ux86'', [I level])
     else if architecture = 1 then (''MIPS R%u000'', [I level])
     else if architecture = 2 then (''Alpha %u'', [I level])
     else if architecture = 3 then (''Power PC %s'', [S (power_pc level)])
     else (''Unknown processor %u'', [I level]))"

definition processor_type :: "int \<Rightarrow> string" where
  "processor_type t =
    (if t = 386 then ''Intel 386'' else if t = 486 then ''Intel 486'' else if t = 586 then ''Intel Pentium''
     else if t = 4000 then ''MIPS 4000'' else if t = 21064 then ''Alpha 21064'' else ''Unknown'')"

definition sysinf_main :: sys_prog where
  "sysinf_main =
    Sys (GetProcAddress ''GetNativeSystemInfo'') (\<lambda>p. Sys (if rv p \<noteq> 0 then GetNativeSystemInfo else GetSystemInfo) (\<lambda>r.
      (let si = members r; (fmt, args) = processor_text (si ! 0) (si ! 1) in
       if length si < 10 then Crash
       else
         Sys (Printf (''Processor Architecture: '' @ fmt) args) (\<lambda>_.
         Sys (Printf ''Architecture ID: %u Page Size: %u Minimum Application Address: %p Maximum Application Address: %p Number of processors: %u''
           [I (si ! 2), I (si ! 3), I (si ! 4), I (si ! 5), I (si ! 6)]) (\<lambda>_.
         Sys (Printf ''Processor type: %s'' [S (processor_type (si ! 7))]) (\<lambda>_.
         Sys (Printf ''Allocation Granularity: %u Processor Revision: %p'' [I (si ! 8), I (si ! 9)]) (\<lambda>_.
         Done 0)))))))"

section \<open>Files and libraries\<close>

text \<open>\<open>validate.c\<close> does not look whether it was given a name.\<close>

definition checksum_error :: "int \<Rightarrow> string option" where
  "checksum_error e =
    (if e = 0 then None
     else if e = 1 then Some ''Error opening file.''
     else if e = 2 then Some ''Error creating file mapping.''
     else if e = 3 then Some ''Error mapping view of file.''
     else if e = 4 then Some ''Error converting filename to unicode.''
     else Some ''Unexpected error.'')"

definition validate_main :: "string list \<Rightarrow> sys_prog" where
  "validate_main args =
    Sys (MapFileAndCheckSum (if args = [] then None else Some (args ! 0))) (\<lambda>r.
      (case checksum_error (rv r) of
         Some m \<Rightarrow> Sys (Eprintf m []) (\<lambda>_. Done (- 1))
       | None \<Rightarrow>
           (let dwHeaderSum = members r ! 0; dwCheckSum = members r ! 1 in
            Sys (Printf ''Header: %p, Counted: %p'' [I dwHeaderSum, I dwCheckSum]) (\<lambda>_.
            Done (if dwHeaderSum \<noteq> dwCheckSum then 1 else 0)))))"

definition finddll_main :: "string list \<Rightarrow> sys_prog" where
  "finddll_main args =
    (if args = [] then Sys (Printf ''Usage: FINDDLL dllfile [functionname]'' []) (\<lambda>_. Done 0)
     else Sys SetErrorMode (\<lambda>_.
       Sys (LoadLibrary (args ! 0)) (\<lambda>h.
         if rv h = 0 then Sys (Perror (args ! 0)) (\<lambda>_. Done 1)
         else Sys GetModuleFileName (\<lambda>f.
           Sys (Printf ''Successfully loaded: %s'' [S (line f)]) (\<lambda>_.
             if length args < 2 then Done 0
             else Sys (GetProcAddress (args ! 1)) (\<lambda>p.
               if rv p = 0 then Sys (Perror (args ! 1)) (\<lambda>_. Done 2)
               else Sys (Printf ''Procedure address is: %p'' [I (rv p)]) (\<lambda>_. Done 0)))))))"

definition searchtreeforfile_main :: "string list \<Rightarrow> sys_prog" where
  "searchtreeforfile_main args =
    (let pcFileName = (if args \<noteq> [] then args ! 0 else ''*'');
         pcPathName = (if length args > 1 then args ! 1 else ''.'')
     in Sys (SearchTreeForFile pcPathName pcFileName) (\<lambda>s.
          if rv s = 0 then Sys (Perror pcFileName) (\<lambda>_. Done 1)
          else Sys (Printf ''%s'' [S (line s)]) (\<lambda>_. Done 0)))"

section \<open>Keys, windows and domains\<close>

definition allowsetfg_main :: "string list \<Rightarrow> sys_prog" where
  "allowsetfg_main args =
    Sys GetLockTimeout (\<lambda>g.
      (let set = (if args = [] then Done 0
         else
           (let dwNew = fst (strtoul (args ! 0) 0) in
            Sys (SetLockTimeout dwNew) (\<lambda>s.
              if rv s = 0 then Sys (Perror ''Failed'') (\<lambda>_. Done 1)
              else Sys (Printf ''Timeout value successfully set to %u ms'' [I (uint dwNew)]) (\<lambda>_. Done 0))))
       in if rv g \<noteq> 0 then Sys (Printf ''Current timeout value is %u ms'' [I (num g)]) (\<lambda>_. set) else set))"

text \<open>The status is the key with the bit of the small letters set.\<close>

definition getkey_main :: sys_prog where
  "getkey_main =
    Sys SetConsoleMode (\<lambda>_. Sys ReadKey (\<lambda>r.
      if rv r \<noteq> 0 \<and> length (out r) = 1
      then Sys (WriteKey (out r ! 0)) (\<lambda>_. Done (uint (out r ! 0 OR 0x20)))
      else Done 0))"

text \<open>\<open>for (c = 0x20; c; c++)\<close> on a \<open>char\<close>, which returns to zero after 255 steps at most.\<close>

function char_loop :: "byte \<Rightarrow> sys_prog" where
  "char_loop c = (if c \<noteq> 0 then Sys (Putchar c) (\<lambda>_. char_loop (c + 1)) else Done 0)"
  by pat_completeness auto
termination
proof (relation "measure (\<lambda>c. unat (- c))", simp, goal_cases)
  case (1 c)
  then have "unat (- c - 1) = unat (- c) - 1" by (simp add: unat_minus_one)
  moreover have "0 < unat (- c)" using 1 by (simp add: unat_gt_0)
  moreover have "- (c + 1) = - c - 1" by simp
  ultimately show ?case by (simp only: in_measure)
qed

declare char_loop.simps [simp del]

definition char_main :: sys_prog where
  "char_main = char_loop 0x20"

text \<open>\<open>wcstok\<close>: the text before the first delimiter that is not at the beginning, and the rest.\<close>

definition split_name :: "wide \<Rightarrow> wide option \<times> wide option" where
  "split_name s =
    (let t = dropWhile (\<lambda>c. c = 0x5C) s; u = dropWhile (\<lambda>c. c \<noteq> 0x5C) t in
     if t = [] then (None, None)
     else (Some (takeWhile (\<lambda>c. c \<noteq> 0x5C) t), if u = [] \<or> tl u = [] then None else Some (tl u)))"

definition nth_arg :: "'a list \<Rightarrow> nat \<Rightarrow> 'a option" where
  "nth_arg args i = (if i < length args then Some (args ! i) else None)"

definition joindomain_wmain :: "wide list \<Rightarrow> sys_prog" where
  "joindomain_wmain args =
    Sys SetOemPrintFLineLength (\<lambda>_.
      if length args < 2 \<or> length args > 4 then Sys (Eprintf ''Syntax:'' []) (\<lambda>_. Done 1)
      else
        (let (first, rest) = split_name (args ! 0);
             (wczAccountOU, wczComputerName) = (if rest = None then (None, first) else (first, rest))
         in Sys (NetJoinDomain wczComputerName (args ! 1) wczAccountOU (nth_arg args 2) (nth_arg args 3)) (\<lambda>r.
              if rv r = 0 then
                Sys (OemPrintf ''stdout'' ''The computer '%1!ws!' was successfully joined to '%2!ws!'.''
                  [wczComputerName, Some (args ! 1)] []) (\<lambda>_. Done 0)
              else
                Sys (WinErrMsg (rv r)) (\<lambda>m.
                Sys (OemPrintf ''stderr'' ''Error joining computer '%1!ws!' to '%2!ws!': %3''
                  [wczComputerName, Some (args ! 1)] [S (line m)]) (\<lambda>_. Done 0)))))"

definition joindomain_start :: "wide list option \<Rightarrow> sys_prog" where
  "joindomain_start argv = nt_startup (MessageBox ''This program requires Windows NT.'' []) joindomain_wmain argv"

text \<open>The ways to show a window, and their names on the command line.\<close>

definition show_command :: "string \<Rightarrow> int option" where
  "show_command a =
    map_of [(''/hide'', 0), (''/maximize'', 3), (''/minimize'', 6), (''/restore'', 9), (''/show'', 5),
      (''/showdefault'', 10), (''/showmaximized'', 3), (''/showminimized'', 2), (''/showminnoactive'', 7),
      (''/showna'', 8), (''/shownoactivate'', 4), (''/shownormal'', 1)] (map c_tolower a)"

fun show_switches :: "string list \<Rightarrow> int \<Rightarrow> int \<times> string list" where
  "show_switches [] n = (n, [])"
| "show_switches (a # args) n =
    (case show_command a of Some k \<Rightarrow> show_switches args k | None \<Rightarrow> (n, a # args))"

text \<open>
  When all arguments are switches, the title that is looked for is the last of them: the
  array has moved on, and its first element is what was in front.
\<close>

definition showwin_main :: "int \<Rightarrow> string list \<Rightarrow> sys_prog" where
  "showwin_main garbage args =
    (if args = [] then Sys (Printf ''Syntax:'' []) (\<lambda>_. Done 0)
     else
       (let (nCmdShow, names) = show_switches args 5; title = last args in
        Sys (FindWindow (if length names > 1 then Some (names ! 0) else None) title) (\<lambda>w.
          if rv w = 0 then Sys (Eprintf ''Can't find window with title %s.'' [S title]) (\<lambda>_. Done 1)
          else Sys GetWindowThreadProcessId (\<lambda>t.
            Sys (Printf ''Process id: %u Thread id: %u'' [I (num t), I (rv t)]) (\<lambda>_.
            Sys GetClassName (\<lambda>c.
              (let rest = Sys (GetProcessVersion (num t)) (\<lambda>v.
                     (let shown = Sys (ShowWindow nCmdShow) (\<lambda>_. Done garbage) in
                      if rv v \<noteq> 0 then
                        Sys (Printf ''Expected Windows version: %u.%u'' [I (rv v div 65536), I (rv v mod 65536)]) (\<lambda>_. shown)
                      else shown))
               in if rv c \<noteq> 0 then Sys (Printf ''Window class name: %s'' [S (line c)]) (\<lambda>_. rest) else rest)))))))"

section \<open>What the programs do\<close>

text \<open>\<open>char\<close> writes every character from the blank on once, in order, and then ends.\<close>

fun written_char :: "sys_call \<Rightarrow> byte option" where
  "written_char (Putchar c) = Some c"
| "written_char _ = None"

lemma char_loop_writes:
  "runs anything (char_loop c) tr n \<Longrightarrow> c \<noteq> 0 \<Longrightarrow>
    n = 0 \<and> map (written_char \<circ> fst) tr = map (Some \<circ> word_of_nat) [unat c..<256]"
proof (induction c arbitrary: tr rule: char_loop.induct)
  case (1 c)
  from "1.prems" obtain r tr' where t: "tr = (Putchar c, r) # tr'" "runs anything (char_loop (c + 1)) tr' n"
    by (subst (asm) char_loop.simps) auto
  have l: "[unat c..<256] = unat c # [Suc (unat c)..<256]" using unat_byte[of c] by (simp add: upt_conv_Cons)
  show ?case
  proof (cases "c + 1 = 0")
    case True
    then have "c = - 1" by (simp add: eq_neg_iff_add_eq_0)
    then have "unat c = 255" by (simp add: unsigned_minus_1_eq_mask mask_eq_exp_minus_1)
    then have "c = 255" by (simp add: word_unat_eq_iff)
    with t True show ?thesis by (simp add: l char_loop.simps)
  next
    case False
    then have "unat (c + 1) = Suc (unat c)" using unatSuc[of c] by (simp add: add.commute)
    with "1.IH"[OF "1.prems"(2) t(2) False] t(1) show ?thesis by (simp add: l)
  qed
qed

text \<open>
  \<open>joindomain\<close> ends with \<open>0\<close> whether the computer was joined or not; \<open>validate\<close> does so only
  when the two sums agree.
\<close>

lemma joindomain_status_lies:
  "runs anything (joindomain_wmain args) tr n \<Longrightarrow> length args \<in> {2, 3, 4} \<Longrightarrow> n = 0"
  by (auto simp: joindomain_wmain_def Let_def split: if_splits prod.splits)

lemma validate_status:
  "runs anything (validate_main args) tr n \<Longrightarrow> n = 0 \<Longrightarrow>
    \<exists>r. (MapFileAndCheckSum (if args = [] then None else Some (args ! 0)), r) \<in> set tr \<and> rv r = 0 \<and> members r ! 0 = members r ! 1"
  by (auto simp: validate_main_def checksum_error_def Let_def split: if_splits option.splits)

end
