(* ===== verification/SockHelp.thy ===== *)
theory SockHelp
  imports CLib Worlds
begin

text \<open>
  The helpers that the network programs for Unix share, \<open>iohlp.cpp\<close> and \<open>sockhlp.cpp\<close>, and
  the small server \<open>websrv.cpp\<close>. Some of the calls are those of the clients in other theories.
\<close>

section \<open>Calls\<close>

text \<open>
  \<open>read\<close> answers a count in \<open>rv\<close> and the bytes in \<open>out\<close>; \<open>num\<close> is a port or an address in
  network order.
\<close>

datatype io_call =
    Read int nat
  | Write int "byte list"
  | ClearErrno
  | GetServByName string
  | InetAddr string
  | GetHostByName string
  | Socket
  | Connect int int "16 word"
  | Close int
  | SetSockOpt int
  | Bind int "16 word"
  | Listen int nat
  | Signal
  | Accept int
  | Fork
  | Waitpid
  | Open string
  | Send int "byte list"
  | Perror string
  | Cout string "arg list"
  | Cerr string
  | Sleep nat
  | Create string
  | Fgets nat

type_synonym io_prog = "(io_call, reply) prog"

section \<open>\<open>iohlp.cpp\<close>\<close>

text \<open>
  A function that answers something gets what follows it as an argument. \<open>room\<close> is the room
  of the buffer, \<open>got\<close> what stands in it; the difference \<open>dwBufSize - 2\<close> is unsigned. A write
  behind the buffer is a crash.
\<close>

primrec line_loop :: "nat \<Rightarrow> int \<Rightarrow> DWORD \<Rightarrow> byte list \<Rightarrow> (byte list \<Rightarrow> io_prog) \<Rightarrow> io_prog" where
  "line_loop 0 h dwBufSize got k = OutOfFuel"
| "line_loop (Suc fuel) h dwBufSize got k =
    (if length got < unat (dwBufSize - 2) then
       (if unat dwBufSize \<le> length got then Crash
        else Sys (Read h 1) (\<lambda>r.
          if rv r \<noteq> 1 then k got
          else if out r ! 0 = 13 then line_loop fuel h dwBufSize got k
          else if out r ! 0 = 10 then k got
          else line_loop fuel h dwBufSize (got @ [out r ! 0]) k))
     else if unat dwBufSize \<le> length got then Crash
     else k got)"

definition LineRecv :: "nat \<Rightarrow> int \<Rightarrow> DWORD \<Rightarrow> (byte list \<Rightarrow> io_prog) \<Rightarrow> io_prog" where
  "LineRecv fuel h dwBufSize k = line_loop fuel h dwBufSize [] k"

primrec block_loop :: "nat \<Rightarrow> int \<Rightarrow> nat \<Rightarrow> byte list \<Rightarrow> (byte list \<Rightarrow> io_prog) \<Rightarrow> io_prog" where
  "block_loop 0 h dwBufSize got k = OutOfFuel"
| "block_loop (Suc fuel) h dwBufSize got k =
    (if length got < dwBufSize then
       Sys (Read h (dwBufSize - length got)) (\<lambda>r.
         if rv r < 0 then k got
         else if rv r = 0 then Sys ClearErrno (\<lambda>_. k got)
         else block_loop fuel h dwBufSize (got @ out r) k)
     else k got)"

definition BufRecv :: "nat \<Rightarrow> int \<Rightarrow> nat \<Rightarrow> (byte list \<Rightarrow> io_prog) \<Rightarrow> io_prog" where
  "BufRecv fuel h dwBufSize k = block_loop fuel h dwBufSize [] k"

primrec send_loop :: "nat \<Rightarrow> int \<Rightarrow> byte list \<Rightarrow> (bool \<Rightarrow> io_prog) \<Rightarrow> io_prog" where
  "send_loop 0 h left k = OutOfFuel"
| "send_loop (Suc fuel) h left k =
    (if left \<noteq> [] then
       Sys (Write h left) (\<lambda>w. if rv w = - 1 then k False else send_loop fuel h (drop (nat (rv w)) left) k)
     else k True)"

definition BufSend :: "nat \<Rightarrow> int \<Rightarrow> byte list \<Rightarrow> (bool \<Rightarrow> io_prog) \<Rightarrow> io_prog" where
  "BufSend fuel h pBuf k = send_loop fuel h pBuf k"

text \<open>\<open>strlen\<close> ends a string at its first zero.\<close>

definition StrSend :: "nat \<Rightarrow> int \<Rightarrow> byte list \<Rightarrow> (bool \<Rightarrow> io_prog) \<Rightarrow> io_prog" where
  "StrSend fuel h pBuf k = BufSend fuel h (takeWhile (\<lambda>b. b \<noteq> 0) pBuf) k"

section \<open>\<open>sockhlp.cpp\<close>\<close>

definition htons :: "16 word \<Rightarrow> 16 word" where
  "htons w = push_bit 8 w OR drop_bit 8 w"

definition NO_ADDRESS :: int where "NO_ADDRESS = 0xFFFFFFFF"

definition ConnectTCP_address :: "int \<Rightarrow> 16 word \<Rightarrow> io_prog" where
  "ConnectTCP_address ulAddress usPort =
    Sys Socket (\<lambda>sd.
      if rv sd = - 1 then Done (- 1)
      else Sys (Connect (rv sd) ulAddress usPort) (\<lambda>c.
        if rv c = - 1 then Sys (Close (rv sd)) (\<lambda>_. Done (- 1)) else Done (rv sd)))"

definition ConnectTCP_port :: "string option \<Rightarrow> 16 word \<Rightarrow> io_prog" where
  "ConnectTCP_port szServer usPort =
    (case szServer of
       None \<Rightarrow> Done (- 1)
     | Some server \<Rightarrow>
         if usPort = 0 then Done (- 1)
         else Sys (InetAddr server) (\<lambda>a.
           if num a = NO_ADDRESS then
             Sys (GetHostByName server) (\<lambda>hent.
               if rv hent = 0 then Done (- 1) else ConnectTCP_address (num hent) usPort)
           else ConnectTCP_address (num a) usPort))"

definition ConnectTCP :: "string option \<Rightarrow> string option \<Rightarrow> io_prog" where
  "ConnectTCP szServer szService =
    (case (szServer, szService) of
       (Some server, Some service) \<Rightarrow>
         (let usPort = htons (ucast (fst (strtoul service 0))) in
          if usPort = 0 then
            Sys (GetServByName service) (\<lambda>s.
              if rv s = 0 then Done (- 1) else ConnectTCP_port szServer (word_of_int (num s)))
          else ConnectTCP_port szServer usPort)
     | _ \<Rightarrow> Done (- 1))"

fun socket_made :: "io_call \<times> reply \<Rightarrow> int option" where
  "socket_made (Socket, r) = (if rv r = - 1 then None else Some (rv r))"
| "socket_made _ = None"

fun socket_closed :: "io_call \<times> reply \<Rightarrow> int option" where
  "socket_closed (Close h, r) = Some h"
| "socket_closed _ = None"

interpretation connections: resources socket_made socket_closed
proof
  fix e
  show "socket_made e \<noteq> None \<Longrightarrow> socket_closed e = None"
    by (cases e rule: socket_made.cases) simp_all
qed

text \<open>A connection keeps exactly the socket that it answers, and none when it fails.\<close>

definition keeps_socket :: "(io_call \<times> reply) list \<Rightarrow> int \<Rightarrow> bool" where
  "keeps_socket tr n \<longleftrightarrow> balance socket_made socket_closed tr = Some (if n = - 1 then {#} else {#n#})"

lemma ConnectTCP_address_keeps:
  "balance socket_made socket_closed h = Some {#} \<Longrightarrow> holds anything keeps_socket h (ConnectTCP_address i p)"
  by (simp add: ConnectTCP_address_def keeps_socket_def connections.balance_append)

lemma ConnectTCP_port_keeps:
  "balance socket_made socket_closed h = Some {#} \<Longrightarrow> holds anything keeps_socket h (ConnectTCP_port s p)"
  by (cases s) (simp_all add: ConnectTCP_port_def keeps_socket_def[of _ "- 1"] ConnectTCP_address_keeps connections.balance_append)

lemma ConnectTCP_keeps:
  assumes "runs anything (ConnectTCP server service) tr n"
  shows "keeps_socket tr n"
proof -
  have "holds anything keeps_socket [] (ConnectTCP server service)"
    by (cases server; cases service)
      (simp_all add: ConnectTCP_def ConnectTCP_port_keeps Let_def balance_start keeps_socket_def[of _ "- 1"])
  with assms show ?thesis by (simp add: holds_iff_runs)
qed

section \<open>\<open>websrv.cpp\<close>\<close>

definition ascii :: "string \<Rightarrow> byte list" where
  "ascii s = map of_char s"

definition not_found :: "byte list" where
  "not_found = ascii ''HTTP/1.1 404 File Not Found'' @ [10] @ ascii ''Server: websrv'' @ [10] @
    ascii ''Content-Type: text/html'' @ [10, 10] @
    ascii ''<STRONG>404 File Not Found</STRONG><BR>websrv can't find the requested file.''"

definition http_head :: "byte list" where
  "http_head = ascii ''HTTP/1.1 200 OK'' @ [10] @ ascii ''Server: websrv'' @ [10] @ ascii ''Content-Type: ''"

definition MAX_LINE_LENGTH :: nat where "MAX_LINE_LENGTH = 1024"

text \<open>How much of a piece \<open>send\<close> has taken is not looked at.\<close>

primrec serve_loop :: "nat \<Rightarrow> int \<Rightarrow> int \<Rightarrow> io_prog \<Rightarrow> io_prog" where
  "serve_loop 0 infd new_fd k = OutOfFuel"
| "serve_loop (Suc fuel) infd new_fd k =
    Sys (Read infd MAX_LINE_LENGTH) (\<lambda>r.
      if rv r = - 1 then Sys (Perror ''websrv: read()'') (\<lambda>_. Sys (Close new_fd) (\<lambda>_. k))
      else if rv r < 1 then Sys (Close new_fd) (\<lambda>_. k)
      else Sys (Send new_fd (out r)) (\<lambda>s.
        if rv s = - 1 then Sys (Perror ''websrv: send()'') (\<lambda>_. k)
        else serve_loop fuel infd new_fd k))"

definition send_or_stop :: "int \<Rightarrow> byte list \<Rightarrow> io_prog \<Rightarrow> io_prog \<Rightarrow> io_prog" where
  "send_or_stop new_fd bs stop k =
    Sys (Send new_fd bs) (\<lambda>s. if rv s = - 1 then Sys (Perror ''websrv: send()'') (\<lambda>_. stop) else k)"

definition ConnectionHandler :: "nat \<Rightarrow> string \<Rightarrow> string \<Rightarrow> int \<Rightarrow> io_prog \<Rightarrow> io_prog" where
  "ConnectionHandler fuel filename mimetype new_fd k =
    Sys (Open filename) (\<lambda>f.
      if rv f < 0 then Sys (Perror filename) (\<lambda>_. Sys (Send new_fd not_found) (\<lambda>_. k))
      else
        send_or_stop new_fd http_head k
        (send_or_stop new_fd (ascii mimetype) k
        (send_or_stop new_fd [10, 10] k
        (serve_loop fuel (rv f) new_fd k))))"

primrec reap :: "nat \<Rightarrow> io_prog \<Rightarrow> io_prog" where
  "reap 0 k = OutOfFuel"
| "reap (Suc fuel) k = Sys Waitpid (\<lambda>w. if rv w > 0 then reap fuel k else k)"

text \<open>The child of a connection answers it and ends; the parent goes on.\<close>

primrec accept_loop :: "nat \<Rightarrow> string \<Rightarrow> string \<Rightarrow> int \<Rightarrow> io_prog" where
  "accept_loop 0 filename mimetype sockfd = OutOfFuel"
| "accept_loop (Suc fuel) filename mimetype sockfd =
    Sys (Accept sockfd) (\<lambda>c.
      if rv c = - 1 then Sys (Perror ''websrv: accept()'') (\<lambda>_. accept_loop fuel filename mimetype sockfd)
      else Sys (Cout ''websrv: got connection from '' [S (line c)]) (\<lambda>_.
        Sys Fork (\<lambda>f.
          if rv f = 0 then Sys (Close sockfd) (\<lambda>_. ConnectionHandler fuel filename mimetype (rv c) (Done 0))
          else Sys (Close (rv c)) (\<lambda>_. reap fuel (accept_loop fuel filename mimetype sockfd)))))"

definition websrv_main :: "nat \<Rightarrow> string list \<Rightarrow> io_prog" where
  "websrv_main fuel args =
    (if length args < 2 \<or> length args > 3 then Sys (Cout '' port file [mimetype]'' []) (\<lambda>_. Done 0)
     else
       (let filename = args ! 1;
            mimetype = (if length args > 2 then args ! 2 else ''application/octet-stream'')
        in Sys Socket (\<lambda>s.
             if rv s = - 1 then Sys (Perror ''websrv: socket()'') (\<lambda>_. Done 1)
             else
               (let start = Sys (Bind (rv s) (htons (word_of_int (fst (strtol (args ! 0) 10))))) (\<lambda>b.
                      if rv b = - 1 then Sys (Perror ''websrv: bind()'') (\<lambda>_. Done 1)
                      else Sys (Listen (rv s) 10) (\<lambda>l.
                        if rv l = - 1 then Sys (Perror ''listen'') (\<lambda>_. Done 1)
                        else Sys Signal (\<lambda>_. accept_loop fuel filename mimetype (rv s))))
                in Sys (SetSockOpt (rv s)) (\<lambda>o'.
                     if rv o' \<noteq> 0 then Sys (Perror ''setsockopt(SO_REUSEADDR)'') (\<lambda>_. start) else start)))))"

definition siginthandler :: "nat \<Rightarrow> int \<Rightarrow> int \<Rightarrow> io_prog" where
  "siginthandler fuel sockfd new_fd =
    Sys (Cout ''Quitting...'' []) (\<lambda>_. Sys (Close sockfd) (\<lambda>_. Sys (Close new_fd) (\<lambda>_. reap fuel (Done 0))))"

section \<open>A channel\<close>

text \<open>
  A stream of bytes, what was sent on a connection, and the sizes of the pieces in which
  the other side takes or gives bytes: the first number bounds the next call.
\<close>

record channel =
  stream :: "byte list"
  pieces :: "nat list"
  sent :: "byte list"

definition bound :: "channel \<Rightarrow> nat \<Rightarrow> nat" where
  "bound s n = min n (case pieces s of [] \<Rightarrow> n | k # _ \<Rightarrow> max 1 k)"

fun channel_step :: "channel \<Rightarrow> io_call \<Rightarrow> reply \<times> channel" where
  "channel_step s (Read h n) =
    (let d = take (bound s n) (stream s) in
     (ok\<lparr>rv := int (length d), out := d\<rparr>, s\<lparr>stream := drop (bound s n) (stream s), pieces := tl (pieces s)\<rparr>))"
| "channel_step s (Write h bs) =
    (ok\<lparr>rv := int (bound s (length bs))\<rparr>,
     s\<lparr>stream := stream s @ take (bound s (length bs)) bs, pieces := tl (pieces s)\<rparr>)"
| "channel_step s (Send h bs) = (ok\<lparr>rv := int (length bs)\<rparr>, s\<lparr>sent := sent s @ bs\<rparr>)"
| "channel_step s _ = (ok, s)"

lemma bound_pos: "0 < n \<Longrightarrow> 0 < bound s n \<and> bound s n \<le> n"
  by (auto simp: bound_def split: list.splits)

lemma send_loop_sends:
  "length bs < fuel \<Longrightarrow> \<exists>ps. interp channel_step s (send_loop fuel h bs k) =
    interp channel_step (s\<lparr>stream := stream s @ bs, pieces := ps\<rparr>) (k True)"
proof (induction fuel arbitrary: s bs)
  case (Suc fuel)
  show ?case
  proof (cases "bs = []")
    case True
    then show ?thesis by (intro exI[of _ "pieces s"]) simp
  next
    case False
    let ?j = "bound s (length bs)"
    let ?s = "s\<lparr>stream := stream s @ take ?j bs, pieces := tl (pieces s)\<rparr>"
    have j: "0 < ?j" using bound_pos[of "length bs" s] False by simp
    have "length (drop ?j bs) < fuel" using Suc.prems False j by (cases bs) auto
    from Suc.IH[OF this, of ?s] obtain ps where "interp channel_step ?s (send_loop fuel h (drop ?j bs) k) =
        interp channel_step (?s\<lparr>stream := stream ?s @ drop ?j bs, pieces := ps\<rparr>) (k True)" by blast
    with False j show ?thesis by (intro exI[of _ ps]) (simp add: ok_def)
  qed
qed simp

lemma line_loop_receives:
  "length l + length c < fuel \<Longrightarrow> set l \<inter> {10, 13} = {} \<Longrightarrow> set c \<subseteq> {13} \<Longrightarrow> 2 \<le> unat n \<Longrightarrow>
    length got + length l + 2 < unat n \<Longrightarrow> stream s = l @ c @ 10 # rest \<Longrightarrow>
    \<exists>ps. interp channel_step s (line_loop fuel h n got k) =
      interp channel_step (s\<lparr>stream := rest, pieces := ps\<rparr>) (k (got @ l))"
proof (induction fuel arbitrary: s l c got)
  case (Suc fuel)
  have b: "bound s 1 = 1" using bound_pos[of 1 s] by simp
  have n2: "unat (n - 2) = unat n - 2" using Suc.prems(4) by (simp add: unat_sub word_le_nat_alt)
  obtain x xs where x: "stream s = x # xs" using Suc.prems(6) by (cases l; cases c) auto
  let ?s = "s\<lparr>stream := xs, pieces := tl (pieces s)\<rparr>"
  have step: "interp channel_step s (line_loop (Suc fuel) h n got k) =
    (if x = 13 then interp channel_step ?s (line_loop fuel h n got k)
     else if x = 10 then interp channel_step ?s (k got)
     else interp channel_step ?s (line_loop fuel h n (got @ [x]) k))"
  proof -
    have "length got < unat n - 2" "length got < unat n" using Suc.prems(5) by linarith+
    then show ?thesis using n2 b x by (simp add: ok_def)
  qed
  show ?case
  proof (cases l)
    case (Cons y l')
    with Suc.prems x have y: "x = y" "xs = l' @ c @ 10 # rest" "y \<noteq> 13" "y \<noteq> 10" by auto
    from Suc.IH[of l' c "got @ [y]" ?s] Suc.prems Cons y step show ?thesis by simp
  next
    case l: Nil
    show ?thesis
    proof (cases c)
      case (Cons y c')
      with Suc.prems x l have y: "x = 13" "xs = c' @ 10 # rest" by auto
      from Suc.IH[of l c' got ?s] Suc.prems Cons y l step show ?thesis by simp
    next
      case Nil
      with Suc.prems x l have "x = 10" "xs = rest" by auto
      with step l show ?thesis by (intro exI[of _ "tl (pieces s)"]) simp
    qed
  qed
qed simp

text \<open>
  C21. What \<open>StrSend\<close> sends as a line \<open>LineRecv\<close> receives: whatever pieces the channel takes, a
  line that leaves three places in the buffer, with its carriage return and its line feed,
  arrives without them, the stream is left as it was, and both functions come to an end.
\<close>

theorem line_exchange:
  assumes "set l \<inter> {0, 10, 13} = {}" "length l + 2 < unat n" "length l + 2 < fuel" "stream s = []"
  shows "\<exists>ps. interp channel_step s (StrSend fuel h (l @ [13, 10, 0]) (\<lambda>ok. if ok then LineRecv fuel g n k else Crash)) =
    interp channel_step (s\<lparr>stream := [], pieces := ps\<rparr>) (k l)"
proof -
  have t: "takeWhile (\<lambda>b. b \<noteq> 0) (l @ [13, 10, 0]) = l @ [13, 10]"
    using assms(1) by (subst takeWhile_append2) auto
  have "length (l @ [13, 10]) < fuel" using assms(3) by simp
  from send_loop_sends[OF this, of s h "\<lambda>ok. if ok then LineRecv fuel g n k else Crash"] assms(4)
  obtain ps where "interp channel_step s (StrSend fuel h (l @ [13, 10, 0]) (\<lambda>ok. if ok then LineRecv fuel g n k else Crash)) =
      interp channel_step (s\<lparr>stream := l @ [13, 10], pieces := ps\<rparr>) (LineRecv fuel g n k)"
    unfolding StrSend_def BufSend_def t by auto
  moreover obtain qs where "interp channel_step (s\<lparr>stream := l @ [13, 10], pieces := ps\<rparr>) (LineRecv fuel g n k) =
      interp channel_step (s\<lparr>stream := [], pieces := qs\<rparr>) (k l)"
    using line_loop_receives[of l "[13]" fuel n "[]" "s\<lparr>stream := l @ [13, 10], pieces := ps\<rparr>" "[]" g k] assms
    unfolding LineRecv_def by auto
  ultimately show ?thesis by (intro exI[of _ qs]) simp
qed

theorem line_exchange_witness:
  "\<exists>ps. interp channel_step \<lparr>stream = [], pieces = [1, 2], sent = []\<rparr>
      (StrSend 9 1 ([72, 73] @ [13, 10, 0]) (\<lambda>ok. if ok then LineRecv 9 0 5 (\<lambda>l. Done (int (length l))) else Crash)) =
    interp channel_step \<lparr>stream = [], pieces = ps, sent = []\<rparr> (Done 2)"
  using line_exchange[of "[72, 73]" 5 9 "\<lparr>stream = [], pieces = [1, 2], sent = []\<rparr>" 1 0 "\<lambda>l. Done (int (length l))"]
  by simp

text \<open>
  A line that leaves only two places fills the buffer before its end has been read, so its
  line feed is taken for another, empty line.
\<close>

lemma full_line_twice:
  "interp channel_step \<lparr>stream = [72, 10], pieces = [], sent = []\<rparr>
    (LineRecv (Suc (Suc fuel)) 0 3 (\<lambda>l. LineRecv (Suc (Suc fuel)) 0 3 (\<lambda>m. Done (10 * int (length l) + int (length m))))) =
    (Some 10, \<lparr>stream = [], pieces = [], sent = []\<rparr>)"
  by (simp add: LineRecv_def bound_def ok_def)

text \<open>A buffer of one byte has no bound: the difference is the largest number.\<close>

lemma tiny_buffer_overflow: "\<not> total anything (LineRecv (Suc (Suc fuel)) h 1 k)"
proof -
  have "unat (- 1 :: DWORD) = 4294967295" by (simp add: unsigned_minus_1_eq_mask mask_eq_exp_minus_1)
  then show ?thesis
    by (auto simp: LineRecv_def anything intro!: exI[of _ "ok\<lparr>rv := 1, out := [65]\<rparr>"])
qed

text \<open>A browser is sent the head, the type, an empty line and the file.\<close>

lemma serve_loop_sends:
  "length (stream s) < fuel \<Longrightarrow> \<exists>ps. interp channel_step s (serve_loop fuel infd c k) =
    interp channel_step (s\<lparr>stream := [], pieces := ps, sent := sent s @ stream s\<rparr>) k"
proof (induction fuel arbitrary: s)
  case (Suc fuel)
  show ?case
  proof (cases "stream s = []")
    case True
    then show ?thesis by (intro exI[of _ "tl (pieces s)"]) (simp add: ok_def)
  next
    case False
    let ?j = "bound s MAX_LINE_LENGTH"
    let ?s = "s\<lparr>stream := drop ?j (stream s), pieces := tl (pieces s), sent := sent s @ take ?j (stream s)\<rparr>"
    have j: "0 < ?j" using bound_pos[of MAX_LINE_LENGTH s] by (simp add: MAX_LINE_LENGTH_def)
    have "length (stream ?s) < fuel" using Suc.prems False j by (cases "stream s") auto
    from Suc.IH[OF this] obtain ps where "interp channel_step ?s (serve_loop fuel infd c k) =
        interp channel_step (?s\<lparr>stream := [], pieces := ps, sent := sent ?s @ stream ?s\<rparr>) k" by blast
    moreover have "min (length (stream s)) ?j \<noteq> 0" using j False by simp
    ultimately show ?thesis
      by (intro exI[of _ ps]) (simp add: ok_def Let_def min_def split: if_splits)
  qed
qed simp

lemma ConnectionHandler_serves:
  assumes "length (stream s) < fuel"
  shows "\<exists>ps. interp channel_step s (ConnectionHandler fuel f m c (Done 0)) =
    (Some 0, s\<lparr>stream := [], pieces := ps, sent := sent s @ http_head @ ascii m @ [10, 10] @ stream s\<rparr>)"
proof -
  let ?s = "s\<lparr>sent := sent s @ http_head @ ascii m @ [10, 10]\<rparr>"
  from assms serve_loop_sends[of ?s fuel 1 c "Done 0"] obtain ps where
    "interp channel_step ?s (serve_loop fuel 1 c (Done 0)) =
      (Some 0, ?s\<lparr>stream := [], pieces := ps, sent := sent ?s @ stream ?s\<rparr>)" by auto
  then show ?thesis by (intro exI[of _ ps]) (simp add: ConnectionHandler_def send_or_stop_def ok_def)
qed

text \<open>A part that \<open>send\<close> does not take is not sent again: the loop goes on with the next piece.\<close>

lemma short_send_loses:
  "runs anything (serve_loop (Suc (Suc fuel)) i c k) ((Read i MAX_LINE_LENGTH, r) # (Send c (out r), s) # e # tr) n \<Longrightarrow>
    rv s = 1 \<Longrightarrow> fst e = Read i MAX_LINE_LENGTH"
  by (auto split: if_splits)

end
