(* ===== verification/ArcCalls.thy ===== *)
theory ArcCalls
  imports Worlds Args
begin

text \<open>
  The stream archiver \<open>strarc\<close> and the native file interface of
  \<open>include/ntfileio.hpp\<close>: the calls they make, what calls answer, counted strings, and
  the inline functions of the header.
\<close>

section \<open>Data\<close>

text \<open>
  \<open>BY_HANDLE_FILE_INFORMATION\<close>, \<open>52\<close> bytes: attributes, three times, and six words.
\<close>

record file_information =
  dwFileAttributes :: DWORD
  ftCreationTime :: QWORD
  ftLastAccessTime :: QWORD
  ftLastWriteTime :: QWORD
  dwVolumeSerialNumber :: DWORD
  nFileSizeHigh :: DWORD
  nFileSizeLow :: DWORD
  nNumberOfLinks :: DWORD
  nFileIndexHigh :: DWORD
  nFileIndexLow :: DWORD

text \<open>\<open>FILE_BASIC_INFORMATION\<close>.\<close>

record basic_information =
  CreationTime :: QWORD
  LastAccessTime :: QWORD
  LastWriteTime :: QWORD
  ChangeTime :: QWORD
  FileAttributes :: DWORD

definition no_basic_information :: basic_information where
  "no_basic_information =
    \<lparr>CreationTime = 0, LastAccessTime = 0, LastWriteTime = 0, ChangeTime = 0, FileAttributes = 0\<rparr>"

definition FILE_ATTRIBUTE_READONLY :: DWORD where "FILE_ATTRIBUTE_READONLY = 0x1"
definition FILE_ATTRIBUTE_DIRECTORY :: DWORD where "FILE_ATTRIBUTE_DIRECTORY = 0x10"
definition FILE_ATTRIBUTE_ARCHIVE :: DWORD where "FILE_ATTRIBUTE_ARCHIVE = 0x20"
definition FILE_ATTRIBUTE_NORMAL :: DWORD where "FILE_ATTRIBUTE_NORMAL = 0x80"
definition FILE_ATTRIBUTE_SPARSE_FILE :: DWORD where "FILE_ATTRIBUTE_SPARSE_FILE = 0x200"
definition FILE_ATTRIBUTE_REPARSE_POINT :: DWORD where "FILE_ATTRIBUTE_REPARSE_POINT = 0x400"
definition FILE_ATTRIBUTE_COMPRESSED :: DWORD where "FILE_ATTRIBUTE_COMPRESSED = 0x800"

definition has :: "DWORD \<Rightarrow> DWORD \<Rightarrow> bool" where
  "has attributes flag \<longleftrightarrow> attributes AND flag \<noteq> 0"

text \<open>
  A counted string: its length in bytes, the bytes its buffer has room for, and the
  characters of a literal of the program if it points to one. All other counted strings
  that live long share the path buffer of the session, from its start.
\<close>

record unicode_string =
  Length :: nat
  MaximumLength :: nat
  literal :: "wide option"

definition dot :: WCHAR where "dot = 0x2E"
definition backslash :: WCHAR where "backslash = 0x5C"

section \<open>Calls\<close>

datatype access_right =
    GENERIC_READ | GENERIC_WRITE | FILE_READ_ATTRIBUTES | FILE_WRITE_ATTRIBUTES
  | FILE_LIST_DIRECTORY | FILE_TRAVERSE | DELETE | WRITE_DAC | WRITE_OWNER
  | ACCESS_SYSTEM_SECURITY | SYNCHRONIZE

datatype share = FILE_SHARE_READ | FILE_SHARE_WRITE | FILE_SHARE_DELETE

datatype option_flag =
    FILE_OPEN_FOR_BACKUP_INTENT | FILE_SEQUENTIAL_ONLY | FILE_OPEN_REPARSE_POINT
  | FILE_DIRECTORY_FILE | FILE_NON_DIRECTORY_FILE | FILE_RANDOM_ACCESS
  | FILE_SYNCHRONOUS_IO_NONALERT

datatype object_attribute = OBJ_CASE_INSENSITIVE | OBJ_OPENIF

datatype disposition = FILE_SUPERSEDE | FILE_CREATE | FILE_OPEN_IF | CREATE_ALWAYS | OPEN_ALWAYS | OPEN_EXISTING

datatype control_code = FSCTL_SET_SPARSE | FSCTL_DELETE_REPARSE_POINT | FSCTL_SET_COMPRESSION bool

datatype stream = Stdin | Stdout | Stderr

text \<open>An argument of a message.\<close>

datatype message_arg = MI int | MS string | MW wide

text \<open>The calls that set up and end a session, and those that only the start code makes.\<close>

datatype session_call =
    GetStdHandle stream
  | OpenArchiveFile wide "access_right list" "share list" disposition
  | SeekToEnd int
  | CreatePipe
  | SetHandleInformation int
  | CreateProcess wide int int int
  | WaitForSingleObject int
  | GetExitCodeProcess int
  | RtlDosPathNameToNtPathName wide
  | RtlCreateUnicodeString wide
  | RtlFreeUnicodeString
  | DuplicateStrings wide
  | Free
  | LocalAlloc nat
  | LocalFree
  | DeleteLinkItem
  | NtCurrentDirectoryHandle
  | RaiseException int
  | SetConsoleCtrlHandler bool

datatype console_call =
    NewOverlapped
  | LineRecvW int nat
  | LineRecv int nat
  | RtlAnsiStringToUnicodeString string nat
  | SetOemPrintFLineLength
  | EnableBackupPrivileges
  | NewCriticalSection
  | EnterCriticalSection
  | LeaveCriticalSection
  | CommandLineToArgvW
  | MessageBox string

datatype registry_call =
    RegOpenHiveList
  | RegEnumValue nat nat
  | RegCloseKey
  | NtCreateKey wide
  | NtSaveKey int int

datatype backup_call =
    BackupRead int nat bool
  | BackupReadAbort
  | BackupWrite int "byte list" bool
  | BackupWriteAbort
  | SetFilePointer int QWORD
  | SetEndOfFile int
  | DeviceIoControl int control_code
  | CreateHardLinkToOpenFile int int wide
  | SetShortFileName int wide
  | CopyByBackup int int wide wide
  | RtlUnicodeStringToOemString wide
  | RtlFreeOemString
  | NewLinkItem
  | AllocName nat

datatype arc_call =
    NtOpenFile int wide "access_right list" "object_attribute list" "share list" "option_flag list"
  | NativeCreateFile int wide "access_right list" "object_attribute list" DWORD "share list" disposition
      "option_flag list" bool
  | NativeCreateDirectory int wide "access_right list" "object_attribute list" DWORD "share list"
      "option_flag list" bool
  | NtSetBasicInformation int basic_information
  | NtQueryBasicInformation int
  | NtSetDisposition int
  | NtQueryDirectoryFile int "wide option" bool
  | NtClose int
  | CloseHandle int
  | RtlNtStatusToDosError int
  | SetLastError int
  | GetLastError
  | GetFileInformationByHandle int
  | ReadFile int nat
  | WriteFile int "byte list"
  | Cancelled
  | YieldSingleProcessor
  | SystemMessage
  | Say stream string "message_arg list"
  | Backup backup_call
  | Session session_call
  | Console console_call
  | Registry registry_call

text \<open>
  An answer has, beside the fields of a plain reply, two names (a file name and its short
  alternative), what is known of a file, and a second handle. \<open>Cancelled\<close> reads the flag
  that the console handler sets from another thread.
\<close>

record arc_reply = reply +
  wname :: wide
  wshort :: wide
  file_info :: file_information
  basic_info :: basic_information
  handle2 :: int

type_synonym arc = "(arc_call, arc_reply) prog"

text \<open>Messages with the text of the last system error as their first argument.\<close>

definition complain :: "string \<Rightarrow> message_arg list \<Rightarrow> arc \<Rightarrow> arc" where
  "complain format args k =
    Sys SystemMessage (\<lambda>m. Sys (Say Stderr format (MS (line m) # args)) (\<lambda>_. k))"

definition say :: "string \<Rightarrow> message_arg list \<Rightarrow> arc \<Rightarrow> arc" where
  "say format args k = Sys (Say Stderr format args) (\<lambda>_. k)"

definition only_if :: "bool \<Rightarrow> (arc \<Rightarrow> arc) \<Rightarrow> arc \<Rightarrow> arc" where
  "only_if b f k = (if b then f k else k)"

section \<open>Native file functions\<close>

text \<open>
  The name \<open>.\<close> stands for the root directory itself, which the native interface opens by
  an empty name. The test looks at the length and the first character only.
\<close>

definition native_name :: "wide \<Rightarrow> wide" where
  "native_name Name = (if length Name = 1 \<and> hd Name = dot then [] else Name)"

definition last_status :: "int \<Rightarrow> arc \<Rightarrow> arc" where
  "last_status status k =
    Sys (RtlNtStatusToDosError status) (\<lambda>e. Sys (SetLastError (rv e)) (\<lambda>_. k))"

definition NativeOpenFile :: "int \<Rightarrow> wide \<Rightarrow> access_right list \<Rightarrow> object_attribute list \<Rightarrow> share list \<Rightarrow>
    option_flag list \<Rightarrow> (int \<Rightarrow> arc) \<Rightarrow> arc" where
  "NativeOpenFile Root Name Access Attributes Share Options k =
    Sys (NtOpenFile Root (native_name Name) (Access @ [SYNCHRONIZE]) Attributes Share
          (Options @ [FILE_SYNCHRONOUS_IO_NONALERT])) (\<lambda>r.
      if \<not> NT_SUCCESS (rv r) then last_status (rv r) (k invalid_handle) else k (num r))"

text \<open>The attributes a file may be given, and always at least \<open>NORMAL\<close>.\<close>

definition settable_attributes :: "DWORD \<Rightarrow> DWORD" where
  "settable_attributes a = a AND 0x23127 OR 0x80"

definition NativeSetFileAttributes :: "int \<Rightarrow> DWORD \<Rightarrow> (bool \<Rightarrow> arc) \<Rightarrow> arc" where
  "NativeSetFileAttributes h a k =
    Sys (NtSetBasicInformation h (no_basic_information\<lparr>FileAttributes := settable_attributes a\<rparr>)) (\<lambda>r.
      if NT_SUCCESS (rv r) then k True else last_status (rv r) (k False))"

definition NativeSetFileAttributes_by_name :: "int \<Rightarrow> wide \<Rightarrow> DWORD \<Rightarrow> (bool \<Rightarrow> arc) \<Rightarrow> arc" where
  "NativeSetFileAttributes_by_name Root File a k =
    NativeOpenFile Root File [FILE_WRITE_ATTRIBUTES] [] [FILE_SHARE_READ, FILE_SHARE_WRITE, FILE_SHARE_DELETE]
        [FILE_OPEN_FOR_BACKUP_INTENT] (\<lambda>hFile.
      if hFile = invalid_handle then k False
      else
        Sys (NtSetBasicInformation hFile (no_basic_information\<lparr>FileAttributes := settable_attributes a\<rparr>)) (\<lambda>r.
        Sys (NtClose hFile) (\<lambda>_.
          if NT_SUCCESS (rv r) then k True else last_status (rv r) (k False))))"

definition NativeDeleteFile :: "int \<Rightarrow> (bool \<Rightarrow> arc) \<Rightarrow> arc" where
  "NativeDeleteFile h k =
    Sys (NtSetDisposition h) (\<lambda>r. if NT_SUCCESS (rv r) then k True else last_status (rv r) (k False))"

text \<open>The directory part of a path ends with its last backslash.\<close>

function split_directory :: "wide \<Rightarrow> nat \<Rightarrow> wide" where
  "split_directory path n =
    (if n = 0 then [] else if path ! (n - 1) = backslash then take n path else split_directory path (n - 1))"
  by pat_completeness auto
termination by (relation "measure snd") auto

declare split_directory.simps [simp del]

definition SplitPath :: "wide \<Rightarrow> wide \<times> wide" where
  "SplitPath path = (let d = split_directory path (length path) in (d, drop (length d) path))"

section \<open>Directory searches\<close>

text \<open>What a search has found: its status, the name and the short name.\<close>

record finder =
  LastStatus :: int
  FileName :: wide
  ShortName :: wide

definition FindFirst :: "int \<Rightarrow> wide option \<Rightarrow> (finder \<Rightarrow> arc) \<Rightarrow> arc" where
  "FindFirst DirHandle pattern k =
    Sys (NtQueryDirectoryFile DirHandle pattern True) (\<lambda>r.
      k \<lparr>LastStatus = rv r, FileName = wname r, ShortName = wshort r\<rparr>)"

definition FindNext :: "int \<Rightarrow> (finder \<Rightarrow> arc) \<Rightarrow> arc" where
  "FindNext DirHandle k =
    Sys (NtQueryDirectoryFile DirHandle None False) (\<lambda>r.
      k \<lparr>LastStatus = rv r, FileName = wname r, ShortName = wshort r\<rparr>)"

section \<open>Properties\<close>

lemma split_directory_rev:
  "n \<le> length path \<Longrightarrow> split_directory path n = rev (dropWhile (\<lambda>c. c \<noteq> backslash) (rev (take n path)))"
proof (induction n)
  case 0
  show ?case by (subst split_directory.simps) simp
next
  case (Suc n)
  then show ?case
    by (subst split_directory.simps) (simp add: take_Suc_conv_app_nth)
qed

text \<open>The two parts make up the path; the file part has no backslash and the directory
  part, if it is not empty, ends with one.\<close>

lemma SplitPath_parts:
  assumes "SplitPath path = (d, f)"
  shows "d @ f = path" and "backslash \<notin> set f" and "d = [] \<or> last d = backslash"
proof -
  let ?p = "\<lambda>c. c \<noteq> backslash" and ?r = "rev path"
  have d: "d = rev (dropWhile ?p ?r)"
    using assms by (simp add: SplitPath_def Let_def split_directory_rev)
  have "rev path = takeWhile ?p ?r @ dropWhile ?p ?r" by simp
  then have path: "path = d @ rev (takeWhile ?p ?r)"
    unfolding d by (metis rev_append rev_rev_ident)
  moreover have "f = drop (length d) path"
    using assms by (auto simp: SplitPath_def Let_def)
  ultimately have f: "f = rev (takeWhile ?p ?r)" by (metis append_eq_conv_conj)
  from path f show "d @ f = path" by simp
  show "backslash \<notin> set f"
    unfolding f by (auto dest: set_takeWhileD)
  show "d = [] \<or> last d = backslash"
    unfolding d using hd_dropWhile[of ?p ?r] by (auto simp: last_rev)
qed

lemma native_name_dot: "native_name [dot] = []"
  by (simp add: native_name_def)

text \<open>A handle that is opened for a change of attributes is closed whatever happens.\<close>

definition arc_acquires :: "arc_call \<times> arc_reply \<Rightarrow> int option" where
  "arc_acquires e =
    (case fst e of
       NtOpenFile d f a t s p \<Rightarrow> if NT_SUCCESS (rv (snd e)) then Some (num (snd e)) else None
     | NativeCreateFile d f a t x s q p b \<Rightarrow> if rv (snd e) = invalid_handle then None else Some (rv (snd e))
     | NativeCreateDirectory d f a t x s p b \<Rightarrow> if rv (snd e) = invalid_handle then None else Some (rv (snd e))
     | _ \<Rightarrow> None)"

definition arc_releases :: "arc_call \<times> arc_reply \<Rightarrow> int option" where
  "arc_releases e = (case fst e of NtClose h \<Rightarrow> Some h | CloseHandle h \<Rightarrow> Some h | _ \<Rightarrow> None)"

interpretation arc_handles: resources arc_acquires arc_releases
  by unfold_locales (auto simp: arc_acquires_def arc_releases_def split: arc_call.splits)

lemmas arc_handle_simps = arc_acquires_def arc_releases_def arc_handles.balance_append balance_start clean_balance

lemma NativeSetFileAttributes_by_name_closes:
  "holds anything (\<lambda>tr n. num_ok tr \<longrightarrow> clean arc_acquires arc_releases tr) []
    (NativeSetFileAttributes_by_name Root File a (\<lambda>b. Done (if b then 1 else 0)))"
  if "num_ok = (\<lambda>tr. \<forall>(c, r) \<in> set tr. num r \<noteq> invalid_handle)" for num_ok
  using that
  by (simp add: NativeSetFileAttributes_by_name_def NativeOpenFile_def last_status_def arc_handle_simps)

end
