(* ===== verification/ArcStream.thy ===== *)
theory ArcStream
  imports ArcCalls
begin

text \<open>
  \<open>strarc/strarc.hpp\<close> and the parts of \<open>strarc.cpp\<close> they rest on: the session, its
  exceptions and its end, and the reading and writing of the archive, with the search for
  the next file header after damage.
\<close>

section \<open>The session\<close>

datatype XError =
    XE_NOERROR | XE_CANCELLED | XE_CREATE_DIR | XE_CHANGE_DIR | XE_CREATE_FILE | XE_FILE_IO
  | XE_ARCHIVE_IO | XE_ARCHIVE_OPEN | XE_CREATE_PIPE | XE_FILTER_EXECUTE | XE_ARCHIVE_TRUNC
  | XE_ARCHIVE_BAD_HEADER | XE_UNSUPPORTED_PLATFORM | XE_TOO_LONG_PATH | XE_NOT_ENOUGH_MEMORY
  | XE_NOT_ENOUGH_MEMORY_FOR_LINK_TRACKER | XE_BAD_BUFFER

definition all_errors :: "XError list" where
  "all_errors =
    [XE_NOERROR, XE_CANCELLED, XE_CREATE_DIR, XE_CHANGE_DIR, XE_CREATE_FILE, XE_FILE_IO,
     XE_ARCHIVE_IO, XE_ARCHIVE_OPEN, XE_CREATE_PIPE, XE_FILTER_EXECUTE, XE_ARCHIVE_TRUNC,
     XE_ARCHIVE_BAD_HEADER, XE_UNSUPPORTED_PLATFORM, XE_TOO_LONG_PATH, XE_NOT_ENOUGH_MEMORY,
     XE_NOT_ENOUGH_MEMORY_FOR_LINK_TRACKER, XE_BAD_BUFFER]"

text \<open>The value of the enumeration constant, its place in the declaration.\<close>

definition xe_code :: "XError \<Rightarrow> int" where
  "xe_code x = int (length (takeWhile (\<lambda>y. y \<noteq> x) all_errors))"

datatype BackupMethods = BACKUP_METHOD_COPY | BACKUP_METHOD_FULL | BACKUP_METHOD_DIFF | BACKUP_METHOD_INC

record link_item =
  item_volume :: DWORD
  item_node :: QWORD
  item_name :: wide

text \<open>
  The options of the command line and the members of the class. A null pointer to
  strings is \<open>None\<close>, a null buffer is the empty list; \<open>piFilter\<close> is the process of the
  filter, zero without one. \<open>CustomFilter\<close> is a function that users of the class may set.
\<close>

record options =
  bVerbose :: bool
  bListFiles :: bool
  bLocal :: bool
  bTestMode :: bool
  bListOnly :: bool
  bProcessSecurity :: bool
  bProcessFileTimes :: bool
  bProcessFileAttribs :: bool
  bHardLinkSupport :: bool
  bRestoreCompression :: bool
  bSkipShortNames :: bool
  bNoShortNameWarnings :: bool
  bOverwriteOlder :: bool
  bOverwriteArchived :: bool
  bFreshenExisting :: bool
  bRestoreShortNamesOnly :: bool
  bBackupRegistrySnapshots :: bool
  BackupMethod :: BackupMethods
  dwExtractCreation :: disposition
  dwExcludeStrings :: nat
  szExcludeStrings :: "wide option"
  dwIncludeStrings :: nat
  szIncludeStrings :: "wide option"
  dwBufferSize :: nat
  CustomFilter :: "(wide \<Rightarrow> file_information \<Rightarrow> bool option \<times> bool option \<Rightarrow> bool option \<times> bool option) option"

record strarc = options +
  hArchive :: int
  RootDirectory :: int
  wczFullPathBuffer :: wide
  FullPath :: unicode_string
  Buffer :: "byte list"
  LinkTrackerItems :: "link_item list list"
  FileCounter :: int
  piFilter :: int

definition DEFAULT_STREAM_BUFFER_SIZE :: nat where "DEFAULT_STREAM_BUFFER_SIZE = 131072"
definition USHORT_MAX :: nat where "USHORT_MAX = 65535"
definition HEADER_SIZE :: nat where "HEADER_SIZE = 20"
definition STRARC_MAGIC :: nat where "STRARC_MAGIC = 0xBAC00001"
definition FILE_INFO_SIZE :: nat where "FILE_INFO_SIZE = 52"

text \<open>
  \<open>Initialize\<close>: all members are zero, then these are set. Of the path buffer the list
  has what was written so far, zeros follow.
\<close>

definition Initialize :: strarc where
  "Initialize =
    \<lparr>bVerbose = False, bListFiles = False, bLocal = False, bTestMode = False, bListOnly = False,
     bProcessSecurity = True, bProcessFileTimes = True, bProcessFileAttribs = True,
     bHardLinkSupport = True, bRestoreCompression = True, bSkipShortNames = False,
     bNoShortNameWarnings = False, bOverwriteOlder = False, bOverwriteArchived = False,
     bFreshenExisting = False, bRestoreShortNamesOnly = False, bBackupRegistrySnapshots = False,
     BackupMethod = BACKUP_METHOD_COPY, dwExtractCreation = FILE_CREATE,
     dwExcludeStrings = 0, szExcludeStrings = None, dwIncludeStrings = 0, szIncludeStrings = None,
     dwBufferSize = DEFAULT_STREAM_BUFFER_SIZE, CustomFilter = None, hArchive = invalid_handle, RootDirectory = 0,
     wczFullPathBuffer = [], FullPath = \<lparr>Length = 0, MaximumLength = USHORT_MAX, literal = None\<rparr>, Buffer = [],
     LinkTrackerItems = replicate 256 [], FileCounter = 0, piFilter = 0\<rparr>"

definition verbose :: "strarc \<Rightarrow> string \<Rightarrow> message_arg list \<Rightarrow> arc \<Rightarrow> arc" where
  "verbose s format args k = (if bVerbose s then say format args k else k)"

section \<open>The end of a session\<close>

fun delete_items :: "link_item list \<Rightarrow> arc \<Rightarrow> arc" where
  "delete_items [] k = k"
| "delete_items (i # is) k = Sys (Session DeleteLinkItem) (\<lambda>_. delete_items is k)"

text \<open>The destructor.\<close>

definition destroy :: "strarc \<Rightarrow> arc \<Rightarrow> arc" where
  "destroy s k =
    (let wait =
       if piFilter s \<noteq> 0 then
         verbose s ''Waiting for filter utility to exit...'' []
          (Sys (Session (WaitForSingleObject (piFilter s))) (\<lambda>_.
            if bVerbose s then
              Sys (Session (GetExitCodeProcess (piFilter s))) (\<lambda>r.
                if rv r \<noteq> 0 then say ''Filter return value: %i'' [MI (num r)] k
                else complain ''Error getting filter return value: %s'' [] k)
            else k))
       else k;
     archive = if hArchive s \<noteq> 0 then Sys (CloseHandle (hArchive s)) (\<lambda>_. wait) else wait;
     root = if RootDirectory s \<noteq> 0 then Sys (NtClose (RootDirectory s)) (\<lambda>_. archive) else archive;
     buffer = if Buffer s \<noteq> [] then Sys (Session LocalFree) (\<lambda>_. root) else root;
     items = delete_items (concat (LinkTrackerItems s)) buffer;
     excludes = if szExcludeStrings s \<noteq> None then Sys (Session Free) (\<lambda>_. items) else items
     in if szIncludeStrings s \<noteq> None then Sys (Session Free) (\<lambda>_. excludes) else excludes)"

text \<open>What \<open>wmain\<close> does after \<open>Main\<close> has returned or raised an exception.\<close>

definition wmain_finish :: "strarc \<Rightarrow> int \<Rightarrow> arc" where
  "wmain_finish s rc =
    Sys (Session (SetConsoleCtrlHandler False)) (\<lambda>_.
    Sys (Console EnterCriticalSection) (\<lambda>_.
      destroy s (Sys (Console LeaveCriticalSection) (\<lambda>_. Done rc))))"

section \<open>Exceptions\<close>

record exception_data =
  ErrorCode :: XError
  SysErrorCode :: int
  ObjectName :: "wide option"
  SysErrorMessage :: "string option"
  ErrorMessage :: "message_arg option"

text \<open>The message, the status and whether the text of the system error is shown.\<close>

fun exception_kind :: "XError \<Rightarrow> string \<times> int \<times> bool" where
  "exception_kind XE_CANCELLED = (''strarc aborted: Operation cancelled.'', 0xC0000120, False)"
| "exception_kind XE_CREATE_DIR = (''strarc aborted: Cannot create directory.'', 0xC0000185, True)"
| "exception_kind XE_CHANGE_DIR = (''strarc aborted: Cannot change to directory.'', 0xC0000185, True)"
| "exception_kind XE_CREATE_FILE = (''strarc aborted: Cannot create file.'', 0xC0000185, True)"
| "exception_kind XE_FILE_IO = (''strarc aborted: File I/O error.'', 0xC0000185, True)"
| "exception_kind XE_ARCHIVE_IO = (''strarc aborted: Archive I/O error.'', 0xC0000185, True)"
| "exception_kind XE_ARCHIVE_OPEN = (''strarc: Archive open error.'', 0xC0000185, True)"
| "exception_kind XE_CREATE_PIPE = (''strarc: Cannot create pipe.'', 0xC0000185, True)"
| "exception_kind XE_FILTER_EXECUTE = (''strarc: Cannot execute filter.'', 0xC002001B, True)"
| "exception_kind XE_ARCHIVE_TRUNC = (''strarc aborted: Unexpected end of archive.'', 0xC00000E9, False)"
| "exception_kind XE_ARCHIVE_BAD_HEADER = (''strarc aborted: Bad archive format, aborted.'', 0xC00000E9, False)"
| "exception_kind XE_TOO_LONG_PATH = (''strarc aborted: Target path is too long.'', 0xC0000106, False)"
| "exception_kind XE_NOT_ENOUGH_MEMORY = (''strarc aborted: Memory allocation failed.'', 0xC0000017, True)"
| "exception_kind XE_NOT_ENOUGH_MEMORY_FOR_LINK_TRACKER =
    (''strarc aborted: Memory allocation for hard link tracking failed.'', 0xC0000017, True)"
| "exception_kind XE_BAD_BUFFER = (''strarc aborted: The stream buffer size is too small.'', 0xC000000D, False)"
| "exception_kind XE_NOERROR = ([], 0xC000000D, False)"
| "exception_kind XE_UNSUPPORTED_PLATFORM = ([], 12, False)"

text \<open>For the last two kinds the name is the message.\<close>

definition exception_of :: "XError \<Rightarrow> wide option \<Rightarrow> int \<Rightarrow> string \<Rightarrow> exception_data" where
  "exception_of xe name syscode sysmsg =
    (let (text, status, show_system) = exception_kind xe;
         own_text = xe = XE_NOERROR \<or> xe = XE_UNSUPPORTED_PLATFORM
     in \<lparr>ErrorCode = xe, SysErrorCode = (if show_system then syscode else 0),
         ObjectName = (if own_text then None else name),
         SysErrorMessage = (if show_system then Some sysmsg else None),
         ErrorMessage = (if own_text then map_option MW name else Some (MS text))\<rparr>)"

definition strarc_exception_handler :: "strarc \<Rightarrow> exception_data \<Rightarrow> int \<Rightarrow> (int \<Rightarrow> arc) \<Rightarrow> arc" where
  "strarc_exception_handler s d ExceptionCode k =
    (let count = say ''strarc aborted, %I64u file%s processed.''
           [MI (FileCounter s), MS (if FileCounter s \<noteq> 1 then ''s'' else [])]
           (k (if xe_code (ErrorCode d) \<noteq> 0 then xe_code (ErrorCode d) else ExceptionCode));
         system =
           (case SysErrorMessage d of
              Some m \<Rightarrow>
                (case ObjectName d of
                   Some n \<Rightarrow> say ''%s: %s'' [MW n, MS m] count
                 | None \<Rightarrow> say ''%s'' [MS m] count)
            | None \<Rightarrow>
                Sys (RtlNtStatusToDosError ExceptionCode) (\<lambda>_.
                Sys SystemMessage (\<lambda>m.
                  say ''Exception 0x%X: %s'' [MI ExceptionCode, MS (line m)] count)))
     in case ErrorMessage d of
          Some m \<Rightarrow> say ''%s'' [m] system
        | None \<Rightarrow> system)"

text \<open>\<open>Exception\<close> does not return: \<open>wmain\<close> catches it and ends the program.\<close>

definition Exception :: "strarc \<Rightarrow> XError \<Rightarrow> wide option \<Rightarrow> arc" where
  "Exception s xe name =
    Sys GetLastError (\<lambda>e.
    Sys SystemMessage (\<lambda>m.
      let status = fst (snd (exception_kind xe)) in
      Sys (Session (RaiseException status)) (\<lambda>_.
        strarc_exception_handler s (exception_of xe name (err e) (line m)) status (wmain_finish s))))"

section \<open>The stream header\<close>

text \<open>The header fields lie at the start of the buffer, the lowest byte first.\<close>

definition dwStreamId :: "byte list \<Rightarrow> nat" where "dwStreamId b = le_nat (peek b 0 4)"
definition dwStreamAttributes :: "byte list \<Rightarrow> nat" where "dwStreamAttributes b = le_nat (peek b 4 4)"
definition Size_LowPart :: "byte list \<Rightarrow> nat" where "Size_LowPart b = le_nat (peek b 8 4)"
definition Size_HighPart :: "byte list \<Rightarrow> nat" where "Size_HighPart b = le_nat (peek b 12 4)"
definition dwStreamNameSize :: "byte list \<Rightarrow> nat" where "dwStreamNameSize b = le_nat (peek b 16 4)"

text \<open>\<open>QuadPart\<close> is signed, with 64 bits.\<close>

definition int64 :: "int \<Rightarrow> int" where
  "int64 i = (i + 2 ^ 63) mod 2 ^ 64 - 2 ^ 63"

definition Size_QuadPart :: "byte list \<Rightarrow> int" where
  "Size_QuadPart b = int64 (int (le_nat (peek b 8 8)))"

definition GetDataOffset :: "byte list \<Rightarrow> nat" where
  "GetDataOffset b = (HEADER_SIZE + dwStreamNameSize b) mod 2 ^ 32"

definition BACKUP_INVALID :: nat where "BACKUP_INVALID = 0"
definition BACKUP_DATA :: nat where "BACKUP_DATA = 1"
definition BACKUP_ALTERNATE_DATA :: nat where "BACKUP_ALTERNATE_DATA = 4"
definition BACKUP_LINK :: nat where "BACKUP_LINK = 5"
definition BACKUP_SPARSE_BLOCK :: nat where "BACKUP_SPARSE_BLOCK = 9"
definition STREAM_SPARSE_ATTRIBUTE :: nat where "STREAM_SPARSE_ATTRIBUTE = 8"

text \<open>The condition of the search for a file header.\<close>

definition file_header_ok :: "byte list \<Rightarrow> bool" where
  "file_header_ok b \<longleftrightarrow>
    dwStreamId b = BACKUP_INVALID \<and> dwStreamAttributes b = STRARC_MAGIC \<and>
    (Size_QuadPart b = 52 \<or> Size_QuadPart b = 78) \<and>
    dwStreamNameSize b > 0 \<and> dwStreamNameSize b \<le> 65535 \<and> even (dwStreamNameSize b)"

definition IsNewFileHeader :: "byte list \<Rightarrow> bool" where
  "IsNewFileHeader b =
    (if dwStreamId b = BACKUP_INVALID \<and> dwStreamAttributes b = STRARC_MAGIC \<and>
        (Size_QuadPart b = 52 \<or> Size_QuadPart b = 78) \<and>
        dwStreamNameSize b > 0 \<and> dwStreamNameSize b \<le> 65535 then True
     else if odd (dwStreamNameSize b) then True
     else False)"

section \<open>Reading and writing the archive\<close>

text \<open>These errors of a read count as the end of the archive.\<close>

definition end_errors :: "int list" where
  "end_errors = [995, 64, 109, 6]"

text \<open>
  \<open>n\<close> bytes are still wanted at \<open>pos\<close> of the buffer and \<open>dwTotal\<close> have come; more than
  was asked for, or a place behind the buffer, is outside C.
\<close>

function read_loop :: "strarc \<Rightarrow> nat \<Rightarrow> nat \<Rightarrow> nat \<Rightarrow> (strarc \<Rightarrow> nat \<Rightarrow> arc) \<Rightarrow> arc" where
  "read_loop s pos n dwTotal k =
    (if n = 0 then k s dwTotal
     else
       Sys (ReadFile (hArchive s) n) (\<lambda>r.
         if rv r = 0 then
           Sys GetLastError (\<lambda>e. if err e \<in> set end_errors then k s dwTotal else Exception s XE_ARCHIVE_IO None)
         else if out r = [] then k s dwTotal
         else if length (out r) > n \<or> pos + length (out r) > length (Buffer s) then Crash
         else
           read_loop (s\<lparr>Buffer := poke (Buffer s) pos (out r)\<rparr>) (pos + length (out r)) (n - length (out r))
             (dwTotal + length (out r)) k))"
  by pat_completeness auto
termination by (relation "measure (\<lambda>(s, pos, n, dwTotal, k). n)") auto

declare read_loop.simps [simp del]

definition ReadArchive :: "strarc \<Rightarrow> nat \<Rightarrow> nat \<Rightarrow> (strarc \<Rightarrow> nat \<Rightarrow> arc) \<Rightarrow> arc" where
  "ReadArchive s pos dwSize k = read_loop s pos dwSize 0 k"

definition ReadStreamHeader :: "strarc \<Rightarrow> (strarc \<Rightarrow> nat \<Rightarrow> arc) \<Rightarrow> arc" where
  "ReadStreamHeader s k =
    ReadArchive s 0 HEADER_SIZE (\<lambda>s dwBytesRead.
      k (if dwBytesRead < HEADER_SIZE then s\<lparr>Buffer := poke (Buffer s) 0 (replicate HEADER_SIZE 0)\<rparr> else s)
        dwBytesRead)"

text \<open>One byte at a time, until the buffer begins with a file header.\<close>

primrec resync :: "nat \<Rightarrow> strarc \<Rightarrow> (strarc \<Rightarrow> bool \<Rightarrow> arc) \<Rightarrow> arc" where
  "resync 0 s k = OutOfFuel"
| "resync (Suc fuel) s k =
    Sys YieldSingleProcessor (\<lambda>_.
    Sys Cancelled (\<lambda>c.
      if rv c \<noteq> 0 then k s False
      else
        ReadArchive (s\<lparr>Buffer := poke (Buffer s) 0 (peek (Buffer s) 1 (HEADER_SIZE - 1))\<rparr>) (HEADER_SIZE - 1) 1 (\<lambda>s n.
          if n \<noteq> 1 then say ''strarc: Invalid data, unexpected end of archive.'' [] (k s False)
          else if file_header_ok (Buffer s) then k s True
          else resync fuel s k)))"

definition ReadNextFileHeader :: "nat \<Rightarrow> strarc \<Rightarrow> (strarc \<Rightarrow> bool \<Rightarrow> arc) \<Rightarrow> arc" where
  "ReadNextFileHeader fuel s k =
    ReadArchive s 0 HEADER_SIZE (\<lambda>s dwBytesRead.
      if dwBytesRead < HEADER_SIZE then k s False
      else if file_header_ok (Buffer s) then k s True
      else if bVerbose s then
        say ''strarc: Invalid header [id=%s, attr=%s, %u bytes name, size=0x%.8x%.8x], seeking...''
          [MI (int (dwStreamId (Buffer s))), MI (int (dwStreamAttributes (Buffer s))),
           MI (int (dwStreamNameSize (Buffer s))), MI (int (Size_HighPart (Buffer s))),
           MI (int (Size_LowPart (Buffer s)))] (resync fuel s k)
      else say ''strarc: Error in archive, skipping to next valid header...'' [] (resync fuel s k))"

text \<open>What the system says it wrote and did not have is outside C.\<close>

function WriteArchive :: "strarc \<Rightarrow> byte list \<Rightarrow> arc \<Rightarrow> arc" where
  "WriteArchive s lpBuf k =
    (if lpBuf = [] then k
     else
       Sys (WriteFile (hArchive s) lpBuf) (\<lambda>r.
         if rv r = 0 then Exception s XE_ARCHIVE_IO None
         else if num r = 0 then
           verbose s ''Write of archive raised EOF condition.'' [] (Exception s XE_ARCHIVE_TRUNC None)
         else if num r < 0 \<or> num r > int (length lpBuf) then Crash
         else WriteArchive s (drop (nat (num r)) lpBuf) k))"
  by pat_completeness auto
termination by (relation "measure (\<lambda>(s, b, k). length b)") auto

declare WriteArchive.simps [simp del]

text \<open>The low 32 bits of a number of bytes.\<close>

definition low_part :: "int \<Rightarrow> nat" where
  "low_part i = nat (i mod 2 ^ 32)"

definition block_size :: "strarc \<Rightarrow> int \<Rightarrow> nat" where
  "block_size s BytesToRead = (if BytesToRead > int (dwBufferSize s) then dwBufferSize s else low_part BytesToRead)"

text \<open>The continuation gets whether the user let it finish, and the bytes still to read.\<close>

function SkipArchive :: "strarc \<Rightarrow> int \<Rightarrow> (strarc \<Rightarrow> bool \<Rightarrow> int \<Rightarrow> arc) \<Rightarrow> arc" where
  "SkipArchive s BytesToRead k =
    (if BytesToRead \<le> 0 then k s True BytesToRead
     else
       Sys YieldSingleProcessor (\<lambda>_.
       Sys Cancelled (\<lambda>c.
         if rv c \<noteq> 0 then k s False BytesToRead
         else
           ReadArchive s 0 (block_size s BytesToRead) (\<lambda>s n.
             if n = 0 then
               verbose s '', %.4g %s missing (%s:%u).'' [MI BytesToRead] (Exception s XE_ARCHIVE_TRUNC None)
             else SkipArchive s (BytesToRead - int n) k))))"
  by pat_completeness auto
termination by (relation "measure (\<lambda>(s, b, k). nat b)") auto

declare SkipArchive.simps [simp del]

text \<open>\<open>InitializeBuffer\<close>: the block is zeroed by the system; a pointer of zero is no block.\<close>

definition InitializeBuffer :: "strarc \<Rightarrow> (strarc \<Rightarrow> XError \<Rightarrow> arc) \<Rightarrow> arc" where
  "InitializeBuffer s k =
    (if dwBufferSize s < 65536 then k s XE_BAD_BUFFER
     else
       Sys (Session (LocalAlloc (dwBufferSize s))) (\<lambda>r.
         if rv r = 0 then k s XE_NOT_ENOUGH_MEMORY
         else k (s\<lparr>Buffer := replicate (dwBufferSize s) 0\<rparr>) XE_NOERROR))"

definition IsInitialized :: "strarc \<Rightarrow> bool" where
  "IsInitialized s \<longleftrightarrow> hArchive s \<noteq> 0 \<and> Buffer s \<noteq> [] \<and> RootDirectory s \<noteq> 0"

section \<open>A world with an archive\<close>

text \<open>
  What is left of the archive to read, what has been written to it, the names that the
  program has turned into text for its listing, what \<open>BackupRead\<close> still gives of the
  file that is read, and what \<open>BackupWrite\<close> has been given. A read gives some of what is
  left, at least a byte while there is one, and a write takes at least a byte;
  \<open>BackupWrite\<close> does not fail; the archive file can be opened, with this handle, or not,
  and is none of the standard streams; the user cancels nothing; every other call may
  answer anything.
\<close>

record archive =
  rest :: "byte list"
  written :: "byte list"
  listed :: "wide list"
  source :: "byte list"
  restored :: "byte list"

definition archive_world :: "int \<Rightarrow> (archive, arc_call, arc_reply) world" where
  "archive_world h w c r w' \<longleftrightarrow>
    (case c of
       ReadFile h' n \<Rightarrow>
         if h' = h then
           rv r \<noteq> 0 \<and> length (out r) \<le> n \<and> (out r = [] \<longrightarrow> rest w = [] \<or> n = 0) \<and>
           out r @ rest w' = rest w \<and> w' = w\<lparr>rest := rest w'\<rparr>
         else w' = w
     | WriteFile h' bs \<Rightarrow>
         if h' = h then
           rv r \<noteq> 0 \<and> 0 \<le> num r \<and> num r \<le> int (length bs) \<and> (num r = 0 \<longrightarrow> bs = []) \<and>
           w' = w\<lparr>written := written w @ take (nat (num r)) bs\<rparr>
         else w' = w
     | Cancelled \<Rightarrow> rv r = 0 \<and> w' = w
     | Backup (RtlUnicodeStringToOemString name) \<Rightarrow> w' = w\<lparr>listed := listed w @ [name]\<rparr>
     | Backup (BackupRead f n security) \<Rightarrow>
         rv r \<noteq> 0 \<and> length (out r) \<le> n \<and> (out r = [] \<longrightarrow> source w = [] \<or> n = 0) \<and>
         out r @ source w' = source w \<and> w' = w\<lparr>source := source w'\<rparr>
     | Backup (BackupWrite f bs security) \<Rightarrow> rv r \<noteq> 0 \<and> w' = w\<lparr>restored := restored w @ bs\<rparr>
     | Session (GetStdHandle std) \<Rightarrow> rv r \<noteq> h \<and> w' = w
     | Session (OpenArchiveFile name a sh d) \<Rightarrow> (rv r = h \<or> rv r = invalid_handle) \<and> w' = w
     | _ \<Rightarrow> w' = w)"

lemma archive_world_simps:
  "archive_world h w (ReadFile h n) r w' \<longleftrightarrow>
    rv r \<noteq> 0 \<and> length (out r) \<le> n \<and> (out r = [] \<longrightarrow> rest w = [] \<or> n = 0) \<and>
    out r @ rest w' = rest w \<and> w' = w\<lparr>rest := rest w'\<rparr>"
  "archive_world h w (WriteFile h bs) r w' \<longleftrightarrow>
    rv r \<noteq> 0 \<and> 0 \<le> num r \<and> num r \<le> int (length bs) \<and> (num r = 0 \<longrightarrow> bs = []) \<and>
    w' = w\<lparr>written := written w @ take (nat (num r)) bs\<rparr>"
  "archive_world h w Cancelled r w' \<longleftrightarrow> rv r = 0 \<and> w' = w"
  "archive_world h w YieldSingleProcessor r w' \<longleftrightarrow> w' = w"
  "archive_world h w (Backup (BackupRead f n security)) r w' \<longleftrightarrow>
    rv r \<noteq> 0 \<and> length (out r) \<le> n \<and> (out r = [] \<longrightarrow> source w = [] \<or> n = 0) \<and>
    out r @ source w' = source w \<and> w' = w\<lparr>source := source w'\<rparr>"
  "archive_world h w (Backup (BackupWrite f bs security)) r w' \<longleftrightarrow>
    rv r \<noteq> 0 \<and> w' = w\<lparr>restored := restored w @ bs\<rparr>"
  "archive_world h w (Session (GetStdHandle std)) r w' \<longleftrightarrow> rv r \<noteq> h \<and> w' = w"
  "archive_world h w (Session (OpenArchiveFile name a sh d)) r w' \<longleftrightarrow>
    (rv r = h \<or> rv r = invalid_handle) \<and> w' = w"
  by (simp_all add: archive_world_def)

text \<open>
  The calls that leave this world alone. The rules below go backwards through a program,
  one for each routine, as its use in a larger proof needs it.
\<close>

definition plain_call :: "arc_call \<Rightarrow> bool" where
  "plain_call c \<longleftrightarrow>
    (case c of ReadFile _ _ \<Rightarrow> False | WriteFile _ _ \<Rightarrow> False | Cancelled \<Rightarrow> False
     | Backup (RtlUnicodeStringToOemString _) \<Rightarrow> False | Backup (BackupRead _ _ _) \<Rightarrow> False
     | Backup (BackupWrite _ _ _) \<Rightarrow> False
     | Session (GetStdHandle _) \<Rightarrow> False | Session (OpenArchiveFile _ _ _ _) \<Rightarrow> False | _ \<Rightarrow> True)"

lemma wp_plain:
  "plain_call c \<Longrightarrow> (\<And>r. wp (archive_world h) Q w (k r)) \<Longrightarrow> wp (archive_world h) Q w (Sys c k)"
  by (cases c) (auto simp: archive_world_def plain_call_def split: backup_call.splits session_call.splits)

lemma archive_world_plain: "plain_call c \<Longrightarrow> archive_world h w c r w' \<longleftrightarrow> w' = w"
  by (cases c) (auto simp: archive_world_def plain_call_def split: backup_call.splits session_call.splits)

lemmas archive_simps = archive_world_plain plain_call_def archive_world_simps

lemma wp_list_call:
  "(\<And>r. wp (archive_world h) Q (w\<lparr>listed := listed w @ [name]\<rparr>) (k r)) \<Longrightarrow>
    wp (archive_world h) Q w (Sys (Backup (RtlUnicodeStringToOemString name)) k)"
  by (simp add: archive_world_def)

lemma wp_GetStdHandle:
  "(\<And>r. rv r \<noteq> h \<Longrightarrow> wp (archive_world h) Q w (k r)) \<Longrightarrow>
    wp (archive_world h) Q w (Sys (Session (GetStdHandle std)) k)"
  by (simp add: archive_world_simps)

lemma wp_WriteFile_elsewhere:
  "h' \<noteq> h \<Longrightarrow> (\<And>r. wp (archive_world h) Q w (k r)) \<Longrightarrow> wp (archive_world h) Q w (Sys (WriteFile h' bs) k)"
  by (simp add: archive_world_def)

lemma wp_Cancelled:
  "(\<And>r. rv r = 0 \<Longrightarrow> wp (archive_world h) Q w (k r)) \<Longrightarrow> wp (archive_world h) Q w (Sys Cancelled k)"
  by (simp add: archive_world_def)

lemma wp_say [wp_rules]:
  "wp (archive_world h) Q w k \<Longrightarrow> wp (archive_world h) Q w (say f args k)"
  by (simp add: say_def archive_world_def)

lemma wp_verbose [wp_rules]:
  "wp (archive_world h) Q w k \<Longrightarrow> wp (archive_world h) Q w (verbose s f args k)"
  by (simp add: verbose_def wp_say)

lemma wp_complain [wp_rules]:
  "wp (archive_world h) Q w k \<Longrightarrow> wp (archive_world h) Q w (complain f args k)"
  by (simp add: complain_def archive_world_def)

lemma world_eqI:
  "rest w = rest w' \<Longrightarrow> written w = written w' \<Longrightarrow> listed w = listed w' \<Longrightarrow> source w = source w' \<Longrightarrow>
    restored w = restored w' \<Longrightarrow> (w :: archive) = w'"
  by simp

lemma rest_Nil: "rest w = [] \<Longrightarrow> w\<lparr>rest := []\<rparr> = (w :: archive)"
  by (rule world_eqI) simp_all

lemma wp_read_loop:
  assumes "hArchive s = h" and "pos + n \<le> length (Buffer s)"
    and "wp (archive_world h) Q (w\<lparr>rest := drop n (rest w)\<rparr>)
      (k (s\<lparr>Buffer := poke (Buffer s) pos (take n (rest w))\<rparr>) (got + min n (length (rest w))))"
  shows "wp (archive_world h) Q w (read_loop s pos n got k)"
  using assms
proof (induction n arbitrary: s pos got w rule: less_induct)
  case (less n)
  show ?case
  proof (cases "n = 0")
    case True
    with less.prems(3) show ?thesis by (simp add: read_loop.simps)
  next
    case False
    show ?thesis
    proof (subst read_loop.simps, simp only: False if_False, rule wp_Sys)
      fix r w'
      assume "archive_world h w (ReadFile (hArchive s) n) r w'"
      then have r: "rv r \<noteq> 0" "length (out r) \<le> n" "out r = [] \<longrightarrow> rest w = []"
        and w: "out r @ rest w' = rest w" "w' = w\<lparr>rest := rest w'\<rparr>"
        using less.prems(1) False by (auto simp: archive_world_def)
      show "wp (archive_world h) Q w'
        (if rv r = 0 then
           Sys GetLastError (\<lambda>e. if err e \<in> set end_errors then k s got else Exception s XE_ARCHIVE_IO None)
         else if out r = [] then k s got
         else if length (out r) > n \<or> pos + length (out r) > length (Buffer s) then Crash
         else
           read_loop (s\<lparr>Buffer := poke (Buffer s) pos (out r)\<rparr>) (pos + length (out r)) (n - length (out r))
             (got + length (out r)) k)"
      proof (cases "out r = []")
        case True
        with r(3) w have e: "rest w = []" "w' = w" by (auto intro: world_eqI)
        then have "w\<lparr>rest := []\<rparr> = w" by (simp add: rest_Nil)
        with less.prems(3) r True e show ?thesis by simp
      next
        case False
        let ?d = "out r" and ?s = "s\<lparr>Buffer := poke (Buffer s) pos (out r)\<rparr>"
        have fits: "pos + length ?d \<le> length (Buffer s)" using r(2) less.prems(2) by simp
        have split: "take n (rest w) = ?d @ take (n - length ?d) (rest w')"
          "drop n (rest w) = drop (n - length ?d) (rest w')"
          "min n (length (rest w)) = length ?d + min (n - length ?d) (length (rest w'))"
          using r(2) by (simp_all flip: w(1))
        have "wp (archive_world h) Q w' (read_loop ?s (pos + length ?d) (n - length ?d) (got + length ?d) k)"
        proof (rule less.IH)
          show "n - length ?d < n" using False \<open>n \<noteq> 0\<close> by (cases ?d) auto
          show "hArchive ?s = h" using less.prems(1) by simp
          show "pos + length ?d + (n - length ?d) \<le> length (Buffer ?s)"
            using r(2) less.prems(2) fits by simp
          have "w'\<lparr>rest := drop (n - length ?d) (rest w')\<rparr> = w\<lparr>rest := drop n (rest w)\<rparr>"
            using w(2) split(2) by (metis archive.surjective archive.update_convs(1))
          moreover have "?s\<lparr>Buffer := poke (Buffer ?s) (pos + length ?d) (take (n - length ?d) (rest w'))\<rparr>
              = s\<lparr>Buffer := poke (Buffer s) pos (take n (rest w))\<rparr>"
            using fits by (simp add: poke_poke_adjacent split(1))
          ultimately show "wp (archive_world h) Q (w'\<lparr>rest := drop (n - length ?d) (rest w')\<rparr>)
              (k (?s\<lparr>Buffer := poke (Buffer ?s) (pos + length ?d) (take (n - length ?d) (rest w'))\<rparr>)
                (got + length ?d + min (n - length ?d) (length (rest w'))))"
            using less.prems(3) split(3) by (simp only: add.assoc)
        qed
        with r fits False show ?thesis by auto
      qed
    qed
  qed
qed

lemma wp_ReadArchive [wp_rules]:
  assumes "hArchive s = h" and "pos + n \<le> length (Buffer s)"
    and "wp (archive_world h) Q (w\<lparr>rest := drop n (rest w)\<rparr>)
      (k (s\<lparr>Buffer := poke (Buffer s) pos (take n (rest w))\<rparr>) (min n (length (rest w))))"
  shows "wp (archive_world h) Q w (ReadArchive s pos n k)"
  unfolding ReadArchive_def using assms by (intro wp_read_loop) simp_all

text \<open>What is to be written goes to the archive, whatever pieces it takes.\<close>

lemma wp_WriteArchive [wp_rules]:
  assumes "hArchive s = h" and "wp (archive_world h) Q (w\<lparr>written := written w @ d\<rparr>) k"
  shows "wp (archive_world h) Q w (WriteArchive s d k)"
  using assms
proof (induction d arbitrary: w rule: length_induct)
  case (1 d)
  show ?case
  proof (cases "d = []")
    case True
    with "1.prems"(2) show ?thesis by (simp add: WriteArchive.simps)
  next
    case False
    have IH: "length d' < length d \<Longrightarrow> wp (archive_world h) Q (w'\<lparr>written := written w' @ d'\<rparr>) k \<Longrightarrow>
        wp (archive_world h) Q w' (WriteArchive s d' k)" for d' w'
      using "1.IH" "1.prems"(1) by blast
    show ?thesis
    proof (subst WriteArchive.simps, simp only: False if_False, rule wp_Sys)
      fix r w'
      assume "archive_world h w (WriteFile (hArchive s) d) r w'"
      then have r: "rv r \<noteq> 0" "0 < num r" "num r \<le> int (length d)"
        and w: "w' = w\<lparr>written := written w @ take (nat (num r)) d\<rparr>"
        using "1.prems"(1) False by (auto simp: archive_world_simps order_le_less)
      have "wp (archive_world h) Q w' (WriteArchive s (drop (nat (num r)) d) k)"
        using r "1.prems"(2) w False by (intro IH) (auto simp: append_take_drop_id)
      with r show "wp (archive_world h) Q w'
        (if rv r = 0 then Exception s XE_ARCHIVE_IO None
         else if num r = 0 then
           verbose s ''Write of archive raised EOF condition.'' [] (Exception s XE_ARCHIVE_TRUNC None)
         else if num r < 0 \<or> num r > int (length d) then Crash
         else WriteArchive s (drop (nat (num r)) d) k)" by simp
    qed
  qed
qed

lemma wp_SkipArchive [wp_rules]:
  assumes "hArchive s = h" and "dwBufferSize s = length (Buffer s)" and "0 < dwBufferSize s" and "dwBufferSize s < 2 ^ 32"
    and "nat b \<le> length (rest w)"
    and "\<And>m. length m = length (Buffer s) \<Longrightarrow>
      wp (archive_world h) Q (w\<lparr>rest := drop (nat b) (rest w)\<rparr>) (k (s\<lparr>Buffer := m\<rparr>) True (min b 0))"
  shows "wp (archive_world h) Q w (SkipArchive s b k)"
  using assms
proof (induction "nat b" arbitrary: s b w rule: less_induct)
  case less
  show ?case
  proof (cases "b \<le> 0")
    case True
    with less.prems(6)[of "Buffer s"] show ?thesis by (simp add: SkipArchive.simps min_def)
  next
    case False
    have n: "block_size s b = (if b > int (dwBufferSize s) then dwBufferSize s else nat b)"
      using False less.prems(4) by (auto simp: block_size_def low_part_def)
    then have bounds: "0 < block_size s b" "block_size s b \<le> nat b" "block_size s b \<le> length (Buffer s)"
      using False less.prems(2,3) by (auto split: if_splits)
    let ?n = "block_size s b" and ?w = "w\<lparr>rest := drop (block_size s b) (rest w)\<rparr>"
    let ?s = "s\<lparr>Buffer := poke (Buffer s) 0 (take (block_size s b) (rest w))\<rparr>"
    have got: "min ?n (length (rest w)) = ?n" using bounds less.prems(5) by simp
    have "wp (archive_world h) Q ?w (SkipArchive ?s (b - int ?n) k)"
    proof (rule less.hyps)
      show "nat (b - int ?n) < nat b" using bounds by simp
      show "hArchive ?s = h" "0 < dwBufferSize ?s" "dwBufferSize ?s < 2 ^ 32" using less.prems by simp_all
      show "dwBufferSize ?s = length (Buffer ?s)" using less.prems(2) bounds got by simp
      show "nat (b - int ?n) \<le> length (rest ?w)" using less.prems(5) bounds by simp
      fix m :: "byte list" assume "length m = length (Buffer ?s)"
      then have m: "length m = length (Buffer s)" using bounds got by simp
      have "nat (b - int ?n) + ?n = nat b" using bounds by simp
      then have "drop (nat (b - int ?n)) (drop ?n (rest w)) = drop (nat b) (rest w)" by simp
      moreover have "min (b - int ?n) 0 = min b 0" using bounds False by (simp add: min_def) linarith
      ultimately have "min (b - int ?n) 0 = min b 0"
        "drop (nat (b - int ?n)) (drop ?n (rest w)) = drop (nat b) (rest w)" by simp_all
      with less.prems(6)[OF m]
      show "wp (archive_world h) Q (?w\<lparr>rest := drop (nat (b - int ?n)) (rest ?w)\<rparr>)
          (k (?s\<lparr>Buffer := m\<rparr>) True (min (b - int ?n) 0))" by simp
    qed
    with False bounds less.prems(1) got show ?thesis
      by (subst SkipArchive.simps) (auto simp: archive_world_def intro!: wp_ReadArchive)
  qed
qed

section \<open>The next file header\<close>

text \<open>The reference: the first place from which \<open>20\<close> bytes make a file header.\<close>

fun find_header :: "byte list \<Rightarrow> (byte list \<times> byte list) option" where
  "find_header [] = None"
| "find_header (x # d) =
    (if length (x # d) < 20 then None
     else if file_header_ok (take 20 (x # d)) then Some (take 20 (x # d), drop 20 (x # d))
     else find_header d)"

lemma find_header_short: "length d < 20 \<Longrightarrow> find_header d = None"
  by (cases d) simp_all

lemma find_header_here:
  "20 \<le> length d \<Longrightarrow> file_header_ok (take 20 d) \<Longrightarrow> find_header d = Some (take 20 d, drop 20 d)"
  by (cases d) simp_all

lemma find_header_skip:
  "20 \<le> length d \<Longrightarrow> \<not> file_header_ok (take 20 d) \<Longrightarrow> find_header d = find_header (tl d)"
  by (cases d) simp_all

lemma peek_take: "pos + n \<le> m \<Longrightarrow> peek (take m b) pos n = peek b pos n"
  by (simp add: peek_def drop_take min_def)

lemma file_header_ok_take: "file_header_ok (take 20 b) = file_header_ok b"
  by (simp add: file_header_ok_def dwStreamId_def dwStreamAttributes_def Size_QuadPart_def dwStreamNameSize_def peek_take)

lemma find_header_Some:
  "find_header d = Some (hdr, r) \<Longrightarrow>
    \<exists>p. d = p @ hdr @ r \<and> length hdr = 20 \<and> file_header_ok hdr \<and>
      (\<forall>i < length p. \<not> file_header_ok (drop i d))"
proof (induction d rule: find_header.induct)
  case (2 x d)
  show ?case
  proof (cases "file_header_ok (take 20 (x # d))")
    case True
    with 2 show ?thesis
      by (intro exI[of _ "[]"]) (auto split: if_splits)
  next
    case False
    with 2 obtain p where p: "d = p @ hdr @ r" "length hdr = 20" "file_header_ok hdr"
      "\<forall>i < length p. \<not> file_header_ok (drop i d)" by (auto split: if_splits)
    have "\<not> file_header_ok (drop i (x # d))" if "i < length (x # p)" for i
      using that p(4) False file_header_ok_take[of "x # d"] by (cases i) auto
    with p show ?thesis by (intro exI[of _ "x # p"]) simp
  qed
qed simp

lemma find_header_None:
  "find_header d = None \<Longrightarrow> i + 20 \<le> length d \<Longrightarrow> \<not> file_header_ok (drop i d)"
proof (induction d arbitrary: i rule: find_header.induct)
  case (2 x d)
  then show ?case
    using file_header_ok_take[of "x # d"] by (cases i) (auto split: if_splits)
qed simp

text \<open>What the continuations owe after a search in \<open>d\<close>: one for a header, one for none.\<close>

definition found_in :: "int \<Rightarrow> (archive \<Rightarrow> int \<Rightarrow> bool) \<Rightarrow> archive \<Rightarrow> strarc \<Rightarrow> byte list \<Rightarrow>
    (strarc \<Rightarrow> bool \<Rightarrow> arc) \<Rightarrow> bool" where
  "found_in h Q w s d k \<longleftrightarrow>
    (case find_header d of
       Some (hdr, r) \<Rightarrow>
         \<forall>m. length m = length (Buffer s) \<longrightarrow> take 20 m = hdr \<longrightarrow>
           wp (archive_world h) Q (w\<lparr>rest := r\<rparr>) (k (s\<lparr>Buffer := m\<rparr>) True)
     | None \<Rightarrow>
         \<forall>m. length m = length (Buffer s) \<longrightarrow>
           wp (archive_world h) Q (w\<lparr>rest := []\<rparr>) (k (s\<lparr>Buffer := m\<rparr>) False))"

lemma found_in_same:
  "length b = length (Buffer s) \<Longrightarrow>
    found_in h Q (w\<lparr>rest := x\<rparr>) (s\<lparr>Buffer := b\<rparr>) d k = found_in h Q w s d k"
  by (simp add: found_in_def split: option.split)

lemma shifted_window:
  assumes "20 \<le> length b"
  shows "length (poke (poke b 0 (peek b 1 19)) 19 [x]) = length b"
    "take 20 (poke (poke b 0 (peek b 1 19)) 19 [x]) = tl (take 20 b) @ [x]"
proof -
  have l: "length (peek b 1 19) = 19" using assms by simp
  have e: "poke (poke b 0 (peek b 1 19)) 19 [x] = poke b 0 (peek b 1 19 @ [x])"
    using poke_poke_adjacent[of 0 b "peek b 1 19" "[x]"] l by simp
  have "peek b 1 19 = tl (take 20 b)" by (simp add: peek_def tl_take drop_Suc)
  with assms l e show "length (poke (poke b 0 (peek b 1 19)) 19 [x]) = length b"
    "take 20 (poke (poke b 0 (peek b 1 19)) 19 [x]) = tl (take 20 b) @ [x]"
    by (simp_all add: poke_def)
qed

lemma wp_resync:
  assumes "hArchive s = h" and "20 \<le> length (Buffer s)" and "length (rest w) < fuel"
    and "found_in h Q w s (tl (take 20 (Buffer s)) @ rest w) k"
  shows "wp (archive_world h) Q w (resync fuel s k)"
  using assms
proof (induction fuel arbitrary: s w)
  case (Suc fuel)
  let ?b = "poke (Buffer s) 0 (peek (Buffer s) 1 (HEADER_SIZE - 1))"
  have lb: "length ?b = length (Buffer s)" "length (tl (take 20 (Buffer s))) = 19"
    using Suc.prems(2) by (simp_all add: HEADER_SIZE_def)
  show ?case
  proof (cases "rest w")
    case Nil
    then have "find_header (tl (take 20 (Buffer s)) @ rest w) = None"
      using lb by (simp add: find_header_short)
    then have "wp (archive_world h) Q (w\<lparr>rest := []\<rparr>) (k (s\<lparr>Buffer := ?b\<rparr>) False)"
      using Suc.prems(4) lb by (simp add: found_in_def)
    with Suc.prems(1) lb Suc.prems(2) Nil show ?thesis
      by (auto simp: archive_world_simps HEADER_SIZE_def intro!: wp_ReadArchive wp_say)
  next
    case (Cons x r)
    let ?m = "poke ?b 19 [x]" and ?w = "w\<lparr>rest := r\<rparr>"
    have m: "length ?m = length (Buffer s)" "take 20 ?m = tl (take 20 (Buffer s)) @ [x]"
      using shifted_window[OF Suc.prems(2), of x] by (simp_all add: HEADER_SIZE_def)
    let ?d = "tl (take 20 (Buffer s)) @ rest w"
    have d: "?d = take 20 ?m @ r" using m(2) Cons by simp
    have ok: "file_header_ok ?m = file_header_ok (take 20 ?d)"
      using file_header_ok_take[of ?m] m(2) lb Cons by simp
    have "wp (archive_world h) Q ?w
        (if file_header_ok ?m then k (s\<lparr>Buffer := ?m\<rparr>) True else resync fuel (s\<lparr>Buffer := ?m\<rparr>) k)"
    proof (cases "file_header_ok ?m")
      case True
      have "find_header ?d = Some (take 20 ?d, drop 20 ?d)"
        using True ok lb Cons by (intro find_header_here) simp_all
      moreover have "take 20 ?d = take 20 ?m" "drop 20 ?d = r" using m(2) lb Cons by simp_all
      ultimately have "find_header ?d = Some (take 20 ?m, r)" by simp
      with Suc.prems(4) m True show ?thesis by (simp add: found_in_def)
    next
      case False
      have "find_header ?d = find_header (tl ?d)"
        using False ok lb Cons by (intro find_header_skip) simp_all
      moreover have "tl ?d = tl (take 20 ?m) @ r"
        using d m(2) lb by (metis append_is_Nil_conv not_Cons_self2 tl_append2)
      ultimately have "found_in h Q w s (tl (take 20 ?m) @ r) k"
        using Suc.prems(4) by (simp add: found_in_def)
      then have "found_in h Q ?w (s\<lparr>Buffer := ?m\<rparr>) (tl (take 20 ?m) @ r) k"
        using found_in_same[OF m(1)] by blast
      moreover have "length (rest ?w) < fuel" using Suc.prems(3) Cons by simp
      ultimately show ?thesis
        using Suc.IH[of "s\<lparr>Buffer := ?m\<rparr>" ?w] Suc.prems(1,2) m(1) False by simp
    qed
    with Suc.prems(1,2) lb Cons show ?thesis
      by (auto simp: archive_world_simps HEADER_SIZE_def intro!: wp_ReadArchive)
  qed
qed simp

lemma wp_ReadNextFileHeader [wp_rules]:
  assumes "hArchive s = h" and "20 \<le> length (Buffer s)" and "length (rest w) < fuel"
    and "found_in h Q w s (rest w) k"
  shows "wp (archive_world h) Q w (ReadNextFileHeader fuel s k)"
proof -
  let ?d = "take 20 (rest w)"
  let ?b = "poke (Buffer s) 0 ?d" and ?w = "w\<lparr>rest := drop 20 (rest w)\<rparr>"
  have lb: "length ?b = length (Buffer s)" using assms(2) by simp
  show ?thesis
  proof (cases "length (rest w) < 20")
    case True
    with assms(4) lb have "wp (archive_world h) Q ?w (k (s\<lparr>Buffer := ?b\<rparr>) False)"
      by (simp add: found_in_def find_header_short)
    with True assms(1,2) show ?thesis
      unfolding ReadNextFileHeader_def HEADER_SIZE_def by (intro wp_ReadArchive) simp_all
  next
    case False
    then have t: "take 20 ?b = ?d" "length ?d = 20" by (simp_all add: poke_def)
    then have ok: "file_header_ok ?b = file_header_ok ?d" using file_header_ok_take[of ?b] by simp
    have "wp (archive_world h) Q ?w
        (if file_header_ok ?b then k (s\<lparr>Buffer := ?b\<rparr>) True else resync fuel (s\<lparr>Buffer := ?b\<rparr>) k)"
    proof (cases "file_header_ok ?b")
      case True
      have "find_header (rest w) = Some (?d, drop 20 (rest w))"
        using True ok False by (intro find_header_here) simp_all
      with assms(4) lb t True show ?thesis by (simp add: found_in_def)
    next
      case bad: False
      have "find_header (rest w) = find_header (tl (rest w))"
        using bad ok False by (intro find_header_skip) simp_all
      moreover have "tl (rest w) = tl ?d @ drop 20 (rest w)"
        using t(2) by (metis append_take_drop_id list.size(3) tl_append2 zero_neq_numeral)
      ultimately have "found_in h Q w s (tl ?d @ drop 20 (rest w)) k"
        using assms(4) by (simp only: found_in_def)
      then have "found_in h Q ?w (s\<lparr>Buffer := ?b\<rparr>) (tl ?d @ drop 20 (rest w)) k"
        using found_in_same[OF lb] by blast
      moreover have "length (rest ?w) < fuel" using assms(3) by simp
      ultimately show ?thesis
        using wp_resync[of "s\<lparr>Buffer := ?b\<rparr>" h ?w fuel] assms(1,2) lb t bad by simp
    qed
    with False assms(1,2) t show ?thesis
      unfolding ReadNextFileHeader_def HEADER_SIZE_def
      by (intro wp_ReadArchive) (simp_all add: wp_say split: if_splits)
  qed
qed

section \<open>Writing headers\<close>

text \<open>The four fields as the assignments to the header members leave them in memory.\<close>

definition stream_header :: "nat \<Rightarrow> nat \<Rightarrow> nat \<Rightarrow> nat \<Rightarrow> byte list" where
  "stream_header i attributes sz namesize =
    le_bytes 4 i @ le_bytes 4 attributes @ le_bytes 8 sz @ le_bytes 4 namesize"

definition put_header :: "byte list \<Rightarrow> nat \<Rightarrow> nat \<Rightarrow> nat \<Rightarrow> nat \<Rightarrow> byte list" where
  "put_header b i attributes sz namesize = poke b 0 (stream_header i attributes sz namesize)"

lemma length_stream_header [simp]: "length (stream_header i a sz n) = 20"
  by (simp add: stream_header_def)

lemma peek_append1: "pos + n \<le> length xs \<Longrightarrow> peek (xs @ ys) pos n = peek xs pos n"
  by (simp add: peek_def)

lemma peek_append2: "length xs \<le> pos \<Longrightarrow> peek (xs @ ys) pos n = peek ys (pos - length xs) n"
  by (simp add: peek_def)

lemma peek_all: "n = length xs \<Longrightarrow> peek xs 0 n = xs"
  by (simp add: peek_def)

lemma stream_header_fields:
  "dwStreamId (stream_header i a sz n @ x) = i mod 2 ^ 32"
  "dwStreamAttributes (stream_header i a sz n @ x) = a mod 2 ^ 32"
  "dwStreamNameSize (stream_header i a sz n @ x) = n mod 2 ^ 32"
  "le_nat (peek (stream_header i a sz n @ x) 8 8) = sz mod 2 ^ 64"
  by (simp_all add: dwStreamId_def dwStreamAttributes_def dwStreamNameSize_def stream_header_def
      peek_append1 peek_append2 peek_all le_nat_le_bytes del: le_bytes.simps)

lemma int64_id: "- (2 ^ 63) \<le> i \<Longrightarrow> i < 2 ^ 63 \<Longrightarrow> int64 i = i"
  by (simp add: int64_def)

lemma stream_header_size: "sz < 2 ^ 63 \<Longrightarrow> Size_QuadPart (stream_header i a sz n @ x) = int sz"
  unfolding Size_QuadPart_def stream_header_fields by (simp add: int64_id)

text \<open>Headers that a backup writes are found; headers of the streams behind them are not
  taken for one.\<close>

lemma file_header_ok_written:
  "sz = 52 \<or> sz = 78 \<Longrightarrow> even n \<Longrightarrow> 0 < n \<Longrightarrow> n \<le> 65535 \<Longrightarrow>
    file_header_ok (stream_header BACKUP_INVALID STRARC_MAGIC sz n @ x)"
  by (auto simp: file_header_ok_def stream_header_fields stream_header_size BACKUP_INVALID_def STRARC_MAGIC_def)

lemma stream_no_file_header:
  "0 < i \<Longrightarrow> i < 2 ^ 32 \<Longrightarrow> even n \<Longrightarrow> n < 2 ^ 32 \<Longrightarrow>
    \<not> IsNewFileHeader (stream_header i a sz n @ x) \<and> \<not> file_header_ok (stream_header i a sz n @ x)"
  by (auto simp: file_header_ok_def IsNewFileHeader_def stream_header_fields BACKUP_INVALID_def)

lemma file_header_new: "file_header_ok b \<Longrightarrow> IsNewFileHeader b"
  by (simp add: file_header_ok_def IsNewFileHeader_def)

section \<open>An archive on a tape\<close>

text \<open>
  A handler of this world: reads give at most seven bytes, writes take at most five, and
  every other call answers with zero.
\<close>

definition plain :: arc_reply where
  "plain = reply.extend ok
    \<lparr>wname = [], wshort = [], file_info = \<lparr>dwFileAttributes = 0, ftCreationTime = 0, ftLastAccessTime = 0,
       ftLastWriteTime = 0, dwVolumeSerialNumber = 0, nFileSizeHigh = 0, nFileSizeLow = 0,
       nNumberOfLinks = 1, nFileIndexHigh = 0, nFileIndexLow = 0\<rparr>,
     basic_info = no_basic_information, handle2 = 0\<rparr>"

definition tape :: "int \<Rightarrow> archive \<Rightarrow> arc_call \<Rightarrow> arc_reply \<times> archive" where
  "tape h w c =
    (case c of
       ReadFile h' n \<Rightarrow>
         if h' = h then (plain\<lparr>out := take (min 7 n) (rest w)\<rparr>, w\<lparr>rest := drop (min 7 n) (rest w)\<rparr>)
         else (plain, w)
     | WriteFile h' bs \<Rightarrow>
         if h' = h then (plain\<lparr>num := int (min 5 (length bs))\<rparr>, w\<lparr>written := written w @ take 5 bs\<rparr>)
         else (plain, w)
     | Cancelled \<Rightarrow> (plain\<lparr>rv := 0\<rparr>, w)
     | Backup (RtlUnicodeStringToOemString name) \<Rightarrow> (plain, w\<lparr>listed := listed w @ [name]\<rparr>)
     | Backup (BackupRead f n security) \<Rightarrow>
         (plain\<lparr>out := take (min 9 n) (source w)\<rparr>, w\<lparr>source := drop (min 9 n) (source w)\<rparr>)
     | Backup (BackupWrite f bs security) \<Rightarrow> (plain, w\<lparr>restored := restored w @ bs\<rparr>)
     | Session (OpenArchiveFile name a sh d) \<Rightarrow> (plain\<lparr>rv := h\<rparr>, w)
     | Session (GetStdHandle std) \<Rightarrow> (plain\<lparr>rv := h + 1\<rparr>, w)
     | _ \<Rightarrow> (plain, w))"

lemma rv_plain [simp]: "rv plain = 1"
  by (simp add: plain_def reply.defs ok_def)

interpretation tape: inhabitant "tape h" "archive_world h" for h
proof
  fix w c
  show "archive_world h w c (fst (tape h w c)) (snd (tape h w c))"
    by (cases c; auto simp: tape_def archive_world_def min_def split: backup_call.split session_call.split)
qed

section \<open>What the search finds\<close>

text \<open>
  C4. \<open>ReadNextFileHeader\<close> finds the first file header of what is left of the archive,
  however damaged the bytes before it are and in whatever pieces the reads come: its
  caller goes on with true, the header at the start of the buffer and the archive just
  behind it; without one it goes on with false at the end of the archive. It ends once
  the fuel is more than the bytes that are left.
\<close>

theorem ReadNextFileHeader_finds:
  assumes "20 \<le> length (Buffer s)" and "length (rest w) < fuel"
    and found: "\<And>p hdr r m. rest w = p @ hdr @ r \<Longrightarrow> length hdr = 20 \<Longrightarrow> file_header_ok hdr \<Longrightarrow>
      (\<forall>i < length p. \<not> file_header_ok (drop i (rest w))) \<Longrightarrow>
      length m = length (Buffer s) \<Longrightarrow> take 20 m = hdr \<Longrightarrow>
      wp (archive_world (hArchive s)) Q (w\<lparr>rest := r\<rparr>) (k (s\<lparr>Buffer := m\<rparr>) True)"
    and none: "\<And>m. (\<forall>i. i + 20 \<le> length (rest w) \<longrightarrow> \<not> file_header_ok (drop i (rest w))) \<Longrightarrow>
      length m = length (Buffer s) \<Longrightarrow>
      wp (archive_world (hArchive s)) Q (w\<lparr>rest := []\<rparr>) (k (s\<lparr>Buffer := m\<rparr>) False)"
  shows "wp (archive_world (hArchive s)) Q w (ReadNextFileHeader fuel s k)"
proof (rule wp_ReadNextFileHeader[OF refl assms(1,2)])
  show "found_in (hArchive s) Q w s (rest w) k"
  proof (cases "find_header (rest w)")
    case None
    with none find_header_None show ?thesis by (simp add: found_in_def)
  next
    case (Some hr)
    then obtain hdr r where "find_header (rest w) = Some (hdr, r)" by (cases hr) auto
    with found find_header_Some[of "rest w" hdr r] show ?thesis by (auto simp: found_in_def)
  qed
qed

definition small_session :: strarc where
  "small_session = Initialize\<lparr>hArchive := 5, Buffer := replicate 30 0\<rparr>"

definition damaged :: archive where
  "damaged = \<lparr>rest = [1, 2, 3] @ stream_header BACKUP_INVALID STRARC_MAGIC 52 6 @ [9, 9],
    written = [], listed = [], source = [], restored = []\<rparr>"

lemma damaged_positions:
  "drop 3 (rest damaged) = stream_header BACKUP_INVALID STRARC_MAGIC 52 6 @ [9, 9]"
  "file_header_ok (drop 3 (rest damaged))"
  "\<not> file_header_ok (drop 0 (rest damaged))"
  "\<not> file_header_ok (drop 1 (rest damaged))"
  "\<not> file_header_ok (drop 2 (rest damaged))"
proof -
  let ?hdr = "stream_header BACKUP_INVALID STRARC_MAGIC 52 6"
  show d: "drop 3 (rest damaged) = ?hdr @ [9, 9]" by (simp add: damaged_def)
  show "file_header_ok (drop 3 (rest damaged))" unfolding d by (rule file_header_ok_written) simp_all
  have "4 = Suc (Suc (Suc (Suc 0)))" by simp
  then have "le_bytes 4 0 = [0, 0, 0, 0]" by (simp only: le_bytes.simps div_0 semiring_1_class.of_nat_0)
  then obtain x where "?hdr = [0, 0, 0, 0] @ x" by (simp add: stream_header_def BACKUP_INVALID_def)
  then have "rest damaged = 1 # 2 # 3 # 0 # 0 # 0 # 0 # x @ [9, 9]" by (simp add: damaged_def)
  then have "dwStreamId (drop 0 (rest damaged)) \<noteq> 0" "dwStreamId (drop 1 (rest damaged)) \<noteq> 0"
    "dwStreamId (drop 2 (rest damaged)) \<noteq> 0"
    by (simp_all add: dwStreamId_def peek_def)
  then show "\<not> file_header_ok (drop 0 (rest damaged))" "\<not> file_header_ok (drop 1 (rest damaged))"
    "\<not> file_header_ok (drop 2 (rest damaged))" by (simp_all add: file_header_ok_def BACKUP_INVALID_def)
qed

theorem ReadNextFileHeader_finds_witness:
  "case interp (tape 5) damaged (ReadNextFileHeader 30 small_session (\<lambda>s b. Done (if b then 1 else 0))) of
     (n, w) \<Rightarrow> n = Some 1 \<and> rest w = [9, 9]"
proof -
  let ?Q = "\<lambda>w n. n = 1 \<and> rest w = [9, 9]"
  have h: "hArchive small_session = 5" by (simp add: small_session_def Initialize_def)
  have "wp (archive_world (hArchive small_session)) ?Q damaged
    (ReadNextFileHeader 30 small_session (\<lambda>s b. Done (if b then 1 else 0)))"
  proof (rule ReadNextFileHeader_finds)
    show "20 \<le> length (Buffer small_session)" by (simp add: small_session_def)
    show "length (rest damaged) < 30" by (simp add: damaged_def)
  next
    fix p hdr r and m :: "byte list"
    assume p: "rest damaged = p @ hdr @ r" "length hdr = 20" "file_header_ok hdr"
      and early: "\<forall>i < length p. \<not> file_header_ok (drop i (rest damaged))"
    have "file_header_ok (drop (length p) (rest damaged))"
      using p file_header_ok_take[of "hdr @ r"] by simp
    with damaged_positions(3-5) have "length p \<noteq> 0" "length p \<noteq> 1" "length p \<noteq> 2"
      by (metis)+
    moreover have "length p \<le> 3" using early damaged_positions(2) not_le_imp_less by blast
    ultimately have "length p = 3" by linarith
    with p(1) have "hdr @ r = drop 3 (rest damaged)" by simp
    with p(2) damaged_positions(1) have "r = [9, 9]"
      by (metis append_eq_append_conv length_stream_header)
    then show "wp (archive_world (hArchive small_session)) ?Q (damaged\<lparr>rest := r\<rparr>)
      (Done (if True then 1 else 0))" by simp
  next
    fix m :: "byte list"
    assume "\<forall>i. i + 20 \<le> length (rest damaged) \<longrightarrow> \<not> file_header_ok (drop i (rest damaged))"
    moreover have "3 + 20 \<le> length (rest damaged)" by (simp add: damaged_def)
    ultimately have False using damaged_positions(2) by blast
    then show "wp (archive_world (hArchive small_session)) ?Q
      (damaged\<lparr>rest := []\<rparr>) (Done (if False then 1 else 0))" ..
  qed
  from tape.wp_interp[OF this[unfolded h]] show ?thesis by (auto simp: case_prod_unfold)
qed

end
