(* ===== verification/LinkTrack.thy ===== *)
theory LinkTrack
  imports ArcStream
begin

text \<open>
  \<open>strarc/linktrack.hpp\<close> and \<open>StrArc::MatchLink\<close>: the table of the files with several
  names that a backup has seen, by which later names of a file become links to its
  first name.
\<close>

section \<open>Items\<close>

definition node_mask :: QWORD where "node_mask = 0x0000FFFFFFFFFFFF"

text \<open>The constructor keeps the record number only, without the sequence number above it.\<close>

definition link_item_of :: "wide \<Rightarrow> DWORD \<Rightarrow> QWORD \<Rightarrow> link_item" where
  "link_item_of Name volume NodeNumber =
    \<lparr>item_volume = volume, item_node = NodeNumber AND node_mask, item_name = Name\<rparr>"

definition Match :: "link_item \<Rightarrow> DWORD \<Rightarrow> QWORD \<Rightarrow> wide option" where
  "Match item volume NodeNumber =
    (if item_volume item = volume \<and> item_node item = NodeNumber AND node_mask then Some (item_name item) else None)"

text \<open>An item whose name finds no memory is given up but not released.\<close>

definition NewItem :: "wide \<Rightarrow> DWORD \<Rightarrow> QWORD \<Rightarrow> (link_item option \<Rightarrow> arc) \<Rightarrow> arc" where
  "NewItem Name volume NodeNumber k =
    Sys (Backup NewLinkItem) (\<lambda>p.
      if rv p = 0 then k None
      else
        Sys (Backup (AllocName (2 * length Name))) (\<lambda>b.
          if rv b = 0 then k None else k (Some (link_item_of Name volume NodeNumber))))"

section \<open>The table\<close>

definition slot :: "QWORD \<Rightarrow> nat" where
  "slot NodeNumber = unat (drop_bit 4 (NodeNumber AND 0xFF0))"

fun match_loop :: "link_item list \<Rightarrow> DWORD \<Rightarrow> QWORD \<Rightarrow> (wide option \<Rightarrow> arc) \<Rightarrow> arc" where
  "match_loop [] volume NodeNumber k = k None"
| "match_loop (item # items) volume NodeNumber k =
    Sys YieldSingleProcessor (\<lambda>_.
      case Match item volume NodeNumber of
        Some name \<Rightarrow> k (Some name)
      | None \<Rightarrow> match_loop items volume NodeNumber k)"

definition MatchLink :: "strarc \<Rightarrow> DWORD \<Rightarrow> QWORD \<Rightarrow> wide \<Rightarrow> (strarc \<Rightarrow> wide option \<Rightarrow> arc) \<Rightarrow> arc" where
  "MatchLink s volume NodeNumber Name k =
    match_loop (LinkTrackerItems s ! slot NodeNumber) volume NodeNumber (\<lambda>found.
      case found of
        Some name \<Rightarrow> k s (Some name)
      | None \<Rightarrow>
          NewItem Name volume NodeNumber (\<lambda>new.
            case new of
              None \<Rightarrow> Exception s XE_NOT_ENOUGH_MEMORY_FOR_LINK_TRACKER None
            | Some item \<Rightarrow>
                k (s\<lparr>LinkTrackerItems :=
                      (LinkTrackerItems s)[slot NodeNumber := item # LinkTrackerItems s ! slot NodeNumber]\<rparr>) None))"

section \<open>The table as a map\<close>

text \<open>The first match in a chain.\<close>

fun chain_lookup :: "link_item list \<Rightarrow> DWORD \<Rightarrow> QWORD \<Rightarrow> wide option" where
  "chain_lookup [] v n = None"
| "chain_lookup (i # is) v n = (case Match i v n of Some name \<Rightarrow> Some name | None \<Rightarrow> chain_lookup is v n)"

definition table_lookup :: "link_item list list \<Rightarrow> DWORD \<Rightarrow> QWORD \<Rightarrow> wide option" where
  "table_lookup t v n = chain_lookup (t ! slot n) v n"

definition table_add :: "DWORD \<Rightarrow> QWORD \<Rightarrow> wide \<Rightarrow> link_item list list \<Rightarrow> link_item list list" where
  "table_add v n name t = t[slot n := link_item_of name v n # t ! slot n]"

text \<open>What identifies a file: its volume and its record number.\<close>

definition file_key :: "DWORD \<times> QWORD \<Rightarrow> DWORD \<times> QWORD" where
  "file_key f = (fst f, snd f AND node_mask)"

text \<open>
  What the table is: \<open>256\<close> chains, each item in the chain of its number, no sequence
  numbers, and no file twice.
\<close>

definition item_key :: "link_item \<Rightarrow> DWORD \<times> QWORD" where
  "item_key i = (item_volume i, item_node i)"

definition table_ok :: "link_item list list \<Rightarrow> bool" where
  "table_ok t \<longleftrightarrow> length t = 256 \<and>
    (\<forall>c < 256. \<forall>i \<in> set (t ! c). slot (item_node i) = c \<and> item_node i AND node_mask = item_node i) \<and>
    distinct (map item_key (concat t))"

lemma slot_bound: "slot n < 256"
proof -
  have "drop_bit 4 (n AND 0xFF0) = drop_bit 4 n AND 0xFF" by (simp add: drop_bit_and)
  also have "\<dots> = take_bit 8 (drop_bit 4 n)"
    by (simp add: take_bit_eq_mask mask_eq_exp_minus_1)
  finally have "slot n = unat (take_bit 8 (drop_bit 4 n))" by (simp add: slot_def)
  also have "\<dots> = take_bit 8 (unat (drop_bit 4 n))" by (simp add: unsigned_take_bit_eq)
  also have "\<dots> < 2 ^ 8" by (rule take_bit_nat_less_exp)
  finally show ?thesis by simp
qed

lemma slot_masked: "slot (n AND node_mask) = slot n"
proof -
  have "(n AND node_mask) AND 0xFF0 = n AND (node_mask AND 0xFF0)" by (simp only: and.assoc)
  also have "node_mask AND (0xFF0 :: QWORD) = 0xFF0" by (simp add: node_mask_def)
  finally show ?thesis unfolding slot_def by (rule arg_cong)
qed

lemma mask_twice: "(n AND node_mask) AND node_mask = n AND node_mask"
  by (simp only: and.assoc and.idem)

lemma file_key_slot: "file_key (v, n) = file_key (v', n') \<Longrightarrow> slot n = slot n'"
  using slot_masked[of n] slot_masked[of n'] by (simp add: file_key_def)

lemma Match_new: "Match (link_item_of name v n) v' n' = (if file_key (v, n) = file_key (v', n') then Some name else None)"
  by (auto simp: Match_def link_item_of_def file_key_def)

lemma chain_lookup_None: "chain_lookup c v n = None \<longleftrightarrow> (v, n AND node_mask) \<notin> item_key ` set c"
  by (induction c) (auto simp: Match_def item_key_def split: option.splits if_splits)

lemma table_lookup_add:
  assumes "length t = 256"
  shows "table_lookup (table_add v n name t) v' n' =
    (if file_key (v, n) = file_key (v', n') then Some name else table_lookup t v' n')"
proof (cases "slot n = slot n'")
  case True
  with assms slot_bound[of n'] show ?thesis
    by (simp add: table_lookup_def table_add_def Match_new)
next
  case False
  with file_key_slot[of v n v' n'] show ?thesis by (auto simp: table_lookup_def table_add_def)
qed

text \<open>An item of the table lies in the chain in which its file is looked for.\<close>

lemma table_key_lookup:
  assumes "table_ok t" "(v, n AND node_mask) \<in> item_key ` set (concat t)"
  shows "table_lookup t v n \<noteq> None"
proof -
  from assms obtain c i where c: "c < 256" "i \<in> set (t ! c)" "item_key i = (v, n AND node_mask)"
    unfolding table_ok_def by (auto simp: in_set_conv_nth) metis
  with assms(1) have "slot (item_node i) = c" by (simp add: table_ok_def)
  with c(3) have "slot n = c" by (simp add: item_key_def slot_masked)
  with c show ?thesis
    using chain_lookup_None[of "t ! c" v n] by (auto simp: table_lookup_def rev_image_eqI)
qed

lemma mset_concat_update:
  "c < length t \<Longrightarrow> mset (concat (t[c := x # t ! c])) = add_mset x (mset (concat t))"
proof (induction t arbitrary: c)
  case (Cons y t)
  then show ?case by (cases c) simp_all
qed simp

lemma table_ok_add:
  assumes "table_ok t" "table_lookup t v n = None"
  shows "table_ok (table_add v n name t)"
proof -
  let ?i = "link_item_of name v n"
  have l: "length t = 256" using assms(1) by (simp add: table_ok_def)
  have "mset (map item_key (concat (table_add v n name t))) = mset (item_key ?i # map item_key (concat t))"
    using mset_concat_update[of "slot n" t ?i] slot_bound[of n] l by (simp add: table_add_def)
  moreover have "item_key ?i \<notin> set (map item_key (concat t))"
    using table_key_lookup[OF assms(1), of v n] assms(2) by (auto simp: item_key_def link_item_of_def)
  ultimately have "distinct (map item_key (concat (table_add v n name t)))"
    using assms(1) by (metis distinct.simps(2) mset_eq_imp_distinct_iff table_ok_def)
  moreover have "slot (item_node i) = c \<and> item_node i AND node_mask = item_node i"
    if "c < 256" "i \<in> set (table_add v n name t ! c)" for c i
    using that assms(1) l slot_bound[of n]
    by (auto simp: table_ok_def table_add_def nth_list_update link_item_of_def slot_masked mask_twice
        split: if_splits)
  ultimately show ?thesis using l by (simp add: table_ok_def table_add_def)
qed

lemma table_ok_empty: "table_ok (replicate 256 [])"
  by (simp add: table_ok_def concat_replicate_trivial)

lemma table_lookup_empty: "table_lookup (replicate 256 []) v n = None"
  using slot_bound[of n] by (simp add: table_lookup_def)

section \<open>Trackers\<close>

text \<open>
  The interface that the backup relies on: a tracker of files by their identity. Within
  it: a backup that looks every file up and adds those it does not find links each name
  to the first name of the same file.
\<close>

locale tracker =
  fixes lookup :: "'t \<Rightarrow> 'f \<Rightarrow> 'n option" and add :: "'f \<Rightarrow> 'n \<Rightarrow> 't \<Rightarrow> 't"
    and invar :: "'t \<Rightarrow> bool" and key :: "'f \<Rightarrow> 'k"
  assumes lookup_add: "invar t \<Longrightarrow> lookup (add f x t) g = (if key f = key g then Some x else lookup t g)"
    and lookup_key: "key f = key g \<Longrightarrow> lookup t f = lookup t g"
    and invar_add: "invar t \<Longrightarrow> lookup t f = None \<Longrightarrow> invar (add f x t)"
begin

fun links :: "'t \<Rightarrow> ('f \<times> 'n) list \<Rightarrow> 'n option list" where
  "links t [] = []"
| "links t ((f, x) # fs) =
    (case lookup t f of Some y \<Rightarrow> Some y # links t fs | None \<Rightarrow> None # links (add f x t) fs)"

text \<open>The name under which a file with this key comes first.\<close>

definition first_name :: "('f \<times> 'n) list \<Rightarrow> 'k \<Rightarrow> 'n option" where
  "first_name fs k = map_option snd (find (\<lambda>(f, x). key f = k) fs)"

lemma first_name_simps [simp]:
  "first_name [] k = None"
  "first_name ((f, x) # fs) k = (if key f = k then Some x else first_name fs k)"
  by (simp_all add: first_name_def)

lemma length_links [simp]: "length (links t fs) = length fs"
  by (induction t fs rule: links.induct) (auto split: option.split)

lemma links_nth:
  "invar t \<Longrightarrow> i < length fs \<Longrightarrow> links t fs ! i =
    (case lookup t (fst (fs ! i)) of Some y \<Rightarrow> Some y | None \<Rightarrow> first_name (take i fs) (key (fst (fs ! i))))"
proof (induction t fs arbitrary: i rule: links.induct)
  case (2 t f x fs)
  show ?case
  proof (cases i)
    case 0
    then show ?thesis by (simp split: option.split)
  next
    case (Suc j)
    let ?g = "fst (fs ! j)"
    from Suc "2.prems" have j: "j < length fs" by simp
    show ?thesis
    proof (cases "lookup t f")
      case (Some y)
      with lookup_key[of f ?g t] have "lookup t ?g = None \<Longrightarrow> key f \<noteq> key ?g" by auto
      with "2.IH"(2)[OF Some "2.prems"(1) j] Suc Some show ?thesis by (auto split: option.split)
    next
      case None
      have "lookup t ?g \<noteq> None \<Longrightarrow> key f \<noteq> key ?g" using None lookup_key[of f ?g t] by auto
      with "2.IH"(1)[OF None invar_add[OF "2.prems"(1) None] j] Suc None lookup_add[OF "2.prems"(1), of f x ?g]
      show ?thesis by (auto split: option.split)
    qed
  qed
qed simp

end

interpretation links: tracker
  "\<lambda>t f. table_lookup t (fst f) (snd f)" "\<lambda>f x. table_add (fst f) (snd f) x" table_ok file_key
proof
  fix t f x g k
  show "table_ok t \<Longrightarrow> table_lookup (table_add (fst f) (snd f) x t) (fst g) (snd g) =
      (if file_key f = file_key g then Some x else table_lookup t (fst g) (snd g))"
    by (simp add: table_ok_def table_lookup_add)
  show "table_ok t \<Longrightarrow> table_lookup t (fst f) (snd f) = None \<Longrightarrow> table_ok (table_add (fst f) (snd f) x t)"
    by (rule table_ok_add)
next
  fix f g :: "DWORD \<times> QWORD" and t
  assume "file_key f = file_key g"
  moreover from this have "slot (snd f) = slot (snd g)"
    using file_key_slot[of "fst f" "snd f" "fst g" "snd g"] by simp
  moreover have "chain_lookup c (fst f) (snd f) = chain_lookup c (fst g) (snd g)"
    if "file_key f = file_key g" for c
    using that by (induction c) (simp_all add: Match_def file_key_def)
  ultimately show "table_lookup t (fst f) (snd f) = table_lookup t (fst g) (snd g)"
    by (simp add: table_lookup_def)
qed

section \<open>What \<open>MatchLink\<close> does\<close>

text \<open>Environments that always have memory for an item.\<close>

definition memory_world :: "('w, arc_call, arc_reply) world" where
  "memory_world w c r w' \<longleftrightarrow>
    w' = w \<and> (c = Backup NewLinkItem \<or> (\<exists>n. c = Backup (AllocName n)) \<longrightarrow> rv r \<noteq> 0)"

lemma wp_match_loop:
  "wp memory_world Q w (k (chain_lookup c v n)) \<Longrightarrow> wp memory_world Q w (match_loop c v n k)"
  by (induction c) (auto simp: memory_world_def split: option.splits)

lemma wp_MatchLink:
  assumes "case table_lookup (LinkTrackerItems s) v n of
      Some l \<Rightarrow> wp memory_world Q w (k s (Some l))
    | None \<Rightarrow> wp memory_world Q w (k (s\<lparr>LinkTrackerItems := table_add v n name (LinkTrackerItems s)\<rparr>) None)"
  shows "wp memory_world Q w (MatchLink s v n name k)"
  unfolding MatchLink_def
  using assms
  by (intro wp_match_loop) (auto simp: table_lookup_def table_add_def NewItem_def memory_world_def split: option.splits)

text \<open>
  C13. \<open>MatchLink\<close> keeps the table of links well formed: \<open>256\<close> chains, every item in the
  chain of its number, no sequence numbers, no file twice; and it changes nothing else of
  the session.
\<close>

theorem MatchLink_keeps_table:
  assumes "table_ok (LinkTrackerItems s)"
    and "\<And>s' x. table_ok (LinkTrackerItems s') \<Longrightarrow> s' = s\<lparr>LinkTrackerItems := LinkTrackerItems s'\<rparr> \<Longrightarrow>
      wp memory_world Q w (k s' x)"
  shows "wp memory_world Q w (MatchLink s v n name k)"
proof (rule wp_MatchLink)
  show "case table_lookup (LinkTrackerItems s) v n of
      Some l \<Rightarrow> wp memory_world Q w (k s (Some l))
    | None \<Rightarrow> wp memory_world Q w (k (s\<lparr>LinkTrackerItems := table_add v n name (LinkTrackerItems s)\<rparr>) None)"
    using assms(2)[of s] assms(2)[of "s\<lparr>LinkTrackerItems := table_add v n name (LinkTrackerItems s)\<rparr>"]
      assms(1) table_ok_add[OF assms(1)] by (auto split: option.split)
qed

theorem MatchLink_keeps_table_witness:
  "wp memory_world (\<lambda>w m. m = 1) () (MatchLink Initialize 7 0x1000000000012 [dot]
    (\<lambda>s x. Done (if table_ok (LinkTrackerItems s) then 1 else 0)))"
proof (rule MatchLink_keeps_table)
  show "table_ok (LinkTrackerItems Initialize)"
    by (simp add: Initialize_def table_ok_empty)
qed simp

text \<open>A backup asks for every name in turn.\<close>

fun match_all :: "strarc \<Rightarrow> ((DWORD \<times> QWORD) \<times> wide) list \<Rightarrow> (strarc \<Rightarrow> wide option list \<Rightarrow> arc) \<Rightarrow> arc" where
  "match_all s [] k = k s []"
| "match_all s ((f, name) # fs) k =
    MatchLink s (fst f) (snd f) name (\<lambda>s x. match_all s fs (\<lambda>s xs. k s (x # xs)))"

lemma wp_match_all:
  "table_ok (LinkTrackerItems s) \<Longrightarrow> (\<And>s'. wp memory_world Q w (k s' (links.links (LinkTrackerItems s) fs))) \<Longrightarrow>
    wp memory_world Q w (match_all s fs k)"
proof (induction s fs k rule: match_all.induct)
  case (2 s f name fs k)
  show ?case
    unfolding match_all.simps
  proof (rule wp_MatchLink)
    show "case table_lookup (LinkTrackerItems s) (fst f) (snd f) of
        Some l \<Rightarrow> wp memory_world Q w (match_all s fs (\<lambda>s xs. k s (Some l # xs)))
      | None \<Rightarrow> wp memory_world Q w
          (match_all (s\<lparr>LinkTrackerItems := table_add (fst f) (snd f) name (LinkTrackerItems s)\<rparr>) fs
            (\<lambda>s xs. k s (None # xs)))"
      using "2.IH" "2.prems" table_ok_add[OF "2.prems"(1), of "fst f" "snd f" name]
      by (auto split: option.splits)
  qed
qed simp

text \<open>
  C7. Hard links are archived to the right file: starting with an empty table, the names
  of a backup, asked for in order, get as their link the first earlier name of a file
  with the same volume and the same record number (the low \<open>48\<close> bits of its index), and
  none if there is no such name.
\<close>

theorem links_resolve:
  assumes "LinkTrackerItems s = replicate 256 []"
    and "\<And>s' xs. length xs = length fs \<Longrightarrow>
      (\<forall>i < length fs. xs ! i =
        map_option snd (find (\<lambda>(f, x). file_key f = file_key (fst (fs ! i))) (take i fs))) \<Longrightarrow>
      wp memory_world Q w (k s' xs)"
  shows "wp memory_world Q w (match_all s fs k)"
proof (rule wp_match_all)
  show "table_ok (LinkTrackerItems s)" by (simp add: assms(1) table_ok_empty)
  then show "wp memory_world Q w (k s' (links.links (LinkTrackerItems s) fs))" for s'
    using links.links_nth[of "LinkTrackerItems s" _ fs]
    by (intro assms(2)) (simp_all add: links.first_name_def assms(1) table_lookup_empty)
qed

theorem links_resolve_witness:
  "wp memory_world (\<lambda>w m. m = 1) () (match_all Initialize
    [((7, 0x1000000000012), [dot]), ((7, 0x13), [dot, dot]), ((7, 0x2000000000012), [dot, dot, dot])]
    (\<lambda>s xs. Done (if xs ! 2 = Some [dot] \<and> xs ! 1 = None then 1 else 0)))"
proof (rule links_resolve)
  show "LinkTrackerItems Initialize = replicate 256 []" by (simp add: Initialize_def)
next
  let ?fs = "[((7 :: DWORD, 0x1000000000012 :: QWORD), [dot]), ((7, 0x13), [dot, dot]),
    ((7, 0x2000000000012), [dot, dot, dot])]"
  fix s' :: strarc and xs :: "wide option list"
  assume "\<forall>i < length ?fs. xs ! i =
    map_option snd (find (\<lambda>(f, x). file_key f = file_key (fst (?fs ! i))) (take i ?fs))"
  then have "xs ! 2 = Some [dot]" "xs ! 1 = None" by (simp_all add: file_key_def node_mask_def)
  then show "wp memory_world (\<lambda>w m. m = 1) () (Done (if xs ! 2 = Some [dot] \<and> xs ! 1 = None then 1 else 0))"
    by simp
qed

end
