(* ===== verification/Tokens.thy ===== *)
theory Tokens
  imports Prelude
begin

text \<open>
  Lists of strings as the file tools keep them: one block of memory in which \<open>strtok\<close> or
  \<open>wcstok\<close> has put a zero behind each item, and a count; and the search for such strings
  in a path without regard to case.
\<close>

section \<open>Tokenising in place\<close>

text \<open>
  The memory and the number of items that repeated calls find, from a place on: the
  separators before an item stay, the one behind it becomes a zero. The block ends with a
  zero that is not written here.
\<close>

function tok_run :: "('a \<Rightarrow> bool) \<Rightarrow> 'a \<Rightarrow> 'a list \<Rightarrow> 'a list \<times> nat" where
  "tok_run sep nul xs =
    (let seps = takeWhile sep xs; ys = dropWhile sep xs;
         item = takeWhile (\<lambda>c. \<not> sep c) ys; zs = dropWhile (\<lambda>c. \<not> sep c) ys
     in if ys = [] then (seps, 0)
        else if zs = [] then (seps @ item, 1)
        else (let (m, n) = tok_run sep nul (tl zs) in (seps @ item @ nul # m, Suc n)))"
  by pat_completeness auto
termination
proof (relation "measure (\<lambda>(sep, nul, xs). length xs)", goal_cases)
  case (2 sep nul xs seps ys item zs)
  then have "zs \<noteq> []" "length zs \<le> length xs"
    by (simp_all add: le_trans[OF length_dropWhile_le length_dropWhile_le])
  then show ?case by (cases zs) simp_all
qed simp

declare tok_run.simps [simp del]

text \<open>The pointer to the first item, if there is one, and the count that starts with one.\<close>

definition tokenize :: "('a \<Rightarrow> bool) \<Rightarrow> 'a \<Rightarrow> 'a list \<Rightarrow> 'a list option \<times> nat" where
  "tokenize sep nul xs =
    (let ys = dropWhile sep xs in
     if ys = [] then (None, 1) else (case tok_run sep nul ys of (m, n) \<Rightarrow> (Some m, n)))"

text \<open>Walking over \<open>n\<close> strings of the block.\<close>

primrec block_strings :: "'a \<Rightarrow> nat \<Rightarrow> 'a list \<Rightarrow> 'a list list" where
  "block_strings nul 0 p = []"
| "block_strings nul (Suc n) p =
    (let s = takeWhile (\<lambda>c. c \<noteq> nul) p in s # block_strings nul n (drop (Suc (length s)) p))"

section \<open>Searching\<close>

text \<open>Whether \<open>strnicmp\<close> finds the first \<open>n\<close> characters equal; a zero ends both.\<close>

fun nicmp_eq :: "('a \<Rightarrow> 'b) \<Rightarrow> 'a \<Rightarrow> nat \<Rightarrow> 'a list \<Rightarrow> 'a list \<Rightarrow> bool" where
  "nicmp_eq fld nul 0 a b = True"
| "nicmp_eq fld nul (Suc n) (x # a) (y # b) =
    (fld x = fld y \<and> (x = nul \<or> nicmp_eq fld nul n a b))"
| "nicmp_eq fld nul (Suc n) _ _ = False"

text \<open>The string at every place of the path from which it fits.\<close>

fun occurs :: "('a \<Rightarrow> 'b) \<Rightarrow> 'a \<Rightarrow> 'a list \<Rightarrow> 'a list \<Rightarrow> bool" where
  "occurs fld nul s [] = (s = [])"
| "occurs fld nul s (c # path) =
    (if length s \<le> length (c # path) then
       (if nicmp_eq fld nul (length s) (c # path) s then True else occurs fld nul s path)
     else False)"

section \<open>Lists of items\<close>

text \<open>An argument that is a list of items: none empty, none with a separator or a zero.\<close>

definition item_ok :: "('a \<Rightarrow> bool) \<Rightarrow> 'a \<Rightarrow> 'a list \<Rightarrow> bool" where
  "item_ok sep nul x \<longleftrightarrow> x \<noteq> [] \<and> (\<forall>c \<in> set x. \<not> sep c \<and> c \<noteq> nul)"

fun join_items :: "'a \<Rightarrow> 'a list list \<Rightarrow> 'a list" where
  "join_items c [] = []"
| "join_items c [x] = x"
| "join_items c (x # xs) = x @ c # join_items c xs"

fun joined_memory :: "'a \<Rightarrow> 'a list list \<Rightarrow> 'a list" where
  "joined_memory nul [] = []"
| "joined_memory nul [x] = x"
| "joined_memory nul (x # xs) = x @ nul # joined_memory nul xs"

lemma takeWhile_item: "item_ok sep nul x \<Longrightarrow> sep c \<Longrightarrow> takeWhile (\<lambda>c. \<not> sep c) (x @ c # ys) = x"
  by (subst takeWhile_append2) (auto simp: item_ok_def)

lemma dropWhile_item: "item_ok sep nul x \<Longrightarrow> sep c \<Longrightarrow> dropWhile (\<lambda>c. \<not> sep c) (x @ c # ys) = c # ys"
  by (subst dropWhile_append2) (auto simp: item_ok_def)

lemma item_ok_hd: "item_ok sep nul x \<Longrightarrow> takeWhile sep (x @ ys) = [] \<and> dropWhile sep (x @ ys) = x @ ys"
  by (cases x) (auto simp: item_ok_def)

lemma tok_run_join:
  "xs \<noteq> [] \<Longrightarrow> \<forall>x \<in> set xs. item_ok sep nul x \<Longrightarrow> sep c \<Longrightarrow>
    tok_run sep nul (join_items c xs) = (joined_memory nul xs, length xs)"
proof (induction c xs rule: join_items.induct)
  case (2 c x)
  then have "item_ok sep nul x" by simp
  with item_ok_hd[of sep nul x "[]"] show ?case
    by (subst tok_run.simps) (auto simp: item_ok_def takeWhile_eq_all_conv[THEN iffD2])
next
  case (3 c x y ys)
  then have x: "item_ok sep nul x" by simp
  have "tok_run sep nul (join_items c (y # ys)) = (joined_memory nul (y # ys), length (y # ys))"
    using 3 by simp
  moreover have "x \<noteq> []" using x by (simp add: item_ok_def)
  ultimately show ?case
    using item_ok_hd[OF x, of "c # join_items c (y # ys)"] takeWhile_item[OF x 3(4)] dropWhile_item[OF x 3(4)]
    by (subst tok_run.simps) (simp add: Let_def)
qed simp

lemma tokenize_join:
  assumes "xs \<noteq> []" "\<forall>x \<in> set xs. item_ok sep nul x" "sep c"
  shows "tokenize sep nul (join_items c xs) = (Some (joined_memory nul xs), length xs)"
proof -
  obtain x ys where xs: "xs = x # ys" using assms(1) by (cases xs) auto
  obtain z where z: "join_items c xs = x @ z" unfolding xs by (cases ys) auto
  have "item_ok sep nul x" using assms(2) xs by simp
  with item_ok_hd[of sep nul x z] z have "dropWhile sep (join_items c xs) = join_items c xs"
    "join_items c xs \<noteq> []" by (auto simp: item_ok_def)
  with tok_run_join[OF assms] show ?thesis by (simp add: tokenize_def)
qed

lemma block_strings_join:
  "\<forall>x \<in> set xs. item_ok sep nul x \<Longrightarrow> block_strings nul (length xs) (joined_memory nul xs) = xs"
proof (induction nul xs rule: joined_memory.induct)
  case (2 nul x)
  then have "takeWhile (\<lambda>c. c \<noteq> nul) x = x" by (auto simp: item_ok_def takeWhile_eq_all_conv)
  then show ?case by simp
next
  case (3 nul x y ys)
  then have "takeWhile (\<lambda>c. c \<noteq> nul) (x @ nul # z) = x" for z
    by (subst takeWhile_append2) (auto simp: item_ok_def)
  with 3 show ?case by simp
qed simp

lemma nicmp_eq_iff:
  "nul \<notin> set b \<Longrightarrow> (\<And>x. fld x = fld nul \<Longrightarrow> x = nul) \<Longrightarrow> length b \<le> length a \<Longrightarrow>
    nicmp_eq fld nul (length b) a b \<longleftrightarrow> map fld (take (length b) a) = map fld b"
proof (induction b arbitrary: a)
  case (Cons y b)
  then obtain x a' where a: "a = x # a'" by (cases a) auto
  have "x = nul \<Longrightarrow> fld x \<noteq> fld y" using Cons.prems(1,2) by (metis list.set_intros(1))
  with a Cons show ?case by auto
qed simp

text \<open>A string occurs in a path if some part of the path is equal to it but for case.\<close>

lemma occurs_iff:
  "nul \<notin> set s \<Longrightarrow> (\<And>x. fld x = fld nul \<Longrightarrow> x = nul) \<Longrightarrow>
    occurs fld nul s path \<longleftrightarrow> (\<exists>a m b. path = a @ m @ b \<and> map fld m = map fld s)"
proof (induction path)
  case Nil
  then show ?case by auto
next
  case (Cons c path)
  have len: "\<exists>a m b. c # path = a @ m @ b \<and> map fld m = map fld s \<Longrightarrow> length s \<le> length (c # path)"
    by (auto dest!: arg_cong[of _ _ length])
  have step: "(\<exists>a m b. c # path = a @ m @ b \<and> map fld m = map fld s) \<longleftrightarrow>
      (\<exists>m b. c # path = m @ b \<and> map fld m = map fld s) \<or> (\<exists>a m b. path = a @ m @ b \<and> map fld m = map fld s)"
    (is "?L \<longleftrightarrow> ?A \<or> ?B")
  proof
    assume ?L
    then obtain a m b where e: "c # path = a @ m @ b" "map fld m = map fld s" by blast
    then show "?A \<or> ?B" by (cases a) auto
  next
    assume "?A \<or> ?B"
    then show ?L
    proof
      assume ?A then show ?L by (metis append_Nil)
    next
      assume ?B then show ?L by (metis append_Cons)
    qed
  qed
  have first: "(\<exists>m b. c # path = m @ b \<and> map fld m = map fld s) \<Longrightarrow> map fld (take (length s) (c # path)) = map fld s"
    by (metis append_eq_conv_conj length_map)
  show ?case
  proof (cases "length s \<le> length (c # path)")
    case True
    let ?A = "\<exists>m b. c # path = m @ b \<and> map fld m = map fld s"
    have "map fld (take (length s) (c # path)) = map fld s \<Longrightarrow> ?A"
      by (metis append_take_drop_id)
    with first nicmp_eq_iff[of nul s fld "c # path"] Cons.prems True
    have "nicmp_eq fld nul (length s) (c # path) s \<longleftrightarrow> ?A" by blast
    moreover have "occurs fld nul s (c # path) \<longleftrightarrow>
        nicmp_eq fld nul (length s) (c # path) s \<or> occurs fld nul s path"
      using True by simp
    ultimately show ?thesis by (simp only: Cons.IH[OF Cons.prems] step)
  next
    case False
    with len show ?thesis by auto
  qed
qed

end
