(* ===== verification/ArcFilter.thy ===== *)
theory ArcFilter
  imports ArcStream Tokens
begin

text \<open>
  Which files an archive holds: \<open>SetIncludeExcludeStrings\<close> and \<open>ExcludedString\<close> of
  \<open>strarc\<close>, and the names of the backup constants in \<open>constnam.cpp\<close>.
\<close>

section \<open>The strings\<close>

definition comma :: WCHAR where "comma = 0x2C"

text \<open>Lower case in the C locale, which the program does not change.\<close>

definition wlower :: "WCHAR \<Rightarrow> WCHAR" where
  "wlower c = (if 0x41 \<le> c \<and> c \<le> 0x5A then c + 0x20 else c)"

text \<open>
  \<open>strings\<close> is the pointer of the session, \<open>None\<close> for null; the continuation gets the
  new count and pointer. The old block is released by the pointer into it.
\<close>

definition SetIncludeExcludeStrings :: "strarc \<Rightarrow> wide option \<Rightarrow> wide option \<Rightarrow> (nat \<Rightarrow> wide option \<Rightarrow> arc) \<Rightarrow> arc" where
  "SetIncludeExcludeStrings s strings new k =
    (let set_new =
       (case new of
          None \<Rightarrow> k 0 None
        | Some str \<Rightarrow>
            Sys (Session (DuplicateStrings str)) (\<lambda>d.
              if rv d = 0 then Exception s XE_NOT_ENOUGH_MEMORY None
              else (case tokenize (\<lambda>c. c = comma) 0 str of (m, n) \<Rightarrow> k n m)))
     in if strings \<noteq> None then Sys (Session Free) (\<lambda>_. set_new) else set_new)"

definition SetExcludeStrings :: "strarc \<Rightarrow> wide option \<Rightarrow> (strarc \<Rightarrow> arc) \<Rightarrow> arc" where
  "SetExcludeStrings s new k =
    SetIncludeExcludeStrings s (szExcludeStrings s) new (\<lambda>n m.
      k (s\<lparr>dwExcludeStrings := n, szExcludeStrings := m\<rparr>))"

definition SetIncludeStrings :: "strarc \<Rightarrow> wide option \<Rightarrow> (strarc \<Rightarrow> arc) \<Rightarrow> arc" where
  "SetIncludeStrings s new k =
    SetIncludeExcludeStrings s (szIncludeStrings s) new (\<lambda>n m.
      k (s\<lparr>dwIncludeStrings := n, szIncludeStrings := m\<rparr>))"

section \<open>The decision\<close>

text \<open>Any of \<open>n\<close> strings of a block in the path; a null block is not to be read.\<close>

definition any_occurs :: "nat \<Rightarrow> wide option \<Rightarrow> wide \<Rightarrow> bool option" where
  "any_occurs n block path =
    (case block of
       None \<Rightarrow> None
     | Some m \<Rightarrow> Some (\<exists>x \<in> set (block_strings 0 n m). occurs wlower 0 x path))"

text \<open>What goes to the two results: excluded and included. \<open>None\<close> reads a null pointer.\<close>

definition filter_verdict :: "strarc \<Rightarrow> wide \<Rightarrow> (bool \<times> bool) option" where
  "filter_verdict s Path =
    (if Path = [] then Some (False, True)
     else
       (case (if dwExcludeStrings s \<noteq> 0 then any_occurs (dwExcludeStrings s) (szExcludeStrings s) Path
              else Some False) of
          None \<Rightarrow> None
        | Some True \<Rightarrow> Some (True, False)
        | Some False \<Rightarrow>
            if dwIncludeStrings s = 0 then Some (False, True)
            else
              (case any_occurs (dwIncludeStrings s) (szIncludeStrings s) Path of
                 None \<Rightarrow> None
               | Some found \<Rightarrow> Some (False, found))))"

text \<open>Either result pointer may be null; the custom filter sees the results and may
  change them.\<close>

definition ExcludedString :: "strarc \<Rightarrow> wide \<Rightarrow> file_information \<Rightarrow> bool option \<times> bool option \<Rightarrow>
    (bool option \<times> bool option) option" where
  "ExcludedString s Path info results =
    (case filter_verdict s Path of
       None \<Rightarrow> None
     | Some (e, i) \<Rightarrow>
         let r = (map_option (\<lambda>_. e) (fst results), map_option (\<lambda>_. i) (snd results))
         in Some (case CustomFilter s of None \<Rightarrow> r | Some f \<Rightarrow> f Path info r))"

section \<open>What the filter decides\<close>

lemma wlower_zero: "wlower x = wlower 0 \<Longrightarrow> x = 0"
proof -
  assume a: "wlower x = wlower 0"
  have "0x41 \<le> x \<Longrightarrow> x \<le> 0x5A \<Longrightarrow> unat (x + 0x20) = unat x + 0x20"
    by (subst unat_add_lem[THEN iffD1]) (simp_all add: word_le_nat_alt)
  then have "0x41 \<le> x \<Longrightarrow> x \<le> 0x5A \<Longrightarrow> x + 0x20 \<noteq> 0"
    by (metis add_is_0 unsigned_0 zero_neq_numeral)
  with a show "x = 0" by (auto simp: wlower_def split: if_splits)
qed

definition comma_item :: "wide \<Rightarrow> bool" where
  "comma_item = item_ok (\<lambda>c. c = comma) 0"

definition part_of :: "wide \<Rightarrow> wide \<Rightarrow> bool" where
  "part_of x path \<longleftrightarrow> (\<exists>a m b. path = a @ m @ b \<and> map wlower m = map wlower x)"

text \<open>The strings of a session stand for a list of items.\<close>

definition strings_are :: "nat \<Rightarrow> wide option \<Rightarrow> wide list \<Rightarrow> bool" where
  "strings_are n m xs \<longleftrightarrow>
    (if xs = [] then n = 0 else n = length xs \<and> m = Some (joined_memory 0 xs)) \<and> (\<forall>x \<in> set xs. comma_item x)"

lemma any_occurs_items:
  assumes "strings_are n m xs" "xs \<noteq> []"
  shows "any_occurs n m path = Some (\<exists>x \<in> set xs. part_of x path)"
proof -
  have items: "\<forall>x \<in> set xs. item_ok (\<lambda>c. c = comma) 0 x" and n: "n = length xs" "m = Some (joined_memory 0 xs)"
    using assms by (auto simp: strings_are_def comma_item_def)
  have "occurs wlower 0 x path \<longleftrightarrow> part_of x path" if "x \<in> set xs" for x
    unfolding part_of_def using that items wlower_zero
    by (intro occurs_iff) (auto simp: item_ok_def)
  with n block_strings_join[OF items] show ?thesis by (simp add: any_occurs_def)
qed

text \<open>
  C14. A file is excluded if some string of the \<open>-e\<close> list is a part of its path but for
  case; otherwise it is included if there is no \<open>-i\<close> list or some string of it is such a
  part; the lists are given as items joined by commas, and the empty path is always in.
\<close>

theorem filter_decides:
  assumes "strings_are (dwExcludeStrings s) (szExcludeStrings s) es"
    and "strings_are (dwIncludeStrings s) (szIncludeStrings s) is"
  shows "filter_verdict s path = Some
    (if path = [] then (False, True)
     else if \<exists>x \<in> set es. part_of x path then (True, False)
     else (False, is = [] \<or> (\<exists>x \<in> set is. part_of x path)))"
proof -
  have "(if dwExcludeStrings s \<noteq> 0 then any_occurs (dwExcludeStrings s) (szExcludeStrings s) path
         else Some False) = Some (\<exists>x \<in> set es. part_of x path)"
    using assms(1) any_occurs_items[OF assms(1)] by (cases "es = []") (auto simp: strings_are_def)
  moreover have "dwIncludeStrings s = 0 \<longleftrightarrow> is = []"
    using assms(2) by (auto simp: strings_are_def split: if_splits)
  moreover have "is \<noteq> [] \<Longrightarrow> any_occurs (dwIncludeStrings s) (szIncludeStrings s) path =
      Some (\<exists>x \<in> set is. part_of x path)" by (rule any_occurs_items[OF assms(2)])
  ultimately show ?thesis by (simp add: filter_verdict_def)
qed

text \<open>The switches bring a session into such a state.\<close>

lemma SetExcludeStrings_items:
  assumes "xs \<noteq> []" "\<forall>x \<in> set xs. comma_item x" "szExcludeStrings s = None"
  shows "SetExcludeStrings s (Some (join_items comma xs)) k =
      Sys (Session (DuplicateStrings (join_items comma xs))) (\<lambda>d.
        if rv d = 0 then Exception s XE_NOT_ENOUGH_MEMORY None
        else k (s\<lparr>dwExcludeStrings := length xs, szExcludeStrings := Some (joined_memory 0 xs)\<rparr>))"
    and "strings_are (length xs) (Some (joined_memory 0 xs)) xs"
proof -
  have "tokenize (\<lambda>c. c = comma) 0 (join_items comma xs) = (Some (joined_memory 0 xs), length xs)"
    using assms by (intro tokenize_join) (auto simp: comma_item_def)
  with assms(3) show "SetExcludeStrings s (Some (join_items comma xs)) k =
      Sys (Session (DuplicateStrings (join_items comma xs))) (\<lambda>d.
        if rv d = 0 then Exception s XE_NOT_ENOUGH_MEMORY None
        else k (s\<lparr>dwExcludeStrings := length xs, szExcludeStrings := Some (joined_memory 0 xs)\<rparr>))"
    by (simp add: SetExcludeStrings_def SetIncludeExcludeStrings_def cong: if_cong)
  show "strings_are (length xs) (Some (joined_memory 0 xs)) xs"
    using assms by (simp add: strings_are_def)
qed

theorem filter_decides_witness:
  "filter_verdict (Initialize\<lparr>dwExcludeStrings := 2, szExcludeStrings := Some [0x62, 0x61, 0, 0x74]\<rparr>)
    [0x43, 0x54] = Some (True, False)"
proof -
  let ?s = "Initialize\<lparr>dwExcludeStrings := 2, szExcludeStrings := Some [0x62, 0x61, 0, 0x74]\<rparr>"
  have "strings_are (dwExcludeStrings ?s) (szExcludeStrings ?s) [[0x62, 0x61], [0x74]]"
    by (simp add: strings_are_def comma_item_def item_ok_def comma_def)
  moreover have "strings_are (dwIncludeStrings ?s) (szIncludeStrings ?s) []"
    by (simp add: strings_are_def Initialize_def)
  moreover have "part_of [0x74] [0x43, 0x54]"
    unfolding part_of_def
    by (rule exI[of _ "[0x43]"], rule exI[of _ "[0x54]"], rule exI[of _ "[]"]) (simp add: wlower_def)
  ultimately show ?thesis using filter_decides[of ?s "[[0x62, 0x61], [0x74]]" "[]" "[0x43, 0x54]"] by simp
qed

text \<open>
  With two commas in a row the second one stays in the block, in front of the next item,
  which is then looked for with its comma; a list of commas alone leaves a null pointer
  and the count one, and the next look at it reads through it.
\<close>

lemma double_comma:
  "tokenize (\<lambda>c. c = comma) 0 [0x61, comma, comma, 0x62] = (Some [0x61, 0, comma, 0x62], 2)"
  "block_strings 0 (Suc (Suc 0)) [0x61, 0, comma, 0x62] = [[0x61], [comma, 0x62]]"
  by (simp_all add: tokenize_def tok_run.simps comma_def)

lemma only_commas:
  "tokenize (\<lambda>c. c = comma) 0 [comma] = (None, 1)"
  "path \<noteq> [] \<Longrightarrow> filter_verdict (Initialize\<lparr>dwExcludeStrings := 1, szExcludeStrings := None\<rparr>) path = None"
  by (simp_all add: tokenize_def filter_verdict_def any_occurs_def)

section \<open>Names of constants\<close>

definition stream_ids :: "string list" where
  "stream_ids =
    [''BACKUP_INVALID'', ''BACKUP_DATA'', ''BACKUP_EA_DATA'', ''BACKUP_SECURITY_DATA'', ''BACKUP_ALTERNATE_DATA'',
     ''BACKUP_LINK'', ''BACKUP_PROPERTY_DATA'', ''BACKUP_OBJECT_ID'', ''BACKUP_REPARSE_DATA'',
     ''BACKUP_SPARSE_BLOCK'', ''BACKUP_TXFS_DATA'']"

text \<open>An unknown number is printed with the format \<open>%#x\<close>.\<close>

definition hex_digit :: "nat \<Rightarrow> char" where
  "hex_digit d = (if d < 10 then char_of (48 + d) else char_of (87 + d))"

function hex_nat :: "nat \<Rightarrow> string" where
  "hex_nat n = (if n < 16 then [hex_digit n] else hex_nat (n div 16) @ [hex_digit (n mod 16)])"
  by pat_completeness auto
termination by (relation "measure id") auto

declare hex_nat.simps [simp del]

definition GetStreamIdDescription :: "nat \<Rightarrow> string" where
  "GetStreamIdDescription StreamId =
    (if StreamId \<ge> length stream_ids then take 11 (''0x'' @ hex_nat StreamId) else stream_ids ! StreamId)"

definition attrib_ids :: "string list" where
  "attrib_ids =
    [''STREAM_NORMAL_ATTRIBUTE'', ''STREAM_MODIFIED_WHEN_READ'', ''STREAM_CONTAINS_SECURITY'',
     ''STREAM_CONTAINS_PROPERTIES'', ''STREAM_SPARSE_ATTRIBUTE'']"

definition file_attrib_ids :: "string list" where
  "file_attrib_ids =
    [''(none)'', ''FILE_ATTRIBUTE_READONLY'', ''FILE_ATTRIBUTE_HIDDEN'', ''FILE_ATTRIBUTE_SYSTEM'',
     ''FILE_ATTRIBUTE_00000008'', ''FILE_ATTRIBUTE_DIRECTORY'', ''FILE_ATTRIBUTE_ARCHIVE'',
     ''FILE_ATTRIBUTE_DEVICE'', ''FILE_ATTRIBUTE_NORMAL'', ''FILE_ATTRIBUTE_TEMPORARY'',
     ''FILE_ATTRIBUTE_SPARSE_FILE'', ''FILE_ATTRIBUTE_REPARSE_POINT'', ''FILE_ATTRIBUTE_COMPRESSED'',
     ''FILE_ATTRIBUTE_OFFLINE'', ''FILE_ATTRIBUTE_NOT_CONTENT_INDEXED'', ''FILE_ATTRIBUTE_ENCRYPTED'',
     ''FILE_ATTRIBUTE_00008000'', ''FILE_ATTRIBUTE_VIRTUAL'']"

text \<open>
  The loop over the names and the bits, the lowest first. The list has \<open>260\<close> bytes;
  \<open>strncat\<close> is given that number, not the room that is left, and writes a zero behind
  what it appends, so that a longer list is written behind the array.
\<close>

definition LIST_SIZE :: nat where "LIST_SIZE = 260"

text \<open>Appending in place: \<open>None\<close> when the text and its zero do not fit.\<close>

definition append_name :: "string \<Rightarrow> string \<Rightarrow> string option" where
  "append_name text name =
    (let t = text @ take LIST_SIZE name in if length t < LIST_SIZE then Some t else None)"

fun attribute_names :: "string list \<Rightarrow> nat \<Rightarrow> string \<Rightarrow> string option" where
  "attribute_names [] bits text = Some text"
| "attribute_names (name # names) bits text =
    (if bits = 0 then Some text
     else
       (case (if odd bits then
                (case (if text \<noteq> [] then append_name text '' | '' else Some text) of
                   None \<Rightarrow> None
                 | Some t \<Rightarrow> append_name t name)
              else Some text) of
          None \<Rightarrow> None
        | Some t \<Rightarrow> attribute_names names (bits div 2) t))"

definition GetStreamAttributesDescription :: "nat \<Rightarrow> string option" where
  "GetStreamAttributesDescription a =
    (if a = 0 then Some (hd attrib_ids) else attribute_names (tl attrib_ids) a [])"

definition GetFileAttributesDescription :: "nat \<Rightarrow> string option" where
  "GetFileAttributesDescription a =
    (if a = 0 then Some (hd file_attrib_ids) else attribute_names (tl file_attrib_ids) a [])"

text \<open>What the list has at least: the names of the set bits.\<close>

fun selected :: "string list \<Rightarrow> nat \<Rightarrow> nat" where
  "selected [] bits = 0"
| "selected (name # names) bits = (if odd bits then length name else 0) + selected names (bits div 2)"

lemma selected_0 [simp]: "selected names 0 = 0"
  by (induction names) simp_all

lemma append_name_Some: "append_name text name = Some t \<Longrightarrow> length t < LIST_SIZE \<and>
    (length name \<le> LIST_SIZE \<longrightarrow> length t = length text + length name)"
  by (auto simp: append_name_def Let_def split: if_splits)

lemma attribute_names_bounds:
  "attribute_names names bits acc = Some t \<Longrightarrow> length acc < LIST_SIZE \<Longrightarrow>
    \<forall>n \<in> set names. length n \<le> LIST_SIZE \<Longrightarrow>
    length t < LIST_SIZE \<and> length acc + selected names bits \<le> length t"
proof (induction names bits acc arbitrary: t rule: attribute_names.induct)
  case (2 name names bits acc)
  show ?case
  proof (cases "bits = 0")
    case True
    with 2 show ?thesis by simp
  next
    case False
    show ?thesis
    proof (cases "odd bits")
      case even: False
      with 2 False show ?thesis by auto
    next
      case True
      from True False 2(2) obtain u v where
        u: "(if acc \<noteq> [] then append_name acc '' | '' else Some acc) = Some u"
        and v: "append_name u name = Some v" and t: "attribute_names names (bits div 2) v = Some t"
        by (auto split: option.splits)
      have "length acc \<le> length u"
        using u append_name_Some[of acc "'' | ''" u] by (auto split: if_splits simp: LIST_SIZE_def)
      moreover have v': "length v < LIST_SIZE" "length v = length u + length name"
        using append_name_Some[OF v] 2(4) by auto
      moreover have "length t < LIST_SIZE \<and> length v + selected names (bits div 2) \<le> length t"
        using 2(1)[OF False _ t v'(1)] u v 2(4) True by simp
      ultimately show ?thesis using True by simp
    qed
  qed
qed simp

text \<open>
  The names of all stream attributes fit; the names of twelve file attributes are written
  behind the array. An archive can hold any such number.
\<close>

lemma file_attrib_lengths:
  "map length (tl file_attrib_ids) = [23, 21, 21, 23, 24, 22, 21, 21, 24, 26, 28, 25, 22, 34, 24, 23, 22]"
  by (simp add: file_attrib_ids_def)

lemma selected_lengths: "selected names bits = selected (map (\<lambda>s. replicate (length s) (CHR 0x00)) names) bits"
  by (induction names bits rule: selected.induct) simp_all

lemma attribute_list_overflow: "GetFileAttributesDescription 0x1FFFF = None"
proof (rule ccontr)
  assume "GetFileAttributesDescription 0x1FFFF \<noteq> None"
  then obtain t where t: "attribute_names (tl file_attrib_ids) 0x1FFFF [] = Some t"
    by (auto simp: GetFileAttributesDescription_def)
  have "map (\<lambda>s. replicate (length s) (CHR 0x00)) (tl file_attrib_ids)
      = map (\<lambda>n. replicate n (CHR 0x00)) (map length (tl file_attrib_ids))" by simp
  then have "260 \<le> selected (tl file_attrib_ids) 0x1FFFF"
    by (subst selected_lengths, simp only: file_attrib_lengths) simp
  moreover have "\<forall>n \<in> set (map length (tl file_attrib_ids)). n \<le> LIST_SIZE"
    unfolding file_attrib_lengths by (simp add: LIST_SIZE_def)
  ultimately show False
    using attribute_names_bounds[OF t] by (simp add: LIST_SIZE_def)
qed

end
