(* ===== verification/ArcBackup.thy ===== *)
theory ArcBackup
  imports LinkTrack ArcFilter
begin

text \<open>
  \<open>strarc/backup.cpp\<close> and the functions of \<open>strarc.hpp\<close> and \<open>strarc.cpp\<close> that start a
  backup: a file becomes a file header and the streams that the system gives for it, or a
  link; a directory is walked before its own entry is written.
\<close>

section \<open>Paths\<close>

text \<open>The characters of a counted string, in its literal or at the start of the path buffer.\<close>

definition padded_to :: "nat \<Rightarrow> wide \<Rightarrow> wide" where
  "padded_to n b = b @ replicate (n - length b) 0"

definition text_of :: "strarc \<Rightarrow> unicode_string \<Rightarrow> wide" where
  "text_of s u =
    (let n = Length u div 2 in take n (padded_to n (case literal u of None \<Rightarrow> wczFullPathBuffer s | Some w \<Rightarrow> w)))"

definition path_write :: "wide \<Rightarrow> nat \<Rightarrow> wide \<Rightarrow> wide" where
  "path_write b pos x = take pos (padded_to pos b) @ x @ drop (pos + length x) b"

text \<open>
  \<open>RtlAppendUnicodeStringToString\<close> of the native library: too long a string is refused,
  and a zero is put behind the result where there is room for it. \<open>RtlCopyUnicodeString\<close>
  copies what fits. A literal cannot be written.
\<close>

definition append_string :: "strarc \<Rightarrow> unicode_string \<Rightarrow> wide \<Rightarrow> (strarc \<Rightarrow> unicode_string \<Rightarrow> arc) \<Rightarrow> arc \<Rightarrow> arc" where
  "append_string s u x good bad =
    (let n = Length u + 2 * length x in
     if n > MaximumLength u then bad
     else if literal u \<noteq> None then (if x = [] then good s u else Crash)
     else good
       (s\<lparr>wczFullPathBuffer := path_write (wczFullPathBuffer s) (Length u div 2)
            (x @ (if n + 2 \<le> MaximumLength u then [0] else []))\<rparr>)
       (u\<lparr>Length := n\<rparr>))"

definition copy_string :: "strarc \<Rightarrow> unicode_string \<Rightarrow> wide \<Rightarrow> (strarc \<Rightarrow> unicode_string \<Rightarrow> arc) \<Rightarrow> arc" where
  "copy_string s u x k =
    (let y = take (MaximumLength u div 2) x; n = 2 * length y in
     if literal u \<noteq> None then (if y = [] then k s (u\<lparr>Length := 0\<rparr>) else Crash)
     else k
       (s\<lparr>wczFullPathBuffer := path_write (wczFullPathBuffer s) 0
            (y @ (if n + 2 \<le> MaximumLength u then [0] else []))\<rparr>)
       (u\<lparr>Length := n\<rparr>))"

definition dot_string :: unicode_string where
  "dot_string = \<lparr>Length = 2, MaximumLength = 4, literal = Some [dot]\<rparr>"

section \<open>Memory images\<close>

definition name_bytes :: "wide \<Rightarrow> byte list" where
  "name_bytes w = concat (map (\<lambda>c. le_bytes 2 (unat c)) w)"

definition info_bytes :: "file_information \<Rightarrow> byte list" where
  "info_bytes f =
    le_bytes 4 (unat (dwFileAttributes f)) @ le_bytes 8 (unat (ftCreationTime f)) @
    le_bytes 8 (unat (ftLastAccessTime f)) @ le_bytes 8 (unat (ftLastWriteTime f)) @
    le_bytes 4 (unat (dwVolumeSerialNumber f)) @ le_bytes 4 (unat (nFileSizeHigh f)) @
    le_bytes 4 (unat (nFileSizeLow f)) @ le_bytes 4 (unat (nNumberOfLinks f)) @
    le_bytes 4 (unat (nFileIndexHigh f)) @ le_bytes 4 (unat (nFileIndexLow f))"

text \<open>The \<open>26\<close> bytes of the short name, zero filled.\<close>

definition short_bytes :: "wide \<Rightarrow> byte list" where
  "short_bytes w = name_bytes w @ replicate (26 - 2 * length w) 0"

definition file_index :: "file_information \<Rightarrow> QWORD" where
  "file_index f = of_nat (unat (nFileIndexHigh f) * 2 ^ 32 + unat (nFileIndexLow f))"

definition name_arg :: "strarc \<Rightarrow> unicode_string \<Rightarrow> message_arg" where
  "name_arg s u = MW (text_of s u)"

section \<open>Streams\<close>

primrec ReadFileStreamsToArchive :: "nat \<Rightarrow> strarc \<Rightarrow> wide \<Rightarrow> int \<Rightarrow> (strarc \<Rightarrow> bool \<Rightarrow> arc) \<Rightarrow> arc" where
  "ReadFileStreamsToArchive 0 s File hFile k = OutOfFuel"
| "ReadFileStreamsToArchive (Suc fuel) s File hFile k =
    Sys YieldSingleProcessor (\<lambda>_.
    Sys Cancelled (\<lambda>c.
      if rv c \<noteq> 0 then verbose s '', break.'' [] (k s False)
      else
        verbose s '', stream: '' []
        (Sys (Backup (BackupRead hFile (dwBufferSize s) (bProcessSecurity s))) (\<lambda>r.
          if rv r = 0 then complain ''strarc: Cannot read %s: %s'' [MW File] (k s False)
          else if out r = [] then
            Sys (Backup BackupReadAbort) (\<lambda>_.
              verbose s ''EOF'' [] (k (s\<lparr>FileCounter := FileCounter s + 1\<rparr>) True))
          else if length (out r) > dwBufferSize s \<or> length (out r) > length (Buffer s) then Crash
          else
            let s = s\<lparr>Buffer := poke (Buffer s) 0 (out r)\<rparr> in
            verbose s ''%u bytes'' [MI (int (length (out r)))]
              (WriteArchive s (out r) (ReadFileStreamsToArchive fuel s File hFile k))))))"

section \<open>One file\<close>

definition ERROR_INVALID_PARAMETER :: int where "ERROR_INVALID_PARAMETER = 87"

definition backup_access :: "strarc \<Rightarrow> access_right list" where
  "backup_access s =
    GENERIC_READ #
    (if BackupMethod s = BACKUP_METHOD_FULL \<or> BackupMethod s = BACKUP_METHOD_INC then [FILE_WRITE_ATTRIBUTES] else [])"

definition all_shared :: "share list" where
  "all_shared = [FILE_SHARE_READ, FILE_SHARE_WRITE, FILE_SHARE_DELETE]"

definition open_for_backup :: "strarc \<Rightarrow> wide \<Rightarrow> (int \<Rightarrow> arc) \<Rightarrow> arc" where
  "open_for_backup s File k =
    NativeOpenFile (RootDirectory s) File (backup_access s) [] all_shared
      ([FILE_OPEN_FOR_BACKUP_INTENT, FILE_SEQUENTIAL_ONLY] @ (if bLocal s then [FILE_OPEN_REPARSE_POINT] else []))
      (\<lambda>hFile.
        if \<not> bLocal s \<and> hFile = invalid_handle then
          Sys GetLastError (\<lambda>e.
            if err e = ERROR_INVALID_PARAMETER then
              NativeOpenFile (RootDirectory s) File (backup_access s) [] all_shared
                [FILE_OPEN_FOR_BACKUP_INTENT, FILE_SEQUENTIAL_ONLY] k
            else k hFile)
        else k hFile)"

text \<open>The listing of a name on the standard output.\<close>

definition list_name :: "wide \<Rightarrow> arc \<Rightarrow> arc" where
  "list_name File k =
    Sys (Backup (RtlUnicodeStringToOemString File)) (\<lambda>r.
      if NT_SUCCESS (rv r) then
        Sys (Session (GetStdHandle Stdout)) (\<lambda>h.
        Sys (WriteFile (rv h) (out r)) (\<lambda>_.
        Sys (Session (GetStdHandle Stdout)) (\<lambda>h.
        Sys (WriteFile (rv h) [13, 10]) (\<lambda>_.
        Sys (Backup RtlFreeOemString) (\<lambda>_. k)))))
      else k)"

definition snapshot_extension :: wide where
  "snapshot_extension = wide_of ''.$sards''"

text \<open>
  A name that ends with the extension, up to the zero behind it in memory; the name must
  have a character before it.
\<close>

definition is_snapshot :: "strarc \<Rightarrow> unicode_string \<Rightarrow> bool" where
  "is_snapshot s File \<longleftrightarrow>
    (let n = Length File div 2; b = (case literal File of None \<Rightarrow> wczFullPathBuffer s | Some w \<Rightarrow> w) in
     Length File \<ge> 16 \<and> takeWhile (\<lambda>c. c \<noteq> 0) (drop (n - 7) b) = snapshot_extension)"

text \<open>The saved attributes lack the archive bit unless the method is \<open>COPY\<close>.\<close>

definition saved_info :: "strarc \<Rightarrow> file_information \<Rightarrow> file_information" where
  "saved_info s f =
    (if BackupMethod s \<noteq> BACKUP_METHOD_COPY
     then f\<lparr>dwFileAttributes := dwFileAttributes f AND NOT FILE_ATTRIBUTE_ARCHIVE\<rparr> else f)"

definition file_header_bytes :: "wide \<Rightarrow> file_information \<Rightarrow> wide \<Rightarrow> byte list" where
  "file_header_bytes name info short =
    stream_header BACKUP_INVALID STRARC_MAGIC (if short = [] then 52 else 78) (2 * length name) @
    name_bytes name @ info_bytes info @ (if short = [] then [] else short_bytes short)"

text \<open>
  The header goes to the start of the buffer and from there to the archive. C does not
  test that it fits; a short name has at most \<open>12\<close> characters.
\<close>

definition write_file_header :: "strarc \<Rightarrow> wide \<Rightarrow> file_information \<Rightarrow> wide \<Rightarrow> (strarc \<Rightarrow> arc) \<Rightarrow> arc" where
  "write_file_header s name info short k =
    (let b = file_header_bytes name (saved_info s info) short in
     if length b > length (Buffer s) \<or> length short > 13 then Crash
     else
       let s = s\<lparr>Buffer := poke (Buffer s) 0 b\<rparr>
       in verbose s '', header: %u bytes'' [MI (int (length b))] (WriteArchive s b (k s)))"

definition say_short :: "strarc \<Rightarrow> wide \<Rightarrow> arc \<Rightarrow> arc" where
  "say_short s short k = (if short = [] then k else verbose s '', short=%s'' [MW short] k)"

text \<open>A short name that the caller does not know is looked up in the parent directory.\<close>

definition with_short_name :: "strarc \<Rightarrow> wide \<Rightarrow> wide option \<Rightarrow> (wide \<Rightarrow> arc) \<Rightarrow> arc" where
  "with_short_name s File Short k =
    (case Short of
       Some short \<Rightarrow> say_short s short (k short)
     | None \<Rightarrow>
         let (parent_dir, file_part) = SplitPath File in
         NativeOpenFile (RootDirectory s) parent_dir [FILE_LIST_DIRECTORY] [] all_shared
             [FILE_OPEN_FOR_BACKUP_INTENT] (\<lambda>hParentDir.
           if hParentDir = invalid_handle then k []
           else
             FindFirst hParentDir (Some file_part) (\<lambda>f.
               let short = (if NT_SUCCESS (LastStatus f) then ShortName f else []) in
               say_short s short (Sys (NtClose hParentDir) (\<lambda>_. k short)))))"

definition write_link :: "strarc \<Rightarrow> wide \<Rightarrow> (strarc \<Rightarrow> bool \<Rightarrow> arc) \<Rightarrow> arc" where
  "write_link s LinkName k =
    (let s = s\<lparr>Buffer := put_header (Buffer s) BACKUP_LINK 0 (2 * length LinkName) 0\<rparr> in
     WriteArchive s (peek (Buffer s) 0 HEADER_SIZE)
       (verbose s '', link to %s: %u bytes'' [MW LinkName, MI (int (HEADER_SIZE + 2 * length LinkName))]
         (WriteArchive s (name_bytes LinkName) (k (s\<lparr>FileCounter := FileCounter s + 1\<rparr>) True))))"

text \<open>The content of a file: its streams, then perhaps its archive attribute.\<close>

definition write_content :: "nat \<Rightarrow> strarc \<Rightarrow> wide \<Rightarrow> int \<Rightarrow> file_information \<Rightarrow> (strarc \<Rightarrow> bool \<Rightarrow> arc) \<Rightarrow> arc" where
  "write_content fuel s File hFile info k =
    ReadFileStreamsToArchive fuel s File hFile (\<lambda>s bResult.
      let close = Sys (NtClose hFile) (\<lambda>_. k s bResult) in
      if bResult \<and> (BackupMethod s = BACKUP_METHOD_FULL \<or> BackupMethod s = BACKUP_METHOD_INC) \<and>
         has (dwFileAttributes info) FILE_ATTRIBUTE_ARCHIVE then
        NativeSetFileAttributes hFile (dwFileAttributes info AND NOT FILE_ATTRIBUTE_ARCHIVE) (\<lambda>good.
          if good then close
          else complain ''strarc: Error resetting archive attribute on %s: %s'' [MW File] close)
      else close)"

text \<open>From the header on; the name no longer changes.\<close>

definition archive_file :: "nat \<Rightarrow> strarc \<Rightarrow> wide \<Rightarrow> wide option \<Rightarrow> int \<Rightarrow> file_information \<Rightarrow>
    (strarc \<Rightarrow> bool \<Rightarrow> arc) \<Rightarrow> arc" where
  "archive_file fuel s File Short hFile info k =
    with_short_name s File Short (\<lambda>short.
    write_file_header s File info short (\<lambda>s.
      let go_on = (\<lambda>s link.
        case link of
          Some LinkName \<Rightarrow> Sys (NtClose hFile) (\<lambda>_. write_link s LinkName k)
        | None \<Rightarrow> write_content fuel s File hFile info k)
      in if 1 < nNumberOfLinks info \<and> bHardLinkSupport s then
           MatchLink s (dwVolumeSerialNumber info) (file_index info) File go_on
         else go_on s None))"

text \<open>
  \<open>BackupFile\<close>, over the way its caller walks a directory. The counted string is the
  caller's; the continuation gets it as the function leaves it.
\<close>

definition BackupFile_with ::
    "(strarc \<Rightarrow> unicode_string \<Rightarrow> int \<Rightarrow> (strarc \<Rightarrow> arc) \<Rightarrow> arc) \<Rightarrow> nat \<Rightarrow> strarc \<Rightarrow> unicode_string \<Rightarrow>
     wide option \<Rightarrow> bool \<Rightarrow> (strarc \<Rightarrow> unicode_string \<Rightarrow> bool \<Rightarrow> arc) \<Rightarrow> arc" where
  "BackupFile_with walk_directory fuel s File Short bTraverseDirectories k =
    open_for_backup s (text_of s File) (\<lambda>hFile.
      if hFile = invalid_handle then complain ''strarc: Cannot open %s: %s'' [name_arg s File] (k s File False)
      else Sys (GetFileInformationByHandle hFile) (\<lambda>r.
        if rv r = 0 then
          complain ''strarc: Cannot get file information for %s: %s'' [name_arg s File]
            (Sys (NtClose hFile) (\<lambda>_. k s File False))
        else
          let info = file_info r in
          case ExcludedString s (text_of s File) info (Some False, Some False) of
            Some (Some bExcludeThis, Some bIncludeThis) \<Rightarrow>
              if bExcludeThis then Sys (NtClose hFile) (\<lambda>_. k s File True)
              else
                let after = (\<lambda>s.
                  Sys Cancelled (\<lambda>c.
                    if rv c \<noteq> 0 then Sys (NtClose hFile) (\<lambda>_. k s File False)
                    else if \<not> bIncludeThis then Sys (NtClose hFile) (\<lambda>_. k s File True)
                    else
                      let File = (if Length File = 0 then dot_string else File) in
                      verbose s ''%s, attr=%x'' [name_arg s File, MI (uint (dwFileAttributes info))]
                      (if (BackupMethod s = BACKUP_METHOD_DIFF \<or> BackupMethod s = BACKUP_METHOD_INC) \<and>
                          \<not> has (dwFileAttributes info) FILE_ATTRIBUTE_ARCHIVE then
                         verbose s '', not changed.'' [] (Sys (NtClose hFile) (\<lambda>_. k s File True))
                       else
                         only_if (bListFiles s) (list_name (text_of s File))
                         (if bListOnly s then
                            verbose s [] []
                              (Sys (NtClose hFile) (\<lambda>_. k (s\<lparr>FileCounter := FileCounter s + 1\<rparr>) File True))
                          else if bBackupRegistrySnapshots s \<and> is_snapshot s File then
                            NativeDeleteFile hFile (\<lambda>_.
                              let File = File\<lparr>Length := Length File - 14\<rparr> in
                              archive_file fuel s (text_of s File) Short hFile info (\<lambda>s b. k s File b))
                          else archive_file fuel s (text_of s File) Short hFile info (\<lambda>s b. k s File b)))))
                in if bTraverseDirectories \<and> has (dwFileAttributes info) FILE_ATTRIBUTE_DIRECTORY \<and>
                      \<not> (bLocal s \<and> has (dwFileAttributes info) FILE_ATTRIBUTE_REPARSE_POINT)
                   then walk_directory s File hFile after
                   else after s
          | _ \<Rightarrow> Crash))"

section \<open>Directories\<close>

definition ERROR_NO_MORE_FILES :: int where "ERROR_NO_MORE_FILES = 18"

text \<open>
  The names of the directory itself and of its parent. The code looks at one or two
  characters of names of these lengths.
\<close>

definition is_dot_entry :: "wide \<Rightarrow> bool" where
  "is_dot_entry n \<longleftrightarrow> (length n = 1 \<and> n ! 0 = dot) \<or> (length n = 2 \<and> n ! 0 = dot \<and> n ! 1 = dot)"

definition too_long :: "strarc \<Rightarrow> unicode_string \<Rightarrow> wide \<Rightarrow> arc \<Rightarrow> arc" where
  "too_long s Path name k =
    say ''strarc: Path is too long: %s'' [name_arg s Path] (say ''%s'' [MW name] k)"

text \<open>The path under which the entries go, or none if it does not fit.\<close>

definition base_path :: "strarc \<Rightarrow> unicode_string \<Rightarrow> (strarc \<Rightarrow> unicode_string \<Rightarrow> arc) \<Rightarrow> arc \<Rightarrow> arc" where
  "base_path s Path good bad =
    (if Length Path = 2 \<and> hd (text_of s Path) = dot then good s (Path\<lparr>Length := 0\<rparr>)
     else if Length Path > 0 then append_string s Path [backslash] good bad
     else good s Path)"

primrec walk :: "nat \<Rightarrow> strarc \<Rightarrow> unicode_string \<Rightarrow> unicode_string \<Rightarrow> int \<Rightarrow> finder \<Rightarrow> (strarc \<Rightarrow> arc) \<Rightarrow> arc" where
  "walk 0 s base Path Handle f k = OutOfFuel"
| "walk (Suc fuel) s base Path Handle f k =
    (let again = (\<lambda>s. FindNext Handle (\<lambda>f. walk fuel s base Path Handle f k));
         directory = (\<lambda>s File hFile k'.
           base_path s File
             (\<lambda>s b. FindFirst hFile None (\<lambda>f. walk fuel s b File hFile f k'))
             (say ''strarc: Path is too long: %s'' [name_arg s File] (k' s)))
     in
       Sys YieldSingleProcessor (\<lambda>_.
         if \<not> NT_SUCCESS (LastStatus f) then
           Sys (RtlNtStatusToDosError (LastStatus f)) (\<lambda>e.
             if rv e = ERROR_NO_MORE_FILES then k s
             else complain ''strarc: Error reading directory %s: %s'' [name_arg s Path] (k s))
         else if is_dot_entry (FileName f) then again s
         else
           Sys Cancelled (\<lambda>c.
             if rv c \<noteq> 0 then k s
             else if 2 * length (FileName f) > USHORT_MAX then too_long s Path (FileName f) (again s)
             else
               append_string s base (FileName f)
                 (\<lambda>s name.
                   BackupFile_with directory fuel s name (Some (if bSkipShortNames s then [] else ShortName f)) True
                     (\<lambda>s _ _. again s))
                 (too_long s Path (FileName f) (again s)))))"

definition BackupDirectory :: "nat \<Rightarrow> strarc \<Rightarrow> unicode_string \<Rightarrow> int \<Rightarrow> (strarc \<Rightarrow> arc) \<Rightarrow> arc" where
  "BackupDirectory fuel s Path Handle k =
    base_path s Path
      (\<lambda>s b. FindFirst Handle None (\<lambda>f. walk fuel s b Path Handle f k))
      (say ''strarc: Path is too long: %s'' [name_arg s Path] (k s))"

definition BackupFile :: "nat \<Rightarrow> strarc \<Rightarrow> unicode_string \<Rightarrow> wide option \<Rightarrow> bool \<Rightarrow>
    (strarc \<Rightarrow> unicode_string \<Rightarrow> bool \<Rightarrow> arc) \<Rightarrow> arc" where
  "BackupFile fuel s File Short bTraverse k =
    BackupFile_with (BackupDirectory fuel) fuel s File Short bTraverse k"

section \<open>What is backed up\<close>

text \<open>The string is the path of the session itself.\<close>

definition BackupFullPath :: "nat \<Rightarrow> strarc \<Rightarrow> bool \<Rightarrow> (strarc \<Rightarrow> bool \<Rightarrow> arc) \<Rightarrow> arc" where
  "BackupFullPath fuel s bTraverse k =
    BackupFile fuel s (FullPath s) None bTraverse (\<lambda>s File b. k (s\<lparr>FullPath := File\<rparr>) b)"

definition BackupFile_named :: "nat \<Rightarrow> strarc \<Rightarrow> wide \<Rightarrow> bool \<Rightarrow> (strarc \<Rightarrow> bool \<Rightarrow> arc) \<Rightarrow> arc" where
  "BackupFile_named fuel s wczFile bTraverse k =
    (if 2 * length wczFile > MaximumLength (FullPath s) then
       say ''strarc: The path is too long: %s'' [MW wczFile] (k s False)
     else
       copy_string s (FullPath s) wczFile (\<lambda>s p.
         BackupFullPath fuel (s\<lparr>FullPath := p\<rparr>) bTraverse k))"

primrec BackupFiles :: "nat \<Rightarrow> strarc \<Rightarrow> wide list \<Rightarrow> (strarc \<Rightarrow> arc) \<Rightarrow> arc" where
  "BackupFiles fuel s [] k = k s"
| "BackupFiles fuel s (a # args) k =
    Sys YieldSingleProcessor (\<lambda>_.
    Sys Cancelled (\<lambda>c.
      if rv c \<noteq> 0 then k s
      else BackupFile_named fuel s a True (\<lambda>s _. BackupFiles fuel s args k)))"

definition BackupCurrentDirectory :: "nat \<Rightarrow> strarc \<Rightarrow> (strarc \<Rightarrow> arc) \<Rightarrow> arc" where
  "BackupCurrentDirectory fuel s k =
    BackupFullPath fuel (s\<lparr>FullPath := (FullPath s)\<lparr>Length := 0\<rparr>\<rparr>) True (\<lambda>s _. k s)"

definition ERROR_HANDLE_EOF :: int where "ERROR_HANDLE_EOF = 38"

text \<open>File names from a stream, one on a line, as wide characters.\<close>

primrec stream_names_W :: "nat \<Rightarrow> strarc \<Rightarrow> int \<Rightarrow> (strarc \<Rightarrow> arc) \<Rightarrow> arc" where
  "stream_names_W 0 s h k = OutOfFuel"
| "stream_names_W (Suc fuel) s h k =
    Sys YieldSingleProcessor (\<lambda>_.
    Sys Cancelled (\<lambda>c.
      if rv c \<noteq> 0 then k s
      else
        Sys (Console (LineRecvW h (MaximumLength (FullPath s) div 2))) (\<lambda>r.
          let s = s\<lparr>wczFullPathBuffer := path_write (wczFullPathBuffer s) 0 (wname r),
                    FullPath := (FullPath s)\<lparr>Length := nat (num r) mod 65536\<rparr>\<rparr> in
          if literal (FullPath s) \<noteq> None then Crash
          else if Length (FullPath s) = 0 then
            Sys GetLastError (\<lambda>e.
              if err e = 0 then stream_names_W fuel s h k
              else if err e \<noteq> ERROR_HANDLE_EOF then complain ''strarc: %s'' [] (k s)
              else k s)
          else BackupFullPath fuel s False (\<lambda>s _. stream_names_W fuel s h k))))"

definition BackupFilenamesFromStreamW :: "nat \<Rightarrow> strarc \<Rightarrow> int \<Rightarrow> (strarc \<Rightarrow> arc) \<Rightarrow> arc" where
  "BackupFilenamesFromStreamW fuel s h k =
    Sys (Console NewOverlapped) (\<lambda>r.
      if rv r = 0 then Exception s XE_NOT_ENOUGH_MEMORY None else stream_names_W fuel s h k)"

text \<open>The same for bytes, which the system turns into wide characters. The code for a
  failed allocation here is an expression without effect.\<close>

primrec stream_names_A :: "nat \<Rightarrow> strarc \<Rightarrow> int \<Rightarrow> (strarc \<Rightarrow> arc) \<Rightarrow> arc" where
  "stream_names_A 0 s h k = OutOfFuel"
| "stream_names_A (Suc fuel) s h k =
    Sys YieldSingleProcessor (\<lambda>_.
    Sys Cancelled (\<lambda>c.
      if rv c \<noteq> 0 then k s
      else
        Sys (Console (LineRecv h 32768)) (\<lambda>r.
          if num r = 0 then
            Sys GetLastError (\<lambda>e.
              if err e = 0 then stream_names_A fuel s h k
              else if err e \<noteq> ERROR_HANDLE_EOF then complain ''strarc: %s'' [] (k s)
              else k s)
          else
            Sys (Console (RtlAnsiStringToUnicodeString (line r) (MaximumLength (FullPath s)))) (\<lambda>u.
              if \<not> NT_SUCCESS (rv u) then
                Sys (RtlNtStatusToDosError (rv u)) (\<lambda>_.
                  complain ''strarc: Too long path: %s'' [MS (line r)] (stream_names_A fuel s h k))
              else
                copy_string s (FullPath s) (wname u) (\<lambda>s p.
                  BackupFullPath fuel (s\<lparr>FullPath := p\<rparr>) False (\<lambda>s _. stream_names_A fuel s h k))))))"

definition BackupFilenamesFromStreamA :: "nat \<Rightarrow> strarc \<Rightarrow> int \<Rightarrow> (strarc \<Rightarrow> arc) \<Rightarrow> arc" where
  "BackupFilenamesFromStreamA fuel s h k = Sys (Console NewOverlapped) (\<lambda>_. stream_names_A fuel s h k)"

section \<open>What a backup writes\<close>

lemma wp_NativeOpenFile [wp_rules]:
  "(\<And>f. wp (archive_world h) Q w (k f)) \<Longrightarrow> wp (archive_world h) Q w (NativeOpenFile d n a t x p k)"
  by (simp add: NativeOpenFile_def last_status_def archive_simps)

lemma wp_NativeSetFileAttributes [wp_rules]:
  "(\<And>b. wp (archive_world h) Q w (k b)) \<Longrightarrow> wp (archive_world h) Q w (NativeSetFileAttributes f a k)"
  by (simp add: NativeSetFileAttributes_def last_status_def archive_simps)

lemma wp_NativeDeleteFile [wp_rules]:
  "(\<And>b. wp (archive_world h) Q w (k b)) \<Longrightarrow> wp (archive_world h) Q w (NativeDeleteFile f k)"
  by (simp add: NativeDeleteFile_def last_status_def archive_simps)

lemma wp_say_short [wp_rules]:
  "wp (archive_world h) Q w k \<Longrightarrow> wp (archive_world h) Q w (say_short s short k)"
  by (simp add: say_short_def wp_verbose)

lemma wp_ReadFileStreamsToArchive [wp_rules]:
  assumes "hArchive s = h" and "dwBufferSize s = length (Buffer s)" and "0 < dwBufferSize s"
    and "length (source w) < fuel"
    and "\<And>m. length m = length (Buffer s) \<Longrightarrow>
      wp (archive_world h) Q (w\<lparr>written := written w @ source w, source := []\<rparr>)
        (k (s\<lparr>Buffer := m, FileCounter := FileCounter s + 1\<rparr>) True)"
  shows "wp (archive_world h) Q w (ReadFileStreamsToArchive fuel s File hFile k)"
  using assms
proof (induction fuel arbitrary: s w)
  case (Suc fuel)
  have read: "wp (archive_world h) Q w (Sys (Backup (BackupRead hFile (dwBufferSize s) (bProcessSecurity s))) (\<lambda>r.
      if rv r = 0 then complain ''strarc: Cannot read %s: %s'' [MW File] (k s False)
      else if out r = [] then
        Sys (Backup BackupReadAbort) (\<lambda>_. verbose s ''EOF'' [] (k (s\<lparr>FileCounter := FileCounter s + 1\<rparr>) True))
      else if length (out r) > dwBufferSize s \<or> length (out r) > length (Buffer s) then Crash
      else
        let s = s\<lparr>Buffer := poke (Buffer s) 0 (out r)\<rparr> in
        verbose s ''%u bytes'' [MI (int (length (out r)))]
          (WriteArchive s (out r) (ReadFileStreamsToArchive fuel s File hFile k))))"
    (is "wp _ _ _ (Sys _ ?k)")
  proof (rule wp_Sys)
    fix r w'
    assume "archive_world h w (Backup (BackupRead hFile (dwBufferSize s) (bProcessSecurity s))) r w'"
    then have r: "rv r \<noteq> 0" "length (out r) \<le> dwBufferSize s" "out r = [] \<longrightarrow> source w = []"
      and w0: "source w = out r @ source w'" "w' = w\<lparr>source := source w'\<rparr>"
      using Suc.prems(3) by (auto simp: archive_world_simps)
    from w0 obtain t where w: "source w = out r @ t" "w' = w\<lparr>source := t\<rparr>" by blast
    show "wp (archive_world h) Q w' (?k r)"
    proof (cases "out r = []")
      case True
      with r w have "w' = w\<lparr>written := written w @ source w, source := []\<rparr>" by simp
      with True r(1) Suc.prems(5)[of "Buffer s"] show ?thesis by (simp add: archive_simps wp_verbose)
    next
      case False
      let ?s = "s\<lparr>Buffer := poke (Buffer s) 0 (out r)\<rparr>"
      have l: "length (poke (Buffer s) 0 (out r)) = length (Buffer s)" using r(2) Suc.prems(2) by simp
      have "wp (archive_world h) Q (w'\<lparr>written := written w' @ out r\<rparr>) (ReadFileStreamsToArchive fuel ?s File hFile k)"
      proof (rule Suc.IH)
        show "length (source (w'\<lparr>written := written w' @ out r\<rparr>)) < fuel"
          using Suc.prems(4) False w by (cases "out r") auto
        fix m :: "byte list" assume "length m = length (Buffer ?s)"
        with l have "length m = length (Buffer s)" by simp
        from Suc.prems(5)[OF this]
        show "wp (archive_world h) Q (w'\<lparr>written := written w' @ out r\<rparr>
            \<lparr>written := written (w'\<lparr>written := written w' @ out r\<rparr>) @ source (w'\<lparr>written := written w' @ out r\<rparr>),
              source := []\<rparr>) (k (?s\<lparr>Buffer := m, FileCounter := FileCounter ?s + 1\<rparr>) True)"
          by (simp add: w)
      qed (use Suc.prems(1-3) l in simp_all)
      with r False Suc.prems(1,2) l show ?thesis
        by (simp add: Let_def wp_verbose wp_WriteArchive)
    qed
  qed
  show ?case
    unfolding ReadFileStreamsToArchive.simps(2)
    using read by (auto simp: archive_simps simp del: wpx.simps(2) intro!: wp_plain wp_Cancelled wp_verbose)
qed simp

lemma length_name_bytes [simp]: "length (name_bytes w) = 2 * length w"
  by (induction w) (simp_all add: name_bytes_def)

lemma length_info_bytes [simp]: "length (info_bytes f) = 52"
  by (simp add: info_bytes_def)

lemma length_short_bytes [simp]: "length short \<le> 13 \<Longrightarrow> length (short_bytes short) = 26"
  by (simp add: short_bytes_def)

lemma length_file_header_bytes:
  "length short \<le> 13 \<Longrightarrow> length (file_header_bytes name info short) =
    20 + 2 * length name + (if short = [] then 52 else 78)"
  by (simp add: file_header_bytes_def)

lemma archive_file_bytes:
  assumes "dwBufferSize s = length (Buffer s)" and "20 + 2 * length name + 78 \<le> dwBufferSize s"
    and "length short \<le> 13" and "nNumberOfLinks info \<le> 1" and "length (source w) < fuel"
    and goal: "\<And>m. length m = length (Buffer s) \<Longrightarrow>
      wp (archive_world (hArchive s)) Q
        (w\<lparr>written := written w @ file_header_bytes name (saved_info s info) short @ source w, source := []\<rparr>)
        (k (s\<lparr>Buffer := m, FileCounter := FileCounter s + 1\<rparr>) True)"
  shows "wp (archive_world (hArchive s)) Q w (archive_file fuel s name (Some short) hFile info k)"
proof -
  let ?h = "hArchive s" and ?b = "file_header_bytes name (saved_info s info) short"
  let ?s = "s\<lparr>Buffer := poke (Buffer s) 0 ?b\<rparr>" and ?w = "w\<lparr>written := written w @ ?b\<rparr>"
  have lb: "length ?b \<le> length (Buffer s)"
    using assms(1-3) by (simp add: length_file_header_bytes)
  have pos: "0 < dwBufferSize s" using assms(2) by simp
  have single: "\<not> 1 < nNumberOfLinks info" using assms(4) by (simp add: not_less)
  have content: "wp (archive_world ?h) Q ?w (write_content fuel ?s name hFile info k)"
    unfolding write_content_def
  proof (rule wp_ReadFileStreamsToArchive)
    fix m :: "byte list" assume "length m = length (Buffer ?s)"
    with lb have "length m = length (Buffer s)" by simp
    from goal[OF this] show "wp (archive_world ?h) Q (?w\<lparr>written := written ?w @ source ?w, source := []\<rparr>)
      (let close = Sys (NtClose hFile) (\<lambda>_. k (?s\<lparr>Buffer := m, FileCounter := FileCounter ?s + 1\<rparr>) True)
       in if True \<and> (BackupMethod (?s\<lparr>Buffer := m, FileCounter := FileCounter ?s + 1\<rparr>) = BACKUP_METHOD_FULL \<or>
              BackupMethod (?s\<lparr>Buffer := m, FileCounter := FileCounter ?s + 1\<rparr>) = BACKUP_METHOD_INC) \<and>
            has (dwFileAttributes info) FILE_ATTRIBUTE_ARCHIVE then
            NativeSetFileAttributes hFile (dwFileAttributes info AND NOT FILE_ATTRIBUTE_ARCHIVE) (\<lambda>good.
              if good then close else complain ''strarc: Error resetting archive attribute on %s: %s'' [MW name] close)
          else close)"
      by (auto simp: Let_def archive_simps intro!: wp_complain wp_NativeSetFileAttributes)
  qed (use assms lb pos in simp_all)
  have "wp (archive_world ?h) Q w (write_file_header s name info short (\<lambda>s.
      let go_on = (\<lambda>s link.
        case link of
          Some LinkName \<Rightarrow> Sys (NtClose hFile) (\<lambda>_. write_link s LinkName k)
        | None \<Rightarrow> write_content fuel s name hFile info k)
      in if 1 < nNumberOfLinks info \<and> bHardLinkSupport s then
           MatchLink s (dwVolumeSerialNumber info) (file_index info) name go_on
         else go_on s None))"
    unfolding write_file_header_def
    using lb assms(3) single content by (simp add: Let_def wp_verbose wp_WriteArchive)
  then show ?thesis
    by (simp add: archive_file_def with_short_name_def wp_say_short)
qed


definition backup_session :: strarc where
  "backup_session = Initialize\<lparr>hArchive := 5, dwBufferSize := 200, Buffer := replicate 200 0\<rparr>"

definition plain_info :: file_information where
  "plain_info = file_info plain"


section \<open>Room for the header\<close>

text \<open>
  The smallest buffer that \<open>InitializeBuffer\<close> accepts has no room for the header of the
  longest name: the header is written \<open>96\<close> bytes over its end. The default size is enough.
\<close>

lemma header_room:
  "length name \<le> 32767 \<Longrightarrow> length short \<le> 13 \<Longrightarrow>
    length (file_header_bytes name info short) \<le> 65632 \<and> 65632 \<le> DEFAULT_STREAM_BUFFER_SIZE"
  by (simp add: length_file_header_bytes DEFAULT_STREAM_BUFFER_SIZE_def)

lemma smallest_buffer_overflow:
  assumes "length (Buffer s) = 65536" and "length name = 32767" and "short \<noteq> []" and "length short \<le> 12"
  shows "write_file_header s name info short k = Crash"
  using assms by (simp add: write_file_header_def length_file_header_bytes)

text \<open>
  The second attempt to open a file asks for the same as the first: it was meant to drop
  the flag for reparse points, which is only given in the other case.
\<close>

lemma second_attempt_same:
  assumes "\<not> bLocal s"
  shows "open_for_backup s File k =
    NativeOpenFile (RootDirectory s) File (backup_access s) [] all_shared
      [FILE_OPEN_FOR_BACKUP_INTENT, FILE_SEQUENTIAL_ONLY] (\<lambda>hFile.
        if hFile = invalid_handle then
          Sys GetLastError (\<lambda>e.
            if err e = ERROR_INVALID_PARAMETER then
              NativeOpenFile (RootDirectory s) File (backup_access s) [] all_shared
                [FILE_OPEN_FOR_BACKUP_INTENT, FILE_SEQUENTIAL_ONLY] k
            else k hFile)
        else k hFile)"
  using assms by (simp add: open_for_backup_def)

text \<open>
  The path \<open>.\<close> shares its buffer with the names below it: once an entry has been put
  there, the string that was \<open>.\<close> reads as the first character of the entry, and under
  that name the directory is archived.
\<close>

lemma dot_overwritten:
  assumes "text_of s p = [dot]" and "Length p = 2" and "literal p = None" and "MaximumLength p = USHORT_MAX"
    and "x # xs = entry" and "2 * length entry + 2 \<le> USHORT_MAX"
  shows "\<exists>s' name. (\<forall>good bad. base_path s p (\<lambda>s b. append_string s b entry good bad) bad = good s' name) \<and>
    text_of s' name = entry \<and> text_of s' p = [x]"
proof -
  let ?s = "s\<lparr>wczFullPathBuffer := path_write (wczFullPathBuffer s) 0 (entry @ [0])\<rparr>"
  let ?n = "p\<lparr>Length := 2 * length entry\<rparr>"
  have "base_path s p (\<lambda>s b. append_string s b entry good bad) bad = good ?s ?n" for good bad
    using assms by (simp add: base_path_def append_string_def Let_def)
  moreover have "text_of ?s ?n = entry" "text_of ?s p = [x]"
    using assms by (simp_all add: text_of_def path_write_def padded_to_def flip: assms(5))
  ultimately show ?thesis by blast
qed

end
