(* ===== verification/ArcRestore.thy ===== *)
theory ArcRestore
  imports ArcBackup
begin

text \<open>
  \<open>strarc/restore.cpp\<close>: the streams of a file go back to it by one of three routines
  (links, named streams, everything else); a file is prepared, written and finished; and
  the archive is read file by file. In a test of an archive, and for files that are not
  wanted, the streams are only skipped.
\<close>

section \<open>Memory images read back\<close>

fun bytes_wide :: "byte list \<Rightarrow> wide" where
  "bytes_wide (a # b # bs) = of_nat (le_nat [a, b]) # bytes_wide bs"
| "bytes_wide _ = []"

definition wide_at :: "byte list \<Rightarrow> nat \<Rightarrow> nat \<Rightarrow> wide" where
  "wide_at b pos n = bytes_wide (peek b pos n)"

definition bytes_info :: "byte list \<Rightarrow> file_information" where
  "bytes_info b =
    \<lparr>dwFileAttributes = of_nat (le_nat (peek b 0 4)), ftCreationTime = of_nat (le_nat (peek b 4 8)),
     ftLastAccessTime = of_nat (le_nat (peek b 12 8)), ftLastWriteTime = of_nat (le_nat (peek b 20 8)),
     dwVolumeSerialNumber = of_nat (le_nat (peek b 28 4)), nFileSizeHigh = of_nat (le_nat (peek b 32 4)),
     nFileSizeLow = of_nat (le_nat (peek b 36 4)), nNumberOfLinks = of_nat (le_nat (peek b 40 4)),
     nFileIndexHigh = of_nat (le_nat (peek b 44 4)), nFileIndexLow = of_nat (le_nat (peek b 48 4))\<rparr>"

section \<open>The first block of a stream\<close>

text \<open>The continuation gets the bytes in the buffer and the bytes still to read.\<close>

definition stream_size :: "byte list \<Rightarrow> nat \<Rightarrow> int" where
  "stream_size b dwBytesRead = int64 (int (GetDataOffset b) + Size_QuadPart b - int dwBytesRead)"

definition show_stream :: "strarc \<Rightarrow> arc \<Rightarrow> arc" where
  "show_stream s k =
    (if \<not> bVerbose s then k
     else
       let b = Buffer s; off = HEADER_SIZE + dwStreamNameSize b;
           tail =
             (if dwStreamId b = BACKUP_SPARSE_BLOCK \<and> dwStreamAttributes b = STREAM_SPARSE_ATTRIBUTE \<and>
                 Size_QuadPart b \<ge> 8 then say '', offset=0x%.8x%.8x]'' [MI (int (le_nat (peek b off 8)))] k
              else if dwStreamId b = BACKUP_LINK then say '', target=%s]'' [MW (wide_at b off (Size_LowPart b))] k
              else say '']'' [] k)
       in if dwStreamNameSize b > 0 then say '', stream=%s'' [MW (wide_at b HEADER_SIZE (dwStreamNameSize b))] tail
          else tail)"

definition FillEntireBuffer :: "strarc \<Rightarrow> nat \<Rightarrow> (strarc \<Rightarrow> nat \<Rightarrow> int \<Rightarrow> arc) \<Rightarrow> arc" where
  "FillEntireBuffer s dwBytesRead k =
    verbose s '', [id=%s, attr=%s, size=0x%.8x%.8x''
      [MS (GetStreamIdDescription (dwStreamId (Buffer s))), MI (int (dwStreamAttributes (Buffer s))),
       MI (int (Size_HighPart (Buffer s))), MI (int (Size_LowPart (Buffer s)))]
    (let BytesToRead = stream_size (Buffer s) dwBytesRead;
         FirstBlock =
           (if BytesToRead > int (dwBufferSize s - dwBytesRead) then dwBufferSize s - dwBytesRead
            else low_part BytesToRead)
     in if BytesToRead > 0 \<and> FirstBlock > 0 then
          ReadArchive s dwBytesRead FirstBlock (\<lambda>s done'.
            if done' \<noteq> FirstBlock then
              verbose s '', %.4g %s missing (%s:%u).'' [MI (BytesToRead - int done')]
                (Exception s XE_ARCHIVE_TRUNC None)
            else show_stream s (k s (dwBytesRead + done') (BytesToRead - int done')))
        else show_stream s (k s dwBytesRead BytesToRead))"

section \<open>Links\<close>

definition create_access :: "access_right list" where
  "create_access = [GENERIC_READ, GENERIC_WRITE, WRITE_DAC, WRITE_OWNER, DELETE, ACCESS_SYSTEM_SECURITY]"

text \<open>A file that failed is removed; a message says so if even that fails.\<close>

definition remove_file :: "int \<Rightarrow> string \<Rightarrow> wide \<Rightarrow> arc \<Rightarrow> arc" where
  "remove_file h message name k =
    NativeDeleteFile h (\<lambda>good. if good then k else complain message [MW name] k)"

text \<open>Copying instead of linking; the second handle is the one for the new link, if it
  is still open.\<close>

definition copy_link :: "strarc \<Rightarrow> int \<Rightarrow> int \<Rightarrow> wide \<Rightarrow> wide \<Rightarrow> (strarc \<Rightarrow> int \<Rightarrow> arc) \<Rightarrow> arc" where
  "copy_link s hFile hLink LinkName Target k =
    (let reopen =
       NativeOpenFile (RootDirectory s) LinkName [GENERIC_READ] [] all_shared
           [FILE_NON_DIRECTORY_FILE, FILE_SEQUENTIAL_ONLY, FILE_OPEN_FOR_BACKUP_INTENT] (\<lambda>hSource.
         if hSource = invalid_handle then
           complain ''strarc: Cannot open %s for copying: %s'' [MW LinkName]
             (say ''The file %s will not be restored.'' [MW Target] (k s hFile))
         else
           Sys (NativeCreateFile (RootDirectory s) Target create_access [] FILE_ATTRIBUTE_NORMAL
                 [FILE_SHARE_READ, FILE_SHARE_DELETE] (dwExtractCreation s) [FILE_OPEN_FOR_BACKUP_INTENT] True) (\<lambda>r.
             if rv r = invalid_handle then
               complain ''strarc: Cannot create %s for copying: %s'' [MW Target] (k s invalid_handle)
             else
               Sys (Backup (CopyByBackup hSource (rv r) LinkName Target)) (\<lambda>c.
                 if rv c = 0 then
                   complain (if bHardLinkSupport s then ''strarc: %s Failed both linking and copying %s''
                             else ''strarc: %s Failed to copy %s to'') [MW LinkName]
                     (say '' to %s.'' [MW Target]
                       (remove_file (rv r) ''strarc: Cannot remove temporary file %s: %s'' Target
                         (Sys (NtClose (rv r)) (\<lambda>_. Sys (NtClose hSource) (\<lambda>_. k s invalid_handle)))))
                 else verbose s '', Ok'' [] (Sys (NtClose hSource) (\<lambda>_. k s (rv r))))))
     in if hLink \<noteq> invalid_handle then Sys (NtClose hLink) (\<lambda>_. reopen) else reopen)"

definition WriteFileHardLinkFromArchive :: "strarc \<Rightarrow> int \<Rightarrow> nat \<Rightarrow> wide \<Rightarrow> bool \<Rightarrow> (strarc \<Rightarrow> int \<Rightarrow> arc) \<Rightarrow> arc" where
  "WriteFileHardLinkFromArchive s hFile dwBytesRead Target bSeekOnly k =
    (let off = GetDataOffset (Buffer s);
         incomplete = int dwBytesRead \<noteq> int64 (Size_QuadPart (Buffer s) + int off);
         seek = bSeekOnly \<or> incomplete;
         n = Size_LowPart (Buffer s) mod 65536;
         LinkName = wide_at (Buffer s) off n;
         failed = (\<lambda>hFile hSource.
           let go_on = (if seek then k s hFile else copy_link s hFile hSource LinkName Target k) in
           if bVerbose s then
             (if bHardLinkSupport s then complain '', link failed: %s Copying instead'' [] go_on
              else say '', copying'' [] go_on)
           else if bHardLinkSupport s then
             complain ''Failed to create hard link %s: %s'' [MW Target]
               (say ''Copying from %s instead.'' [MW LinkName] go_on)
           else go_on);
         start =
           (if off + n > length (Buffer s) \<and> \<not> seek then Crash
            else if bHardLinkSupport s \<and> \<not> seek then
              remove_file hFile ''strarc: Cannot remove temporary file %s. This may cause hard link restore to fail. Error: %s''
                Target
                (Sys (NtClose hFile) (\<lambda>_.
                  NativeOpenFile (RootDirectory s) LinkName [] [] all_shared [FILE_OPEN_FOR_BACKUP_INTENT] (\<lambda>hSource.
                    if hSource = invalid_handle then
                      complain ''strarc: Cannot open %s to restore link: %s'' [MW LinkName]
                        (say ''The link %s will not be restored.'' [MW Target] (k s invalid_handle))
                    else
                      Sys (Backup (CreateHardLinkToOpenFile hSource (RootDirectory s) Target)) (\<lambda>l.
                        if rv l \<noteq> 0 then
                          Sys (NtClose hSource) (\<lambda>_. k (s\<lparr>FileCounter := FileCounter s + 1\<rparr>) invalid_handle)
                        else failed invalid_handle hSource))))
            else failed hFile invalid_handle)
     in if incomplete then
          say (if bVerbose s then '' incomplete stream: Possibly corrupt or truncated archive. The link %s will not be restored.''
               else ''strarc: Error in archive when extracting %s'') [MW Target] start
        else start)"

section \<open>Streams without a name\<close>

text \<open>
  The context that \<open>BackupWrite\<close> keeps between its calls is \<open>num\<close> of its answers, zero
  for none. The continuation gets the handle, whether the rest is only skipped, and the
  result.
\<close>

definition end_context :: "int \<Rightarrow> arc \<Rightarrow> arc" where
  "end_context ctx k = (if ctx \<noteq> 0 then Sys (Backup BackupWriteAbort) (\<lambda>_. k) else k)"

definition drop_file :: "int \<Rightarrow> wide \<Rightarrow> arc \<Rightarrow> arc" where
  "drop_file h File k =
    (if h \<noteq> invalid_handle then
       remove_file h ''strarc: Cannot remove temporary file %s: %s'' File (Sys (CloseHandle h) (\<lambda>_. k))
     else k)"

function data_loop :: "strarc \<Rightarrow> int \<Rightarrow> int \<Rightarrow> wide \<Rightarrow> bool \<Rightarrow> int \<Rightarrow>
    (strarc \<Rightarrow> int \<Rightarrow> bool \<Rightarrow> bool \<Rightarrow> arc) \<Rightarrow> arc" where
  "data_loop s hFile BytesToRead File bSeekOnly ctx k =
    (if BytesToRead \<le> 0 then end_context ctx (k s hFile bSeekOnly True)
     else
       Sys YieldSingleProcessor (\<lambda>_.
       Sys Cancelled (\<lambda>c.
         if rv c \<noteq> 0 then drop_file hFile File (k s hFile bSeekOnly False)
         else
           ReadArchive s 0 (block_size s BytesToRead) (\<lambda>s n.
             if n = 0 then
               verbose s '', %.4g %s missing (%s:%u).'' [MI BytesToRead] (Exception s XE_ARCHIVE_TRUNC None)
             else if bSeekOnly then data_loop s hFile (BytesToRead - int n) File bSeekOnly ctx k
             else
               Sys (Backup (BackupWrite hFile (peek (Buffer s) 0 n) (bProcessSecurity s))) (\<lambda>r.
                 if rv r = 0 then
                   complain ''strarc: Restore of %s incomplete: %s'' [MW File]
                     (end_context (num r) (drop_file hFile File (k s hFile bSeekOnly False)))
                 else data_loop s hFile (BytesToRead - int n) File bSeekOnly (num r) k)))))"
  by pat_completeness auto
termination by (relation "measure (\<lambda>(s, h, b, f, q, c, k). nat b)") auto

declare data_loop.simps [simp del]

text \<open>A sparse block begins with its place in the file.\<close>

definition seek_sparse :: "strarc \<Rightarrow> int \<Rightarrow> wide \<Rightarrow> bool \<Rightarrow> (bool \<Rightarrow> arc) \<Rightarrow> arc" where
  "seek_sparse s hFile File bSeekOnly k =
    (if \<not> bSeekOnly \<and> dwStreamId (Buffer s) = BACKUP_SPARSE_BLOCK \<and>
        dwStreamAttributes (Buffer s) = STREAM_SPARSE_ATTRIBUTE then
       (let pos = HEADER_SIZE + dwStreamNameSize (Buffer s);
            set_end = (\<lambda>seek.
              Sys (Backup (SetEndOfFile hFile)) (\<lambda>r.
                if rv r = 0 then complain ''strarc: Size error in %s: %s'' [MW File] (k True) else k seek))
        in if pos + 8 > length (Buffer s) then Crash
           else
             Sys (Backup (SetFilePointer hFile (of_nat (le_nat (peek (Buffer s) pos 8))))) (\<lambda>r.
               if rv r = invalid_handle then
                 Sys GetLastError (\<lambda>e.
                   if err e \<noteq> 0 then complain ''strarc: Seek error in %s: %s'' [MW File] (set_end True)
                   else set_end bSeekOnly)
               else set_end bSeekOnly))
     else k bSeekOnly)"

definition WriteFileDataStreamFromArchive :: "strarc \<Rightarrow> int \<Rightarrow> nat \<Rightarrow> int \<Rightarrow> wide \<Rightarrow> bool \<Rightarrow>
    (strarc \<Rightarrow> int \<Rightarrow> bool \<Rightarrow> bool \<Rightarrow> arc) \<Rightarrow> arc" where
  "WriteFileDataStreamFromArchive s hFile dwBytesRead BytesToRead File bSeekOnly k =
    seek_sparse s hFile File bSeekOnly (\<lambda>bSeekOnly.
      if bSeekOnly then data_loop s hFile BytesToRead File True 0 k
      else
        Sys (Backup (BackupWrite hFile (peek (Buffer s) 0 dwBytesRead) (bProcessSecurity s))) (\<lambda>r.
          if rv r = 0 then
            complain ''strarc: Cannot write %s: %s'' [MW File]
              (remove_file hFile ''strarc: Cannot remove temporary file %s: %s'' File
                (Sys (CloseHandle hFile) (\<lambda>_. data_loop s invalid_handle BytesToRead File True (num r) k)))
          else data_loop s hFile BytesToRead File False (num r) k))"

section \<open>Named streams\<close>

text \<open>The plain data of a named stream, from the buffer and then block by block.\<close>

primrec named_data :: "nat \<Rightarrow> strarc \<Rightarrow> int \<Rightarrow> nat \<Rightarrow> nat \<Rightarrow> int \<Rightarrow> wide \<Rightarrow> (strarc \<Rightarrow> arc) \<Rightarrow> arc" where
  "named_data 0 s hStream off n BytesToRead name k = OutOfFuel"
| "named_data (Suc fuel) s hStream off n BytesToRead name k =
    (if off + n > length (Buffer s) then Crash
     else
       Sys (WriteFile hStream (peek (Buffer s) off n)) (\<lambda>r.
         if rv r = 0 \<or> num r \<noteq> int n then
           complain ''Error writing stream data %s: %s'' [MW name]
             (remove_file hStream ''Error removing temporary stream %s: %s'' name
               (SkipArchive s BytesToRead (\<lambda>s _ _. k s)))
         else if BytesToRead = 0 then k s
         else
           ReadArchive s 0 (block_size s BytesToRead) (\<lambda>s got.
             if got \<noteq> block_size s BytesToRead then
               say ''strarc: Incomplete stream: %u bytes missing.'' [MI (int (block_size s BytesToRead - got))]
                 (Exception s XE_ARCHIVE_TRUNC None)
             else named_data fuel s hStream 0 got (BytesToRead - int got) name k)))"

text \<open>Opening the stream; the name of the stream goes behind the name of the file.\<close>

definition open_stream :: "strarc \<Rightarrow> unicode_string \<Rightarrow> bool \<Rightarrow> (strarc \<Rightarrow> int \<Rightarrow> unicode_string \<Rightarrow> bool \<Rightarrow> arc) \<Rightarrow> arc" where
  "open_stream s base bSeekOnly k =
    (let n = dwStreamNameSize (Buffer s) mod 65536;
         stream_name = wide_at (Buffer s) HEADER_SIZE n;
         create = (\<lambda>s complete seek.
           Sys (NativeCreateFile (RootDirectory s) (text_of s complete) create_access [] FILE_ATTRIBUTE_NORMAL
                 [FILE_SHARE_READ, FILE_SHARE_DELETE] FILE_SUPERSEDE
                 [FILE_OPEN_FOR_BACKUP_INTENT, FILE_RANDOM_ACCESS] False) (\<lambda>r.
             if rv r = invalid_handle then
               complain ''Error restoring stream %s: %s'' [name_arg s complete] (k s (rv r) complete True)
             else k s (rv r) complete seek))
     in if HEADER_SIZE + n > length (Buffer s) then Crash
        else
          append_string s base stream_name
            (\<lambda>s complete. create s complete bSeekOnly)
            (say ''strarc: Bad path name %s'' [name_arg s base]
              (say '':%s'' [MW stream_name] (create s base True))))"

definition set_sparse :: "strarc \<Rightarrow> int \<Rightarrow> arc \<Rightarrow> arc" where
  "set_sparse s h k =
    verbose s '', Setting sparse attribute'' []
      (Sys (Backup (DeviceIoControl h FSCTL_SET_SPARSE)) (\<lambda>r.
        if rv r = 0 then (if bVerbose s then complain '', Failed: %s'' [] k else k)
        else verbose s '', Ok'' [] k))"

definition close_stream :: "int \<Rightarrow> arc \<Rightarrow> arc" where
  "close_stream h k = (if h \<noteq> invalid_handle then Sys (NtClose h) (\<lambda>_. k) else k)"

text \<open>
  \<open>Inl\<close>: a named stream begins in the buffer, with the bytes that are there and the bytes
  still to read. \<open>Inr\<close>: the headers behind it, with the handle and name of the stream.
  The result is whether the buffer has the header of a new file.
\<close>

primrec alternate_streams :: "nat \<Rightarrow> strarc \<Rightarrow> (nat \<times> int) + (int \<times> unicode_string) \<Rightarrow> unicode_string \<Rightarrow> bool \<Rightarrow>
    (strarc \<Rightarrow> bool \<Rightarrow> arc) \<Rightarrow> arc" where
  "alternate_streams 0 s st base bSeekOnly k = OutOfFuel"
| "alternate_streams (Suc fuel) s st base bSeekOnly k =
    (case st of
       Inl (dwBytesRead, BytesToRead) \<Rightarrow>
         open_stream s base bSeekOnly (\<lambda>s hStream complete seek.
           let go_on = (\<lambda>s. alternate_streams fuel s (Inr (hStream, complete)) base seek k);
               b = Buffer s; off = GetDataOffset b;
               transfer =
                 (if \<not> seek \<and> Size_QuadPart b > 0 \<and> dwStreamAttributes b = 0 then
                    named_data fuel s hStream off (low_part (int dwBytesRead - int off)) BytesToRead
                      (text_of s complete) go_on
                  else SkipArchive s BytesToRead (\<lambda>s _ _. go_on s))
           in if \<not> seek \<and> bRestoreCompression s \<and> dwStreamAttributes b AND STREAM_SPARSE_ATTRIBUTE \<noteq> 0
              then set_sparse s hStream transfer else transfer)
     | Inr (hStream, complete) \<Rightarrow>
         ReadStreamHeader s (\<lambda>s dwBytesRead.
           if dwBytesRead = 0 then close_stream hStream (k s False)
           else if dwBytesRead \<noteq> HEADER_SIZE then
             say ''strarc: Incomplete stream header: %u bytes missing.'' [MI (int (HEADER_SIZE - dwBytesRead))]
               (close_stream hStream (Exception s XE_ARCHIVE_TRUNC None))
           else if IsNewFileHeader (Buffer s) then close_stream hStream (k s True)
           else
             FillEntireBuffer s dwBytesRead (\<lambda>s dwBytesRead BytesToRead.
               if dwStreamNameSize (Buffer s) > 0 then
                 Sys (NtClose hStream) (\<lambda>_.
                   alternate_streams fuel s (Inl (dwBytesRead, BytesToRead)) base bSeekOnly k)
               else if \<not> bSeekOnly then
                 WriteFileDataStreamFromArchive s hStream dwBytesRead BytesToRead (text_of s complete) bSeekOnly
                   (\<lambda>s hStream seek result.
                     if \<not> result then
                       remove_file hStream ''Error removing temporary stream %s: %s'' (text_of s complete)
                         (close_stream hStream (k s False))
                     else alternate_streams fuel s (Inr (hStream, complete)) base seek k)
               else alternate_streams fuel s (Inr (hStream, complete)) base bSeekOnly k)))"

definition WriteFileAlternateStreamsFromArchive :: "nat \<Rightarrow> strarc \<Rightarrow> nat \<Rightarrow> int \<Rightarrow> unicode_string \<Rightarrow> bool \<Rightarrow>
    (strarc \<Rightarrow> bool \<Rightarrow> arc) \<Rightarrow> arc" where
  "WriteFileAlternateStreamsFromArchive fuel s dwBytesRead BytesToRead FileBaseName bSeekOnly k =
    alternate_streams fuel s (Inl (dwBytesRead, BytesToRead)) FileBaseName bSeekOnly k"

section \<open>All streams of a file\<close>

primrec file_streams :: "nat \<Rightarrow> strarc \<Rightarrow> nat \<Rightarrow> unicode_string \<Rightarrow> int \<Rightarrow> bool \<Rightarrow>
    (strarc \<Rightarrow> int \<Rightarrow> bool \<Rightarrow> bool \<Rightarrow> arc) \<Rightarrow> arc" where
  "file_streams 0 s dwBytesRead File hFile bSeekOnly k = OutOfFuel"
| "file_streams (Suc fuel) s dwBytesRead File hFile bSeekOnly k =
    Sys YieldSingleProcessor (\<lambda>_.
    Sys Cancelled (\<lambda>c.
      if rv c \<noteq> 0 then drop_file hFile (text_of s File) (k s hFile bSeekOnly False)
      else if dwBytesRead = 0 then k s hFile bSeekOnly True
      else if dwBytesRead < HEADER_SIZE then
        say ''strarc: Incomplete stream header: %u bytes missing.'' [MI (int (HEADER_SIZE - dwBytesRead))]
          (Exception s XE_ARCHIVE_TRUNC None)
      else if IsNewFileHeader (Buffer s) then k s hFile bSeekOnly True
      else
        FillEntireBuffer s dwBytesRead (\<lambda>s dwBytesRead BytesToRead.
          if dwStreamId (Buffer s) = BACKUP_LINK \<and> \<not> bSeekOnly then
            WriteFileHardLinkFromArchive s hFile dwBytesRead (text_of s File) bSeekOnly (\<lambda>s hFile.
              ReadStreamHeader s (\<lambda>s n. file_streams fuel s n File hFile bSeekOnly k))
          else if \<not> bSeekOnly \<and> dwStreamId (Buffer s) = BACKUP_ALTERNATE_DATA then
            WriteFileAlternateStreamsFromArchive fuel s dwBytesRead BytesToRead File bSeekOnly (\<lambda>s more'.
              file_streams fuel s (if more' then HEADER_SIZE else 0) File hFile bSeekOnly k)
          else
            WriteFileDataStreamFromArchive s hFile dwBytesRead BytesToRead (text_of s File) bSeekOnly
              (\<lambda>s hFile bSeekOnly result.
                ReadStreamHeader s (\<lambda>s n.
                  if \<not> result then k s hFile bSeekOnly False
                  else file_streams fuel s n File hFile bSeekOnly k)))))"

definition WriteFileFromArchive :: "nat \<Rightarrow> strarc \<Rightarrow> unicode_string \<Rightarrow> int \<Rightarrow> bool \<Rightarrow>
    (strarc \<Rightarrow> int \<Rightarrow> bool \<Rightarrow> bool \<Rightarrow> arc) \<Rightarrow> arc" where
  "WriteFileFromArchive fuel s File hFile bSeekOnly k =
    ReadStreamHeader s (\<lambda>s n. file_streams fuel s n File hFile bSeekOnly k)"

section \<open>One file\<close>

text \<open>The option to restore under the short name puts it in place of the last name.\<close>

definition use_short_name :: "strarc \<Rightarrow> unicode_string \<Rightarrow> file_information \<Rightarrow> wide \<Rightarrow>
    (strarc \<Rightarrow> unicode_string \<Rightarrow> bool \<Rightarrow> arc) \<Rightarrow> arc" where
  "use_short_name s File info short k =
    (if bRestoreShortNamesOnly s \<and> short \<noteq> [] \<and> \<not> has (dwFileAttributes info) FILE_ATTRIBUTE_DIRECTORY then
       (let d = split_directory (text_of s File) (Length File div 2 - 1); File = File\<lparr>Length := 2 * length d\<rparr> in
        append_string s File short (\<lambda>s File. k s File False)
          (complain ''strarc: Cannot restore %s: %s'' [MW short] (k s File True)))
     else k s File False)"

text \<open>Whether an existing file may be overwritten, from its attributes and times.\<close>

definition overwrite_allowed :: "strarc \<Rightarrow> basic_information \<Rightarrow> file_information \<Rightarrow> bool" where
  "overwrite_allowed s old info =
    (if bOverwriteArchived s \<and> has (FileAttributes old) FILE_ATTRIBUTE_ARCHIVE then False
     else if bOverwriteOlder s \<and> \<not> has (FileAttributes old) FILE_ATTRIBUTE_DIRECTORY then
       \<not> ftLastWriteTime info \<le> LastWriteTime old
     else True)"

definition look_at_existing :: "strarc \<Rightarrow> wide \<Rightarrow> file_information \<Rightarrow> int \<Rightarrow> (basic_information \<Rightarrow> bool \<Rightarrow> arc) \<Rightarrow> arc" where
  "look_at_existing s File info hFile k =
    Sys (NtQueryBasicInformation hFile) (\<lambda>r.
      let old = (if NT_SUCCESS (rv r) then basic_info r else no_basic_information);
          after = (\<lambda>include.
            if include \<and> has (FileAttributes old) FILE_ATTRIBUTE_READONLY then
              (let new = old\<lparr>FileAttributes := FileAttributes old AND NOT FILE_ATTRIBUTE_READONLY\<rparr> in
               Sys (NtSetBasicInformation hFile new) (\<lambda>u.
                 let close = Sys (NtClose hFile) (\<lambda>_. k new include) in
                 if \<not> NT_SUCCESS (rv u) then
                   Sys (RtlNtStatusToDosError (rv u)) (\<lambda>_.
                     complain ''strarc: Error resetting read-only attribute on existing %s: %s'' [MW File] close)
                 else close))
            else Sys (NtClose hFile) (\<lambda>_. k old include))
      in if NT_SUCCESS (rv r) then
           verbose s '', existing attr=%x'' [MI (uint (FileAttributes old))] (after (overwrite_allowed s old info))
         else
           Sys (RtlNtStatusToDosError (rv r)) (\<lambda>_.
             complain ''strarc: Error querying existing %s: %s'' [MW File] (after True)))"

definition probe_existing :: "strarc \<Rightarrow> wide \<Rightarrow> file_information \<Rightarrow> (basic_information \<Rightarrow> bool \<Rightarrow> arc) \<Rightarrow> arc" where
  "probe_existing s File info k =
    (let access = [FILE_READ_ATTRIBUTES, FILE_WRITE_ATTRIBUTES];
         go_on = (\<lambda>hFile.
           if hFile \<noteq> invalid_handle then look_at_existing s File info hFile k
           else
             Sys GetLastError (\<lambda>e.
               if err e = 2 \<or> err e = 3 then k no_basic_information (\<not> bFreshenExisting s)
               else complain ''strarc: Error opening existing %s: %s'' [MW File]
                      (k no_basic_information (\<not> bFreshenExisting s))))
     in NativeOpenFile (RootDirectory s) File access [] all_shared
          [FILE_OPEN_FOR_BACKUP_INTENT, FILE_OPEN_REPARSE_POINT] (\<lambda>hFile.
          if hFile = invalid_handle then
            Sys GetLastError (\<lambda>e.
              if err e = ERROR_INVALID_PARAMETER then
                NativeOpenFile (RootDirectory s) File access [] all_shared [FILE_OPEN_FOR_BACKUP_INTENT] go_on
              else go_on hFile)
          else go_on hFile))"

definition directory_access :: "access_right list" where
  "directory_access = [FILE_READ_ATTRIBUTES, FILE_TRAVERSE, FILE_LIST_DIRECTORY, FILE_WRITE_ATTRIBUTES]"

text \<open>The file or directory that is written; a directory that does not give the right to
  delete it is tried again without.\<close>

definition create_target :: "strarc \<Rightarrow> wide \<Rightarrow> file_information \<Rightarrow> basic_information \<Rightarrow> (int \<Rightarrow> arc) \<Rightarrow> arc" where
  "create_target s File info old k =
    (let a = dwFileAttributes info AND NOT FILE_ATTRIBUTE_READONLY;
         options = FILE_OPEN_FOR_BACKUP_INTENT #
           (if has (FileAttributes old) FILE_ATTRIBUTE_REPARSE_POINT then [FILE_OPEN_REPARSE_POINT] else []);
         rights = [WRITE_DAC, WRITE_OWNER, ACCESS_SYSTEM_SECURITY]
     in if has (dwFileAttributes info) FILE_ATTRIBUTE_DIRECTORY then
          Sys (NativeCreateDirectory (RootDirectory s) File (directory_access @ DELETE # rights) [] a all_shared
                options True) (\<lambda>r.
            if rv r = invalid_handle then
              Sys GetLastError (\<lambda>e.
                if err e = 5 \<or> err e = 32 then
                  Sys (NativeCreateDirectory (RootDirectory s) File (directory_access @ rights) [] a all_shared
                        options True) (\<lambda>r. k (rv r))
                else k (rv r))
            else k (rv r))
        else
          Sys (NativeCreateFile (RootDirectory s) File create_access [] a [FILE_SHARE_READ, FILE_SHARE_DELETE]
                (dwExtractCreation s) options True) (\<lambda>r. k (rv r)))"

definition reset_reparse :: "strarc \<Rightarrow> wide \<Rightarrow> int \<Rightarrow> arc \<Rightarrow> arc" where
  "reset_reparse s File hFile k =
    verbose s '', Resetting reparse point'' []
      (Sys (Backup (DeviceIoControl hFile FSCTL_DELETE_REPARSE_POINT)) (\<lambda>r.
        if rv r = 0 then complain ''strarc: Cannot reset existing reparse point %s: %s'' [MW File] k
        else verbose s '', Ok'' [] k))"

definition set_short_name :: "strarc \<Rightarrow> wide \<Rightarrow> int \<Rightarrow> wide \<Rightarrow> arc \<Rightarrow> arc" where
  "set_short_name s File hFile short k =
    Sys (Backup (SetShortFileName hFile short)) (\<lambda>r.
      if rv r = 0 then
        (if bVerbose s then complain ''strarc: Cannot set short name on %s: %s'' [MW File] k
         else if \<not> bNoShortNameWarnings s then
           Sys GetLastError (\<lambda>e.
             if err e = 87 \<or> err e = 24 \<or> err e = 317 then k
             else complain ''strarc: Cannot set short name on %s: %s'' [MW File] k)
         else k)
      else k)"

text \<open>After the data: compression, times and attributes.\<close>

definition final_information :: "strarc \<Rightarrow> basic_information \<Rightarrow> file_information \<Rightarrow> basic_information" where
  "final_information s old info =
    \<lparr>CreationTime = (if bProcessFileTimes s then ftCreationTime info else 0),
     LastAccessTime = (if bProcessFileTimes s then ftLastAccessTime info else 0),
     LastWriteTime = (if bProcessFileTimes s then ftLastWriteTime info else 0),
     ChangeTime = (if bProcessFileTimes s then ftLastWriteTime info else 0),
     FileAttributes = (if bProcessFileAttribs s then dwFileAttributes info else FILE_ATTRIBUTE_NORMAL)\<rparr>"

definition set_final :: "strarc \<Rightarrow> wide \<Rightarrow> int \<Rightarrow> basic_information \<Rightarrow> file_information \<Rightarrow> arc \<Rightarrow> arc" where
  "set_final s File hFile old info k =
    (if bProcessFileTimes s \<or> bProcessFileAttribs s then
       Sys (NtSetBasicInformation hFile (final_information s old info)) (\<lambda>r.
         if \<not> NT_SUCCESS (rv r) then
           Sys (RtlNtStatusToDosError (rv r)) (\<lambda>_.
             complain ''strarc: Unable to set time stamps and/or attributes on %s: %s'' [MW File] k)
         else k)
     else k)"

definition finish_file :: "strarc \<Rightarrow> wide \<Rightarrow> int \<Rightarrow> basic_information \<Rightarrow> file_information \<Rightarrow> arc \<Rightarrow> arc" where
  "finish_file s File hFile old info k =
    Sys (GetFileInformationByHandle hFile) (\<lambda>r.
      let last = set_final s File hFile old info k;
          wanted = has (dwFileAttributes info) FILE_ATTRIBUTE_COMPRESSED
      in if rv r \<noteq> 0 then
           (if bRestoreCompression s \<and>
               has (dwFileAttributes (file_info r) XOR dwFileAttributes info) FILE_ATTRIBUTE_COMPRESSED then
              verbose s ''strarc: %sompressing %s...'' [MS (if wanted then ''C'' else ''Dec''), MW File]
                (Sys (Backup (DeviceIoControl hFile (FSCTL_SET_COMPRESSION wanted))) (\<lambda>d.
                  if rv d = 0 then (if bVerbose s then complain '' Failed: %s'' [] last else last)
                  else verbose s '' Ok.'' [] last))
            else last)
         else if bVerbose s then complain ''Cannot get file attributes: %s'' [] last
         else last)"

text \<open>The steps between the creation of the file and its data.\<close>

definition dress_file :: "strarc \<Rightarrow> wide \<Rightarrow> int \<Rightarrow> bool \<Rightarrow> basic_information \<Rightarrow> file_information \<Rightarrow> wide \<Rightarrow> arc \<Rightarrow> arc" where
  "dress_file s File hFile bSeekOnly old info short k =
    (let live = hFile \<noteq> invalid_handle \<and> \<not> bSeekOnly in
     only_if (has (FileAttributes old) FILE_ATTRIBUTE_REPARSE_POINT \<and> live) (reset_reparse s File hFile)
     (only_if (has (dwFileAttributes info) FILE_ATTRIBUTE_SPARSE_FILE \<and> live \<and> bRestoreCompression s)
       (set_sparse s hFile)
     (only_if (\<not> bSkipShortNames s \<and> short \<noteq> [] \<and> live) (set_short_name s File hFile short) k)))"

definition restore_streams :: "nat \<Rightarrow> strarc \<Rightarrow> unicode_string \<Rightarrow> int \<Rightarrow> bool \<Rightarrow> bool \<Rightarrow> basic_information \<Rightarrow>
    file_information \<Rightarrow> (strarc \<Rightarrow> unicode_string \<Rightarrow> bool \<Rightarrow> arc) \<Rightarrow> arc" where
  "restore_streams fuel s File hFile bSeekOnly bIncludeThis old info k =
    WriteFileFromArchive fuel s File hFile bSeekOnly (\<lambda>s hFile bSeekOnly result.
      if \<not> result then k s File False
      else
        let valid = hFile \<noteq> invalid_handle;
            s' = (if (valid \<or> bTestMode s) \<and> bIncludeThis then s\<lparr>FileCounter := FileCounter s + 1\<rparr> else s);
            close = verbose s [] []
              (if valid then Sys (CloseHandle hFile) (\<lambda>_. k s' File True) else k s' File True)
        in only_if (\<not> bSeekOnly \<and> valid) (finish_file s (text_of s File) hFile old info) close)"

definition show_name :: "strarc \<Rightarrow> wide \<Rightarrow> bool \<Rightarrow> arc \<Rightarrow> arc" where
  "show_name s File bIncludeThis k =
    (if bVerbose s then (if bIncludeThis then k else say '', Skipping'' [] k)
     else if (bTestMode s \<or> bListFiles s) \<and> bIncludeThis then list_name File k
     else k)"

text \<open>A file that is tested or not wanted is not created.\<close>

definition restore_included :: "nat \<Rightarrow> strarc \<Rightarrow> unicode_string \<Rightarrow> file_information \<Rightarrow> wide \<Rightarrow> bool \<Rightarrow>
    basic_information \<Rightarrow> bool \<Rightarrow> (strarc \<Rightarrow> unicode_string \<Rightarrow> bool \<Rightarrow> arc) \<Rightarrow> arc" where
  "restore_included fuel s File info short bSeekOnly old bIncludeThis k =
    (let name = text_of s File;
         go_on = (\<lambda>hFile seek.
           dress_file s name hFile seek old info short
             (restore_streams fuel s File hFile seek bIncludeThis old info k));
         created = (\<lambda>hFile seek.
           if \<not> bTestMode s \<and> bIncludeThis \<and> hFile = invalid_handle then
             complain ''strarc: Cannot create %s: %s'' [MW name] (go_on hFile True)
           else go_on hFile seek)
     in show_name s name bIncludeThis
          (if bTestMode s \<or> \<not> bIncludeThis then created invalid_handle True
           else if bSeekOnly then created invalid_handle True
           else create_target s name info old (\<lambda>hFile. created hFile False)))"

definition RestoreFile :: "nat \<Rightarrow> strarc \<Rightarrow> unicode_string \<Rightarrow> file_information \<Rightarrow> wide \<Rightarrow>
    (strarc \<Rightarrow> unicode_string \<Rightarrow> bool \<Rightarrow> arc) \<Rightarrow> arc" where
  "RestoreFile fuel s File info short k =
    use_short_name s File info short (\<lambda>s File bSeekOnly.
      let name = text_of s File in
      verbose s ''%s, attr=%x'' [MW name, MI (uint (dwFileAttributes info))]
      (say_short s short
      (case ExcludedString s name info (None, Some False) of
         Some (_, Some bIncludeThis) \<Rightarrow>
           if bIncludeThis then
             probe_existing s name info (\<lambda>old include.
               restore_included fuel s File info short bSeekOnly old include k)
           else restore_included fuel s File info short bSeekOnly no_basic_information False k
       | _ \<Rightarrow> Crash)))"

section \<open>The archive\<close>

text \<open>The condition of the restore loop, with its own bound on the name.\<close>

definition no_file_header :: "byte list \<Rightarrow> bool" where
  "no_file_header b \<longleftrightarrow>
    dwStreamId b \<noteq> BACKUP_INVALID \<or> dwStreamAttributes b \<noteq> STRARC_MAGIC \<or>
    (Size_QuadPart b \<noteq> 52 \<and> Size_QuadPart b \<noteq> 78) \<or>
    dwStreamNameSize b = 0 \<or> dwStreamNameSize b \<ge> 65535 \<or> odd (dwStreamNameSize b)"

definition next_if :: "nat \<Rightarrow> strarc \<Rightarrow> bool \<Rightarrow> (strarc \<Rightarrow> arc) \<Rightarrow> (strarc \<Rightarrow> arc) \<Rightarrow> arc" where
  "next_if fuel s wrong good bad =
    (if wrong then ReadNextFileHeader fuel s (\<lambda>s found. if found then good s else bad s) else good s)"

primrec restore_loop :: "nat \<Rightarrow> strarc \<Rightarrow> (strarc \<Rightarrow> bool \<Rightarrow> arc) \<Rightarrow> arc" where
  "restore_loop 0 s k = OutOfFuel"
| "restore_loop (Suc fuel) s k =
    Sys YieldSingleProcessor (\<lambda>_.
      next_if fuel s (no_file_header (Buffer s)) (\<lambda>s.
      next_if fuel s (dwStreamNameSize (Buffer s) > USHORT_MAX) (\<lambda>s.
        let dwBytesToRead = (dwStreamNameSize (Buffer s) + Size_LowPart (Buffer s)) mod 2 ^ 32 in
        if dwBufferSize s - HEADER_SIZE < dwBytesToRead then Exception s XE_BAD_BUFFER None
        else
          ReadArchive s HEADER_SIZE dwBytesToRead (\<lambda>s dwBytesRead.
            if dwBytesRead \<noteq> dwBytesToRead then
              ReadNextFileHeader fuel s (\<lambda>s found.
                if \<not> found then Exception s XE_ARCHIVE_TRUNC None else restore_loop fuel s k)
            else
              let b = Buffer s; n = dwStreamNameSize b;
                  info = bytes_info (peek b (HEADER_SIZE + n) 52);
                  short = (if Size_QuadPart b = 78
                           then takeWhile (\<lambda>c. c \<noteq> 0) (wide_at b (HEADER_SIZE + n + 52) 26) else [])
              in copy_string s (FullPath s) (wide_at b HEADER_SIZE n) (\<lambda>s p.
                   RestoreFile fuel s p info short (\<lambda>s p good.
                     let s = s\<lparr>FullPath := p\<rparr> in
                     if good then restore_loop fuel s k else k s False))))
        (\<lambda>s. k s True)) (\<lambda>s. k s True))"

definition RestoreDirectoryTree :: "nat \<Rightarrow> strarc \<Rightarrow> (strarc \<Rightarrow> bool \<Rightarrow> arc) \<Rightarrow> arc" where
  "RestoreDirectoryTree fuel s k =
    ReadNextFileHeader fuel s (\<lambda>s found. if found then restore_loop fuel s k else k s False)"

end
