(* ===== verification/ArcRoundTrip.thy ===== *)
theory ArcRoundTrip
  imports ArcRestore
begin

text \<open>
  What a restore does with an archive that a backup wrote: the streams of a file go to
  \<open>BackupWrite\<close> as they came from \<open>BackupRead\<close>, whatever the sizes of the blocks, and a test
  of the archive lists exactly the files that are in it.
\<close>

section \<open>Streams as values\<close>

record stream =
  sid :: nat
  sattr :: nat
  sname :: "byte list"
  sdata :: "byte list"

definition stream_bytes :: "stream \<Rightarrow> byte list" where
  "stream_bytes st =
    stream_header (sid st) (sattr st) (length (sdata st)) (length (sname st)) @ sname st @ sdata st"

definition stream_ok :: "stream \<Rightarrow> bool" where
  "stream_ok st \<longleftrightarrow>
    0 < sid st \<and> sid st < 2 ^ 32 \<and> sattr st < 2 ^ 32 \<and> even (length (sname st)) \<and>
    length (sname st) < 2 ^ 31 \<and> length (sdata st) < 2 ^ 62"

text \<open>The streams that go to the file in one way: no link, no named stream, no sparse block.\<close>

definition direct :: "stream \<Rightarrow> bool" where
  "direct st \<longleftrightarrow>
    sid st \<noteq> BACKUP_LINK \<and> sid st \<noteq> BACKUP_ALTERNATE_DATA \<and>
    \<not> (sid st = BACKUP_SPARSE_BLOCK \<and> sattr st = STREAM_SPARSE_ATTRIBUTE)"

definition streams_bytes :: "stream list \<Rightarrow> byte list" where
  "streams_bytes sts = concat (map stream_bytes sts)"

lemma streams_bytes_simps [simp]:
  "streams_bytes [] = []" "streams_bytes (st # sts) = stream_bytes st @ streams_bytes sts"
  by (simp_all add: streams_bytes_def)

lemma length_stream_bytes: "length (stream_bytes st) = 20 + length (sname st) + length (sdata st)"
  by (simp add: stream_bytes_def)

text \<open>What may stand behind the streams of a file: nothing, or the header of the next file.\<close>

definition file_end :: "byte list \<Rightarrow> bool" where
  "file_end r \<longleftrightarrow> r = [] \<or> 20 \<le> length r \<and> file_header_ok r"

text \<open>The first \<open>20\<close> bytes as the header is left in the buffer, zeros at the end.\<close>

definition header_of :: "byte list \<Rightarrow> byte list" where
  "header_of d = take 20 (d @ replicate 20 0)"

lemma header_of_long: "20 \<le> length d \<Longrightarrow> header_of d = take 20 d"
  by (simp add: header_of_def)

lemma header_of_Nil: "header_of [] = replicate 20 0"
  by (simp add: header_of_def)

section \<open>Rules for the routines\<close>

text \<open>One order for the parts of the world.\<close>

lemma world_order [simp]:
  "(w :: archive)\<lparr>restored := x, rest := y\<rparr> = w\<lparr>rest := y, restored := x\<rparr>"
  "w\<lparr>listed := z, rest := y\<rparr> = w\<lparr>rest := y, listed := z\<rparr>"
  by simp_all

definition room :: "strarc \<Rightarrow> bool" where
  "room s \<longleftrightarrow> dwBufferSize s = length (Buffer s) \<and> 65632 \<le> dwBufferSize s \<and> dwBufferSize s < 2 ^ 32"

lemma room_update [simp]: "length m = length (Buffer s) \<Longrightarrow> room (s\<lparr>Buffer := m\<rparr>) = room s"
  by (simp add: room_def)

lemma wp_ReadStreamHeader [wp_rules]:
  assumes "hArchive s = h" and "20 \<le> length (Buffer s)" and "rest w = [] \<or> 20 \<le> length (rest w)"
    and "\<And>m. length m = length (Buffer s) \<Longrightarrow> take 20 m = header_of (rest w) \<Longrightarrow>
      wp (archive_world h) Q (w\<lparr>rest := drop 20 (rest w)\<rparr>) (k (s\<lparr>Buffer := m\<rparr>) (min 20 (length (rest w))))"
  shows "wp (archive_world h) Q w (ReadStreamHeader s k)"
  unfolding ReadStreamHeader_def HEADER_SIZE_def
proof (rule wp_ReadArchive[OF assms(1)])
  show "0 + 20 \<le> length (Buffer s)" using assms(2) by simp
  show "wp (archive_world h) Q (w\<lparr>rest := drop 20 (rest w)\<rparr>)
    (k (if min 20 (length (rest w)) < 20
        then s\<lparr>Buffer := poke (Buffer s) 0 (take 20 (rest w))\<rparr>
          \<lparr>Buffer := poke (Buffer (s\<lparr>Buffer := poke (Buffer s) 0 (take 20 (rest w))\<rparr>)) 0 (replicate 20 0)\<rparr>
        else s\<lparr>Buffer := poke (Buffer s) 0 (take 20 (rest w))\<rparr>) (min 20 (length (rest w))))"
  proof (cases "rest w = []")
    case True
    with assms(2) assms(4)[of "poke (Buffer s) 0 (replicate 20 0)"] show ?thesis
      by (simp add: header_of_Nil poke_def)
  next
    case False
    with assms(3) have l: "20 \<le> length (rest w)" by simp
    with assms(2) assms(4)[of "poke (Buffer s) 0 (take 20 (rest w))"] show ?thesis
      by (simp add: header_of_long poke_def)
  qed
qed

lemma wp_end_context [wp_rules]:
  "wp (archive_world h) Q w k \<Longrightarrow> wp (archive_world h) Q w (end_context ctx k)"
  by (simp add: end_context_def archive_simps)

lemma wp_show_stream [wp_rules]:
  "wp (archive_world h) Q w k \<Longrightarrow> wp (archive_world h) Q w (show_stream s k)"
  by (simp add: show_stream_def Let_def wp_say)

lemma block_size_bounds:
  assumes "room s" and "0 < b"
  shows "0 < block_size s b" "block_size s b \<le> nat b" "block_size s b \<le> length (Buffer s)"
proof -
  have "block_size s b = (if b > int (dwBufferSize s) then dwBufferSize s else nat b)"
    using assms by (auto simp: block_size_def low_part_def room_def)
  with assms show "0 < block_size s b" "block_size s b \<le> nat b" "block_size s b \<le> length (Buffer s)"
    by (auto simp: room_def split: if_splits)
qed

text \<open>The blocks of a stream go to the file in order, or nowhere.\<close>

lemma wp_data_loop [wp_rules]:
  assumes "hArchive s = h" and "room s" and "nat b \<le> length (rest w)"
    and "\<And>m. length m = length (Buffer s) \<Longrightarrow>
      wp (archive_world h) Q
        (w\<lparr>rest := drop (nat b) (rest w), restored := restored w @ (if q then [] else take (nat b) (rest w))\<rparr>)
        (k (s\<lparr>Buffer := m\<rparr>) f q True)"
  shows "wp (archive_world h) Q w (data_loop s f b File q ctx k)"
  using assms
proof (induction "nat b" arbitrary: s b w ctx rule: less_induct)
  case less
  show ?case
  proof (cases "b \<le> 0")
    case True
    then have "nat b = 0" by simp
    with less.prems(4)[of "Buffer s"] have "wp (archive_world h) Q w (k s f q True)" by (cases q) simp_all
    with True show ?thesis by (simp add: data_loop.simps wp_end_context)
  next
    case False
    let ?n = "block_size s b"
    have bounds: "0 < ?n" "?n \<le> nat b" "?n \<le> length (Buffer s)"
      using block_size_bounds[OF less.prems(2), of b] False by simp_all
    let ?d = "take ?n (rest w)"
    let ?s = "s\<lparr>Buffer := poke (Buffer s) 0 ?d\<rparr>"
    let ?w = "w\<lparr>rest := drop ?n (rest w)\<rparr>"
    let ?w' = "?w\<lparr>restored := restored w @ (if q then [] else ?d)\<rparr>"
    have got: "min ?n (length (rest w)) = ?n" "length ?d = ?n" using bounds less.prems(3) by simp_all
    have l: "length (Buffer ?s) = length (Buffer s)" using bounds got by simp
    have dat: "peek (Buffer ?s) 0 ?n = ?d" using peek_poke_same[of 0 "Buffer s" ?d] got by simp
    have step: "wp (archive_world h) Q ?w' (data_loop ?s f (b - int ?n) File q ctx' k)" for ctx'
    proof (rule less.hyps)
      show "nat (b - int ?n) < nat b" using bounds by simp
      show "hArchive ?s = h" using less.prems(1) by simp
      show "room ?s" using less.prems(2) l by (simp add: room_def)
      show "nat (b - int ?n) \<le> length (rest ?w')" using less.prems(3) bounds by simp
      fix m :: "byte list" assume m: "length m = length (Buffer ?s)"
      have e: "nat b = ?n + nat (b - int ?n)" using bounds by simp
      have "take (nat b) (rest w) = ?d @ take (nat (b - int ?n)) (drop ?n (rest w))"
        "drop (nat b) (rest w) = drop (nat (b - int ?n)) (drop ?n (rest w))"
        by (subst e, simp add: take_add) (subst e, simp add: add.commute)
      with less.prems(4)[of m] m l
      show "wp (archive_world h) Q
          (?w'\<lparr>rest := drop (nat (b - int ?n)) (rest ?w'),
             restored := restored ?w' @ (if q then [] else take (nat (b - int ?n)) (rest ?w'))\<rparr>)
          (k (?s\<lparr>Buffer := m\<rparr>) f q True)" by (cases q) simp_all
    qed
    have "wp (archive_world h) Q ?w
      (if ?n = 0 then verbose ?s '', %.4g %s missing (%s:%u).'' [MI b] (Exception ?s XE_ARCHIVE_TRUNC None)
       else if q then data_loop ?s f (b - int ?n) File q ctx k
       else
         Sys (Backup (BackupWrite f (peek (Buffer ?s) 0 ?n) (bProcessSecurity ?s))) (\<lambda>r.
           if rv r = 0 then
             complain ''strarc: Restore of %s incomplete: %s'' [MW File]
               (end_context (num r) (drop_file f File (k ?s f q False)))
           else data_loop ?s f (b - int ?n) File q (num r) k))"
      using step bounds(1) dat by (cases q) (simp_all add: archive_simps)
    then show ?thesis
      using False bounds less.prems(1) got
      by (subst data_loop.simps) (simp add: archive_simps wp_ReadArchive del: wpx.simps(2) add: wp_plain wp_Cancelled)
  qed
qed

lemma header_fields_take:
  "dwStreamId (take 20 b) = dwStreamId b" "dwStreamAttributes (take 20 b) = dwStreamAttributes b"
  "dwStreamNameSize (take 20 b) = dwStreamNameSize b" "Size_QuadPart (take 20 b) = Size_QuadPart b"
  "IsNewFileHeader (take 20 b) = IsNewFileHeader b"
  by (simp_all add: IsNewFileHeader_def dwStreamId_def dwStreamAttributes_def dwStreamNameSize_def
      Size_QuadPart_def peek_take)

lemma stream_in_buffer:
  assumes "stream_ok st" and "take 20 b = take 20 (stream_bytes st @ d)"
  shows "dwStreamId b = sid st" "dwStreamAttributes b = sattr st" "dwStreamNameSize b = length (sname st)"
    "Size_QuadPart b = int (length (sdata st))" "\<not> IsNewFileHeader b"
    "stream_size b 20 = int (length (sname st) + length (sdata st))"
proof -
  let ?hdr = "stream_header (sid st) (sattr st) (length (sdata st)) (length (sname st))"
  have t: "take 20 b = take 20 (?hdr @ [])" using assms(2) by (simp add: stream_bytes_def)
  have n: "length (sname st) < 2 ^ 32" "length (sdata st) < 2 ^ 63"
    using assms(1) by (simp_all add: stream_ok_def)
  note f = header_fields_take[of b, unfolded t, unfolded header_fields_take]
  show "dwStreamId b = sid st" "dwStreamAttributes b = sattr st"
    and nm: "dwStreamNameSize b = length (sname st)" and sz: "Size_QuadPart b = int (length (sdata st))"
    and "\<not> IsNewFileHeader b"
    using f assms(1) n stream_header_fields[of "sid st" "sattr st" "length (sdata st)" "length (sname st)" "[]"]
      stream_header_size[OF n(2), of "sid st" "sattr st" "length (sname st)" "[]"]
      stream_no_file_header[of "sid st" "length (sname st)" "sattr st" "length (sdata st)" "[]"]
    by (simp_all add: stream_ok_def)
  show "stream_size b 20 = int (length (sname st) + length (sdata st))"
    using assms(1) n unfolding stream_size_def GetDataOffset_def nm sz HEADER_SIZE_def
    by (subst int64_id) (simp_all add: stream_ok_def)
qed

text \<open>The first block: as much of the stream as the buffer takes behind the header.\<close>

lemma wp_FillEntireBuffer [wp_rules]:
  assumes "hArchive s = h" and "room s" and "stream_size (Buffer s) 20 = int n" and "n \<le> length (rest w)"
    and "\<And>got m. got \<le> n \<Longrightarrow> length m = length (Buffer s) \<Longrightarrow> take 20 m = take 20 (Buffer s) \<Longrightarrow>
      peek m 20 got = take got (rest w) \<Longrightarrow> 20 + got \<le> length m \<Longrightarrow>
      wp (archive_world h) Q (w\<lparr>rest := drop got (rest w)\<rparr>) (k (s\<lparr>Buffer := m\<rparr>) (20 + got) (int (n - got)))"
  shows "wp (archive_world h) Q w (FillEntireBuffer s 20 k)"
proof -
  let ?got = "if n > dwBufferSize s - 20 then dwBufferSize s - 20 else n"
  have r: "dwBufferSize s = length (Buffer s)" "65632 \<le> dwBufferSize s" "dwBufferSize s < 2 ^ 32"
    using assms(2) by (simp_all add: room_def)
  then have e: "(if int n > int (dwBufferSize s - 20) then dwBufferSize s - 20 else low_part (int n)) = ?got"
    by (auto simp: low_part_def)
  have b: "?got \<le> n" "20 + ?got \<le> length (Buffer s)" "?got \<le> length (rest w)" "0 < n \<Longrightarrow> 0 < ?got"
    using r assms(4) by auto
  show ?thesis
  proof (cases "n = 0")
    case True
    have "wp (archive_world h) Q w (k s 20 0)"
      using assms(5)[of 0 "Buffer s"] True r by simp
    with True assms(3) show ?thesis
      by (simp add: FillEntireBuffer_def Let_def wp_verbose wp_show_stream)
  next
    case False
    let ?m = "poke (Buffer s) 20 (take ?got (rest w))"
    have l: "length (take ?got (rest w)) = ?got" using b by simp
    have "wp (archive_world h) Q (w\<lparr>rest := drop ?got (rest w)\<rparr>)
        (k (s\<lparr>Buffer := ?m\<rparr>) (20 + ?got) (int (n - ?got)))"
    proof (rule assms(5)[OF b(1)])
      show "length ?m = length (Buffer s)" using b l by simp
      show "take 20 ?m = take 20 (Buffer s)" using b(2) by (simp add: poke_def)
      show "peek ?m 20 ?got = take ?got (rest w)"
        using peek_poke_same[of 20 "Buffer s" "take ?got (rest w)"] l b(2) by simp
      show "20 + ?got \<le> length ?m" using b l by simp
    qed
    moreover have "int (n - ?got) = int n - int ?got" using b(1) by (simp only: of_nat_diff)
    ultimately have "wp (archive_world h) Q (w\<lparr>rest := drop ?got (rest w)\<rparr>)
        (show_stream (s\<lparr>Buffer := ?m\<rparr>) (k (s\<lparr>Buffer := ?m\<rparr>) (20 + ?got) (int n - int ?got)))"
      by (simp only: wp_show_stream)
    moreover have "min ?got (length (rest w)) = ?got" using b(3) by simp
    moreover have "20 + ?got \<le> length (Buffer s)" by (rule b(2))
    moreover have "0 < int n" "0 < ?got" using False b(4) by simp_all
    ultimately show ?thesis
      unfolding FillEntireBuffer_def assms(3) e Let_def
      using assms(1) by (intro wp_verbose) (simp only: if_True simp_thms, intro wp_ReadArchive, simp_all)
  qed
qed

section \<open>The streams of one file\<close>

lemma wp_WriteFileDataStreamFromArchive [wp_rules]:
  assumes "hArchive s = h" and "room s" and "nat b \<le> length (rest w)"
    and "q \<or> \<not> (dwStreamId (Buffer s) = BACKUP_SPARSE_BLOCK \<and> dwStreamAttributes (Buffer s) = STREAM_SPARSE_ATTRIBUTE)"
    and "\<And>m. length m = length (Buffer s) \<Longrightarrow>
      wp (archive_world h) Q
        (w\<lparr>rest := drop (nat b) (rest w),
           restored := restored w @ (if q then [] else peek (Buffer s) 0 n @ take (nat b) (rest w))\<rparr>)
        (k (s\<lparr>Buffer := m\<rparr>) f q True)"
  shows "wp (archive_world h) Q w (WriteFileDataStreamFromArchive s f n b File q k)"
proof -
  have "seek_sparse s f File q j = j q" for j using assms(4) by (auto simp: seek_sparse_def)
  moreover have "wp (archive_world h) Q w (data_loop s f b File True 0 k)" if q
    using that assms by (intro wp_data_loop) simp_all
  moreover have "wp (archive_world h) Q (w\<lparr>restored := restored w @ peek (Buffer s) 0 n\<rparr>)
      (data_loop s f b File False ctx k)" if "\<not> q" for ctx
    using that assms by (intro wp_data_loop) simp_all
  ultimately show ?thesis
    by (cases q) (simp_all add: WriteFileDataStreamFromArchive_def archive_simps)
qed

lemma header_of_append: "20 \<le> length x \<Longrightarrow> header_of (x @ y) = take 20 x"
  by (simp add: header_of_def)

text \<open>One stream whose header is in the buffer; the next header is in the buffer afterwards.\<close>

lemma wp_one_stream:
  assumes "hArchive s = h" and "room s" and "stream_ok st" and "q \<or> direct st"
    and buf: "take 20 (Buffer s) = take 20 (stream_bytes st @ d)" and w: "rest w = sname st @ sdata st @ d"
    and d: "d = [] \<or> 20 \<le> length d"
    and goal: "\<And>m. length m = length (Buffer s) \<Longrightarrow> take 20 m = header_of d \<Longrightarrow>
      wp (archive_world h) Q
        (w\<lparr>rest := drop 20 d, restored := restored w @ (if q then [] else stream_bytes st)\<rparr>)
        (K (s\<lparr>Buffer := m\<rparr>) f q (min 20 (length d)))"
  shows "wp (archive_world h) Q w (FillEntireBuffer s 20 (\<lambda>s n b.
      if dwStreamId (Buffer s) = BACKUP_LINK \<and> \<not> q then A s n b
      else if \<not> q \<and> dwStreamId (Buffer s) = BACKUP_ALTERNATE_DATA then B s n b
      else
        WriteFileDataStreamFromArchive s f n b (N s) q (\<lambda>s f q result.
          ReadStreamHeader s (\<lambda>s n. if \<not> result then C s f q else K s f q n))))"
proof -
  let ?x = "sname st @ sdata st"
  show ?thesis
  proof (rule wp_FillEntireBuffer[OF assms(1,2)])
    show "stream_size (Buffer s) 20 = int (length ?x)" using stream_in_buffer(6)[OF assms(3) buf] by simp
    show "length ?x \<le> length (rest w)" using w by simp
  next
    fix got and m :: "byte list"
    assume got: "got \<le> length ?x" and m: "length m = length (Buffer s)" "take 20 m = take 20 (Buffer s)"
      and p: "peek m 20 got = take got (rest w)"
    let ?s = "s\<lparr>Buffer := m\<rparr>" and ?w = "w\<lparr>rest := drop got (rest w)\<rparr>" and ?b = "int (length ?x - got)"
    have m': "take 20 m = take 20 (stream_bytes st @ d)" using m(2) buf by simp
    have y: "nat ?b = length (drop got ?x)" "rest ?w = drop got ?x @ d" using got w by simp_all
    have le: "nat ?b \<le> length (rest ?w)" unfolding y by simp
    have parts: "take (nat ?b) (rest ?w) = drop got ?x" "drop (nat ?b) (rest ?w) = d" unfolding y by simp_all
    have "peek m 0 20 = take 20 m" by (simp add: peek_def)
    then have "peek m 0 (20 + got) = take 20 m @ take got ?x"
      using peek_add[of m 0 20 got] p got w by simp
    then have "peek m 0 (20 + got) @ drop got ?x = take 20 m @ ?x" by (simp del: take_append drop_append)
    with m' have whole: "peek m 0 (20 + got) @ drop got ?x = stream_bytes st" by (simp add: stream_bytes_def)
    have "wp (archive_world h) Q ?w
        (WriteFileDataStreamFromArchive ?s f (20 + got) ?b (N ?s) q (\<lambda>s f q result.
          ReadStreamHeader s (\<lambda>s n. if \<not> result then C s f q else K s f q n)))"
    proof (rule wp_WriteFileDataStreamFromArchive)
      show "hArchive ?s = h" "room ?s" using assms(1,2) m(1) by simp_all
      show "nat ?b \<le> length (rest ?w)" by (rule le)
      show "q \<or> \<not> (dwStreamId (Buffer ?s) = BACKUP_SPARSE_BLOCK \<and> dwStreamAttributes (Buffer ?s) = STREAM_SPARSE_ATTRIBUTE)"
        using assms(4) stream_in_buffer(1,2)[OF assms(3) m'] by (auto simp: direct_def)
    next
      fix b :: "byte list" assume b: "length b = length (Buffer ?s)"
      have "wp (archive_world h) Q
        (w\<lparr>rest := d, restored := restored w @ (if q then [] else stream_bytes st)\<rparr>)
        (ReadStreamHeader (?s\<lparr>Buffer := b\<rparr>) (\<lambda>s n. if \<not> True then C s f q else K s f q n))"
      proof (rule wp_ReadStreamHeader)
        fix c :: "byte list" assume c: "length c = length (Buffer (?s\<lparr>Buffer := b\<rparr>))"
          and "take 20 c = header_of (rest (w\<lparr>rest := d, restored := restored w @ (if q then [] else stream_bytes st)\<rparr>))"
        then have "take 20 c = header_of d" "length c = length (Buffer s)" using b m(1) by simp_all
        from goal[OF this(2,1)]
        show "wp (archive_world h) Q
          (w\<lparr>rest := d, restored := restored w @ (if q then [] else stream_bytes st)\<rparr>
            \<lparr>rest := drop 20 (rest (w\<lparr>rest := d, restored := restored w @ (if q then [] else stream_bytes st)\<rparr>))\<rparr>)
          (if \<not> True then C (?s\<lparr>Buffer := b\<rparr>\<lparr>Buffer := c\<rparr>) f q
           else K (?s\<lparr>Buffer := b\<rparr>\<lparr>Buffer := c\<rparr>) f q
             (min 20 (length (rest (w\<lparr>rest := d, restored := restored w @ (if q then [] else stream_bytes st)\<rparr>)))))"
          by (cases q) simp_all
      qed (use assms(1,2) b m(1) d in \<open>simp_all add: room_def\<close>)
      with whole show "wp (archive_world h) Q
        (?w\<lparr>rest := drop (nat ?b) (rest ?w),
          restored := restored ?w @ (if q then [] else peek (Buffer ?s) 0 (20 + got) @ take (nat ?b) (rest ?w))\<rparr>)
        (ReadStreamHeader (?s\<lparr>Buffer := b\<rparr>) (\<lambda>s n. if \<not> True then C s f q else K s f q n))"
        unfolding parts by (cases q) simp_all
    qed
    then show "wp (archive_world h) Q ?w
      (if dwStreamId (Buffer ?s) = BACKUP_LINK \<and> \<not> q then A ?s (20 + got) ?b
       else if \<not> q \<and> dwStreamId (Buffer ?s) = BACKUP_ALTERNATE_DATA then B ?s (20 + got) ?b
       else WriteFileDataStreamFromArchive ?s f (20 + got) ?b (N ?s) q (\<lambda>s f q result.
          ReadStreamHeader s (\<lambda>s n. if \<not> result then C s f q else K s f q n)))"
      using assms(4) stream_in_buffer(1)[OF assms(3) m'] by (auto simp: direct_def)
  qed
qed

text \<open>
  The loop with the header of the first stream, or what stands behind the streams, in the
  buffer.
\<close>

lemma wp_file_streams:
  assumes "hArchive s = h" and "room s" and "file_end r" and "\<forall>st \<in> set sts. stream_ok st \<and> (q \<or> direct st)"
    and "take 20 (Buffer s) = header_of (streams_bytes sts @ r)" and "rest w = drop 20 (streams_bytes sts @ r)"
    and "n = min 20 (length (streams_bytes sts @ r))" and "length (streams_bytes sts @ r) < fuel"
    and "\<And>m. length m = length (Buffer s) \<Longrightarrow> take 20 m = header_of r \<Longrightarrow>
      wp (archive_world h) Q
        (w\<lparr>rest := drop 20 r, restored := restored w @ (if q then [] else streams_bytes sts)\<rparr>)
        (k (s\<lparr>Buffer := m\<rparr>) f q True)"
  shows "wp (archive_world h) Q w (file_streams fuel s n File f q k)"
  using assms(1,2,4-9)
proof (induction fuel arbitrary: sts s w n)
  case (Suc fuel)
  show ?case
  proof (cases sts)
    case Nil
    have "w\<lparr>rest := drop 20 r, restored := restored w @ (if q then [] else streams_bytes sts)\<rparr> = w"
      using Nil Suc.prems(5) by (cases q) (auto intro: world_eqI)
    with Suc.prems(8)[of "Buffer s"] Nil Suc.prems(4) have goal: "wp (archive_world h) Q w (k s f q True)" by simp
    show ?thesis
    proof (cases "r = []")
      case True
      with goal Nil Suc.prems(6) show ?thesis by (simp add: archive_simps)
    next
      case False
      with assms(3) have r: "20 \<le> length r" "file_header_ok r" by (simp_all add: file_end_def)
      with Nil Suc.prems(4) have "take 20 (Buffer s) = take 20 r" by (simp add: header_of_long)
      then have "IsNewFileHeader (Buffer s)"
        using file_header_new[OF r(2)] header_fields_take(5) by metis
      with goal Nil Suc.prems(6) r show ?thesis by (simp add: archive_simps HEADER_SIZE_def)
    qed
  next
    case (Cons st sts')
    let ?d = "streams_bytes sts' @ r"
    have ok: "stream_ok st" "q \<or> direct st" using Cons Suc.prems(3) by simp_all
    have buf: "take 20 (Buffer s) = take 20 (stream_bytes st @ ?d)"
      using Suc.prems(4) Cons by (simp add: header_of_append length_stream_bytes)
    have w: "rest w = sname st @ sdata st @ ?d" using Suc.prems(5) Cons by (simp add: stream_bytes_def)
    have d: "?d = [] \<or> 20 \<le> length ?d"
      using assms(3) by (cases sts') (auto simp: file_end_def length_stream_bytes)
    have IH: "wp (archive_world h) Q
        (w\<lparr>rest := drop 20 ?d, restored := restored w @ (if q then [] else stream_bytes st)\<rparr>)
        (file_streams fuel (s\<lparr>Buffer := m\<rparr>) (min 20 (length ?d)) File f q k)"
      if m: "length m = length (Buffer s)" "take 20 m = header_of ?d" for m
    proof (rule Suc.IH)
      show "\<forall>st \<in> set sts'. stream_ok st \<and> (q \<or> direct st)" using Suc.prems(3) Cons by simp
      show "length ?d < fuel" using Suc.prems(7) Cons by (simp add: length_stream_bytes)
      fix e :: "byte list" assume e: "length e = length (Buffer (s\<lparr>Buffer := m\<rparr>))" "take 20 e = header_of r"
      with m have "length e = length (Buffer s)" by simp
      from Suc.prems(8)[OF this e(2)] Cons
      show "wp (archive_world h) Q
          (w\<lparr>rest := drop 20 ?d, restored := restored w @ (if q then [] else stream_bytes st)\<rparr>
            \<lparr>rest := drop 20 r, restored := restored (w\<lparr>rest := drop 20 ?d,
               restored := restored w @ (if q then [] else stream_bytes st)\<rparr>) @ (if q then [] else streams_bytes sts')\<rparr>)
          (k (s\<lparr>Buffer := m\<rparr>\<lparr>Buffer := e\<rparr>) f q True)" by (cases q) simp_all
    qed (use Suc.prems(1,2) m in simp_all)
    note step = wp_one_stream[OF Suc.prems(1,2) ok buf w d,
        where f = f and Q = Q and K = "\<lambda>s f q n. file_streams fuel s n File f q k"]
    from step[OF IH] stream_in_buffer(5)[OF ok(1) buf] Suc.prems(6) Cons
    show ?thesis by (simp add: archive_simps HEADER_SIZE_def length_stream_bytes)
  qed
qed simp

section \<open>Listing an archive\<close>

lemma bytes_wide_name_bytes: "bytes_wide (name_bytes w) = w"
proof (induction w)
  case (Cons c w)
  have "le_bytes 2 (unat c) = [of_nat (unat c), of_nat (unat c div 256)]"
    by (simp add: numeral_2_eq_2)
  moreover have "unat c < 65536" using unsigned_less[of c] by simp
  then have "le_nat (le_bytes 2 (unat c)) = unat c"
    by (simp add: le_nat_le_bytes del: le_bytes.simps)
  moreover have "name_bytes (c # w) = le_bytes 2 (unat c) @ name_bytes w" by (simp add: name_bytes_def)
  ultimately show ?case using Cons by simp
qed (simp add: name_bytes_def)

lemma le_word: "unat (x :: 'a :: len word) < 256 ^ n \<Longrightarrow> le_nat (le_bytes n (unat x)) = unat x"
  by (simp add: le_nat_le_bytes)

text \<open>The file information comes back as it was written.\<close>

lemma bytes_info_info_bytes: "bytes_info (info_bytes f) = f"
proof -
  have "unat x < 256 ^ 4" for x :: DWORD using unsigned_less[of x] by simp
  moreover have "unat x < 256 ^ 8" for x :: QWORD using unsigned_less[of x] by simp
  ultimately show ?thesis
    by (simp add: bytes_info_def info_bytes_def peek_append1 peek_append2 peek_all le_word del: le_bytes.simps)
qed

record entry =
  ename :: wide
  einfo :: file_information
  eshort :: wide
  estreams :: "stream list"

definition entry_bytes :: "entry \<Rightarrow> byte list" where
  "entry_bytes e = file_header_bytes (ename e) (einfo e) (eshort e) @ streams_bytes (estreams e)"

definition entry_ok :: "entry \<Rightarrow> bool" where
  "entry_ok e \<longleftrightarrow>
    ename e \<noteq> [] \<and> length (ename e) \<le> 32767 \<and> length (eshort e) \<le> 12 \<and> (\<forall>st \<in> set (estreams e). stream_ok st)"

definition archive_bytes :: "entry list \<Rightarrow> byte list" where
  "archive_bytes es = concat (map entry_bytes es)"

lemma archive_bytes_simps [simp]:
  "archive_bytes [] = []" "archive_bytes (e # es) = entry_bytes e @ archive_bytes es"
  by (simp_all add: archive_bytes_def)

text \<open>
  A session without filters and without the switches that depend on existing files, with
  the path buffer as \<open>Initialize\<close> leaves it; the switch \<open>-t\<close> alone, and the switch \<open>-x\<close>.
\<close>

definition unfiltered :: "strarc \<Rightarrow> bool" where
  "unfiltered s \<longleftrightarrow>
    dwExcludeStrings s = 0 \<and> dwIncludeStrings s = 0 \<and> CustomFilter s = None \<and>
    \<not> bOverwriteOlder s \<and> \<not> bOverwriteArchived s \<and> \<not> bFreshenExisting s \<and> \<not> bRestoreShortNamesOnly s \<and>
    literal (FullPath s) = None \<and> MaximumLength (FullPath s) = USHORT_MAX"

definition listing :: "strarc \<Rightarrow> bool" where
  "listing s \<longleftrightarrow> unfiltered s \<and> bTestMode s \<and> \<not> bVerbose s"

definition extracting :: "strarc \<Rightarrow> bool" where
  "extracting s \<longleftrightarrow> unfiltered s \<and> \<not> bTestMode s \<and> \<not> bListFiles s"

text \<open>What changes in the session while \<open>n\<close> files are listed.\<close>

definition moved :: "nat \<Rightarrow> strarc \<Rightarrow> strarc \<Rightarrow> bool" where
  "moved n s s' \<longleftrightarrow>
    (\<exists>m p l. length m = length (Buffer s) \<and>
      s' = s\<lparr>wczFullPathBuffer := p, FullPath := FullPath s\<lparr>Length := l\<rparr>, Buffer := m,
             FileCounter := FileCounter s + int n\<rparr>)"

lemma moved_buffer: "length m = length (Buffer s) \<Longrightarrow> moved 0 s (s\<lparr>Buffer := m\<rparr>)"
  unfolding moved_def
  by (rule exI[of _ m], rule exI[of _ "wczFullPathBuffer s"], rule exI[of _ "Length (FullPath s)"]) simp

lemma moved_trans: "moved i s s' \<Longrightarrow> moved j s' s'' \<Longrightarrow> moved (i + j) s s''"
  unfolding moved_def
  by (elim exE conjE, rule_tac x = ma in exI, rule_tac x = pa in exI, rule_tac x = la in exI) simp

lemma moved_keeps: "moved n s s' \<Longrightarrow> room s' = room s \<and> hArchive s' = hArchive s \<and>
    length (Buffer s') = length (Buffer s) \<and> literal (FullPath s') = literal (FullPath s) \<and>
    MaximumLength (FullPath s') = MaximumLength (FullPath s)"
  by (auto simp: moved_def room_def)

lemma mode_paths:
  "listing s \<Longrightarrow> literal (FullPath s) = None \<and> MaximumLength (FullPath s) = USHORT_MAX"
  "extracting s \<Longrightarrow> literal (FullPath s) = None \<and> MaximumLength (FullPath s) = USHORT_MAX"
  by (simp_all add: listing_def extracting_def unfiltered_def)

lemma moved_mode: "moved n s s' \<Longrightarrow> listing s' = listing s \<and> extracting s' = extracting s"
  by (auto simp: moved_def listing_def extracting_def unfiltered_def)

lemma wp_probe_existing:
  assumes "unfiltered s" and "\<And>old. wp (archive_world h) Q w (k old True)"
  shows "wp (archive_world h) Q w (probe_existing s File info k)"
  using assms
  by (auto simp: probe_existing_def look_at_existing_def Let_def unfiltered_def overwrite_allowed_def archive_simps
      intro!: wp_NativeOpenFile wp_verbose wp_complain)

lemma wp_list_name [wp_rules]:
  "wp (archive_world h) Q (w\<lparr>listed := listed w @ [File]\<rparr>) k \<Longrightarrow> wp (archive_world h) Q w (list_name File k)"
  by (auto simp: list_name_def archive_world_def)

lemma wp_WriteFileFromArchive:
  assumes "hArchive s = h" and "room s" and "file_end r" and "\<forall>st \<in> set sts. stream_ok st \<and> (q \<or> direct st)"
    and w: "rest w = streams_bytes sts @ r" and "length (rest w) < fuel"
    and "\<And>m. length m = length (Buffer s) \<Longrightarrow> take 20 m = header_of r \<Longrightarrow>
      wp (archive_world h) Q
        (w\<lparr>rest := drop 20 r, restored := restored w @ (if q then [] else streams_bytes sts)\<rparr>)
        (k (s\<lparr>Buffer := m\<rparr>) f q True)"
  shows "wp (archive_world h) Q w (WriteFileFromArchive fuel s File f q k)"
  unfolding WriteFileFromArchive_def
proof (rule wp_ReadStreamHeader[OF assms(1)])
  show "20 \<le> length (Buffer s)" using assms(2) by (simp add: room_def)
  show "rest w = [] \<or> 20 \<le> length (rest w)"
    unfolding w using assms(3) by (cases sts) (auto simp: file_end_def length_stream_bytes)
next
  fix m :: "byte list" assume m: "length m = length (Buffer s)" "take 20 m = header_of (rest w)"
  show "wp (archive_world h) Q (w\<lparr>rest := drop 20 (rest w)\<rparr>)
    (file_streams fuel (s\<lparr>Buffer := m\<rparr>) (min 20 (length (rest w))) File f q k)"
  proof (rule wp_file_streams)
    fix b :: "byte list" assume "length b = length (Buffer (s\<lparr>Buffer := m\<rparr>))" "take 20 b = header_of r"
    with m(1) assms(7)[of b]
    show "wp (archive_world h) Q (w\<lparr>rest := drop 20 (rest w)\<rparr>\<lparr>rest := drop 20 r,
        restored := restored (w\<lparr>rest := drop 20 (rest w)\<rparr>) @ (if q then [] else streams_bytes sts)\<rparr>)
      (k (s\<lparr>Buffer := m\<rparr>\<lparr>Buffer := b\<rparr>) f q True)" by (cases q) simp_all
  qed (use assms(1-4,6) w m in simp_all)
qed

text \<open>A file is listed and counted, and its streams are skipped.\<close>

lemma wp_RestoreFile_listing:
  assumes "hArchive s = h" and "room s" and "listing s" and "file_end r" and "\<forall>st \<in> set sts. stream_ok st"
    and "rest w = streams_bytes sts @ r" and "length (rest w) < fuel"
    and goal: "\<And>m. length m = length (Buffer s) \<Longrightarrow> take 20 m = header_of r \<Longrightarrow>
      wp (archive_world h) Q (w\<lparr>rest := drop 20 r, listed := listed w @ [text_of s File]\<rparr>)
        (k (s\<lparr>Buffer := m, FileCounter := FileCounter s + 1\<rparr>) File True)"
  shows "wp (archive_world h) Q w (RestoreFile fuel s File info short k)"
proof -
  note l = assms(3)[unfolded listing_def unfiltered_def]
  let ?w = "w\<lparr>listed := listed w @ [text_of s File]\<rparr>"
  have "wp (archive_world h) Q ?w (restore_streams fuel s File invalid_handle True True old info k)" for old
    unfolding restore_streams_def
  proof (rule wp_WriteFileFromArchive[OF assms(1,2,4)])
    show "rest ?w = streams_bytes sts @ r" "length (rest ?w) < fuel" using assms(6,7) by simp_all
    fix m :: "byte list" assume m: "length m = length (Buffer s)" "take 20 m = header_of r"
    from goal[OF m] l show "wp (archive_world h) Q
      (?w\<lparr>rest := drop 20 r, restored := restored ?w @ (if True then [] else streams_bytes sts)\<rparr>)
      (if \<not> True then k (s\<lparr>Buffer := m\<rparr>) File False
       else
        let valid = invalid_handle \<noteq> invalid_handle;
            s' = (if (valid \<or> bTestMode (s\<lparr>Buffer := m\<rparr>)) \<and> True
              then s\<lparr>Buffer := m\<rparr>\<lparr>FileCounter := FileCounter (s\<lparr>Buffer := m\<rparr>) + 1\<rparr> else s\<lparr>Buffer := m\<rparr>);
            close = verbose (s\<lparr>Buffer := m\<rparr>) [] []
              (if valid then Sys (CloseHandle invalid_handle) (\<lambda>_. k s' File True) else k s' File True)
        in only_if (\<not> True \<and> valid)
          (finish_file (s\<lparr>Buffer := m\<rparr>) (text_of (s\<lparr>Buffer := m\<rparr>) File) invalid_handle old info) close)"
      by (simp add: Let_def only_if_def verbose_def)
  qed (use assms(5) in simp)
  then have "wp (archive_world h) Q w (restore_included fuel s File info short False old True k)" for old
    using l by (simp add: restore_included_def Let_def show_name_def dress_file_def only_if_def wp_list_name)
  then have "wp (archive_world h) Q w (probe_existing s (text_of s File) info (\<lambda>old include.
      restore_included fuel s File info short False old include k))"
    using assms(3) by (intro wp_probe_existing) (simp add: listing_def)
  moreover have "ExcludedString s (text_of s File) info (None, Some False) = Some (None, Some True)"
    using l by (simp add: ExcludedString_def filter_verdict_def split: if_split)
  ultimately show ?thesis
    using l by (simp add: RestoreFile_def use_short_name_def verbose_def Let_def wp_say_short)
qed

text \<open>The calls around the data of a file that is written leave the archive alone.\<close>

lemma wp_create_target [wp_rules]:
  "(\<And>f. wp (archive_world h) Q w (k f)) \<Longrightarrow> wp (archive_world h) Q w (create_target s File info old k)"
  by (auto simp: create_target_def Let_def archive_simps)

lemma wp_dress_file [wp_rules]:
  assumes "wp (archive_world h) Q w k"
  shows "wp (archive_world h) Q w (dress_file s File f q old info short k)"
proof -
  have "wp (archive_world h) Q w (reset_reparse s File f k)" if "wp (archive_world h) Q w k" for k
    using that by (auto simp: reset_reparse_def archive_simps intro!: wp_verbose wp_complain)
  moreover have "wp (archive_world h) Q w (set_sparse s f k)" if "wp (archive_world h) Q w k" for k
    using that by (auto simp: set_sparse_def archive_simps intro!: wp_verbose wp_complain)
  moreover have "wp (archive_world h) Q w (set_short_name s File f short k)" if "wp (archive_world h) Q w k" for k
    using that by (auto simp: set_short_name_def archive_simps intro!: wp_verbose wp_complain)
  ultimately show ?thesis using assms by (simp add: dress_file_def only_if_def Let_def)
qed

lemma wp_finish_file [wp_rules]:
  assumes "wp (archive_world h) Q w k"
  shows "wp (archive_world h) Q w (finish_file s File f old info k)"
proof -
  have "wp (archive_world h) Q w (set_final s File f old info k)"
    using assms by (auto simp: set_final_def archive_simps intro!: wp_complain)
  then show ?thesis
    by (auto simp: finish_file_def Let_def archive_simps intro!: wp_verbose wp_complain)
qed

text \<open>A file is written with all its streams and counted, or it could not be created.\<close>

lemma wp_RestoreFile_extracting:
  assumes "hArchive s = h" and "room s" and "extracting s" and "file_end r"
    and "\<forall>st \<in> set sts. stream_ok st \<and> direct st" and "rest w = streams_bytes sts @ r" and "length (rest w) < fuel"
    and goal: "\<And>m q. length m = length (Buffer s) \<Longrightarrow> take 20 m = header_of r \<Longrightarrow>
      wp (archive_world h) Q (w\<lparr>rest := drop 20 r, restored := restored w @ (if q then [] else streams_bytes sts)\<rparr>)
        (k (s\<lparr>Buffer := m, FileCounter := FileCounter s + (if q then 0 else 1)\<rparr>) File True)"
  shows "wp (archive_world h) Q w (RestoreFile fuel s File info short k)"
proof -
  note l = assms(3)[unfolded extracting_def unfiltered_def]
  have streams: "wp (archive_world h) Q w (restore_streams fuel s File f (f = invalid_handle) True old info k)" for f old
    unfolding restore_streams_def
  proof (rule wp_WriteFileFromArchive[OF assms(1,2,4) _ assms(6,7)])
    fix m :: "byte list" assume m: "length m = length (Buffer s)" "take 20 m = header_of r"
    let ?w = "w\<lparr>rest := drop 20 r, restored := restored w @ (if f = invalid_handle then [] else streams_bytes sts)\<rparr>"
    let ?s = "s\<lparr>Buffer := m\<rparr>"
    show "wp (archive_world h) Q ?w
      (if \<not> True then k ?s File False
       else
        let valid = f \<noteq> invalid_handle;
            s' = (if (valid \<or> bTestMode ?s) \<and> True then ?s\<lparr>FileCounter := FileCounter ?s + 1\<rparr> else ?s);
            close = verbose ?s [] [] (if valid then Sys (CloseHandle f) (\<lambda>_. k s' File True) else k s' File True)
        in only_if (f \<noteq> invalid_handle \<and> valid) (finish_file ?s (text_of ?s File) f old info) close)"
      using goal[OF m, of "f = invalid_handle"] l
      by (auto simp: Let_def only_if_def archive_simps intro!: wp_verbose wp_finish_file)
  qed (use assms(5) in auto)
  have "wp (archive_world h) Q w (restore_streams fuel s File f False True old info k)" if "f \<noteq> invalid_handle" for f old
    using streams[of f old] that by simp
  then have "wp (archive_world h) Q w (restore_included fuel s File info short False old True k)" for old
    using l streams[of invalid_handle]
    by (auto simp: restore_included_def Let_def show_name_def intro!: wp_create_target wp_dress_file wp_complain)
  then have "wp (archive_world h) Q w (probe_existing s (text_of s File) info (\<lambda>old include.
      restore_included fuel s File info short False old include k))"
    using assms(3) by (intro wp_probe_existing) (simp add: extracting_def)
  moreover have "ExcludedString s (text_of s File) info (None, Some False) = Some (None, Some True)"
    using l by (simp add: ExcludedString_def filter_verdict_def split: if_split)
  ultimately show ?thesis
    using l by (simp add: RestoreFile_def use_short_name_def Let_def wp_verbose wp_say_short)
qed

lemma le_bytes_add: "le_bytes (m + n) v = le_bytes m v @ le_bytes n (v div 256 ^ m)"
proof (induction m arbitrary: v)
  case (Suc m)
  have "v div 256 div 256 ^ m = v div 256 ^ Suc m" by (simp add: div_mult2_eq)
  with Suc show ?case by simp
qed simp

lemma header_Size_LowPart: "Size_LowPart (stream_header i a sz n @ x) = sz mod 2 ^ 32"
proof -
  have "le_bytes 8 sz = le_bytes 4 sz @ le_bytes 4 (sz div 256 ^ 4)"
    using le_bytes_add[of 4 4 sz] by (simp del: le_bytes.simps)
  then show ?thesis
    by (simp add: Size_LowPart_def stream_header_def peek_append1 peek_append2 peek_all le_nat_le_bytes del: le_bytes.simps)
qed

definition entry_size :: "entry \<Rightarrow> nat" where
  "entry_size e = (if eshort e = [] then 52 else 78)"

definition entry_body :: "entry \<Rightarrow> byte list" where
  "entry_body e = name_bytes (ename e) @ info_bytes (einfo e) @ (if eshort e = [] then [] else short_bytes (eshort e))"

lemma entry_bytes_parts:
  "entry_bytes e = stream_header BACKUP_INVALID STRARC_MAGIC (entry_size e) (2 * length (ename e)) @
    entry_body e @ streams_bytes (estreams e)"
  by (simp add: entry_bytes_def file_header_bytes_def entry_size_def entry_body_def)

lemma length_entry_body: "entry_ok e \<Longrightarrow> length (entry_body e) = 2 * length (ename e) + entry_size e"
  by (simp add: entry_body_def entry_size_def entry_ok_def)

lemma entry_in_buffer:
  assumes "entry_ok e" and "take 20 b = take 20 (entry_bytes e @ d)"
  shows "\<not> no_file_header b" "dwStreamNameSize b = 2 * length (ename e)"
    "(dwStreamNameSize b + Size_LowPart b) mod 2 ^ 32 = length (entry_body e)"
proof -
  let ?hdr = "stream_header BACKUP_INVALID STRARC_MAGIC (entry_size e) (2 * length (ename e))"
  have t: "take 20 b = ?hdr" using assms(2) by (simp add: entry_bytes_parts)
  have n: "2 * length (ename e) \<le> 65534" "0 < length (ename e)" using assms(1) by (simp_all add: entry_ok_def)
  have sz: "entry_size e = 52 \<or> entry_size e = 78" by (simp add: entry_size_def)
  note f = header_fields_take[of b, unfolded t] stream_header_fields[where x = "[]", unfolded append_Nil2]
  have "Size_LowPart b = Size_LowPart (take 20 b)" by (simp add: Size_LowPart_def peek_take)
  then have low: "Size_LowPart b = entry_size e"
    unfolding t header_Size_LowPart[where x = "[]", unfolded append_Nil2] using sz by auto
  show nm: "dwStreamNameSize b = 2 * length (ename e)" using f n by simp
  have "dwStreamId b = BACKUP_INVALID" "dwStreamAttributes b = STRARC_MAGIC"
    using f by (simp_all add: BACKUP_INVALID_def STRARC_MAGIC_def)
  moreover have "Size_QuadPart b = int (entry_size e)"
    using f(4) stream_header_size[of "entry_size e", where x = "[]", unfolded append_Nil2] sz by auto
  ultimately show "\<not> no_file_header b" using sz n by (auto simp: no_file_header_def nm)
  show "(dwStreamNameSize b + Size_LowPart b) mod 2 ^ 32 = length (entry_body e)"
    using n sz by (auto simp: nm low length_entry_body[OF assms(1)])
qed

lemma entry_header_ok: "entry_ok e \<Longrightarrow> file_header_ok (entry_bytes e @ d)"
  unfolding entry_bytes_parts append_assoc
  by (rule file_header_ok_written) (auto simp: entry_size_def entry_ok_def)

lemma archive_bytes_end: "\<forall>e \<in> set es. entry_ok e \<Longrightarrow> file_end (archive_bytes es)"
proof (cases es)
  case (Cons e es')
  assume "\<forall>e \<in> set es. entry_ok e"
  with Cons have "file_header_ok (archive_bytes es)" by (simp add: entry_header_ok)
  moreover have "20 \<le> length (archive_bytes es)" using Cons by (simp add: entry_bytes_parts)
  ultimately show ?thesis by (simp add: file_end_def)
qed (simp add: file_end_def)

text \<open>A name that is copied to the path buffer is read back from it.\<close>

lemma copied_text:
  assumes "literal u = None" and "MaximumLength u = USHORT_MAX" and "length x \<le> 32767"
  obtains p where
    "\<And>k. copy_string s u x k = k (s\<lparr>wczFullPathBuffer := p\<rparr>) (u\<lparr>Length := 2 * length x\<rparr>)"
    "text_of (s\<lparr>wczFullPathBuffer := p\<rparr>) (u\<lparr>Length := 2 * length x\<rparr>) = x"
proof
  let ?p = "path_write (wczFullPathBuffer s) 0 (x @ (if 2 * length x + 2 \<le> USHORT_MAX then [0] else []))"
  have "take 32767 x = x" using assms(3) by simp
  then show "copy_string s u x k = k (s\<lparr>wczFullPathBuffer := ?p\<rparr>) (u\<lparr>Length := 2 * length x\<rparr>)" for k
    using assms(1,2) by (simp add: copy_string_def Let_def USHORT_MAX_def)
  show "text_of (s\<lparr>wczFullPathBuffer := ?p\<rparr>) (u\<lparr>Length := 2 * length x\<rparr>) = x"
    using assms(1) by (simp add: text_of_def path_write_def padded_to_def)
qed

lemma next_header:
  assumes "\<forall>e \<in> set es. entry_ok e"
  shows "archive_bytes es = [] \<or> 20 \<le> length (archive_bytes es)"
  using archive_bytes_end[OF assms] by (auto simp: file_end_def)

lemma le_nat_zeros [simp]: "le_nat (replicate n 0) = 0"
  by (induction n) simp_all

section \<open>The loop over the files\<close>

text \<open>
  What one file does to the listing and to the files of the disk, for any kind of session;
  \<open>effects\<close> composes it over the files of an archive, with the number that is counted.
\<close>

type_synonym effect = "entry \<Rightarrow> wide list \<times> byte list \<Rightarrow> wide list \<times> byte list \<Rightarrow> nat \<Rightarrow> bool"

fun effects :: "effect \<Rightarrow> entry list \<Rightarrow> wide list \<times> byte list \<Rightarrow> wide list \<times> byte list \<Rightarrow> nat \<Rightarrow> bool" where
  "effects eff [] a c n \<longleftrightarrow> c = a \<and> n = 0"
| "effects eff (e # es) a c n \<longleftrightarrow> (\<exists>b i j. eff e a b i \<and> effects eff es b c j \<and> n = i + j)"

lemma effects_step: "eff e a b i \<Longrightarrow> effects eff es b c j \<Longrightarrow> effects eff (e # es) a c (i + j)"
  unfolding effects.simps by blast

definition onto :: "archive \<Rightarrow> byte list \<Rightarrow> wide list \<times> byte list \<Rightarrow> archive" where
  "onto w r a = w\<lparr>rest := r, listed := fst a, restored := snd a\<rparr>"

lemma onto_simps [simp]:
  "rest (onto w r a) = r" "listed (onto w r a) = fst a" "restored (onto w r a) = snd a"
  "onto (onto w r a) r' a' = onto w r' a'" "onto (w\<lparr>rest := r'\<rparr>) r a = onto w r a"
  by (simp_all add: onto_def)

locale restoring =
  fixes mode :: "strarc \<Rightarrow> bool" and fit :: "entry \<Rightarrow> bool" and eff :: effect
  assumes mode_path: "mode s \<Longrightarrow> literal (FullPath s) = None \<and> MaximumLength (FullPath s) = USHORT_MAX"
    and mode_moved: "moved n s s' \<Longrightarrow> mode s' = mode s"
    and fit_ok: "fit e \<Longrightarrow> entry_ok e"
    and restores_one: "hArchive s = h \<Longrightarrow> room s \<Longrightarrow> mode s \<Longrightarrow> fit e \<Longrightarrow> text_of s File = ename e \<Longrightarrow> file_end r \<Longrightarrow>
      rest w = streams_bytes (estreams e) @ r \<Longrightarrow> length (rest w) < fuel \<Longrightarrow>
      (\<And>m a n. length m = length (Buffer s) \<Longrightarrow> take 20 m = header_of r \<Longrightarrow> eff e (listed w, restored w) a n \<Longrightarrow>
        wp (archive_world h) Q (onto w (drop 20 r) a)
          (k (s\<lparr>Buffer := m, FileCounter := FileCounter s + int n\<rparr>) File True)) \<Longrightarrow>
      wp (archive_world h) Q w (RestoreFile fuel s File info short k)"
begin

lemma wp_restore_loop:
  assumes "hArchive s = h" and "room s" and "mode s" and "\<forall>e \<in> set es. fit e"
    and "take 20 (Buffer s) = header_of (archive_bytes es)" and "rest w = drop 20 (archive_bytes es)"
    and "length (archive_bytes es) + 1 < fuel"
    and "\<And>s' a n. effects eff es (listed w, restored w) a n \<Longrightarrow> moved n s s' \<Longrightarrow>
      wp (archive_world h) Q (onto w [] a) (k s' True)"
  shows "wp (archive_world h) Q w (restore_loop fuel s k)"
  using assms
proof (induction fuel arbitrary: es s w)
  case (Suc fuel)
  have long: "20 \<le> length (Buffer s)" using Suc.prems(2) by (simp add: room_def)
  show ?case
  proof (cases es)
    case Nil
    have zero: "take 20 (Buffer s) = replicate 20 0" using Suc.prems(5) Nil by (simp add: header_of_Nil)
    have wrong: "no_file_header (Buffer s)"
    proof -
      have "dwStreamAttributes (take 20 (Buffer s)) = 0"
        unfolding zero by (simp add: dwStreamAttributes_def peek_def)
      then show ?thesis by (simp add: no_file_header_def header_fields_take STRARC_MAGIC_def)
    qed
    have "wp (archive_world h) Q w (ReadNextFileHeader fuel s (\<lambda>s found. if found then j s else k s True))" for j
    proof (rule wp_ReadNextFileHeader)
      show "length (rest w) < fuel" using Suc.prems(6,7) Nil by simp
      have "onto w [] (listed w, restored w) = w\<lparr>rest := []\<rparr>" by (simp add: onto_def)
      then show "found_in h Q w s (rest w) (\<lambda>s found. if found then j s else k s True)"
        using Suc.prems(6) Suc.prems(8)[OF _ moved_buffer] Nil by (auto simp: found_in_def)
    qed (use Suc.prems(1) long in simp_all)
    with wrong show ?thesis by (simp add: archive_simps next_if_def)
  next
    case (Cons e es')
    let ?d = "archive_bytes es'" and ?b = "entry_body e"
    have ok: "entry_ok e" "\<forall>e \<in> set es'. entry_ok e" using Suc.prems(4) Cons fit_ok by simp_all
    have "take 20 (Buffer s) = take 20 (entry_bytes e @ ?d)"
      using Suc.prems(5) Cons by (simp add: header_of_append entry_bytes_parts)
    note f = entry_in_buffer[OF ok(1) this]
    have w: "rest w = ?b @ streams_bytes (estreams e) @ ?d" using Suc.prems(6) Cons by (simp add: entry_bytes_parts)
    have lb: "length ?b \<le> 65612" using length_entry_body[OF ok(1)] ok(1) by (simp add: entry_ok_def entry_size_def)
    let ?m = "poke (Buffer s) 20 ?b" and ?w = "w\<lparr>rest := streams_bytes (estreams e) @ ?d\<rparr>"
    have fits: "20 + length ?b \<le> length (Buffer s)" using lb Suc.prems(2) by (simp add: room_def)
    have m: "length ?m = length (Buffer s)" "wide_at ?m 20 (dwStreamNameSize ?m) = ename e"
    proof -
      have "take 20 ?m = take 20 (Buffer s)" using long by (simp add: poke_def)
      then have "dwStreamNameSize ?m = 2 * length (ename e)" using f(2) header_fields_take(3) by metis
      moreover have "peek ?m 20 (2 * length (ename e)) = name_bytes (ename e)"
        using long by (simp add: poke_def peek_def entry_body_def)
      ultimately show "wide_at ?m 20 (dwStreamNameSize ?m) = ename e"
        by (simp add: wide_at_def bytes_wide_name_bytes)
      show "length ?m = length (Buffer s)" using fits by simp
    qed
    let ?s = "s\<lparr>Buffer := ?m\<rparr>"
    have path: "literal (FullPath ?s) = None" "MaximumLength (FullPath ?s) = USHORT_MAX" "length (ename e) \<le> 32767"
      using mode_path[OF Suc.prems(3)] ok(1) by (simp_all add: entry_ok_def)
    from copied_text[OF this, of ?s] obtain p where copy: "\<And>k. copy_string ?s (FullPath ?s) (ename e) k =
        k (?s\<lparr>wczFullPathBuffer := p\<rparr>) (FullPath ?s\<lparr>Length := 2 * length (ename e)\<rparr>)"
      and name: "text_of (?s\<lparr>wczFullPathBuffer := p\<rparr>) (FullPath ?s\<lparr>Length := 2 * length (ename e)\<rparr>) = ename e"
      by blast
    let ?t = "?s\<lparr>wczFullPathBuffer := p\<rparr>" and ?u = "FullPath ?s\<lparr>Length := 2 * length (ename e)\<rparr>"
    have one: "wp (archive_world h) Q ?w
        (RestoreFile fuel ?t ?u info short (\<lambda>s p good.
          let s = s\<lparr>FullPath := p\<rparr> in if good then restore_loop fuel s k else k s False))" for info short
    proof (rule restores_one[where e = e and r = ?d])
      have "moved 0 s ?t"
        unfolding moved_def using m(1)
        by (intro exI[of _ ?m] exI[of _ p] exI[of _ "Length (FullPath s)"]) simp
      with moved_keeps[OF this] mode_moved[OF this] Suc.prems(1-3)
      show "hArchive ?t = h" "room ?t" "mode ?t" by simp_all
      show "fit e" using Suc.prems(4) Cons by simp
      show "text_of ?t ?u = ename e" by (rule name)
      show "file_end ?d" using ok(2) by (rule archive_bytes_end)
      show "rest ?w = streams_bytes (estreams e) @ ?d" by simp
      show "length (rest ?w) < fuel" using Suc.prems(7) Cons by (simp add: entry_bytes_parts)
    next
      fix b :: "byte list" and a n
      assume b: "length b = length (Buffer ?t)" "take 20 b = header_of ?d"
        and a: "eff e (listed ?w, restored ?w) a n"
      let ?x = "?t\<lparr>Buffer := b, FileCounter := FileCounter ?t + int n\<rparr>\<lparr>FullPath := ?u\<rparr>"
      have mv: "moved n s ?x"
        unfolding moved_def using b(1) m(1)
        by (intro exI[of _ b] exI[of _ p] exI[of _ "2 * length (ename e)"]) simp
      have "wp (archive_world h) Q (onto ?w (drop 20 ?d) a) (restore_loop fuel ?x k)"
      proof (rule Suc.IH[where es = es'])
        show "hArchive ?x = h" "room ?x" "mode ?x"
          using moved_keeps[OF mv] mode_moved[OF mv] Suc.prems(1-3) by simp_all
        show "\<forall>e \<in> set es'. fit e" using Suc.prems(4) Cons by simp
        show "length ?d + 1 < fuel" using Suc.prems(7) Cons by (simp add: entry_bytes_parts)
        fix s' a' i
        assume "effects eff es' (listed (onto ?w (drop 20 ?d) a), restored (onto ?w (drop 20 ?d) a)) a' i"
          and "moved i ?x s'"
        with a Cons have "effects eff es (listed w, restored w) a' (n + i)" "moved (n + i) s s'"
          by (simp_all add: effects_step moved_trans[OF mv] del: effects.simps)
        from Suc.prems(8)[OF this]
        show "wp (archive_world h) Q (onto (onto ?w (drop 20 ?d) a) [] a') (k s' True)" by simp
      qed (use b in simp_all)
      then show "wp (archive_world h) Q (onto ?w (drop 20 ?d) a)
        (let s = ?t\<lparr>Buffer := b, FileCounter := FileCounter ?t + int n\<rparr>\<lparr>FullPath := ?u\<rparr>
         in if True then restore_loop fuel s k else k s False)"
        by (simp only: Let_def if_True)
    qed
    have "\<not> dwBufferSize s - 20 < length ?b" "\<not> 65535 < 2 * length (ename e)"
      using lb Suc.prems(2) path(3) unfolding room_def by linarith+
    with f fits Suc.prems(1) w m(2) copy one show ?thesis
      by (simp add: archive_simps next_if_def HEADER_SIZE_def USHORT_MAX_def Let_def)
        (rule wp_ReadArchive, simp_all add: Let_def HEADER_SIZE_def)
  qed
qed simp

text \<open>An archive of these entries, from its start.\<close>

lemma wp_RestoreDirectoryTree:
  assumes "hArchive s = h" and "room s" and "mode s" and "\<forall>e \<in> set es. fit e" and "es \<noteq> []"
    and "rest w = archive_bytes es" and "length (archive_bytes es) + 1 < fuel"
    and "\<And>s' a n. effects eff es (listed w, restored w) a n \<Longrightarrow> moved n s s' \<Longrightarrow>
      wp (archive_world h) Q (onto w [] a) (k s' True)"
  shows "wp (archive_world h) Q w (RestoreDirectoryTree fuel s k)"
  unfolding RestoreDirectoryTree_def
proof (rule wp_ReadNextFileHeader[OF assms(1)])
  let ?d = "archive_bytes es"
  have ok: "\<forall>e \<in> set es. entry_ok e" using assms(4) fit_ok by blast
  have d: "20 \<le> length ?d" using assms(5) by (cases es) (simp_all add: entry_bytes_parts)
  with archive_bytes_end[OF ok] have "file_header_ok ?d" by (auto simp: file_end_def)
  with d have f: "find_header ?d = Some (take 20 ?d, drop 20 ?d)"
    by (intro find_header_here) (simp_all add: file_header_ok_take)
  show "20 \<le> length (Buffer s)" "length (rest w) < fuel" using assms(2,6,7) by (simp_all add: room_def)
  have "wp (archive_world h) Q (w\<lparr>rest := drop 20 ?d\<rparr>) (restore_loop fuel (s\<lparr>Buffer := m\<rparr>) k)"
    if m: "length m = length (Buffer s)" "take 20 m = take 20 ?d" for m
  proof (rule wp_restore_loop[where es = es])
    note mv = moved_buffer[OF m(1)]
    show "hArchive (s\<lparr>Buffer := m\<rparr>) = h" "room (s\<lparr>Buffer := m\<rparr>)" "mode (s\<lparr>Buffer := m\<rparr>)"
      using moved_keeps[OF mv] mode_moved[OF mv] assms(1-3) by simp_all
    show "take 20 (Buffer (s\<lparr>Buffer := m\<rparr>)) = header_of ?d" using m(2) d by (simp add: header_of_long)
    fix s' a n
    assume "effects eff es (listed (w\<lparr>rest := drop 20 ?d\<rparr>), restored (w\<lparr>rest := drop 20 ?d\<rparr>)) a n"
      and "moved n (s\<lparr>Buffer := m\<rparr>) s'"
    with moved_trans[OF mv] assms(8) show "wp (archive_world h) Q (onto (w\<lparr>rest := drop 20 ?d\<rparr>) [] a) (k s' True)"
      by simp
  qed (use assms in simp_all)
  with f assms(6) show "found_in h Q w s (rest w) (\<lambda>s found. if found then restore_loop fuel s k else k s False)"
    by (simp add: found_in_def)
qed

end

definition list_effect :: effect where
  "list_effect e a b n \<longleftrightarrow> b = (fst a @ [ename e], snd a) \<and> n = 1"

lemma list_effects:
  "effects list_effect es a c n \<Longrightarrow> c = (fst a @ map ename es, snd a) \<and> n = length es"
proof (induction es arbitrary: a n)
  case (Cons e es)
  then obtain b i j where "list_effect e a b i" "effects list_effect es b c j" "n = i + j"
    unfolding effects.simps by blast
  moreover from this(2) have "c = (fst b @ map ename es, snd b) \<and> j = length es" by (rule Cons.IH)
  ultimately show ?case unfolding list_effect_def by simp
qed simp

interpretation tested: restoring listing entry_ok list_effect
proof
  fix s h e File r w fuel Q k info short
  assume a: "hArchive s = h" "room s" "listing s" "entry_ok e" "text_of s File = ename e" "file_end r"
    "rest w = streams_bytes (estreams e) @ r" "length (rest w) < fuel"
    and goal: "\<And>m a n. length m = length (Buffer s) \<Longrightarrow> take 20 m = header_of r \<Longrightarrow>
      list_effect e (listed w, restored w) a n \<Longrightarrow>
      wp (archive_world h) Q (onto w (drop 20 r) a) (k (s\<lparr>Buffer := m, FileCounter := FileCounter s + int n\<rparr>) File True)"
  show "wp (archive_world h) Q w (RestoreFile fuel s File info short k)"
  proof (rule wp_RestoreFile_listing[OF a(1-3,6) _ a(7,8)])
    show "\<forall>st \<in> set (estreams e). stream_ok st" using a(4) by (simp add: entry_ok_def)
    fix m :: "byte list" assume m: "length m = length (Buffer s)" "take 20 m = header_of r"
    have "onto w (drop 20 r) (listed w @ [ename e], restored w) = w\<lparr>rest := drop 20 r, listed := listed w @ [ename e]\<rparr>"
      by (simp add: onto_def)
    with goal[OF m, of "(listed w @ [ename e], restored w)" 1, unfolded list_effect_def] a(5)
    show "wp (archive_world h) Q (w\<lparr>rest := drop 20 r, listed := listed w @ [text_of s File]\<rparr>)
      (k (s\<lparr>Buffer := m, FileCounter := FileCounter s + 1\<rparr>) File True)" by simp
  qed
qed (use mode_paths moved_mode in auto)

definition direct_entry :: "entry \<Rightarrow> bool" where
  "direct_entry e \<longleftrightarrow> entry_ok e \<and> (\<forall>st \<in> set (estreams e). direct st)"

definition file_effect :: effect where
  "file_effect e a b n \<longleftrightarrow>
    b = (fst a, snd a @ streams_bytes (estreams e)) \<and> n = 1 \<or> b = a \<and> n = 0"

interpretation extracted: restoring extracting direct_entry file_effect
proof
  fix s h e File r w fuel Q k info short
  assume a: "hArchive s = h" "room s" "extracting s" "direct_entry e" "text_of s File = ename e" "file_end r"
    "rest w = streams_bytes (estreams e) @ r" "length (rest w) < fuel"
    and goal: "\<And>m a n. length m = length (Buffer s) \<Longrightarrow> take 20 m = header_of r \<Longrightarrow>
      file_effect e (listed w, restored w) a n \<Longrightarrow>
      wp (archive_world h) Q (onto w (drop 20 r) a) (k (s\<lparr>Buffer := m, FileCounter := FileCounter s + int n\<rparr>) File True)"
  show "wp (archive_world h) Q w (RestoreFile fuel s File info short k)"
  proof (rule wp_RestoreFile_extracting[OF a(1-3,6) _ a(7,8)])
    show "\<forall>st \<in> set (estreams e). stream_ok st \<and> direct st"
      using a(4) by (simp add: direct_entry_def entry_ok_def)
    fix m :: "byte list" and q assume m: "length m = length (Buffer s)" "take 20 m = header_of r"
    let ?a = "(listed w, restored w @ (if q then [] else streams_bytes (estreams e)))"
    have "file_effect e (listed w, restored w) ?a (if q then 0 else 1)" by (simp add: file_effect_def)
    from goal[OF m this]
    show "wp (archive_world h) Q
        (w\<lparr>rest := drop 20 r, restored := restored w @ (if q then [] else streams_bytes (estreams e))\<rparr>)
        (k (s\<lparr>Buffer := m, FileCounter := FileCounter s + (if q then 0 else 1)\<rparr>) File True)"
      by (cases q) (simp_all add: onto_def)
  qed
qed (use mode_paths moved_mode in \<open>auto simp: direct_entry_def\<close>)

section \<open>What comes back\<close>


text \<open>
  A test of an archive prints the names of its files, each once and in order, and
  counts them, whatever their streams are and whatever the disk answers; it ends at the
  end of the archive with the result true.
\<close>

theorem archive_listed:
  assumes "room s" and "listing s" and "\<forall>e \<in> set es. entry_ok e" and "es \<noteq> []"
    and "rest w = archive_bytes es" and "length (rest w) + 1 < fuel"
    and goal: "\<And>s'. FileCounter s' = FileCounter s + int (length es) \<Longrightarrow>
      wp (archive_world (hArchive s)) Q (w\<lparr>rest := [], listed := listed w @ map ename es\<rparr>) (k s' True)"
  shows "wp (archive_world (hArchive s)) Q w (RestoreDirectoryTree fuel s k)"
proof (rule tested.wp_RestoreDirectoryTree[OF refl assms(1-5)])
  fix s' a n
  assume "effects list_effect es (listed w, restored w) a n"
  from list_effects[OF this] have a: "a = (listed w @ map ename es, restored w)" "n = length es" by simp_all
  assume "moved n s s'"
  with a(2) have "FileCounter s' = FileCounter s + int (length es)" by (auto simp: moved_def)
  from goal[OF this] a(1) show "wp (archive_world (hArchive s)) Q (onto w [] a) (k s' True)"
    by (simp add: onto_def)
qed (use assms(5,6) in simp)


section \<open>Concrete archives\<close>

definition big_session :: strarc where
  "big_session = Initialize\<lparr>hArchive := 5, dwBufferSize := 65632, Buffer := replicate 65632 0\<rparr>"

definition two_bytes :: stream where
  "two_bytes = \<lparr>sid = BACKUP_DATA, sattr = 0, sname = [], sdata = [7, 8]\<rparr>"

definition one_entry :: entry where
  "one_entry = \<lparr>ename = [0x61], einfo = plain_info, eshort = [], estreams = [two_bytes]\<rparr>"

definition tape_of :: "byte list \<Rightarrow> byte list \<Rightarrow> archive" where
  "tape_of r src = \<lparr>rest = r, written = [], listed = [], source = src, restored = []\<rparr>"

lemma big_session_ok:
  "hArchive big_session = 5" "FileCounter big_session = 0" "room big_session" "extracting big_session"
  "room (big_session\<lparr>bTestMode := True\<rparr>)" "listing (big_session\<lparr>bTestMode := True\<rparr>)"
  by (simp_all add: big_session_def Initialize_def room_def extracting_def listing_def unfiltered_def)

lemma two_bytes_ok: "stream_ok two_bytes" "direct two_bytes" "length (stream_bytes two_bytes) = 22"
  by (simp_all add: two_bytes_def stream_ok_def direct_def length_stream_bytes BACKUP_DATA_def BACKUP_LINK_def
      BACKUP_ALTERNATE_DATA_def BACKUP_SPARSE_BLOCK_def)

lemma one_entry_ok: "entry_ok one_entry" "length (entry_bytes one_entry) = 96"
  by (simp_all add: one_entry_def entry_ok_def entry_bytes_def two_bytes_ok length_file_header_bytes)


theorem archive_listed_witness:
  "case interp (tape 5) (tape_of (archive_bytes [one_entry]) [])
      (RestoreDirectoryTree 200 (big_session\<lparr>bTestMode := True\<rparr>) (\<lambda>s b. Done (FileCounter s))) of
     (n, w) \<Rightarrow> n = Some 1 \<and> listed w = [[0x61]]"
proof -
  let ?s = "big_session\<lparr>bTestMode := True\<rparr>" and ?Q = "\<lambda>w n. n = 1 \<and> listed w = [[0x61]]"
  have h: "hArchive ?s = 5" by (simp add: big_session_ok)
  have "wp (archive_world (hArchive ?s)) ?Q (tape_of (archive_bytes [one_entry]) [])
    (RestoreDirectoryTree 200 ?s (\<lambda>s b. Done (FileCounter s)))"
  proof (rule archive_listed[where es = "[one_entry]"])
    show "room ?s" "listing ?s" by (rule big_session_ok)+
    fix s' assume "FileCounter s' = FileCounter ?s + int (length [one_entry])"
    then show "wp (archive_world (hArchive ?s)) ?Q
      (tape_of (archive_bytes [one_entry]) []\<lparr>rest := [],
        listed := listed (tape_of (archive_bytes [one_entry]) []) @ map ename [one_entry]\<rparr>) (Done (FileCounter s'))"
      by (simp add: big_session_ok tape_of_def one_entry_def)
  qed (simp_all add: one_entry_ok tape_of_def)
  from tape.wp_interp[OF this[unfolded h]] show ?thesis by (auto simp: case_prod_unfold)
qed


text \<open>
  What is done to an existing file of the same name does not depend on the switch \<open>-t\<close>:
  a test of an archive, too, opens it and takes away its read-only attribute.
\<close>

lemma test_mode_resets_readonly:
  "probe_existing (s\<lparr>bTestMode := t\<rparr>) File info k = probe_existing s File info k"
  by (simp add: probe_existing_def look_at_existing_def overwrite_allowed_def verbose_def Let_def cong: if_cong)

end
