(* ===== verification/ArcMain.thy ===== *)
theory ArcMain
  imports ArcRoundTrip CLib
begin

text \<open>
  The program around the archive: \<open>strarc/parsecmd.cpp\<close> (the switches, and what they
  start), the opening of archive, filter and directory in \<open>strarc.cpp\<close>, the snapshots of
  the registry in \<open>regsnap.cpp\<close>, and the start code in \<open>exemain.cpp\<close> and \<open>sleep.cpp\<close>.
\<close>

section \<open>Opening\<close>

text \<open>The archive that is read is opened, too, to have its end set where it is.\<close>

definition OpenArchive :: "strarc \<Rightarrow> wide option \<Rightarrow> bool \<Rightarrow> disposition \<Rightarrow> (strarc \<Rightarrow> bool \<Rightarrow> arc) \<Rightarrow> arc" where
  "OpenArchive s wczFilename bBackupMode dwArchiveCreation k =
    (let opened = (\<lambda>h.
       let s = s\<lparr>hArchive := h\<rparr> in
       if dwArchiveCreation = OPEN_ALWAYS then Sys (Session (SeekToEnd h)) (\<lambda>_. k s True)
       else Sys (Backup (SetEndOfFile h)) (\<lambda>_. k s True))
     in case wczFilename of
          None \<Rightarrow> Sys (Session (GetStdHandle (if bBackupMode then Stdout else Stdin))) (\<lambda>r. opened (rv r))
        | Some name \<Rightarrow>
            Sys (Session (OpenArchiveFile name [if bBackupMode then GENERIC_WRITE else GENERIC_READ]
                  ([FILE_SHARE_READ, FILE_SHARE_DELETE] @ (if bBackupMode then [] else [FILE_SHARE_WRITE]))
                  (if bBackupMode then dwArchiveCreation else OPEN_EXISTING))) (\<lambda>r.
              if rv r = invalid_handle then k (s\<lparr>hArchive := rv r\<rparr>) False else opened (rv r)))"

text \<open>The filter gets one end of a pipe in place of the archive; the session the other.\<close>

definition OpenFilterUtility :: "strarc \<Rightarrow> wide \<Rightarrow> bool \<Rightarrow> (strarc \<Rightarrow> bool \<Rightarrow> arc) \<Rightarrow> arc" where
  "OpenFilterUtility s wczFilterCmd bBackupMode k =
    Sys (Session CreatePipe) (\<lambda>p.
      if rv p = 0 then k s False
      else
        let read_end = num p; write_end = handle2 p;
            inherited = (if bBackupMode then read_end else write_end);
            hStdInput = (if bBackupMode then read_end else hArchive s);
            hStdOutput = (if bBackupMode then hArchive s else write_end);
            s = s\<lparr>hArchive := (if bBackupMode then write_end else read_end)\<rparr>
        in Sys (Session (SetHandleInformation inherited)) (\<lambda>_.
           Sys (Session (GetStdHandle Stderr)) (\<lambda>e.
           Sys (Session (CreateProcess wczFilterCmd hStdInput hStdOutput (rv e))) (\<lambda>c.
             if rv c = 0 then k s False
             else
               Sys (CloseHandle hStdInput) (\<lambda>_.
               Sys (CloseHandle hStdOutput) (\<lambda>_. k (s\<lparr>piFilter := num c\<rparr>) True))))))"

definition OpenWorkingDirectory :: "strarc \<Rightarrow> wide option \<Rightarrow> bool \<Rightarrow> (strarc \<Rightarrow> bool \<Rightarrow> arc) \<Rightarrow> arc" where
  "OpenWorkingDirectory s wczStartDir bBackupMode k =
    (let finish = (\<lambda>h.
       Sys GetLastError (\<lambda>e.
       Sys (Session RtlFreeUnicodeString) (\<lambda>_.
         if h = invalid_handle then Sys (SetLastError (err e)) (\<lambda>_. k (s\<lparr>RootDirectory := h\<rparr>) False)
         else k (s\<lparr>RootDirectory := h\<rparr>) True)));
       go_on = (\<lambda>root_dir start_dir.
         if bBackupMode then
           NativeOpenFile root_dir start_dir [FILE_LIST_DIRECTORY, FILE_TRAVERSE] [OBJ_CASE_INSENSITIVE] all_shared
             [FILE_DIRECTORY_FILE, FILE_OPEN_FOR_BACKUP_INTENT] finish
         else
           Sys (NativeCreateDirectory root_dir start_dir [FILE_LIST_DIRECTORY, FILE_TRAVERSE] [OBJ_CASE_INSENSITIVE]
                 FILE_ATTRIBUTE_NORMAL all_shared [FILE_DIRECTORY_FILE, FILE_OPEN_FOR_BACKUP_INTENT] True)
             (\<lambda>r. finish (rv r)))
     in case wczStartDir of
          None \<Rightarrow>
            Sys (Session NtCurrentDirectoryHandle) (\<lambda>r.
            Sys (Session (RtlCreateUnicodeString [])) (\<lambda>_. go_on (rv r) []))
        | Some dir \<Rightarrow>
            Sys (Session (RtlDosPathNameToNtPathName dir)) (\<lambda>r.
              if \<not> NT_SUCCESS (rv r) then last_status (rv r) (k s False)
              else verbose s ''Working directory is %s'' [MW (wname r)] (go_on 0 (wname r))))"

section \<open>Snapshots of the registry\<close>

definition REG_SZ :: int where "REG_SZ = 1"

text \<open>The path buffer is an array of this many characters.\<close>

definition PATH_CHARS :: nat where "PATH_CHARS = 32768"

definition write_snapshot :: "strarc \<Rightarrow> wide \<Rightarrow> arc \<Rightarrow> arc" where
  "write_snapshot s key again =
    Sys (Registry (NtCreateKey key)) (\<lambda>c.
      if \<not> NT_SUCCESS (rv c) then
        Sys (RtlNtStatusToDosError (rv c)) (\<lambda>_. complain ''Error opening key %s: %s'' [MW key] again)
      else
        Sys (NativeCreateFile 0 (text_of s (FullPath s)) [GENERIC_WRITE] [OBJ_CASE_INSENSITIVE] FILE_ATTRIBUTE_NORMAL
              [] FILE_SUPERSEDE [] False) (\<lambda>f.
          if rv f = invalid_handle then
            Sys SystemMessage (\<lambda>m.
            Sys (NtClose (num c)) (\<lambda>_.
              say ''Error creating file %s: %s'' [name_arg s (FullPath s), MS (line m)] again))
          else
            Sys (Registry (NtSaveKey (num c) (rv f))) (\<lambda>r.
            Sys (NtClose (num c)) (\<lambda>_.
            Sys (NtClose (rv f)) (\<lambda>_.
              if \<not> NT_SUCCESS (rv r) then
                Sys (RtlNtStatusToDosError (rv r)) (\<lambda>_. complain ''Error creating snapshot for %s: %s'' [MW key] again)
              else again)))))"

text \<open>
  The name of a key goes to the stream buffer and its file name, as bytes, to the path
  buffer. The zero behind the file name is put at the number of bytes, not of characters.
\<close>

primrec registry_loop :: "nat \<Rightarrow> strarc \<Rightarrow> nat \<Rightarrow> (strarc \<Rightarrow> bool \<Rightarrow> arc) \<Rightarrow> arc" where
  "registry_loop 0 s i k = OutOfFuel"
| "registry_loop (Suc fuel) s i k =
    Sys YieldSingleProcessor (\<lambda>_.
    Sys (Registry (RegEnumValue i (MaximumLength (FullPath s) - 2 * (length snapshot_extension + 1)))) (\<lambda>r.
      if rv r = 259 then Sys (Registry RegCloseKey) (\<lambda>_. k s True)
      else if rv r \<noteq> 0 then Sys (SetLastError (rv r)) (\<lambda>_. k s False)
      else if 2 * (length (wname r) + 1) > length (Buffer s) then Crash
      else
        let s = s\<lparr>Buffer := poke (Buffer s) 0 (name_bytes (wname r @ [0])),
                  wczFullPathBuffer := path_write (wczFullPathBuffer s) 0 (bytes_wide (out r))\<rparr>;
            again = (\<lambda>s. registry_loop fuel s (i + 1) k)
        in if num r \<noteq> REG_SZ then
             say ''Wrong data type %u for hive %s. Should be %u. This hive will not be backed up.''
               [MI (num r), MW (wname r), MI REG_SZ] (again s)
           else if length (out r) \<ge> PATH_CHARS then Crash
           else
             let s = s\<lparr>wczFullPathBuffer := path_write (wczFullPathBuffer s) (length (out r)) [0]\<rparr>;
                 n = length (takeWhile (\<lambda>c. c \<noteq> 0) (wczFullPathBuffer s));
                 s = s\<lparr>FullPath := (FullPath s)\<lparr>Length := (2 * n) mod 65536\<rparr>\<rparr>
             in if Length (FullPath s) = 0 then again s
                else
                  append_string s (FullPath s) snapshot_extension
                    (\<lambda>s p.
                      let s = s\<lparr>FullPath := p\<rparr>;
                          go_on = (if bListOnly s then again s else write_snapshot s (wname r) (again s))
                      in if bVerbose s then say ''%s -> %s'' [MW (wname r), name_arg s p] go_on
                         else if bListFiles s then Sys (Say Stdout ''%s'' [MW (wname r)]) (\<lambda>_. go_on)
                         else go_on)
                    (say ''Registry file path is too long: %s Some of the snapshots will not be backed up.''
                      [name_arg s (FullPath s)] (again s))))"

definition CreateRegistrySnapshots :: "nat \<Rightarrow> strarc \<Rightarrow> (strarc \<Rightarrow> bool \<Rightarrow> arc) \<Rightarrow> arc" where
  "CreateRegistrySnapshots fuel s k =
    Sys (Registry RegOpenHiveList) (\<lambda>r.
      if rv r \<noteq> 0 then Sys (SetLastError (rv r)) (\<lambda>_. k s False) else registry_loop fuel s 0 k)"

section \<open>The switches\<close>

record main_options =
  bBackupMode :: bool
  bRestoreMode :: bool
  bFilesFromStdIn :: bool
  bFilesFromStdInUnicode :: bool
  dwArchiveCreation :: disposition
  wczFilterCmd :: "wide option"
  wczStartDir :: "wide option"

definition no_options :: main_options where
  "no_options =
    \<lparr>bBackupMode = False, bRestoreMode = False, bFilesFromStdIn = False, bFilesFromStdInUnicode = False,
     dwArchiveCreation = CREATE_ALWAYS, wczFilterCmd = None, wczStartDir = None\<rparr>"

abbreviation L :: "char \<Rightarrow> WCHAR" where "L c \<equiv> of_char c"

definition colon :: WCHAR where "colon = 0x3A"

text \<open>The value behind a colon, if there is one.\<close>

definition value_of :: "wide \<Rightarrow> wide option" where
  "value_of w = (case w of [] \<Rightarrow> None | c # v \<Rightarrow> if c = colon \<and> v \<noteq> [] then Some v else None)"

text \<open>The letters behind \<open>-o:\<close> and \<open>-s:\<close>; false for a letter that is none of them.\<close>

fun overwrite_letters :: "wide \<Rightarrow> strarc \<Rightarrow> strarc \<times> bool" where
  "overwrite_letters [] s = (s, True)"
| "overwrite_letters (c # w) s =
    (if c = L CHR ''n'' then overwrite_letters w (s\<lparr>bOverwriteOlder := True\<rparr>)
     else if c = L CHR ''f'' then overwrite_letters w (s\<lparr>bFreshenExisting := True, bOverwriteOlder := True\<rparr>)
     else if c = L CHR ''a'' then overwrite_letters w (s\<lparr>bOverwriteArchived := True\<rparr>)
     else (s, False))"

fun skip_letters :: "wide \<Rightarrow> strarc \<Rightarrow> strarc \<times> bool" where
  "skip_letters [] s = (s, True)"
| "skip_letters (c # w) s =
    (if c = L CHR ''a'' then skip_letters w (s\<lparr>bProcessFileAttribs := False\<rparr>)
     else if c = L CHR ''c'' then skip_letters w (s\<lparr>bRestoreCompression := False\<rparr>)
     else if c = L CHR ''l'' then skip_letters w (s\<lparr>bHardLinkSupport := False\<rparr>)
     else if c = L CHR ''s'' then skip_letters w (s\<lparr>bProcessSecurity := False\<rparr>)
     else if c = L CHR ''t'' then skip_letters w (s\<lparr>bProcessFileTimes := False\<rparr>)
     else if c = L CHR ''8'' then skip_letters w (s\<lparr>bSkipShortNames := True\<rparr>)
     else (s, False))"

text \<open>The size of the buffer, with 32 bits, and the rest of the text behind the digits.\<close>

definition buffer_size :: "wide \<Rightarrow> nat \<times> bool" where
  "buffer_size v =
    (let (n, r) = strtoul (map narrow v) 0; n = unat n; suffix = drop (length v - length r) v in
     if suffix = [] then (n, True)
     else if hd suffix = L CHR ''M'' then (n * 1024 mod 2 ^ 32 * 1024 mod 2 ^ 32, True)
     else if hd suffix = L CHR ''K'' then (n * 1024 mod 2 ^ 32, True)
     else (n, False))"

text \<open>
  The switches in one argument: \<open>k\<close> goes on behind it, \<open>u\<close> shows the usage. A switch with
  a value takes the rest of the argument.
\<close>

fun switches :: "wide \<Rightarrow> strarc \<Rightarrow> main_options \<Rightarrow> (strarc \<Rightarrow> main_options \<Rightarrow> arc) \<Rightarrow> (strarc \<Rightarrow> arc) \<Rightarrow> arc" where
  "switches [] s m k u = k s m"
| "switches (c # w) s m k u =
    (let x = wide_fold c in
     if x = L CHR ''c'' then
       if bRestoreMode m \<or> bTestMode s then u s else switches w s (m\<lparr>bBackupMode := True\<rparr>) k u
     else if x = L CHR ''x'' then
       if bBackupMode m \<or> bTestMode s then u s else switches w s (m\<lparr>bRestoreMode := True\<rparr>) k u
     else if x = L CHR ''t'' then
       if bBackupMode m \<or> bRestoreMode m then u s else switches w (s\<lparr>bTestMode := True\<rparr>) m k u
     else if x = L CHR ''a'' then switches w s (m\<lparr>dwArchiveCreation := OPEN_ALWAYS\<rparr>) k u
     else if x = L CHR ''8'' then switches w (s\<lparr>bRestoreShortNamesOnly := True\<rparr>) m k u
     else if x = L CHR ''n'' then
       if \<not> bBackupMode m then u s else switches w (s\<lparr>bListOnly := True\<rparr>) m k u
     else if x = L CHR ''o'' then
       (if w \<noteq> [] \<and> hd w = colon then
          (case value_of w of
             None \<Rightarrow> u s
           | Some v \<Rightarrow>
               (case overwrite_letters v s of
                  (s, good) \<Rightarrow> if good then k (s\<lparr>dwExtractCreation := FILE_OPEN_IF\<rparr>) m else u s))
        else switches w (s\<lparr>dwExtractCreation := FILE_OPEN_IF\<rparr>) m k u)
     else if x = L CHR ''l'' then switches w (s\<lparr>bListFiles := True\<rparr>) m k u
     else if x = L CHR ''v'' then switches w (s\<lparr>bVerbose := True\<rparr>) m k u
     else if x = L CHR ''j'' then switches w (s\<lparr>bLocal := True\<rparr>) m k u
     else if x = L CHR ''f'' then
       switches w s (m\<lparr>bFilesFromStdInUnicode := c = L CHR ''F'', bFilesFromStdIn := True\<rparr>) k u
     else if x = L CHR ''r'' then switches w (s\<lparr>bBackupRegistrySnapshots := True\<rparr>) m k u
     else if x = L CHR ''e'' then
       if dwExcludeStrings s \<noteq> 0 then u s
       else (case value_of w of None \<Rightarrow> u s | Some v \<Rightarrow> SetExcludeStrings s (Some v) (\<lambda>s. k s m))
     else if x = L CHR ''i'' then
       if dwIncludeStrings s \<noteq> 0 then u s
       else (case value_of w of None \<Rightarrow> u s | Some v \<Rightarrow> SetIncludeStrings s (Some v) (\<lambda>s. k s m))
     else if x = L CHR ''d'' then
       (case value_of w of None \<Rightarrow> u s | Some v \<Rightarrow> k s (m\<lparr>wczStartDir := Some v\<rparr>))
     else if x = L CHR ''b'' then
       (case value_of w of
          None \<Rightarrow> u s
        | Some v \<Rightarrow>
            (case buffer_size v of
               (n, good) \<Rightarrow> let s = s\<lparr>dwBufferSize := n\<rparr> in if good then k s m else u s))
     else if x = L CHR ''s'' then
       (case value_of w of
          None \<Rightarrow> u s
        | Some v \<Rightarrow> (case skip_letters v s of (s, good) \<Rightarrow> if good then k s m else u s))
     else if x = L CHR ''m'' then
       if wcsicmp w (wide_of '':f'') then k (s\<lparr>BackupMethod := BACKUP_METHOD_FULL\<rparr>) m
       else if wcsicmp w (wide_of '':d'') then k (s\<lparr>BackupMethod := BACKUP_METHOD_DIFF\<rparr>) m
       else if wcsicmp w (wide_of '':i'') then k (s\<lparr>BackupMethod := BACKUP_METHOD_INC\<rparr>) m
       else u s
     else if x = L CHR ''z'' then
       (case value_of w of None \<Rightarrow> u s | Some v \<Rightarrow> k s (m\<lparr>wczFilterCmd := Some v\<rparr>))
     else u s)"

text \<open>The first argument that is no switch ends them; \<open>-\<close> and \<open>--\<close> are none.\<close>

definition dash :: wide where "dash = [0x2D]"
definition dashes :: wide where "dashes = [0x2D, 0x2D]"

fun switch_arg :: "wide \<Rightarrow> bool" where
  "switch_arg [] \<longleftrightarrow> False"
| "switch_arg (c # w) \<longleftrightarrow> wide_switch c \<and> c # w \<noteq> dash \<and> c # w \<noteq> dashes"

fun all_switches :: "wide list \<Rightarrow> strarc \<Rightarrow> main_options \<Rightarrow> (wide list \<Rightarrow> strarc \<Rightarrow> main_options \<Rightarrow> arc) \<Rightarrow>
    (strarc \<Rightarrow> arc) \<Rightarrow> arc" where
  "all_switches [] s m k u = k [] s m"
| "all_switches (a # args) s m k u =
    (if switch_arg a then switches (tl a) s m (\<lambda>s m. all_switches args s m k u) u else k (a # args) s m)"

section \<open>The operation\<close>

definition usage :: "arc \<Rightarrow> arc" where
  "usage k = say ''Usage: strarc -c|-x|-t ...'' [] k"

text \<open>The message at the end, which only \<open>-v\<close> asks for.\<close>

definition say_result :: "strarc \<Rightarrow> string \<Rightarrow> arc \<Rightarrow> arc" where
  "say_result s what k =
    (if bVerbose s then
       Sys Cancelled (\<lambda>c.
         say (if rv c \<noteq> 0 then ''strarc cancelled, %I64u file%s %s.'' else ''strarc done, %I64u file%s %s.'')
           [MI (FileCounter s), MS (if FileCounter s \<noteq> 1 then ''s'' else []), MS what] k)
     else k)"

text \<open>After archive, filter and directory have been opened.\<close>

definition run_operation :: "nat \<Rightarrow> strarc \<Rightarrow> main_options \<Rightarrow> wide list \<Rightarrow> (strarc \<Rightarrow> int \<Rightarrow> arc) \<Rightarrow> arc" where
  "run_operation fuel s m args k =
    (if bRestoreMode m \<or> bTestMode s then
       RestoreDirectoryTree fuel s (\<lambda>s _.
         say_result s (if bTestMode s then ''found in archive'' else ''restored'') (k s 0))
     else if dwBufferSize s < HEADER_SIZE then Exception s XE_BAD_BUFFER None
     else
       let finish = (\<lambda>s. say_result s (if bListOnly s then ''found'' else ''backed up'') (k s 0)) in
       if args \<noteq> [] then BackupFiles fuel s args finish
       else if bFilesFromStdIn m then
         Sys (Session (GetStdHandle Stdin)) (\<lambda>r.
           if bFilesFromStdInUnicode m then BackupFilenamesFromStreamW fuel s (rv r) finish
           else BackupFilenamesFromStreamA fuel s (rv r) finish)
       else BackupCurrentDirectory fuel s finish)"

text \<open>What is opened, in this order.\<close>

definition open_all :: "strarc \<Rightarrow> main_options \<Rightarrow> wide option \<Rightarrow> (strarc \<Rightarrow> arc) \<Rightarrow> arc" where
  "open_all s m archive_name k =
    (let directory = (\<lambda>s.
       OpenWorkingDirectory s (wczStartDir m) (bBackupMode m) (\<lambda>s good.
         if good then k s else Exception s XE_CHANGE_DIR (wczStartDir m)));
       filter_utility = (\<lambda>s.
         case wczFilterCmd m of
           None \<Rightarrow> directory s
         | Some cmd \<Rightarrow>
             OpenFilterUtility s cmd (bBackupMode m) (\<lambda>s good.
               if good then directory s else Exception s XE_FILTER_EXECUTE (Some cmd)))
     in if bListOnly s then filter_utility s
        else
          OpenArchive s archive_name (bBackupMode m) (dwArchiveCreation m) (\<lambda>s good.
            if good then filter_utility s else Exception s XE_ARCHIVE_OPEN archive_name))"

definition mode_count :: "strarc \<Rightarrow> main_options \<Rightarrow> nat" where
  "mode_count s m = of_bool (bBackupMode m) + of_bool (bRestoreMode m) + of_bool (bTestMode s)"

definition to_stdout :: "strarc \<Rightarrow> wide list \<Rightarrow> bool" where
  "to_stdout s args \<longleftrightarrow> \<not> bListOnly s \<and> (args = [] \<or> hd args = [] \<or> hd args = dash)"

text \<open>
  \<open>args\<close> are the arguments behind the name of the program. The first operand is the
  archive, even with \<open>-n\<close>, when there is none.
\<close>

definition with_switches :: "nat \<Rightarrow> wide list \<Rightarrow> strarc \<Rightarrow> main_options \<Rightarrow> (strarc \<Rightarrow> int \<Rightarrow> arc) \<Rightarrow> arc" where
  "with_switches fuel args s m k =
    (if length args > 1 \<and> \<not> bBackupMode m then usage (k s 1)
     else if mode_count s m \<noteq> 1 then usage (k s 1)
     else if bListFiles s \<and> (bTestMode s \<or> bVerbose s) then
       say ''The -l option cannot be used with -t or -v.'' [] (k s 1)
     else if bListFiles s \<and> bBackupMode m \<and> to_stdout s args then
       say ''Cannot list files when creating an archive to stdout.'' [] (k s 1)
     else
       InitializeBuffer s (\<lambda>s e.
         if e \<noteq> XE_NOERROR then Exception s e None
         else
           let go_on = (\<lambda>s.
             open_all s m (if to_stdout s args \<or> args = [] then None else Some (hd args)) (\<lambda>s.
               run_operation fuel s m (drop 1 args) k))
           in if bBackupRegistrySnapshots s then
                if \<not> bBackupMode m then usage (k s 1)
                else
                  CreateRegistrySnapshots fuel s (\<lambda>s good.
                    if good then go_on s
                    else complain ''Error getting registry hive list: %s No registry snapshots will be backed up.'' []
                           (go_on s))
              else go_on s))"

definition Main :: "nat \<Rightarrow> wide list \<Rightarrow> strarc \<Rightarrow> (strarc \<Rightarrow> int \<Rightarrow> arc) \<Rightarrow> arc" where
  "Main fuel args s k =
    (if args = [] \<or> hd args = [] \<or> \<not> wide_switch (hd (hd args)) then usage (k s 1)
     else
       all_switches args s no_options (\<lambda>args s m.
         with_switches fuel (if args \<noteq> [] \<and> hd args = dashes then tl args else args) s m k)
         (\<lambda>s. usage (k s 1)))"

section \<open>The start code\<close>

definition wmain :: "nat \<Rightarrow> wide list \<Rightarrow> arc" where
  "wmain fuel args =
    Sys (Session (GetStdHandle Stderr)) (\<lambda>_.
    Sys (Console SetOemPrintFLineLength) (\<lambda>_.
    Sys (Console EnableBackupPrivileges) (\<lambda>_.
    Sys (Console NewCriticalSection) (\<lambda>_.
    Sys (Session (SetConsoleCtrlHandler True)) (\<lambda>_.
      Main fuel args Initialize wmain_finish)))))"

text \<open>\<open>args\<close> is what \<open>CommandLineToArgvW\<close> gives behind the name of the program.\<close>

definition wmainCRTStartup :: "nat \<Rightarrow> wide list \<Rightarrow> arc" where
  "wmainCRTStartup fuel args =
    Sys (Console CommandLineToArgvW) (\<lambda>r.
      if rv r = 0 then Sys (Console (MessageBox ''This program requires Windows NT.'')) (\<lambda>_. Done (- 1))
      else wmain fuel args)"

text \<open>
  The handler that the system calls in a thread of its own; the session is its flag
  \<open>bCancel\<close>, \<open>None\<close> before it exists and after it is gone.
\<close>

definition ConsoleCtrlHandler :: "nat \<Rightarrow> bool option \<Rightarrow> (bool option \<Rightarrow> int \<Rightarrow> arc) \<Rightarrow> arc" where
  "ConsoleCtrlHandler dwCtrlType session k =
    (if dwCtrlType \<in> {0, 1, 2, 6} then
       Sys (Console EnterCriticalSection) (\<lambda>_.
       Sys (Console LeaveCriticalSection) (\<lambda>_. k (map_option (\<lambda>_. True) session) 1))
     else k session 0)"

text \<open>
  \<open>YieldSingleProcessor\<close>: the number of processors is asked for once; true if the rest of
  the time slice is given away.
\<close>

definition yield_step :: "nat \<Rightarrow> nat \<Rightarrow> nat \<times> bool" where
  "yield_step processors known =
    (let n = (if known = 0 then processors else known) in (n, n < 2))"

section \<open>A whole run\<close>

lemma letter_values:
  "(L CHR ''c'' :: WCHAR) = 0x63" "(L CHR ''x'' :: WCHAR) = 0x78" "(L CHR ''t'' :: WCHAR) = 0x74"
  "(L CHR ''a'' :: WCHAR) = 0x61" "(L CHR ''8'' :: WCHAR) = 0x38" "(L CHR ''n'' :: WCHAR) = 0x6E"
  "(L CHR ''o'' :: WCHAR) = 0x6F" "(L CHR ''l'' :: WCHAR) = 0x6C" "(L CHR ''v'' :: WCHAR) = 0x76"
  "(L CHR ''j'' :: WCHAR) = 0x6A" "(L CHR ''f'' :: WCHAR) = 0x66" "(L CHR ''r'' :: WCHAR) = 0x72"
  "(L CHR ''e'' :: WCHAR) = 0x65" "(L CHR ''i'' :: WCHAR) = 0x69" "(L CHR ''d'' :: WCHAR) = 0x64"
  "(L CHR ''b'' :: WCHAR) = 0x62" "(L CHR ''s'' :: WCHAR) = 0x73" "(L CHR ''m'' :: WCHAR) = 0x6D"
  "(L CHR ''z'' :: WCHAR) = 0x7A" "(L CHR ''F'' :: WCHAR) = 0x46" "(L CHR ''M'' :: WCHAR) = 0x4D"
  "(L CHR ''K'' :: WCHAR) = 0x4B"
  by (simp_all add: of_char_def)

lemma wp_delete_items [wp_rules]:
  "wp (archive_world h) Q w k \<Longrightarrow> wp (archive_world h) Q w (delete_items is k)"
  by (induction "is") (simp_all add: archive_simps)

lemma wp_destroy [wp_rules]:
  "wp (archive_world h) Q w k \<Longrightarrow> wp (archive_world h) Q w (destroy s k)"
  by (auto simp: destroy_def Let_def archive_simps intro!: wp_delete_items wp_verbose wp_say wp_complain)

lemma wp_wmain_finish [wp_rules]: "Q w n \<Longrightarrow> wp (archive_world h) Q w (wmain_finish s n)"
  by (auto simp: wmain_finish_def archive_simps intro!: wp_destroy)

text \<open>An exception ends the program with its number.\<close>

lemma wp_Exception [wp_rules]:
  assumes "xe \<noteq> XE_NOERROR" and "Q w (xe_code xe)"
  shows "wp (archive_world h) Q w (Exception s xe name)"
proof -
  have "xe_code xe \<noteq> 0" using assms(1) by (cases xe) (simp_all add: xe_code_def all_errors_def)
  moreover have "ErrorCode (exception_of xe name c m) = xe" for c m
    by (simp add: exception_of_def case_prod_unfold Let_def)
  ultimately show ?thesis
    using assms(2)
    by (auto simp: Exception_def strarc_exception_handler_def Let_def archive_simps
        intro!: wp_say wp_wmain_finish split: option.split)
qed

lemma wp_say_result [wp_rules]:
  "wp (archive_world h) Q w k \<Longrightarrow> wp (archive_world h) Q w (say_result s what k)"
  by (auto simp: say_result_def archive_simps intro!: wp_say)

lemma wp_OpenArchive [wp_rules]:
  assumes "wp (archive_world h) Q w (k (s\<lparr>hArchive := h\<rparr>) True)"
    and "wp (archive_world h) Q w (k (s\<lparr>hArchive := invalid_handle\<rparr>) False)" and "h \<noteq> invalid_handle"
  shows "wp (archive_world h) Q w (OpenArchive s (Some name) b c k)"
  using assms by (auto simp: OpenArchive_def archive_simps Let_def)

lemma wp_OpenWorkingDirectory [wp_rules]:
  assumes "\<And>d. wp (archive_world h) Q w (k (s\<lparr>RootDirectory := d\<rparr>) True)"
    and "\<And>s'. wp (archive_world h) Q w (k s' False)"
  shows "wp (archive_world h) Q w (OpenWorkingDirectory s dir b k)"
  using assms
  by (auto simp: OpenWorkingDirectory_def Let_def archive_simps last_status_def
      intro!: wp_NativeOpenFile wp_verbose split: option.split)

lemma wp_InitializeBuffer [wp_rules]:
  assumes "65536 \<le> dwBufferSize s" and "wp (archive_world h) Q w (k (s\<lparr>Buffer := replicate (dwBufferSize s) 0\<rparr>) XE_NOERROR)"
    and "wp (archive_world h) Q w (k s XE_NOT_ENOUGH_MEMORY)"
  shows "wp (archive_world h) Q w (InitializeBuffer s k)"
  using assms by (simp add: InitializeBuffer_def archive_simps)

text \<open>What the one switch \<open>-t\<close> and a name make of the session.\<close>

lemma test_switches:
  assumes "\<not> switch_arg name" and "name \<noteq> dashes"
  shows "Main fuel [[0x2D, 0x74], name] s k =
    with_switches fuel [name] (s\<lparr>bTestMode := True\<rparr>) no_options k"
proof -
  have "wide_switch 0x2D" by (simp add: wide_switch_def)
  moreover have "wide_fold 0x74 = 0x74" by (simp add: wide_fold_def)
  ultimately show ?thesis
    using assms by (simp add: Main_def dash_def dashes_def letter_values no_options_def)
qed

lemma wp_test_operation:
  assumes "hArchive s = h" and "room s" and "listing s" and "\<forall>e \<in> set es. entry_ok e" and "es \<noteq> []"
    and "rest w = archive_bytes es" and "length (rest w) + 1 < fuel"
    and "\<And>s'. wp (archive_world h) Q (w\<lparr>rest := [], listed := listed w @ map ename es\<rparr>) (k s' 0)"
  shows "wp (archive_world h) Q w (run_operation fuel s m args k)"
proof -
  have t: "bTestMode s" using assms(3) by (simp add: listing_def)
  have "wp (archive_world h) Q w (RestoreDirectoryTree fuel s (\<lambda>s' _. say_result s' (j s') (k s' 0)))" for j
  proof (rule tested.wp_RestoreDirectoryTree[OF assms(1-6)])
    fix s' a n assume "effects list_effect es (listed w, restored w) a n"
    from list_effects[OF this] have "onto w [] a = w\<lparr>rest := [], listed := listed w @ map ename es\<rparr>"
      by (simp add: onto_def)
    with assms(8) show "wp (archive_world h) Q (onto w [] a) (say_result s' (j s') (k s' 0))"
      by (simp add: wp_say_result)
  qed (use assms(6,7) in simp)
  with t show ?thesis by (simp add: run_operation_def)
qed

text \<open>The result and the listing of a run that was to list these names.\<close>

definition lists :: "wide list \<Rightarrow> archive \<Rightarrow> archive \<Rightarrow> int \<Rightarrow> bool" where
  "lists names w v n \<longleftrightarrow>
    (if n = 0 then rest v = [] \<and> listed v = listed w @ names else listed v = listed w)"



section \<open>Where the switches differ from their description\<close>

text \<open>
  The usage offers \<open>-w:8\<close>, but there is no such switch. With \<open>-n\<close> there is no archive, and
  the usage puts the list of files right behind it; the first name of the list is dropped
  all the same. The text behind the suffix of a size is not looked at.
\<close>

lemma w_is_no_switch: "switches (L CHR ''w'' # w) s m k u = u s"
  by (simp add: letter_values wide_fold_def of_char_def)

lemma list_only_drops_first_name:
  assumes "bListOnly s" and "\<not> bBackupRegistrySnapshots s"
  shows "with_switches fuel (a # args) s m k = with_switches fuel (b # args) s m k"
  using assms by (simp add: with_switches_def open_all_def to_stdout_def InitializeBuffer_def Let_def cong: if_cong)

text \<open>
  The zero behind the file name of a hive is put at the index that is its number of bytes:
  if the name has none of its own, characters of the path before it follow.
\<close>

lemma registry_name_too_long:
  "takeWhile (\<lambda>c. c \<noteq> 0)
    (path_write (path_write [1, 2, 3, 4, 5, 6] 0 (bytes_wide [7, 0, 8, 0])) (length [7 :: byte, 0, 8, 0]) [0]) = [7, 8, 3, 4]"
  by (simp add: path_write_def padded_to_def)

end
