(* ===== verification/Fdf.thy ===== *)
theory Fdf
  imports ChkFile Lnk Tokens CLib
begin

text \<open>
  \<open>fdf\<close>, the finder of duplicate files: the table of known files in \<open>fdftable.hpp\<close>, what
  is done with each file, the walk over directories and the switches in \<open>fdf.cpp\<close>. The
  comparison and checksum of \<open>ChkFile\<close> and the links of \<open>Lnk\<close> are called as they are.
\<close>

section \<open>Calls and state\<close>

record file_facts =
  fdwFileAttributes :: DWORD
  fdwVolumeSerialNumber :: DWORD
  fnFileSizeHigh :: DWORD
  fnFileSizeLow :: DWORD
  fnNumberOfLinks :: DWORD
  fnFileIndexHigh :: DWORD
  fnFileIndexLow :: DWORD

record fdf_reply = reply +
  facts :: file_facts

text \<open>A search answers with the name in \<open>line\<close> and with its facts; \<open>Break\<close> reads the flag that
  the console handler sets from another thread.\<close>

datatype fdf_call =
    Chk file_call
  | Link lnk_call
  | GetFileInformationByHandle int
  | GetFileAttributes string
  | SetFileAttributes string int
  | DeleteFile string
  | CopyFile string string
  | NewRecord
  | NewElement
  | Strdup string
  | Free string
  | FindFirstFile string
  | FindNextFile int
  | FindClose int
  | Break
  | Yield
  | Print string "arg list"
  | Complain string "arg list"
  | WinPerror string
  | Clreol
  | CharToOem string
  | NewTable
  | Startup

type_synonym fdf_prog = "(fdf_call, fdf_reply) prog"

record FILE_RECORD =
  FileSize :: QWORD
  FileIndex :: QWORD
  Checksum0 :: QWORD
  Checksum1 :: QWORD
  bChecksumCalculated :: bool
  dwVolumeSerial :: DWORD
  szFilePath :: string

type_synonym record_table = "FILE_RECORD list list"

definition FILE_RECORD_TABLE_SIZE :: nat where "FILE_RECORD_TABLE_SIZE = 256"

text \<open>The constructor.\<close>

definition empty_table :: record_table where
  "empty_table = replicate FILE_RECORD_TABLE_SIZE []"

definition quad :: "DWORD \<Rightarrow> DWORD \<Rightarrow> QWORD" where
  "quad high low = push_bit 32 (ucast high) OR ucast low"

definition bucket :: "DWORD \<Rightarrow> nat" where
  "bucket low = unat (drop_bit 10 low AND 255)"

definition record_bucket :: "FILE_RECORD \<Rightarrow> nat" where
  "record_bucket fr = bucket (ucast (FileSize fr))"

section \<open>The table\<close>

abbreviation chk :: "comparison \<Rightarrow> (int \<Rightarrow> fdf_prog) \<Rightarrow> fdf_prog" where
  "chk \<equiv> embed Chk reply.truncate"

abbreviation open_file :: "string \<Rightarrow> (fdf_reply \<Rightarrow> fdf_prog) \<Rightarrow> fdf_prog" where
  "open_file path k \<equiv> Sys (Chk (file_call.CreateFile path)) k"

abbreviation close_file :: "int \<Rightarrow> fdf_prog \<Rightarrow> fdf_prog" where
  "close_file h k \<equiv> Sys (Chk (file_call.CloseHandle h)) (\<lambda>_. k)"

text \<open>The two sums of \<open>GetFileCheckSum\<close> as one number.\<close>

definition sums_code :: "QWORD \<times> QWORD \<Rightarrow> int" where
  "sums_code c = uint (fst c) + 2 ^ 64 * uint (snd c)"

definition sums_of :: "int \<Rightarrow> QWORD \<times> QWORD" where
  "sums_of n = (word_of_int n, word_of_int (n div 2 ^ 64))"

definition check_sum :: "nat \<Rightarrow> int \<Rightarrow> ((QWORD \<times> QWORD) option \<Rightarrow> fdf_prog) \<Rightarrow> fdf_prog" where
  "check_sum fuel h k =
    chk (GetFileCheckSum fuel h (\<lambda>good c. Done (if good then sums_code c else - 1)))
      (\<lambda>n. if n = - 1 then k None else k (Some (sums_of n)))"

text \<open>A handle that cannot be moved to the end of the skipped part stays open.\<close>

definition skip_start :: "nat \<Rightarrow> int \<Rightarrow> fdf_prog \<Rightarrow> fdf_prog \<Rightarrow> fdf_prog" where
  "skip_start dwSkipSize h good bad =
    (if dwSkipSize > 0 then
       Sys (Chk (file_call.SetFilePointer h dwSkipSize)) (\<lambda>r. if rv r = 0 then bad else good)
     else good)"

definition CalculateChecksum :: "nat \<Rightarrow> FILE_RECORD \<Rightarrow> nat \<Rightarrow> (FILE_RECORD \<Rightarrow> bool \<Rightarrow> fdf_prog) \<Rightarrow> fdf_prog" where
  "CalculateChecksum fuel fr dwSkipSize k =
    open_file (szFilePath fr) (\<lambda>f.
      if rv f = invalid_handle then k fr False
      else
        skip_start dwSkipSize (rv f)
          (check_sum fuel (rv f) (\<lambda>c.
            close_file (rv f)
              (case c of
                 None \<Rightarrow> k (fr\<lparr>bChecksumCalculated := False\<rparr>) False
               | Some (c0, c1) \<Rightarrow> k (fr\<lparr>Checksum0 := c0, Checksum1 := c1, bChecksumCalculated := True\<rparr>) True)))
          (k fr False))"

text \<open>Taking the element at a place of its chain out of the table.\<close>

definition Delete :: "record_table \<Rightarrow> nat \<Rightarrow> nat \<Rightarrow> (record_table \<Rightarrow> fdf_prog) \<Rightarrow> fdf_prog" where
  "Delete table b i k =
    Sys (Free (szFilePath (table ! b ! i))) (\<lambda>_. k (table[b := take i (table ! b) @ drop (Suc i) (table ! b)]))"

text \<open>The step of the loop reads the element that has just been released.\<close>

definition delete_and_continue :: "record_table \<Rightarrow> nat \<Rightarrow> nat \<Rightarrow> fdf_prog" where
  "delete_and_continue table b i = Delete table b i (\<lambda>_. Crash)"

record candidate =
  path :: string
  skip :: nat
  hfile :: int
  size_of :: QWORD
  serial :: DWORD

text \<open>
  The loop over a chain: \<open>seen\<close> are the records before the current one; records whose
  sums are calculated on the way stay so. \<open>sums\<close> are those of the candidate, once known.
\<close>

fun search_chain :: "nat \<Rightarrow> candidate \<Rightarrow> record_table \<Rightarrow> nat \<Rightarrow> FILE_RECORD list \<Rightarrow> FILE_RECORD list \<Rightarrow>
    (QWORD \<times> QWORD) option \<Rightarrow> (record_table \<Rightarrow> FILE_RECORD option \<Rightarrow> fdf_prog) \<Rightarrow>
    (record_table \<Rightarrow> (QWORD \<times> QWORD) option \<Rightarrow> fdf_prog) \<Rightarrow> fdf_prog" where
  "search_chain fuel x table b seen [] sums k none = none (table[b := seen]) sums"
| "search_chain fuel x table b seen (fr # chain) sums k none =
    (if FileSize fr = size_of x \<and> dwVolumeSerial fr = serial x then
       let with_record = (\<lambda>fr c.
             let table' = table[b := seen @ fr # chain] in
             if Checksum0 fr = fst c \<and> Checksum1 fr = snd c then
               chk (CompareFiles fuel (szFilePath fr) (path x) (skip x)) (\<lambda>st.
                 if st = status_code FILE_COMPARE_EQUAL then close_file (hfile x) (k table' (Some fr))
                 else if st = status_code FILE_COMPARE_FILE1_FAILED then
                   delete_and_continue table' b (length seen)
                 else search_chain fuel x table b (seen @ [fr]) chain (Some c) k none)
             else search_chain fuel x table b (seen @ [fr]) chain (Some c) k none);
           with_sums = (\<lambda>c.
             if bChecksumCalculated fr then with_record fr c
             else
               CalculateChecksum fuel fr (skip x) (\<lambda>fr' good.
                 if good then with_record fr' c
                 else delete_and_continue (table[b := seen @ fr' # chain]) b (length seen)))
       in (case sums of
             Some c \<Rightarrow> with_sums c
           | None \<Rightarrow>
               check_sum fuel (hfile x) (\<lambda>c.
                 case c of
                   None \<Rightarrow> close_file (hfile x) (k (table[b := seen @ fr # chain]) None)
                 | Some c \<Rightarrow> with_sums c))
     else search_chain fuel x table b (seen @ [fr]) chain sums k none)"

definition add_record :: "record_table \<Rightarrow> FILE_RECORD \<Rightarrow> (record_table \<Rightarrow> FILE_RECORD option \<Rightarrow> fdf_prog) \<Rightarrow> fdf_prog" where
  "add_record table fr k =
    Sys NewRecord (\<lambda>r. Sys NewElement (\<lambda>e.
      if rv r = 0 \<or> rv e = 0 then k table None
      else
        Sys (Strdup (szFilePath fr)) (\<lambda>d.
          if rv d = 0 then k table None
          else
            let b = record_bucket fr in k (table[b := fr # table ! b]) None)))"

text \<open>The record of a file that was not found; its sums are those of the search, if there were any.\<close>

definition record_of :: "string \<Rightarrow> file_facts \<Rightarrow> (QWORD \<times> QWORD) option \<Rightarrow> FILE_RECORD" where
  "record_of p i sums =
    (let (c0, c1) = (case sums of None \<Rightarrow> (0, 0) | Some c \<Rightarrow> c) in
     \<lparr>FileSize = quad (fnFileSizeHigh i) (fnFileSizeLow i), FileIndex = quad (fnFileIndexHigh i) (fnFileIndexLow i),
      Checksum0 = c0, Checksum1 = c1, bChecksumCalculated = sums \<noteq> None,
      dwVolumeSerial = fdwVolumeSerialNumber i, szFilePath = p\<rparr>)"

definition find_opened :: "nat \<Rightarrow> record_table \<Rightarrow> string \<Rightarrow> nat \<Rightarrow> int \<Rightarrow>
    (record_table \<Rightarrow> FILE_RECORD option \<Rightarrow> fdf_prog) \<Rightarrow> fdf_prog" where
  "find_opened fuel table p dwSkipSize h k =
    Sys (GetFileInformationByHandle h) (\<lambda>r.
      if rv r = 0 then close_file h (k table None)
      else
        let i = facts r;
            b = bucket (fnFileSizeLow i);
            x = \<lparr>path = p, skip = dwSkipSize, hfile = h, size_of = quad (fnFileSizeHigh i) (fnFileSizeLow i),
                 serial = fdwVolumeSerialNumber i\<rparr>
        in search_chain fuel x table b [] (table ! b) None k (\<lambda>table sums.
             close_file h (add_record table (record_of p i sums) k)))"

text \<open>The record of an equal file, or none; then, unless something failed, the file is added.\<close>

definition FindEqualOrAdd :: "nat \<Rightarrow> record_table \<Rightarrow> string \<Rightarrow> nat \<Rightarrow>
    (record_table \<Rightarrow> FILE_RECORD option \<Rightarrow> fdf_prog) \<Rightarrow> fdf_prog" where
  "FindEqualOrAdd fuel table p dwSkipSize k =
    open_file p (\<lambda>f.
      if rv f = invalid_handle then k table None
      else skip_start dwSkipSize (rv f) (find_opened fuel table p dwSkipSize (rv f) k) (k table None))"

text \<open>The record of another link to the same file; files with one link are not looked for.\<close>

definition Find :: "record_table \<Rightarrow> string \<Rightarrow> (FILE_RECORD option \<Rightarrow> fdf_prog) \<Rightarrow> fdf_prog" where
  "Find table p k =
    open_file p (\<lambda>f.
      if rv f = invalid_handle then k None
      else
        Sys (GetFileInformationByHandle (rv f)) (\<lambda>r.
          close_file (rv f)
            (if rv r = 0 then k None
             else
               let i = facts r; index = quad (fnFileIndexHigh i) (fnFileIndexLow i) in
               if fnNumberOfLinks i \<le> 1 then k None
               else
                 k (find (\<lambda>fr. FileIndex fr = index \<and> dwVolumeSerial fr = fdwVolumeSerialNumber i)
                     (table ! bucket (fnFileSizeLow i))))))"

section \<open>The session\<close>

record fdf =
  bDisplayLinks :: bool
  bDisplayEqual :: bool
  bVerbose :: bool
  bQuiet :: bool
  bDeleteEqual :: bool
  bForceDelete :: bool
  bLinkEqual :: bool
  bRecurse :: bool
  bNoFollowJunctions :: bool
  bSplitLinks :: bool
  dwSkipSize :: nat
  dwExcludeStrings :: nat
  szExcludeStrings :: "string option"
  qwDupSize :: QWORD
  qwSavedSize :: QWORD
  qwDupFiles :: QWORD
  qwFiles :: QWORD
  qwDeletedFiles :: QWORD
  FileRecordTable :: record_table
  LnkLibInitStatus :: lnk_status

definition initial :: fdf where
  "initial =
    \<lparr>bDisplayLinks = True, bDisplayEqual = True, bVerbose = True, bQuiet = False, bDeleteEqual = False,
     bForceDelete = False, bLinkEqual = False, bRecurse = False, bNoFollowJunctions = False, bSplitLinks = False,
     dwSkipSize = 0, dwExcludeStrings = 0, szExcludeStrings = None, qwDupSize = 0, qwSavedSize = 0, qwDupFiles = 0,
     qwFiles = 0, qwDeletedFiles = 0, FileRecordTable = [], LnkLibInitStatus = LnkLibNotInit\<rparr>"

text \<open>Lower case in the C locale.\<close>

definition clower :: "char \<Rightarrow> char" where
  "clower c = (if 65 \<le> code c \<and> code c \<le> 90 then char_of (code c + 32) else c)"

definition zero :: char where "zero = CHR 0x00"

text \<open>\<open>None\<close> when there is a count but no string.\<close>

definition ExcludedString :: "fdf \<Rightarrow> string \<Rightarrow> bool option" where
  "ExcludedString s cCurrentPath =
    (case szExcludeStrings s of
       None \<Rightarrow> None
     | Some m \<Rightarrow> Some (\<exists>x \<in> set (block_strings zero (dwExcludeStrings s) m). occurs clower zero x cCurrentPath))"

section \<open>One file\<close>

definition line_end :: "fdf_prog \<Rightarrow> fdf_prog" where
  "line_end k = Sys Clreol (\<lambda>_. Sys (Print [] []) (\<lambda>_. k))"

definition show_path :: "fdf \<Rightarrow> string \<Rightarrow> fdf_prog \<Rightarrow> fdf_prog" where
  "show_path s p k =
    (if bVerbose s then Sys (Print ''%.79s'' [S p]) (\<lambda>_. Sys Clreol (\<lambda>_. Sys (Print [] []) (\<lambda>_. k))) else k)"

definition file_size :: "file_facts \<Rightarrow> QWORD" where
  "file_size i = ucast (fnFileSizeLow i) + push_bit 32 (ucast (fnFileSizeHigh i))"

text \<open>Links are made by \<open>fdf/lnk.c\<close>, which keeps whether it has looked up the calls.\<close>

definition hard_link :: "fdf \<Rightarrow> string \<Rightarrow> string \<Rightarrow> (fdf \<Rightarrow> bool \<Rightarrow> fdf_prog) \<Rightarrow> fdf_prog" where
  "hard_link s existing new k =
    (let make = (\<lambda>s.
       embed Link reply.truncate (CreateHardLinkToFile (LnkLibInitStatus s) existing new True) (\<lambda>n. k s (n \<noteq> 0)))
     in if LnkLibInitStatus s = LnkLibNotInit then
          embed Link reply.truncate (LnkLibInit (\<lambda>good status. Done (if good then 1 else 0))) (\<lambda>n.
            make (s\<lparr>LnkLibInitStatus := if n \<noteq> 0 then LnkLibInitOk else LnkLibInitFailed\<rparr>))
        else make s)"

text \<open>The attributes of a file that is in the way, with \<open>-f\<close>.\<close>

definition forced :: "fdf \<Rightarrow> string \<Rightarrow> string \<Rightarrow> (int \<Rightarrow> fdf_prog) \<Rightarrow> fdf_prog" where
  "forced s asked changed k =
    (if bForceDelete s then
       Sys (GetFileAttributes asked) (\<lambda>a. Sys (SetFileAttributes changed 0x80) (\<lambda>_. k (rv a)))
     else k 0)"

definition restore_attributes :: "fdf \<Rightarrow> string \<Rightarrow> int \<Rightarrow> fdf_prog \<Rightarrow> fdf_prog" where
  "restore_attributes s p a k = (if bForceDelete s then Sys (SetFileAttributes p a) (\<lambda>_. k) else k)"

definition known_link :: "fdf \<Rightarrow> string \<Rightarrow> FILE_RECORD \<Rightarrow> (fdf \<Rightarrow> fdf_prog) \<Rightarrow> fdf_prog" where
  "known_link s p fr k =
    (let s = s\<lparr>qwFiles := qwFiles s + 1\<rparr> in
     if bSplitLinks s then
       Sys (GetFileAttributes p) (\<lambda>a.
       Sys (SetFileAttributes p 0x80) (\<lambda>_.
       Sys (DeleteFile p) (\<lambda>d.
         if rv d = 0 then
           Sys (WinPerror p) (\<lambda>_. Sys (SetFileAttributes p (rv a)) (\<lambda>_.
             Sys (Complain ''Cannot unlink %s'' [S p]) (\<lambda>_. line_end (k s))))
         else
           Sys (SetFileAttributes (szFilePath fr) (rv a)) (\<lambda>_.
           Sys (CopyFile (szFilePath fr) p) (\<lambda>c.
             if rv c = 0 then
               Sys (WinPerror p) (\<lambda>_. Sys (Complain ''Cannot copy %s to %s'' [S (szFilePath fr), S p]) (\<lambda>_.
                 line_end (k s)))
             else Sys (Print ''%s copied to %s'' [S (szFilePath fr), S p]) (\<lambda>_. k s))))))
     else if bDeleteEqual s \<and> bLinkEqual s then
       Sys (Print ''%s <=> %s: '' [S p, S (szFilePath fr)]) (\<lambda>_.
       forced s (szFilePath fr) p (\<lambda>a.
       Sys (DeleteFile p) (\<lambda>d.
         let finish = (\<lambda>s. line_end (restore_attributes s (szFilePath fr) a (k s))) in
         if rv d \<noteq> 0 then
           let s' = s\<lparr>qwDeletedFiles := qwDeletedFiles s + 1\<rparr> in
           if bDisplayEqual s then Sys (Print ''Deleted ok.'' []) (\<lambda>_. finish s') else finish s'
         else Sys (WinPerror p) (\<lambda>_. Sys (Complain ''Cannot delete %s'' [S p]) (\<lambda>_. finish s)))))
     else if bDisplayLinks s then Sys (Print ''%s <=> %s'' [S p, S (szFilePath fr)]) (\<lambda>_. line_end (k s))
     else k s)"

definition left_duplicate :: "fdf \<Rightarrow> file_facts \<Rightarrow> fdf" where
  "left_duplicate s i = s\<lparr>qwDupSize := qwDupSize s + file_size i\<rparr>"

definition saved_duplicate :: "fdf \<Rightarrow> file_facts \<Rightarrow> fdf" where
  "saved_duplicate s i =
    s\<lparr>qwDeletedFiles := qwDeletedFiles s + 1, qwSavedSize := qwSavedSize s + file_size i\<rparr>"

definition duplicate :: "fdf \<Rightarrow> string \<Rightarrow> file_facts \<Rightarrow> FILE_RECORD \<Rightarrow> (fdf \<Rightarrow> fdf_prog) \<Rightarrow> fdf_prog" where
  "duplicate s p i fr k =
    (let s = s\<lparr>qwFiles := qwFiles s + 1, qwDupFiles := qwDupFiles s + 1\<rparr>;
         done_ok = (\<lambda>s text.
           if bDisplayEqual s then Sys (Print text []) (\<lambda>_. k (saved_duplicate s i)) else k (saved_duplicate s i));
         act =
           (if bDeleteEqual s then
              forced s p p (\<lambda>a.
              Sys (DeleteFile p) (\<lambda>d.
                if rv d = 0 then
                  Sys (WinPerror p) (\<lambda>_. restore_attributes s p a
                    (Sys (Complain ''Cannot delete %s'' [S p]) (\<lambda>_. k (left_duplicate s i))))
                else done_ok s ''Deleted ok.''))
            else if bLinkEqual s then
              forced s p p (\<lambda>a.
              hard_link s (szFilePath fr) p (\<lambda>s good.
                if good then done_ok s ''Hard linked ok.''
                else
                  hard_link s p (szFilePath fr) (\<lambda>s good.
                    if good then done_ok s ''Hard linked ok.''
                    else
                      Sys (WinPerror p) (\<lambda>_. restore_attributes s p a
                        (Sys (Complain ''Cannot link %s to %s.'' [S p, S (szFilePath fr)]) (\<lambda>_.
                          k (left_duplicate s i)))))))
            else if bDisplayEqual s then Sys (Print [] []) (\<lambda>_. k (left_duplicate s i))
            else k (left_duplicate s i))
     in if bDisplayEqual s then
          Sys (Print ''%s contains same as %s (%.4g %s). '' [S p, S (szFilePath fr), I (uint (file_size i))]) (\<lambda>_.
          Sys Clreol (\<lambda>_. act))
        else act)"

text \<open>The facts are those of the search that found the file; \<open>io\<close> is the fuel for reading a file.\<close>

definition chkfile :: "nat \<Rightarrow> fdf \<Rightarrow> string \<Rightarrow> file_facts \<Rightarrow> (fdf \<Rightarrow> fdf_prog) \<Rightarrow> fdf_prog" where
  "chkfile io s p i k =
    show_path s p
      (Find (FileRecordTable s) p (\<lambda>known.
        case known of
          Some fr \<Rightarrow> known_link s p fr k
        | None \<Rightarrow>
            let found = (\<lambda>table r.
              let s = s\<lparr>FileRecordTable := table\<rparr> in
              case r of
                None \<Rightarrow> k (s\<lparr>qwFiles := qwFiles s + 1\<rparr>)
              | Some fr \<Rightarrow> if p = szFilePath fr then k s else duplicate s p i fr k)
            in if dwSkipSize s > 0 then
                 if sint (file_size i) > int (dwSkipSize s) then
                   FindEqualOrAdd io (FileRecordTable s) p (dwSkipSize s) found
                 else found (FileRecordTable s) None
               else FindEqualOrAdd io (FileRecordTable s) p 0 found))"

section \<open>The walk\<close>

definition PATH_SIZE :: nat where "PATH_SIZE = 32768"

text \<open>\<open>WFilteredFileFinder\<close> with attributes that a file must not, and must have.\<close>

definition wanted :: "DWORD \<Rightarrow> DWORD \<Rightarrow> fdf_reply \<Rightarrow> bool" where
  "wanted forbidden required r \<longleftrightarrow>
    fdwFileAttributes (facts r) AND forbidden = 0 \<and> NOT (fdwFileAttributes (facts r)) AND required = 0"

primrec filter_loop :: "nat \<Rightarrow> int \<Rightarrow> DWORD \<Rightarrow> DWORD \<Rightarrow> fdf_reply \<Rightarrow> (fdf_reply option \<Rightarrow> fdf_prog) \<Rightarrow> fdf_prog" where
  "filter_loop 0 h forbidden required r k = OutOfFuel"
| "filter_loop (Suc fuel) h forbidden required r k =
    (if wanted forbidden required r then k (Some r)
     else
       Sys (FindNextFile h) (\<lambda>r. if rv r = 0 then k None else filter_loop fuel h forbidden required r k))"

definition find_first :: "nat \<Rightarrow> string \<Rightarrow> DWORD \<Rightarrow> DWORD \<Rightarrow> ((int \<times> fdf_reply) option \<Rightarrow> fdf_prog) \<Rightarrow> fdf_prog" where
  "find_first fuel p forbidden required k =
    Sys (FindFirstFile p) (\<lambda>r.
      if rv r = invalid_handle then k None
      else
        filter_loop fuel (rv r) forbidden required r (\<lambda>x.
          case x of None \<Rightarrow> Sys (FindClose (rv r)) (\<lambda>_. k None) | Some x \<Rightarrow> k (Some (rv r, x))))"

definition find_next :: "nat \<Rightarrow> int \<Rightarrow> DWORD \<Rightarrow> DWORD \<Rightarrow> (fdf_reply option \<Rightarrow> fdf_prog) \<Rightarrow> fdf_prog" where
  "find_next fuel h forbidden required k =
    Sys (FindNextFile h) (\<lambda>r. if rv r = 0 then k None else filter_loop fuel h forbidden required r k)"

definition DIRECTORY :: DWORD where "DIRECTORY = 0x10"
definition REPARSE_POINT :: DWORD where "REPARSE_POINT = 0x400"

definition junction_mask :: "fdf \<Rightarrow> DWORD" where
  "junction_mask s = (if bNoFollowJunctions s then REPARSE_POINT else 0)"

text \<open>Whether the path is left out; \<open>None\<close> reads a null pointer.\<close>

definition left_out :: "fdf \<Rightarrow> string \<Rightarrow> bool option" where
  "left_out s p = (if dwExcludeStrings s \<noteq> 0 then ExcludedString s p else Some False)"

text \<open>
  The loop over the directories that a search finds; \<open>dir\<close> is the path up to the pointer
  that the source passes on, \<open>sub\<close> walks one of them.
\<close>

primrec dir_loop :: "nat \<Rightarrow> (fdf \<Rightarrow> string \<Rightarrow> (fdf \<Rightarrow> bool \<Rightarrow> fdf_prog) \<Rightarrow> fdf_prog) \<Rightarrow> fdf \<Rightarrow> string \<Rightarrow> int \<Rightarrow>
    fdf_reply \<Rightarrow> (fdf \<Rightarrow> bool \<Rightarrow> fdf_prog) \<Rightarrow> fdf_prog" where
  "dir_loop 0 sub s dir h r k = OutOfFuel"
| "dir_loop (Suc fuel) sub s dir h r k =
    (let close = (\<lambda>s good. Sys (FindClose h) (\<lambda>_. k s good));
         next' = (\<lambda>s.
           find_next fuel h (junction_mask s) DIRECTORY (\<lambda>x.
             case x of None \<Rightarrow> close s True | Some r \<Rightarrow> dir_loop fuel sub s dir h r k));
         name = line r
     in Sys Yield (\<lambda>_. Sys Break (\<lambda>c.
          if rv c \<noteq> 0 then close s False
          else if PATH_SIZE < length dir + length name + 2 then
            Sys (Complain ''Skipping too long name: %s'' [S name]) (\<lambda>_. next' s)
          else if name = ''.'' \<or> name = ''..'' then next' s
          else if PATH_SIZE < length dir + length name + 4 then
            Sys (Complain ''Skipping too long path: %s'' [S (dir @ name)]) (\<lambda>_. next' s)
          else
            let dir' = dir @ name @ [CHR 0x5C] in
            case left_out s dir' of
              None \<Rightarrow> Crash
            | Some True \<Rightarrow> next' s
            | Some False \<Rightarrow> sub s dir' (\<lambda>s good. if good then next' s else close s False))))"

primrec file_loop :: "nat \<Rightarrow> nat \<Rightarrow> fdf \<Rightarrow> string \<Rightarrow> int \<Rightarrow> fdf_reply \<Rightarrow> (fdf \<Rightarrow> bool \<Rightarrow> fdf_prog) \<Rightarrow> fdf_prog" where
  "file_loop 0 io s dir h r k = OutOfFuel"
| "file_loop (Suc fuel) io s dir h r k =
    (let close = (\<lambda>s good. Sys (FindClose h) (\<lambda>_. k s good));
         next' = (\<lambda>s.
           find_next fuel h DIRECTORY 0 (\<lambda>x.
             case x of None \<Rightarrow> close s True | Some r \<Rightarrow> file_loop fuel io s dir h r k));
         name = line r
     in Sys Yield (\<lambda>_. Sys Break (\<lambda>c.
          if rv c \<noteq> 0 then close s False
          else if PATH_SIZE < length dir + length name + 2 then
            Sys (Complain ''Skipping too long name: %s'' [S name]) (\<lambda>_. next' s)
          else
            let p = dir @ name in
            case left_out s p of
              None \<Rightarrow> Crash
            | Some True \<Rightarrow> next' s
            | Some False \<Rightarrow>
                if fnFileSizeHigh (facts r) OR fnFileSizeLow (facts r) \<noteq> 0
                then chkfile io s p (facts r) next' else next' s)))"

text \<open>
  The room for a pattern is computed without a sign: it is found too small only if there
  is none at all, and a longer pattern is written behind the path buffer.
\<close>

primrec pattern_loop :: "nat \<Rightarrow> nat \<Rightarrow> fdf \<Rightarrow> string \<Rightarrow> string list \<Rightarrow> (fdf \<Rightarrow> bool \<Rightarrow> fdf_prog) \<Rightarrow> fdf_prog" where
  "pattern_loop fuel io s dir [] k = k s True"
| "pattern_loop fuel io s dir (pat # pats) k =
    Sys Yield (\<lambda>_. Sys Break (\<lambda>c.
      if rv c \<noteq> 0 then k s False
      else if length dir + length pat = PATH_SIZE then
        Sys (Complain ''Skipping too long path: %s'' [S dir]) (\<lambda>_. pattern_loop fuel io s dir pats k)
      else if length dir + length pat > PATH_SIZE then Crash
      else
        find_first fuel (dir @ pat) DIRECTORY 0 (\<lambda>x.
          case x of
            None \<Rightarrow> pattern_loop fuel io s dir pats k
          | Some (h, r) \<Rightarrow>
              file_loop fuel io s dir h r (\<lambda>s good. if good then pattern_loop fuel io s dir pats k else k s False))))"

primrec dosubdir :: "nat \<Rightarrow> nat \<Rightarrow> string list \<Rightarrow> fdf \<Rightarrow> string \<Rightarrow> (fdf \<Rightarrow> bool \<Rightarrow> fdf_prog) \<Rightarrow> fdf_prog" where
  "dosubdir 0 io pats s dir k = OutOfFuel"
| "dosubdir (Suc fuel) io pats s dir k =
    (let files = (\<lambda>s. pattern_loop fuel io s dir pats k) in
     if bRecurse s then
       show_path s dir
         (find_first fuel (dir @ ''*'') (junction_mask s) DIRECTORY (\<lambda>x.
           case x of
             None \<Rightarrow> files s
           | Some (h, r) \<Rightarrow>
               dir_loop fuel (dosubdir fuel io pats) s dir h r (\<lambda>s good. if good then files s else k s False)))
     else files s)"

section \<open>The program\<close>

definition usage :: "fdf_prog" where
  "usage = Sys (Complain ''Usage: fdf [-cdfhjlqrs] [-n:LEN] [-x:string[,string2 ...]] [filepattern ...]'' []) (\<lambda>_. Done 1)"

text \<open>The size behind \<open>-n:\<close>, as an unsigned number of 32 bits; \<open>Inl\<close> is a message.\<close>

definition skip_size :: "string \<Rightarrow> (string \<times> string) + nat" where
  "skip_size v =
    (let (n, suffix) = strtoul v 0; n = unat n; m = 2 ^ 32 in
     if suffix = v then Inl (''Invalid size: %s'', suffix)
     else if length suffix > 1 then Inl (''Invalid size suffix: %s'', suffix)
     else if suffix = ''M'' then Inr (n * 1024 mod m * 1024 mod m)
     else if suffix = ''K'' then Inr (n * 1024 mod m)
     else if suffix = ''m'' then Inr (n * 1000 mod m * 1000 mod m)
     else if suffix = ''k'' then Inr (n * 1000 mod m)
     else if suffix = [] then Inr n
     else Inl (''Invalid size suffix: %c'', suffix))"

definition value_of :: "string \<Rightarrow> string option" where
  "value_of w = (case w of [] \<Rightarrow> None | c # v \<Rightarrow> if c = CHR '':'' then Some v else None)"

fun switches :: "string \<Rightarrow> fdf \<Rightarrow> (fdf \<Rightarrow> fdf_prog) \<Rightarrow> fdf_prog" where
  "switches [] s k = k s"
| "switches (c # w) s k =
    (let x = fold_case c in
     if x = CHR ''h'' then switches w (s\<lparr>bDisplayLinks := False\<rparr>) k
     else if x = CHR ''s'' then switches w (s\<lparr>bDisplayEqual := False\<rparr>) k
     else if x = CHR ''d'' then switches w (s\<lparr>bDeleteEqual := True\<rparr>) k
     else if x = CHR ''f'' then switches w (s\<lparr>bForceDelete := True\<rparr>) k
     else if x = CHR ''l'' then switches w (s\<lparr>bLinkEqual := True\<rparr>) k
     else if x = CHR ''n'' then
       (case value_of w of
          None \<Rightarrow> Sys (Complain ''Option -n requires an argument.'' []) (\<lambda>_. Done (- 1))
        | Some v \<Rightarrow>
            (case skip_size v of
               Inl (m, suffix) \<Rightarrow> Sys (Complain m [S suffix]) (\<lambda>_. Done (- 1))
             | Inr n \<Rightarrow> k (s\<lparr>dwSkipSize := n\<rparr>)))
     else if x = CHR ''q'' then
       switches w (s\<lparr>bQuiet := bQuiet s \<or> \<not> bVerbose s, bVerbose := False\<rparr>) k
     else if x = CHR ''r'' then switches w (s\<lparr>bRecurse := True\<rparr>) k
     else if x = CHR ''j'' then switches w (s\<lparr>bNoFollowJunctions := True\<rparr>) k
     else if x = CHR ''c'' then switches w (s\<lparr>bSplitLinks := True\<rparr>) k
     else if x = CHR ''x'' then
       (if dwExcludeStrings s \<noteq> 0 then usage
        else
          (case value_of w of
             None \<Rightarrow> usage
           | Some v \<Rightarrow>
               if v = [] then usage
               else
                 (case tokenize (\<lambda>c. c = CHR '','') zero v of
                    (m, n) \<Rightarrow> k (s\<lparr>szExcludeStrings := m, dwExcludeStrings := n\<rparr>))))
     else usage)"

fun all_switches :: "string list \<Rightarrow> fdf \<Rightarrow> (string list \<Rightarrow> fdf \<Rightarrow> fdf_prog) \<Rightarrow> fdf_prog" where
  "all_switches [] s k = k [] s"
| "all_switches ([] # args) s k = k ([] # args) s"
| "all_switches ((c # w) # args) s k =
    (if is_switch c then switches w s (\<lambda>s. all_switches args s k) else k ((c # w) # args) s)"

primrec to_oem :: "string list \<Rightarrow> (string list \<Rightarrow> fdf_prog) \<Rightarrow> fdf_prog" where
  "to_oem [] k = k []"
| "to_oem (a # args) k = Sys (CharToOem a) (\<lambda>r. to_oem args (\<lambda>args. k (line r # args)))"

definition summary :: "fdf \<Rightarrow> fdf_prog" where
  "summary s =
    (let plural = (\<lambda>n. if n = (1 :: QWORD) then [] else ''s'');
         q = (\<lambda>n :: QWORD. I (uint n));
         left_files = qwDupFiles s - qwDeletedFiles s;
         last =
           (if qwSavedSize s \<noteq> 0 then
              Sys (Print ''%.f file%s %s saved %.4g %s.''
                    [q (qwDeletedFiles s), S (plural (qwDeletedFiles s)),
                     S (if bDeleteEqual s then ''removed'' else ''linked with duplicate''), q (qwSavedSize s)]) (\<lambda>_.
                if qwDupSize s \<noteq> 0 then
                  Sys (Print ''%.f duplicate file%s left occupying %.4g %s.''
                        [q left_files, S (plural left_files), q (qwDupSize s)]) (\<lambda>_. Done 0)
                else Done 0)
            else if qwDupSize s \<noteq> 0 then
              Sys (Print ''%.f duplicate file%s occupying %.4g %s.''
                    [q (qwDupFiles s), S (plural (qwDupFiles s)), q (qwDupSize s)]) (\<lambda>_. Done 0)
            else Sys (Print ''No duplicate files found.'' []) (\<lambda>_. Done 0))
     in if qwFiles s \<noteq> 0
        then Sys (Print ''%.f file%s scanned.'' [q (qwFiles s), S (plural (qwFiles s))]) (\<lambda>_. last)
        else Sys (Print ''No files found.'' []) (\<lambda>_. last))"

text \<open>
  \<open>args\<close> are the arguments behind the name of the program. \<open>Startup\<close> stands for the calls
  before the walk: the file functions take OEM names, no error boxes, the console handler
  and the backup privileges.
\<close>

definition main :: "nat \<Rightarrow> nat \<Rightarrow> string list \<Rightarrow> fdf_prog" where
  "main fuel io args =
    all_switches args initial (\<lambda>args s.
      if bForceDelete s \<and> \<not> (bDeleteEqual s \<or> bLinkEqual s) then usage
      else
        to_oem args (\<lambda>args.
        Sys NewTable (\<lambda>t.
          if rv t = 0 then Sys (Complain ''Memory allocation error'' []) (\<lambda>_. Done (- 1))
          else
            let s = s\<lparr>FileRecordTable := empty_table\<rparr> in
            Sys Startup (\<lambda>_.
              dosubdir fuel io (if args = [] then [''*''] else args) s [] (\<lambda>s good.
                let finish = Sys Clreol (\<lambda>_. Sys (Print [] []) (\<lambda>_. summary s)) in
                if good then finish else Sys (Print ''* Break *'' []) (\<lambda>_. finish))))))"

text \<open>The handler that the system calls in a thread of its own, over the flag \<open>bBreak\<close>.\<close>

definition ConsoleCtrlHandler :: "nat \<Rightarrow> bool \<Rightarrow> bool \<times> bool" where
  "ConsoleCtrlHandler dwCtrlType bBreak = (if dwCtrlType \<in> {0, 1, 2} then (True, True) else (bBreak, False))"

end
