(* ===== verification/FdfTable.thy ===== *)
theory FdfTable
  imports Fdf
begin

text \<open>
  The table of \<open>fdf\<close> on a disk whose files do not change: what the comparison and the
  checksum tell of two files together, and the table as a set of files that are looked up
  by their content.
\<close>

section \<open>A disk\<close>

text \<open>
  \<open>C\<close> gives the content of a file by its path, \<open>J\<close> its facts. A handle knows the path
  and what is still to read. Files that exist can be opened and read, in pieces as long
  as asked for; memory does not run out. A name has as many characters in the OEM code page.
\<close>

record disk =
  handles :: "int \<Rightarrow> (string \<times> byte list) option"
  removed :: "string list"

text \<open>What is left of a file that has been removed.\<close>

definition content :: "(string \<Rightarrow> byte list option) \<Rightarrow> disk \<Rightarrow> string \<Rightarrow> byte list option" where
  "content C w p = (if p \<in> set (removed w) then None else C p)"

lemma content_handles [simp]: "content C (w\<lparr>handles := H\<rparr>) = content C w"
  by (simp add: content_def fun_eq_iff)

definition file_world :: "(string \<Rightarrow> byte list option) \<Rightarrow> (disk, file_call, reply) world" where
  "file_world C w c r w' \<longleftrightarrow>
    (case c of
       file_call.CreateFile f \<Rightarrow>
         (case content C w f of
            None \<Rightarrow> rv r = invalid_handle \<and> w' = w
          | Some d \<Rightarrow>
              rv r \<noteq> invalid_handle \<and> handles w (rv r) = None \<and> w' = w\<lparr>handles := (handles w)(rv r \<mapsto> (f, d))\<rparr>)
     | file_call.SetFilePointer h n \<Rightarrow>
         (case handles w h of
            None \<Rightarrow> w' = w
          | Some (f, d) \<Rightarrow> rv r \<noteq> 0 \<and> w' = w\<lparr>handles := (handles w)(h \<mapsto> (f, drop n d))\<rparr>)
     | file_call.ReadFile h n \<Rightarrow>
         (case handles w h of
            None \<Rightarrow> w' = w
          | Some (f, d) \<Rightarrow>
              rv r \<noteq> 0 \<and> out r = take n d \<and> num r = int (length (take n d)) \<and>
              w' = w\<lparr>handles := (handles w)(h \<mapsto> (f, drop n d))\<rparr>)
     | file_call.CloseHandle h \<Rightarrow> w' = w\<lparr>handles := (handles w)(h := None)\<rparr>
     | file_call.Sleep \<Rightarrow> w' = w)"

lemma file_world_simps:
  "file_world C w (file_call.CreateFile p) r w' \<longleftrightarrow>
    (case content C w p of
       None \<Rightarrow> rv r = invalid_handle \<and> w' = w
     | Some d \<Rightarrow> rv r \<noteq> invalid_handle \<and> handles w (rv r) = None \<and> w' = w\<lparr>handles := (handles w)(rv r \<mapsto> (p, d))\<rparr>)"
  "handles w h = Some (p, d) \<Longrightarrow> file_world C w (file_call.SetFilePointer h n) r w' \<longleftrightarrow>
    rv r \<noteq> 0 \<and> w' = w\<lparr>handles := (handles w)(h \<mapsto> (p, drop n d))\<rparr>"
  "handles w h = Some (p, d) \<Longrightarrow> file_world C w (file_call.ReadFile h n) r w' \<longleftrightarrow>
    rv r \<noteq> 0 \<and> out r = take n d \<and> num r = int (length (take n d)) \<and>
    w' = w\<lparr>handles := (handles w)(h \<mapsto> (p, drop n d))\<rparr>"
  "file_world C w (file_call.CloseHandle h) r w' \<longleftrightarrow> w' = w\<lparr>handles := (handles w)(h := None)\<rparr>"
  "file_world C w file_call.Sleep r w' \<longleftrightarrow> w' = w"
  by (simp_all add: file_world_def)

text \<open>
  A path is a file of its own: removing it leaves the others. Copies and links may do anything
  to the disk, so that a statement about a session says that it makes none.
\<close>

definition fdf_world :: "(string \<Rightarrow> byte list option) \<Rightarrow> (string \<Rightarrow> file_facts) \<Rightarrow> (disk, fdf_call, fdf_reply) world" where
  "fdf_world C J w c r w' \<longleftrightarrow>
    (case c of
       Chk c \<Rightarrow> file_world C w c (reply.truncate r) w'
     | GetFileInformationByHandle h \<Rightarrow>
         (case handles w h of None \<Rightarrow> True | Some (f, d) \<Rightarrow> rv r \<noteq> 0 \<and> facts r = J f) \<and> w' = w
     | DeleteFile p \<Rightarrow> w' = (if rv r = 0 then w else w\<lparr>removed := p # removed w\<rparr>)
     | NewRecord \<Rightarrow> rv r \<noteq> 0 \<and> w' = w
     | NewElement \<Rightarrow> rv r \<noteq> 0 \<and> w' = w
     | Strdup p \<Rightarrow> rv r \<noteq> 0 \<and> w' = w
     | CopyFile p q \<Rightarrow> True
     | Link c \<Rightarrow> True
     | CharToOem a \<Rightarrow> length (line r) = length a \<and> w' = w
     | _ \<Rightarrow> w' = w)"

lemma wp_chk [wp_rules]: "wp (file_world C) (\<lambda>w n. wpx (fdf_world C J) Q E w (k n)) w p \<Longrightarrow> wpx (fdf_world C J) Q E w (chk p k)"
  by (rule wp_embed) (simp_all add: fdf_world_def)

lemma truncate_sel [simp]: "rv (reply.truncate r) = rv r" "num (reply.truncate r) = num r" "out (reply.truncate r) = out r"
  by (simp_all add: reply.truncate_def)

lemma disk_eqI: "handles w = H \<Longrightarrow> w\<lparr>handles := H\<rparr> = (w :: disk)"
  by simp

text \<open>Nothing is read at the end of a file only.\<close>

lemma read_nothing [simp]: "min (length d) 16384 = 0 \<longleftrightarrow> d = []"
  by (cases d) auto

section \<open>The comparison\<close>

definition same_blocks :: "byte list \<Rightarrow> byte list \<Rightarrow> FILE_COMPARE_STATUS" where
  "same_blocks d e = (if compared d = compared e then FILE_COMPARE_EQUAL else FILE_COMPARE_NOT_EQUAL)"

lemma compared_step:
  assumes "length d = length e"
  shows "compared d = compared e \<longleftrightarrow>
    compared (take 16384 d) = compared (take 16384 e) \<and> compared (drop 16384 d) = compared (drop 16384 e)"
proof (cases "length d \<le> 16384")
  case True
  with assms show ?thesis by (simp add: compared_def)
next
  case False
  have "compared x = take 16384 x @ compared (drop 16384 x) \<and> compared (take 16384 x) = take 16384 x"
    if "length x = length d" for x :: "byte list"
    using that False compared_append[of "take 16384 x" "drop 16384 x"] compared_append[of "take 16384 x" "[]"]
    by (simp add: compared_def)
  from this[of d] this[of e] assms show ?thesis by simp
qed

lemma wp_close_both:
  "Q (w\<lparr>handles := (handles w)(a := None, b := None)\<rparr>) (status_code st) \<Longrightarrow>
    wp (file_world C) Q w (close_both a b st)"
  by (simp add: close_both_def result_def file_world_simps)

lemma wp_compare_files_loop:
  assumes "handles w a = Some (f, d)" and "handles w b = Some (g, e)" and "a \<noteq> b"
    and "length d = length e" and "length d < fuel"
    and "Q (w\<lparr>handles := (handles w)(a := None, b := None)\<rparr>) (status_code (same_blocks d e))"
  shows "wp (file_world C) Q w (compare_files_loop fuel a b)"
  using assms
proof (induction fuel arbitrary: w d e)
  case (Suc fuel)
  let ?w = "w\<lparr>handles := (handles w)(a \<mapsto> (f, drop 16384 d), b \<mapsto> (g, drop 16384 e))\<rparr>"
  let ?x = "take 16384 d" and ?y = "take 16384 e"
  have l: "length ?x = length ?y" "num (r :: reply) = int (length ?x) \<Longrightarrow> nat (num r) div 8 = length ?x div 8" for r
    using Suc.prems(4) by simp_all
  have m: "CompareMemory ?x ?y (length ?x div 8) \<longleftrightarrow> compared ?x = compared ?y"
    using l(1) by (rule CompareMemory_compared)
  have w: "?w\<lparr>handles := (handles ?w)(a := None, b := None)\<rparr> = w\<lparr>handles := (handles w)(a := None, b := None)\<rparr>"
  proof -
    have "(handles ?w)(a := None, b := None) = (handles w)(a := None, b := None)" by (rule ext) simp
    then show ?thesis by simp
  qed
  have finish: "wp (file_world C) Q ?w (close_both a b (same_blocks d e))"
    by (rule wp_close_both) (simp only: w Suc.prems(6))
  have "wp (file_world C) Q ?w
      (if d = [] then close_both a b FILE_COMPARE_EQUAL
       else if compared ?x \<noteq> compared ?y then close_both a b FILE_COMPARE_NOT_EQUAL
       else compare_files_loop fuel a b)"
  proof (cases "d = []")
    case True
    with Suc.prems(4) have "d = e" by simp
    with finish True show ?thesis by (simp add: same_blocks_def)
  next
    case False
    show ?thesis
    proof (cases "compared ?x = compared ?y")
      case True
      with compared_step[OF Suc.prems(4)] have s: "same_blocks d e = same_blocks (drop 16384 d) (drop 16384 e)"
        by (simp add: same_blocks_def)
      have "wp (file_world C) Q ?w (compare_files_loop fuel a b)"
      proof (rule Suc.IH[where d = "drop 16384 d" and e = "drop 16384 e"])
        have "0 < length d" using False by simp
        with Suc.prems(5) show "length (drop 16384 d) < fuel" unfolding length_drop by linarith
        show "Q (?w\<lparr>handles := (handles ?w)(a := None, b := None)\<rparr>)
          (status_code (same_blocks (drop 16384 d) (drop 16384 e)))"
          using Suc.prems(6) by (simp only: w s)
      qed (use Suc.prems(3,4) in simp_all)
      with True False show ?thesis by simp
    next
      case no: False
      with compared_step[OF Suc.prems(4)] have "same_blocks d e = FILE_COMPARE_NOT_EQUAL"
        by (simp add: same_blocks_def)
      with no False finish show ?thesis by simp
    qed
  qed
  moreover have "e = [] \<longleftrightarrow> d = []" using Suc.prems(4) by auto
  ultimately show ?case
    using Suc.prems(1-4) m by (auto simp: file_world_simps l split: if_splits)
qed simp


text \<open>Both files are opened, and both handles are closed again.\<close>

lemma wp_compare_rest:
  assumes "handles w a = Some (f, d')" and "content C w g = Some e" and "length d' = length (drop n e)" and "length d' < fuel"
    and "Q (w\<lparr>handles := (handles w)(a := None)\<rparr>) (status_code (same_blocks d' (drop n e)))"
  shows "wp (file_world C) Q w (compare_rest fuel a g n)"
proof -
  have "wp (file_world C) Q (w\<lparr>handles := (handles w)(b \<mapsto> (g, drop n e))\<rparr>) (compare_files_loop fuel a b)"
    if "handles w b = None" for b
  proof (rule wp_compare_files_loop[where d = d' and e = "drop n e"])
    have "a \<noteq> b" using assms(1) that by auto
    then show "a \<noteq> b" "handles (w\<lparr>handles := (handles w)(b \<mapsto> (g, drop n e))\<rparr>) a = Some (f, d')"
      using assms(1) by simp_all
    have "((handles w)(b \<mapsto> (g, drop n e)))(a := None, b := None) = (handles w)(a := None)"
      using that by (auto simp: fun_eq_iff)
    then show "Q (w\<lparr>handles := (handles w)(b \<mapsto> (g, drop n e))\<rparr>
        \<lparr>handles := (handles (w\<lparr>handles := (handles w)(b \<mapsto> (g, drop n e))\<rparr>))(a := None, b := None)\<rparr>)
      (status_code (same_blocks d' (drop n e)))" using assms(5) by simp
  qed (use assms(3,4) in simp_all)
  then show ?thesis
    using assms(2) by (cases "n = 0") (auto simp: compare_rest_def file_world_simps)
qed

lemma wp_CompareFiles [wp_rules]:
  assumes "content C w f = Some d" and "content C w g = Some e" and "length d = length e" and "length d < fuel"
    and "Q w (status_code (same_blocks (drop n d) (drop n e)))"
  shows "wp (file_world C) Q w (CompareFiles fuel f g n)"
proof -
  have "wp (file_world C) Q (w\<lparr>handles := (handles w)(a \<mapsto> (f, drop n d))\<rparr>) (compare_rest fuel a g n)"
    if "handles w a = None" for a
  proof (rule wp_compare_rest[where f = f and d' = "drop n d" and g = g and e = e])
    have "((handles w)(a \<mapsto> (f, drop n d)))(a := None) = handles w" using that by (auto simp: fun_eq_iff)
    then show "Q (w\<lparr>handles := (handles w)(a \<mapsto> (f, drop n d))\<rparr>
        \<lparr>handles := (handles (w\<lparr>handles := (handles w)(a \<mapsto> (f, drop n d))\<rparr>))(a := None)\<rparr>)
      (status_code (same_blocks (drop n d) (drop n e)))" using assms(5) by simp
  qed (use assms(2-4) in simp_all)
  then show ?thesis
    using assms(1) by (cases "n = 0") (auto simp: CompareFiles_def file_world_simps)
qed

section \<open>The checksum\<close>

function sums_from :: "byte list \<Rightarrow> QWORD \<times> QWORD \<Rightarrow> QWORD \<times> QWORD" where
  "sums_from d c =
    (if d = [] then c
     else
       let m = padded (take 16384 d) in sums_from (drop 16384 d) (checksum_blocks m (length m div 8) 0 c))"
  by pat_completeness auto
termination by (relation "measure (\<lambda>(d, c). length d)") auto

declare sums_from.simps [simp del]

text \<open>The two sums of a content, which \<open>GetFileCheckSum\<close> computes in pieces.\<close>

definition sums_of_content :: "byte list \<Rightarrow> QWORD \<times> QWORD" where
  "sums_of_content d = sums_from d (0, 0)"

lemma wp_checksum_loop:
  assumes "handles w h = Some (f, d)" and "length d < fuel"
    and "wp (file_world C) Q (w\<lparr>handles := (handles w)(h \<mapsto> (f, []))\<rparr>) (k True (sums_from d c))"
  shows "wp (file_world C) Q w (checksum_loop fuel h c k)"
  using assms
proof (induction fuel arbitrary: w d c)
  case (Suc fuel)
  let ?m = "padded (take 16384 d)" and ?w = "w\<lparr>handles := (handles w)(h \<mapsto> (f, drop 16384 d))\<rparr>"
  let ?c = "checksum_blocks ?m (length ?m div 8) 0 c"
  show ?case
  proof (cases "d = []")
    case True
    have "(handles w)(h \<mapsto> (f, [])) = handles w" using True Suc.prems(1) by auto
    with True Suc.prems show ?thesis by (auto simp: file_world_simps sums_from.simps simp del: fun_upd_apply)
  next
    case False
    have "wp (file_world C) Q ?w (checksum_loop fuel h ?c k)"
    proof (rule Suc.IH[where d = "drop 16384 d"])
      have "0 < length d" using False by simp
      with Suc.prems(2) show "length (drop 16384 d) < fuel" unfolding length_drop by linarith
      show "wp (file_world C) Q (?w\<lparr>handles := (handles ?w)(h \<mapsto> (f, []))\<rparr>) (k True (sums_from (drop 16384 d) ?c))"
        using Suc.prems(3) False by (simp add: sums_from.simps[of d] Let_def del: fun_upd_apply)
    qed simp
    with False Suc.prems(1) show ?thesis
      by (auto simp: file_world_simps Let_def)
  qed
qed simp

lemma sums_from_fst: "fst (sums_from d c) = fold (\<lambda>q x. x XOR q) (blocks (padded d)) (fst c)"
proof (induction d c rule: sums_from.induct)
  case (1 d c)
  show ?case
  proof (cases "d = []")
    case True
    then show ?thesis by (simp add: sums_from.simps padded_def blocks_def)
  next
    case False
    let ?m = "padded (take 16384 d)"
    have "blocks (padded d) = blocks ?m @ blocks (padded (drop 16384 d))"
    proof (cases "length d \<le> 16384")
      case True
      then show ?thesis by (simp add: padded_def blocks_def)
    next
      case False
      then have t: "length (take 16384 d) = 16384" by simp
      then have "?m = take 16384 d" by (simp add: padded_def)
      moreover have "padded d = take 16384 d @ padded (drop 16384 d)"
        using padded_append[of "take 16384 d" "drop 16384 d"] t by simp
      ultimately show ?thesis using t by (simp add: blocks_append)
    qed
    with 1[OF False refl] False show ?thesis
      by (subst sums_from.simps) (simp add: Let_def checksum_blocks_xor blocks_def)
  qed
qed

section \<open>Comparison and checksum together\<close>

text \<open>
  The comparison leaves out up to seven bytes at the end; the first sum has them in its
  last block. Together the two decide equality.
\<close>

lemma xor_left_cancel: "(x :: 'a :: len word) XOR a = x XOR b \<longleftrightarrow> a = b"
proof
  assume "x XOR a = x XOR b"
  then have "x XOR (x XOR a) = x XOR (x XOR b)" by simp
  then show "a = b" by (simp flip: xor.assoc)
qed simp

lemma last_block:
  assumes "length s = length t" and "length s < 8" and "blocks (padded s) = blocks (padded t)"
  shows "s = t"
proof (cases "s = []")
  case True
  with assms(1) show ?thesis by simp
next
  case False
  have p: "padded x = x @ replicate (8 - length x) 0" if "length x = length s" for x :: "byte list"
    using that assms(2) False by (simp add: padded_def and_7)
  have l: "length (padded s) = 8" "length (padded t) = 8" using p[of s] p[of t] assms(1,2) by simp_all
  have "blocks m = [block m 0]" if "length m = 8" for m using that by (simp add: blocks_def)
  from this[OF l(1)] this[OF l(2)] have "block (padded s) 0 = block (padded t) 0" using assms(3) by simp
  from block_inj[OF _ _ this] l have e: "padded s = padded t" by simp
  have "take (length s) (padded x) = x" if "length x = length s" for x :: "byte list"
    using that by (simp add: p[OF that])
  from this[of s] this[of t] e assms(1) show ?thesis by simp
qed

lemma short_fold:
  assumes "fold (\<lambda>q x. x XOR q) as (0 :: QWORD) = fold (\<lambda>q x. x XOR q) bs 0"
    and "length as \<le> 1" and "length as = length bs"
  shows "as = bs"
proof (cases as)
  case (Cons a r)
  with assms(2,3) obtain b where "as = [a]" "bs = [b]" by (cases bs) auto
  with assms(1) show ?thesis by simp
qed (use assms(3) in simp)

lemma equal_content:
  assumes "length d = length e" and "compared d = compared e"
    and "fst (sums_of_content d) = fst (sums_of_content e)"
  shows "d = e"
proof -
  let ?n = "8 * (length d div 8)"
  have n: "?n \<le> length d" by simp
  have c: "compared d = take ?n d" "compared e = take ?n e" using assms(1) by (simp_all add: compared_def)
  have parts: "blocks (padded x) = blocks (take ?n x) @ blocks (padded (drop ?n x))" if "length x = length d" for x :: "byte list"
  proof -
    have "8 dvd length (take ?n x)" using that n by simp
    from padded_append[OF this, of "drop ?n x"] blocks_append[OF this, of "padded (drop ?n x)"]
    show ?thesis by simp
  qed
  let ?f = "\<lambda>bs x. fold (\<lambda>q x. x XOR q) bs (x :: QWORD)"
  have xor: "?f bs x = x XOR ?f bs 0" for bs x
  proof (induction bs arbitrary: x)
    case (Cons b bs)
    from Cons[of "x XOR b"] Cons[of b] show ?case by (simp add: xor.assoc)
  qed simp
  have sum: "?f (blocks (padded x)) 0 = ?f (blocks (take ?n x)) 0 XOR ?f (blocks (padded (drop ?n x))) 0"
    if "length x = length d" for x
    unfolding parts[OF that] fold_append o_apply by (rule xor)
  have "take ?n d = take ?n e" using assms(2) c by simp
  with sum[OF refl] sum[OF assms(1)[symmetric]] assms(3)
  have f: "?f (blocks (padded (drop ?n d))) 0 = ?f (blocks (padded (drop ?n e))) 0"
    unfolding sums_of_content_def sums_from_fst fst_conv by (metis xor_left_cancel)
  have rest: "length (drop ?n d) < 8" "length (drop ?n d) = length (drop ?n e)"
    using assms(1) by (simp_all add: minus_mult_div_eq_mod)
  have one: "length (blocks (padded x)) \<le> 1" if "length x < 8" for x
    using that by (cases "x = []") (simp_all add: blocks_def padded_def and_7)
  have "length (blocks (padded (drop ?n d))) = length (blocks (padded (drop ?n e)))"
    using rest(2) by (simp add: blocks_def padded_def)
  from short_fold[OF f one[OF rest(1)] this] have "drop ?n d = drop ?n e"
    using rest by (intro last_block)
  with assms(2) c show ?thesis by (metis append_take_drop_id)
qed

section \<open>Records of files\<close>

definition facts_ok :: "(string \<Rightarrow> byte list option) \<Rightarrow> (string \<Rightarrow> file_facts) \<Rightarrow> bool" where
  "facts_ok C J \<longleftrightarrow>
    (\<forall>p d. C p = Some d \<longrightarrow> quad (fnFileSizeHigh (J p)) (fnFileSizeLow (J p)) = of_nat (length d) \<and> length d < 2 ^ 64)"

definition record_ok :: "(string \<Rightarrow> byte list option) \<Rightarrow> (string \<Rightarrow> file_facts) \<Rightarrow> nat \<Rightarrow> FILE_RECORD \<Rightarrow> bool" where
  "record_ok C J n fr \<longleftrightarrow>
    (\<exists>d. C (szFilePath fr) = Some d \<and> FileSize fr = of_nat (length d) \<and> length d < 2 ^ 64 \<and>
      (bChecksumCalculated fr \<longrightarrow> (Checksum0 fr, Checksum1 fr) = sums_of_content (drop n d))) \<and>
    dwVolumeSerial fr = fdwVolumeSerialNumber (J (szFilePath fr))"

text \<open>What the program takes for a duplicate: on the same volume, of the same length, with the
  same bytes behind the part that is skipped.\<close>

definition same_file :: "(string \<Rightarrow> byte list option) \<Rightarrow> (string \<Rightarrow> file_facts) \<Rightarrow> nat \<Rightarrow> string \<Rightarrow> string \<Rightarrow> bool" where
  "same_file C J n p q \<longleftrightarrow>
    fdwVolumeSerialNumber (J q) = fdwVolumeSerialNumber (J p) \<and>
    (\<exists>d e. C q = Some d \<and> C p = Some e \<and> length d = length e \<and> drop n d = drop n e)"

lemma of_nat_eq_64: "a < 2 ^ 64 \<Longrightarrow> b < 2 ^ 64 \<Longrightarrow> (of_nat a :: QWORD) = of_nat b \<longleftrightarrow> a = b"
  by (simp add: word_of_nat_eq_iff take_bit_nat_eq_self)

lemma sums_of_code: "sums_of (sums_code c) = c"
proof -
  have b: "0 \<le> uint (fst c)" "uint (fst c) < 2 ^ 64" using uint_lt2p[of "fst c"] by simp_all
  then have "sums_code c div 2 ^ 64 = uint (snd c)" by (simp add: sums_code_def)
  moreover have "(word_of_int (sums_code c) :: QWORD) = fst c"
  proof -
    have "take_bit 64 (sums_code c) = uint (fst c)" using b by (simp add: sums_code_def take_bit_eq_mod)
    then show ?thesis by (simp add: word_uint_eq_iff unsigned_of_int)
  qed
  ultimately show ?thesis by (simp add: sums_of_def)
qed

lemma sums_code_nonneg: "sums_code c \<noteq> - 1"
proof -
  have "0 \<le> sums_code c" by (simp add: sums_code_def)
  then show ?thesis by linarith
qed

lemma wp_check_sum [wp_rules]:
  assumes "handles w h = Some (f, d)" and "length d < fuel"
    and "wpx (fdf_world C J) Q E (w\<lparr>handles := (handles w)(h \<mapsto> (f, []))\<rparr>) (k (Some (sums_of_content d)))"
  shows "wpx (fdf_world C J) Q E w (check_sum fuel h k)"
  unfolding check_sum_def GetFileCheckSum_def
  by (rule wp_chk, rule wp_checksum_loop[OF assms(1,2)])
    (use assms(3) in \<open>simp add: sums_of_code sums_code_nonneg flip: sums_of_content_def\<close>)

lemma wp_skip_start [wp_rules]:
  assumes "handles w h = Some (f, d)"
    and "wpx (fdf_world C J) Q E (w\<lparr>handles := (handles w)(h \<mapsto> (f, drop n d))\<rparr>) good"
  shows "wpx (fdf_world C J) Q E w (skip_start n h good bad)"
proof (cases "n = 0")
  case True
  with assms(1) have "(handles w)(h \<mapsto> (f, drop n d)) = handles w" by auto
  with assms(2) True show ?thesis by (simp add: skip_start_def)
next
  case False
  with assms show ?thesis by (auto simp: skip_start_def fdf_world_def file_world_simps)
qed

lemma fdf_world_simps:
  "fdf_world C J w (Chk c) r w' \<longleftrightarrow> file_world C w c (reply.truncate r) w'"
  "handles w h = Some (f, d) \<Longrightarrow>
    fdf_world C J w (GetFileInformationByHandle h) r w' \<longleftrightarrow> rv r \<noteq> 0 \<and> facts r = J f \<and> w' = w"
  "fdf_world C J w (DeleteFile p) r w' \<longleftrightarrow> w' = (if rv r = 0 then w else w\<lparr>removed := p # removed w\<rparr>)"
  "fdf_world C J w NewRecord r w' \<longleftrightarrow> rv r \<noteq> 0 \<and> w' = w"
  "fdf_world C J w NewElement r w' \<longleftrightarrow> rv r \<noteq> 0 \<and> w' = w"
  "fdf_world C J w (Strdup p) r w' \<longleftrightarrow> rv r \<noteq> 0 \<and> w' = w"
  by (simp_all add: fdf_world_def)

definition calculated :: "QWORD \<times> QWORD \<Rightarrow> FILE_RECORD \<Rightarrow> FILE_RECORD" where
  "calculated c fr = fr\<lparr>Checksum0 := fst c, Checksum1 := snd c, bChecksumCalculated := True\<rparr>"

lemma record_ok_calculated:
  "record_ok C J n fr \<Longrightarrow> C (szFilePath fr) = Some d \<Longrightarrow> record_ok C J n (calculated (sums_of_content (drop n d)) fr)"
  by (simp add: record_ok_def calculated_def)

lemma wp_CalculateChecksum [wp_rules]:
  assumes "content C w (szFilePath fr) = Some d" and "length d < fuel"
    and "wpx (fdf_world C J) Q E w (k (calculated (sums_of_content (drop n d)) fr) True)"
  shows "wpx (fdf_world C J) Q E w (CalculateChecksum fuel fr n k)"
proof -
  let ?p = "szFilePath fr" and ?c = "sums_of_content (drop n d)"
  have "wpx (fdf_world C J) Q E (w\<lparr>handles := (handles w)(h \<mapsto> (?p, d))\<rparr>)
      (skip_start n h
        (check_sum fuel h (\<lambda>c.
          close_file h
            (case c of
               None \<Rightarrow> k (fr\<lparr>bChecksumCalculated := False\<rparr>) False
             | Some (c0, c1) \<Rightarrow> k (fr\<lparr>Checksum0 := c0, Checksum1 := c1, bChecksumCalculated := True\<rparr>) True)))
        (k fr False))" if h: "handles w h = None" for h
  proof (rule wp_skip_start, simp, rule wp_check_sum)
    have "(handles w)(h := None) = handles w" using h by auto
    moreover have "(case ?c of (c0, c1) \<Rightarrow> fr\<lparr>Checksum0 := c0, Checksum1 := c1, bChecksumCalculated := True\<rparr>) = calculated ?c fr"
      by (simp add: calculated_def case_prod_unfold)
    ultimately show "wpx (fdf_world C J) Q E
        (w\<lparr>handles := (handles w)(h \<mapsto> (?p, d)), handles := (handles (w\<lparr>handles := (handles w)(h \<mapsto> (?p, d))\<rparr>))(h \<mapsto> (?p, drop n d))\<rparr>
         \<lparr>handles := (handles (w\<lparr>handles := (handles w)(h \<mapsto> (?p, d)),
            handles := (handles (w\<lparr>handles := (handles w)(h \<mapsto> (?p, d))\<rparr>))(h \<mapsto> (?p, drop n d))\<rparr>))(h \<mapsto> (?p, []))\<rparr>)
        (close_file h
          (case Some ?c of
             None \<Rightarrow> k (fr\<lparr>bChecksumCalculated := False\<rparr>) False
           | Some (c0, c1) \<Rightarrow> k (fr\<lparr>Checksum0 := c0, Checksum1 := c1, bChecksumCalculated := True\<rparr>) True))"
      using assms(3) by (simp add: fdf_world_simps file_world_simps case_prod_unfold calculated_def)
  qed (use assms(2) in simp_all)
  then show ?thesis
    using assms(1) by (auto simp: CalculateChecksum_def fdf_world_simps file_world_simps)
qed

section \<open>Looking up\<close>

text \<open>What a search leaves of a record as it is.\<close>

definition core :: "FILE_RECORD \<Rightarrow> QWORD \<times> QWORD \<times> DWORD \<times> string" where
  "core fr = (FileSize fr, FileIndex fr, dwVolumeSerial fr, szFilePath fr)"

lemma core_calculated [simp]: "core (calculated c fr) = core fr"
  by (simp add: core_def calculated_def)

lemma core_eqD:
  assumes "core a = core b"
  shows "szFilePath a = szFilePath b" "FileSize a = FileSize b" "dwVolumeSerial a = dwVolumeSerial b"
  using assms by (simp_all add: core_def)

definition candidate_of :: "(string \<Rightarrow> file_facts) \<Rightarrow> nat \<Rightarrow> string \<Rightarrow> byte list \<Rightarrow> int \<Rightarrow> candidate" where
  "candidate_of J n p e h =
    \<lparr>path = p, skip = n, hfile = h, size_of = of_nat (length e), serial = fdwVolumeSerialNumber (J p)\<rparr>"

lemma candidate_of_simps [simp]:
  "path (candidate_of J n p e h) = p" "skip (candidate_of J n p e h) = n" "hfile (candidate_of J n p e h) = h"
  "size_of (candidate_of J n p e h) = of_nat (length e)" "serial (candidate_of J n p e h) = fdwVolumeSerialNumber (J p)"
  by (simp_all add: candidate_of_def)

definition readable :: "(string \<Rightarrow> byte list option) \<Rightarrow> nat \<Rightarrow> bool" where
  "readable C fuel \<longleftrightarrow> (\<forall>q d. C q = Some d \<longrightarrow> length d < fuel \<and> length d < 2 ^ 64)"

text \<open>A record of the same length on the same volume, with the content it stands for.\<close>

lemma alike:
  assumes "record_ok C J n fr" and "C p = Some e" and "readable C fuel"
    and "FileSize fr = of_nat (length e)" and "dwVolumeSerial fr = fdwVolumeSerialNumber (J p)"
  obtains d where "C (szFilePath fr) = Some d" "length d = length e" "length d < fuel"
    and "same_file C J n p (szFilePath fr) \<longleftrightarrow> drop n d = drop n e"
proof -
  from assms(1) obtain d where d: "C (szFilePath fr) = Some d" "FileSize fr = of_nat (length d)" "length d < 2 ^ 64"
    by (auto simp: record_ok_def)
  have "length e < 2 ^ 64" using assms(2,3) by (simp add: readable_def)
  with d assms(4) have l: "length d = length e" by (simp add: of_nat_eq_64)
  show ?thesis
    by (rule that[OF d(1) l]) (use assms d l in \<open>auto simp: readable_def record_ok_def same_file_def\<close>)
qed

lemma not_alike:
  "record_ok C J n fr \<Longrightarrow> C p = Some e \<Longrightarrow> \<not> (FileSize fr = of_nat (length e) \<and> dwVolumeSerial fr = fdwVolumeSerialNumber (J p)) \<Longrightarrow>
    \<not> same_file C J n p (szFilePath fr)"
  by (auto simp: record_ok_def same_file_def)

text \<open>The three steps of the loop, for any programs that follow.\<close>

lemma wp_compare_record:
  assumes ok: "record_ok (content C w) J n fr" "content C w p = Some e" "readable (content C w) fuel" "FileSize fr = of_nat (length e)"
      "dwVolumeSerial fr = fdwVolumeSerialNumber (J p)" "bChecksumCalculated fr"
    and c: "c = sums_of_content (drop n e)"
    and same: "same_file (content C w) J n p (szFilePath fr) \<Longrightarrow> wpx (fdf_world C J) Q E w A"
    and other: "\<not> same_file (content C w) J n p (szFilePath fr) \<Longrightarrow> wpx (fdf_world C J) Q E w D"
  shows "wpx (fdf_world C J) Q E w
    (if Checksum0 fr = fst c \<and> Checksum1 fr = snd c then
       chk (CompareFiles fuel (szFilePath fr) p n) (\<lambda>st.
         if st = status_code FILE_COMPARE_EQUAL then A
         else if st = status_code FILE_COMPARE_FILE1_FAILED then B else D)
     else D)"
proof -
  obtain d where d: "content C w (szFilePath fr) = Some d" "length d = length e" "length d < fuel"
    "same_file (content C w) J n p (szFilePath fr) \<longleftrightarrow> drop n d = drop n e" using alike[OF ok(1-5)] .
  from ok(1,6) d(1) have s: "(Checksum0 fr, Checksum1 fr) = sums_of_content (drop n d)" by (auto simp: record_ok_def)
  show ?thesis
  proof (cases "(Checksum0 fr, Checksum1 fr) = c")
    case True
    with s c have f: "fst (sums_of_content (drop n d)) = fst (sums_of_content (drop n e))" by simp
    have l: "length (drop n d) = length (drop n e)" using d(2) by simp
    have "compared (drop n d) = compared (drop n e) \<longleftrightarrow> drop n d = drop n e"
      using equal_content[OF l _ f] by auto
    then have eq: "same_file (content C w) J n p (szFilePath fr) \<longleftrightarrow> compared (drop n d) = compared (drop n e)" using d(4) by simp
    have "wpx (fdf_world C J) Q E w (chk (CompareFiles fuel (szFilePath fr) p n) (\<lambda>st.
         if st = status_code FILE_COMPARE_EQUAL then A
         else if st = status_code FILE_COMPARE_FILE1_FAILED then B else D))"
      by (rule wp_chk, rule wp_CompareFiles[OF d(1) ok(2) d(2,3)])
        (use same other eq in \<open>simp add: same_blocks_def\<close>)
    with True show ?thesis by auto
  next
    case False
    with s d(4) c have "\<not> same_file (content C w) J n p (szFilePath fr)" by auto
    with other False show ?thesis by auto
  qed
qed

lemma wp_with_sums:
  assumes ok: "record_ok (content C w) J n fr" "readable (content C w) fuel"
    and go: "\<And>fr'. record_ok (content C w) J n fr' \<Longrightarrow> core fr' = core fr \<Longrightarrow> bChecksumCalculated fr' \<Longrightarrow> wpx (fdf_world C J) Q E w (G fr')"
  shows "wpx (fdf_world C J) Q E w
    (if bChecksumCalculated fr then G fr
     else CalculateChecksum fuel fr n (\<lambda>fr' good. if good then G fr' else B fr'))"
proof (cases "bChecksumCalculated fr")
  case True
  with go[OF ok(1)] show ?thesis by simp
next
  case False
  from ok(1) obtain d where d: "content C w (szFilePath fr) = Some d" by (auto simp: record_ok_def)
  with ok(2) have f: "length d < fuel" by (simp add: readable_def)
  have "wpx (fdf_world C J) Q E w (G (calculated (sums_of_content (drop n d)) fr))"
    by (rule go[OF record_ok_calculated[OF ok(1) d]]) (simp_all add: calculated_def core_def)
  with False wp_CalculateChecksum[where k = "\<lambda>fr' good. if good then G fr' else B fr'", OF d f]
  show ?thesis by simp
qed

text \<open>The sums of the candidate are those of its content once they are known, and then it is read to its end.\<close>

definition sums_known :: "nat \<Rightarrow> string \<Rightarrow> byte list \<Rightarrow> int \<Rightarrow> disk \<Rightarrow> (QWORD \<times> QWORD) option \<Rightarrow> bool" where
  "sums_known n p e h w sums \<longleftrightarrow>
    (case sums of
       None \<Rightarrow> handles w h = Some (p, drop n e)
     | Some c \<Rightarrow> c = sums_of_content (drop n e) \<and> handles w h = Some (p, []))"

lemma wp_known_sums:
  assumes "sums_known n p e h w sums" and "length e < fuel"
    and "wpx (fdf_world C J) Q E (w\<lparr>handles := (handles w)(h \<mapsto> (p, []))\<rparr>) (G (sums_of_content (drop n e)))"
  shows "wpx (fdf_world C J) Q E w
    (case sums of
       Some c \<Rightarrow> G c
     | None \<Rightarrow> check_sum fuel h (\<lambda>c. case c of None \<Rightarrow> B | Some c \<Rightarrow> G c))"
proof (cases sums)
  case None
  with assms show ?thesis by (auto simp: sums_known_def intro: wp_check_sum)
next
  case (Some c)
  with assms(1) have "handles w h = Some (p, [])" "c = sums_of_content (drop n e)" by (simp_all add: sums_known_def)
  moreover from this(1) have "(handles w)(h \<mapsto> (p, [])) = handles w" by (simp add: fun_upd_idem)
  ultimately show ?thesis using Some assms(3) by simp
qed

lemma wp_search_chain:
  fixes w :: disk
  assumes env: "content C w p = Some e" "readable (content C w) fuel"
    and chain: "\<forall>fr \<in> set (seen @ chain). record_ok (content C w) J n fr" "\<forall>fr \<in> set seen. \<not> same_file (content C w) J n p (szFilePath fr)"
    and sums: "sums_known n p e h w sums"
    and found: "\<And>chain' fr. map core chain' = map core (seen @ chain) \<Longrightarrow> \<forall>fr \<in> set chain'. record_ok (content C w) J n fr \<Longrightarrow>
      fr \<in> set chain' \<Longrightarrow> same_file (content C w) J n p (szFilePath fr) \<Longrightarrow>
      wpx (fdf_world C J) Q E (w\<lparr>handles := (handles w)(h := None)\<rparr>) (k (table[b := chain']) (Some fr))"
    and missed: "\<And>chain' sums' v. map core chain' = map core (seen @ chain) \<Longrightarrow> \<forall>fr \<in> set chain'. record_ok (content C w) J n fr \<Longrightarrow>
      \<forall>fr \<in> set chain'. \<not> same_file (content C w) J n p (szFilePath fr) \<Longrightarrow>
      sums_known n p e h (w\<lparr>handles := (handles w)(h := v)\<rparr>) sums' \<Longrightarrow>
      wpx (fdf_world C J) Q E (w\<lparr>handles := (handles w)(h := v)\<rparr>) (none (table[b := chain']) sums')"
  shows "wpx (fdf_world C J) Q E w (search_chain fuel (candidate_of J n p e h) table b seen chain sums k none)"
  using chain sums found missed env
proof (induction chain arbitrary: seen sums w)
  case Nil
  have "w\<lparr>handles := (handles w)(h := handles w h)\<rparr> = w" by simp
  with Nil.prems(5)[of seen "handles w h" sums] Nil.prems(1-3) show ?case by simp
next
  case (Cons fr chain)
  note found = Cons.prems(4) and missed = Cons.prems(5) and env = Cons.prems(6,7)
  have ok: "record_ok (content C w) J n fr" using Cons.prems(1) by simp
  have e: "length e < fuel" using env by (simp add: readable_def)
  have step: "wpx (fdf_world C J) Q E (w\<lparr>handles := (handles w)(h := v)\<rparr>)
      (search_chain fuel (candidate_of J n p e h) table b (seen @ [fr']) chain sums' k none)"
    if "sums_known n p e h (w\<lparr>handles := (handles w)(h := v)\<rparr>) sums'" "record_ok (content C w) J n fr'" "core fr' = core fr"
      "\<not> same_file (content C w) J n p (szFilePath fr')" for v sums' fr'
    by (rule Cons.IH)
      (use that Cons.prems(1,2) found missed env in \<open>simp_all del: fun_upd_apply\<close>)
  show ?case
  proof (cases "FileSize fr = of_nat (length e) \<and> dwVolumeSerial fr = fdwVolumeSerialNumber (J p)")
    case False
    with step[of "handles w h" sums fr] Cons.prems(3) ok not_alike[where C = "content C w", OF ok env(1)] show ?thesis by auto
  next
    case True
    let ?w = "w\<lparr>handles := (handles w)(h \<mapsto> (p, []))\<rparr>"
    let ?c = "sums_of_content (drop n e)"
    have known: "sums_known n p e h ?w (Some ?c)" by (simp add: sums_known_def)
    have "wpx (fdf_world C J) Q E ?w
      (if Checksum0 fr' = fst ?c \<and> Checksum1 fr' = snd ?c then
         chk (CompareFiles fuel (szFilePath fr') p n) (\<lambda>st.
           if st = status_code FILE_COMPARE_EQUAL then close_file h (k (table[b := seen @ fr' # chain]) (Some fr'))
           else if st = status_code FILE_COMPARE_FILE1_FAILED then
             delete_and_continue (table[b := seen @ fr' # chain]) b (length seen)
           else search_chain fuel (candidate_of J n p e h) table b (seen @ [fr']) chain (Some ?c) k none)
       else search_chain fuel (candidate_of J n p e h) table b (seen @ [fr']) chain (Some ?c) k none)"
      if r: "record_ok (content C w) J n fr'" "core fr' = core fr" "bChecksumCalculated fr'" for fr'
    proof (rule wp_compare_record[where w = ?w])
      show "record_ok (content C ?w) J n fr'" "content C ?w p = Some e" "readable (content C ?w) fuel"
        using r(1) env by simp_all
      show "FileSize fr' = of_nat (length e)" "dwVolumeSerial fr' = fdwVolumeSerialNumber (J p)"
        using True core_eqD[OF r(2)] by simp_all
      show "wpx (fdf_world C J) Q E ?w (close_file h (k (table[b := seen @ fr' # chain]) (Some fr')))"
        if "same_file (content C ?w) J n p (szFilePath fr')"
      proof -
        have "wpx (fdf_world C J) Q E (w\<lparr>handles := (handles w)(h := None)\<rparr>) (k (table[b := seen @ fr' # chain]) (Some fr'))"
          by (rule found) (use that r Cons.prems(1) in \<open>simp_all\<close>)
        then show ?thesis by (simp add: fdf_world_simps file_world_simps)
      qed
      show "wpx (fdf_world C J) Q E ?w
          (search_chain fuel (candidate_of J n p e h) table b (seen @ [fr']) chain (Some ?c) k none)"
        if "\<not> same_file (content C ?w) J n p (szFilePath fr')"
        by (rule step[OF known r(1,2)]) (use that in simp)
    qed (use r(3) in simp_all)
    note go = this
    show ?thesis
      unfolding search_chain.simps candidate_of_simps Let_def if_P[OF True]
      by (rule wp_known_sums[OF Cons.prems(3) e], rule wp_with_sums[where w = ?w])
        (use ok env go in \<open>simp_all only: content_handles\<close>)
  qed
qed

end
