(* ===== verification/FdfLookup.thy ===== *)
theory FdfLookup
  imports FdfTable
begin

text \<open>
  The table of \<open>fdf\<close> as a set of paths: the lookup of a file finds a path with an equal
  content if the table has one, and adds the file otherwise.
\<close>

section \<open>The table as a set of paths\<close>

definition paths :: "record_table \<Rightarrow> string set" where
  "paths table = (\<Union>b < length table. szFilePath ` set (table ! b))"

text \<open>
  Every record is in the chain that its size selects and tells the truth about its file,
  and the table has one path for each content.
\<close>

definition records_ok :: "(string \<Rightarrow> byte list option) \<Rightarrow> (string \<Rightarrow> file_facts) \<Rightarrow> nat \<Rightarrow> record_table \<Rightarrow> bool" where
  "records_ok C J n table \<longleftrightarrow>
    length table = FILE_RECORD_TABLE_SIZE \<and>
    (\<forall>b < FILE_RECORD_TABLE_SIZE. \<forall>fr \<in> set (table ! b). record_ok C J n fr \<and> record_bucket fr = b) \<and>
    (\<forall>p \<in> paths table. \<forall>q \<in> paths table. same_file C J n p q \<longrightarrow> p = q)"

lemma records_ok_empty: "records_ok C J n empty_table" and paths_empty [simp]: "paths empty_table = {}"
  by (auto simp: records_ok_def paths_def empty_table_def)

lemma same_file_sym: "same_file C J n p q \<Longrightarrow> same_file C J n q p"
  by (auto simp: same_file_def)

lemma ucast_quad [simp]: "ucast (quad high low) = low"
proof (rule bit_word_eqI)
  fix i
  assume "i < LENGTH(32)"
  then show "bit (ucast (quad high low) :: DWORD) i \<longleftrightarrow> bit low i"
    by (simp add: quad_def bit_simps)
qed

lemma bucket_less: "bucket low < FILE_RECORD_TABLE_SIZE"
proof -
  have "drop_bit 10 low AND 255 \<le> 255" by (rule word_and_le1)
  then have "unat (drop_bit 10 low AND 255) \<le> unat (255 :: DWORD)" by (simp only: word_le_nat_alt)
  then show ?thesis by (simp add: bucket_def FILE_RECORD_TABLE_SIZE_def)
qed

lemma bucket_of_file:
  "facts_ok C J \<Longrightarrow> C p = Some e \<Longrightarrow> bucket (ucast (of_nat (length e) :: QWORD)) = bucket (fnFileSizeLow (J p))"
  unfolding facts_ok_def by (metis ucast_quad)

lemma same_file_bucket:
  assumes "facts_ok C J" and "record_ok C J n fr" and "same_file C J n p (szFilePath fr)"
  shows "record_bucket fr = bucket (fnFileSizeLow (J p))"
proof -
  from assms(3) obtain d e where d: "C (szFilePath fr) = Some d" "C p = Some e" "length d = length e"
    by (auto simp: same_file_def)
  with assms(2) have "FileSize fr = of_nat (length e)" by (auto simp: record_ok_def)
  with bucket_of_file[OF assms(1) d(2)] show ?thesis by (simp add: record_bucket_def)
qed

lemma paths_update:
  "b < length table \<Longrightarrow> paths (table[b := c]) = (\<Union>i \<in> {..<length table} - {b}. szFilePath ` set (table ! i)) \<union> szFilePath ` set c"
  unfolding paths_def by (auto simp: nth_list_update split: if_splits)

lemma paths_split:
  "b < length table \<Longrightarrow> paths table = (\<Union>i \<in> {..<length table} - {b}. szFilePath ` set (table ! i)) \<union> szFilePath ` set (table ! b)"
  using paths_update[of b table "table ! b"] by simp

lemma same_cores:
  assumes "map core c = map core c'"
  shows "szFilePath ` set c = szFilePath ` set c'" and "record_bucket ` set c = record_bucket ` set c'"
proof -
  have "map (\<lambda>x. snd (snd (snd x))) (map core c) = map (\<lambda>x. snd (snd (snd x))) (map core c')"
    "map fst (map core c) = map fst (map core c')" using assms by simp_all
  then have m: "map szFilePath c = map szFilePath c'" "map FileSize c = map FileSize c'" by (simp_all add: core_def o_def)
  show "szFilePath ` set c = szFilePath ` set c'" using arg_cong[OF m(1), of set] by simp
  have "map record_bucket x = map (\<lambda>n. bucket (ucast n)) (map FileSize x)" for x
    by (simp add: record_bucket_def o_def)
  then have "map record_bucket c = map record_bucket c'" by (simp only: m(2))
  from arg_cong[OF this, of set] show "record_bucket ` set c = record_bucket ` set c'" by simp
qed

lemma records_ok_refresh:
  assumes "records_ok C J n table" and "b < FILE_RECORD_TABLE_SIZE"
    and "map core c = map core (table ! b)" and "\<forall>fr \<in> set c. record_ok C J n fr"
  shows "records_ok C J n (table[b := c])" and "paths (table[b := c]) = paths table"
proof -
  have b: "b < length table" using assms(1,2) by (simp add: records_ok_def)
  show p: "paths (table[b := c]) = paths table"
    using same_cores(1)[OF assms(3)] by (simp add: paths_update[OF b] paths_split[OF b])
  have "record_bucket fr = b" if "fr \<in> set c" for fr
  proof -
    have "record_bucket fr \<in> record_bucket ` set (table ! b)" using that same_cores(2)[OF assms(3)] by auto
    with assms(1,2) show ?thesis by (auto simp: records_ok_def)
  qed
  with assms p show "records_ok C J n (table[b := c])"
    by (auto simp: records_ok_def nth_list_update)
qed

lemma records_ok_add:
  assumes "records_ok C J n table" and "record_ok C J n fr"
    and "\<forall>q \<in> paths table. \<not> same_file C J n (szFilePath fr) q" and b: "b = record_bucket fr"
  shows "records_ok C J n (table[b := fr # table ! b])"
    and "paths (table[b := fr # table ! b]) = insert (szFilePath fr) (paths table)"
proof -
  have l: "b < FILE_RECORD_TABLE_SIZE" using b by (simp add: record_bucket_def bucket_less)
  then have b': "b < length table" using assms(1) by (simp add: records_ok_def)
  show p: "paths (table[b := fr # table ! b]) = insert (szFilePath fr) (paths table)"
    by (auto simp: paths_update[OF b'] paths_split[OF b'])
  have "p = q" if "p \<in> insert (szFilePath fr) (paths table)" "q \<in> insert (szFilePath fr) (paths table)" "same_file C J n p q" for p q
    using that assms(1,3) same_file_sym[of C J n p q] by (auto simp: records_ok_def)
  with assms l p show "records_ok C J n (table[b := fr # table ! b])"
    by (auto simp: records_ok_def nth_list_update)
qed

section \<open>Looking up a file\<close>

text \<open>What a lookup promises of the set of paths.\<close>

definition looked_up :: "(string \<Rightarrow> string \<Rightarrow> bool) \<Rightarrow> string set \<Rightarrow> string \<Rightarrow> string set \<Rightarrow> string option \<Rightarrow> bool" where
  "looked_up eq P p P' r \<longleftrightarrow>
    (case r of
       Some q \<Rightarrow> q \<in> P \<and> eq p q \<and> P' = P
     | None \<Rightarrow> (\<forall>q \<in> P. \<not> eq p q) \<and> P' = insert p P)"

lemma wp_add_record:
  "wpx (fdf_world C J) Q E w (k (table[record_bucket fr := fr # table ! record_bucket fr]) None) \<Longrightarrow>
    wpx (fdf_world C J) Q E w (add_record table fr k)"
  by (simp add: add_record_def fdf_world_simps Let_def)

lemma not_in_bucket:
  assumes "facts_ok C J" and "records_ok C J n table"
    and "\<forall>fr \<in> set (table ! bucket (fnFileSizeLow (J p))). \<not> same_file C J n p (szFilePath fr)"
  shows "\<forall>q \<in> paths table. \<not> same_file C J n p q"
proof
  fix q assume "q \<in> paths table"
  then obtain fr where fr: "q = szFilePath fr" "record_ok C J n fr" "fr \<in> set (table ! record_bucket fr)"
    using assms(2) by (auto simp: paths_def records_ok_def)
  show "\<not> same_file C J n p q"
    using assms(3) fr same_file_bucket[OF assms(1) fr(2)] by auto
qed

text \<open>What the search of a chain leaves, when it finds the file and when it does not.\<close>

lemma found_in_chain:
  assumes "records_ok C J n table" and "b < FILE_RECORD_TABLE_SIZE"
    and c: "map core c = map core (table ! b)" "\<forall>fr \<in> set c. record_ok C J n fr"
    and "fr \<in> set c" and "same_file C J n p (szFilePath fr)"
  shows "records_ok C J n (table[b := c])"
    and "looked_up (same_file C J n) (paths table) p (paths (table[b := c])) (Some (szFilePath fr))"
proof -
  note t = records_ok_refresh[OF assms(1,2) c]
  show "records_ok C J n (table[b := c])" by (rule t)
  have "szFilePath fr \<in> szFilePath ` set (table ! b)" using assms(5) same_cores(1)[OF c(1)] by auto
  then have "szFilePath fr \<in> paths table" using assms(1,2) by (auto simp: paths_def records_ok_def)
  with assms(6) t(2) show "looked_up (same_file C J n) (paths table) p (paths (table[b := c])) (Some (szFilePath fr))"
    by (simp add: looked_up_def)
qed

lemma missed_in_chain:
  assumes env: "facts_ok C J" and table: "records_ok C J n table" and b: "b = bucket (fnFileSizeLow (J p))"
    and c: "map core c = map core (table ! b)" "\<forall>fr \<in> set c. record_ok C J n fr"
    and other: "\<forall>fr \<in> set c. \<not> same_file C J n p (szFilePath fr)"
    and fr: "record_ok C J n fr" "record_bucket fr = b" "szFilePath fr = p"
  defines "t' \<equiv> table[b := c, b := fr # table[b := c] ! b]"
  shows "records_ok C J n t'" and "looked_up (same_file C J n) (paths table) p (paths t') None"
proof -
  have l: "b < FILE_RECORD_TABLE_SIZE" using b by (simp add: bucket_less)
  note t = records_ok_refresh[OF table l c]
  have "\<forall>r \<in> set (table ! b). \<not> same_file C J n p (szFilePath r)"
  proof
    fix r assume "r \<in> set (table ! b)"
    then have "szFilePath r \<in> szFilePath ` set c" using same_cores(1)[OF c(1)] by simp
    with other show "\<not> same_file C J n p (szFilePath r)" by auto
  qed
  then have no: "\<forall>q \<in> paths table. \<not> same_file C J n p q" unfolding b by (rule not_in_bucket[OF env table])
  then have "\<forall>q \<in> paths (table[b := c]). \<not> same_file C J n (szFilePath fr) q" by (simp add: t(2) fr(3))
  note a = records_ok_add[OF t(1) fr(1) this fr(2)[symmetric], folded t'_def]
  show "records_ok C J n t'" by (rule a)
  show "looked_up (same_file C J n) (paths table) p (paths t') None"
    using no a(2) t(2) fr(3) by (simp add: looked_up_def)
qed

lemma record_of_ok:
  assumes "C p = Some e" and "facts_ok C J" and "length e < 2 ^ 64" and "\<forall>c. sums = Some c \<longrightarrow> c = sums_of_content (drop n e)"
  shows "record_ok C J n (record_of p (J p) sums)" and "record_bucket (record_of p (J p) sums) = bucket (fnFileSizeLow (J p))"
    and "szFilePath (record_of p (J p) sums) = p"
proof -
  have size: "FileSize (record_of p (J p) sums) = of_nat (length e)"
    using assms(1,2) by (simp add: record_of_def facts_ok_def case_prod_unfold Let_def)
  then show "record_bucket (record_of p (J p) sums) = bucket (fnFileSizeLow (J p))"
    using bucket_of_file[OF assms(2,1)] by (simp add: record_bucket_def)
  show "szFilePath (record_of p (J p) sums) = p" by (simp add: record_of_def case_prod_unfold Let_def)
  with size assms(1,3,4) show "record_ok C J n (record_of p (J p) sums)"
    by (auto simp: record_ok_def record_of_def case_prod_unfold Let_def split: option.split)
qed

lemma wp_find_opened:
  fixes w :: disk and table :: record_table and C :: "string \<Rightarrow> byte list option"
  assumes C': "C' = content C w"
    and env: "C' p = Some e" "readable C' fuel" "facts_ok C' J" and table: "records_ok C' J n table"
    and h: "handles w h = None"
    and go: "\<And>table' r. records_ok C' J n table' \<Longrightarrow>
      looked_up (same_file C' J n) (paths table) p (paths table') (map_option szFilePath r) \<Longrightarrow>
      wpx (fdf_world C J) Q E w (k table' r)"
  shows "wpx (fdf_world C J) Q E (w\<lparr>handles := (handles w)(h \<mapsto> (p, drop n e))\<rparr>) (find_opened fuel table p n h k)"
    (is "wpx _ _ _ ?w _")
proof -
  let ?b = "bucket (fnFileSizeLow (J p))"
  have size: "quad (fnFileSizeHigh (J p)) (fnFileSizeLow (J p)) = of_nat (length e)"
    using env(1,3) by (simp add: facts_ok_def)
  have e: "length e < 2 ^ 64" using env(1,2) by (simp add: readable_def)
  have b: "?b < FILE_RECORD_TABLE_SIZE" by (rule bucket_less)
  have c: "content C ?w = C'" by (simp add: C')
  have closed: "w\<lparr>handles := (handles w)(h := None)\<rparr> = w" using h by (simp add: fun_upd_idem)
  have "wpx (fdf_world C J) Q E ?w
    (search_chain fuel (candidate_of J n p e h) table ?b [] (table ! ?b) None k (\<lambda>table sums.
       close_file h (add_record table (record_of p (J p) sums) k)))"
  proof (rule wp_search_chain[where C = C and e = e], unfold c append_Nil)
    show "\<forall>fr \<in> set (table ! ?b). record_ok C' J n fr" using table b by (simp add: records_ok_def)
    show "wpx (fdf_world C J) Q E (?w\<lparr>handles := (handles ?w)(h := None)\<rparr>) (k (table[?b := chain']) (Some fr))"
      if "map core chain' = map core (table ! ?b)" "\<forall>fr\<in>set chain'. record_ok C' J n fr"
        "fr \<in> set chain'" "same_file C' J n p (szFilePath fr)" for chain' fr
      using go[of "table[?b := chain']" "Some fr"] found_in_chain[OF table b that] by (simp add: closed)
    show "wpx (fdf_world C J) Q E (?w\<lparr>handles := (handles ?w)(h := v)\<rparr>)
        (close_file h (add_record (table[?b := chain']) (record_of p (J p) sums') k))"
      if "map core chain' = map core (table ! ?b)" "\<forall>fr\<in>set chain'. record_ok C' J n fr"
        "\<forall>fr\<in>set chain'. \<not> same_file C' J n p (szFilePath fr)"
        "sums_known n p e h (?w\<lparr>handles := (handles ?w)(h := v)\<rparr>) sums'" for chain' v sums'
    proof -
      have "\<forall>c. sums' = Some c \<longrightarrow> c = sums_of_content (drop n e)"
        using that(4) by (auto simp: sums_known_def split: option.splits)
      note r = record_of_ok[where C = C', OF env(1,3) e this]
      note m = missed_in_chain[OF env(3) table refl that(1-3) r]
      have "wpx (fdf_world C J) Q E w (add_record (table[?b := chain']) (record_of p (J p) sums') k)"
        using go[OF m(1), of None] m(2) by (intro wp_add_record) (simp only: r(2) option.map)
      then show ?thesis by (simp add: fdf_world_simps file_world_simps closed)
    qed
  qed (use env in \<open>simp_all add: sums_known_def\<close>)
  then show ?thesis by (auto simp: find_opened_def fdf_world_simps candidate_of_def size Let_def)
qed

lemma wp_FindEqualOrAdd [wp_rules]:
  fixes w :: disk and table :: record_table and C :: "string \<Rightarrow> byte list option"
  assumes C': "C' = content C w"
    and env: "C' p = Some e" "readable C' fuel" "facts_ok C' J" and table: "records_ok C' J n table"
    and go: "\<And>table' r. records_ok C' J n table' \<Longrightarrow>
      looked_up (same_file C' J n) (paths table) p (paths table') (map_option szFilePath r) \<Longrightarrow>
      wpx (fdf_world C J) Q E w (k table' r)"
  shows "wpx (fdf_world C J) Q E w (FindEqualOrAdd fuel table p n k)"
  unfolding FindEqualOrAdd_def
proof (rule wp_Sys)
  fix r w'
  assume "fdf_world C J w (Chk (file_call.CreateFile p)) r w'"
  then have r: "rv r \<noteq> invalid_handle" "handles w (rv r) = None" "w' = w\<lparr>handles := (handles w)(rv r \<mapsto> (p, e))\<rparr>"
    using env(1) by (simp_all add: fdf_world_simps file_world_simps C')
  have "wpx (fdf_world C J) Q E w' (skip_start n (rv r) (find_opened fuel table p n (rv r) k) (k table None))"
    by (rule wp_skip_start[where f = p and d = e])
      (use r(3) wp_find_opened[OF C' env table r(2) go] in simp_all)
  with r(1) show "wpx (fdf_world C J) Q E w' (if rv r = invalid_handle then k table None
    else skip_start n (rv r) (find_opened fuel table p n (rv r) k) (k table None))" by simp
qed

section \<open>The lookup refines a set of contents\<close>

text \<open>Two files with the same three bytes, as their search and their handles describe them.\<close>

definition three_bytes :: file_facts where
  "three_bytes =
    \<lparr>fdwFileAttributes = 0x20, fdwVolumeSerialNumber = 7, fnFileSizeHigh = 0, fnFileSizeLow = 3,
     fnNumberOfLinks = 1, fnFileIndexHigh = 0, fnFileIndexLow = 5\<rparr>"

definition two_files :: "string \<Rightarrow> byte list option" where
  "two_files p = (if p = ''a'' \<or> p = ''b'' then Some [1, 2, 3] else None)"

lemma two_files_ok:
  "16 \<le> fuel \<Longrightarrow> readable two_files fuel" "facts_ok two_files (\<lambda>_. three_bytes)"
  by (auto simp: readable_def facts_ok_def two_files_def three_bytes_def quad_def split: if_splits)

text \<open>
  C3. \<open>FindEqualOrAdd\<close> decides by the content: on a disk whose files can be read, with a
  table that is well formed, it gives its caller a record exactly if the table has the path
  of a file on the same volume, of the same length and with the same bytes behind the skipped
  part, and that record's; otherwise it gives none and the table has one path more, the one
  asked for. Comparing the sums first and then the files, which leaves out the last bytes of
  a file, misses and invents nothing. Whatever the caller does from there holds for the call:
  it ends, closes its handles and keeps the table well formed.
\<close>

theorem FindEqualOrAdd_finds:
  assumes "readable C fuel" and "facts_ok C J" and "records_ok C J n table"
    and "C p = Some e" and "removed w = []"
    and found: "\<And>table' fr. records_ok C J n table' \<Longrightarrow> paths table' = paths table \<Longrightarrow>
      szFilePath fr \<in> paths table \<Longrightarrow> same_file C J n p (szFilePath fr) \<Longrightarrow>
      wp (fdf_world C J) Q w (k table' (Some fr))"
    and added: "\<And>table'. records_ok C J n table' \<Longrightarrow> paths table' = insert p (paths table) \<Longrightarrow>
      \<forall>q \<in> paths table. \<not> same_file C J n p q \<Longrightarrow> wp (fdf_world C J) Q w (k table' None)"
  shows "wp (fdf_world C J) Q w (FindEqualOrAdd fuel table p n k)"
proof -
  have C: "C = content C w" using assms(5) by (simp add: content_def fun_eq_iff)
  have "wp (fdf_world C J) Q w (k table' r)"
    if "records_ok C J n table'" "looked_up (same_file C J n) (paths table) p (paths table') (map_option szFilePath r)" for table' r
    using that found added by (cases r) (simp_all add: looked_up_def)
  then show ?thesis by (rule wp_FindEqualOrAdd[OF C assms(4,1,2,3)])
qed

lemma two_files_same: "same_file two_files (\<lambda>_. three_bytes) 0 ''b'' ''a''"
  by (simp add: same_file_def two_files_def)

text \<open>The first of two equal files is added, and the second is found with it.\<close>

theorem FindEqualOrAdd_finds_witness:
  "wp (fdf_world two_files (\<lambda>_. three_bytes)) (\<lambda>w n. w = \<lparr>handles = Map.empty, removed = []\<rparr> \<and> n = 1)
    \<lparr>handles = Map.empty, removed = []\<rparr>
    (FindEqualOrAdd 16 empty_table ''a'' 0 (\<lambda>table r.
       FindEqualOrAdd 16 table ''b'' 0 (\<lambda>table r. Done (if map_option szFilePath r = Some ''a'' then 1 else 0))))"
proof (rule FindEqualOrAdd_finds[where e = "[1, 2, 3]"])
  fix table :: record_table
  assume t: "records_ok two_files (\<lambda>_. three_bytes) 0 table" "paths table = insert ''a'' (paths empty_table)"
  show "wp (fdf_world two_files (\<lambda>_. three_bytes)) (\<lambda>w n. w = \<lparr>handles = Map.empty, removed = []\<rparr> \<and> n = 1)
    \<lparr>handles = Map.empty, removed = []\<rparr>
    (FindEqualOrAdd 16 table ''b'' 0 (\<lambda>table r. Done (if map_option szFilePath r = Some ''a'' then 1 else 0)))"
    by (rule FindEqualOrAdd_finds[where e = "[1, 2, 3]"])
      (use t two_files_same in \<open>auto simp: two_files_ok two_files_def[of "''b''"]\<close>)
qed (simp_all add: two_files_ok records_ok_empty two_files_def)

end
