(* ===== verification/FdfSafe.thy ===== *)
theory FdfSafe
  imports FdfLookup
begin

text \<open>
  Sessions of \<open>fdf\<close> that make no links: whatever the searches of directories find and in
  whatever order, a file is deleted only if a file with the same content stays.
\<close>

section \<open>What a session keeps\<close>

definition lossless :: "(string \<Rightarrow> byte list option) \<Rightarrow> (string \<Rightarrow> file_facts) \<Rightarrow> nat \<Rightarrow> disk \<Rightarrow> bool" where
  "lossless C J n w \<longleftrightarrow>
    (\<forall>p \<in> set (removed w). \<exists>q. q \<notin> set (removed w) \<and> same_file C J n p q)"

text \<open>
  The switches \<open>-c\<close> and \<open>-l\<close> are not given, and the excluded strings are there if they are
  counted.
\<close>

definition settings :: "nat \<Rightarrow> bool \<Rightarrow> fdf \<Rightarrow> bool" where
  "settings n rc s \<longleftrightarrow>
    \<not> bSplitLinks s \<and> \<not> bLinkEqual s \<and> dwSkipSize s = n \<and>
    (dwExcludeStrings s \<noteq> 0 \<longrightarrow> szExcludeStrings s \<noteq> None) \<and> bRecurse s = rc"

definition session_ok :: "(string \<Rightarrow> byte list option) \<Rightarrow> (string \<Rightarrow> file_facts) \<Rightarrow> nat \<Rightarrow> bool \<Rightarrow> fdf \<Rightarrow> disk \<Rightarrow> bool" where
  "session_ok C J n rc s w \<longleftrightarrow>
    settings n rc s \<and> records_ok (content C w) J n (FileRecordTable s) \<and>
    (\<forall>p \<in> set (removed w). \<exists>q \<in> paths (FileRecordTable s). same_file C J n p q)"

lemma settings_counters [simp]:
  "settings n rc (qwFiles_update f s) = settings n rc s"
  "settings n rc (qwDupFiles_update f s) = settings n rc s"
  "settings n rc (qwDupSize_update f s) = settings n rc s"
  "settings n rc (qwSavedSize_update f s) = settings n rc s"
  "settings n rc (qwDeletedFiles_update f s) = settings n rc s"
  "settings n rc (FileRecordTable_update g s) = settings n rc s"
  by (simp_all add: settings_def)

lemma session_ok_counters [simp]:
  "session_ok C J n rc (qwFiles_update f s) w = session_ok C J n rc s w"
  "session_ok C J n rc (qwDupFiles_update f s) w = session_ok C J n rc s w"
  "session_ok C J n rc (qwDupSize_update f s) w = session_ok C J n rc s w"
  "session_ok C J n rc (qwSavedSize_update f s) w = session_ok C J n rc s w"
  "session_ok C J n rc (qwDeletedFiles_update f s) w = session_ok C J n rc s w"
  by (simp_all add: session_ok_def)

lemma table_file:
  assumes "records_ok C J n table" and "q \<in> paths table"
  obtains d where "C q = Some d"
proof -
  from assms obtain fr where "szFilePath fr = q" "record_ok C J n fr"
    by (auto simp: records_ok_def paths_def)
  with that show ?thesis by (auto simp: record_ok_def)
qed

lemma session_ok_lossless:
  assumes "session_ok C J n rc s w"
  shows "lossless C J n w"
  unfolding lossless_def
proof
  fix p assume "p \<in> set (removed w)"
  with assms obtain q where q: "q \<in> paths (FileRecordTable s)" "same_file C J n p q"
    and t: "records_ok (content C w) J n (FileRecordTable s)" by (auto simp: session_ok_def)
  from table_file[OF t q(1)] obtain d where "content C w q = Some d" .
  then have "q \<notin> set (removed w)" by (auto simp: content_def)
  with q(2) show "\<exists>q. q \<notin> set (removed w) \<and> same_file C J n p q" by auto
qed

lemma same_file_content: "same_file (content C w) J n p q \<Longrightarrow> same_file C J n p q"
  by (auto simp: same_file_def content_def split: if_splits)

lemma content_le: "content C w p = Some d \<Longrightarrow> C p = Some d"
  by (simp add: content_def split: if_splits)

lemma facts_ok_content: "facts_ok C J \<Longrightarrow> facts_ok (content C w) J"
  and readable_content: "readable C io \<Longrightarrow> readable (content C w) io"
  by (auto simp: facts_ok_def readable_def dest: content_le)

text \<open>Deleting a file that is equal to one in the table.\<close>

lemma session_ok_delete:
  assumes ok: "session_ok C J n rc s w" and q: "q \<in> paths (FileRecordTable s)"
    and same: "same_file (content C w) J n p q" and "p \<noteq> q"
  shows "session_ok C J n rc s (w\<lparr>removed := p # removed w\<rparr>)"
proof -
  let ?t = "FileRecordTable s" and ?w = "w\<lparr>removed := p # removed w\<rparr>"
  have t: "records_ok (content C w) J n ?t" using ok by (simp add: session_ok_def)
  have p: "p \<notin> paths ?t" using t q same assms(4) by (auto simp: records_ok_def)
  have c: "content C ?w x = (if x = p then None else content C w x)" for x by (simp add: content_def)
  have "record_ok (content C ?w) J n fr" if "record_ok (content C w) J n fr" "szFilePath fr \<in> paths ?t" for fr
    using that p by (auto simp: record_ok_def c)
  moreover have "same_file (content C w) J n a b" if "same_file (content C ?w) J n a b" for a b
    using that by (auto simp: same_file_def c split: if_splits)
  moreover have "szFilePath fr \<in> paths ?t" if "fr \<in> set (?t ! b)" "b < FILE_RECORD_TABLE_SIZE" for fr b
    using that t by (auto simp: paths_def records_ok_def)
  ultimately have "records_ok (content C ?w) J n ?t"
    using t unfolding records_ok_def by blast
  with ok same_file_content[OF same] q show ?thesis by (auto simp: session_ok_def)
qed

section \<open>Calls that leave the disk alone\<close>

fun plain :: "fdf_call \<Rightarrow> bool" where
  "plain (Chk c) \<longleftrightarrow> False"
| "plain (DeleteFile p) \<longleftrightarrow> False"
| "plain (CopyFile p q) \<longleftrightarrow> False"
| "plain (Link c) \<longleftrightarrow> False"
| "plain c \<longleftrightarrow> True"

lemma wp_plain_call: "plain c \<Longrightarrow> (\<And>r. wpx (fdf_world C J) Q E w (k r)) \<Longrightarrow> wpx (fdf_world C J) Q E w (Sys c k)"
  by (cases c) (auto simp: fdf_world_def)

lemma wp_line_end: "wpx (fdf_world C J) Q E w k \<Longrightarrow> wpx (fdf_world C J) Q E w (line_end k)"
  unfolding line_end_def by (intro wp_plain_call) simp_all

lemma wp_show_path: "wpx (fdf_world C J) Q E w k \<Longrightarrow> wpx (fdf_world C J) Q E w (show_path s p k)"
  unfolding show_path_def by (auto simp del: wpx.simps(2) intro!: wp_plain_call)

lemma wp_forced: "(\<And>a. wpx (fdf_world C J) Q E w (k a)) \<Longrightarrow> wpx (fdf_world C J) Q E w (forced s p q k)"
  unfolding forced_def by (auto simp del: wpx.simps(2) intro!: wp_plain_call)

lemma wp_restore: "wpx (fdf_world C J) Q E w k \<Longrightarrow> wpx (fdf_world C J) Q E w (restore_attributes s p a k)"
  unfolding restore_attributes_def by (auto simp del: wpx.simps(2) intro!: wp_plain_call)

lemma wp_filter_loop:
  "(\<And>x. wpx (fdf_world C J) Q E w (k x)) \<Longrightarrow> E w \<Longrightarrow> wpx (fdf_world C J) Q E w (filter_loop fuel h forbidden required r k)"
  by (induction fuel arbitrary: r) (auto simp del: wpx.simps(2) intro!: wp_plain_call)

lemma wp_find_first:
  "(\<And>x. wpx (fdf_world C J) Q E w (k x)) \<Longrightarrow> E w \<Longrightarrow> wpx (fdf_world C J) Q E w (find_first fuel p forbidden required k)"
  unfolding find_first_def by (auto simp del: wpx.simps(2) intro!: wp_plain_call wp_filter_loop split: option.split)

lemma wp_find_next:
  "(\<And>x. wpx (fdf_world C J) Q E w (k x)) \<Longrightarrow> E w \<Longrightarrow> wpx (fdf_world C J) Q E w (find_next fuel h forbidden required k)"
  unfolding find_next_def by (auto simp del: wpx.simps(2) intro!: wp_plain_call wp_filter_loop)

lemmas wp_calls = wp_line_end wp_show_path wp_forced wp_restore wp_find_first wp_find_next

section \<open>One file\<close>

lemma wp_Find:
  assumes "\<And>r. wpx (fdf_world C J) Q E w (k r)"
  shows "wpx (fdf_world C J) Q E w (Find table p k)"
proof (cases "content C w p")
  case None
  with assms show ?thesis by (simp add: Find_def fdf_world_simps file_world_simps)
next
  case (Some d)
  then show ?thesis
    by (auto simp: Find_def fdf_world_simps file_world_simps Let_def fun_upd_idem assms)
qed

lemma wp_known_link:
  assumes "session_ok C J n rc s w" and "\<And>s'. session_ok C J n rc s' w \<Longrightarrow> wpx (fdf_world C J) Q E w (k s')"
  shows "wpx (fdf_world C J) Q E w (known_link s p fr k)"
proof -
  have "\<not> bSplitLinks s" "\<not> bLinkEqual s" using assms(1) by (simp_all add: session_ok_def settings_def)
  with assms show ?thesis by (auto simp: known_link_def Let_def simp del: wpx.simps(2) intro!: wp_plain_call wp_calls)
qed

lemma wp_duplicate:
  assumes ok: "session_ok C J n rc s w" and fr: "szFilePath fr \<in> paths (FileRecordTable s)"
    and same: "same_file (content C w) J n p (szFilePath fr)" "p \<noteq> szFilePath fr"
    and go: "\<And>s' w'. session_ok C J n rc s' w' \<Longrightarrow> wpx (fdf_world C J) Q E w' (k s')"
  shows "wpx (fdf_world C J) Q E w (duplicate s p i fr k)"
proof -
  have l: "\<not> bLinkEqual s" using ok by (simp add: session_ok_def settings_def)
  note d = session_ok_delete[OF ok fr same]
  have delete: "wpx (fdf_world C J) Q E w (Sys (DeleteFile p) j)"
    if "\<And>r. rv r = 0 \<Longrightarrow> wpx (fdf_world C J) Q E w (j r)"
      "\<And>r. rv r \<noteq> 0 \<Longrightarrow> wpx (fdf_world C J) Q E (w\<lparr>removed := p # removed w\<rparr>) (j r)" for j
    using that by (auto simp: fdf_world_simps)
  show ?thesis
    unfolding duplicate_def Let_def using l ok d
    by (auto simp: left_duplicate_def saved_duplicate_def simp del: wpx.simps(2) intro!: wp_plain_call wp_calls go delete)
qed

lemma wp_chkfile:
  assumes env: "readable C io" "facts_ok C J" and ok: "session_ok C J n rc s w"
    and go: "\<And>s' w'. session_ok C J n rc s' w' \<Longrightarrow> wpx (fdf_world C J) Q E w' (k s')"
  shows "wpx (fdf_world C J) Q E w (chkfile io s p i k)"
proof -
  let ?C = "content C w" and ?t = "FileRecordTable s"
  define found where "found = (\<lambda>table r.
    let s = s\<lparr>FileRecordTable := table\<rparr> in
    case r of
      None \<Rightarrow> k (s\<lparr>qwFiles := qwFiles s + 1\<rparr>)
    | Some fr \<Rightarrow> if p = szFilePath fr then k s else duplicate s p i fr k)"
  have n: "dwSkipSize s = n" and t: "records_ok ?C J n ?t" using ok by (simp_all add: session_ok_def settings_def)
  have unchanged: "wpx (fdf_world C J) Q E w (found ?t None)"
    using go ok by (simp add: found_def)
  have "wpx (fdf_world C J) Q E w (found table r)"
    if "records_ok ?C J n table" "looked_up (same_file ?C J n) (paths ?t) p (paths table) (map_option szFilePath r)" for table r
  proof -
    have ok': "session_ok C J n rc (s\<lparr>FileRecordTable := table\<rparr>) w"
      using ok that by (auto simp: session_ok_def looked_up_def split: option.splits)
    show ?thesis
    proof (cases r)
      case None
      with ok' go show ?thesis by (simp add: found_def)
    next
      case (Some fr)
      with that(2) have "szFilePath fr \<in> paths (FileRecordTable (s\<lparr>FileRecordTable := table\<rparr>))" "same_file ?C J n p (szFilePath fr)"
        by (simp_all add: looked_up_def)
      from wp_duplicate[where k = k, OF ok' this _ go] go[OF ok'] Some show ?thesis by (simp add: found_def Let_def)
    qed
  qed
  then have "wpx (fdf_world C J) Q E w (FindEqualOrAdd io ?t p n found)"
  proof (cases "?C p")
    case None
    with unchanged show ?thesis by (simp add: FindEqualOrAdd_def fdf_world_simps file_world_simps)
  next
    case (Some e)
    note lookup = wp_FindEqualOrAdd[OF refl Some readable_content[OF env(1)] facts_ok_content[OF env(2)] t]
    assume "\<And>table r. records_ok ?C J n table \<Longrightarrow>
      looked_up (same_file ?C J n) (paths ?t) p (paths table) (map_option szFilePath r) \<Longrightarrow>
      wpx (fdf_world C J) Q E w (found table r)"
    then show ?thesis by (rule lookup)
  qed
  with unchanged n ok go show ?thesis
    unfolding chkfile_def found_def[symmetric]
    by (auto intro!: wp_calls wp_Find wp_known_link split: option.split simp: Let_def)
qed

section \<open>The walk\<close>

text \<open>How a routine of the walk goes on from a state in which the session is as it should be.\<close>

definition goes_on :: "(string \<Rightarrow> byte list option) \<Rightarrow> (string \<Rightarrow> file_facts) \<Rightarrow> nat \<Rightarrow> bool \<Rightarrow>
    (disk \<Rightarrow> int \<Rightarrow> bool) \<Rightarrow> (disk \<Rightarrow> bool) \<Rightarrow> (fdf \<Rightarrow> bool \<Rightarrow> fdf_prog) \<Rightarrow> bool" where
  "goes_on C J n rc Q E k \<longleftrightarrow>
    (\<forall>s good w. session_ok C J n rc s w \<longrightarrow> wpx (fdf_world C J) Q E w (k s good))"

lemma goes_onD: "goes_on C J n rc Q E k \<Longrightarrow> session_ok C J n rc s w \<Longrightarrow> wpx (fdf_world C J) Q E w (k s good)"
  by (simp add: goes_on_def)

lemma left_out_defined: "session_ok C J n rc s w \<Longrightarrow> left_out s p \<noteq> None"
  by (auto simp: left_out_def ExcludedString_def session_ok_def settings_def)

lemma wp_file_loop:
  assumes env: "readable C io" "facts_ok C J" and k: "goes_on C J n rc Q E k"
    and E: "\<And>s w. session_ok C J n rc s w \<Longrightarrow> E w"
  shows "session_ok C J n rc s w \<Longrightarrow> wpx (fdf_world C J) Q E w (file_loop fuel io s dir h r k)"
proof (induction fuel arbitrary: s w r)
  case 0
  with E show ?case by simp
next
  case (Suc fuel)
  have close: "wpx (fdf_world C J) Q E w (Sys (FindClose h) (\<lambda>_. k s good))" if "session_ok C J n rc s w" for s w good
    by (rule wp_plain_call) (simp_all add: goes_onD[OF k that])
  have next': "wpx (fdf_world C J) Q E w (find_next fuel h DIRECTORY 0 (\<lambda>x.
      case x of None \<Rightarrow> Sys (FindClose h) (\<lambda>_. k s True) | Some r \<Rightarrow> file_loop fuel io s dir h r k))"
    if "session_ok C J n rc s w" for s w
    by (rule wp_find_next) (use that E close Suc.IH in \<open>auto simp del: wpx.simps(2) split: option.split\<close>)
  obtain x where x: "left_out s (dir @ line r) = Some x" using left_out_defined[OF Suc.prems] by auto
  show ?case
    unfolding file_loop.simps Let_def
    by (auto simp: x simp del: wpx.simps(2) intro!: wp_plain_call close next' wp_chkfile[OF env] Suc.prems split: bool.split)
qed

lemma wp_pattern_loop:
  assumes env: "readable C io" "facts_ok C J" and k: "goes_on C J n rc Q E k"
    and E: "\<And>s w. session_ok C J n rc s w \<Longrightarrow> E w"
  shows "session_ok C J n rc s w \<Longrightarrow> \<forall>pat \<in> set some. length dir + length pat \<le> PATH_SIZE \<Longrightarrow>
    wpx (fdf_world C J) Q E w (pattern_loop fuel io s dir some k)"
proof (induction some arbitrary: s w)
  case Nil
  then show ?case by (simp add: goes_onD[OF k])
next
  case (Cons pat some)
  have rest: "wpx (fdf_world C J) Q E w (pattern_loop fuel io s dir some k)" if "session_ok C J n rc s w" for s w
    using Cons.IH[OF that] Cons.prems(2) by simp
  have "goes_on C J n rc Q E (\<lambda>s good. if good then pattern_loop fuel io s dir some k else k s False)"
    using rest k by (simp add: goes_on_def)
  note loop = wp_file_loop[OF env this E]
  show ?case
    using Cons.prems
    by (auto simp del: wpx.simps(2) intro!: wp_plain_call wp_find_first rest loop goes_onD[OF k] E split: option.split)
qed

text \<open>In a directory there is room for three more characters.\<close>

definition walks :: "(string \<Rightarrow> byte list option) \<Rightarrow> (string \<Rightarrow> file_facts) \<Rightarrow> nat \<Rightarrow> bool \<Rightarrow> (disk \<Rightarrow> int \<Rightarrow> bool) \<Rightarrow>
    (disk \<Rightarrow> bool) \<Rightarrow> (fdf \<Rightarrow> string \<Rightarrow> (fdf \<Rightarrow> bool \<Rightarrow> fdf_prog) \<Rightarrow> fdf_prog) \<Rightarrow> bool" where
  "walks C J n rc Q E sub \<longleftrightarrow>
    (\<forall>s dir k w. goes_on C J n rc Q E k \<and> length dir + 3 \<le> PATH_SIZE \<and> session_ok C J n rc s w \<longrightarrow>
      wpx (fdf_world C J) Q E w (sub s dir k))"

lemma wp_dir_loop:
  assumes sub: "walks C J n rc Q E sub" and k: "goes_on C J n rc Q E k"
    and E: "\<And>s w. session_ok C J n rc s w \<Longrightarrow> E w"
  shows "session_ok C J n rc s w \<Longrightarrow> wpx (fdf_world C J) Q E w (dir_loop fuel sub s dir h r k)"
proof (induction fuel arbitrary: s w r)
  case 0
  with E show ?case by simp
next
  case (Suc fuel)
  have close: "wpx (fdf_world C J) Q E w (Sys (FindClose h) (\<lambda>_. k s good))" if "session_ok C J n rc s w" for s w good
    by (rule wp_plain_call) (simp_all add: goes_onD[OF k that])
  have next': "wpx (fdf_world C J) Q E w (find_next fuel h (junction_mask s) DIRECTORY (\<lambda>x.
      case x of None \<Rightarrow> Sys (FindClose h) (\<lambda>_. k s True) | Some r \<Rightarrow> dir_loop fuel sub s dir h r k))"
    if "session_ok C J n rc s w" for s w
    by (rule wp_find_next) (use that E close Suc.IH in \<open>auto simp del: wpx.simps(2) split: option.split\<close>)
  have below: "wpx (fdf_world C J) Q E w (sub s dir' (\<lambda>s good.
      if good then find_next fuel h (junction_mask s) DIRECTORY (\<lambda>x.
        case x of None \<Rightarrow> Sys (FindClose h) (\<lambda>_. k s True) | Some r \<Rightarrow> dir_loop fuel sub s dir h r k)
      else Sys (FindClose h) (\<lambda>_. k s False)))" if "length dir' + 3 \<le> PATH_SIZE" for dir'
  proof -
    have "goes_on C J n rc Q E (\<lambda>s good.
      if good then find_next fuel h (junction_mask s) DIRECTORY (\<lambda>x.
        case x of None \<Rightarrow> Sys (FindClose h) (\<lambda>_. k s True) | Some r \<Rightarrow> dir_loop fuel sub s dir h r k)
      else Sys (FindClose h) (\<lambda>_. k s False))"
      using close next' by (simp add: goes_on_def del: wpx.simps(2))
    with sub that Suc.prems show ?thesis unfolding walks_def by blast
  qed
  obtain x where x: "left_out s (dir @ line r @ [CHR 0x5C]) = Some x"
    using left_out_defined[OF Suc.prems] by blast
  show ?case
    unfolding dir_loop.simps Let_def
    by (auto simp: x simp del: wpx.simps(2) intro!: wp_plain_call close next' below Suc.prems split: bool.split)
qed

lemma wp_dosubdir:
  assumes env: "readable C io" "facts_ok C J" and E: "\<And>s w. session_ok C J n rc s w \<Longrightarrow> E w"
    and short: "\<forall>pat \<in> set some. length pat \<le> (if rc then 3 else PATH_SIZE)"
  shows "goes_on C J n rc Q E k \<Longrightarrow> (if rc then length dir + 3 \<le> PATH_SIZE else dir = []) \<Longrightarrow>
    session_ok C J n rc s w \<Longrightarrow> wpx (fdf_world C J) Q E w (dosubdir fuel io some s dir k)"
proof (induction fuel arbitrary: s w dir k)
  case 0
  with E show ?case by simp
next
  case (Suc fuel)
  have room: "\<forall>pat \<in> set some. length dir + length pat \<le> PATH_SIZE"
    using short Suc.prems(2) by (auto split: if_splits)
  note pattern = wp_pattern_loop[OF env Suc.prems(1) E _ room]
  have deeper: "walks C J n rc Q E (dosubdir fuel io some)" if "rc"
    unfolding walks_def using Suc.IH that by simp
  have "goes_on C J n rc Q E (\<lambda>s good. if good then pattern_loop fuel io s dir some k else k s False)"
    using pattern Suc.prems(1) by (simp add: goes_on_def)
  note loop = wp_dir_loop[OF _ this E]
  have "bRecurse s = rc" using Suc.prems(3) by (simp add: session_ok_def settings_def)
  then show ?case
    unfolding dosubdir.simps Let_def
    by (auto simp del: wpx.simps(2) intro!: wp_calls loop deeper pattern E Suc.prems split: option.split)
qed

section \<open>The program\<close>

lemma wp_summary: "Q w 0 \<Longrightarrow> wpx (fdf_world C J) Q E w (summary s)"
  by (simp add: summary_def Let_def wp_plain_call del: wpx.simps(2))

lemma wp_to_oem:
  "(\<And>args'. map length args' = map length args \<Longrightarrow> wpx (fdf_world C J) Q E w (k args')) \<Longrightarrow>
    wpx (fdf_world C J) Q E w (to_oem args k)"
  by (induction args arbitrary: k) (auto simp: fdf_world_def)

definition plain_switch :: "char \<Rightarrow> bool" where
  "plain_switch c \<longleftrightarrow> fold_case c \<in> set ''hsdfqrj''"

lemma switches_plain:
  assumes "\<forall>c \<in> set w. plain_switch c"
  shows "\<exists>s'. (\<forall>k. switches w s k = k s') \<and> bSplitLinks s' = bSplitLinks s \<and> bLinkEqual s' = bLinkEqual s \<and>
    dwSkipSize s' = dwSkipSize s \<and> dwExcludeStrings s' = dwExcludeStrings s \<and> szExcludeStrings s' = szExcludeStrings s \<and>
    bRecurse s' = (bRecurse s \<or> (\<exists>c \<in> set w. fold_case c = CHR ''r''))"
  using assms
proof (induction w arbitrary: s)
  case Nil
  show ?case by (rule exI[of _ s]) simp
next
  case (Cons c w)
  then have IH: "\<exists>s'. (\<forall>k. switches w s k = k s') \<and> bSplitLinks s' = bSplitLinks s \<and> bLinkEqual s' = bLinkEqual s \<and>
    dwSkipSize s' = dwSkipSize s \<and> dwExcludeStrings s' = dwExcludeStrings s \<and> szExcludeStrings s' = szExcludeStrings s \<and>
    bRecurse s' = (bRecurse s \<or> (\<exists>c \<in> set w. fold_case c = CHR ''r''))" for s
    by simp
  from Cons.prems have "fold_case c \<in> set ''hsdfqrj''" by (simp add: plain_switch_def)
  then consider "fold_case c = CHR ''h''" | "fold_case c = CHR ''s''" | "fold_case c = CHR ''d''" | "fold_case c = CHR ''f''"
    | "fold_case c = CHR ''q''" | "fold_case c = CHR ''r''" | "fold_case c = CHR ''j''" by auto
  then show ?case
  proof cases
    case 1 then show ?thesis using IH[of "s\<lparr>bDisplayLinks := False\<rparr>"] by simp
  next
    case 2 then show ?thesis using IH[of "s\<lparr>bDisplayEqual := False\<rparr>"] by simp
  next
    case 3 then show ?thesis using IH[of "s\<lparr>bDeleteEqual := True\<rparr>"] by simp
  next
    case 4 then show ?thesis using IH[of "s\<lparr>bForceDelete := True\<rparr>"] by simp
  next
    case 5 then show ?thesis using IH[of "s\<lparr>bQuiet := bQuiet s \<or> \<not> bVerbose s, bVerbose := False\<rparr>"] by simp
  next
    case 6 then show ?thesis using IH[of "s\<lparr>bRecurse := True\<rparr>"] by simp
  next
    case 7 then show ?thesis using IH[of "s\<lparr>bNoFollowJunctions := True\<rparr>"] by simp
  qed
qed

text \<open>Arguments of which the first is no switch.\<close>

definition no_switches :: "string list \<Rightarrow> bool" where
  "no_switches args \<longleftrightarrow> (case args of (c # w) # args \<Rightarrow> \<not> is_switch c | _ \<Rightarrow> True)"

lemma all_switches_none: "no_switches args \<Longrightarrow> all_switches args s k = k args s"
  by (cases args; cases "hd args") (auto simp: no_switches_def)

text \<open>A pattern must leave room for a path of any length when directories are walked.\<close>

definition short_patterns :: "string \<Rightarrow> string list \<Rightarrow> bool" where
  "short_patterns flags pats \<longleftrightarrow>
    (\<forall>pat \<in> set pats. length pat \<le> (if \<exists>c \<in> set flags. fold_case c = CHR ''r'' then 3 else PATH_SIZE))"

lemma wp_main:
  assumes env: "readable C io" "facts_ok C J" and w: "removed w = []"
    and flags: "\<forall>c \<in> set flags. plain_switch c" and pats: "no_switches pats" "short_patterns flags pats"
    and Q: "\<And>w n. lossless C J 0 w \<Longrightarrow> Q w n" and E: "\<And>w. lossless C J 0 w \<Longrightarrow> E w"
  shows "wpx (fdf_world C J) Q E w (main fuel io ((CHR ''-'' # flags) # pats))"
proof -
  let ?rc = "\<exists>c \<in> set flags. fold_case c = CHR ''r''"
  obtain s where s: "\<And>k. switches flags initial k = k s"
      "\<not> bSplitLinks s" "\<not> bLinkEqual s" "dwSkipSize s = 0" "dwExcludeStrings s = 0" "bRecurse s = ?rc"
    using switches_plain[OF flags, of initial] by (auto simp: initial_def)
  let ?s = "s\<lparr>FileRecordTable := empty_table\<rparr>"
  let ?k = "\<lambda>s good.
      let finish = Sys Clreol (\<lambda>_. Sys (Print [] []) (\<lambda>_. summary s)) in
      if good then finish else Sys (Print ''* Break *'' []) (\<lambda>_. finish)"
  have start: "lossless C J 0 w" using w by (simp add: lossless_def)
  have usage: "wpx (fdf_world C J) Q E w Fdf.usage"
    unfolding Fdf.usage_def using Q[OF start] by (auto simp del: wpx.simps(2) intro!: wp_plain_call)
  have ok: "session_ok C J 0 ?rc ?s w"
    using s w by (simp add: session_ok_def settings_def records_ok_empty)
  have "goes_on C J 0 ?rc Q E ?k"
    unfolding goes_on_def Let_def
    by (auto simp del: wpx.simps(2) intro!: wp_plain_call wp_summary Q session_ok_lossless)
  note walk = wp_dosubdir[OF env _ _ this _ ok]
  have dosubdir: "wpx (fdf_world C J) Q E w (dosubdir fuel io (if args = [] then [''*''] else args) ?s [] ?k)"
    if "map length args = map length pats" for args
  proof (rule walk)
    let ?m = "if ?rc then 3 else PATH_SIZE"
    have "\<forall>l \<in> set (map length args). l \<le> ?m" unfolding that using pats(2) by (simp add: short_patterns_def)
    then have "\<forall>pat \<in> set args. length pat \<le> ?m" by simp
    then show "\<forall>pat\<in>set (if args = [] then [''*''] else args). length pat \<le> (if ?rc then 3 else PATH_SIZE)"
      by (simp add: PATH_SIZE_def)
  qed (auto simp: PATH_SIZE_def E session_ok_lossless)
  have start0: "pats = [] \<Longrightarrow> wpx (fdf_world C J) Q E w (dosubdir fuel io [''*''] ?s [] ?k)" and start1: "map length args = map length pats \<Longrightarrow> args \<noteq> [] \<Longrightarrow> wpx (fdf_world C J) Q E w (dosubdir fuel io args ?s [] ?k)" for args
    using dosubdir[of "[]"] dosubdir[of args] by simp_all
  show ?thesis
    unfolding main_def
    by (auto simp: all_switches_none[OF pats(1)] s(1) is_switch_def Q[OF start] simp del: wpx.simps(2)
        intro!: wp_plain_call wp_to_oem usage start0 start1 split: if_splits)
qed



end
