(* ===== verification/XorSum.thy ===== *)
theory XorSum
  imports FdfTable
begin

text \<open>
  \<open>fdf/xorsum.cpp\<close>: the checksums of the files that match patterns. The calls are those of
  \<open>fdf\<close>.
\<close>

section \<open>The program\<close>

definition BUF_SIZE :: nat where "BUF_SIZE = 520"

definition split_at :: "char \<Rightarrow> string \<Rightarrow> string option" where
  "split_at c p = (if c \<in> set p then Some (takeWhile (\<lambda>x. x \<noteq> c) p @ [c]) else None)"

text \<open>The part of the path that is kept: up to the first backslash, else up to the first slash.\<close>

definition dir_part :: "string \<Rightarrow> string" where
  "dir_part p =
    (case split_at (CHR 0x5C) p of
       Some d \<Rightarrow> d
     | None \<Rightarrow> (case split_at (CHR ''/'') p of Some d \<Rightarrow> d | None \<Rightarrow> []))"

text \<open>\<open>strncpy\<close> of the name behind it, and a zero at the end of the buffer.\<close>

definition file_path :: "string \<Rightarrow> string \<Rightarrow> string" where
  "file_path p name = take (BUF_SIZE - 1) (dir_part p @ name)"

definition high_part :: "QWORD \<Rightarrow> arg" where "high_part q = I (uint (drop_bit 32 q))"
definition low_part_arg :: "QWORD \<Rightarrow> arg" where "low_part_arg q = I (uint (take_bit 32 q))"

text \<open>A handle whose sums cannot be computed stays open.\<close>

definition show_sum :: "nat \<Rightarrow> string \<Rightarrow> fdf_prog \<Rightarrow> fdf_prog" where
  "show_sum io buf next' =
    open_file buf (\<lambda>f.
      if rv f = invalid_handle then Sys (WinPerror buf) (\<lambda>_. next')
      else
        check_sum io (rv f) (\<lambda>c.
          case c of
            None \<Rightarrow> Sys (WinPerror buf) (\<lambda>_. next')
          | Some (c0, c1) \<Rightarrow>
              Sys (Print ''%s - %.4X%.4X-%.4X%.4X''
                    [S buf, high_part c0, low_part_arg c0, high_part c1, low_part_arg c1]) (\<lambda>_.
              close_file (rv f) next')))"

text \<open>The finder leaves directories out and is closed when it goes out of scope.\<close>

primrec sum_files :: "nat \<Rightarrow> nat \<Rightarrow> string \<Rightarrow> int \<Rightarrow> fdf_reply \<Rightarrow> fdf_prog \<Rightarrow> fdf_prog" where
  "sum_files 0 io p h r k = OutOfFuel"
| "sum_files (Suc fuel) io p h r k =
    show_sum io (file_path p (line r))
      (find_next fuel h DIRECTORY 0 (\<lambda>x.
         case x of None \<Rightarrow> Sys (FindClose h) (\<lambda>_. k) | Some r \<Rightarrow> sum_files fuel io p h r k))"

primrec main :: "nat \<Rightarrow> nat \<Rightarrow> string list \<Rightarrow> fdf_prog" where
  "main fuel io [] = Done 0"
| "main fuel io (p # args) =
    (if length p \<ge> BUF_SIZE then Sys (Complain ''Path too long: %s'' [S p]) (\<lambda>_. main fuel io args)
     else
       find_first fuel p DIRECTORY 0 (\<lambda>x.
         case x of
           None \<Rightarrow> Sys (WinPerror p) (\<lambda>_. main fuel io args)
         | Some (h, r) \<Rightarrow> sum_files fuel io p h r (main fuel io args)))"

section \<open>What is shown\<close>

text \<open>In a pattern with one separator the names are found where the search found them, otherwise not.\<close>

lemma file_path_plain:
  assumes "CHR 0x5C \<notin> set d" and "CHR 0x5C \<notin> set pat" and "length d + length name + 1 < BUF_SIZE"
  shows "file_path (d @ CHR 0x5C # pat) name = d @ CHR 0x5C # name"
proof -
  have "takeWhile (\<lambda>x. x \<noteq> CHR 0x5C) (d @ CHR 0x5C # pat) = d"
    using assms(1) by (subst takeWhile_append2) auto
  with assms(3) show ?thesis by (simp add: file_path_def dir_part_def split_at_def)
qed

lemma file_path_nested:
  "file_path [CHR ''x'', CHR 0x5C, CHR ''y'', CHR 0x5C, CHR ''*''] ''name'' = CHR ''x'' # CHR 0x5C # ''name''"
  by (simp add: file_path_def dir_part_def split_at_def BUF_SIZE_def)

text \<open>A file that can be read is shown with the sums of its whole content, and closed.\<close>

lemma wp_show_sum:
  assumes "content C w p = Some d" and "length d < io"
    and "wpx (fdf_world C J) Q E w k"
  shows "wpx (fdf_world C J) Q E w (show_sum io p k)"
proof -
  have "wpx (fdf_world C J) Q E (w\<lparr>handles := (handles w)(h \<mapsto> (p, d))\<rparr>)
    (check_sum io h (\<lambda>c. case c of
       None \<Rightarrow> Sys (WinPerror p) (\<lambda>_. k)
     | Some (c0, c1) \<Rightarrow>
         Sys (Print ''%s - %.4X%.4X-%.4X%.4X'' [S p, high_part c0, low_part_arg c0, high_part c1, low_part_arg c1])
           (\<lambda>_. close_file h k)))" if "handles w h = None" for h
    by (rule wp_check_sum[where f = p and d = d])
      (use that assms in \<open>auto simp: fdf_world_def file_world_simps fun_upd_idem split: prod.split\<close>)
  with assms(1) show ?thesis by (auto simp: show_sum_def fdf_world_simps file_world_simps)
qed

end
