(* ===== verification/RawCopy.thy ===== *)
theory RawCopy
  imports CLib Worlds
begin

text \<open>
  \<open>rawcopy.cpp\<close>: copies files, pipes and devices block by block. It can retry or ignore
  failures, leave out blocks of zeros beyond the end of the output (a sparse copy), leave out
  blocks that the output already has (a differential copy), and fit the output to the size
  of the disk that was read. The main theorem says that neither way of leaving out blocks
  changes what the output holds in the end.
\<close>

section \<open>Calls\<close>

text \<open>
  A reply has the return value in \<open>rv\<close>, what was read in \<open>out\<close>, a count of bytes written,
  a size or a position of \<open>64\<close> bits in \<open>num\<close>, and the error code in \<open>err\<close>.
\<close>

datatype std = StdIn | StdOut

datatype io_control =
    FSCTL_ALLOW_EXTENDED_DASD_IO
  | IOCTL_DISK_UPDATE_PROPERTIES
  | IOCTL_DISK_GET_PARTITION_INFO
  | IOCTL_DISK_GET_DRIVE_GEOMETRY
  | FSCTL_LOCK_VOLUME
  | FSCTL_DISMOUNT_VOLUME
  | FSCTL_SET_SPARSE

datatype raw_call =
    SetErrorMode
  | Fputs string
  | Fprintf string "arg list"
  | Printf string "arg list"
  | Perror string
  | ErrMsg
  | MessageBox string
  | CharToOem
  | GetStdHandle std
  | CreateInput string bool
  | CreateOutput string bool bool bool int
  | CreateExisting string bool bool bool
  | SetFilePointer int int
  | SetFilePointerBegin int int
  | DeviceIoControl int io_control
  | GetFileInformationByHandle int
  | FlushFileBuffers int
  | GetFileSize int
  | SetEndOfFile int
  | LocalAlloc nat
  | LocalSize
  | Sleep nat
  | ReadFile int nat
  | WriteFile int "byte list"

type_synonym raw = "(raw_call, reply) prog"

text \<open>
  A position of \<open>64\<close> bits comes in two halves; the lower one being \<open>INVALID_SET_FILE_POINTER\<close>
  is a failure if there is an error code with it.
\<close>

definition bad_position :: "reply \<Rightarrow> bool" where
  "bad_position r \<longleftrightarrow> num r mod 2 ^ 32 = 2 ^ 32 - 1 \<and> err r \<noteq> 0"

definition fail :: "string \<Rightarrow> int \<Rightarrow> raw" where
  "fail m n = Sys (Perror m) (\<lambda>_. Done n)"

section \<open>Sizes\<close>

text \<open>
  What \<open>sscanf\<close> makes of \<open>%I64i%c\<close>: a number in the notation of C and the character behind
  it. A number that does not fit in \<open>64\<close> bits, or a size that does not after its suffix, is
  undefined.
\<close>

definition scan_i64 :: "string \<Rightarrow> (int \<times> string) option" where
  "scan_i64 s =
    (let t = dropWhile c_isspace s;
         neg = (t \<noteq> [] \<and> hd t = CHR ''-'');
         u = (if t \<noteq> [] \<and> (hd t = CHR ''-'' \<or> hd t = CHR ''+'') then tl t else t);
         (base, v) =
           (if take 2 u = ''0x'' \<or> take 2 u = ''0X'' then (16, drop 2 u)
            else if take 1 u = ''0'' then (8, u) else (10, u));
         ds = takeWhile (is_digit_of base) v;
         n = int (digits_value base ds)
     in if ds = [] then None else Some (if neg then - n else n, dropWhile (is_digit_of base) v))"

definition fits_i64 :: "int \<Rightarrow> bool" where
  "fits_i64 n \<longleftrightarrow> - (2 ^ 63) \<le> n \<and> n < 2 ^ 63"

definition size_factor :: "char \<Rightarrow> int option" where
  "size_factor c =
    (if c = CHR ''G'' then Some (2 ^ 30)
     else if c = CHR ''M'' then Some (2 ^ 20)
     else if c = CHR ''K'' then Some (2 ^ 10)
     else if c = CHR ''g'' then Some 1000000000
     else if c = CHR ''m'' then Some 1000000
     else if c = CHR ''k'' then Some 1000
     else None)"

datatype scanned = No_size | Undefined | Bad_suffix char | Size int

definition scan_size :: "string \<Rightarrow> scanned" where
  "scan_size s =
    (case scan_i64 s of
       None \<Rightarrow> No_size
     | Some (n, rest) \<Rightarrow>
         if \<not> fits_i64 n then Undefined
         else
           (case rest of
              [] \<Rightarrow> Size n
            | c # _ \<Rightarrow>
                (case size_factor c of
                   None \<Rightarrow> Bad_suffix c
                 | Some f \<Rightarrow> if fits_i64 (n * f) then Size (n * f) else Undefined)))"

text \<open>The number of bytes behind \<open>-m:\<close>, and the message if there is none.\<close>

definition buffer_bytes :: "string \<Rightarrow> (string \<times> arg list) + DWORD" where
  "buffer_bytes s =
    (case strtoul s 0 of (n, szSizeSuffix) \<Rightarrow>
       if szSizeSuffix = s then Inl (''Invalid buffer size: %s'', [S szSizeSuffix])
       else
         (case szSizeSuffix of
            [] \<Rightarrow> Inr n
          | [c] \<Rightarrow>
              (case size_factor c of
                 None \<Rightarrow> Inl (''Invalid size suffix: %c'', [S [c]])
               | Some f \<Rightarrow> Inr (n * of_int f))
          | _ \<Rightarrow> Inl (''Invalid buffer size: %s'', [S s])))"

section \<open>Switches\<close>

record raw_options =
  bBigBufferMode :: bool
  bDeviceLockRequired :: bool
  bVerboseMode :: bool
  bIgnoreErrors :: bool
  bAdjustSize :: bool
  bCreateSparse :: bool
  bDifferential :: bool
  bNonBufferedIn :: bool
  bNonBufferedOut :: bool
  bWriteThrough :: bool
  bExtendedDASDIO :: bool
  bDisplayHelp :: bool
  retrycount :: DWORD
  sizBigBufferSize :: DWORD
  sizWriteOffset :: int

definition default_options :: raw_options where
  "default_options =
    \<lparr>bBigBufferMode = False, bDeviceLockRequired = True, bVerboseMode = False, bIgnoreErrors = False,
     bAdjustSize = False, bCreateSparse = False, bDifferential = False, bNonBufferedIn = False,
     bNonBufferedOut = False, bWriteThrough = False, bExtendedDASDIO = False, bDisplayHelp = False,
     retrycount = 0, sizBigBufferSize = 524288, sizWriteOffset = 0\<rparr>"

definition verbose :: "raw_options \<Rightarrow> raw_call \<Rightarrow> raw \<Rightarrow> raw" where
  "verbose opt c k = (if bVerboseMode opt then Sys c (\<lambda>_. k) else k)"

definition has_value :: "string \<Rightarrow> bool" where
  "has_value w \<longleftrightarrow> w \<noteq> [] \<and> hd w = CHR '':''"

definition simple_letter :: "char \<Rightarrow> raw_options \<Rightarrow> raw_options" where
  "simple_letter c opt =
    (if c = CHR ''l'' then opt\<lparr>bDeviceLockRequired := False\<rparr>
     else if c = CHR ''i'' then opt\<lparr>bIgnoreErrors := True\<rparr>
     else if c = CHR ''v'' then opt\<lparr>bVerboseMode := True\<rparr>
     else if c = CHR ''a'' then opt\<lparr>bAdjustSize := True\<rparr>
     else if c = CHR ''s'' then opt\<lparr>bCreateSparse := True\<rparr>
     else if c = CHR ''D'' then opt\<lparr>bDifferential := True\<rparr>
     else if c = CHR ''r'' then opt\<lparr>bNonBufferedIn := True\<rparr>
     else if c = CHR ''w'' then opt\<lparr>bNonBufferedOut := True\<rparr>
     else if c = CHR ''x'' then opt\<lparr>bWriteThrough := True\<rparr>
     else if c = CHR ''d'' then opt\<lparr>bExtendedDASDIO := True\<rparr>
     else opt\<lparr>bDisplayHelp := True\<rparr>)"

text \<open>
  The letters of one argument. The suffix of \<open>-o:\<close> is stored in the first byte of a null
  pointer, which is then read through.
\<close>

fun raw_letters :: "string \<Rightarrow> raw_options \<Rightarrow> (raw_options \<Rightarrow> raw) \<Rightarrow> raw" where
  "raw_letters [] opt k = k opt"
| "raw_letters (c # w) opt k =
    (if c = CHR ''m'' then
       let opt = opt\<lparr>bBigBufferMode := True\<rparr> in
       if has_value w then
         (case buffer_bytes (tl w) of
            Inl (m, xs) \<Rightarrow> Sys (Fprintf m xs) (\<lambda>_. Done (- 1))
          | Inr n \<Rightarrow> k (opt\<lparr>sizBigBufferSize := n\<rparr>))
       else raw_letters w opt k
     else if c = CHR ''o'' then
       if \<not> has_value w then raw_letters w (opt\<lparr>bDisplayHelp := True\<rparr>) k
       else
         (case scan_i64 (tl w) of
            None \<Rightarrow> Sys (Fprintf ''Invalid skip size: %s'' [S (c # w)]) (\<lambda>_. Done (- 1))
          | Some (n, rest) \<Rightarrow>
              if \<not> fits_i64 n \<or> rest \<noteq> [] then Crash
              else verbose opt (Printf ''Write starts at %I64i bytes.'' [I n]) (k (opt\<lparr>sizWriteOffset := n\<rparr>)))
     else if c = CHR ''f'' then
       if \<not> has_value w then raw_letters w (opt\<lparr>bDisplayHelp := True\<rparr>) k
       else
         let n = fst (strtoul (tl w) 0) in k (opt\<lparr>retrycount := if n = 0 then 10 else n\<rparr>)
     else
       raw_letters w (simple_letter c opt) k)"

fun raw_switches :: "string list \<Rightarrow> raw_options \<Rightarrow> (raw_options \<Rightarrow> string list \<Rightarrow> raw) \<Rightarrow> raw" where
  "raw_switches [] opt k = k opt []"
| "raw_switches (a # args) opt k =
    (if a \<noteq> [] \<and> is_switch (hd a) then raw_letters (tl a) opt (\<lambda>opt. raw_switches args opt k)
     else k opt (a # args))"

section \<open>Blocks\<close>

text \<open>
  What the copying works with once everything is open. \<open>copylength\<close> and \<open>skipforward\<close> are
  those of the command line, zero if they are not there.
\<close>

record job =
  hIn :: int
  hOut :: int
  bufsiz :: nat
  skipforward :: int
  copylength :: int
  disk_size :: int
  existing_out_file_size :: int
  options :: raw_options

text \<open>The counters, and the memory at \<open>bufptr\<close>.\<close>

record counters =
  readbytes :: int
  writtenblocks :: int
  skippedwritebytes :: int
  buf :: "byte list"

definition ERROR_BROKEN_PIPE :: int where "ERROR_BROKEN_PIPE = 109"
definition ERROR_INVALID_PARAMETER :: int where "ERROR_INVALID_PARAMETER = 87"
definition ERROR_INVALID_FUNCTION :: int where "ERROR_INVALID_FUNCTION = 1"
definition ERROR_INVALID_HANDLE :: int where "ERROR_INVALID_HANDLE = 6"
definition ERROR_NOT_SUPPORTED :: int where "ERROR_NOT_SUPPORTED = 50"
definition IDABORT :: int where "IDABORT = 3"
definition IDRETRY :: int where "IDRETRY = 4"
definition IDIGNORE :: int where "IDIGNORE = 5"

definition end_of_pipe :: "int \<Rightarrow> bool" where
  "end_of_pipe e \<longleftrightarrow> e = ERROR_BROKEN_PIPE \<or> e = ERROR_INVALID_PARAMETER"

text \<open>What to do about a failure: the user is asked unless failures are ignored.\<close>

definition ask :: "raw_options \<Rightarrow> string \<Rightarrow> (int \<Rightarrow> raw) \<Rightarrow> raw" where
  "ask opt title k =
    (if bIgnoreErrors opt then k IDIGNORE else Sys (MessageBox title) (\<lambda>a. k (rv a)))"

definition ignore_message :: "raw_options \<Rightarrow> string \<Rightarrow> int \<Rightarrow> raw \<Rightarrow> raw" where
  "ignore_message opt text block k =
    (if bVerboseMode opt then Sys CharToOem (\<lambda>_. Sys (Fprintf text [I block]) (\<lambda>_. k)) else k)"

text \<open>
  The loop of a read. The continuation gets \<open>dwReadSize\<close> and the counters with the new
  content of the buffer; a read stores what it got there even if it fails.
\<close>

primrec read_block :: "nat \<Rightarrow> job \<Rightarrow> nat \<Rightarrow> nat \<Rightarrow> counters \<Rightarrow> (nat \<Rightarrow> counters \<Rightarrow> raw) \<Rightarrow> raw" where
  "read_block 0 j dwBlockSize retries s k = OutOfFuel"
| "read_block (Suc fuel) j dwBlockSize retries s k =
    Sys (ReadFile (hIn j) dwBlockSize) (\<lambda>r.
      if length (out r) > dwBlockSize \<or> length (out r) > length (buf s) then Crash
      else
        let opt = options j; dwReadSize = length (out r); s = s\<lparr>buf := poke (buf s) 0 (out r)\<rparr> in
        if rv r \<noteq> 0 \<or> end_of_pipe (err r) then k dwReadSize s
        else
          Sys ErrMsg (\<lambda>_.
            if retries < unat (retrycount opt) then
              Sys (Fprintf ''Rawcopy read failure: %s%nRetrying...'' []) (\<lambda>_.
              Sys (Sleep 500) (\<lambda>_. read_block fuel j dwBlockSize (retries + 1) s k))
            else
              ask opt ''Rawcopy read failure'' (\<lambda>a.
                if a = IDABORT then Done (- 1)
                else if a = IDRETRY then read_block fuel j dwBlockSize 0 s k
                else if a = IDIGNORE then
                  ignore_message opt ''Ignoring read error at block %I64u: %s'' (writtenblocks s)
                    (Sys (SetFilePointer (hIn j) (int (bufsiz j))) (\<lambda>p.
                      if bad_position p then fail ''Fatal, cannot set input file pointer'' (- 1)
                      else k dwBlockSize (s\<lparr>buf := poke (buf s) 0 (replicate dwBlockSize 0)\<rparr>)))
                else k dwReadSize s)))"

primrec write_block :: "nat \<Rightarrow> job \<Rightarrow> byte list \<Rightarrow> nat \<Rightarrow> int \<Rightarrow> (nat \<Rightarrow> raw) \<Rightarrow> raw" where
  "write_block 0 j bs retries block k = OutOfFuel"
| "write_block (Suc fuel) j bs retries block k =
    Sys (WriteFile (hOut j) bs) (\<lambda>r.
      let opt = options j; dwWriteSize = nat (num r) in
      if rv r \<noteq> 0 \<or> end_of_pipe (err r) then k dwWriteSize
      else
        Sys ErrMsg (\<lambda>_.
          if retries < unat (retrycount opt) then
            Sys (Fprintf ''Rawcopy write failure: %s%nRetrying...'' []) (\<lambda>_.
            Sys (Sleep 500) (\<lambda>_. write_block fuel j bs (retries + 1) block k))
          else
            ask opt ''Rawcopy write failure'' (\<lambda>a.
              if a = IDABORT then Done (- 1)
              else if a = IDRETRY then write_block fuel j bs 0 block k
              else if a = IDIGNORE then
                ignore_message opt ''Ignoring write error at block %I64u: %s'' block
                  (Sys (SetFilePointer (hOut j) (int (length bs - dwWriteSize))) (\<lambda>p.
                    if bad_position p then fail ''Fatal, cannot set output file pointer'' (- 1)
                    else k dwWriteSize))
              else k dwWriteSize)))"

text \<open>
  The search for data looks at whole words of eight bytes; the last one may reach beyond the
  bytes that were read, and beyond the buffer: that is None.
\<close>

definition zero_words :: "byte list \<Rightarrow> nat \<Rightarrow> bool option" where
  "zero_words m n =
    (if \<exists>x \<in> set (take (n div 8 * 8) m). x \<noteq> 0 then Some False
     else if length m < (n + 7) div 8 * 8 then None
     else Some (\<forall>x \<in> set (take ((n + 7) div 8 * 8) m). x = 0))"

text \<open>
  Is the block there already? The output is read and its pointer put back. The counter has
  the size of the block by now.
\<close>

definition compare_block :: "job \<Rightarrow> nat \<Rightarrow> counters \<Rightarrow> bool \<Rightarrow> (bool \<Rightarrow> raw) \<Rightarrow> raw" where
  "compare_block j n s skip k =
    (if bDifferential (options j) \<and> readbytes s \<le> existing_out_file_size j then
       Sys (ReadFile (hOut j) n) (\<lambda>r.
         if rv r = 0 then fail ''Error reading output file'' (- 1)
         else if length (out r) \<noteq> n then Sys (Fputs ''Error reading output file.'') (\<lambda>_. Done (- 1))
         else
           Sys (SetFilePointer (hOut j) (- int n)) (\<lambda>p.
             if bad_position p then fail ''Fatal, cannot set output file pointer'' (- 1)
             else k (if peek (buf s) 0 n = out r then True else skip)))
     else k skip)"

text \<open>The rest of a turn, with what was written of the block; \<open>go\<close> is the next turn, \<open>stop\<close> the end.\<close>

definition end_turn :: "job \<Rightarrow> nat \<Rightarrow> nat \<Rightarrow> counters \<Rightarrow> (counters \<Rightarrow> raw) \<Rightarrow> (counters \<Rightarrow> raw) \<Rightarrow> raw" where
  "end_turn j dwReadSize dwWriteSize s go stop =
    (let rest =
       (if dwWriteSize = 0 then verbose (options j) (Fputs ''End of output.'') (stop s)
        else
          let s = s\<lparr>writtenblocks := writtenblocks s + 1\<rparr> in
          if copylength j \<noteq> 0 \<and> writtenblocks s \<ge> copylength j then stop s else go s)
     in if dwWriteSize < dwReadSize then
          Sys (Fprintf ''Warning: %u bytes lost.'' [I (int (dwReadSize - dwWriteSize))]) (\<lambda>_. rest)
        else rest)"

definition skip_block :: "job \<Rightarrow> nat \<Rightarrow> counters \<Rightarrow> (counters \<Rightarrow> raw) \<Rightarrow> (counters \<Rightarrow> raw) \<Rightarrow> raw" where
  "skip_block j n s go stop =
    verbose (options j) (Fprintf ''Skipped block %I64u'' [I (writtenblocks s)])
      (Sys (SetFilePointer (hOut j) (int n)) (\<lambda>p.
        if bad_position p then fail ''Fatal, cannot set output file pointer'' (- 1)
        else
          let more = end_turn j n n (s\<lparr>skippedwritebytes := skippedwritebytes s + int n\<rparr>) go stop in
          if readbytes s > existing_out_file_size j then Sys (SetEndOfFile (hOut j)) (\<lambda>_. more) else more))"

definition put_block :: "nat \<Rightarrow> job \<Rightarrow> nat \<Rightarrow> counters \<Rightarrow> (counters \<Rightarrow> raw) \<Rightarrow> (counters \<Rightarrow> raw) \<Rightarrow> raw" where
  "put_block fuel j n s go stop =
    verbose (options j) (Fprintf ''Writing block %I64u'' [I (writtenblocks s)])
      (write_block fuel j (peek (buf s) 0 n) 0 (writtenblocks s) (\<lambda>dwWriteSize.
        if dwWriteSize = 0 then stop s else end_turn j n dwWriteSize s go stop))"

text \<open>What happens to a block that is not empty.\<close>

definition handle_block :: "nat \<Rightarrow> job \<Rightarrow> nat \<Rightarrow> counters \<Rightarrow> (counters \<Rightarrow> raw) \<Rightarrow> (counters \<Rightarrow> raw) \<Rightarrow> raw" where
  "handle_block fuel j n s go stop =
    (case (if bCreateSparse (options j) \<and> readbytes s \<ge> existing_out_file_size j then zero_words (buf s) n
           else Some False) of
       None \<Rightarrow> Crash
     | Some skip \<Rightarrow>
         let s = s\<lparr>readbytes := readbytes s + int n\<rparr> in
         compare_block j n s skip (\<lambda>skip.
           if skip then skip_block j n s go stop else put_block fuel j n s go stop))"

text \<open>
  The size of the next block: the buffer, or what is left of the length. The comparison is
  done with \<open>64\<close> bits.
\<close>

definition next_size :: "job \<Rightarrow> counters \<Rightarrow> nat" where
  "next_size j s =
    (if copylength j \<noteq> 0 \<and> int (bufsiz j) + readbytes s \<ge> copylength j
     then nat ((copylength j - readbytes s) mod 2 ^ 32) else bufsiz j)"

primrec copy_loop :: "nat \<Rightarrow> job \<Rightarrow> counters \<Rightarrow> (counters \<Rightarrow> raw) \<Rightarrow> raw" where
  "copy_loop 0 j s stop = OutOfFuel"
| "copy_loop (Suc fuel) j s stop =
    Sys (Sleep 0) (\<lambda>_.
    verbose (options j) (Fprintf ''Reading block %I64u'' [I (writtenblocks s)])
      (if copylength j \<noteq> 0 \<and> readbytes s \<ge> copylength j then stop s
       else
         let n = next_size j s;
             read =
               read_block (Suc fuel) j n 0 s (\<lambda>dwReadSize s.
                 if dwReadSize = 0 then verbose (options j) (Fputs ''End of input.'') (stop s)
                 else handle_block (Suc fuel) j dwReadSize s (\<lambda>s. copy_loop fuel j s stop) stop)
         in if copylength j \<noteq> 0 \<and> int (bufsiz j) + readbytes s \<ge> copylength j then
              verbose (options j) (Fprintf ''Reading last %u bytes...'' [I (int n)]) read
            else read))"

section \<open>After the copy\<close>

definition adjust_size :: "job \<Rightarrow> raw \<Rightarrow> raw" where
  "adjust_size j k =
    (let size = (if disk_size j > skipforward j then disk_size j - skipforward j else disk_size j) in
     Sys (GetFileSize (hOut j)) (\<lambda>r.
       if bad_position r then fail ''Error getting output file size'' 1
       else if num r < size mod 2 ^ 64 then
         Sys (Fprintf ''Warning: Output file size is smaller than input disk volume size.''
           [I size, I (num r)]) (\<lambda>_. Done 1)
       else
         Sys (SetFilePointerBegin (hOut j) size) (\<lambda>p.
           if bad_position p then fail ''Error setting output file size'' 1
           else
             Sys (SetEndOfFile (hOut j)) (\<lambda>e.
               if rv e = 0 then fail ''Error setting output file size'' 1 else k))))"

definition report :: "job \<Rightarrow> counters \<Rightarrow> raw" where
  "report j s =
    (if bDifferential (options j) then
       Sys (Fprintf ''%.4g %s of %.4g %s updated (%.3g %%).''
         [I (readbytes s - skippedwritebytes s), I (readbytes s)]) (\<lambda>_. Done 0)
     else if bVerboseMode (options j) then Sys (Fprintf ''%.4g %s copied.'' [I (readbytes s)]) (\<lambda>_. Done 0)
     else Done 0)"

definition finish :: "job \<Rightarrow> counters \<Rightarrow> raw" where
  "finish j s = (if bAdjustSize (options j) then adjust_size j (report j s) else report j s)"

section \<open>Before the copy\<close>

text \<open>The lock of a device, with its name in the messages; the copy goes on unless it is required.\<close>

definition lock_device :: "raw_options \<Rightarrow> int \<Rightarrow> string \<Rightarrow> string \<Rightarrow> raw \<Rightarrow> raw" where
  "lock_device opt h name place k =
    Sys (FlushFileBuffers h) (\<lambda>_.
    Sys (DeviceIoControl h FSCTL_LOCK_VOLUME) (\<lambda>r.
      if rv r \<noteq> 0 then
        Sys (DeviceIoControl h FSCTL_DISMOUNT_VOLUME) (\<lambda>d.
          if rv d \<noteq> 0 then verbose opt (Fputs (name @ '' device locked and dismounted.'')) k
          else verbose opt (Fputs (name @ '' device locked.'')) k)
      else if err r \<in> {ERROR_NOT_SUPPORTED, ERROR_INVALID_FUNCTION, ERROR_INVALID_HANDLE, ERROR_INVALID_PARAMETER}
      then k
      else if bDeviceLockRequired opt then
        verbose opt (Fprintf ''System Error %u.'' [I (err r)])
          (fail (''Cannot lock '' @ place @ '' device (use -l to ignore)'') (- 1))
      else Sys (Perror (''Warning! '' @ name @ '' device not locked'')) (\<lambda>_. k)))"

definition set_sparse :: "job \<Rightarrow> (job \<Rightarrow> raw) \<Rightarrow> raw" where
  "set_sparse j k =
    (if bCreateSparse (options j) then
       Sys (DeviceIoControl (hOut j) FSCTL_SET_SPARSE) (\<lambda>r.
         if rv r = 0 then
           Sys (Perror ''Warning! Failed to set sparse flag for file'') (\<lambda>_.
             k (j\<lparr>options := (options j)\<lparr>bCreateSparse := False\<rparr>\<rparr>))
         else k j)
     else k j)"

definition seek_output :: "job \<Rightarrow> raw \<Rightarrow> raw" where
  "seek_output j k =
    (if sizWriteOffset (options j) \<noteq> 0 then
       Sys (SetFilePointer (hOut j) (sizWriteOffset (options j))) (\<lambda>p.
         if bad_position p then fail ''Error seeking on output device'' 2 else k)
     else k)"

text \<open>
  What is known of the output: the number of bytes between its pointer and its end if it is a
  file, and zero if it is a device, which is locked.
\<close>

definition examine_output :: "job \<Rightarrow> (job \<Rightarrow> raw) \<Rightarrow> raw" where
  "examine_output j k =
    Sys (GetFileInformationByHandle (hOut j)) (\<lambda>i.
      if rv i \<noteq> 0 then
        Sys (SetFilePointer (hOut j) 0) (\<lambda>p.
          if bad_position p then fail ''Fatal, cannot get output file pointer'' (- 1)
          else k (j\<lparr>existing_out_file_size := num i - num p\<rparr>))
      else lock_device (options j) (hOut j) ''Target'' ''target'' (k j))"

definition examine_input :: "job \<Rightarrow> raw \<Rightarrow> raw" where
  "examine_input j k =
    Sys (GetFileInformationByHandle (hIn j)) (\<lambda>i.
      if rv i \<noteq> 0 then k else lock_device (options j) (hIn j) ''Source'' ''source'' k)"

definition extended_io :: "raw_options \<Rightarrow> int \<Rightarrow> raw \<Rightarrow> raw" where
  "extended_io opt h k =
    (if bExtendedDASDIO opt then Sys (DeviceIoControl h FSCTL_ALLOW_EXTENDED_DASD_IO) (\<lambda>_. k) else k)"

definition start_copy :: "nat \<Rightarrow> job \<Rightarrow> byte list \<Rightarrow> raw" where
  "start_copy fuel j m =
    extended_io (options j) (hOut j)
      (examine_input j
        (examine_output j (\<lambda>j.
          set_sparse j (\<lambda>j.
            seek_output j
              (copy_loop fuel j \<lparr>readbytes = 0, writtenblocks = 0, skippedwritebytes = 0, buf = m\<rparr> (finish j))))))"

text \<open>
  The output is created if need be; what cannot be created by that call is opened by another.
\<close>

definition open_output :: "raw_options \<Rightarrow> int \<Rightarrow> string list \<Rightarrow> (int \<Rightarrow> raw) \<Rightarrow> raw" where
  "open_output opt h args k =
    (let go = (\<lambda>h.
       if h = invalid_handle then
         Sys (Perror (if args \<noteq> [] then hd args else ''stdout'')) (\<lambda>_.
           verbose opt (Fputs ''Error opening output file.'') (Done (- 1)))
       else k h)
     in if args \<noteq> [] \<and> hd args \<noteq> [] then
          Sys (CreateOutput (hd args) (bDifferential opt) (bNonBufferedOut opt) (bWriteThrough opt) h) (\<lambda>r.
            if rv r = invalid_handle \<and> err r = ERROR_INVALID_PARAMETER then
              Sys (CreateExisting (hd args) (bDifferential opt) (bNonBufferedOut opt) (bWriteThrough opt)) (\<lambda>r. go (rv r))
            else go (rv r))
        else Sys (GetStdHandle StdOut) (\<lambda>r. go (rv r)))"

text \<open>The buffers; the continuation gets the size and the memory.\<close>

definition buffers :: "raw_options \<Rightarrow> (nat \<Rightarrow> byte list \<Rightarrow> raw) \<Rightarrow> raw" where
  "buffers opt k =
    (let diff = (\<lambda>n m.
       if bDifferential opt then
         Sys (LocalAlloc n) (\<lambda>d. if rv d = 0 then fail ''Memory allocation error'' (- 1) else k n m)
       else k n m);
         small = replicate 512 0
     in if bBigBufferMode opt then
          Sys (LocalAlloc (unat (sizBigBufferSize opt))) (\<lambda>b.
            if rv b \<noteq> 0 then
              Sys LocalSize (\<lambda>z. let n = nat (num z) in
                verbose opt (Fprintf ''Buffering %u bytes.'' [I (int n)]) (diff n (replicate n 0)))
            else
              Sys (Perror ''Memory allocation error, using 512 bytes buffer instead%%nError message'') (\<lambda>_.
                verbose opt (Fprintf ''Buffering %u bytes.'' [I 512]) (diff 512 small)))
        else
          verbose opt (Fprintf ''Sequential scan mode used, max read/write buffer is %u bytes.'' [I 512])
            (diff 512 small))"

text \<open>The size of a disk, from its partition or its geometry; both come as one number.\<close>

definition volume_size :: "raw_options \<Rightarrow> int \<Rightarrow> (int \<Rightarrow> raw) \<Rightarrow> raw" where
  "volume_size opt h k =
    (if bAdjustSize opt then
       Sys (DeviceIoControl h IOCTL_DISK_UPDATE_PROPERTIES) (\<lambda>_.
       Sys (DeviceIoControl h IOCTL_DISK_GET_PARTITION_INFO) (\<lambda>p.
         if rv p \<noteq> 0 then k (num p)
         else
           Sys (DeviceIoControl h IOCTL_DISK_GET_DRIVE_GEOMETRY) (\<lambda>g.
             if rv g \<noteq> 0 then k (num g) else fail ''Cannot get input disk volume size'' 1)))
     else k 0)"

text \<open>From the operands for the input and the output on.\<close>

definition open_files :: "nat \<Rightarrow> raw_options \<Rightarrow> int \<Rightarrow> int \<Rightarrow> string list \<Rightarrow> raw" where
  "open_files fuel opt skip len args =
    (let go = (\<lambda>h.
       if h = invalid_handle then
         Sys (Perror (if args \<noteq> [] then hd args else ''stdin'')) (\<lambda>_.
           verbose opt (Fputs ''Error opening input file.'') (Done (- 1)))
       else
         let opened =
           extended_io opt h
             (volume_size opt h (\<lambda>disk.
               buffers opt (\<lambda>n m.
                 open_output opt h (if length args > 1 then tl args else args) (\<lambda>ho.
                   start_copy fuel \<lparr>hIn = h, hOut = ho, bufsiz = n, skipforward = skip, copylength = len,
                     disk_size = disk, existing_out_file_size = 0, options = opt\<rparr> m))))
         in if skip \<noteq> 0 then
              Sys (SetFilePointer h skip) (\<lambda>p.
                if bad_position p then fail ''Fatal, cannot set input file pointer'' (- 1) else opened)
            else opened)
     in if length args > 1 \<and> hd args \<noteq> [] then
          Sys (CreateInput (hd args) (bNonBufferedIn opt)) (\<lambda>r. go (rv r))
        else Sys (GetStdHandle StdIn) (\<lambda>r. go (rv r)))"

section \<open>The program\<close>

definition size_operand :: "raw_options \<Rightarrow> string \<Rightarrow> string \<Rightarrow> string \<Rightarrow> int \<Rightarrow> string \<Rightarrow> (int \<Rightarrow> raw) \<Rightarrow> raw" where
  "size_operand opt suffix_text size_text shown status a k =
    (case scan_size a of
       No_size \<Rightarrow> Sys (Fprintf size_text [S a]) (\<lambda>_. Done status)
     | Undefined \<Rightarrow> Crash
     | Bad_suffix c \<Rightarrow> Sys (Fprintf suffix_text [S [c]]) (\<lambda>_. Done (- 1))
     | Size n \<Rightarrow> verbose opt (Printf shown [I n]) (k n))"

definition rawcopy_main :: "nat \<Rightarrow> string list \<Rightarrow> raw" where
  "rawcopy_main fuel argv =
    raw_switches argv default_options (\<lambda>opt args.
      let operands =
        (if bDisplayHelp opt then Sys (Fputs ''File and device read/write utility.'') (\<lambda>_. Done (- 1))
         else
           let len = (\<lambda>skip args.
             if length args > 2 then
               size_operand opt ''Invalid copylength suffix: %c'' ''Invalid copylength: %s''
                 ''Copying %I64i bytes.'' 1 (hd args) (\<lambda>n. open_files fuel opt skip n (tl args))
             else open_files fuel opt skip 0 args)
           in if length args > 3 then
                size_operand opt ''Invalid forward skip suffix: %c'' ''Invalid skip size: %s''
                  ''Skipping %I64i bytes.'' (- 1) (hd args) (\<lambda>n. len n (tl args))
              else len 0 args)
      in if bIgnoreErrors opt then Sys SetErrorMode (\<lambda>_. operands) else operands)"

section \<open>A pair of files\<close>

text \<open>
  The input is read at \<open>ipos\<close>, in pieces of any size; the output is a file, read and written
  at \<open>opos\<close> without failures. Whether the files can be opened, and what the devices, the heap
  and the user answer, is open; the heap has blocks of whole words.
\<close>

record pair_of_files =
  inp :: "byte list"
  ipos :: nat
  outf :: "byte list"
  opos :: nat

definition overwrite :: "byte list \<Rightarrow> nat \<Rightarrow> byte list \<Rightarrow> byte list" where
  "overwrite f p bs = take p f @ replicate (p - length f) 0 @ bs @ drop (p + length bs) f"

definition copy_world :: "int \<Rightarrow> int \<Rightarrow> (pair_of_files, raw_call, reply) world" where
  "copy_world hi ho w c r w' \<longleftrightarrow>
    (case c of
       ReadFile h n \<Rightarrow>
         if h = hi then
           rv r \<noteq> 0 \<and> length (out r) \<le> n \<and> out r = take (length (out r)) (drop (ipos w) (inp w)) \<and>
           (out r = [] \<longrightarrow> n = 0 \<or> drop (ipos w) (inp w) = []) \<and> w' = w\<lparr>ipos := ipos w + length (out r)\<rparr>
         else if h = ho then
           rv r \<noteq> 0 \<and> out r = take n (drop (opos w) (outf w)) \<and> w' = w\<lparr>opos := opos w + length (out r)\<rparr>
         else w' = w
     | WriteFile h bs \<Rightarrow>
         if h = ho then
           rv r \<noteq> 0 \<and> num r = int (length bs) \<and>
           w' = w\<lparr>outf := overwrite (outf w) (opos w) bs, opos := opos w + length bs\<rparr>
         else w' = w
     | SetFilePointer h d \<Rightarrow>
         (let p = (if h = hi then int (ipos w) else int (opos w)) + d in
          if p < 0 then num r = 2 ^ 32 - 1 \<and> err r \<noteq> 0 \<and> w' = w
          else num r = p \<and> err r = 0 \<and>
            w' = (if h = hi then w\<lparr>ipos := nat p\<rparr> else if h = ho then w\<lparr>opos := nat p\<rparr> else w))
     | SetEndOfFile h \<Rightarrow>
         w' = (if h = ho then w\<lparr>outf := take (opos w) (outf w) @ replicate (opos w - length (outf w)) 0\<rparr> else w)
     | GetFileInformationByHandle h \<Rightarrow>
         (h = ho \<longrightarrow> rv r \<noteq> 0 \<and> num r = int (length (outf w))) \<and> w' = w
     | LocalSize \<Rightarrow> 0 < num r \<and> num r < 2 ^ 32 \<and> 8 dvd num r \<and> w' = w
     | CreateInput f n \<Rightarrow> rv r \<in> {hi, invalid_handle} \<and> w' = w
     | CreateOutput f d n t h \<Rightarrow> rv r \<in> {ho, invalid_handle} \<and> w' = w
     | CreateExisting f d n t \<Rightarrow> rv r \<in> {ho, invalid_handle} \<and> w' = w
     | _ \<Rightarrow> w' = w)"

lemma copy_world_simps:
  "copy_world hi ho w (ReadFile hi n) r w' \<longleftrightarrow>
    rv r \<noteq> 0 \<and> length (out r) \<le> n \<and> out r = take (length (out r)) (drop (ipos w) (inp w)) \<and>
    (out r = [] \<longrightarrow> n = 0 \<or> drop (ipos w) (inp w) = []) \<and> w' = w\<lparr>ipos := ipos w + length (out r)\<rparr>"
  "hi \<noteq> ho \<Longrightarrow> copy_world hi ho w (ReadFile ho n) r w' \<longleftrightarrow>
    rv r \<noteq> 0 \<and> out r = take n (drop (opos w) (outf w)) \<and> w' = w\<lparr>opos := opos w + length (out r)\<rparr>"
  "copy_world hi ho w (WriteFile ho bs) r w' \<longleftrightarrow>
    rv r \<noteq> 0 \<and> num r = int (length bs) \<and>
    w' = w\<lparr>outf := overwrite (outf w) (opos w) bs, opos := opos w + length bs\<rparr>"
  "copy_world hi ho w (SetFilePointer hi (int n)) r w' \<longleftrightarrow>
    num r = int (ipos w + n) \<and> err r = 0 \<and> w' = w\<lparr>ipos := ipos w + n\<rparr>"
  "hi \<noteq> ho \<Longrightarrow> copy_world hi ho w (SetFilePointer ho (int n)) r w' \<longleftrightarrow>
    num r = int (opos w + n) \<and> err r = 0 \<and> w' = w\<lparr>opos := opos w + n\<rparr>"
  "hi \<noteq> ho \<Longrightarrow> n \<le> opos w \<Longrightarrow> copy_world hi ho w (SetFilePointer ho (- int n)) r w' \<longleftrightarrow>
    num r = int (opos w - n) \<and> err r = 0 \<and> w' = w\<lparr>opos := opos w - n\<rparr>"
  "copy_world hi ho w (SetEndOfFile ho) r w' \<longleftrightarrow>
    w' = w\<lparr>outf := take (opos w) (outf w) @ replicate (opos w - length (outf w)) 0\<rparr>"
  "copy_world hi ho w (GetFileInformationByHandle ho) r w' \<longleftrightarrow> rv r \<noteq> 0 \<and> num r = int (length (outf w)) \<and> w' = w"
  "copy_world hi ho w (Sleep n) r w' \<longleftrightarrow> w' = w" "copy_world hi ho w SetErrorMode r w' \<longleftrightarrow> w' = w"
  "copy_world hi ho w (Fputs t) r w' \<longleftrightarrow> w' = w" "copy_world hi ho w (Fprintf t xs) r w' \<longleftrightarrow> w' = w"
  "copy_world hi ho w (Printf t xs) r w' \<longleftrightarrow> w' = w" "copy_world hi ho w (Perror t) r w' \<longleftrightarrow> w' = w"
  "copy_world hi ho w (DeviceIoControl h x) r w' \<longleftrightarrow> w' = w" "copy_world hi ho w (FlushFileBuffers h) r w' \<longleftrightarrow> w' = w"
  "copy_world hi ho w (LocalAlloc n) r w' \<longleftrightarrow> w' = w"
  "copy_world hi ho w LocalSize r w' \<longleftrightarrow> 0 < num r \<and> num r < 2 ^ 32 \<and> 8 dvd num r \<and> w' = w"
  "copy_world hi ho w (CreateInput f b) r w' \<longleftrightarrow> rv r \<in> {hi, invalid_handle} \<and> w' = w"
  "copy_world hi ho w (CreateOutput f b1 b2 b3 h) r w' \<longleftrightarrow> rv r \<in> {ho, invalid_handle} \<and> w' = w"
  "copy_world hi ho w (CreateExisting f b1 b2 b3) r w' \<longleftrightarrow> rv r \<in> {ho, invalid_handle} \<and> w' = w"
  by (auto simp: copy_world_def Let_def nat_diff_distrib)

lemma bad_position_ok [simp]: "err r = 0 \<Longrightarrow> \<not> bad_position r"
  by (simp add: bad_position_def)

lemma wp_raw_verbose [wp_rules]:
  "(\<And>r w'. copy_world hi ho w c r w' \<Longrightarrow> w' = w) \<Longrightarrow> wp (copy_world hi ho) Q w k \<Longrightarrow>
    wp (copy_world hi ho) Q w (verbose opt c k)"
  by (auto simp: verbose_def)

section \<open>A block\<close>

lemma wp_read_block:
  assumes "n \<le> length (buf s)"
    and "\<And>bs. length bs \<le> n \<Longrightarrow> bs = take (length bs) (drop (ipos w) (inp w)) \<Longrightarrow>
      (bs = [] \<Longrightarrow> n = 0 \<or> drop (ipos w) (inp w) = []) \<Longrightarrow>
      wp (copy_world (hIn j) ho) Q (w\<lparr>ipos := ipos w + length bs\<rparr>) (k (length bs) (s\<lparr>buf := poke (buf s) 0 bs\<rparr>))"
  shows "wp (copy_world (hIn j) ho) Q w (read_block (Suc fuel) j n tries s k)"
  using assms by (auto simp: copy_world_simps Let_def)

lemma wp_put_block:
  assumes "hIn j = hi" "hOut j = ho" "0 < n" "n \<le> length (buf s)"
    and "wp (copy_world hi ho) Q
      (w\<lparr>outf := overwrite (outf w) (opos w) (peek (buf s) 0 n), opos := opos w + n\<rparr>) (end_turn j n n s go stop)"
  shows "wp (copy_world hi ho) Q w (put_block (Suc fuel) j n s go stop)"
  unfolding put_block_def
  using assms by (intro wp_raw_verbose) (auto simp: copy_world_simps Let_def)

text \<open>Leaving out a block has the effect of writing it.\<close>

lemma pair_order: "w\<lparr>opos := p, outf := f\<rparr> = (w :: pair_of_files)\<lparr>outf := f, opos := p\<rparr>"
  by simp

lemma overwrite_same: "p + length bs \<le> length f \<Longrightarrow> take (length bs) (drop p f) = bs \<Longrightarrow> overwrite f p bs = f"
  by (simp add: overwrite_def) (metis append_take_drop_id drop_drop add.commute)

lemma overwrite_end: "overwrite f (length f) bs = f @ bs"
  by (simp add: overwrite_def)

lemma wp_skip_block:
  assumes j: "hIn j = hi" "hOut j = ho" "hi \<noteq> ho"
    and here: "readbytes s = int (opos w + n)" "length (outf w) = max (opos w) L" "existing_out_file_size j = int L"
    and "length bs = n"
    and same: "opos w + n \<le> L \<and> take n (drop (opos w) (outf w)) = bs \<or> L < opos w + n \<and> L \<le> opos w \<and> (\<forall>x \<in> set bs. x = 0)"
    and goal: "\<And>s'. s' = s\<lparr>skippedwritebytes := skippedwritebytes s + int n\<rparr> \<Longrightarrow>
      wp (copy_world hi ho) Q (w\<lparr>outf := overwrite (outf w) (opos w) bs, opos := opos w + n\<rparr>) (end_turn j n n s' go stop)"
  shows "wp (copy_world hi ho) Q w (skip_block j n s go stop)"
  unfolding skip_block_def
proof (rule wp_raw_verbose)
  have "wp (copy_world hi ho) Q w' (end_turn j n n (s\<lparr>skippedwritebytes := skippedwritebytes s + int n\<rparr>) go stop)"
    if w': "w' = w\<lparr>outf := overwrite (outf w) (opos w) bs, opos := opos w + n\<rparr>" for w'
    unfolding w' by (rule goal) simp
  moreover have "overwrite (outf w) (opos w) bs = outf w" if "opos w + n \<le> L"
    using that here(2) same \<open>length bs = n\<close> by (intro overwrite_same) auto
  moreover have "overwrite (outf w) (opos w) bs = outf w @ replicate n 0" "length (outf w) = opos w" if "L < opos w + n"
  proof -
    from that same here(2) show l: "length (outf w) = opos w" by auto
    from that same \<open>length bs = n\<close> have "bs = replicate n 0" by (auto intro: replicate_eqI)
    then show "overwrite (outf w) (opos w) bs = outf w @ replicate n 0" using overwrite_end[of "outf w" bs] l by simp
  qed
  ultimately show "wp (copy_world hi ho) Q w
     (Sys (SetFilePointer (hOut j) (int n)) (\<lambda>p.
        if bad_position p then fail ''Fatal, cannot set output file pointer'' (- 1)
        else
          let more = end_turn j n n (s\<lparr>skippedwritebytes := skippedwritebytes s + int n\<rparr>) go stop in
          if readbytes s > existing_out_file_size j then Sys (SetEndOfFile (hOut j)) (\<lambda>_. more) else more))"
    using j here by (auto simp: copy_world_simps Let_def not_less pair_order simp del: pair_of_files.update_convs)
qed (simp add: copy_world_simps)

lemma whole_words: "8 dvd (l :: nat) \<Longrightarrow> n \<le> l \<Longrightarrow> (n + 7) div 8 * 8 \<le> l"
  by (elim dvdE) simp

lemma zero_words_cases:
  assumes "8 dvd length m" "n \<le> length m"
  obtains "zero_words m n = Some False" | "zero_words m n = Some True" "\<forall>x \<in> set (take n m). x = 0"
proof (cases "\<exists>x \<in> set (take (n div 8 * 8) m). x \<noteq> 0")
  case True
  then show ?thesis by (intro that(1)) (auto simp: zero_words_def)
next
  case False
  then have z: "zero_words m n = Some (\<forall>x \<in> set (take ((n + 7) div 8 * 8) m). x = 0)"
    using whole_words[OF assms] by (auto simp: zero_words_def)
  have "set (take n m) \<subseteq> set (take ((n + 7) div 8 * 8) m)" by (rule set_take_subset_set_take) simp
  with z that show ?thesis by (cases "\<forall>x \<in> set (take ((n + 7) div 8 * 8) m). x = 0") auto
qed

lemma wp_compare_block:
  assumes j: "hIn j = hi" "hOut j = ho" "hi \<noteq> ho" "existing_out_file_size j = int L"
    and here: "readbytes s = int (opos w + n)" "L \<le> length (outf w)"
    and "\<And>b. b = skip \<or> b \<and> opos w + n \<le> L \<and> take n (drop (opos w) (outf w)) = peek (buf s) 0 n \<Longrightarrow>
      wp (copy_world hi ho) Q w (k b)"
  shows "wp (copy_world hi ho) Q w (compare_block j n s skip k)"
proof (cases "bDifferential (options j) \<and> opos w + n \<le> L")
  case True
  have len: "length (take n (drop (opos w) (outf w))) = n" using True here(2) by auto
  have "wp (copy_world hi ho) Q w (k (if peek (buf s) 0 n = take n (drop (opos w) (outf w)) then True else skip))"
    by (rule assms(7)) (use True in auto)
  with len True j here show ?thesis
    by (simp add: compare_block_def copy_world_simps)
next
  case False
  with j here assms(7)[of skip] show ?thesis by (auto simp: compare_block_def)
qed

lemma wp_handle_block:
  assumes j: "hIn j = hi" "hOut j = ho" "hi \<noteq> ho" "existing_out_file_size j = int L"
    and n: "0 < n" "n \<le> length (buf s)" "8 dvd length (buf s)"
    and here: "readbytes s = int (opos w)" "length (outf w) = max (opos w) L"
    and goal: "\<And>s'. readbytes s' = readbytes s + int n \<Longrightarrow> writtenblocks s' = writtenblocks s \<Longrightarrow> buf s' = buf s \<Longrightarrow>
      wp (copy_world hi ho) Q (w\<lparr>outf := overwrite (outf w) (opos w) (peek (buf s) 0 n), opos := opos w + n\<rparr>)
        (end_turn j n n s' go stop)"
  shows "wp (copy_world hi ho) Q w (handle_block (Suc fuel) j n s go stop)"
proof -
  let ?s = "s\<lparr>readbytes := readbytes s + int n\<rparr>"
  have body: "wp (copy_world hi ho) Q w
      (compare_block j n ?s b (\<lambda>b. if b then skip_block j n ?s go stop else put_block (Suc fuel) j n ?s go stop))"
    if b: "b \<longrightarrow> L \<le> opos w \<and> (\<forall>x \<in> set (peek (buf s) 0 n). x = 0)" for b
  proof (rule wp_compare_block[OF j])
    show "L \<le> length (outf w)" "readbytes ?s = int (opos w + n)" using here by simp_all
    fix c
    assume c: "c = b \<or> c \<and> opos w + n \<le> L \<and> take n (drop (opos w) (outf w)) = peek (buf ?s) 0 n"
    show "wp (copy_world hi ho) Q w (if c then skip_block j n ?s go stop else put_block (Suc fuel) j n ?s go stop)"
    proof (cases c)
      case True
      have "wp (copy_world hi ho) Q w (skip_block j n ?s go stop)"
        by (rule wp_skip_block[OF j(1-3) _ here(2) j(4), where bs = "peek (buf s) 0 n"])
          (use True b c here n in \<open>auto intro!: goal\<close>)
      with True show ?thesis by simp
    next
      case False
      have "wp (copy_world hi ho) Q w (put_block (Suc fuel) j n ?s go stop)"
        by (rule wp_put_block[OF j(1,2)]) (use n goal in auto)
      with False show ?thesis by simp
    qed
  qed
  show ?thesis
  proof (cases "bCreateSparse (options j) \<and> readbytes s \<ge> existing_out_file_size j")
    case True
    from n(3,2) show ?thesis
    proof (cases rule: zero_words_cases)
      case 1
      with True body[of False] show ?thesis by (simp add: handle_block_def Let_def)
    next
      case 2
      moreover have "L \<le> opos w" using True here(1) j(4) by simp
      ultimately show ?thesis using True body[of True] by (simp add: handle_block_def Let_def peek_def)
    qed
  next
    case False
    with body[of False] show ?thesis by (auto simp: handle_block_def Let_def)
  qed
qed

section \<open>The loop\<close>

text \<open>The output after \<open>R\<close> bytes of \<open>D\<close> over a file \<open>E\<close>.\<close>

definition copied :: "byte list \<Rightarrow> byte list \<Rightarrow> nat \<Rightarrow> byte list" where
  "copied D E R = take R D @ drop R E"

lemma copied_start [simp]: "copied D E 0 = E"
  by (simp add: copied_def)

lemma length_copied: "R \<le> length D \<Longrightarrow> length (copied D E R) = max R (length E)"
  by (auto simp: copied_def)

lemma overwrite_copied:
  "R + length bs \<le> length D \<Longrightarrow> take (length bs) (drop R D) = bs \<Longrightarrow>
    overwrite (copied D E R) R bs = copied D E (R + length bs)"
  by (auto simp: overwrite_def copied_def take_add min_def)

lemma wp_end_turn:
  assumes "0 < n" and "\<And>s'. readbytes s' = readbytes s \<Longrightarrow> writtenblocks s' = writtenblocks s + 1 \<Longrightarrow> buf s' = buf s \<Longrightarrow>
      (if copylength j \<noteq> 0 \<and> writtenblocks s + 1 \<ge> copylength j then wp T Q w (stop s') else wp T Q w (go s'))"
  shows "wp T Q w (end_turn j n n s go stop)"
  using assms(1) assms(2)[of "s\<lparr>writtenblocks := writtenblocks s + 1\<rparr>"]
  by (simp add: end_turn_def Let_def split: if_splits)

text \<open>The data that is to be copied: all that is left of the input, or as much of it as was asked for.\<close>

definition wanted_data :: "int \<Rightarrow> byte list \<Rightarrow> byte list" where
  "wanted_data len d = (if len = 0 then d else take (nat len) d)"

text \<open>The state of files and counters before a turn: \<open>R\<close> bytes of the input \<open>X\<close> have been copied over \<open>E\<close>.\<close>

definition on_way :: "byte list \<Rightarrow> byte list \<Rightarrow> nat \<Rightarrow> job \<Rightarrow> counters \<Rightarrow> pair_of_files \<Rightarrow> bool" where
  "on_way X E R j s w \<longleftrightarrow>
    R \<le> length (wanted_data (copylength j) X) \<and> drop (ipos w) (inp w) = drop R X \<and>
    outf w = copied (wanted_data (copylength j) X) E R \<and> opos w = R \<and> readbytes s = int R \<and>
    writtenblocks s \<le> int R \<and> length (buf s) = bufsiz j"

text \<open>Jobs that work on files, with a buffer of whole words.\<close>

definition file_job :: "int \<Rightarrow> int \<Rightarrow> byte list \<Rightarrow> job \<Rightarrow> bool" where
  "file_job hi ho E j \<longleftrightarrow>
    hIn j = hi \<and> hOut j = ho \<and> hi \<noteq> ho \<and> existing_out_file_size j = int (length E) \<and>
    0 < bufsiz j \<and> bufsiz j < 2 ^ 32 \<and> 8 dvd bufsiz j \<and> 0 \<le> copylength j"

lemma length_wanted [simp]:
  "0 \<le> len \<Longrightarrow> length (wanted_data len X) = (if len = 0 then length X else min (length X) (nat len))"
  by (simp add: wanted_data_def)

lemma next_size_bounds:
  assumes "file_job hi ho E j" "on_way X E R j s w" "copylength j = 0 \<or> readbytes s < copylength j"
  shows "0 < next_size j s" "next_size j s \<le> length (buf s)" "copylength j = 0 \<or> R + next_size j s \<le> nat (copylength j)"
proof -
  have b: "readbytes s = int R" "length (buf s) = bufsiz j" "0 < bufsiz j" "bufsiz j < 2 ^ 32" "0 \<le> copylength j"
    using assms by (simp_all add: on_way_def file_job_def)
  have "next_size j s = nat (copylength j) - R \<and> 0 < next_size j s \<and> next_size j s \<le> bufsiz j"
    if c: "copylength j \<noteq> 0" "int (bufsiz j) + readbytes s \<ge> copylength j"
  proof -
    have "0 < copylength j - int R" "copylength j - int R \<le> int (bufsiz j)" using c b assms(3) by auto
    then have "(copylength j - int R) mod 2 ^ 32 = copylength j - int R" using b(4) by (intro mod_pos_pos_trivial) auto
    then have "next_size j s = nat (copylength j - int R)" using c b(1) by (simp add: next_size_def)
    with \<open>0 < copylength j - int R\<close> \<open>copylength j - int R \<le> int (bufsiz j)\<close> show ?thesis by auto
  qed
  moreover have "next_size j s = bufsiz j" if "\<not> (copylength j \<noteq> 0 \<and> int (bufsiz j) + readbytes s \<ge> copylength j)"
    using that by (auto simp: next_size_def)
  ultimately show "0 < next_size j s" "next_size j s \<le> length (buf s)"
    "copylength j = 0 \<or> R + next_size j s \<le> nat (copylength j)"
    using b by (cases "copylength j \<noteq> 0 \<and> int (bufsiz j) + readbytes s \<ge> copylength j"; auto)+
qed

text \<open>A turn that reads \<open>bs\<close> brings the copy on by as much.\<close>

lemma on_way_step:
  assumes j: "file_job hi ho E j" and on: "on_way X E R j s w"
    and bs: "bs = take (length bs) (drop R X)" "copylength j = 0 \<or> R + length bs \<le> nat (copylength j)" "bs \<noteq> []"
    and s': "readbytes s' = readbytes s + int (length bs)" "writtenblocks s' = writtenblocks s + 1" "length (buf s') = bufsiz j"
  shows "on_way X E (R + length bs) j s'
      (w\<lparr>ipos := ipos w + length bs, outf := overwrite (outf w) (opos w) bs, opos := opos w + length bs\<rparr>)"
    and "copylength j \<noteq> 0 \<Longrightarrow> writtenblocks s' \<ge> copylength j \<Longrightarrow> R + length bs = length (wanted_data (copylength j) X)"
proof -
  have o: "drop (ipos w) (inp w) = drop R X" "outf w = copied (wanted_data (copylength j) X) E R" "opos w = R"
    "readbytes s = int R" "writtenblocks s \<le> int R" "0 \<le> copylength j"
    using on j by (simp_all add: on_way_def file_job_def)
  have "length bs \<le> length (drop R X)" using bs(1) by (metis length_take min.cobounded1)
  then have X: "R + length bs \<le> length X" using bs(3) by (cases "R \<le> length X") auto
  then have len: "R + length bs \<le> length (wanted_data (copylength j) X)" using bs(2) o(6) by auto
  have "take (length bs) (drop R (wanted_data (copylength j) X)) = bs"
    using bs(1,2) o(6) by (auto simp: wanted_data_def drop_take min_def)
  note over = overwrite_copied[OF len this, of E]
  have "drop (ipos w + length bs) (inp w) = drop (R + length bs) X"
    using o(1) by (metis add.commute drop_drop)
  with over o len s' bs(3) show "on_way X E (R + length bs) j s'
      (w\<lparr>ipos := ipos w + length bs, outf := overwrite (outf w) (opos w) bs, opos := opos w + length bs\<rparr>)"
    by (cases bs) (simp_all add: on_way_def)
  show "R + length bs = length (wanted_data (copylength j) X)" if "copylength j \<noteq> 0" "writtenblocks s' \<ge> copylength j"
    using that len s'(2) o(5,6) bs(3) by (cases bs) auto
qed

lemma wp_copy_loop:
  assumes j: "file_job hi ho E j"
    and stop: "\<And>s' w'. opos w' = length (wanted_data (copylength j) X) \<Longrightarrow>
      outf w' = copied (wanted_data (copylength j) X) E (length (wanted_data (copylength j) X)) \<Longrightarrow>
      wp (copy_world hi ho) Q w' (stop s')"
  shows "on_way X E R j s w \<Longrightarrow> length X < R + fuel \<Longrightarrow> wp (copy_world hi ho) Q w (copy_loop fuel j s stop)"
proof (induction fuel arbitrary: R s w)
  case 0
  then show ?case using j by (auto simp: on_way_def file_job_def split: if_splits)
next
  case (Suc fuel)
  let ?n = "next_size j s" and ?D = "wanted_data (copylength j) X"
  have J: "hIn j = hi" "hOut j = ho" "hi \<noteq> ho" "existing_out_file_size j = int (length E)" "8 dvd bufsiz j" "0 \<le> copylength j"
    using j by (simp_all add: file_job_def)
  have O: "drop (ipos w) (inp w) = drop R X" "outf w = copied ?D E R" "opos w = R" "readbytes s = int R"
    "length (buf s) = bufsiz j" "R \<le> length ?D" using Suc.prems by (simp_all add: on_way_def)
  have ended: "wp (copy_world hi ho) Q w' (stop s')" if "R' = length ?D" "on_way X E R' j s' w'" for R' s' w'
    by (rule stop) (use that in \<open>simp_all add: on_way_def\<close>)
  have turn: "wp (copy_world hi ho) Q w
      (read_block (Suc fuel) j ?n 0 s (\<lambda>dwReadSize s.
        if dwReadSize = 0 then verbose (options j) (Fputs ''End of input.'') (stop s)
        else handle_block (Suc fuel) j dwReadSize s (\<lambda>s. copy_loop fuel j s stop) stop))"
    if go: "copylength j = 0 \<or> readbytes s < copylength j"
    unfolding J(1)[symmetric]
  proof (rule wp_read_block)
    note b = next_size_bounds[OF j Suc.prems(1) go]
    show "?n \<le> length (buf s)" by (rule b)
    fix bs assume bs: "length bs \<le> ?n" "bs = take (length bs) (drop (ipos w) (inp w))"
      "bs = [] \<Longrightarrow> ?n = 0 \<or> drop (ipos w) (inp w) = []"
    let ?s = "s\<lparr>buf := poke (buf s) 0 bs\<rparr>" and ?w = "w\<lparr>ipos := ipos w + length bs\<rparr>"
    have lb: "length bs \<le> length (buf s)" using bs(1) b(2) by simp
    have "wp (copy_world hi ho) Q ?w (stop ?s)" if "bs = []"
    proof (rule ended)
      from that bs(3) b(1) O(1) have "length X \<le> R" by simp
      with O(6) J(6) show "R = length ?D" by (auto split: if_splits)
      show "on_way X E R j ?s ?w" using Suc.prems(1) that by (simp add: on_way_def)
    qed
    moreover have "wp (copy_world hi ho) Q ?w
        (handle_block (Suc fuel) j (length bs) ?s (\<lambda>s. copy_loop fuel j s stop) stop)" if ne: "bs \<noteq> []"
    proof (rule wp_handle_block[OF J(1-4)])
      show "0 < length bs" "length bs \<le> length (buf ?s)" "8 dvd length (buf ?s)" "readbytes ?s = int (opos ?w)"
        "length (outf ?w) = max (opos ?w) (length E)"
        using ne lb J(5) O length_copied[OF O(6), of E] by simp_all
      fix s1 :: counters
      assume s1: "readbytes s1 = readbytes ?s + int (length bs)" "writtenblocks s1 = writtenblocks ?s" "buf s1 = buf ?s"
      have pk: "peek (buf ?s) 0 (length bs) = bs" by (simp add: peek_def poke_def)
      show "wp (copy_world hi ho) Q
          (?w\<lparr>outf := overwrite (outf ?w) (opos ?w) (peek (buf ?s) 0 (length bs)), opos := opos ?w + length bs\<rparr>)
          (end_turn j (length bs) (length bs) s1 (\<lambda>s. copy_loop fuel j s stop) stop)" (is "wp _ _ ?v _")
      proof (rule wp_end_turn)
        fix s2 :: counters
        assume s2: "readbytes s2 = readbytes s1" "writtenblocks s2 = writtenblocks s1 + 1" "buf s2 = buf s1"
        have step: "on_way X E (R + length bs) j s2 ?v"
          "copylength j \<noteq> 0 \<Longrightarrow> writtenblocks s2 \<ge> copylength j \<Longrightarrow> R + length bs = length ?D"
          using on_way_step[OF j Suc.prems(1), of bs s2] bs(1,2) b(3) ne s1 s2 O(1,5) lb pk by auto
        show "if copylength j \<noteq> 0 \<and> writtenblocks s1 + 1 \<ge> copylength j then wp (copy_world hi ho) Q ?v (stop s2)
            else wp (copy_world hi ho) Q ?v (copy_loop fuel j s2 stop)"
          using ended[OF step(2) step(1)] Suc.IH[OF step(1)] Suc.prems(2) ne s2(2) by (cases bs) auto
      qed (use ne in simp)
    qed
    ultimately show "wp (copy_world (hIn j) ho) Q ?w
        (if length bs = 0 then verbose (options j) (Fputs ''End of input.'') (stop ?s)
         else handle_block (Suc fuel) j (length bs) ?s (\<lambda>s. copy_loop fuel j s stop) stop)"
      using J(1) by (auto intro!: wp_raw_verbose simp: copy_world_simps)
  qed
  have "wp (copy_world hi ho) Q w (stop s)" if "copylength j \<noteq> 0" "readbytes s \<ge> copylength j"
    by (rule ended[OF _ Suc.prems(1)]) (use that O(4,6) J(6) in auto)
  with turn show ?case
    unfolding copy_loop.simps Let_def
    by (auto simp: copy_world_simps intro!: wp_Sys wp_raw_verbose)
qed

section \<open>A run\<close>

text \<open>
  How a run may end: with \<open>0\<close>, the data being where it belongs and the rest of the output as
  it was, or with another value because something could not be opened, locked or allocated,
  the output being as it was.
\<close>

definition copy_result :: "int \<Rightarrow> byte list \<Rightarrow> byte list \<Rightarrow> pair_of_files \<Rightarrow> int \<Rightarrow> bool" where
  "copy_result len X E w n \<longleftrightarrow>
    (if n = 0 then outf w = wanted_data len X @ drop (length (wanted_data len X)) E else outf w = E)"

lemma copy_result_whole: "outf w = copied (wanted_data len X) E (length (wanted_data len X)) \<Longrightarrow> copy_result len X E w 0"
  by (simp add: copy_result_def copied_def)

lemma wp_fail: "n \<noteq> 0 \<Longrightarrow> outf w = E \<Longrightarrow> wp (copy_world hi ho) (copy_result len X E) w (fail m n)"
  by (simp add: fail_def copy_world_simps copy_result_def)

lemma wp_lock_device:
  assumes "wp (copy_world hi ho) (copy_result len X E) w k" "outf w = E"
  shows "wp (copy_world hi ho) (copy_result len X E) w (lock_device opt h name place k)"
  unfolding lock_device_def
  using assms by (auto simp: copy_world_simps intro!: wp_raw_verbose wp_fail wp_Sys)

text \<open>Switches that neither adjust the size nor move the output, without help.\<close>

definition copy_letter :: "char \<Rightarrow> bool" where
  "copy_letter c \<longleftrightarrow> c \<in> set ''lviswxrdDm''"

definition copy_options :: "raw_options \<Rightarrow> bool" where
  "copy_options opt \<longleftrightarrow> \<not> bDisplayHelp opt \<and> \<not> bAdjustSize opt \<and> sizWriteOffset opt = 0"

lemma copy_options_letter: "copy_letter c \<Longrightarrow> copy_options opt \<Longrightarrow> c \<noteq> CHR ''m'' \<Longrightarrow> copy_options (simple_letter c opt)"
  by (auto simp: copy_letter_def copy_options_def simple_letter_def)

lemma raw_letters_copy:
  "\<forall>c \<in> set cs. copy_letter c \<Longrightarrow> copy_options opt \<Longrightarrow> \<exists>opt'. copy_options opt' \<and> (\<forall>k. raw_letters cs opt k = k opt')"
proof (induction cs arbitrary: opt)
  case (Cons c cs)
  have no: "\<not> has_value cs" using Cons.prems(1) by (cases cs) (auto simp: has_value_def copy_letter_def)
  have ih: "\<exists>opt''. copy_options opt'' \<and> (\<forall>k. raw_letters cs opt' k = k opt'')" if "copy_options opt'" for opt'
    using Cons.IH[OF _ that] Cons.prems(1) by simp
  from Cons.prems(1) have c: "copy_letter c" by simp
  show ?case
  proof (cases "c = CHR ''m''")
    case True
    have "copy_options (opt\<lparr>bBigBufferMode := True\<rparr>)" using Cons.prems(2) by (simp add: copy_options_def)
    from ih[OF this] True no show ?thesis by simp
  next
    case False
    from ih[OF copy_options_letter[OF c Cons.prems(2) False]] False c no show ?thesis by (auto simp: copy_letter_def)
  qed
qed auto

lemma wp_start_copy:
  assumes hs: "hi \<noteq> ho" and m: "0 < n" "n < 2 ^ 32" "8 dvd n" "length m = n" and "0 \<le> len"
    and w: "outf w = E" "opos w = 0" "drop (ipos w) (inp w) = X" "length X < fuel" and opt: "copy_options opt"
  shows "wp (copy_world hi ho) (copy_result len X E) w
    (start_copy fuel \<lparr>hIn = hi, hOut = ho, bufsiz = n, skipforward = skip, copylength = len, disk_size = disk,
      existing_out_file_size = 0, options = opt\<rparr> m)"
proof -
  let ?j = "\<lambda>e opt. \<lparr>hIn = hi, hOut = ho, bufsiz = n, skipforward = skip, copylength = len, disk_size = disk,
      existing_out_file_size = e, options = opt\<rparr>"
  let ?Q = "copy_result len X E" and ?L = "int (length E)"
  have loop: "wp (copy_world hi ho) ?Q w (copy_loop fuel (?j ?L o')
      \<lparr>readbytes = 0, writtenblocks = 0, skippedwritebytes = 0, buf = m\<rparr> (finish (?j ?L o')))" if "copy_options o'" for o'
  proof (rule wp_copy_loop)
    show "file_job hi ho E (?j ?L o')" using hs m \<open>0 \<le> len\<close> by (simp add: file_job_def)
    show "on_way X E 0 (?j ?L o') \<lparr>readbytes = 0, writtenblocks = 0, skippedwritebytes = 0, buf = m\<rparr> w"
      using w m by (simp add: on_way_def)
    show "length X < 0 + fuel" using w by simp
    fix s' and w' :: pair_of_files
    assume "outf w' = copied (wanted_data (copylength (?j ?L o')) X) E (length (wanted_data (copylength (?j ?L o')) X))"
    then have "?Q w' 0" by (intro copy_result_whole) simp
    with that show "wp (copy_world hi ho) ?Q w' (finish (?j ?L o') s')"
      by (simp add: finish_def report_def copy_options_def copy_world_simps)
  qed
  have sparse: "wp (copy_world hi ho) ?Q w (set_sparse (?j ?L opt) (\<lambda>j. seek_output j (copy_loop fuel j
      \<lparr>readbytes = 0, writtenblocks = 0, skippedwritebytes = 0, buf = m\<rparr> (finish j))))"
    using loop[of opt] loop[of "opt\<lparr>bCreateSparse := False\<rparr>"] opt
    by (simp add: set_sparse_def seek_output_def copy_options_def copy_world_simps)
  have here: "copy_world hi ho w (SetFilePointer ho 0) r w' \<longleftrightarrow> num r = 0 \<and> err r = 0 \<and> w' = w" for r w'
    using copy_world_simps(5)[OF hs, of w 0 r w'] w(2) by (cases w) simp
  have "wp (copy_world hi ho) ?Q w (examine_output (?j 0 opt) (\<lambda>j. set_sparse j (\<lambda>j. seek_output j (copy_loop fuel j
      \<lparr>readbytes = 0, writtenblocks = 0, skippedwritebytes = 0, buf = m\<rparr> (finish j)))))"
    using sparse hs w here by (simp add: examine_output_def copy_world_simps(8))
  then show ?thesis
    using w by (auto simp: start_copy_def extended_io_def examine_input_def copy_world_simps(13) copy_world_def
        intro!: wp_lock_device wp_Sys)
qed

lemma wp_buffers:
  assumes "\<And>n m. 0 < n \<Longrightarrow> n < 2 ^ 32 \<Longrightarrow> 8 dvd n \<Longrightarrow> length m = n \<Longrightarrow>
      wp (copy_world hi ho) (copy_result len X E) w (k n m)" "outf w = E"
  shows "wp (copy_world hi ho) (copy_result len X E) w (buffers opt k)"
proof -
  have diff: "wp (copy_world hi ho) (copy_result len X E) w
      (if bDifferential opt then
         Sys (LocalAlloc n) (\<lambda>d. if rv d = 0 then fail ''Memory allocation error'' (- 1) else k n m)
       else k n m)" if "0 < n" "n < 2 ^ 32" "8 dvd n" "length m = n" for n m
    using assms that by (auto simp: copy_world_simps intro!: wp_fail)
  have "0 < nat z \<and> nat z < 2 ^ 32 \<and> 8 dvd nat z" if "0 < z" "z < 2 ^ 32" "8 dvd z" for z :: int
    using that by (auto simp: nat_mult_distrib elim!: dvdE)
  with diff diff[of 512 "replicate 512 0"] show ?thesis
    unfolding buffers_def Let_def
    by (auto simp: copy_world_simps intro!: wp_raw_verbose wp_Sys)
qed

lemma wp_open_output:
  assumes "wp (copy_world hi ho) (copy_result len X E) w (k ho)" "outf w = E" "f \<noteq> []"
  shows "wp (copy_world hi ho) (copy_result len X E) w (open_output opt h [f] k)"
proof -
  have failed: "wp (copy_world hi ho) (copy_result len X E) w
      (Sys (Perror f) (\<lambda>_. verbose opt (Fputs ''Error opening output file.'') (Done (- 1))))"
    using assms(2) by (auto simp: copy_world_simps copy_result_def intro!: wp_Sys wp_raw_verbose)
  then show ?thesis
    using assms by (auto simp: open_output_def copy_world_simps)
qed

lemma wp_open_files:
  assumes h: "hi \<noteq> ho" "hi \<noteq> invalid_handle" and "0 \<le> len" "0 \<le> skip" and opt: "copy_options opt"
    and w: "outf w = E" "opos w = 0" "ipos w = 0" "length (inp w) < fuel" and f: "fin \<noteq> []" "fout \<noteq> []"
  shows "wp (copy_world hi ho) (copy_result len (drop (nat skip) (inp w)) E) w (open_files fuel opt skip len [fin, fout])"
proof -
  let ?Q = "copy_result len (drop (nat skip) (inp w)) E"
  have opened: "wp (copy_world hi ho) ?Q v
      (extended_io opt hi (volume_size opt hi (\<lambda>disk. buffers opt (\<lambda>n m. open_output opt hi [fout] (\<lambda>ho.
        start_copy fuel \<lparr>hIn = hi, hOut = ho, bufsiz = n, skipforward = skip, copylength = len,
          disk_size = disk, existing_out_file_size = 0, options = opt\<rparr> m)))))"
    if v: "v = w\<lparr>ipos := nat skip\<rparr>" for v
  proof -
    have "wp (copy_world hi ho) ?Q v (buffers opt (\<lambda>n m. open_output opt hi [fout] (\<lambda>ho.
        start_copy fuel \<lparr>hIn = hi, hOut = ho, bufsiz = n, skipforward = skip, copylength = len,
          disk_size = disk, existing_out_file_size = 0, options = opt\<rparr> m)))" for disk
      using h w opt f v \<open>0 \<le> len\<close> by (intro wp_buffers wp_open_output wp_start_copy) auto
    then show ?thesis
      using opt by (simp add: extended_io_def volume_size_def copy_options_def copy_world_simps)
  qed
  have seek: "copy_world hi ho w (SetFilePointer hi skip) r w' \<longleftrightarrow> num r = skip \<and> err r = 0 \<and> w' = w\<lparr>ipos := nat skip\<rparr>" for r w'
    using copy_world_simps(4)[of hi ho w "nat skip" r w'] w(3) \<open>0 \<le> skip\<close> by simp
  have here: "w = w\<lparr>ipos := nat skip\<rparr>" if "skip = 0" using that w(3) by (cases w) simp
  have failed: "wp (copy_world hi ho) ?Q w
      (Sys (Perror fin) (\<lambda>_. verbose opt (Fputs ''Error opening input file.'') (Done (- 1))))"
    using w(1) by (auto simp: copy_world_simps copy_result_def intro!: wp_Sys wp_raw_verbose)
  show ?thesis
    using opened opened[OF here] failed h f
    by (simp add: open_files_def copy_world_simps(19) seek Let_def)
qed



section \<open>Where the code differs from its description\<close>

text \<open>
  The usage says that a write failure can be skipped over. What is skipped counts as nothing
  written, and that ends the copy; the next turn is never reached.
\<close>

lemma ignored_write_ends:
  assumes "bIgnoreErrors (options j)" "retrycount (options j) = 0"
    and "\<And>w h bs r w'. T w (WriteFile h bs) r w' \<Longrightarrow> rv r = 0 \<and> num r = 0 \<and> \<not> end_of_pipe (err r)"
  shows "wp T (\<lambda>_ _. True) w (put_block (Suc fuel) j n s (\<lambda>_. Crash) (\<lambda>_. Done 0))"
  using assms(1,2)
  by (auto simp: put_block_def verbose_def ask_def ignore_message_def fail_def Let_def IDIGNORE_def IDRETRY_def IDABORT_def
      dest!: assms(3))

text \<open>
  A suffix behind \<open>-o:\<close> is read through a pointer that is not one. The usage offers \<open>-f\<close>
  without a count, but that shows the help. A buffer whose size is not a multiple of eight is
  read beyond its end by the search for data.
\<close>

lemma offset_suffix: "scan_i64 w = Some (n, c # t) \<Longrightarrow> raw_letters (CHR ''o'' # CHR '':'' # w) opt k = Crash"
  by (simp add: has_value_def)

lemma plain_f_is_help: "raw_letters ''f'' opt k = k (opt\<lparr>bDisplayHelp := True\<rparr>)"
  by (simp add: has_value_def)

lemma odd_buffer: "zero_words (replicate 5 0) 5 = None"
  by code_simp

end
