(* ===== verification/PopDump.thy ===== *)
theory PopDump
  imports SockHelp
begin

text \<open>
  \<open>posix/popdump.cpp\<close>: fetches the mail of a POP server, saves each message in a file and
  deletes it on the server. It is a client of the functions in \<open>SockHelp\<close>.
\<close>

section \<open>The buffer\<close>

text \<open>
  All texts pass through one buffer, whose old content stays behind a shorter text. A string
  ends with its first zero.
\<close>

definition MAX_LINE :: nat where "MAX_LINE = 32768"

definition cstr :: "byte list \<Rightarrow> byte list" where
  "cstr m = takeWhile (\<lambda>b. b \<noteq> 0) m"

definition text_of_bytes :: "byte list \<Rightarrow> string" where
  "text_of_bytes b = map (\<lambda>x. char_of (unat x)) b"

definition sprintf :: "byte list \<Rightarrow> string \<Rightarrow> byte list" where
  "sprintf m t = poke m 0 (ascii t @ [0])"

definition recv_line :: "nat \<Rightarrow> int \<Rightarrow> nat \<Rightarrow> byte list \<Rightarrow> (nat \<Rightarrow> byte list \<Rightarrow> io_prog) \<Rightarrow> io_prog" where
  "recv_line io h room m k = LineRecv io h (of_nat room) (\<lambda>got. k (length got) (poke m 0 (got @ [0])))"

definition puts :: "byte list \<Rightarrow> io_prog \<Rightarrow> io_prog" where
  "puts m k = Sys (Cout (text_of_bytes (cstr m)) []) (\<lambda>_. k)"

text \<open>\<open>strtok\<close> with a blank: where the token begins, where the next search does, and the memory.\<close>

definition strtok :: "byte list \<Rightarrow> nat \<Rightarrow> (nat \<times> nat \<times> byte list) option" where
  "strtok m p =
    (let s = p + length (takeWhile (\<lambda>b. b = 32) (drop p m));
         e = s + length (takeWhile (\<lambda>b. b \<noteq> 32 \<and> b \<noteq> 0) (drop s m))
     in if m ! s = 0 then None else if m ! e = 0 then Some (s, e, m) else Some (s, Suc e, m[e := 0]))"

definition number_at :: "byte list \<Rightarrow> nat \<Rightarrow> DWORD" where
  "number_at m p = fst (strtoul (text_of_bytes (cstr (drop p m))) 10)"

section \<open>The dialogue\<close>

text \<open>Commands are sent in parts; \<open>io\<close> is the fuel of the helpers.\<close>

primrec send_parts :: "nat \<Rightarrow> int \<Rightarrow> string list \<Rightarrow> io_prog \<Rightarrow> io_prog" where
  "send_parts io h [] k = k"
| "send_parts io h (t # ts) k = StrSend io h (ascii t) (\<lambda>good. if good then send_parts io h ts k else Done 1)"

definition crlf :: string where "crlf = [char_of (13 :: nat), char_of (10 :: nat)]"

primrec await_plus :: "nat \<Rightarrow> nat \<Rightarrow> int \<Rightarrow> byte list \<Rightarrow> (byte list \<Rightarrow> io_prog) \<Rightarrow> io_prog" where
  "await_plus 0 io h m k = OutOfFuel"
| "await_plus (Suc fuel) io h m k =
    recv_line io h MAX_LINE m (\<lambda>n m.
      if n = 0 then Done 1
      else
        puts m
          (if m ! 0 = 45 then Done 1
           else if m ! 0 \<noteq> 43 then await_plus fuel io h m k
           else k m))"

text \<open>
  The lines of a message, up to a single dot. \<open>WriteFile\<close> is a macro for \<open>write\<close> here, whose
  failure is \<open>-1\<close>; what is tested for is zero.
\<close>

primrec save_lines :: "nat \<Rightarrow> nat \<Rightarrow> int \<Rightarrow> int \<Rightarrow> byte list \<Rightarrow> (byte list \<Rightarrow> io_prog) \<Rightarrow> io_prog" where
  "save_lines 0 io h hFile m k = OutOfFuel"
| "save_lines (Suc fuel) io h hFile m k =
    recv_line io h (MAX_LINE - 3) m (\<lambda>dwLineLength m.
      if m ! 0 = 46 \<and> m ! 1 = 0 then k m
      else
        let m = poke m (length (cstr m)) [13, 10, 0] in
        Sys (Write hFile (take (dwLineLength + 2) m)) (\<lambda>r.
          if rv r = 0 then Sys (Perror []) (\<lambda>_. Done 1)
          else Sys (Sleep 0) (\<lambda>_. save_lines fuel io h hFile m k)))"

definition mail_name :: "string \<Rightarrow> string \<Rightarrow> DWORD \<Rightarrow> string" where
  "mail_name server user i = user @ ''@'' @ server @ ''['' @ dec_nat (unat i) @ ''].eml''"

definition quit :: "nat \<Rightarrow> int \<Rightarrow> byte list \<Rightarrow> io_prog" where
  "quit io h m =
    StrSend io h (ascii (''QUIT'' @ crlf)) (\<lambda>_. recv_line io h MAX_LINE m (\<lambda>_ m. puts m (Done 0)))"

text \<open>A command with the number of a message; the answers to sending it are not looked at.\<close>

definition ask_for :: "nat \<Rightarrow> int \<Rightarrow> string \<Rightarrow> DWORD \<Rightarrow> byte list \<Rightarrow> (byte list \<Rightarrow> io_prog) \<Rightarrow> io_prog" where
  "ask_for io h command i m k =
    (let m = sprintf m (command @ '' '' @ dec_nat (unat i) @ crlf) in
     StrSend io h (cstr m) (\<lambda>_. recv_line io h MAX_LINE m (\<lambda>_ m. puts m (k m))))"

primrec mail_loop :: "nat \<Rightarrow> nat \<Rightarrow> int \<Rightarrow> string \<Rightarrow> string \<Rightarrow> DWORD \<Rightarrow> DWORD \<Rightarrow> byte list \<Rightarrow> io_prog" where
  "mail_loop 0 io h server user dwNumMail i m = OutOfFuel"
| "mail_loop (Suc fuel) io h server user dwNumMail i m =
    (if i \<le> dwNumMail then
       Sys (Cout ''Receiving mail %u...'' [I (uint i)]) (\<lambda>_.
       ask_for io h ''RETR'' i m (\<lambda>m.
         if m ! 0 \<noteq> 43 then quit io h m
         else
           let m = sprintf m (mail_name server user i) in
           Sys (Cout ''Saving file %s...'' [S (mail_name server user i)]) (\<lambda>_.
           Sys (Create (mail_name server user i)) (\<lambda>f.
             if rv f = - 1 then Sys (Perror (mail_name server user i)) (\<lambda>_. quit io h m)
             else
               save_lines fuel io h (rv f) m (\<lambda>m.
                 Sys (Close (rv f)) (\<lambda>_.
                 Sys (Cout ''Deleting mail on POP server...'' []) (\<lambda>_.
                 ask_for io h ''DELE'' i m (\<lambda>m.
                   if m ! 0 \<noteq> 43 then quit io h m
                   else Sys (Sleep 0) (\<lambda>_. mail_loop fuel io h server user dwNumMail (i + 1) m)))))))))
     else quit io h m)"

definition fetch :: "nat \<Rightarrow> nat \<Rightarrow> int \<Rightarrow> string \<Rightarrow> string \<Rightarrow> byte list \<Rightarrow> io_prog" where
  "fetch fuel io h server user m =
    send_parts io h [''STAT'' @ crlf]
      (recv_line io h MAX_LINE m (\<lambda>n m.
        if n = 0 then Done 1
        else
          puts m
            (if m ! 0 = 45 then Done 1
             else
               (case strtok m 0 of
                  None \<Rightarrow> Done 1
                | Some (_, p, m) \<Rightarrow>
                    (case strtok m p of
                       None \<Rightarrow> Done 1
                     | Some (szNumMail, p, m) \<Rightarrow>
                         let dwNumMail = number_at m szNumMail in
                         if dwNumMail = 0 then Sys (Cout ''No mail.'' []) (\<lambda>_. Done 0)
                         else
                           (case strtok m p of
                              None \<Rightarrow> Done 1
                            | Some (szBytes, p, m) \<Rightarrow>
                                Sys (Cout ''Found %u mail, %u bytes total.''
                                  [I (uint dwNumMail), I (uint (number_at m szBytes))]) (\<lambda>_.
                                mail_loop fuel io h server user dwNumMail 1 m)))))))"

definition log_on :: "nat \<Rightarrow> nat \<Rightarrow> int \<Rightarrow> string \<Rightarrow> string \<Rightarrow> string \<Rightarrow> io_prog" where
  "log_on fuel io h server user password =
    recv_line io h MAX_LINE (replicate MAX_LINE 0) (\<lambda>_ m.
      puts m
        (if m ! 0 \<noteq> 43 then Sys (Cerr ''Unknown response from server.'') (\<lambda>_. Done 1)
         else
           Sys (Cout ''Sending POP user name...'' []) (\<lambda>_.
           send_parts io h [''USER '', user, crlf]
             (await_plus fuel io h m (\<lambda>m.
               Sys (Cout ''Sending POP password...'' []) (\<lambda>_.
               send_parts io h [''PASS '', password, crlf]
                 (await_plus fuel io h m (fetch fuel io h server user))))))))"

definition popdump_main :: "nat \<Rightarrow> nat \<Rightarrow> string list \<Rightarrow> io_prog" where
  "popdump_main fuel io args =
    Sys (Cout ''POPDUMP, by Olof Lagerkvist.'' []) (\<lambda>_.
    Sys (Cout ''Compile date: %s'' []) (\<lambda>_.
      (case args of
         [server, user, password] \<Rightarrow>
           if length server + length user + 100 > MAX_LINE then
             Sys (Cerr ''Too long server name or user name.'') (\<lambda>_. Done (- 1))
           else
             Sys (Cout ''Connecting to POP server %s...'' [S server]) (\<lambda>_.
               embed (\<lambda>c. c) (\<lambda>r. r) (ConnectTCP (Some server) (Some ''pop3'')) (\<lambda>h.
                 if h = - 1 then Sys (Perror []) (\<lambda>_. Done 1)
                 else Sys (Cout ''Connected to POP server.'' []) (\<lambda>_. log_on fuel io h server user password)))
       | _ \<Rightarrow> Sys (Cout ''Utility to receive messages from a POP server'' []) (\<lambda>_. Done 0))))"

section \<open>A server and a directory\<close>

text \<open>
  What the server has still to say, and the files that were made, the newest last. It says
  its lines whatever it is sent, in pieces of any size, and files take all that is written.
\<close>

record mailbox =
  to_come :: "byte list"
  saved :: "(string \<times> byte list) list"

definition add_to_last :: "byte list \<Rightarrow> (string \<times> byte list) list \<Rightarrow> (string \<times> byte list) list" where
  "add_to_last bs fs = (if fs = [] then [] else butlast fs @ [(fst (last fs), snd (last fs) @ bs)])"

definition pop_world :: "int \<Rightarrow> int \<Rightarrow> (mailbox, io_call, reply) world" where
  "pop_world sock hf w c r w' \<longleftrightarrow>
    (case c of
       Read h n \<Rightarrow>
         rv r = int (length (out r)) \<and> length (out r) \<le> n \<and> (out r = [] \<longrightarrow> n = 0 \<or> to_come w = []) \<and>
         out r @ to_come w' = to_come w \<and> w' = w\<lparr>to_come := to_come w'\<rparr>
     | Write h bs \<Rightarrow>
         if h = hf then rv r = int (length bs) \<and> w' = w\<lparr>saved := add_to_last bs (saved w)\<rparr>
         else 0 < rv r \<and> rv r \<le> int (length bs) \<and> w' = w
     | Create f \<Rightarrow> rv r = hf \<and> w' = w\<lparr>saved := saved w @ [(f, [])]\<rparr>
     | Socket \<Rightarrow> rv r \<in> {sock, - 1} \<and> w' = w
     | _ \<Rightarrow> w' = w)"

lemma pop_world_simps:
  "h \<noteq> hf \<Longrightarrow> pop_world sock hf w (Write h bs) r w' \<longleftrightarrow> 0 < rv r \<and> rv r \<le> int (length bs) \<and> w' = w"
  "pop_world sock hf w (Write hf bs) r w' \<longleftrightarrow> rv r = int (length bs) \<and> w' = w\<lparr>saved := add_to_last bs (saved w)\<rparr>"
  "pop_world sock hf w (Create f) r w' \<longleftrightarrow> rv r = hf \<and> w' = w\<lparr>saved := saved w @ [(f, [])]\<rparr>"
  "pop_world sock hf w Socket r w' \<longleftrightarrow> rv r \<in> {sock, - 1} \<and> w' = w"
  "pop_world sock hf w (Cout t xs) r w' \<longleftrightarrow> w' = w" "pop_world sock hf w (Cerr t) r w' \<longleftrightarrow> w' = w"
  "pop_world sock hf w (Perror t) r w' \<longleftrightarrow> w' = w" "pop_world sock hf w (Sleep n) r w' \<longleftrightarrow> w' = w"
  "pop_world sock hf w (Close h) r w' \<longleftrightarrow> w' = w" "pop_world sock hf w (Connect h a p) r w' \<longleftrightarrow> w' = w"
  "pop_world sock hf w (InetAddr s) r w' \<longleftrightarrow> w' = w" "pop_world sock hf w (GetHostByName s) r w' \<longleftrightarrow> w' = w"
  "pop_world sock hf w (GetServByName s) r w' \<longleftrightarrow> w' = w"
  by (simp_all add: pop_world_def)

lemma pop_world_read:
  "to_come w = x # xs \<Longrightarrow> pop_world sock hf w (Read h 1) r w' \<longleftrightarrow> rv r = 1 \<and> out r = [x] \<and> w' = w\<lparr>to_come := xs\<rparr>"
  by (cases "out r") (auto simp: pop_world_def Suc_le_eq)

lemmas pop_world_char = pop_world_read[unfolded One_nat_def]

section \<open>Lines and commands\<close>

definition pop_line :: "byte list \<Rightarrow> byte list" where
  "pop_line l = l @ [13, 10]"

definition plain_line :: "byte list \<Rightarrow> bool" where
  "plain_line l \<longleftrightarrow> set l \<inter> {0, 10, 13} = {}"

lemma room_words:
  assumes "2 \<le> room" "room < 2 ^ 32"
  shows "unat (of_nat room :: DWORD) = room" "unat (of_nat room - 2 :: DWORD) = room - 2"
proof -
  show n: "unat (of_nat room :: DWORD) = room" using assms by (simp add: unsigned_of_nat take_bit_nat_eq_self)
  then have "2 \<le> (of_nat room :: DWORD)" using assms by (simp add: word_le_nat_alt)
  then show "unat (of_nat room - 2 :: DWORD) = room - 2" by (simp add: unat_sub n)
qed

lemma wp_line_loop:
  assumes "2 \<le> room" "room < 2 ^ 32"
  shows "length l + 2 < fuel \<Longrightarrow> set l \<inter> {10, 13} = {} \<Longrightarrow> length got + length l + 2 < room \<Longrightarrow>
    to_come w = pop_line l @ rest \<Longrightarrow> wpx (pop_world sock hf) Q E (w\<lparr>to_come := rest\<rparr>) (k (got @ l)) \<Longrightarrow>
    wpx (pop_world sock hf) Q E w (line_loop fuel h (of_nat room) got k)"
proof (induction l arbitrary: fuel got w)
  case Nil
  note n = room_words[OF assms]
  obtain f where f: "fuel = Suc (Suc f)" using Nil(1) by (cases fuel; cases "fuel - 1") auto
  have "\<not> room \<le> length got" "length got < room - 2" using Nil by simp_all
  then show ?case
    using Nil(4,5) f n by (simp add: pop_line_def pop_world_char)
next
  case (Cons x l)
  note n = room_words[OF assms]
  obtain f where f: "fuel = Suc f" using Cons.prems(1) by (cases fuel) auto
  have "\<not> room \<le> length got" "length got < room - 2" using Cons.prems(3) by simp_all
  moreover have "wpx (pop_world sock hf) Q E (w\<lparr>to_come := pop_line l @ rest\<rparr>) (line_loop f h (of_nat room) (got @ [x]) k)"
    by (rule Cons.IH) (use Cons.prems f in auto)
  ultimately show ?case
    using Cons.prems f n by (simp add: pop_line_def pop_world_char)
qed

lemma wp_recv_line:
  assumes "to_come w = pop_line l @ rest" "plain_line l" "length l + 2 < room" "room < 2 ^ 32" "length l + 2 < io"
    and "wpx (pop_world sock hf) Q E (w\<lparr>to_come := rest\<rparr>) (k (length l) (poke m 0 (l @ [0])))"
  shows "wpx (pop_world sock hf) Q E w (recv_line io h room m k)"
  unfolding recv_line_def LineRecv_def
  by (rule wp_line_loop) (use assms in \<open>auto simp: plain_line_def\<close>)

lemma wp_send_loop:
  assumes "h \<noteq> hf"
  shows "length bs < fuel \<Longrightarrow> wpx (pop_world sock hf) Q E w (k True) \<Longrightarrow>
    wpx (pop_world sock hf) Q E w (send_loop fuel h bs k)"
proof (induction fuel arbitrary: bs)
  case (Suc fuel)
  have "length (drop (nat n) bs) < fuel" if "0 < n" "bs \<noteq> []" for n
    using that Suc.prems(1) by (cases bs) auto
  with Suc assms show ?case by (auto simp: pop_world_simps)
qed simp

lemma wp_StrSend:
  assumes "h \<noteq> hf" "length bs < fuel" "wpx (pop_world sock hf) Q E w (k True)"
  shows "wpx (pop_world sock hf) Q E w (StrSend fuel h bs k)"
  unfolding StrSend_def BufSend_def
  using assms by (intro wp_send_loop) (auto intro: le_less_trans[OF length_takeWhile_le])

lemma wp_send_parts:
  assumes "h \<noteq> hf"
  shows "\<forall>t \<in> set ts. length t < io \<Longrightarrow> wpx (pop_world sock hf) Q E w k \<Longrightarrow>
    wpx (pop_world sock hf) Q E w (send_parts io h ts k)"
  by (induction ts) (auto intro!: wp_StrSend assms simp: ascii_def)

text \<open>What the buffer tells of a line.\<close>

lemma poke_line [simp]:
  "l \<noteq> [] \<Longrightarrow> poke m 0 (l @ [0]) ! 0 = l ! 0" "poke m 0 (l @ [0]) ! length l = 0"
  by (simp_all add: poke_def nth_append)

lemma cstr_line: "0 \<notin> set l \<Longrightarrow> cstr (l @ 0 # r) = l"
  unfolding cstr_def by (subst takeWhile_append2) auto

lemma cstr_poke: "plain_line l \<Longrightarrow> cstr (poke m 0 (l @ [0])) = l"
  by (simp add: poke_def plain_line_def cstr_line)

section \<open>The parts of a session\<close>

text \<open>Lines for which there is room in every call.\<close>

definition line_ok :: "byte list \<Rightarrow> bool" where
  "line_ok l \<longleftrightarrow> plain_line l \<and> length l + 2 < MAX_LINE - 3"

definition good_answer :: "byte list \<Rightarrow> bool" where
  "good_answer l \<longleftrightarrow> line_ok l \<and> l \<noteq> [] \<and> l ! 0 = 43"

lemma wp_receive:
  assumes "to_come w = pop_line l @ rest" "line_ok l" "MAX_LINE \<le> io" "room \<in> {MAX_LINE, MAX_LINE - 3}"
    and "wpx (pop_world sock hf) Q E (w\<lparr>to_come := rest\<rparr>) (k (length l) (poke m 0 (l @ [0])))"
  shows "wpx (pop_world sock hf) Q E w (recv_line io h room m k)"
  by (rule wp_recv_line) (use assms in \<open>auto simp: line_ok_def MAX_LINE_def\<close>)

lemma wp_puts [simp]: "wpx (pop_world sock hf) Q E w (puts m k) \<longleftrightarrow> wpx (pop_world sock hf) Q E w k"
  by (simp add: puts_def pop_world_simps)

lemma wp_await_plus:
  assumes "to_come w = pop_line l @ rest" "good_answer l" "MAX_LINE \<le> io" "0 < fuel"
    and "\<And>m. wpx (pop_world sock hf) Q E (w\<lparr>to_come := rest\<rparr>) (k m)"
  shows "wpx (pop_world sock hf) Q E w (await_plus fuel io h m k)"
proof -
  obtain f where f: "fuel = Suc f" using assms(4) by (cases fuel) auto
  show ?thesis
    unfolding f await_plus.simps
    by (rule wp_receive[OF assms(1)]) (use assms in \<open>auto simp: good_answer_def\<close>)
qed

lemma length_number [simp]: "length (dec_nat (unat (i :: DWORD))) \<le> 10"
proof (rule length_dec_nat)
  have "unat i < 2 ^ LENGTH(32)" by (rule unsigned_less)
  then show "unat i < 10 ^ 10" by simp
qed simp

lemma length_cstr: "length (cstr (sprintf m t)) \<le> length t"
proof -
  have "takeWhile (\<lambda>b. b \<noteq> 0) (b @ 0 # r) = takeWhile (\<lambda>b. b \<noteq> 0) b" for b r :: "byte list"
    by (induction b) auto
  then have "cstr (sprintf m t) = takeWhile (\<lambda>b. b \<noteq> 0) (ascii t)"
    unfolding cstr_def sprintf_def poke_def by simp
  then show ?thesis using length_takeWhile_le[of "\<lambda>b. b \<noteq> 0" "ascii t"] by (simp add: ascii_def)
qed

lemma wp_ask_for:
  assumes "h \<noteq> hf" "to_come w = pop_line l @ rest" "line_ok l" "l \<noteq> []" "MAX_LINE \<le> io" "length command = 4"
    and "\<And>m. m ! 0 = l ! 0 \<Longrightarrow> wpx (pop_world sock hf) Q E (w\<lparr>to_come := rest\<rparr>) (k m)"
  shows "wpx (pop_world sock hf) Q E w (ask_for io h command i m k)"
proof -
  let ?t = "command @ '' '' @ dec_nat (unat i) @ crlf"
  have "length ?t \<le> 17" using length_number[of i] assms(6) by (simp add: crlf_def)
  then have "length (cstr (sprintf m ?t)) < io"
    using length_cstr[of m ?t] assms(5) by (simp only: MAX_LINE_def)
  moreover have "wpx (pop_world sock hf) Q E w (recv_line io h MAX_LINE (sprintf m ?t) (\<lambda>_ m. puts m (k m)))"
    by (rule wp_receive[OF assms(2)]) (use assms in auto)
  ultimately show ?thesis
    unfolding ask_for_def Let_def by (intro wp_StrSend assms(1))
qed

lemma add_to_last_snoc [simp]: "add_to_last b (fs @ [(f, a)]) = fs @ [(f, a @ b)]"
  by (simp add: add_to_last_def)

lemma wp_save_lines:
  assumes "h \<noteq> hf" "MAX_LINE \<le> io"
  shows "length ls < fuel \<Longrightarrow> \<forall>l \<in> set ls. line_ok l \<and> l \<noteq> [46] \<Longrightarrow>
    to_come w = concat (map pop_line ls) @ pop_line [46] @ rest \<Longrightarrow> saved w = fs @ [(f, a)] \<Longrightarrow>
    (\<And>m. wpx (pop_world sock hf) Q E \<lparr>to_come = rest, saved = fs @ [(f, a @ concat (map pop_line ls))]\<rparr> (k m)) \<Longrightarrow>
    wpx (pop_world sock hf) Q E w (save_lines fuel io h hf m k)"
proof (induction ls arbitrary: fuel w a m)
  case Nil
  obtain n where n: "fuel = Suc n" using Nil(1) by (cases fuel) auto
  have "w\<lparr>to_come := rest\<rparr> = \<lparr>to_come = rest, saved = fs @ [(f, a)]\<rparr>" using Nil(4) by (cases w) simp
  moreover have "poke m 0 ([46] @ [0]) ! 0 = 46" "poke m 0 ([46] @ [0]) ! 1 = 0" by (simp_all add: poke_def)
  ultimately show ?case
    unfolding n save_lines.simps
    using Nil(3,5) assms by (intro wp_receive[where l = "[46]"]) (auto simp: line_ok_def plain_line_def MAX_LINE_def)
next
  case (Cons l ls)
  obtain n where n: "fuel = Suc n" using Cons.prems(1) by (cases fuel) auto
  let ?m = "poke m 0 (l @ [0])" and ?rest = "concat (map pop_line ls) @ pop_line [46] @ rest"
  have l: "line_ok l" "plain_line l" "l \<noteq> [46]" using Cons.prems(2) by (simp_all add: line_ok_def)
  have dot: "\<not> (?m ! 0 = 46 \<and> ?m ! 1 = 0)"
  proof
    assume m: "?m ! 0 = 46 \<and> ?m ! 1 = 0"
    show False
    proof (cases l)
      case Nil
      with m show ?thesis by (simp add: poke_def)
    next
      case (Cons x xs)
      with m have x: "x = 46" by (simp add: poke_def)
      show ?thesis
      proof (cases xs)
        case Nil
        with x Cons l(3) show ?thesis by simp
      next
        case (Cons y ys)
        with m \<open>l = x # xs\<close> have "y = 0" by (simp add: poke_def)
        with l(2) Cons \<open>l = x # xs\<close> show ?thesis by (simp add: plain_line_def)
      qed
    qed
  qed
  have bytes: "take (length l + 2) (poke ?m (length (cstr ?m)) [13, 10, 0]) = pop_line l"
    unfolding cstr_poke[OF l(2)] by (simp add: poke_def pop_line_def)
  have next': "wpx (pop_world sock hf) Q E \<lparr>to_come = ?rest, saved = fs @ [(f, a @ pop_line l)]\<rparr> (save_lines n io h hf m' k)" for m'
    by (rule Cons.IH) (use Cons.prems n in auto)
  show ?case
    unfolding n save_lines.simps
  proof (rule wp_receive[where l = l and rest = ?rest])
    show "wpx (pop_world sock hf) Q E (w\<lparr>to_come := ?rest\<rparr>)
       (if ?m ! 0 = 46 \<and> ?m ! 1 = 0 then k ?m
        else let m = poke ?m (length (cstr ?m)) [13, 10, 0] in
          Sys (Write hf (take (length l + 2) m)) (\<lambda>r.
            if rv r = 0 then Sys (Perror []) (\<lambda>_. Done 1) else Sys (Sleep 0) (\<lambda>_. save_lines n io h hf m k)))"
      using dot bytes next' Cons.prems(4) by (cases w) (auto simp: pop_world_simps Let_def pop_line_def)
  qed (use Cons.prems l assms in auto)
qed

section \<open>A session\<close>

text \<open>A message with the answers to its two commands.\<close>

type_synonym mail = "byte list \<times> byte list list \<times> byte list"

fun mail_bytes :: "mail \<Rightarrow> byte list" where
  "mail_bytes (r, ls, d) = pop_line r @ concat (map pop_line ls) @ pop_line [46] @ pop_line d"

fun mail_ok :: "mail \<Rightarrow> bool" where
  "mail_ok (r, ls, d) \<longleftrightarrow> good_answer r \<and> good_answer d \<and> (\<forall>l \<in> set ls. line_ok l \<and> l \<noteq> [46])"

fun turns :: "mail \<Rightarrow> nat" where
  "turns (r, ls, d) = Suc (length ls)"

text \<open>The files of the messages, from number \<open>i\<close> on.\<close>

fun mail_files :: "string \<Rightarrow> string \<Rightarrow> DWORD \<Rightarrow> mail list \<Rightarrow> (string \<times> byte list) list" where
  "mail_files server user i [] = []"
| "mail_files server user i ((r, ls, d) # ms) =
    (mail_name server user i, concat (map pop_line ls)) # mail_files server user (i + 1) ms"

lemma wp_quit:
  assumes "h \<noteq> hf" "to_come w = pop_line q @ rest" "line_ok q" "MAX_LINE \<le> io"
    and "wpx (pop_world sock hf) Q E (w\<lparr>to_come := rest\<rparr>) (Done 0)"
  shows "wpx (pop_world sock hf) Q E w (quit io h m)"
proof -
  have "wpx (pop_world sock hf) Q E w (recv_line io h MAX_LINE m (\<lambda>_ m. puts m (Done 0)))"
    by (rule wp_receive[OF assms(2)]) (use assms in auto)
  then show ?thesis
    unfolding quit_def using assms(4) by (intro wp_StrSend assms(1)) (simp_all add: ascii_def crlf_def MAX_LINE_def)
qed

lemma wp_mail_loop:
  assumes h: "h \<noteq> hf" "hf \<noteq> - 1" "MAX_LINE \<le> io" and N: "unat N < 2 ^ 32 - 1" and q: "line_ok q"
  shows "\<forall>x \<in> set ms. mail_ok x \<Longrightarrow> unat i + length ms = Suc (unat N) \<Longrightarrow> sum_list (map turns ms) < fuel \<Longrightarrow>
    to_come w = concat (map mail_bytes ms) @ pop_line q @ rest \<Longrightarrow>
    (\<And>w'. saved w' = saved w @ mail_files server user i ms \<Longrightarrow> Q w' 0) \<Longrightarrow>
    wpx (pop_world sock hf) Q E w (mail_loop fuel io h server user N i m)"
proof (induction ms arbitrary: i fuel w m)
  case Nil
  obtain n where n: "fuel = Suc n" using Nil(3) by (cases fuel) auto
  have "\<not> i \<le> N" using Nil(2) by (simp add: word_le_nat_alt)
  moreover have "wpx (pop_world sock hf) Q E w (quit io h m)"
    by (rule wp_quit[OF h(1)]) (use Nil h q in auto)
  ultimately show ?case by (simp add: n)
next
  case (Cons x ms)
  obtain r ls d where x: "x = (r, ls, d)" by (cases x) auto
  obtain n where n: "fuel = Suc n" using Cons.prems(3) by (cases fuel) auto
  have ok: "line_ok r" "r \<noteq> []" "r ! 0 = 43" "line_ok d" "d \<noteq> []" "d ! 0 = 43" "\<forall>l \<in> set ls. line_ok l \<and> l \<noteq> [46]"
    using Cons.prems(1) by (auto simp: x good_answer_def)
  let ?rest = "concat (map mail_bytes ms) @ pop_line q @ rest"
  let ?mail = "concat (map pop_line ls) @ pop_line [46] @ pop_line d @ ?rest"
  let ?file = "saved w @ [(mail_name server user i, concat (map pop_line ls))]"
  have i: "i \<le> N" "unat (i + 1) = Suc (unat i)"
    using Cons.prems(2) N by (simp_all add: word_le_nat_alt unat_word_ariths)
  have again: "wpx (pop_world sock hf) Q E \<lparr>to_come = ?rest, saved = ?file\<rparr> (mail_loop n io h server user N (i + 1) m')" for m'
    by (rule Cons.IH) (use Cons.prems i n x in auto)
  have deleted: "wpx (pop_world sock hf) Q E \<lparr>to_come = pop_line d @ ?rest, saved = ?file\<rparr>
      (ask_for io h ''DELE'' i m' (\<lambda>m. if m ! 0 \<noteq> 43 then quit io h m
        else Sys (Sleep 0) (\<lambda>_. mail_loop n io h server user N (i + 1) m)))" for m'
    by (rule wp_ask_for[OF h(1) _ ok(4,5)]) (use again h ok in \<open>auto simp: pop_world_simps\<close>)
  have lines: "wpx (pop_world sock hf) Q E \<lparr>to_come = ?mail, saved = saved w @ [(mail_name server user i, [])]\<rparr>
      (save_lines n io h hf m' (\<lambda>m. Sys (Close hf) (\<lambda>_. Sys (Cout ''Deleting mail on POP server...'' []) (\<lambda>_.
        ask_for io h ''DELE'' i m (\<lambda>m. if m ! 0 \<noteq> 43 then quit io h m
          else Sys (Sleep 0) (\<lambda>_. mail_loop n io h server user N (i + 1) m))))))" for m'
    by (rule wp_save_lines[OF h(1,3)]) (use Cons.prems(3) ok deleted n x in \<open>auto simp: pop_world_simps\<close>)
  have "wpx (pop_world sock hf) Q E w (ask_for io h ''RETR'' i m (\<lambda>m.
      if m ! 0 \<noteq> 43 then quit io h m
      else
        let m = sprintf m (mail_name server user i) in
        Sys (Cout ''Saving file %s...'' [S (mail_name server user i)]) (\<lambda>_.
        Sys (Create (mail_name server user i)) (\<lambda>f.
          if rv f = - 1 then Sys (Perror (mail_name server user i)) (\<lambda>_. quit io h m)
          else
            save_lines n io h (rv f) m (\<lambda>m.
              Sys (Close (rv f)) (\<lambda>_.
              Sys (Cout ''Deleting mail on POP server...'' []) (\<lambda>_.
              ask_for io h ''DELE'' i m (\<lambda>m.
                if m ! 0 \<noteq> 43 then quit io h m
                else Sys (Sleep 0) (\<lambda>_. mail_loop n io h server user N (i + 1) m)))))))))"
    by (rule wp_ask_for[OF h(1) _ ok(1,2)])
      (use Cons.prems(4) lines h ok x in \<open>cases w; simp add: pop_world_simps Let_def\<close>)+
  with i show ?case by (simp add: n pop_world_simps)
qed

section \<open>The answer to \<open>STAT\<close>\<close>

lemma strtok_blank:
  assumes "set t \<inter> {0, 32} = {}" "t \<noteq> []"
  shows "strtok (p @ t @ 32 # r) (length p) = Some (length p, Suc (length p + length t), p @ t @ 0 # r)"
proof -
  have "takeWhile (\<lambda>b. b = 32) (t @ 32 # r) = []" "t ! 0 \<noteq> 0" using assms by (cases t; auto)+
  moreover have "takeWhile (\<lambda>b. b \<noteq> 32 \<and> b \<noteq> 0) (t @ 32 # r) = t"
    using assms by (subst takeWhile_append2) auto
  ultimately show ?thesis using assms(2) by (simp add: strtok_def Let_def nth_append list_update_append)
qed

lemma strtok_end:
  assumes "set t \<inter> {0, 32} = {}" "t \<noteq> []"
  shows "strtok (p @ t @ 0 # r) (length p) = Some (length p, length p + length t, p @ t @ 0 # r)"
proof -
  have "takeWhile (\<lambda>b. b = 32) (t @ 0 # r) = []" "t ! 0 \<noteq> 0" using assms by (cases t; auto)+
  moreover have "takeWhile (\<lambda>b. b \<noteq> 32 \<and> b \<noteq> 0) (t @ 0 # r) = t"
    using assms by (subst takeWhile_append2) auto
  ultimately show ?thesis using assms(2) by (simp add: strtok_def Let_def nth_append)
qed

lemma unat_of_char_byte: "unat (of_char c :: byte) = of_char c"
proof -
  have "(of_char c :: nat) < 256" by (rule nat_of_char_less_256)
  then have "unat (of_nat (of_char c) :: byte) = of_char c" by (simp add: unsigned_of_nat take_bit_nat_eq_self)
  then show ?thesis by (simp only: of_nat_of_char)
qed

lemma text_of_ascii [simp]: "text_of_bytes (ascii t) = t"
proof -
  have "char_of (unat (of_char c :: byte)) = c" for c :: char
    by (simp add: unat_of_char_byte)
  then show ?thesis by (simp add: text_of_bytes_def ascii_def comp_def)
qed

text \<open>A number in decimal digits has none of the special bytes.\<close>

lemma digit_bytes: "set (ascii (dec_nat n)) \<inter> {0, 10, 13, 32} = {}" "ascii (dec_nat n) \<noteq> []"
proof -
  have "48 \<le> (of_char c :: byte) \<and> (of_char c :: byte) \<le> 57" if "c \<in> set (dec_nat n)" for c
    using dec_nat_digits[OF that] by (simp add: is_digit_10 c_isdigit_def code_def word_le_nat_alt unat_of_char_byte)
  then show "set (ascii (dec_nat n)) \<inter> {0, 10, 13, 32} = {}" by (fastforce simp: ascii_def)
qed (simp add: ascii_def)

lemma number_at_token:
  assumes "n \<le> ULONG_MAX"
  shows "number_at (p @ ascii (dec_nat n) @ 0 # r) (length p) = of_nat n"
proof -
  have "cstr (ascii (dec_nat n) @ 0 # r) = ascii (dec_nat n)" using digit_bytes[of n] by (intro cstr_line) auto
  with strtoul_dec_nat[OF assms, of "[]"] show ?thesis by (simp add: number_at_def)
qed

definition stat_line :: "nat \<Rightarrow> nat \<Rightarrow> byte list" where
  "stat_line k b = ascii ''+OK'' @ 32 # ascii (dec_nat k) @ 32 # ascii (dec_nat b)"

lemma wp_fetch:
  assumes h: "h \<noteq> hf" "hf \<noteq> - 1" "MAX_LINE \<le> io" and q: "line_ok q"
    and k: "0 < length ms" "length ms < 2 ^ 32 - 1" "b < 2 ^ 32" and ms: "\<forall>x \<in> set ms. mail_ok x"
    and fuel: "sum_list (map turns ms) < fuel"
    and w: "to_come w = pop_line (stat_line (length ms) b) @ concat (map mail_bytes ms) @ pop_line q @ rest"
    and Q: "\<And>w'. saved w' = saved w @ mail_files server user 1 ms \<Longrightarrow> Q w' 0"
  shows "wpx (pop_world sock hf) Q E w (fetch fuel io h server user m)"
proof -
  let ?k = "ascii (dec_nat (length ms))" and ?b = "ascii (dec_nat b)" and ?ok = "ascii ''+OK''"
  let ?rest = "concat (map mail_bytes ms) @ pop_line q @ rest"
  have len: "length (dec_nat (length ms)) \<le> 10" "length (dec_nat b) \<le> 10"
    using k by (auto intro!: length_dec_nat)
  note d = digit_bytes[of "length ms"] digit_bytes[of b]
  have ok: "set ?ok \<inter> {0, 10, 13, 32} = {}" "?ok \<noteq> []" "?ok = [43, 79, 75]" by (simp_all add: ascii_def)
  have line: "line_ok (stat_line (length ms) b)"
    using d ok len by (auto simp: line_ok_def plain_line_def stat_line_def MAX_LINE_def ascii_def)
  have N: "unat (of_nat (length ms) :: DWORD) = length ms"
    using k(2) by (simp add: unsigned_of_nat take_bit_nat_eq_self)
  obtain r where m: "poke m 0 (stat_line (length ms) b @ [0]) = ?ok @ 32 # ?k @ 32 # ?b @ 0 # r"
    by (simp add: poke_def stat_line_def)
  have l: "length ?ok = 3" "length (?ok @ [0]) = 4" "length (?ok @ 0 # ?k @ [0]) = 5 + length ?k" by (simp_all add: ascii_def)
  have t1: "strtok (?ok @ 32 # ?k @ 32 # ?b @ 0 # r) 0 = Some (0, 4, ?ok @ 0 # ?k @ 32 # ?b @ 0 # r)"
    using strtok_blank[of ?ok "[]" "?k @ 32 # ?b @ 0 # r"] ok(1,2) l(1) by auto
  have t2: "strtok (?ok @ 0 # ?k @ 32 # ?b @ 0 # r) 4 =
      Some (4, 5 + length ?k, ?ok @ 0 # ?k @ 0 # ?b @ 0 # r)"
    using strtok_blank[of ?k "?ok @ [0]" "?b @ 0 # r", unfolded l] d by auto
  have t3: "strtok (?ok @ 0 # ?k @ 0 # ?b @ 0 # r) (5 + length ?k) =
      Some (5 + length ?k, 5 + length ?k + length ?b, ?ok @ 0 # ?k @ 0 # ?b @ 0 # r)"
    using strtok_end[of ?b "?ok @ 0 # ?k @ [0]" r, unfolded l] d by auto
  have n: "number_at (?ok @ 0 # ?k @ 0 # ?b @ 0 # r) 4 = of_nat (length ms)"
    using number_at_token[of "length ms" "?ok @ [0]" "?b @ 0 # r", unfolded l] k(2) by (simp add: ULONG_MAX_def)
  have loop: "wpx (pop_world sock hf) Q E (w\<lparr>to_come := ?rest\<rparr>) (mail_loop fuel io h server user (of_nat (length ms)) 1 m')" for m'
    by (rule wp_mail_loop[OF h _ q ms]) (use N k fuel Q in auto)
  have nz: "(of_nat (length ms) :: DWORD) \<noteq> 0" using N k(1) by auto
  have first: "(?ok @ 32 # ?k @ 32 # ?b @ 0 # r) ! 0 \<noteq> 45" using ok by simp
  have ne: "stat_line (length ms) b \<noteq> []" by (simp add: stat_line_def)
  have "wpx (pop_world sock hf) Q E w
     (recv_line io h MAX_LINE m (\<lambda>n m.
        if n = 0 then Done 1
        else
          puts m
            (if m ! 0 = 45 then Done 1
             else
               (case strtok m 0 of
                  None \<Rightarrow> Done 1
                | Some (_, p, m) \<Rightarrow>
                    (case strtok m p of
                       None \<Rightarrow> Done 1
                     | Some (szNumMail, p, m) \<Rightarrow>
                         let dwNumMail = number_at m szNumMail in
                         if dwNumMail = 0 then Sys (Cout ''No mail.'' []) (\<lambda>_. Done 0)
                         else
                           (case strtok m p of
                              None \<Rightarrow> Done 1
                            | Some (szBytes, p, m) \<Rightarrow>
                                Sys (Cout ''Found %u mail, %u bytes total.''
                                  [I (uint dwNumMail), I (uint (number_at m szBytes))]) (\<lambda>_.
                                mail_loop fuel io h server user dwNumMail 1 m)))))))"
    by (rule wp_receive[OF w line h(3)])
      (use t1 t2 t3 n nz first loop ne in \<open>simp_all add: m pop_world_simps Let_def\<close>)
  then show ?thesis
    unfolding fetch_def using h by (intro wp_send_parts) (simp_all add: crlf_def MAX_LINE_def)
qed

section \<open>A run\<close>

lemma wp_ConnectTCP: "wp (pop_world sock hf) (\<lambda>w' n. w' = w \<and> n \<in> {sock, - 1}) w (ConnectTCP server service)"
proof -
  have address: "wp (pop_world sock hf) (\<lambda>w' n. w' = w \<and> n \<in> {sock, - 1}) w (ConnectTCP_address i p)" for i p
    by (auto simp: ConnectTCP_address_def pop_world_simps)
  then have "wp (pop_world sock hf) (\<lambda>w' n. w' = w \<and> n \<in> {sock, - 1}) w (ConnectTCP_port s p)" for s p
    by (cases s) (simp_all add: ConnectTCP_port_def pop_world_simps)
  then show ?thesis
    by (cases server; cases service) (simp_all add: ConnectTCP_def pop_world_simps Let_def)
qed

lemma wp_log_on:
  assumes h: "h \<noteq> hf" "hf \<noteq> - 1" "MAX_LINE \<le> io" and a: "\<forall>x \<in> {g, u, p}. good_answer x" and q: "line_ok q"
    and k: "0 < length ms" "length ms < 2 ^ 32 - 1" "b < 2 ^ 32" and ms: "\<forall>x \<in> set ms. mail_ok x"
    and fuel: "sum_list (map turns ms) < fuel" and texts: "length user < io" "length password < io"
    and w: "to_come w = pop_line g @ pop_line u @ pop_line p @ pop_line (stat_line (length ms) b) @
      concat (map mail_bytes ms) @ pop_line q @ rest"
    and Q: "\<And>w'. saved w' = saved w @ mail_files server user 1 ms \<Longrightarrow> Q w' 0"
  shows "wpx (pop_world sock hf) Q E w (log_on fuel io h server user password)"
proof -
  let ?r4 = "pop_line (stat_line (length ms) b) @ concat (map mail_bytes ms) @ pop_line q @ rest"
  let ?r3 = "pop_line p @ ?r4" and ?r2 = "pop_line u @ pop_line p @ ?r4"
  have f: "0 < fuel" using fuel by simp
  have fetch: "wpx (pop_world sock hf) Q E (w\<lparr>to_come := ?r4\<rparr>) (fetch fuel io h server user m)" for m
    by (rule wp_fetch[OF h q k ms fuel]) (use Q in auto)
  have pass: "wpx (pop_world sock hf) Q E (w\<lparr>to_come := ?r3\<rparr>)
      (send_parts io h [''PASS '', password, crlf] (await_plus fuel io h m (fetch fuel io h server user)))" for m
  proof (intro wp_send_parts[OF h(1)])
    show "wpx (pop_world sock hf) Q E (w\<lparr>to_come := ?r3\<rparr>) (await_plus fuel io h m (fetch fuel io h server user))"
      by (rule wp_await_plus[where l = p and rest = ?r4]) (use a h f fetch in auto)
  qed (use texts h in \<open>simp add: crlf_def MAX_LINE_def\<close>)
  have user: "wpx (pop_world sock hf) Q E (w\<lparr>to_come := ?r2\<rparr>)
      (send_parts io h [''USER '', user, crlf] (await_plus fuel io h m (\<lambda>m.
        Sys (Cout ''Sending POP password...'' []) (\<lambda>_. send_parts io h [''PASS '', password, crlf]
          (await_plus fuel io h m (fetch fuel io h server user))))))" for m
  proof (intro wp_send_parts[OF h(1)])
    show "wpx (pop_world sock hf) Q E (w\<lparr>to_come := ?r2\<rparr>) (await_plus fuel io h m (\<lambda>m.
        Sys (Cout ''Sending POP password...'' []) (\<lambda>_. send_parts io h [''PASS '', password, crlf]
          (await_plus fuel io h m (fetch fuel io h server user)))))"
      by (rule wp_await_plus[where l = u and rest = ?r3]) (use a h f pass in \<open>auto simp: pop_world_simps\<close>)
  qed (use texts h in \<open>simp add: crlf_def MAX_LINE_def\<close>)
  show ?thesis
    unfolding log_on_def
    by (rule wp_receive[where l = g and rest = ?r2])
      (use w a h user in \<open>auto simp: good_answer_def pop_world_simps\<close>)
qed


definition one_mail :: mail where
  "one_mail = (ascii ''+OK'', [ascii ''Hi'', [], [46, 46]], ascii ''+OK'')"


section \<open>Where the code differs from its purpose\<close>

lemma line_room: "unat (of_nat (MAX_LINE - 3) :: DWORD) = 32765" "unat (of_nat (MAX_LINE - 3) - 2 :: DWORD) = 32763"
  by (simp_all add: room_words MAX_LINE_def)

text \<open>
  A failure of \<open>write\<close> is \<open>-1\<close>, which the macro takes for success: the line is lost and the
  program goes on, to delete the message in the end.
\<close>

fun full_disk :: "byte list \<Rightarrow> io_call \<Rightarrow> reply \<times> byte list" where
  "full_disk (b # s) (Read h n) = (ok\<lparr>out := [b]\<rparr>, s)"
| "full_disk s (Write h bs) = (ok\<lparr>rv := - 1\<rparr>, s)"
| "full_disk s _ = (ok, s)"

lemma write_failure_ignored:
  "interp full_disk [65, 13, 10, 46, 13, 10] 
    (save_lines (Suc (Suc 0)) (Suc (Suc (Suc (Suc 0)))) 5 6 [0] (\<lambda>_. Done 7)) = (Some 7, [])"
  by (simp add: recv_line_def LineRecv_def ok_def poke_def line_room)

text \<open>
  When the server has closed the connection, every line is empty, which is no end: an empty
  line is written for as long as there is fuel.
\<close>

lemma closed_connection_fills_file:
  assumes "\<And>w r w'. T w (Read h 1) r w' \<Longrightarrow> rv r = 0" and "\<And>w bs r w'. T w (Write hf bs) r w' \<Longrightarrow> rv r \<noteq> 0"
  shows "wpx T (\<lambda>_ _. False) (\<lambda>_. True) w (save_lines fuel (Suc io) h hf m k)"
proof (induction fuel arbitrary: w m)
  case (Suc fuel)
  show ?case
    using Suc assms line_room
    by (auto simp: recv_line_def LineRecv_def poke_def Let_def)
qed simp

end
