(* ===== verification/ImageTools.thy ===== *)
theory ImageTools
  imports CLib Worlds
begin

text \<open>
  Two tools that take data out of images of disks: \<open>geteltorito.cpp\<close> extracts the boot image
  of a CD, and \<open>extrbin.cpp\<close> copies the blocks that begin with a given value from a device.
\<close>

section \<open>\<open>geteltorito.cpp\<close>\<close>

text \<open>
  \<open>ReadAt h n o\<close> reads \<open>n\<close> bytes from the place \<open>o\<close> of a file. What a read has not filled of a
  record is indeterminate, and to look at it is a crash.
\<close>

datatype iso_call =
    Puts string
  | Fputs string
  | WinPerror string
  | Perror
  | CreateFile string
  | ReadAt int nat nat
  | Malloc nat
  | WriteStdOut "byte list"

type_synonym iso_prog = "(iso_call, reply) prog"

definition typical_header :: "byte list" where
  "typical_header = 0 # map of_char ''CD001'' @ 1 # map of_char ''EL TORITO SPECIFICATION'' @ replicate 41 0"

text \<open>A number of \<open>n\<close> bytes in a record.\<close>

definition field :: "byte list \<Rightarrow> nat \<Rightarrow> nat \<Rightarrow> nat" where
  "field m i n = le_nat (peek m i n)"

definition copy_image :: "string \<Rightarrow> int \<Rightarrow> nat \<Rightarrow> nat \<Rightarrow> iso_prog" where
  "copy_image name h len start =
    Sys (Malloc (len * 2048)) (\<lambda>p.
      if rv p = 0 then Sys Perror (\<lambda>_. Done 3)
      else
        Sys (ReadAt h (len * 512) (start * 2048)) (\<lambda>r.
          if rv r = 0 then Sys (WinPerror name) (\<lambda>_. Done 1)
          else
            Sys (WriteStdOut (out r)) (\<lambda>w.
              if rv w = 0 then Sys (WinPerror ''stdout'') (\<lambda>_. Done 4) else Done 0)))"

definition geteltorito_main :: "string list \<Rightarrow> iso_prog" where
  "geteltorito_main args =
    (case args of
       [name] \<Rightarrow>
         if name \<noteq> [] \<and> is_switch (hd name) then Sys (Puts ''geteltorito, freeware by Olof Lagerkvist.'') (\<lambda>_. Done (- 1))
         else
           Sys (CreateFile name) (\<lambda>f.
             if rv f = invalid_handle then Sys (WinPerror name) (\<lambda>_. Done 1)
             else
               Sys (ReadAt (rv f) 2048 (17 * 2048)) (\<lambda>r.
                 if rv r = 0 then Sys (WinPerror name) (\<lambda>_. Done 1)
                 else if length (out r) < 75 then Crash
                 else if take 71 (out r) \<noteq> typical_header then
                   Sys (Fputs ''Image does not contain an El Torito default boot image.'') (\<lambda>_. Done 0)
                 else
                   Sys (ReadAt (rv f) 2048 (field (out r) 71 4 * 2048)) (\<lambda>r.
                     if rv r = 0 then Sys (WinPerror name) (\<lambda>_. Done 1)
                     else if length (out r) < 44 then Crash
                     else copy_image name (rv f) (field (out r) 38 2) (field (out r) 40 4))))
     | _ \<Rightarrow> Sys (Puts ''geteltorito, freeware by Olof Lagerkvist.'') (\<lambda>_. Done (- 1)))"

text \<open>An image that can be read, and what was written to the standard output.\<close>

definition iso_world :: "byte list \<Rightarrow> (byte list, iso_call, reply) world" where
  "iso_world disc w c r w' \<longleftrightarrow>
    (case c of
       ReadAt h n off \<Rightarrow>
         (if off < length disc then rv r \<noteq> 0 \<and> out r = take n (drop off disc) else rv r = 0) \<and> w' = w
     | WriteStdOut bs \<Rightarrow> rv r \<noteq> 0 \<and> w' = w @ bs
     | _ \<Rightarrow> w' = w)"

text \<open>
  The default boot image of an ISO image: sector \<open>17\<close> names the sector of the catalog, whose
  first entry has the number of blocks of \<open>512\<close> bytes and the sector of the image.
\<close>

definition catalog :: "byte list \<Rightarrow> nat" where
  "catalog disc = le_nat (peek disc (17 * 2048 + 71) 4) * 2048"

definition boot_start :: "byte list \<Rightarrow> nat" where
  "boot_start disc = le_nat (peek disc (catalog disc + 40) 4) * 2048"

definition boot_image :: "byte list \<Rightarrow> byte list" where
  "boot_image disc = peek disc (boot_start disc) (le_nat (peek disc (catalog disc + 38) 2) * 512)"

definition bootable :: "byte list \<Rightarrow> bool" where
  "bootable disc \<longleftrightarrow>
    peek disc (17 * 2048) 71 = typical_header \<and> 17 * 2048 + 75 \<le> length disc \<and>
    catalog disc + 44 \<le> length disc \<and> boot_start disc < length disc"

lemma peek_peek: "i + n \<le> k \<Longrightarrow> peek (take k (drop p m)) i n = peek m (p + i) n"
  by (simp add: peek_def drop_take min_def add.commute)

text \<open>
  The boot image, and nothing else, is written; unless the image cannot be opened or there
  is no memory, and then nothing is.
\<close>

lemma geteltorito_extracts:
  assumes "bootable disc" and "name \<noteq> []" "\<not> is_switch (hd name)"
  shows "wp (iso_world disc) (\<lambda>w n. n = 0 \<and> w = boot_image disc \<or> n \<in> {1, 3} \<and> w = []) [] (geteltorito_main [name])"
proof -
  let ?h = "take 2048 (drop (17 * 2048) disc)" and ?c = "take 2048 (drop (catalog disc) disc)"
  have len: "75 \<le> length ?h" "44 \<le> length ?c" "17 * 2048 < length disc" "catalog disc < length disc"
    using assms(1) by (auto simp: bootable_def)
  have sign: "take 71 ?h = typical_header" using assms(1) by (simp add: bootable_def peek_def)
  have h: "field ?h 71 4 * 2048 = catalog disc"
    "field ?c 38 2 = le_nat (peek disc (catalog disc + 38) 2)" "field ?c 40 4 * 2048 = boot_start disc"
    by (simp_all add: field_def peek_peek catalog_def boot_start_def)
  have image: "wp (iso_world disc) (\<lambda>w n. n = 0 \<and> w = boot_image disc \<or> n \<in> {1, 3} \<and> w = []) []
      (copy_image name f (field ?c 38 2) (field ?c 40 4))" for f
    using assms(1) h by (simp add: copy_image_def iso_world_def bootable_def boot_image_def peek_def)
  have no: "\<not> (name \<noteq> [] \<and> is_switch (hd name))" using assms by simp
  show ?thesis
    using image len h sign no
    by (auto simp: geteltorito_main_def iso_world_def simp del: take_take)
qed

section \<open>\<open>extrbin.cpp\<close>\<close>

text \<open>
  The reply of \<open>NewBlock\<close> has in \<open>out\<close> what the memory holds at first, which C does not say.
  \<open>Interrupted\<close> reads the flag that the console handler sets.
\<close>

datatype ext_call =
    EFprintf string "arg list"
  | EPerror "string option"
  | ECPerror
  | NewBlock nat
  | CharToOem "string option"
  | SetFileApisToOEM
  | SetConsoleCtrlHandler
  | StdInput
  | StdOutput
  | OpenInput string
  | CreateOutput string
  | GetGeometry int
  | EReadFile int nat
  | EWriteFile int "byte list"
  | Interrupted
  | ESleep

type_synonym ext_prog = "(ext_call, reply) prog"

record ext_options =
  search_data :: DWORD
  offset :: DWORD
  block_size :: DWORD
  sector_size :: DWORD
  search_file :: "string option"
  output_file :: "string option"

text \<open>A size with a suffix, of which only the first character is looked at.\<close>

definition suffixed :: "string \<Rightarrow> char + DWORD" where
  "suffixed s =
    (case strtoul s 0 of (n, suffix) \<Rightarrow>
       (case suffix of
          [] \<Rightarrow> Inr n
        | c # _ \<Rightarrow>
            if c = CHR ''G'' then Inr (n * 2 ^ 30)
            else if c = CHR ''M'' then Inr (n * 2 ^ 20)
            else if c = CHR ''K'' then Inr (n * 2 ^ 10)
            else if c = CHR ''g'' then Inr (n * 1000000000)
            else if c = CHR ''m'' then Inr (n * 1000000)
            else if c = CHR ''k'' then Inr (n * 1000)
            else Inl c))"

text \<open>The arguments, from the last to the first.\<close>

definition value_after :: "string \<Rightarrow> string \<Rightarrow> string option" where
  "value_after key a = (if take (length key) a = key then Some (drop (length key) a) else None)"

fun ext_arguments :: "string list \<Rightarrow> ext_options \<Rightarrow> (ext_options \<Rightarrow> ext_prog) \<Rightarrow> ext_prog" where
  "ext_arguments [] opt k = k opt"
| "ext_arguments (a # args) opt k =
    (case value_after ''if='' a of
       Some v \<Rightarrow> ext_arguments args (opt\<lparr>search_file := Some v\<rparr>) k
     | None \<Rightarrow>
     case value_after ''of='' a of
       Some v \<Rightarrow> ext_arguments args (opt\<lparr>output_file := Some v\<rparr>) k
     | None \<Rightarrow>
     case value_after ''data='' a of
       Some v \<Rightarrow> ext_arguments args (opt\<lparr>search_data := fst (strtoul v 0)\<rparr>) k
     | None \<Rightarrow>
     case value_after ''offset='' a of
       Some v \<Rightarrow> ext_arguments args (opt\<lparr>offset := fst (strtoul v 0)\<rparr>) k
     | None \<Rightarrow>
     case value_after ''bs='' a of
       Some v \<Rightarrow>
         (case suffixed v of
            Inl c \<Rightarrow> Sys (EFprintf ''Unknown size suffix: '' [S [c]]) (\<lambda>_. Done 8)
          | Inr n \<Rightarrow> ext_arguments args (opt\<lparr>block_size := n\<rparr>) k)
     | None \<Rightarrow>
     case value_after ''ss='' a of
       Some v \<Rightarrow>
         (case suffixed v of
            Inl c \<Rightarrow> Sys (EFprintf ''Unknown size suffix: '' [S [c]]) (\<lambda>_. Done 8)
          | Inr n \<Rightarrow> ext_arguments args (opt\<lparr>sector_size := n\<rparr>) k)
     | None \<Rightarrow> Sys (EFprintf ''Unknown parameter: '' [S a]) (\<lambda>_. Done 8))"

text \<open>The end of the loop. The count of bytes has \<open>64\<close> bits.\<close>

definition ext_done :: "ext_options \<Rightarrow> bool \<Rightarrow> QWORD \<Rightarrow> ext_prog" where
  "ext_done opt broken bytes =
    (let tell = Sys (EFprintf ''Done - %I64u bytes saved in file '' [I (uint bytes)]) (\<lambda>_. Done 0) in
     if broken then Sys (EFprintf ''Break.'' []) (\<lambda>_. tell) else tell)"

text \<open>
  The search. A read that is longer than the block, and a comparison that reaches beyond it,
  are crashes; the memory that is compared is that of the whole block.
\<close>

definition ext_leave :: "ext_options \<Rightarrow> QWORD \<Rightarrow> ext_prog" where
  "ext_leave opt bytes = Sys Interrupted (\<lambda>c. ext_done opt (rv c \<noteq> 0) bytes)"

primrec ext_loop :: "nat \<Rightarrow> ext_options \<Rightarrow> int \<Rightarrow> int \<Rightarrow> byte list \<Rightarrow> DWORD \<Rightarrow> QWORD \<Rightarrow> ext_prog" where
  "ext_loop 0 opt hIn hOut block counter bytes = OutOfFuel"
| "ext_loop (Suc fuel) opt hIn hOut block counter bytes =
    Sys Interrupted (\<lambda>c.
      if rv c \<noteq> 0 then ext_leave opt bytes
      else
        let ss = unat (sector_size opt); bs = length block; n = min 4 bs; o1 = unat (offset opt) in
        Sys (EReadFile hIn ss) (\<lambda>r.
          if rv r = 0 then Sys (EPerror (search_file opt)) (\<lambda>_. ext_leave opt bytes)
          else if length (out r) > bs then Crash
          else if length (out r) \<noteq> ss then ext_leave opt bytes
          else
            let block = poke block 0 (out r) in
            if o1 + n > bs then Crash
            else if take n (le_bytes 4 (unat (search_data opt))) = peek block o1 n then
              let save = (\<lambda>block rep.
                let bytes = bytes + of_nat (rep + ss) in
                Sys (EWriteFile hOut (take (rep + ss) block)) (\<lambda>w.
                  if rv w = 0 then Sys (EPerror (output_file opt)) (\<lambda>_. ext_leave opt bytes)
                  else
                    Sys (EFprintf ''%u blocks found... Searching...'' [I (uint (counter + 1))]) (\<lambda>_.
                    Sys ESleep (\<lambda>_. ext_loop fuel opt hIn hOut block (counter + 1) bytes))))
              in if ss < bs then
                   Sys (EReadFile hIn (bs - ss)) (\<lambda>r.
                     if rv r = 0 then Sys (EPerror (search_file opt)) (\<lambda>_. ext_leave opt bytes)
                     else if length (out r) > bs - ss then Crash
                     else save (poke block ss (out r)) (length (out r)))
                 else save block 0
            else Sys ESleep (\<lambda>_. ext_loop fuel opt hIn hOut block counter bytes)))"

definition ext_output :: "nat \<Rightarrow> ext_options \<Rightarrow> int \<Rightarrow> byte list \<Rightarrow> ext_prog" where
  "ext_output fuel opt hIn block =
    (let go = (\<lambda>h.
       if h = invalid_handle then Sys (EPerror (output_file opt)) (\<lambda>_. Done 2)
       else Sys (EFprintf ''Searching for %u byte blocks.'' [I (uint (block_size opt)), I (uint (search_data opt)),
              I (uint (offset opt))]) (\<lambda>_. ext_loop fuel opt hIn h block 0 0))
     in Sys StdOutput (\<lambda>h.
          case output_file opt of
            None \<Rightarrow> Sys (EFprintf ''Writing output to stdout'' []) (\<lambda>_. go (rv h))
          | Some f \<Rightarrow> Sys (EFprintf ''Opening output file '' [S f]) (\<lambda>_. Sys (CreateOutput f) (\<lambda>h. go (rv h)))))"

definition ext_input :: "nat \<Rightarrow> ext_options \<Rightarrow> byte list \<Rightarrow> ext_prog" where
  "ext_input fuel opt block =
    (let go = (\<lambda>h.
       if h = invalid_handle then Sys (EPerror (search_file opt)) (\<lambda>_. Done 1)
       else if sector_size opt = 0 then
         Sys (GetGeometry h) (\<lambda>g.
           if rv g \<noteq> 0 then
             let opt = opt\<lparr>sector_size := word_of_int (num g)\<rparr> in
             Sys (EFprintf ''Aligning search to sector size %u bytes.'' [I (uint (sector_size opt))]) (\<lambda>_.
               ext_output fuel opt h block)
           else
             Sys (EFprintf ''Device sector size unknown, aligning search at %u bytes.'' [I 512]) (\<lambda>_.
               ext_output fuel (opt\<lparr>sector_size := 512\<rparr>) h block))
       else ext_output fuel opt h block)
     in Sys StdInput (\<lambda>h.
          case search_file opt of
            None \<Rightarrow> Sys (EFprintf ''Reading from stdin'' []) (\<lambda>_. go (rv h))
          | Some f \<Rightarrow> Sys (EFprintf ''Opening input device '' [S f]) (\<lambda>_. Sys (OpenInput f) (\<lambda>h. go (rv h)))))"

definition ext_defaults :: ext_options where
  "ext_defaults = \<lparr>search_data = 0xBA010000, offset = 0, block_size = 0x800, sector_size = 0,
    search_file = None, output_file = None\<rparr>"

definition extrbin_main :: "nat \<Rightarrow> string list \<Rightarrow> ext_prog" where
  "extrbin_main fuel args =
    ext_arguments (rev args) ext_defaults (\<lambda>opt.
      if block_size opt = 0 then Sys (EFprintf ''Block size cannot be zero.'' []) (\<lambda>_. Done 8)
      else
        Sys (NewBlock (unat (block_size opt))) (\<lambda>p.
          if rv p = 0 then Sys ECPerror (\<lambda>_. Done 7)
          else
            Sys (CharToOem (search_file opt)) (\<lambda>_.
            Sys (CharToOem (output_file opt)) (\<lambda>_.
            Sys SetFileApisToOEM (\<lambda>_.
            Sys SetConsoleCtrlHandler (\<lambda>_.
              ext_input fuel opt (take (unat (block_size opt)) (out p @ replicate (unat (block_size opt)) 0))))))))"

section \<open>What \<open>extrbin\<close> saves\<close>

text \<open>
  A device that is read from the front, whole pieces as long as there are any, and what the
  output holds. Nobody interrupts.
\<close>

record ext_files =
  device :: "byte list"
  taken :: "byte list"

definition ext_world :: "int \<Rightarrow> int \<Rightarrow> (ext_files, ext_call, reply) world" where
  "ext_world hi ho w c r w' \<longleftrightarrow>
    (case c of
       EReadFile h n \<Rightarrow> rv r \<noteq> 0 \<and> out r = take n (device w) \<and> w' = w\<lparr>device := drop n (device w)\<rparr>
     | EWriteFile h bs \<Rightarrow> rv r \<noteq> 0 \<and> w' = w\<lparr>taken := taken w @ bs\<rparr>
     | Interrupted \<Rightarrow> rv r = 0 \<and> w' = w
     | StdInput \<Rightarrow> rv r \<noteq> invalid_handle \<and> w' = w
     | OpenInput f \<Rightarrow> rv r \<in> {hi, invalid_handle} \<and> w' = w
     | CreateOutput f \<Rightarrow> rv r \<in> {ho, invalid_handle} \<and> w' = w
     | _ \<Rightarrow> w' = w)"

lemma ext_world_simps:
  "ext_world hi ho w (EReadFile h n) r w' \<longleftrightarrow> rv r \<noteq> 0 \<and> out r = take n (device w) \<and> w' = w\<lparr>device := drop n (device w)\<rparr>"
  "ext_world hi ho w (EWriteFile h bs) r w' \<longleftrightarrow> rv r \<noteq> 0 \<and> w' = w\<lparr>taken := taken w @ bs\<rparr>"
  "ext_world hi ho w Interrupted r w' \<longleftrightarrow> rv r = 0 \<and> w' = w"
  "ext_world hi ho w StdInput r w' \<longleftrightarrow> rv r \<noteq> invalid_handle \<and> w' = w"
  "ext_world hi ho w (OpenInput f) r w' \<longleftrightarrow> rv r \<in> {hi, invalid_handle} \<and> w' = w"
  "ext_world hi ho w (CreateOutput f) r w' \<longleftrightarrow> rv r \<in> {ho, invalid_handle} \<and> w' = w"
  "ext_world hi ho w (EFprintf t xs) r w' \<longleftrightarrow> w' = w" "ext_world hi ho w (EPerror e) r w' \<longleftrightarrow> w' = w"
  "ext_world hi ho w ECPerror r w' \<longleftrightarrow> w' = w" "ext_world hi ho w (NewBlock n) r w' \<longleftrightarrow> w' = w"
  "ext_world hi ho w (CharToOem x) r w' \<longleftrightarrow> w' = w" "ext_world hi ho w SetFileApisToOEM r w' \<longleftrightarrow> w' = w"
  "ext_world hi ho w SetConsoleCtrlHandler r w' \<longleftrightarrow> w' = w" "ext_world hi ho w ESleep r w' \<longleftrightarrow> w' = w"
  by (simp_all add: ext_world_def)

text \<open>
  The specification: sector by sector, and where a sector has the value at the offset, as
  much as a block is saved, and the search goes on behind it.
\<close>

function blocks_of :: "nat \<Rightarrow> nat \<Rightarrow> byte list \<Rightarrow> nat \<Rightarrow> byte list \<Rightarrow> byte list" where
  "blocks_of ss bs v off d =
    (if ss = 0 \<or> length d < ss then []
     else if peek d off (length v) = v then take (max ss bs) d @ blocks_of ss bs v off (drop (max ss bs) d)
     else blocks_of ss bs v off (drop ss d))"
  by pat_completeness auto
termination by (relation "measure (\<lambda>(ss, bs, v, off, d). length d)") auto

declare blocks_of.simps [simp del]

definition wanted_value :: "ext_options \<Rightarrow> byte list" where
  "wanted_value opt = le_bytes 4 (unat (search_data opt))"

lemma take_poke: "take (length bs) (poke m 0 bs) = bs"
  by (simp add: poke_def)

lemma wp_ext_loop:
  assumes h: "ss = unat (sector_size opt)" "0 < ss" "ss \<le> bs" "o1 = unat (offset opt)" "o1 + 4 \<le> ss"
  shows "length (device w) < fuel \<Longrightarrow> length block = bs \<Longrightarrow>
    (\<And>w'. taken w' = taken w @ blocks_of ss bs (wanted_value opt) o1 (device w) \<Longrightarrow> Q w' 0) \<Longrightarrow>
    wpx (ext_world hi ho) Q E w (ext_loop fuel opt hIn hOut block counter bytes)"
proof (induction fuel arbitrary: w block counter bytes)
  case (Suc fuel)
  let ?v = "wanted_value opt" and ?d = "device w"
  have leave: "wpx (ext_world hi ho) Q E w' (ext_leave opt bytes')" if "taken w' = taken w @ blocks_of ss bs ?v o1 ?d" for w' bytes'
    using Suc.prems(3)[OF that] by (simp add: ext_leave_def ext_done_def ext_world_simps)
  show ?case
  proof (cases "length ?d < ss")
    case True
    then have "blocks_of ss bs ?v o1 ?d = []" by (subst blocks_of.simps) simp
    with leave[of "w\<lparr>device := []\<rparr>"] True h Suc.prems(2) show ?thesis
      by (simp add: ext_world_simps Let_def)
  next
    case False
    let ?m = "poke block 0 (take ss ?d)" and ?rest = "take (bs - ss) (drop ss ?d)"
    let ?saved = "poke ?m ss ?rest"
    have m: "length ?m = bs" "min (length ?d) ss = ss" using False h(3) Suc.prems(2) by simp_all
    have pk: "peek ?m o1 4 = peek ?d o1 4"
      using peek_poke_inside[of 0 block o1 4 "take ss ?d"] False h(5) by (simp add: peek_def drop_take min_def)
    have v: "take 4 (le_bytes 4 (unat (search_data opt))) = ?v" "length ?v = 4" by (simp_all add: wanted_value_def)
    have fewer: "length (drop ss ?d) < fuel" "length (drop bs ?d) < fuel" using Suc.prems(1) False h(2,3) by auto
    have "?saved = poke block 0 (take ss ?d @ ?rest)"
      using poke_poke_adjacent[of 0 block "take ss ?d" ?rest] m(2) by simp
    moreover have "take ss ?d @ ?rest = take bs ?d" using h(3) by (simp flip: take_add)
    ultimately have eq: "?saved = poke block 0 (take bs ?d)" by simp
    have n: "length ?rest + ss = length (take bs ?d)" using False h(3) by auto
    have saved: "take (length ?rest + ss) ?saved = take bs ?d" "length ?saved = bs"
      unfolding eq n using Suc.prems(2) by (simp_all only: take_poke) simp
    have step: "blocks_of ss bs ?v o1 ?d =
        (if peek ?d o1 4 = ?v then take bs ?d @ blocks_of ss bs ?v o1 (drop bs ?d) else blocks_of ss bs ?v o1 (drop ss ?d))"
      by (subst blocks_of.simps) (use False h(2,3) v(2) in \<open>simp add: max_def\<close>)
    have go_on: "wpx (ext_world hi ho) Q E w' (ext_loop fuel opt hIn hOut block' counter' bytes')"
      if "peek ?d o1 4 \<noteq> ?v" "w' = w\<lparr>device := drop ss ?d\<rparr>" "length block' = bs" for w' block' counter' bytes'
      by (rule Suc.IH) (use that fewer Suc.prems(3) step in \<open>simp_all\<close>)
    have save: "wpx (ext_world hi ho) Q E w' (ext_loop fuel opt hIn hOut block' counter' bytes')"
      if "peek ?d o1 4 = ?v" "w' = w\<lparr>device := drop bs ?d, taken := taken w @ take bs ?d\<rparr>" "length block' = bs"
      for w' block' counter' bytes'
      by (rule Suc.IH) (use that fewer Suc.prems(3) step in \<open>simp_all\<close>)
    have one: "take ss ?m = take ss ?d" using take_poke[of "take ss ?d" block] m(2) by simp
    show ?thesis
    proof (cases "peek ?d o1 4 = ?v")
      case True
      with save saved one m v pk h Suc.prems(2) False show ?thesis
        by (cases "ss < bs") (auto simp: ext_world_simps Let_def min_def add.commute)
    next
      case no: False
      with go_on m v pk h Suc.prems(2) show ?thesis
        by (auto simp: ext_world_simps Let_def)
    qed
  qed
qed simp



text \<open>
  Neither the size of a sector nor the offset is compared with the size of the block: a larger
  sector is read over the end of the memory, and a larger offset is looked at behind it.
\<close>

lemma sector_over_block:
  assumes "length block < unat (sector_size opt)"
  shows "\<not> total anything (ext_loop (Suc fuel) opt h1 h2 block n m)"
proof
  assume "total anything (ext_loop (Suc fuel) opt h1 h2 block n m)"
  note t = spec[OF this[unfolded ext_loop.simps total.simps Let_def], of "ok\<lparr>rv := 0\<rparr>"]
  show False
    using assms t
    by (simp add: anything ok_def) (drule spec[of _ "ok\<lparr>out := replicate (unat (sector_size opt)) 0\<rparr>"], simp add: ok_def)
qed

end
