(* ===== verification/SizDir.thy ===== *)
theory SizDir
  imports CLib Worlds
begin

text \<open>
  \<open>sizdir32.cpp\<close>: finds the files of a directory tree whose size lies in an interval, and adds
  up what they use on a disk. The totals that it reports are those of the files that it shows.
\<close>

section \<open>Calls\<close>

text \<open>
  A search answers an entry in \<open>entry\<close>; the four numbers of a disk are in \<open>disk\<close>. \<open>Breaking\<close>
  reads the flag that the console handler sets.
\<close>

record find_data =
  fattributes :: DWORD
  fsize_high :: DWORD
  fsize_low :: DWORD
  fname :: string

record disk_facts =
  sectors_per_cluster :: DWORD
  bytes_per_sector :: DWORD
  free_clusters :: DWORD
  total_clusters :: DWORD

record sd_reply = reply +
  entry :: find_data
  disk :: disk_facts

datatype sd_call =
    Puts string
  | Eputs string
  | Printf string "arg list"
  | Perror string
  | CharToOem string
  | Fwrite string
  | Clreol
  | Sleep
  | SetConsoleCtrlHandler
  | GetDiskFreeSpace "string option"
  | FindFirst string
  | FindNext int
  | FindClose int
  | SetCurrentDirectory string
  | GetCompressedSize string
  | Breaking

type_synonym sd_prog = "(sd_call, sd_reply) prog"

section \<open>Searches\<close>

definition FILE_ATTRIBUTE_DIRECTORY :: DWORD where "FILE_ATTRIBUTE_DIRECTORY = 0x10"
definition FILE_ATTRIBUTE_SPARSE_FILE :: DWORD where "FILE_ATTRIBUTE_SPARSE_FILE = 0x200"
definition FILE_ATTRIBUTE_COMPRESSED :: DWORD where "FILE_ATTRIBUTE_COMPRESSED = 0x800"

text \<open>The high part of a size is multiplied by \<open>MAXDWORD\<close>.\<close>

definition size64 :: "find_data \<Rightarrow> QWORD" where
  "size64 d = ucast (fsize_high d) * 0xFFFFFFFF + ucast (fsize_low d)"

record search =
  attr_mask :: DWORD
  attr_required :: DWORD
  min_size :: QWORD
  max_size :: QWORD

definition passes :: "search \<Rightarrow> find_data \<Rightarrow> bool" where
  "passes q d \<longleftrightarrow>
    fattributes d AND attr_mask q = 0 \<and> NOT (fattributes d) AND attr_required q = 0 \<and>
    min_size q \<le> size64 d \<and> size64 d \<le> max_size q"

primrec filter_entry :: "nat \<Rightarrow> int \<Rightarrow> search \<Rightarrow> find_data \<Rightarrow> (find_data option \<Rightarrow> sd_prog) \<Rightarrow> sd_prog" where
  "filter_entry 0 h q d k = OutOfFuel"
| "filter_entry (Suc fuel) h q d k =
    (if passes q d then k (Some d)
     else Sys (FindNext h) (\<lambda>r. if rv r = 0 then k None else filter_entry fuel h q (entry r) k))"

definition start_search :: "nat \<Rightarrow> string \<Rightarrow> search \<Rightarrow> ((int \<times> find_data) option \<Rightarrow> sd_prog) \<Rightarrow> sd_prog" where
  "start_search fuel pattern q k =
    Sys (FindFirst pattern) (\<lambda>r.
      if rv r = invalid_handle then k None
      else
        filter_entry fuel (rv r) q (entry r) (\<lambda>d.
          case d of
            None \<Rightarrow> Sys (FindClose (rv r)) (\<lambda>_. k None)
          | Some d \<Rightarrow> k (Some (rv r, d))))"

definition next_entry :: "nat \<Rightarrow> int \<Rightarrow> search \<Rightarrow> (find_data option \<Rightarrow> sd_prog) \<Rightarrow> sd_prog" where
  "next_entry fuel h q k =
    Sys (FindNext h) (\<lambda>r. if rv r = 0 then k None else filter_entry fuel h q (entry r) k)"

text \<open>The end of a turn: the search goes on while there are entries and nobody breaks it.\<close>

definition next_turn :: "nat \<Rightarrow> int \<Rightarrow> search \<Rightarrow> (find_data \<Rightarrow> sd_prog) \<Rightarrow> sd_prog \<Rightarrow> sd_prog" where
  "next_turn fuel h q go stop =
    (let leave = Sys (FindClose h) (\<lambda>_. stop) in
     next_entry fuel h q (\<lambda>d.
       case d of
         None \<Rightarrow> leave
       | Some d \<Rightarrow> Sys Breaking (\<lambda>b. if rv b \<noteq> 0 then leave else go d)))"

section \<open>The walk\<close>

record sd_options =
  verbose :: bool
  subdirs :: bool
  compr :: bool
  minsiz :: QWORD
  maxsiz :: QWORD
  pattern :: string
  clussiz :: nat

record totals =
  nrfiles :: QWORD
  totsiz :: QWORD
  allocsiz :: QWORD
  halfsiz :: QWORD
  dblsiz :: QWORD

definition PATH_ROOM :: nat where "PATH_ROOM = 260"

text \<open>A size in blocks of \<open>2\<^sup>c\<close> bytes; the difference of an empty file wraps around.\<close>

definition in_blocks :: "nat \<Rightarrow> QWORD \<Rightarrow> QWORD" where
  "in_blocks c n = push_bit c (drop_bit c (n - 1) + 1)"

definition add_file :: "sd_options \<Rightarrow> QWORD \<Rightarrow> QWORD \<Rightarrow> totals \<Rightarrow> totals" where
  "add_file opt bytes used t =
    t\<lparr>nrfiles := nrfiles t + 1, totsiz := totsiz t + bytes,
      allocsiz := allocsiz t + in_blocks (clussiz opt) used,
      halfsiz := halfsiz t + in_blocks (clussiz opt - 1) used,
      dblsiz := dblsiz t + in_blocks (clussiz opt + 1) used\<rparr>"

text \<open>
  A file is shown under the path in \<open>file\<close>, a prefix and its name. A shift by \<open>clussiz - 1\<close> is
  undefined if there is one byte in a cluster.
\<close>

definition show_file :: "sd_options \<Rightarrow> string \<Rightarrow> find_data \<Rightarrow> (QWORD \<Rightarrow> sd_prog) \<Rightarrow> sd_prog" where
  "show_file opt prefix d k =
    (let filesiz = size64 d in
     if verbose opt then
       if filesiz = - 1 then Sys (Perror (fname d)) (\<lambda>_. k 0)
       else
         Sys (CharToOem (prefix @ fname d)) (\<lambda>o'.
         Sys (Printf ''%s, %.4g %s'' [S (line o'), I (uint filesiz)]) (\<lambda>_.
         Sys Clreol (\<lambda>_. Sys (Puts []) (\<lambda>_. k filesiz))))
     else k filesiz)"

definition count_file :: "sd_options \<Rightarrow> string \<Rightarrow> find_data \<Rightarrow> totals \<Rightarrow> (totals \<Rightarrow> sd_prog) \<Rightarrow> sd_prog" where
  "count_file opt prefix d t k =
    show_file opt prefix d (\<lambda>bytes.
      let add = (\<lambda>used. if clussiz opt = 0 then Crash else k (add_file opt bytes used t)) in
      if compr opt \<and> fattributes d AND (FILE_ATTRIBUTE_COMPRESSED OR FILE_ATTRIBUTE_SPARSE_FILE) \<noteq> 0 then
        Sys (GetCompressedSize (fname d)) (\<lambda>r. add (if rv r = 0 then - 1 else word_of_int (num r)))
      else add bytes)"

definition file_search :: "sd_options \<Rightarrow> search" where
  "file_search opt = \<lparr>attr_mask = FILE_ATTRIBUTE_DIRECTORY, attr_required = 0, min_size = minsiz opt, max_size = maxsiz opt\<rparr>"

definition directory_search :: search where
  "directory_search = \<lparr>attr_mask = 0, attr_required = FILE_ATTRIBUTE_DIRECTORY, min_size = 0, max_size = - 1\<rparr>"

definition too_long :: "find_data \<Rightarrow> sd_prog \<Rightarrow> sd_prog" where
  "too_long d k = Sys (Printf ''Too long path to %s.'' [S (fname d)]) (\<lambda>_. k)"

primrec file_loop :: "nat \<Rightarrow> sd_options \<Rightarrow> string \<Rightarrow> int \<Rightarrow> find_data \<Rightarrow> totals \<Rightarrow> (totals \<Rightarrow> sd_prog) \<Rightarrow> sd_prog" where
  "file_loop 0 opt prefix h d t k = OutOfFuel"
| "file_loop (Suc fuel) opt prefix h d t k =
    (let more = (\<lambda>t. next_turn fuel h (file_search opt) (\<lambda>d. file_loop fuel opt prefix h d t k) (k t)) in
     if length (fname d) + length prefix \<ge> PATH_ROOM then too_long d (more t)
     else count_file opt prefix d t more)"

text \<open>
  The room is tested for the name alone; a separator and a zero are written behind it. \<open>walk\<close>
  is the function itself, for the directory that was entered.
\<close>

primrec dir_loop :: "(string \<Rightarrow> totals \<Rightarrow> (totals \<Rightarrow> sd_prog) \<Rightarrow> sd_prog) \<Rightarrow> nat \<Rightarrow> string \<Rightarrow> int \<Rightarrow> find_data \<Rightarrow>
    totals \<Rightarrow> (totals \<Rightarrow> sd_prog) \<Rightarrow> sd_prog" where
  "dir_loop walk 0 prefix h d t k = OutOfFuel"
| "dir_loop walk (Suc fuel) prefix h d t k =
    (let more = (\<lambda>t. next_turn fuel h directory_search (\<lambda>d. dir_loop walk fuel prefix h d t k) (k t)) in
     if fname d = ''.'' \<or> fname d = ''..'' then more t
     else if length (fname d) + length prefix \<ge> PATH_ROOM then too_long d (more t)
     else if length (fname d) + length prefix + 2 > PATH_ROOM then Crash
     else
       Sys (SetCurrentDirectory (fname d)) (\<lambda>c.
         if rv c \<noteq> 0 then
           walk (prefix @ fname d @ [CHR 0x5C]) t (\<lambda>t. Sys (SetCurrentDirectory ''..'') (\<lambda>_. more t))
         else more t))"

primrec walk_directory :: "nat \<Rightarrow> sd_options \<Rightarrow> string \<Rightarrow> totals \<Rightarrow> (totals \<Rightarrow> sd_prog) \<Rightarrow> sd_prog" where
  "walk_directory 0 opt prefix t k = OutOfFuel"
| "walk_directory (Suc fuel) opt prefix t k =
    Sys (CharToOem prefix) (\<lambda>o'.
    Sys (Fwrite (take (min 79 (length prefix)) (line o'))) (\<lambda>_.
    Sys Clreol (\<lambda>_.
    Sys Sleep (\<lambda>_.
      let files = (\<lambda>t.
        start_search fuel (pattern opt) (file_search opt) (\<lambda>x.
          case x of None \<Rightarrow> k t | Some (h, d) \<Rightarrow> file_loop fuel opt prefix h d t k))
      in if subdirs opt then
           start_search fuel ''*'' directory_search (\<lambda>x.
             case x of
               None \<Rightarrow> files t
             | Some (h, d) \<Rightarrow> dir_loop (walk_directory fuel opt) fuel prefix h d t files)
         else files t))))"

section \<open>The program\<close>

text \<open>A size with one of four suffixes; what else stands behind the number is ignored.\<close>

definition size_arg :: "string \<Rightarrow> QWORD" where
  "size_arg s =
    (case strtol s 0 of (n, rest) \<Rightarrow>
       let v = word_of_int n in
       case rest of
         [] \<Rightarrow> v
       | c # _ \<Rightarrow>
           if c = CHR ''K'' then push_bit 10 v
           else if c = CHR ''M'' then push_bit 20 v
           else if c = CHR ''G'' then push_bit 30 v
           else if c = CHR ''T'' then push_bit 40 v
           else v)"

text \<open>The letters of the switches, without regard to case; None shows the usage.\<close>

fun sd_letters :: "string \<Rightarrow> sd_options \<Rightarrow> sd_options option" where
  "sd_letters [] opt = Some opt"
| "sd_letters (c # w) opt =
    (if c \<in> {CHR ''q'', CHR ''Q''} then sd_letters w (opt\<lparr>verbose := False\<rparr>)
     else if c \<in> {CHR ''c'', CHR ''C''} then sd_letters w (opt\<lparr>compr := True\<rparr>)
     else if c \<in> {CHR ''l'', CHR ''L''} then sd_letters w (opt\<lparr>subdirs := False\<rparr>)
     else None)"

fun sd_switches :: "string list \<Rightarrow> sd_options \<Rightarrow> (sd_options \<times> string list) option" where
  "sd_switches [] opt = Some (opt, [])"
| "sd_switches (a # args) opt =
    (if a \<noteq> [] \<and> is_switch (hd a) then Option.bind (sd_letters (tl a) opt) (sd_switches args)
     else Some (opt, a # args))"

function log2_of :: "QWORD \<Rightarrow> nat" where
  "log2_of bpc = (let n = drop_bit 1 bpc in if n = 0 then 0 else Suc (log2_of n))"
  by pat_completeness auto
termination
proof (relation "measure unat", simp, goal_cases)
  case (1 bpc n)
  then have n: "n \<noteq> 0" "unat n = unat bpc div 2" by (simp_all add: drop_bit_eq_div unat_div)
  from n(1) have "unat n \<noteq> 0" by (simp add: unat_eq_zero)
  with n(2) show ?case by simp
qed

declare log2_of.simps [simp del]

text \<open>The report on the files and on the disk, each number as it is printed but for its unit.\<close>

definition report_files :: "totals \<Rightarrow> sd_prog \<Rightarrow> sd_prog" where
  "report_files t k =
    (if nrfiles t \<noteq> 0 then
       Sys (Printf ''Found %.f file%s of %.f byte%s (%.4g %s).'' [I (uint (nrfiles t)), I (uint (totsiz t))]) (\<lambda>_.
       let blank = Sys (Puts []) (\<lambda>_. k) in
       if totsiz t \<noteq> 0 then
         Sys (Printf ''Files allocating %.f byte%s (%.4g %s)'' [I (uint (allocsiz t)), I (uint (totsiz t))]) (\<lambda>_.
         Sys (Printf ''Using half block size'' [I (uint (halfsiz t)), I (uint (totsiz t))]) (\<lambda>_.
         Sys (Printf ''Using double block size'' [I (uint (dblsiz t)), I (uint (totsiz t))]) (\<lambda>_. blank)))
       else blank)
     else Sys (Puts ''No files found.'') (\<lambda>_. k))"

definition report_disk :: "disk_facts \<Rightarrow> sd_prog" where
  "report_disk d =
    (let cluster = ucast (sectors_per_cluster d) * ucast (bytes_per_sector d) :: QWORD in
     Sys (Printf ''Allocation size on disk is %.f %s.''
       [I (uint cluster), I (uint (cluster * ucast (total_clusters d - free_clusters d))),
        I (uint (cluster * ucast (free_clusters d))), I (uint (cluster * ucast (total_clusters d)))]) (\<lambda>_. Done 0))"

definition search_files :: "nat \<Rightarrow> sd_options \<Rightarrow> disk_facts \<Rightarrow> sd_prog" where
  "search_files fuel opt d =
    (let opt = opt\<lparr>clussiz := log2_of (ucast (sectors_per_cluster d) * ucast (bytes_per_sector d))\<rparr> in
     Sys (Printf ''Finding files in size interval from %.4g %s to %.4g %s...''
       [S (pattern opt), I (uint (minsiz opt)), I (uint (maxsiz opt))]) (\<lambda>_.
     walk_directory fuel opt [] \<lparr>nrfiles = 0, totsiz = 0, allocsiz = 0, halfsiz = 0, dblsiz = 0\<rparr> (\<lambda>t.
       Sys Breaking (\<lambda>b.
       Sys (Fwrite (if rv b \<noteq> 0 then ''* break *'' else [])) (\<lambda>_.
       Sys Clreol (\<lambda>_. report_files t (report_disk d)))))))"

definition sizdir32_main :: "nat \<Rightarrow> string list \<Rightarrow> sd_prog" where
  "sizdir32_main fuel argv =
    (case sd_switches argv \<lparr>verbose = True, subdirs = True, compr = False, minsiz = 0, maxsiz = - 1,
       pattern = ''*'', clussiz = 0\<rparr> of
       None \<Rightarrow> Sys (Puts ''SIZDIR32, freeware by Olof Lagerkvist.'') (\<lambda>_. Done 0)
     | Some (opt, args) \<Rightarrow>
         let opt = (if length args > 0 then opt\<lparr>minsiz := size_arg (args ! 0)\<rparr> else opt);
             opt = (if length args > 1 then opt\<lparr>maxsiz := size_arg (args ! 1)\<rparr> else opt);
             opt = (if length args > 2 then opt\<lparr>pattern := args ! 2\<rparr> else opt);
             go = (\<lambda>d. if length args > 0 then search_files fuel opt d else report_disk d)
         in if length args > 2 \<and> (CHR 0x5C \<in> set (args ! 2) \<or> CHR ''/'' \<in> set (args ! 2)) then
              Sys (Eputs ''The name pattern cannot include a path.'') (\<lambda>_. Done 0)
            else
              Sys SetConsoleCtrlHandler (\<lambda>_.
              Sys (GetDiskFreeSpace (Some ''.'')) (\<lambda>r.
                if rv r \<noteq> 0 then go (disk r)
                else
                  Sys (GetDiskFreeSpace None) (\<lambda>r.
                    if rv r \<noteq> 0 then go (disk r) else Sys (Perror []) (\<lambda>_. Done (- 1))))))"

section \<open>What is shown and what is reported\<close>

text \<open>The sizes that a call shows, and the totals that it reports if these are the sizes so far.\<close>

definition SHOWN :: string where "SHOWN = ''%s, %.4g %s''"
definition FOUND :: string where "FOUND = ''Found %.f file%s of %.f byte%s (%.4g %s).''"

definition sizes_of :: "sd_call \<times> sd_reply \<Rightarrow> QWORD list" where
  "sizes_of e = (case fst e of Printf f [S name, I n] \<Rightarrow> if f = SHOWN then [word_of_int n] else [] | _ \<Rightarrow> [])"

definition shown :: "(sd_call, sd_reply) trace \<Rightarrow> QWORD list" where
  "shown tr = concat (map sizes_of tr)"

definition claim_ok :: "QWORD list \<Rightarrow> sd_call \<Rightarrow> bool" where
  "claim_ok sizes c =
    (case c of Printf f [I n, I s] \<Rightarrow> f = FOUND \<longrightarrow> n = uint (of_nat (length sizes) :: QWORD) \<and> s = uint (sum_list sizes)
     | _ \<Rightarrow> True)"

primrec honest :: "QWORD list \<Rightarrow> (sd_call, sd_reply) trace \<Rightarrow> bool" where
  "honest sizes [] = True"
| "honest sizes (e # tr) = (claim_ok sizes (fst e) \<and> honest (sizes @ sizes_of e) tr)"

lemma shown_append [simp]: "shown (a @ b) = shown a @ shown b"
  by (simp add: shown_def)

lemma honest_append: "honest xs (a @ b) \<longleftrightarrow> honest xs a \<and> honest (xs @ shown a) b"
  by (induction a arbitrary: xs) (auto simp: shown_def)

text \<open>The totals of a walk after a history.\<close>

definition counted :: "(sd_call, sd_reply) trace \<Rightarrow> totals \<Rightarrow> bool" where
  "counted h t \<longleftrightarrow> honest [] h \<and> nrfiles t = of_nat (length (shown h)) \<and> totsiz t = sum_list (shown h)"

definition quiet :: "sd_call \<Rightarrow> bool" where
  "quiet c \<longleftrightarrow> (\<forall>sizes r. sizes_of (c, r) = [] \<and> claim_ok sizes c)"

lemma quiet_calls [simp]:
  "quiet (Puts t)" "quiet (Eputs t)" "quiet (Perror t)" "quiet (CharToOem t)" "quiet (Fwrite t)" "quiet Clreol"
  "quiet Sleep" "quiet SetConsoleCtrlHandler" "quiet (GetDiskFreeSpace path)" "quiet (FindFirst t)" "quiet (FindNext h)"
  "quiet (FindClose h)" "quiet (SetCurrentDirectory t)" "quiet (GetCompressedSize t)" "quiet Breaking"
  "quiet (Printf f [S x1])" "quiet (Printf f [S x1, I b, I c])" "quiet (Printf f [I a, I b, I c, I d])"
  "f \<noteq> FOUND \<Longrightarrow> quiet (Printf f [I a, I b])"
  by (simp_all add: quiet_def sizes_of_def claim_ok_def)

lemma quiet_step [simp]: "quiet c \<Longrightarrow> claim_ok sizes c" "quiet c \<Longrightarrow> sizes_of (c, r) = []"
  by (simp_all add: quiet_def)

lemma honest_quiet:
  "quiet c \<Longrightarrow> honest xs (h @ (c, r) # tr) \<longleftrightarrow> honest xs (h @ tr)"
  "quiet c \<Longrightarrow> honest xs (h @ e # (c, r) # tr) \<longleftrightarrow> honest xs (h @ e # tr)"
  by (auto simp: honest_append)

lemma shown_quiet:
  "quiet c \<Longrightarrow> shown ((c, r) # tr) = shown tr" "quiet c \<Longrightarrow> shown (e # (c, r) # tr) = shown (e # tr)"
  by (simp_all add: shown_def)

lemma counted_quiet:
  "quiet c \<Longrightarrow> counted ((c, r) # tr) t \<longleftrightarrow> counted tr t"
  "quiet c \<Longrightarrow> counted (h @ (c, r) # tr) t \<longleftrightarrow> counted (h @ tr) t"
  "quiet c \<Longrightarrow> counted (h @ e # (c, r) # tr) t \<longleftrightarrow> counted (h @ e # tr) t"
  by (simp_all add: counted_def honest_quiet shown_quiet)

abbreviation truthful :: "(sd_call, sd_reply) trace \<Rightarrow> sd_prog \<Rightarrow> bool" where
  "truthful \<equiv> holds anything (\<lambda>tr _. honest [] tr)"

lemma truthful_quiet:
  "quiet c \<Longrightarrow> (\<And>h r. counted h t \<Longrightarrow> truthful h (k r)) \<Longrightarrow> counted h t \<Longrightarrow> truthful h (Sys c k)"
  by (simp add: counted_quiet)

lemma truthful_filter:
  "(\<And>h d. counted h t \<Longrightarrow> truthful h (k d)) \<Longrightarrow> counted h t \<Longrightarrow> truthful h (filter_entry fuel hn q d k)"
  by (induction fuel arbitrary: h d) (auto simp: counted_quiet)

lemma truthful_next_turn:
  assumes "\<And>h d. counted h t \<Longrightarrow> truthful h (go d)" "\<And>h. counted h t \<Longrightarrow> truthful h stop"
  shows "counted h t \<Longrightarrow> truthful h (next_turn fuel hn q go stop)"
  unfolding next_turn_def next_entry_def Let_def
  by (rule truthful_quiet)
    (auto intro!: truthful_filter simp: assms counted_quiet split: option.splits)

lemma truthful_start:
  assumes "\<And>h x. counted h t \<Longrightarrow> truthful h (k x)"
  shows "counted h t \<Longrightarrow> truthful h (start_search fuel pat q k)"
  unfolding start_search_def
  by (rule truthful_quiet)
    (auto intro!: truthful_filter simp: assms counted_quiet split: option.splits)

text \<open>The product with \<open>MAXDWORD\<close> leaves the value that stands for an error unused.\<close>

lemma size64_no_error: "size64 d \<noteq> - 1"
proof -
  have "unat x < 2 ^ 32" for x :: DWORD using unsigned_less[of x] by simp
  then have h: "unat (fsize_high d) \<le> 0xFFFFFFFF" "unat (fsize_low d) \<le> 0xFFFFFFFF"
    by (simp_all add: Suc_leI[of _ "2 ^ 32", simplified] less_Suc_eq_le[symmetric])
  have "unat (fsize_high d) * 0xFFFFFFFF \<le> 0xFFFFFFFF * 0xFFFFFFFF" using h(1) by (rule mult_le_mono1)
  with h have lt: "unat (fsize_high d) * 0xFFFFFFFF + unat (fsize_low d) < 2 ^ 64 - 1" by simp
  have "size64 d = of_nat (unat (fsize_high d) * 0xFFFFFFFF + unat (fsize_low d))"
    by (simp add: size64_def unsigned_ucast_eq)
  moreover have "unat (of_nat n :: QWORD) = n" if "n < 2 ^ 64" for n
    using that by (simp add: unsigned_of_nat take_bit_nat_eq_self)
  ultimately have "unat (size64 d) = unat (fsize_high d) * 0xFFFFFFFF + unat (fsize_low d)"
    using lt by (simp only:)
  moreover have "unat (- 1 :: QWORD) = 2 ^ 64 - 1" by (simp add: unsigned_minus_1_eq_mask mask_eq_exp_minus_1)
  ultimately have "unat (size64 d) \<noteq> unat (- 1 :: QWORD)" using lt by (simp only:)
  then show ?thesis by metis
qed

section \<open>The totals are those of the files shown\<close>

lemma counted_shown:
  "counted h t \<Longrightarrow> counted (h @ [(Printf SHOWN [S name, I (uint n)], r)]) (t\<lparr>nrfiles := nrfiles t + 1, totsiz := totsiz t + n\<rparr>)"
  by (simp add: counted_def honest_append shown_def sizes_of_def claim_ok_def add.commute)

lemma counted_update [simp]:
  "counted h (t\<lparr>allocsiz := a\<rparr>) \<longleftrightarrow> counted h t" "counted h (t\<lparr>halfsiz := a\<rparr>) \<longleftrightarrow> counted h t"
  "counted h (t\<lparr>dblsiz := a\<rparr>) \<longleftrightarrow> counted h t"
  by (simp_all add: counted_def)

lemma counted_add_file:
  "counted h (t\<lparr>nrfiles := nrfiles t + 1, totsiz := totsiz t + n\<rparr>) \<Longrightarrow> counted h (add_file opt n used t)"
  by (simp add: counted_def add_file_def)

lemma truthful_count_file:
  assumes "verbose opt" "counted h t" "\<And>h t. counted h t \<Longrightarrow> truthful h (k t)"
  shows "truthful h (count_file opt prefix d t k)"
  using assms counted_shown[of h t, unfolded SHOWN_def]
  by (auto simp: count_file_def show_file_def Let_def size64_no_error counted_quiet honest_quiet
      intro!: assms(3) counted_add_file)

lemma truthful_file_loop:
  assumes "verbose opt" "\<And>h t. counted h t \<Longrightarrow> truthful h (k t)"
  shows "counted h t \<Longrightarrow> truthful h (file_loop fuel opt prefix hn d t k)"
proof (induction fuel arbitrary: h d t)
  case (Suc fuel)
  note more = truthful_next_turn[OF Suc.IH assms(2)]
  from Suc.prems assms(1) show ?case
    by (auto simp: Let_def too_long_def counted_quiet intro!: truthful_count_file more)
qed simp

lemma truthful_dir_loop:
  assumes walk: "\<And>h t p k. (\<And>h t. counted h t \<Longrightarrow> truthful h (k t)) \<Longrightarrow> counted h t \<Longrightarrow> truthful h (walk p t k)"
    and k: "\<And>h t. counted h t \<Longrightarrow> truthful h (k t)"
  shows "counted h t \<Longrightarrow> truthful h (dir_loop walk fuel prefix hn d t k)"
proof (induction fuel arbitrary: h d t)
  case (Suc fuel)
  note more = truthful_next_turn[OF Suc.IH k]
  from Suc.prems show ?case
    by (auto simp: Let_def too_long_def counted_quiet intro!: walk more)
qed simp

lemma truthful_walk:
  assumes "verbose opt"
  shows "(\<And>h t. counted h t \<Longrightarrow> truthful h (k t)) \<Longrightarrow> counted h t \<Longrightarrow>
    truthful h (walk_directory fuel opt prefix t k)"
proof (induction fuel arbitrary: h t prefix k)
  case (Suc fuel)
  note files = truthful_file_loop[OF assms Suc.prems(1)] and dirs = truthful_dir_loop[OF Suc.IH]
  from Suc.prems(2) show ?case
    by (auto simp: Let_def counted_quiet intro!: truthful_start files dirs Suc.prems(1) split: option.splits)
qed simp

lemma honest_reported:
  "counted h t \<Longrightarrow> honest [] (h @ [(Printf FOUND [I (uint (nrfiles t)), I (uint (totsiz t))], r)])"
  by (simp add: counted_def honest_append claim_ok_def)

lemma truthful_report_disk: "honest [] h \<Longrightarrow> truthful h (report_disk d)"
  by (simp add: report_disk_def Let_def honest_quiet)

lemma truthful_report_files:
  assumes "counted h t" "\<And>h. honest [] h \<Longrightarrow> truthful h k"
  shows "truthful h (report_files t k)"
  using assms honest_reported[OF assms(1), unfolded FOUND_def]
  by (auto simp: report_files_def Let_def honest_quiet FOUND_def counted_def intro!: assms(2))

lemma truthful_search_files:
  assumes "verbose opt" "counted h \<lparr>nrfiles = 0, totsiz = 0, allocsiz = 0, halfsiz = 0, dblsiz = 0\<rparr>"
  shows "truthful h (search_files fuel opt d)"
  using assms
  by (auto simp: search_files_def Let_def counted_quiet intro!: truthful_walk truthful_report_files truthful_report_disk)

abbreviation sd_defaults :: sd_options where
  "sd_defaults \<equiv> \<lparr>verbose = True, subdirs = True, compr = False, minsiz = 0, maxsiz = - 1, pattern = ''*'', clussiz = 0\<rparr>"


text \<open>A disk with clusters of 512 bytes and a directory with two files of 5 and 700 bytes.\<close>

definition two_files :: "nat \<Rightarrow> sd_call \<Rightarrow> sd_reply \<times> nat" where
  "two_files n c =
    (let r = (\<lambda>v size. \<lparr>rv = v, out = [], line = [], num = 0, err = 0,
           entry = \<lparr>fattributes = 0, fsize_high = 0, fsize_low = size, fname = ''a''\<rparr>,
           disk = \<lparr>sectors_per_cluster = 1, bytes_per_sector = 512, free_clusters = 0, total_clusters = 9\<rparr>\<rparr>)
     in case c of
          FindFirst p \<Rightarrow> (r (if p = ''*'' then - 1 else 5) 5, n)
        | FindNext h \<Rightarrow> (r (if n = 0 then 1 else 0) 700, n + 1)
        | Breaking \<Rightarrow> (r 0 0, n)
        | _ \<Rightarrow> (r 1 0, n))"

lemma sizes_of_args: "size_arg ''0'' = 0" "size_arg ''2K'' = 2048"
  by (simp_all add: size_arg_def strtol_def Let_def number_prefix_def is_digit_of_def digit_value_def
      digits_value_def c_isspace_def code_def)

lemma log2_512: "log2_of 512 = 9"
  by (simp add: log2_of.simps)

lemma add_file_sums:
  "nrfiles (add_file opt n used t) = nrfiles t + 1" "totsiz (add_file opt n used t) = totsiz t + n"
  by (simp_all add: add_file_def)

lemma two_files_run:
  "fuel = Suc (Suc (Suc (Suc 0))) \<Longrightarrow> fst (interp two_files 0 (search_files fuel (sd_defaults\<lparr>maxsiz := 2048, pattern := ''*.c''\<rparr>)
    \<lparr>sectors_per_cluster = 1, bytes_per_sector = 512, free_clusters = 0, total_clusters = 9\<rparr>)) = Some 0"
  supply [simp] = Let_def two_files_def add_file_sums
  apply (simp add: search_files_def log2_512 start_search_def)
  apply (simp add: filter_entry.simps passes_def file_search_def size64_def)
  apply (simp add: file_loop.simps PATH_ROOM_def count_file_def show_file_def size64_def)
  apply (simp add: next_turn_def next_entry_def passes_def file_search_def size64_def)
  apply (simp add: count_file_def show_file_def size64_def)
  apply (simp add: report_files_def report_disk_def)
  done


text \<open>The size in clusters is the least multiple of a cluster that holds the file, also for none.\<close>

lemma unat_in_blocks: "unat (in_blocks c n) = 2 ^ c * (unat (n - 1) div 2 ^ c + 1) mod 2 ^ 64"
proof -
  have "take_bit 64 (unat (n - 1)) = unat (n - 1)"
    using unsigned_less[of "n - 1"] by (simp add: take_bit_nat_eq_self_iff)
  then have d: "unat (drop_bit c (n - 1)) = unat (n - 1) div 2 ^ c"
    by (subst unsigned_drop_bit_eq) (simp add: drop_bit_eq_div[where 'a = nat])
  have s: "unat (x + 1) = (unat x + 1) mod 2 ^ 64" for x :: QWORD by (simp add: unat_word_ariths)
  have "unat (in_blocks c n) = take_bit 64 (push_bit c (unat (drop_bit c (n - 1) + 1)))"
    by (simp add: in_blocks_def unsigned_push_bit_eq)
  then show ?thesis
    by (simp only: s d push_bit_eq_mult take_bit_eq_mod mod_mult_left_eq mult.commute[of "2 ^ c"])
qed

lemma div_round_up: "0 < m \<Longrightarrow> 0 < k \<Longrightarrow> (k - 1) div m + 1 = (k + m - 1) div (m :: nat)"
  by (cases k) (simp_all add: div_add_self2)

lemma in_blocks_rounds:
  assumes "c < 64" "unat n + 2 ^ c \<le> 2 ^ 64"
  shows "unat (in_blocks c n) = 2 ^ c * ((unat n + 2 ^ c - 1) div 2 ^ c)"
proof (cases "n = 0")
  case True
  have m: "2 ^ c * ((2 ^ 64 - 1) div 2 ^ c + 1) = (2 ^ 64 :: nat)"
  proof -
    have "(2 ^ 64 :: nat) = 2 ^ c * 2 ^ (64 - c)" using assms(1) by (simp flip: power_add)
    moreover have "(2 ^ c * k - 1) div 2 ^ c + 1 = (k :: nat)" if "0 < k" for k
    proof -
      have "((2 ^ c - 1) + 2 ^ c * k) div 2 ^ c = k + (2 ^ c - 1) div (2 ^ c :: nat)" by (rule div_mult_self2) simp
      moreover have "2 ^ c * k + 2 ^ c - 1 = (2 ^ c - 1) + 2 ^ c * k" by simp
      moreover have "(2 ^ c - 1) div (2 ^ c :: nat) = 0" by simp
      ultimately have "(2 ^ c * k + 2 ^ c - 1) div 2 ^ c = k" by (simp only: add_0_right)
      with that show ?thesis using div_round_up[of "2 ^ c" "2 ^ c * k"] by simp
    qed
    ultimately show ?thesis by (metis zero_less_numeral zero_less_power)
  qed
  have "unat (n - 1) = 2 ^ 64 - 1" using True by (simp add: unsigned_minus_1_eq_mask mask_eq_exp_minus_1)
  then show ?thesis using True by (simp only: unat_in_blocks m) simp
next
  case False
  then have n: "unat (n - 1) = unat n - 1" "0 < unat n"
    by (simp_all add: unat_gt_0 unat_minus_one)
  let ?k = "(unat n + 2 ^ c - 1) div 2 ^ c"
  have "2 ^ c * ?k \<le> unat n + 2 ^ c - 1" by simp
  with assms(2) n(2) have "2 ^ c * ?k < 2 ^ 64" by linarith
  with n show ?thesis by (simp only: unat_in_blocks div_round_up mod_less zero_less_power zero_less_numeral)
qed

text \<open>
  A name that fills the buffer but for the separator passes the test, and the separator is written
  behind the buffer.
\<close>

lemma name_of_259:
  "length (fname d) + length prefix = 259 \<Longrightarrow> 2 < length (fname d) \<Longrightarrow>
    dir_loop walk (Suc fuel) prefix h d t k = Crash"
  by (auto simp: PATH_ROOM_def)

text \<open>A disk with clusters of one byte makes a shift by \<open>-1\<close>.\<close>

lemma single_byte_cluster:
  "clussiz opt = 0 \<Longrightarrow> \<not> verbose opt \<Longrightarrow> \<not> compr opt \<Longrightarrow> count_file opt prefix d t k = Crash"
  by (simp add: count_file_def show_file_def)

end
