(* ===== verification/TxtConv.thy ===== *)
theory TxtConv
  imports CLib Worlds
begin

text \<open>
  \<open>txtcnv32.cpp\<close>: converts text between the code pages of Windows and of consoles, in files in
  place or from the standard input to the standard output, where it can also convert between any
  two code pages and swap the bytes of 16 bit characters. The conversions of Windows are calls.
\<close>

section \<open>Calls\<close>

text \<open>
  What a conversion made of its bytes is in \<open>out\<close>, and the number of characters of a decoded text
  in \<open>num\<close>. \<open>ConvertView\<close> works on a part of a file in memory. \<open>OemToChar\<close> and \<open>CharToOem\<close> are the
  two directions.
\<close>

datatype conversion = NoOperation | OEMToChar | CharToOEM | Codec

datatype tc_call =
    Fputs string
  | Fprintf string "arg list"
  | Perror string
  | CreateFile string
  | GetFileSize int
  | CreateFileMapping int
  | MapViewOfFile int
  | UnmapViewOfFile int
  | CloseHandle int
  | ConvertView conversion int nat nat
  | Convert conversion "byte list"
  | MultiByteToWideChar DWORD "byte list" nat
  | WideCharToMultiByte DWORD "byte list" nat
  | ReadStdIn nat
  | WriteStdOut "byte list"
  | Sleep

type_synonym tc_prog = "(tc_call, reply) prog"

section \<open>Switches\<close>

record tc_options =
  conv :: conversion
  DecodePage :: DWORD
  EncodePage :: DWORD
  byteswap :: bool

definition tc_defaults :: tc_options where
  "tc_defaults = \<lparr>conv = NoOperation, DecodePage = 0, EncodePage = 0, byteswap = False\<rparr>"

text \<open>The number behind a letter and a colon.\<close>

definition page_of :: "string \<Rightarrow> DWORD option" where
  "page_of w = (if w \<noteq> [] \<and> hd w = CHR '':'' then Some (fst (strtoul (tl w) 0)) else None)"

text \<open>The letters of an argument; None shows the usage. Other letters do nothing.\<close>

fun tc_letters :: "string \<Rightarrow> tc_options \<Rightarrow> tc_options option" where
  "tc_letters [] opt = Some opt"
| "tc_letters (c # w) opt =
    (if c \<in> {CHR ''a'', CHR ''A''} then
       if conv opt \<noteq> NoOperation then None else tc_letters w (opt\<lparr>conv := CharToOEM\<rparr>)
     else if c \<in> {CHR ''o'', CHR ''O''} then
       if conv opt \<noteq> NoOperation then None else tc_letters w (opt\<lparr>conv := OEMToChar\<rparr>)
     else if c \<in> {CHR ''d'', CHR ''D''} then
       if conv opt \<noteq> NoOperation \<and> conv opt \<noteq> Codec then None
       else map_option (\<lambda>n. opt\<lparr>conv := Codec, DecodePage := n\<rparr>) (page_of w)
     else if c \<in> {CHR ''s'', CHR ''S''} then tc_letters w (opt\<lparr>byteswap := True\<rparr>)
     else if c \<in> {CHR ''e'', CHR ''E''} then
       if conv opt \<noteq> NoOperation \<and> conv opt \<noteq> Codec then None
       else map_option (\<lambda>n. opt\<lparr>conv := Codec, EncodePage := n\<rparr>) (page_of w)
     else tc_letters w opt)"

fun tc_switches :: "string list \<Rightarrow> tc_options \<Rightarrow> (tc_options \<times> string list) option" where
  "tc_switches [] opt = Some (opt, [])"
| "tc_switches (a # args) opt =
    (if a \<noteq> [] \<and> is_switch (hd a) \<and> a \<noteq> ''-'' \<and> a \<noteq> ''--'' then
       Option.bind (tc_letters (tl a) opt) (tc_switches args)
     else Some (opt, a # args))"

section \<open>Files in place\<close>

text \<open>The file in memory is converted in pieces of \<open>2\<^sup>3\<^sup>0\<close> bytes and a rest.\<close>

function convert_view :: "conversion \<Rightarrow> int \<Rightarrow> nat \<Rightarrow> nat \<Rightarrow> tc_prog \<Rightarrow> tc_prog" where
  "convert_view c v pos left k =
    (if 0x40000000 \<le> left then
       Sys (ConvertView c v pos 0x40000000) (\<lambda>_. convert_view c v (pos + 0x40000000) (left - 0x40000000) k)
     else Sys (ConvertView c v pos left) (\<lambda>_. k))"
  by pat_completeness auto
termination by (relation "measure (\<lambda>(c, v, pos, left, k). left)") auto

declare convert_view.simps [simp del]

definition convert_file :: "conversion \<Rightarrow> string \<Rightarrow> tc_prog \<Rightarrow> tc_prog" where
  "convert_file c name k =
    Sys (CreateFile name) (\<lambda>f.
      if rv f = invalid_handle then Sys (Perror name) (\<lambda>_. k)
      else
        let give_up = Sys (Perror name) (\<lambda>_. Sys (CloseHandle (rv f)) (\<lambda>_. k)) in
        Sys (GetFileSize (rv f)) (\<lambda>z.
          if num z mod 2 ^ 32 = 2 ^ 32 - 1 \<and> err z \<noteq> 0 then give_up
          else
            Sys (CreateFileMapping (rv f)) (\<lambda>m.
              if rv m = 0 then give_up
              else
                Sys (CloseHandle (rv f)) (\<lambda>_.
                Sys (MapViewOfFile (rv m)) (\<lambda>v.
                  if rv v = 0 then Sys (Perror name) (\<lambda>_. Sys (CloseHandle (rv m)) (\<lambda>_. Done (- 1)))
                  else
                    Sys (CloseHandle (rv m)) (\<lambda>_.
                    convert_view c (rv v) 0 (nat (num z)) (Sys (UnmapViewOfFile (rv v)) (\<lambda>_. k))))))))"

primrec convert_files :: "conversion \<Rightarrow> string list \<Rightarrow> tc_prog" where
  "convert_files c [] = Done 0"
| "convert_files c (f # fs) = convert_file c f (convert_files c fs)"

section \<open>The stream\<close>

fun swab :: "byte list \<Rightarrow> byte list" where
  "swab (a # b # bs) = b # a # swab bs"
| "swab bs = bs"

definition BUFSIZE :: nat where "BUFSIZE = 2048"

text \<open>
  The bytes of \<open>sizeread >> 1\<close> characters of 16 bits; an odd byte at the end is left out.
\<close>

definition whole_chars :: "byte list \<Rightarrow> byte list" where
  "whole_chars bs = take (length bs div 2 * 2) bs"

definition decoded :: "tc_options \<Rightarrow> byte list \<Rightarrow> (byte list \<Rightarrow> tc_prog) \<Rightarrow> tc_prog" where
  "decoded opt bs k =
    (if DecodePage opt \<noteq> 0 then
       Sys (MultiByteToWideChar (DecodePage opt) bs BUFSIZE) (\<lambda>r.
         if num r = 0 then Sys (Perror ''Conversion error'') (\<lambda>_. Done (- 1)) else k (out r))
     else k (whole_chars bs))"

definition encoded :: "tc_options \<Rightarrow> byte list \<Rightarrow> (byte list \<Rightarrow> tc_prog) \<Rightarrow> tc_prog" where
  "encoded opt cs k =
    (if EncodePage opt \<noteq> 0 then
       Sys (WideCharToMultiByte (EncodePage opt) cs (2 * BUFSIZE)) (\<lambda>r.
         if num r = 0 then Sys (Perror ''Conversion error'') (\<lambda>_. Done (- 1)) else k (out r))
     else k cs)"

definition recode :: "tc_options \<Rightarrow> byte list \<Rightarrow> (byte list \<Rightarrow> tc_prog) \<Rightarrow> tc_prog" where
  "recode opt bs k =
    (if conv opt \<in> {OEMToChar, CharToOEM} then
       Sys (Convert (conv opt) bs) (\<lambda>r. k (take (length bs) (poke bs 0 (out r))))
     else decoded opt bs (\<lambda>cs. encoded opt (if byteswap opt then swab cs else cs) k))"

definition ERROR_BROKEN_PIPE :: int where "ERROR_BROKEN_PIPE = 109"

definition put_text :: "byte list \<Rightarrow> tc_prog \<Rightarrow> tc_prog" where
  "put_text bs k =
    Sys (WriteStdOut bs) (\<lambda>w.
      if rv w = 0 then Sys (Perror ''stdout'') (\<lambda>_. Done (- 1))
      else if num w \<noteq> int (length bs) then
        Sys (Fprintf ''Warning: Lost %u bytes.'' [I (int (length bs) - num w)]) (\<lambda>_. k)
      else k)"

primrec stream_loop :: "nat \<Rightarrow> tc_options \<Rightarrow> tc_prog" where
  "stream_loop 0 opt = OutOfFuel"
| "stream_loop (Suc fuel) opt =
    Sys (ReadStdIn BUFSIZE) (\<lambda>r.
      if rv r = 0 then
        if err r = ERROR_BROKEN_PIPE then Done 0 else Sys (Perror ''stdin'') (\<lambda>_. Done (- 1))
      else if out r = [] then Done 0
      else recode opt (out r) (\<lambda>bs. put_text bs (Sys Sleep (\<lambda>_. stream_loop fuel opt))))"

definition usage :: tc_prog where
  "usage = Sys (Fputs ''Text codepage conversion tool, freeware by Olof Lagerkvist.'') (\<lambda>_. Done 1)"

definition txtcnv32_main :: "nat \<Rightarrow> string list \<Rightarrow> tc_prog" where
  "txtcnv32_main fuel args =
    (if args = [] then usage
     else
       case tc_switches args tc_defaults of
         None \<Rightarrow> usage
       | Some (opt, names) \<Rightarrow>
           if conv opt = NoOperation then usage
           else if names \<noteq> [] then
             if conv opt = Codec then
               Sys (Fputs ''You can only specify filenames with the -a or -o switches.'') (\<lambda>_. Done 1)
             else convert_files (conv opt) names
           else stream_loop fuel opt)"

section \<open>A pipe and a file\<close>

text \<open>
  What is still to come, what was written, and a file that is converted in place. The two
  single byte code pages are a function on bytes for each direction. Only the last piece of
  the input may have an odd length.
\<close>

record tc_state =
  to_come :: "byte list"
  written :: "byte list"
  image :: "byte list"

definition tc_world :: "(conversion \<Rightarrow> byte \<Rightarrow> byte) \<Rightarrow> (tc_state, tc_call, reply) world" where
  "tc_world table w c r w' \<longleftrightarrow>
    (case c of
       ReadStdIn n \<Rightarrow>
         rv r \<noteq> 0 \<and> length (out r) \<le> n \<and> out r = take (length (out r)) (to_come w) \<and>
         w' = w\<lparr>to_come := drop (length (out r)) (to_come w)\<rparr> \<and> (out r = [] \<longrightarrow> n = 0 \<or> to_come w = []) \<and>
         (even (length (out r)) \<or> to_come w' = [])
     | WriteStdOut bs \<Rightarrow> rv r \<noteq> 0 \<and> num r = int (length bs) \<and> w' = w\<lparr>written := written w @ bs\<rparr>
     | Convert d bs \<Rightarrow> out r = map (table d) bs \<and> w' = w
     | ConvertView d v p n \<Rightarrow> w' = w\<lparr>image := poke (image w) p (map (table d) (peek (image w) p n))\<rparr>
     | CreateFile f \<Rightarrow> rv r \<noteq> invalid_handle \<and> w' = w
     | GetFileSize h \<Rightarrow> num r = int (length (image w)) \<and> err r = 0 \<and> w' = w
     | CreateFileMapping h \<Rightarrow> rv r \<noteq> 0 \<and> w' = w
     | MapViewOfFile m \<Rightarrow> rv r \<noteq> 0 \<and> w' = w
     | _ \<Rightarrow> w' = w)"

definition recoded :: "(conversion \<Rightarrow> byte \<Rightarrow> byte) \<Rightarrow> tc_options \<Rightarrow> byte list \<Rightarrow> byte list" where
  "recoded table opt bs =
    (if conv opt \<in> {OEMToChar, CharToOEM} then map (table (conv opt)) bs
     else if byteswap opt then swab (whole_chars bs) else whole_chars bs)"

section \<open>The effect of a conversion\<close>

lemma length_swab [simp]: "length (swab bs) = length bs"
  by (induction bs rule: swab.induct) simp_all

lemma swab_append: "even (length xs) \<Longrightarrow> swab (xs @ ys) = swab xs @ swab ys"
  by (induction xs rule: swab.induct) simp_all

text \<open>To swap the bytes is its own inverse.\<close>

lemma swab_swab: "swab (swab bs) = bs"
  by (induction bs rule: swab.induct) simp_all

lemma whole_chars_append: "even (length xs) \<Longrightarrow> whole_chars (xs @ ys) = xs @ whole_chars ys"
  by (auto simp: whole_chars_def elim!: evenE)

lemma recoded_append: "even (length xs) \<Longrightarrow> recoded table opt (xs @ ys) = recoded table opt xs @ recoded table opt ys"
  using whole_chars_append[of xs "[]"] whole_chars_append[of xs ys]
  by (simp add: recoded_def swab_append whole_chars_def[of "[]"])

lemma recoded_Nil [simp]: "recoded table opt [] = []"
  by (simp add: recoded_def whole_chars_def)

lemma recoded_pieces:
  "bs = take (length bs) xs \<Longrightarrow> even (length bs) \<or> drop (length bs) xs = [] \<Longrightarrow>
    recoded table opt xs = recoded table opt bs @ recoded table opt (drop (length bs) xs)"
  by (metis append_Nil2 append_take_drop_id recoded_Nil recoded_append)

lemma wp_recode:
  assumes "DecodePage opt = 0" "EncodePage opt = 0" "wpx (tc_world table) Q E w (k (recoded table opt bs))"
  shows "wpx (tc_world table) Q E w (recode opt bs k)"
  using assms by (auto simp: recode_def recoded_def decoded_def encoded_def tc_world_def poke_def)

lemma wp_put_text:
  "wpx (tc_world table) Q E (w\<lparr>written := written w @ bs\<rparr>) k \<Longrightarrow> wpx (tc_world table) Q E w (put_text bs k)"
  by (simp add: put_text_def tc_world_def)

lemma wp_stream_loop:
  assumes "DecodePage opt = 0" "EncodePage opt = 0"
  shows "length (to_come w) < fuel \<Longrightarrow> x = written w @ recoded table opt (to_come w) \<Longrightarrow>
    wp (tc_world table) (\<lambda>w' n. n = 0 \<and> written w' = x) w (stream_loop fuel opt)"
proof (induction fuel arbitrary: w)
  case (Suc fuel)
  have "wp (tc_world table) (\<lambda>w' n. n = 0 \<and> written w' = x) w'
      (recode opt bs (\<lambda>bs. put_text bs (Sys Sleep (\<lambda>_. stream_loop fuel opt))))"
    if "bs = take (length bs) (to_come w)" "w' = w\<lparr>to_come := drop (length bs) (to_come w)\<rparr>" "bs \<noteq> []"
      "even (length bs) \<or> to_come w' = []" for bs w'
  proof (intro wp_recode[OF assms] wp_put_text wp_Sys)
    let ?w = "w'\<lparr>written := written w' @ recoded table opt bs\<rparr>"
    fix r w'' assume "tc_world table ?w Sleep r w''"
    then have w: "w'' = ?w" by (simp add: tc_world_def)
    have "length (to_come w') < fuel"
      using Suc.prems(1) that by (cases bs; cases "to_come w") auto
    moreover have "x = written ?w @ recoded table opt (to_come w')"
      using recoded_pieces[OF that(1)] that(2,4) Suc.prems(2) by simp
    ultimately show "wp (tc_world table) (\<lambda>w' n. n = 0 \<and> written w' = x) w'' (stream_loop fuel opt)"
      using w by (intro Suc.IH) simp_all
  qed
  note turn = this
  show ?case
  proof (simp only: stream_loop.simps, rule wp_Sys)
    fix r w' assume r: "tc_world table w (ReadStdIn BUFSIZE) r w'"
    then have p: "out r = take (length (out r)) (to_come w)"
      "w' = w\<lparr>to_come := drop (length (out r)) (to_come w)\<rparr>" "even (length (out r)) \<or> to_come w' = []" "rv r \<noteq> 0"
      "out r = [] \<Longrightarrow> to_come w = []"
      by (auto simp: tc_world_def BUFSIZE_def)
    show "wp (tc_world table) (\<lambda>w' n. n = 0 \<and> written w' = x) w'
      (if rv r = 0 then
         if err r = ERROR_BROKEN_PIPE then Done 0 else Sys (Perror ''stdin'') (\<lambda>_. Done (- 1))
       else if out r = [] then Done 0
       else recode opt (out r) (\<lambda>bs. put_text bs (Sys Sleep (\<lambda>_. stream_loop fuel opt))))"
    proof (cases "out r = []")
      case True
      with p Suc.prems(2) show ?thesis by simp
    next
      case False
      from turn[OF p(1,2) this p(3)] p(4) False show ?thesis by simp
    qed
  qed
qed simp



section \<open>Files in place\<close>

lemma poke_map_front:
  "pos + n \<le> length m \<Longrightarrow> poke (map f (take pos m) @ drop pos m) pos (map f (peek (map f (take pos m) @ drop pos m) pos n)) =
    map f (take (pos + n) m) @ drop (pos + n) m"
  by (simp add: poke_def peek_def take_add add.commute[of n])

lemma wp_convert_piece:
  assumes "image w = map (table c) (take pos m) @ drop pos m" "pos + n \<le> length m"
    and "wpx (tc_world table) Q E (w\<lparr>image := map (table c) (take (pos + n) m) @ drop (pos + n) m\<rparr>) k"
  shows "wpx (tc_world table) Q E w (Sys (ConvertView c v pos n) (\<lambda>_. k))"
proof (rule wp_Sys)
  fix r w' assume "tc_world table w (ConvertView c v pos n) r w'"
  then have "w' = w\<lparr>image := map (table c) (take (pos + n) m) @ drop (pos + n) m\<rparr>"
    using assms(1,2) poke_map_front[of pos n m "table c"] by (simp add: tc_world_def)
  with assms(3) show "wpx (tc_world table) Q E w' k" by simp
qed

lemma wp_convert_view:
  "image w = map (table c) (take pos m) @ drop pos m \<Longrightarrow> pos + left = length m \<Longrightarrow>
    wpx (tc_world table) Q E (w\<lparr>image := map (table c) m\<rparr>) k \<Longrightarrow>
    wpx (tc_world table) Q E w (convert_view c v pos left k)"
proof (induction left arbitrary: w pos rule: less_induct)
  case (less left)
  show ?case
  proof (cases "0x40000000 \<le> left")
    case True
    have "wpx (tc_world table) Q E w
        (Sys (ConvertView c v pos 0x40000000) (\<lambda>_. convert_view c v (pos + 0x40000000) (left - 0x40000000) k))"
      by (rule wp_convert_piece[where m = m], rule less.prems(1), use True less.prems(2) in simp, rule less.IH)
        (use True less.prems in simp_all)
    with True show ?thesis by (subst convert_view.simps) simp
  next
    case False
    have "wpx (tc_world table) Q E w (Sys (ConvertView c v pos left) (\<lambda>_. k))"
      by (rule wp_convert_piece[where m = m], rule less.prems(1)) (use less.prems(2,3) in simp_all)
    with False show ?thesis by (subst convert_view.simps) simp
  qed
qed

text \<open>A file that can be opened and mapped is converted byte by byte, whatever its size.\<close>

lemma txtcnv32_in_place:
  assumes "tc_switches args tc_defaults = Some (opt, [name])" "conv opt \<in> {OEMToChar, CharToOEM}"
  shows "wp (tc_world table) (\<lambda>w' n. n = 0 \<and> image w' = map (table (conv opt)) (image w)) w (txtcnv32_main fuel args)"
proof -
  have "args \<noteq> []" using assms(1) by auto
  moreover have "wp (tc_world table) (\<lambda>w' n. n = 0 \<and> image w' = map (table (conv opt)) (image w)) w
      (convert_file (conv opt) name (Done 0))"
    by (auto simp: convert_file_def Let_def tc_world_def intro!: wp_convert_view[of _ table "conv opt" 0 "image w"])
  ultimately show ?thesis using assms(1,2) by (auto simp: txtcnv32_main_def)
qed

section \<open>Where the code differs from its description\<close>

text \<open>An odd piece in the middle loses a byte, so that all later characters are taken apart wrongly.\<close>

lemma odd_piece_loses: "whole_chars [1, 2, 3] @ whole_chars [4, 5, 6] = [1, 2, 4, 5]"
  by (simp add: whole_chars_def)

text \<open>The usage shows \<open>-s\<close> on its own as a possible command; it shows the usage again.\<close>

lemma swap_alone: "txtcnv32_main fuel [''-s''] = usage"
  by (simp add: txtcnv32_main_def tc_defaults_def is_switch_iff)

text \<open>A file that cannot be opened does not change the status.\<close>

lemma missing_file_succeeds:
  assumes "\<And>w f r w'. T w (CreateFile f) r w' \<Longrightarrow> rv r = invalid_handle"
  shows "wp T (\<lambda>_ n. n = 0) w (convert_files c [f])"
  by (auto simp: convert_file_def dest!: assms)

end
