(* ===== verification/RepText.thy ===== *)
theory RepText
  imports CStrings CLib Worlds
begin

text \<open>
  \<open>reptxt32.cpp\<close>: replaces a text by another of the same length in the files that a pattern
  names. The files are mapped into memory and searched byte by byte. If the new text cannot take
  part in a further occurrence of the old one, the effect is that of a replacement from left to
  right; otherwise it is not.
\<close>

section \<open>Calls\<close>

text \<open>
  An entry of a directory is in \<open>attributes\<close>, \<open>num\<close> (its size) and \<open>line\<close> (its name); the memory
  of a file in \<open>out\<close>. \<open>Store\<close> writes to that memory. \<open>CompareString\<close> answers \<open>2\<close> for strings that
  are equal under the rules of the locale, with or without regard to case.
\<close>

record rep_reply = reply +
  attributes :: DWORD

datatype rep_call =
    Puts string
  | Printf string "arg list"
  | Perror string
  | Fgets nat
  | Clreol
  | Sleep
  | FindFirst string
  | FindNext int
  | FindClose int
  | SetFileAttributes string DWORD
  | OpenFile string
  | CloseHandle int
  | CreateFileMapping int
  | MapViewOfFile int
  | UnmapViewOfFile int
  | GetFileSize int
  | CompareString bool "byte list" "byte list"
  | Store nat "byte list"

type_synonym rep_prog = "(rep_call, rep_reply) prog"

section \<open>One file\<close>

text \<open>
  The search goes through all places where the text fits. A place beyond the memory is a crash.
  \<open>left\<close> counts the places; the last number of \<open>32\<close> bits would be followed by the first.
\<close>

primrec scan_file :: "nat \<Rightarrow> bool \<Rightarrow> string \<Rightarrow> byte list \<Rightarrow> byte list \<Rightarrow> nat \<Rightarrow> byte list \<Rightarrow> DWORD \<Rightarrow>
    (DWORD \<Rightarrow> rep_prog) \<Rightarrow> rep_prog" where
  "scan_file 0 nocase file old new now m occur k = (if now = 2 ^ 32 then OutOfFuel else k occur)"
| "scan_file (Suc left) nocase file old new now m occur k =
    (if now + length old > length m then Crash
     else
       Sys (CompareString nocase (peek m now (length old)) old) (\<lambda>c.
         if rv c = 2 then
           Sys (Store now new) (\<lambda>_.
           Sys (Printf ''%u replacement%s in %s...'' [I (uint (occur + 1)), S file]) (\<lambda>_.
           Sys Clreol (\<lambda>_.
           Sys Sleep (\<lambda>_. scan_file left nocase file old new (now + 1) (poke m now new) (occur + 1) k))))
         else Sys Sleep (\<lambda>_. scan_file left nocase file old new (now + 1) m occur k)))"

definition process :: "bool \<Rightarrow> string \<Rightarrow> byte list \<Rightarrow> byte list \<Rightarrow> (DWORD \<Rightarrow> rep_prog) \<Rightarrow> rep_prog" where
  "process nocase file old new k =
    Sys (OpenFile file) (\<lambda>f.
      if rv f = invalid_handle then Sys (Perror file) (\<lambda>_. k 0)
      else
        Sys (Printf ''Reading %s...'' [S file]) (\<lambda>_.
        Sys Clreol (\<lambda>_.
        Sys (CreateFileMapping (rv f)) (\<lambda>h.
          if rv h = 0 then Sys (Perror file) (\<lambda>_. Sys (CloseHandle (rv f)) (\<lambda>_. k 0))
          else
            Sys (MapViewOfFile (rv h)) (\<lambda>v.
              if rv v = 0 then
                Sys (Perror []) (\<lambda>_. Sys (CloseHandle (rv h)) (\<lambda>_. Sys (CloseHandle (rv f)) (\<lambda>_. k 0)))
              else
                Sys (Printf ''Searching %s...'' [S file]) (\<lambda>_.
                Sys Clreol (\<lambda>_.
                Sys (GetFileSize (rv f)) (\<lambda>z.
                  let stoppos = word_of_int (num z) - of_nat (length old) :: DWORD in
                  scan_file (Suc (unat stoppos)) nocase file old new 0 (out v) 0 (\<lambda>occur.
                    Sys (UnmapViewOfFile (rv v)) (\<lambda>_.
                    Sys (CloseHandle (rv h)) (\<lambda>_.
                    Sys (CloseHandle (rv f)) (\<lambda>_. k occur))))))))))))"

section \<open>The files of a pattern\<close>

definition FILE_ATTRIBUTE_HIDDEN :: DWORD where "FILE_ATTRIBUTE_HIDDEN = 0x2"
definition FILE_ATTRIBUTE_DIRECTORY :: DWORD where "FILE_ATTRIBUTE_DIRECTORY = 0x10"
definition FILE_ATTRIBUTE_NORMAL :: DWORD where "FILE_ATTRIBUTE_NORMAL = 0x80"
definition MAX_PATH :: nat where "MAX_PATH = 260"
definition MAX_COMPARE_LENGTH :: nat where "MAX_COMPARE_LENGTH = 260"

record rep_options =
  hidden :: bool
  nocase :: bool

text \<open>The directory part of a pattern, with the separator.\<close>

definition directory_part :: "string \<Rightarrow> string" where
  "directory_part file = rev (dropWhile (\<lambda>c. c \<noteq> CHR 0x5C) (rev file))"

text \<open>
  What is done with an entry \<open>r\<close>. The attributes are set by the name alone; a path that fills its
  buffer has no end.
\<close>

definition handle_entry :: "rep_options \<Rightarrow> string \<Rightarrow> string \<Rightarrow> byte list \<Rightarrow> byte list \<Rightarrow> rep_reply \<Rightarrow> rep_prog \<Rightarrow> rep_prog" where
  "handle_entry opt dir text old new r k =
    (let name = line r; file = dir @ name in
     if attributes r AND FILE_ATTRIBUTE_DIRECTORY \<noteq> 0 then k
     else if num r < int (length old) then
       Sys (Printf ''File ignored: Too short'' [S name, S text]) (\<lambda>_. Sys Clreol (\<lambda>_. Sys (Puts []) (\<lambda>_. k)))
     else if length file \<ge> MAX_PATH then Crash
     else
       let go =
         process (nocase opt) file old new (\<lambda>dwReplaces.
           let after = (if hidden opt then Sys (SetFileAttributes name (attributes r)) (\<lambda>_. k) else k) in
           if dwReplaces \<noteq> 0 then
             Sys (Printf ''replaced'' [S text, I (uint dwReplaces), S file]) (\<lambda>_.
             Sys Clreol (\<lambda>_. Sys (Puts []) (\<lambda>_. after)))
           else after)
       in if hidden opt then Sys (SetFileAttributes name FILE_ATTRIBUTE_NORMAL) (\<lambda>_. go)
          else if attributes r AND FILE_ATTRIBUTE_HIDDEN \<noteq> 0 then k
          else go)"

primrec entry_loop :: "nat \<Rightarrow> rep_options \<Rightarrow> string \<Rightarrow> string \<Rightarrow> byte list \<Rightarrow> byte list \<Rightarrow> int \<Rightarrow> rep_reply \<Rightarrow> rep_prog" where
  "entry_loop 0 opt dir text old new h r = OutOfFuel"
| "entry_loop (Suc fuel) opt dir text old new h r =
    handle_entry opt dir text old new r
      (Sys (FindNext h) (\<lambda>r.
        if rv r \<noteq> 0 then entry_loop fuel opt dir text old new h r
        else Sys (FindClose h) (\<lambda>_. Sys (Puts []) (\<lambda>_. Sys Clreol (\<lambda>_. Done 0)))))"

definition replace_in_files :: "nat \<Rightarrow> rep_options \<Rightarrow> string \<Rightarrow> string \<Rightarrow> byte list \<Rightarrow> rep_prog" where
  "replace_in_files fuel opt file text new =
    Sys (FindFirst file) (\<lambda>r.
      if rv r = invalid_handle then Sys (Perror file) (\<lambda>_. Done (- 1))
      else entry_loop fuel opt (directory_part file) text (map of_char text) new (rv r) r)"

section \<open>The program\<close>

text \<open>
  A text of the command line without its quotation marks. An empty one is looked at in front of its
  first character, and one that fills the buffer has no end: both are None.
\<close>

definition quotation_mark :: char where "quotation_mark = CHR 0x22"

definition unquoted :: "nat \<Rightarrow> string \<Rightarrow> string option" where
  "unquoted room s =
    (let t = (if s \<noteq> [] \<and> hd s = quotation_mark then tl s else s) in
     if t = [] \<or> room \<le> length t then None
     else Some (if last t = quotation_mark then butlast t else t))"

definition or_crash :: "'a option \<Rightarrow> ('a \<Rightarrow> rep_prog) \<Rightarrow> rep_prog" where
  "or_crash x k = (case x of None \<Rightarrow> Crash | Some v \<Rightarrow> k v)"

text \<open>A text from the command line, or else from the user.\<close>

definition ask_text :: "string \<Rightarrow> nat \<Rightarrow> string list \<Rightarrow> (string \<Rightarrow> rep_prog) \<Rightarrow> rep_prog" where
  "ask_text prompt room args k =
    (case args of
       a # _ \<Rightarrow> or_crash (unquoted room a) k
     | [] \<Rightarrow>
         Sys (Printf prompt []) (\<lambda>_.
         Sys (Fgets room) (\<lambda>r. if line r = [] then Crash else k (butlast (line r)))))"

text \<open>
  The new text in a buffer of \<open>n\<close> bytes: \<open>strncpy\<close> fills up with zeros, and the first of them
  becomes a blank. A line of the user stands in a buffer of blanks and keeps its end.
\<close>

definition new_text :: "nat \<Rightarrow> string list \<Rightarrow> (byte list \<Rightarrow> rep_prog) \<Rightarrow> rep_prog" where
  "new_text n args k =
    (case args of
       a # _ \<Rightarrow> or_crash (unquoted (n + 1) a) (\<lambda>t. k (take n (map of_char t @ 32 # replicate n 0)))
     | [] \<Rightarrow>
         Sys (Printf ''Type the replacement text string   : '' []) (\<lambda>_.
         Sys (Fgets (n + 1)) (\<lambda>r.
           if line r = [] then Crash else k (take n (map of_char (line r) @ replicate n 32)))))"

definition letter :: "nat \<Rightarrow> string \<Rightarrow> char \<Rightarrow> bool" where
  "letter i a c \<longleftrightarrow> i < length a \<and> fold_case (a ! i) = c"

text \<open>At most two arguments are switches; None shows the usage.\<close>

fun rep_switches :: "nat \<Rightarrow> string list \<Rightarrow> rep_options \<Rightarrow> (rep_options \<times> string list) option" where
  "rep_switches 0 args opt = Some (opt, args)"
| "rep_switches (Suc n) [] opt = Some (opt, [])"
| "rep_switches (Suc n) (a # args) opt =
    (if a \<noteq> [] \<and> is_switch (hd a) then
       if letter 1 a CHR ''a'' then
         rep_switches n args (opt\<lparr>hidden := True, nocase := nocase opt \<or> letter 2 a CHR ''i''\<rparr>)
       else if letter 1 a CHR ''i'' then
         rep_switches n args (opt\<lparr>nocase := True, hidden := hidden opt \<or> letter 2 a CHR ''a''\<rparr>)
       else None
     else rep_switches n (a # args) opt)"

definition reptxt32_main :: "nat \<Rightarrow> string list \<Rightarrow> rep_prog" where
  "reptxt32_main fuel argv =
    (case rep_switches 2 argv \<lparr>hidden = False, nocase = False\<rparr> of
       None \<Rightarrow> Sys (Puts ''REPTXT32, freeware by Olof Lagerkvist.'') (\<lambda>_. Done 0)
     | Some (opt, args) \<Rightarrow>
         ask_text ''Filename: '' MAX_PATH args (\<lambda>file.
           or_crash (strtrm (file @ [NUL]) (Some 0)) (\<lambda>(m, q).
             let file = cstring m (the q) in
             if file = [] then Done 0
             else
               ask_text ''Type the text string to be replaced: '' MAX_COMPARE_LENGTH (drop 1 args) (\<lambda>text.
                 if text = [] then Done 0
                 else new_text (length text) (drop 2 args) (replace_in_files fuel opt file text)))))"

section \<open>Replacement\<close>

text \<open>The replacement of a text from left to right, and what the search of the program makes.\<close>

lemma fits: "old \<noteq> [] \<Longrightarrow> \<not> length xs < length old \<Longrightarrow> 0 < length xs \<and> 0 < length old"
  by (cases old) auto

function replaced :: "'a list \<Rightarrow> 'a list \<Rightarrow> 'a list \<Rightarrow> 'a list" where
  "replaced old new xs =
    (if old = [] \<or> length xs < length old then xs
     else if take (length old) xs = old then new @ replaced old new (drop (length old) xs)
     else hd xs # replaced old new (tl xs))"
  by pat_completeness auto
termination by (relation "measure (\<lambda>(old, new, xs). length xs)") (auto dest: fits)

function swept :: "'a list \<Rightarrow> 'a list \<Rightarrow> 'a list \<Rightarrow> 'a list" where
  "swept old new xs =
    (if old = [] \<or> length xs < length old \<or> length new \<noteq> length old then xs
     else
       let ys = (if take (length old) xs = old then new @ drop (length old) xs else xs) in
       hd ys # swept old new (tl ys))"
  by pat_completeness auto
termination by (relation "measure (\<lambda>(old, new, xs). length xs)") (auto simp: Let_def dest: fits)

declare replaced.simps [simp del] swept.simps [simp del]

text \<open>No end of the new text is a beginning of the old one.\<close>

definition apart :: "'a list \<Rightarrow> 'a list \<Rightarrow> bool" where
  "apart old new \<longleftrightarrow> (\<forall>i \<in> set [1..<length old]. drop i new \<noteq> take (length old - i) old)"

lemma swept_through:
  assumes "apart old new" "length new = length old"
  shows "0 < i \<Longrightarrow> i \<le> length old \<Longrightarrow> swept old new (drop i new @ zs) = drop i new @ swept old new zs"
proof (induction "length old - i" arbitrary: i)
  case 0
  with assms(2) show ?case by simp
next
  case (Suc d)
  let ?xs = "drop i new @ zs"
  have i: "i < length new" using Suc.hyps(2) assms(2) by simp
  show ?case
  proof (cases "length ?xs < length old")
    case True
    then have "length zs < length old" by simp
    with True show ?thesis by (simp add: swept.simps[of old new ?xs] swept.simps[of old new zs])
  next
    case False
    have "take (length old) ?xs \<noteq> old"
    proof
      assume "take (length old) ?xs = old"
      then have "take (length old - i) (take (length old) ?xs) = take (length old - i) old" by simp
      then have "drop i new = take (length old - i) old" using assms(2) by (simp add: min_absorb1)
      moreover have "i \<in> set [1..<length old]" using Suc.prems i assms(2) by simp
      ultimately show False using assms(1) by (auto simp: apart_def)
    qed
    moreover have "?xs = new ! i # (drop (Suc i) new @ zs)" using i by (simp add: Cons_nth_drop_Suc)
    moreover have "old \<noteq> []" using Suc.prems i assms(2) by auto
    ultimately have "swept old new ?xs = new ! i # swept old new (drop (Suc i) new @ zs)"
      using False assms(2) swept.simps[of old new ?xs] by (simp add: Let_def)
    also have "\<dots> = new ! i # drop (Suc i) new @ swept old new zs"
      using Suc.hyps(1)[of "Suc i"] Suc.hyps(2) Suc.prems by simp
    finally show ?thesis using i by (simp add: Cons_nth_drop_Suc[symmetric])
  qed
qed

lemma swept_replaced:
  assumes "apart old new" "length new = length old"
  shows "swept old new xs = replaced old new xs"
proof (induction xs rule: length_induct)
  case (1 xs)
  consider "old = [] \<or> length xs < length old" | "old \<noteq> []" "\<not> length xs < length old" "take (length old) xs = old"
    | "old \<noteq> []" "\<not> length xs < length old" "take (length old) xs \<noteq> old" by blast
  then show ?case
  proof cases
    case 1
    then have "swept old new xs = xs" "replaced old new xs = xs" by (subst swept.simps replaced.simps, auto)+
    then show ?thesis by simp
  next
    case 2
    then obtain a as where new: "new = a # as" using assms(2) by (cases new) auto
    have "swept old new xs = a # swept old new (drop 1 new @ drop (length old) xs)"
      using 2 assms(2) new by (subst swept.simps) (simp add: Let_def)
    also have "\<dots> = new @ swept old new (drop (length old) xs)"
      using swept_through[OF assms, of 1 "drop (length old) xs"] 2(1) new by (cases old) auto
    also have "\<dots> = new @ replaced old new (drop (length old) xs)"
      using "1.IH" fits[OF 2(1,2)] by simp
    finally show ?thesis using 2 by (simp add: replaced.simps[of old new xs])
  next
    case 3
    then show ?thesis
      using "1.IH" fits[OF 3(1,2)] assms(2) by (simp add: replaced.simps[of old new xs] swept.simps[of old new xs] Let_def)
  qed
qed

section \<open>A directory with one file\<close>

text \<open>
  The pattern finds one file, of the name \<open>nm\<close>, which is neither hidden nor a directory and can be
  opened and mapped. With regard to case, equality of strings is equality of bytes.
\<close>

definition rep_world :: "string \<Rightarrow> (byte list, rep_call, rep_reply) world" where
  "rep_world nm w c r w' \<longleftrightarrow>
    (case c of
       FindFirst f \<Rightarrow> rv r \<noteq> invalid_handle \<and> attributes r = FILE_ATTRIBUTE_NORMAL \<and> num r = int (length w) \<and> line r = nm \<and> w' = w
     | FindNext h \<Rightarrow> rv r = 0 \<and> w' = w
     | OpenFile f \<Rightarrow> rv r \<noteq> invalid_handle \<and> w' = w
     | CreateFileMapping h \<Rightarrow> rv r \<noteq> 0 \<and> w' = w
     | MapViewOfFile h \<Rightarrow> rv r \<noteq> 0 \<and> out r = w \<and> w' = w
     | GetFileSize h \<Rightarrow> num r = int (length w) \<and> w' = w
     | CompareString nc a b \<Rightarrow> (nc \<or> (rv r = 2 \<longleftrightarrow> a = b)) \<and> w' = w
     | Store p bs \<Rightarrow> w' = poke w p bs
     | _ \<Rightarrow> w' = w)"

lemma rep_world_simps [simp]:
  "rep_world nm w (Puts t) r w' \<longleftrightarrow> w' = w" "rep_world nm w (Printf t xs) r w' \<longleftrightarrow> w' = w"
  "rep_world nm w Clreol r w' \<longleftrightarrow> w' = w" "rep_world nm w Sleep r w' \<longleftrightarrow> w' = w"
  "rep_world nm w (FindClose h) r w' \<longleftrightarrow> w' = w" "rep_world nm w (CloseHandle h) r w' \<longleftrightarrow> w' = w"
  "rep_world nm w (UnmapViewOfFile h) r w' \<longleftrightarrow> w' = w" "rep_world nm w (Store p bs) r w' \<longleftrightarrow> w' = poke w p bs"
  "rep_world nm w (CompareString False a b) r w' \<longleftrightarrow> (rv r = 2 \<longleftrightarrow> a = b) \<and> w' = w"
  "rep_world nm w (FindFirst f) r w' \<longleftrightarrow>
    rv r \<noteq> invalid_handle \<and> attributes r = FILE_ATTRIBUTE_NORMAL \<and> num r = int (length w) \<and> line r = nm \<and> w' = w"
  "rep_world nm w (FindNext h) r w' \<longleftrightarrow> rv r = 0 \<and> w' = w"
  "rep_world nm w (OpenFile f) r w' \<longleftrightarrow> rv r \<noteq> invalid_handle \<and> w' = w"
  "rep_world nm w (CreateFileMapping h) r w' \<longleftrightarrow> rv r \<noteq> 0 \<and> w' = w"
  "rep_world nm w (MapViewOfFile h) r w' \<longleftrightarrow> rv r \<noteq> 0 \<and> out r = w \<and> w' = w"
  "rep_world nm w (GetFileSize h) r w' \<longleftrightarrow> num r = int (length w) \<and> w' = w"
  by (simp_all add: rep_world_def)

text \<open>One step of the search on the memory.\<close>

lemma fits_room: "now + length old \<le> length m \<Longrightarrow> old \<noteq> [] \<Longrightarrow> now < length m"
  by (cases old) auto

lemma swept_step:
  assumes "now + length old \<le> length m" "length new = length old" "old \<noteq> []"
    and "m' = (if peek m now (length old) = old then poke m now new else m)"
  shows "take (now + 1) m' @ swept old new (drop (now + 1) m') = take now m @ swept old new (drop now m)"
proof -
  have d: "drop now m' = (if take (length old) (drop now m) = old then new @ drop (length old) (drop now m) else drop now m)"
    "take now m' = take now m" "now < length m'" "length m' = length m"
    using assms(1-3) unfolding assms(4) by (auto simp: peek_def poke_def add.commute fits_room)
  then have "swept old new (drop now m) = hd (drop now m') # swept old new (tl (drop now m'))"
    using assms(1-3) by (subst swept.simps) (simp add: Let_def)
  moreover have "hd (drop now m') = m' ! now" "tl (drop now m') = drop (now + 1) m'"
    using d(3) by (simp_all add: hd_drop_conv_nth tl_drop drop_Suc)
  ultimately show ?thesis using d(2,3) by (simp add: take_Suc_conv_app_nth)
qed

lemma wp_scan_file:
  assumes "length new = length old" "old \<noteq> []"
  shows "now + left + length old = Suc (length m) \<Longrightarrow> length m < 2 ^ 32 \<Longrightarrow>
    (\<And>occur. wpx (rep_world nm) Q E (take now m @ swept old new (drop now m)) (k occur)) \<Longrightarrow>
    wpx (rep_world nm) Q E m (scan_file left False file old new now m occur k)"
proof (induction left arbitrary: now m occur)
  case 0
  then have "length (drop now m) < length old" using assms(2) by (cases old) auto
  then have "take now m @ swept old new (drop now m) = m" by (simp add: swept.simps[of old new "drop now m"])
  moreover have "now \<noteq> 2 ^ 32" using 0(1,2) assms(2) by (cases old) auto
  ultimately show ?case using 0(3)[of occur] by simp
next
  case (Suc left)
  have fit: "now + length old \<le> length m" using Suc.prems(1) by simp
  have step: "wpx (rep_world nm) Q E m' (scan_file left False file old new (now + 1) m' occur' k)"
    if "m' = (if peek m now (length old) = old then poke m now new else m)" for m' occur'
  proof (rule Suc.IH)
    have l: "length m' = length m" using that fit assms(1) by simp
    then show "now + 1 + left + length old = Suc (length m')" "length m' < 2 ^ 32" using Suc.prems(1,2) by simp_all
    show "wpx (rep_world nm) Q E (take (now + 1) m' @ swept old new (drop (now + 1) m')) (k occur'')" for occur''
      using Suc.prems(3)[of occur''] unfolding swept_step[OF fit assms that] .
  qed
  show ?case
    using fit step[of "poke m now new"] step[of m] by auto
qed

lemma wp_process:
  assumes "length new = length old" "old \<noteq> []" "length old \<le> length w" "length w < 2 ^ 32"
    and "\<And>occur. wpx (rep_world nm) Q E (swept old new w) (k occur)"
  shows "wpx (rep_world nm) Q E w (process False file old new k)"
proof -
  have "unat (of_nat (length w) - of_nat (length old) :: DWORD) = length w - length old"
    using assms(3,4) by (simp add: unat_sub word_le_nat_alt unsigned_of_nat take_bit_nat_eq_self)
  then have "wpx (rep_world nm) Q E w (scan_file (Suc (unat (of_nat (length w) - of_nat (length old) :: DWORD))) False file old new 0 w 0
      (\<lambda>occur. Sys (UnmapViewOfFile v) (\<lambda>_. Sys (CloseHandle h) (\<lambda>_. Sys (CloseHandle f) (\<lambda>_. k occur)))))" for v h f
    using assms by (intro wp_scan_file) simp_all
  then show ?thesis by (auto simp: process_def Let_def simp del: scan_file.simps)
qed

lemma wp_handle_entry:
  assumes "length new = length text" "text \<noteq> []" "length w < 2 ^ 32" "apart (map of_char text) new"
    and "attributes r = FILE_ATTRIBUTE_NORMAL" "num r = int (length w)" "length (dir @ line r) < MAX_PATH"
    and k: "wpx (rep_world nm) Q E (replaced (map of_char text) new w) k"
  shows "wpx (rep_world nm) Q E w
    (handle_entry \<lparr>hidden = False, nocase = False\<rparr> dir text (map of_char text) new r k)"
proof (cases "length w < length text")
  case True
  with assms(5,6) k show ?thesis
    by (simp add: handle_entry_def Let_def FILE_ATTRIBUTE_NORMAL_def FILE_ATTRIBUTE_DIRECTORY_def replaced.simps[of _ _ w])
next
  case False
  have "wpx (rep_world nm) Q E w (process False path (map of_char text) new j)"
    if "\<And>occur. wpx (rep_world nm) Q E (replaced (map of_char text) new w) (j occur)" for path j
    using that False assms(1-4) swept_replaced[OF assms(4), of w] by (intro wp_process) simp_all
  then show ?thesis
    using False assms(5-7) k
    by (simp add: handle_entry_def Let_def FILE_ATTRIBUTE_NORMAL_def FILE_ATTRIBUTE_DIRECTORY_def FILE_ATTRIBUTE_HIDDEN_def)
qed

lemma wp_replace_in_files:
  assumes "length new = length text" "text \<noteq> []" "length (directory_part file @ nm) < MAX_PATH" "length w < 2 ^ 32" "0 < fuel"
    and "apart (map of_char text) new"
  shows "wp (rep_world nm) (\<lambda>w' n. n = 0 \<and> w' = replaced (map of_char text) new w) w
    (replace_in_files fuel \<lparr>hidden = False, nocase = False\<rparr> file text new)"
proof -
  obtain f where "fuel = Suc f" using assms(5) by (cases fuel) auto
  with assms show ?thesis by (auto simp: replace_in_files_def intro!: wp_handle_entry)
qed



section \<open>Where the code differs from its description\<close>

text \<open>
  The search goes on inside what it has just written, so that a text may be replaced that was not
  there: of \<open>abb\<close> it makes \<open>cca\<close> when \<open>ab\<close> is to be \<open>ca\<close>.
\<close>

lemma replaces_replacement:
  "swept ''ab'' ''ca'' ''abb'' = ''cca''" "replaced ''ab'' ''ca'' ''abb'' = ''cab''"
  by (simp_all add: swept.simps replaced.simps)

text \<open>A shorter text brings zeros into the files, and one that the user types the end of its line.\<close>

lemma shorter_text_has_zeros: "new_text 4 [''ab''] k = k [97, 98, 32, 0]"
  by (simp add: new_text_def unquoted_def or_crash_def quotation_mark_def eval_nat_numeral)

text \<open>An empty argument is looked at in front of its beginning.\<close>

lemma empty_name_crashes: "reptxt32_main fuel [[]] = Crash"
  by (simp add: reptxt32_main_def numeral_2_eq_2 ask_text_def or_crash_def unquoted_def)

text \<open>The attributes are set by the name of the file alone, so in the current directory.\<close>

lemma attributes_by_name:
  assumes "attributes r = FILE_ATTRIBUTE_NORMAL" "int (length old) \<le> num r" "length (dir @ line r) < MAX_PATH" "hidden opt"
  shows "\<exists>j. handle_entry opt dir text old new r k = Sys (SetFileAttributes (line r) FILE_ATTRIBUTE_NORMAL) j"
  using assms by (simp add: handle_entry_def Let_def FILE_ATTRIBUTE_NORMAL_def FILE_ATTRIBUTE_DIRECTORY_def)

end
