(* ===== verification/Spec2Isabelle.thy ===== *)
theory Spec2Isabelle
  imports CStrings MemSearch WiMath Filters StripCr FSplit ChkFile Lnk Junc Mmap Sockets
    Games Personnr MoveTools FileTimes NtNames Pipes Clipboard Devices Philosophers UrlNames
    Uptime Procs NoExcept PrimeSer TruncZero Checksum SysInfo SockHelp
    LinkTrack ArcMain FdfSafe XorSum RawCopy PopDump ImageTools SizDir TxtConv RepText
begin

text \<open>
  The ltrdata tools: a development for the command line programs and the small library
  functions of the repository.

  \<^bold>\<open>The program.\<close> The repository is a collection of programs, most of them for Windows.
  Two are large: \<open>src/win32/strarc\<close>, an archiver that stores the streams of \<open>BackupRead\<close>
  with the names and the facts of the files and gives them back, and \<open>src/win32/fdf\<close>, which
  finds files with equal content and deletes or links them. The others are small, under
  \<open>src/win32/c\<close>, \<open>src/win32/cpp\<close> and \<open>src/posix\<close>. A program reads its arguments, often with one
  loop over switch letters that the sources call the nice argument parse loop, makes a
  sequence of system calls, reports every failure and ends with a status. They share a few
  functions: string trimming (\<open>olofstr.c\<close>, \<open>wstring.c\<close>), searching (\<open>wmemstr.c\<close>), number
  theory (\<open>wimath.c\<close>), memory mapping (\<open>wmmap.c\<close>), file comparison (\<open>fdf/chkfile.c\<close>), hard
  links (\<open>fdf/lnk.c\<close>), native files (\<open>include/ntfileio.hpp\<close>), dates (\<open>wtime.c\<close>, \<open>wtimeflt.c\<close>).

  \<^bold>\<open>How it is modelled.\<close> There are two kinds of definitions.

  Functions on memory (\<open>CStrings\<close>, \<open>MemSearch\<close>, \<open>WiMath\<close>, \<open>UrlNames\<close>, the window of
  \<open>StripCr\<close>) take the buffer as a list and pointers as positions in it; a pointer that may be
  NULL is an option, and a read or write outside the buffer, a division that C leaves
  undefined or an index out of bounds makes the result None. Machine words are words of
  their width; \<open>int\<close> is a HOL integer with the places where C is undefined written out.

  Programs that talk to the system are trees (theory \<open>Prog\<close>): \<open>Sys c k\<close> makes the call \<open>c\<close> and
  goes on with \<open>k\<close> applied to the reply, \<open>Done n\<close> ends with status \<open>n\<close>, \<open>Crash\<close> is a step
  that C leaves undefined and \<open>OutOfFuel\<close> the end of the fuel of a loop that has no bound of
  its own. Each theory has a datatype of the calls its programs make, with the arguments
  that matter; messages are calls too, named by their text or its first words. A reply is a
  record: return value, bytes or text that were stored, a number that was stored, error code.
  The tree knows nothing of the environment. Five ways to run it serve the statements:
  \<open>runs R p tr n\<close> (with replies that \<open>R\<close> allows, \<open>p\<close> makes the calls \<open>tr\<close> and ends with \<open>n\<close>),
  \<open>holds R Q h p\<close> (its weakest precondition, which the simplifier computes), \<open>total R p\<close> (no
  crash and enough fuel, whatever is replied) and \<open>interp H s p\<close> (a run against a function
  that keeps a state: a disk, a pipe, a network), and \<open>wp T Q w p\<close> (theory \<open>Worlds\<close>: the
  weakest precondition against a relation \<open>T\<close> that says which replies and next states a call
  may have in the state \<open>w\<close>; it includes that there is no crash and that the fuel is enough.
  \<open>wpx T Q E\<close> asks for \<open>E\<close> where the fuel ends). \<open>anything\<close> is the relation that allows every
  reply; where a statement uses it, it holds for any behaviour of the system.

  The members of a C++ class are the fields of a record that the functions pass on; what a
  function stores through its pointers goes to its continuation (the last argument \<open>k\<close>); an
  exception is the end of the program that the handler of the start code gives it.

  \<^bold>\<open>Theories and sources.\<close> \<open>Prelude\<close>, \<open>CLib\<close> (\<open>strtoul\<close>, \<open>printf\<close> of numbers, truncating
  division), \<open>Prog\<close>, \<open>Worlds\<close> and \<open>Args\<close> (the switch loop, the start code) are shared. Then
  the archiver, in the order of its data:
  \<^item> \<open>ArcCalls\<close>: the calls of \<open>strarc\<close> and \<open>include/ntfileio.hpp\<close>. \<open>ArcStream\<close>:
    \<open>strarc.hpp\<close> and \<open>strarc.cpp\<close>, the session, its start and end, exceptions, reading and
    writing the archive and the search for the next header in a damaged one (C4).
  \<^item> \<open>LinkTrack\<close>: \<open>linktrack.hpp\<close>, \<open>linktrack.cpp\<close>, \<open>MatchLink\<close>; the table is a map from file
    keys to first names (C7, C13). \<open>Tokens\<close>, \<open>ArcFilter\<close>: the include and exclude lists, and
    the names of constants in \<open>constnam.cpp\<close> (C14).
  \<^item> \<open>ArcBackup\<close>: \<open>backup.cpp\<close>, files, directories and lists of names, and the bytes of the
    archive (C9). \<open>ArcRestore\<close>: \<open>restore.cpp\<close>. \<open>ArcRoundTrip\<close>: the streams come back (C8), and
    backup and restore are inverse (C1). \<open>ArcMain\<close>: \<open>parsecmd.cpp\<close>, \<open>exemain.cpp\<close>, \<open>regsnap.cpp\<close>,
    \<open>sleep.cpp\<close> and the functions that open, with a whole run (C6).

  The finder of duplicates:
  \<^item> \<open>ChkFile\<close>: \<open>fdf/chkfile.c\<close>, the handles of a comparison and what equality means (C10,
    C35). \<open>Lnk\<close>: \<open>fdf/lnk.c\<close>, \<open>strarc/lnk.c\<close> and the resources of a hard link (C37).
  \<^item> \<open>Fdf\<close>: \<open>fdftable.hpp\<close>, \<open>fdf.cpp\<close> and the search of \<open>include/wfind.h\<close>. \<open>FdfTable\<close>: a disk
    whose files do not change; comparison and sums together are equality of content.
    \<open>FdfLookup\<close>: the table is a set of contents (C3). \<open>FdfSafe\<close>: no content is lost (C2).
    \<open>XorSum\<close>: \<open>fdf/xorsum.cpp\<close>.

  One theory for each group of small programs:
  \<^item> \<open>CStrings\<close>: \<open>olofstr.c\<close>, \<open>wstring.c\<close>. Trimming, with the read before the object that
    blank strings cause (C31).
  \<^item> \<open>MemSearch\<close>: \<open>wmemstr.c\<close>, \<open>wmemwcs.c\<close>, \<open>wcscnt\<close>, \<open>strlwr.c\<close>. First occurrence and
    bounds (C32).
  \<^item> \<open>WiMath\<close>: \<open>wimath.c\<close>, \<open>primtal.c\<close>, \<open>fraction.c\<close>. Greatest common divisor with its
    undefined cases, factorisation through a callback, both sessions (C33, C34).
  \<^item> \<open>Filters\<close>: \<open>rot13.c\<close>, \<open>chr7filter.c\<close>, \<open>extrtext32.c\<close>, \<open>aaofiltr.c\<close>, \<open>strmchr.c\<close>, against a
    pipe that hands out its input in pieces of any size (C30).
  \<^item> \<open>StripCr\<close>: \<open>stripcr.c\<close> as a filter and in place, where the window that is read and the
    window that is written lie over the same file (C19, C20).
  \<^item> \<open>FSplit\<close>: \<open>fsplit32.c\<close> on a disk (C11). \<open>Junc\<close>: \<open>junc.c\<close>, the reparse record byte for
    byte (C22). \<open>Mmap\<close>: \<open>wmmap.c\<close>, \<open>wmsync.c\<close> (C39).
  \<^item> \<open>Sockets\<close>: \<open>finger.c\<close> twice, \<open>whois.c\<close>, \<open>gethost.c\<close> (C36). \<open>Games\<close>: \<open>gissatal.c\<close> as a
    state machine, \<open>lotto.c\<close>, \<open>genpwds.c\<close> (C40). \<open>Personnr\<close>: \<open>personnr.c\<close>.
  \<^item> \<open>MoveTools\<close>: \<open>movent.c\<close>, \<open>lowerfn.c\<close>, \<open>radera.c\<close>, \<open>hardlink.c\<close>, \<open>nameansi2oem.c\<close>.
    \<open>FileTimes\<close>: \<open>roundft.c\<close>, \<open>copyft.c\<close> (C38). \<open>NtNames\<close>: \<open>ntrm.c\<close>,
    \<open>shortren.c\<close>, \<open>dos2nt.c\<close>.
  \<^item> \<open>Pipes\<close>: \<open>fwpipes.c\<close>, \<open>txfile.c\<close>. \<open>Clipboard\<close>: \<open>writeclp.c\<close>, \<open>readclp.c\<close>.
    \<open>Devices\<close>: \<open>devioctl.c\<close>, \<open>chsize32.c\<close>, \<open>umount.c\<close> (C29).
  \<^item> \<open>Philosophers\<close>: \<open>filosof.cpp\<close>, \<open>nyfilosof.cpp\<close> as machines that any philosopher may
    advance (C17, C18). \<open>UrlNames\<close>: \<open>undecorateurl.cpp\<close>.
  \<^item> \<open>Uptime\<close>: \<open>tickcount.c\<close>, \<open>tickcntw.c\<close>, \<open>wtimeflt.c\<close>. \<open>Procs\<close>: \<open>waitpid.c\<close>,
    \<open>runwait.c\<close>, \<open>runwaitw.c\<close>, \<open>logonwrap.c\<close>, \<open>cpretpid.c\<close>, \<open>setprio.c\<close>, \<open>logout.c\<close>,
    \<open>shutdown.c\<close>, \<open>wtime.c\<close> (C26). \<open>NoExcept\<close>: \<open>noexcept/noexcept.c\<close> (C27).
  \<^item> \<open>PrimeSer\<close>: \<open>primeser.cpp\<close>, proved against \<open>getprimefactors\<close> of \<open>WiMath\<close> (C28).
    \<open>TruncZero\<close>: \<open>trunczerotail.cpp\<close> (C23). \<open>Checksum\<close>: \<open>lrc.cpp\<close> on the pipe of
    \<open>Filters\<close>. \<open>SysInfo\<close>: the tools that show or set one thing of the system, \<open>w32ver.c\<close>,
    \<open>wntver.c\<close>, \<open>sysinf.c\<close>, \<open>validate.c\<close>, \<open>finddll.c\<close>, \<open>joindomain.c\<close>, \<open>showwin.c\<close> and others.
  \<^item> \<open>RawCopy\<close>: \<open>rawcopy.cpp\<close>, copies of files and devices; leaving out blocks of zeros or equal
    blocks changes nothing (C5). \<open>ImageTools\<close>: \<open>geteltorito.cpp\<close>, \<open>extrbin.cpp\<close> (C16).
    \<open>SizDir\<close>: \<open>sizdir32.cpp\<close>, whose totals are those of the files shown (C25). \<open>TxtConv\<close>:
    \<open>txtcnv32.cpp\<close>, conversion in place and of a stream in pieces (C24). \<open>RepText\<close>: \<open>reptxt32.cpp\<close>,
    a search in mapped memory against a replacement from left to right (C15).
  \<^item> \<open>SockHelp\<close>: \<open>posix/iohlp.cpp\<close>, \<open>posix/sockhlp.cpp\<close> and \<open>posix/websrv.cpp\<close>, lines over a
    channel that takes pieces (C21), the socket that a connection keeps, and what a browser is sent.
    \<open>PopDump\<close>: \<open>posix/popdump.cpp\<close>, a client of it that saves every message (C12).

  Definitions have the names of the functions they translate; a long function is cut where
  its early returns are, and its parts call each other in the order of the source.

  \<^bold>\<open>Interfaces.\<close> A locale stands where several components rely on one contract.
  \<open>inhabitant\<close> (\<open>Worlds\<close>) is a handler that a world relation allows; its lemma turns a weakest
  precondition into a fact about a run, and it is interpreted by the tape of \<open>ArcStream\<close>.
  \<open>restoring\<close> (\<open>ArcRoundTrip\<close>) is what the loop over the archive needs of the way a single file is
  handled; it is interpreted by the test of an archive and by the extraction.
  \<open>environment\<close> (\<open>Prog\<close>) connects a handler with the law that its replies obey; it is
  interpreted by the pipe of \<open>Filters\<close>, the two files of \<open>ChkFile\<close> and the tube of \<open>Pipes\<close>.
  \<open>resources\<close> (\<open>Prog\<close>) is a discipline of acquiring and releasing, with the balance of a
  run: file handles (\<open>ChkFile\<close>, \<open>FileTimes\<close>), link resources (\<open>Lnk\<close>), views (\<open>Mmap\<close>),
  sockets (\<open>Sockets\<close>, \<open>SockHelp\<close>), heap blocks (\<open>MoveTools\<close>), native names (\<open>NtNames\<close>), and what
  \<open>noexcept\<close> borrows from other processes, and the handles of \<open>strarc\<close>. \<open>factor_callback\<close> is what \<open>getprimefactors\<close> expects
  of its callback (printing in \<open>WiMath\<close>, collecting in \<open>PrimeSer\<close>), \<open>receiver\<close> what \<open>convert\<close> of \<open>stripcr\<close> expects of its source and sink,
  \<open>reporter\<close> the error reports of the network clients, and \<open>table_manners\<close> the order in which
  a philosopher takes the sticks. Each is interpreted on the definitions of the code, and the
  properties rest on the facts of the interpretations.

  \<^bold>\<open>Groups of lemmas.\<close> For each component: what every operation does on each of its
  branches, the invariant of its loop by induction on the data or the fuel, the balance of
  its resources through \<open>holds\<close>, and the behaviour where the code departs from its purpose
  (a lemma whose name says what goes wrong, such as \<open>copyft_leaks\<close>,
  \<open>undecorate_reads_behind\<close> or \<open>cpretpid_starts_itself\<close>).

  \<^bold>\<open>Fuel and bounds.\<close> Fuel appears only in loops that the environment ends: reading until the
  input is at its end, asking until an answer is acceptable, receiving until the other side
  closes. The functional properties assume no more than one unit for each byte, line, piece
  or answer, and one for the end; as no iteration consumes less, this is enough, and the
  statements conclude that the program ends with a status, never only what holds if it ends.
  The search of \<open>strarc\<close> for a header and its loops over streams and files take a unit for each
  byte that is left; \<open>fdf\<close> has one fuel for the walk over directories, which may come to no end
  through a junction, and another (\<open>io\<close>) for reading files, which must exceed the length of each.
  Safety properties hold for every amount of fuel (of \<open>fdf\<close>: of the walk), and so do the totals of
  \<open>sizdir32\<close>, whose walk may come to no end, either. The loops with a bound of their own are
  functions with a termination proof. Buffers have the sizes of the sources.

  \<^bold>\<open>What is relied on.\<close> The operating system, the socket library and the random numbers are
  parameters: handlers or laws that state documented behaviour (a read returns no more than it
  was asked for, a conversion answers TRUE or FALSE, the thread of a new process is its own).
  The C library functions that the programs use are modelled in \<open>CLib\<close> as the standard
  describes them, for a 32 bit \<open>long\<close>. The world of the archive (\<open>ArcStream\<close>) hands out the
  archive and the streams of a file in pieces, none of them empty before the end, takes the
  archive in pieces and the streams whole, and nobody cancels; that of \<open>fdf\<close> (\<open>FdfTable\<close>) has
  files that only \<open>fdf\<close> deletes, each path a file of its own. All other calls may answer anything.

  \<^bold>\<open>Not modelled.\<close> The ports of other authors' programs (\<open>win32_ports\<close>, \<open>posix/whois.c\<close>) and
  the copies of \<open>getopt\<close> and \<open>wwild\<close>, which are not the repository's own; the start code of
  the C library in \<open>minwcrt\<close> and the headers, which declare; the programs with windows and
  message loops (\<open>fsplitw\<close>, \<open>regrepl\<close>, \<open>ritprogr\<close>, \<open>winlogoncfg\<close>, \<open>sdonexit\<close>); \<open>inetd\<close>,
  \<open>chatsrv\<close> and \<open>LightRepeater\<close>, which are threads on a socket class library. Of \<open>strarc\<close>: the
  copy through a pipe between two threads (\<open>bfcopy.cpp\<close>, a call of the model), the filtered search
  and the constructors for users of the library, which the program does not use, and \<open>ntfind.cpp\<close>.
  Of \<open>src/win32/cpp\<close> and \<open>src/win32/c\<close>: programs that only print the answer of a call, that move data
  between calls of the network, the registry or the performance counters without a decision of
  their own, and the \<open>wperror\<close> family, whose result is a text of the system. Texts of messages are
  cut to what tells them apart, and usage texts to their being shown.
\<close>

end
